(* ===== verification/Sip_Prelude.thy ===== *)
theory Sip_Prelude
  imports Main "HOL-Library.List_Lexorder" "HOL-Library.Char_ord"
begin

text \<open>
  Shared vocabulary of the development: the ordered associative container behind every
  \<^verbatim>\<open>std::map\<close> of the sources, ordered sets of identifiers behind \<^verbatim>\<open>std::set\<close>, list
  lemmas on circular indices, and the generic locales for state machines whose operations keep
  an invariant and for machines that refine an abstract one.
\<close>

named_theorems smap_laws \<open>how the lookups of an ordered map change under its updates\<close>
named_theorems wf_intros \<open>preservation of well-formedness by the operations of a component\<close>

section \<open>Ordered maps\<close>

text \<open>
  A \<^verbatim>\<open>std::map<K, V>\<close> is an association list in strictly ascending key order, which is also the
  order in which a range-based \<^verbatim>\<open>for\<close> visits it. Keys of type \<^typ>\<open>string\<close> are compared
  byte by byte as unsigned values, as \<^verbatim>\<open>std::string\<close> compares them.
\<close>

type_synonym ('k, 'v) smap = "('k \<times> 'v) list"

definition smap_wf :: "('k::linorder, 'v) smap \<Rightarrow> bool" where
  "smap_wf m \<longleftrightarrow> sorted_wrt (<) (map fst m)"

abbreviation smap_find :: "('k, 'v) smap \<Rightarrow> 'k \<Rightarrow> 'v option" where
  "smap_find m k \<equiv> map_of m k"

text \<open>\<^verbatim>\<open>m[k] = v\<close> and \<^verbatim>\<open>insert_or_assign\<close>.\<close>

fun smap_set :: "'k::linorder \<Rightarrow> 'v \<Rightarrow> ('k, 'v) smap \<Rightarrow> ('k, 'v) smap" where
  "smap_set k v [] = [(k, v)]"
| "smap_set k v ((a, b) # m) =
     (if k < a then (k, v) # (a, b) # m
      else if k = a then (k, v) # m
      else (a, b) # smap_set k v m)"

text \<open>\<^verbatim>\<open>m.emplace(k, v)\<close>: an existing entry is left alone.\<close>

definition smap_emplace :: "'k::linorder \<Rightarrow> 'v \<Rightarrow> ('k, 'v) smap \<Rightarrow> ('k, 'v) smap" where
  "smap_emplace k v m = (case smap_find m k of None \<Rightarrow> smap_set k v m | Some _ \<Rightarrow> m)"

definition smap_erase :: "'k \<Rightarrow> ('k, 'v) smap \<Rightarrow> ('k, 'v) smap" where
  "smap_erase k m = filter (\<lambda>(a, _). a \<noteq> k) m"

text \<open>A loop \<^verbatim>\<open>for (auto& e : m) e.second = f(e.second)\<close>.\<close>

definition smap_map :: "('k \<Rightarrow> 'v \<Rightarrow> 'w) \<Rightarrow> ('k, 'v) smap \<Rightarrow> ('k, 'w) smap" where
  "smap_map f m = map (\<lambda>(k, v). (k, f k v)) m"

lemma find_smap_set [simp, smap_laws]: "smap_find (smap_set k v m) = (smap_find m)(k \<mapsto> v)"
  by (induction k v m rule: smap_set.induct) (auto simp: fun_eq_iff)

lemma find_smap_erase [simp, smap_laws]:
  "smap_find (smap_erase k m) = (smap_find m)(k := None)"
  by (induction m) (auto simp: smap_erase_def fun_eq_iff)

lemma find_smap_emplace [simp, smap_laws]:
  "smap_find (smap_emplace k v m) x =
     (if x = k \<and> smap_find m k = None then Some v else smap_find m x)"
  by (auto simp: smap_emplace_def split: option.splits)

lemma find_smap_map [simp, smap_laws]:
  "smap_find (smap_map f m) k = map_option (f k) (smap_find m k)"
  by (induction m) (auto simp: smap_map_def)

lemma keys_smap_set: "fst ` set (smap_set k v m) = insert k (fst ` set m)"
  by (induction k v m rule: smap_set.induct) auto

lemma set_smap_set: "set (smap_set k v m) \<subseteq> insert (k, v) (set m)"
  by (induction k v m rule: smap_set.induct) auto

lemma length_smap_set: "smap_find m k = None \<Longrightarrow> length (smap_set k v m) = Suc (length m)"
  by (induction k v m rule: smap_set.induct) (auto split: if_splits)

lemma in_smap_setD: "x \<in> set (smap_set k v m) \<Longrightarrow> x = (k, v) \<or> x \<in> set m"
  using set_smap_set by fast

lemma in_smap_emplaceD: "x \<in> set (smap_emplace k v m) \<Longrightarrow> x = (k, v) \<or> x \<in> set m"
  by (auto simp: smap_emplace_def split: option.splits dest: in_smap_setD)

lemma in_smap_erase [simp]: "x \<in> set (smap_erase k m) \<longleftrightarrow> x \<in> set m \<and> fst x \<noteq> k"
  by (auto simp: smap_erase_def)

lemma in_smap_map [simp]: "(k, w) \<in> set (smap_map f m) \<longleftrightarrow> (\<exists>v. (k, v) \<in> set m \<and> w = f k v)"
  by (auto simp: smap_map_def)

lemma smap_wf_Nil [simp, wf_intros]: "smap_wf []"
  by (simp add: smap_wf_def)

lemma smap_wf_set [simp, wf_intros]: "smap_wf m \<Longrightarrow> smap_wf (smap_set k v m)"
proof (induction k v m rule: smap_set.induct)
  case (1 k v)
  then show ?case by (simp add: smap_wf_def)
next
  case (2 k v a b m)
  have keys: "set (map fst (smap_set k v m)) = insert k (fst ` set m)"
    using keys_smap_set [of k v m] by simp
  show ?case
  proof (cases "k < a \<or> k = a")
    case True
    with "2.prems" show ?thesis by (auto simp: smap_wf_def)
  next
    case False
    then have "a < k" by auto
    with False "2" show ?thesis
      by (auto simp: smap_wf_def keys [unfolded set_map])
  qed
qed

lemma smap_wf_emplace [simp, wf_intros]: "smap_wf m \<Longrightarrow> smap_wf (smap_emplace k v m)"
  by (simp add: smap_emplace_def split: option.split)

lemma smap_wf_erase [simp, wf_intros]: "smap_wf m \<Longrightarrow> smap_wf (smap_erase k m)"
  by (induction m) (auto simp: smap_wf_def smap_erase_def)

lemma smap_wf_map [simp]: "smap_wf (smap_map f m) = smap_wf m"
  by (simp add: smap_wf_def smap_map_def comp_def case_prod_beta')

lemma smap_wf_distinct: "smap_wf m \<Longrightarrow> distinct (map fst m)"
  by (auto simp: smap_wf_def strict_sorted_iff)

lemma smap_find_iff: "smap_wf m \<Longrightarrow> smap_find m k = Some v \<longleftrightarrow> (k, v) \<in> set m"
  by (simp add: map_of_eq_Some_iff smap_wf_distinct)

lemma option_eqI: "(\<And>w. a = Some w \<longleftrightarrow> b = Some w) \<Longrightarrow> a = b"
  by (cases a; cases b) auto

lemma smap_ext:
  assumes "smap_wf m" and "smap_wf n" and "smap_find m = smap_find n"
  shows "m = n"
proof -
  have same: "set m = set n"
    using smap_find_iff [OF assms(1)] smap_find_iff [OF assms(2)] assms(3) by auto
  show ?thesis
  proof (rule map_sorted_distinct_set_unique [where f = fst])
    show "inj_on fst (set m \<union> set n)"
      using smap_wf_distinct [OF assms(1)] same by (simp add: distinct_map)
  qed (use assms same in \<open>auto simp: smap_wf_def strict_sorted_iff\<close>)
qed

text \<open>
  The contract a client of an ordered map relies on. The laws are the ones of a finite partial
  function; the lemmas below are proved once from them.
\<close>

locale finite_map =
  fixes empty :: "'m"
    and update :: "'k \<Rightarrow> 'v \<Rightarrow> 'm \<Rightarrow> 'm"
    and delete :: "'k \<Rightarrow> 'm \<Rightarrow> 'm"
    and lookup :: "'m \<Rightarrow> 'k \<Rightarrow> 'v option"
    and invar :: "'m \<Rightarrow> bool"
  assumes lookup_empty: "lookup empty k = None"
    and lookup_update: "invar m \<Longrightarrow> lookup (update k v m) = (lookup m)(k \<mapsto> v)"
    and lookup_delete: "invar m \<Longrightarrow> lookup (delete k m) = (lookup m)(k := None)"
    and invar_empty: "invar empty"
    and invar_update: "invar m \<Longrightarrow> invar (update k v m)"
    and invar_delete: "invar m \<Longrightarrow> invar (delete k m)"
begin

lemma lookup_update_all:
  assumes "invar m"
  shows "lookup (foldl (\<lambda>m (k, v). update k v m) m kvs) = lookup m ++ map_of (rev kvs)
    \<and> invar (foldl (\<lambda>m (k, v). update k v m) m kvs)"
  using assms
proof (induction kvs arbitrary: m)
  case Nil
  then show ?case by simp
next
  case (Cons kv kvs)
  obtain k v where kv: "kv = (k, v)" by (cases kv)
  from Cons.prems have "invar (update k v m)" by (rule invar_update)
  from Cons.IH [OF this] Cons.prems kv show ?case
    by (auto simp: lookup_update map_add_def fun_eq_iff split: option.splits)
qed

lemma lookup_delete_all:
  assumes "invar m"
  shows "lookup (foldl (\<lambda>m k. delete k m) m ks) k = (if k \<in> set ks then None else lookup m k)
    \<and> invar (foldl (\<lambda>m k. delete k m) m ks)"
  using assms by (induction ks arbitrary: m) (auto simp: lookup_delete invar_delete)

lemma delete_update:
  assumes "invar m" and "lookup m k = None"
  shows "lookup (delete k (update k v m)) = lookup m"
  using assms by (auto simp: lookup_delete lookup_update invar_update fun_eq_iff)

end

interpretation smap: finite_map "[]" smap_set smap_erase map_of smap_wf
  by unfold_locales auto

text \<open>Inserting the entries of an ordered map one by one into an empty one copies it.\<close>

lemma smap_copy:
  assumes "smap_wf kvs"
  shows "foldl (\<lambda>m (k, v). smap_set k v m) [] kvs = kvs"
proof (rule smap_ext)
  have "map_of (rev kvs) = map_of kvs"
    using map_of_inject_set [of "rev kvs" kvs] smap_wf_distinct [OF assms] by (simp add: rev_map [symmetric])
  then show "smap_find (foldl (\<lambda>m (k, v). smap_set k v m) [] kvs) = smap_find kvs"
    using smap.lookup_update_all [of "[]" kvs] by simp
qed (use smap.lookup_update_all [of "[]" kvs] assms in auto)

section \<open>Ordered sets\<close>

text \<open>A \<^verbatim>\<open>std::set<K>\<close> as the ascending list of its elements.\<close>

fun sset_insert :: "'k::linorder \<Rightarrow> 'k list \<Rightarrow> 'k list" where
  "sset_insert k [] = [k]"
| "sset_insert k (a # s) =
     (if k < a then k # a # s else if k = a then a # s else a # sset_insert k s)"

definition sset_erase :: "'k \<Rightarrow> 'k list \<Rightarrow> 'k list" where
  "sset_erase k s = filter (\<lambda>a. a \<noteq> k) s"

abbreviation sset_wf :: "'k::linorder list \<Rightarrow> bool" where
  "sset_wf s \<equiv> sorted_wrt (<) s"

lemma set_sset_insert [simp]: "set (sset_insert k s) = insert k (set s)"
  by (induction k s rule: sset_insert.induct) auto

lemma set_sset_erase [simp]: "set (sset_erase k s) = set s - {k}"
  by (auto simp: sset_erase_def)

lemma sset_wf_insert [simp, wf_intros]: "sset_wf s \<Longrightarrow> sset_wf (sset_insert k s)"
  by (induction k s rule: sset_insert.induct) auto

lemma sset_wf_erase [simp, wf_intros]: "sset_wf s \<Longrightarrow> sset_wf (sset_erase k s)"
  by (simp add: sset_erase_def sorted_wrt_filter)

lemma sset_insert_not_Nil [simp]: "sset_insert k s \<noteq> []"
  by (cases s) auto

section \<open>Drawing an unused identifier\<close>

text \<open>
  A loop \<^verbatim>\<open>do { x = random(); } while (used(x));\<close> over the values the generator produces. It ends
  with the first unused value; \<^verbatim>\<open>None\<close> means that all the listed values were in use.
\<close>

fun draw_until :: "('a \<Rightarrow> bool) \<Rightarrow> 'a list \<Rightarrow> 'a option" where
  "draw_until used [] = None"
| "draw_until used (x # xs) = (if used x then draw_until used xs else Some x)"

lemma draw_until_SomeD: "draw_until used xs = Some x \<Longrightarrow> x \<in> set xs \<and> \<not> used x"
  by (induction xs) (auto split: if_splits)

lemma draw_until_ends: "x \<in> set xs \<Longrightarrow> \<not> used x \<Longrightarrow> \<exists>y. draw_until used xs = Some y"
  by (induction xs) auto

section \<open>Machines that keep an invariant\<close>

text \<open>
  An object of the program is a state and a total step function over its operations. A run is
  the left fold of the step function over the operations in the order they are performed.
\<close>

locale invariant_machine =
  fixes step :: "'s \<Rightarrow> 'e \<Rightarrow> 's"
    and inv :: "'s \<Rightarrow> bool"
  assumes step_inv: "inv s \<Longrightarrow> inv (step s e)"
begin

lemma run_inv: "inv s \<Longrightarrow> inv (foldl step s es)"
  by (induction es arbitrary: s) (auto intro: step_inv)

lemma run_prefix_inv: "inv s \<Longrightarrow> inv (foldl step s (take n es))"
  by (rule run_inv)

end

text \<open>A machine refines an abstract one when each step commutes with the abstraction.\<close>

locale refinement_machine = invariant_machine step inv
  for step :: "'s \<Rightarrow> 'e \<Rightarrow> 's" and inv :: "'s \<Rightarrow> bool" +
  fixes abs :: "'s \<Rightarrow> 'a"
    and astep :: "'a \<Rightarrow> 'e \<Rightarrow> 'a"
  assumes step_refines: "inv s \<Longrightarrow> abs (step s e) = astep (abs s) e"
begin

lemma run_refines: "inv s \<Longrightarrow> abs (foldl step s es) = foldl astep (abs s) es"
proof (induction es arbitrary: s)
  case Nil
  then show ?case by simp
next
  case (Cons e es)
  from Cons.prems have "inv (step s e)" by (rule step_inv)
  then have "abs (foldl step (step s e) es) = foldl astep (abs (step s e)) es"
    by (rule Cons.IH)
  with Cons.prems show ?case by (simp add: step_refines)
qed

end

text \<open>A step relation, for operations that interleave freely, whose steps keep an invariant.\<close>

locale relational_machine =
  fixes init :: "'s \<Rightarrow> bool"
    and step :: "'s \<Rightarrow> 's \<Rightarrow> bool"
    and inv :: "'s \<Rightarrow> bool"
  assumes init_inv: "init s \<Longrightarrow> inv s"
    and step_inv: "step s t \<Longrightarrow> inv s \<Longrightarrow> inv t"
begin

lemma steps_inv: "step\<^sup>*\<^sup>* s t \<Longrightarrow> inv s \<Longrightarrow> inv t"
  by (induction rule: rtranclp_induct) (auto intro: step_inv)

lemma reachable_inv: "init s \<Longrightarrow> step\<^sup>*\<^sup>* s t \<Longrightarrow> inv t"
  by (auto intro: steps_inv init_inv)

end

text \<open>A part of the state that only some operations touch.\<close>

locale guarded_part =
  fixes part :: "'s \<Rightarrow> 'a"
    and step :: "'s \<Rightarrow> 'e \<Rightarrow> 's"
    and harmless :: "'e \<Rightarrow> bool"
  assumes step_keeps: "harmless e \<Longrightarrow> part (step s e) = part s"
begin

lemma run_keeps: "list_all harmless es \<Longrightarrow> part (foldl step s es) = part s"
  by (induction es arbitrary: s) (auto simp: step_keeps)

end

section \<open>Circular indices\<close>

lemma mod_add_diff_self:
  fixes e o' n :: nat
  assumes "e < n" and "o' < n"
  shows "(e + n - o') mod n = (if o' \<le> e then e - o' else e + n - o')"
proof (cases "o' \<le> e")
  case True
  then have "e + n - o' = (e - o') + n" by simp
  then have "(e + n - o') mod n = (e - o') mod n" by (simp only: mod_add_self2)
  with True assms show ?thesis by (simp only: if_True) simp
next
  case False
  with assms show ?thesis by simp
qed

lemma circular_distance_roundtrip:
  fixes e o' n :: nat
  assumes "e < n" and "o' < n"
  shows "(o' + (e + n - o') mod n) mod n = e"
  using assms by (auto simp: mod_add_diff_self)

lemma circular_distance_unique:
  fixes e o' n x :: nat
  assumes "o' < n" and "x < n" and "(o' + x) mod n = e"
  shows "(e + n - o') mod n = x"
proof (cases "o' + x < n")
  case True
  with assms(3) have "e = o' + x" by simp
  with assms(2) show ?thesis by simp
next
  case False
  with assms have "o' + x = e + n"
    by (metis add_less_mono div_less le_add_diff_inverse2 le_mod_geq linorder_not_less mod_less
        mult_2 nat_add_left_cancel_less less_diff_conv2)
  then have "e + n - o' = x" by simp
  with assms(2) show ?thesis by simp
qed

lemma circular_distance_Suc:
  fixes e o' n :: nat
  assumes "e < n" and "o' < n"
  shows "((e + 1) mod n + n - o') mod n = ((e + n - o') mod n + 1) mod n"
proof (rule circular_distance_unique [OF assms(2)])
  show "((e + n - o') mod n + 1) mod n < n" using assms by simp
  have "(o' + ((e + n - o') mod n + 1) mod n) mod n = (o' + (e + n - o') mod n + 1) mod n"
    by (simp add: mod_add_right_eq add.assoc)
  also have "\<dots> = ((o' + (e + n - o') mod n) mod n + 1) mod n"
    by (simp only: mod_add_left_eq)
  also have "\<dots> = (e + 1) mod n"
    by (simp only: circular_distance_roundtrip [OF assms])
  finally show "(o' + ((e + n - o') mod n + 1) mod n) mod n = (e + 1) mod n" .
qed

text \<open>The elements of a circular buffer from index \<open>s\<close> up to, not including, index \<open>e\<close>.\<close>

definition window :: "'a list \<Rightarrow> nat \<Rightarrow> nat \<Rightarrow> 'a list" where
  "window b s e =
     map (\<lambda>i. b ! ((s + i) mod length b)) [0..<(e + length b - s) mod length b]"

lemma length_window [simp]: "length (window b s e) = (e + length b - s) mod length b"
  by (simp add: window_def)

lemma window_empty [simp]: "e < length b \<Longrightarrow> window b e e = []"
  by (simp add: window_def)

lemma window_drop:
  assumes "e < length b" and "s < length b" and "m \<le> length (window b s e)"
  shows "window b ((s + m) mod length b) e = drop m (window b s e)"
proof -
  let ?n = "length b" and ?L = "length (window b s e)"
  have n: "0 < ?n" using assms by linarith
  have "((s + m) mod ?n + (?L - m)) mod ?n = (s + (m + (?L - m))) mod ?n"
    by (simp only: mod_add_left_eq add.assoc)
  also have "\<dots> = e"
    using assms by (simp add: circular_distance_roundtrip)
  finally have len: "(e + ?n - (s + m) mod ?n) mod ?n = ?L - m"
    by (intro circular_distance_unique) (use n in \<open>auto intro: le_less_trans [OF diff_le_self]\<close>)
  show ?thesis
  proof (rule nth_equalityI)
    show "length (window b ((s + m) mod ?n) e) = length (drop m (window b s e))"
      by (simp only: length_window length_drop len)
  next
    fix i assume "i < length (window b ((s + m) mod ?n) e)"
    then have "i < ?L - m" by (simp only: length_window len)
    moreover from this have "m + i < (e + ?n - s) mod ?n" by simp
    ultimately show "window b ((s + m) mod ?n) e ! i = drop m (window b s e) ! i"
      by (simp add: window_def mod_add_left_eq add.assoc len [simplified])
  qed
qed

lemma window_put:
  assumes "e < length b" and "s < length b"
  shows "window (b[e := x]) s ((e + 1) mod length b) =
    (if Suc (length (window b s e)) = length b then [] else window b s e @ [x])"
proof -
  let ?n = "length b" and ?L = "length (window b s e)"
  have len: "((e + 1) mod ?n + ?n - s) mod ?n = (?L + 1) mod ?n"
    using circular_distance_Suc [OF assms] by simp
  have lt: "?L < ?n" using assms by (auto intro!: mod_less_divisor)
  show ?thesis
  proof (cases "Suc ?L = ?n")
    case True
    with len show ?thesis by (simp add: window_def)
  next
    case False
    with lt have L': "(?L + 1) mod ?n = ?L + 1" by simp
    show ?thesis
    proof (rule nth_equalityI)
      show "length (window (b[e := x]) s ((e + 1) mod ?n)) =
        length (if Suc ?L = ?n then [] else window b s e @ [x])"
        using False len L' by simp
    next
      fix i assume "i < length (window (b[e := x]) s ((e + 1) mod ?n))"
      then have i: "i < ?L + 1" using len L' by simp
      then have "window (b[e := x]) s ((e + 1) mod ?n) ! i = b[e := x] ! ((s + i) mod ?n)"
        by (auto simp: window_def len [simplified] L' [simplified] nth_append less_Suc_eq)
      moreover have "(s + i) mod ?n = e \<longleftrightarrow> i = ?L"
        using circular_distance_unique [OF assms(2), of i e] circular_distance_roundtrip [OF assms]
          i lt by auto
      moreover have "(s + i) mod ?n < ?n" using assms by (intro mod_less_divisor) linarith
      ultimately show "window (b[e := x]) s ((e + 1) mod ?n) ! i =
        (if Suc ?L = ?n then [] else window b s e @ [x]) ! i"
        using i False assms(1) by (auto simp: nth_append nth_list_update window_def)
    qed
  qed
qed

end
