(* ===== verification/Call.thy ===== *)
theory Call
  imports Sip_Prelude
begin

text \<open>
  The base class of calls, \<^verbatim>\<open>src/call.cpp\<close> and \<^verbatim>\<open>src/call.h\<close>: the call and connection states and
  their permitted transitions, the state listeners, the client state, pending messages and the
  subcalls by which a call rings several devices of one peer. An operation on a call returns the
  call updated and the list of effects on other objects, in the order they happen; closures
  posted to the main thread are effects of their own. The theorems are about the state machine,
  the signals a client sees and the fate of subcalls.
\<close>

section \<open>States\<close>

datatype call_state = INACTIVE | ACTIVE | HOLD | BUSY | PEER_BUSY | MERROR | OVER

datatype connection_state = DISCONNECTED | TRYING | PROGRESSING | RINGING | CONNECTED

datatype call_type = INCOMING | OUTGOING | MISSED

text \<open>The enumerations are ordered by their declaration, which the code compares.\<close>

definition call_state_index :: "call_state \<Rightarrow> nat" where
  "call_state_index s =
     (case s of INACTIVE \<Rightarrow> 0 | ACTIVE \<Rightarrow> 1 | HOLD \<Rightarrow> 2 | BUSY \<Rightarrow> 3 | PEER_BUSY \<Rightarrow> 4 | MERROR \<Rightarrow> 5
      | OVER \<Rightarrow> 6)"

instantiation call_state :: linorder
begin

definition less_eq_call_state :: "call_state \<Rightarrow> call_state \<Rightarrow> bool" where
  "less_eq_call_state a b \<longleftrightarrow> call_state_index a \<le> call_state_index b"

definition less_call_state :: "call_state \<Rightarrow> call_state \<Rightarrow> bool" where
  "less_call_state a b \<longleftrightarrow> call_state_index a < call_state_index b"

instance
  by standard
    (auto simp: less_eq_call_state_def less_call_state_def call_state_index_def
       split: call_state.splits)

end

definition connection_state_index :: "connection_state \<Rightarrow> nat" where
  "connection_state_index s =
     (case s of DISCONNECTED \<Rightarrow> 0 | TRYING \<Rightarrow> 1 | PROGRESSING \<Rightarrow> 2 | RINGING \<Rightarrow> 3 | CONNECTED \<Rightarrow> 4)"

instantiation connection_state :: linorder
begin

definition less_eq_connection_state :: "connection_state \<Rightarrow> connection_state \<Rightarrow> bool" where
  "less_eq_connection_state a b \<longleftrightarrow> connection_state_index a \<le> connection_state_index b"

definition less_connection_state :: "connection_state \<Rightarrow> connection_state \<Rightarrow> bool" where
  "less_connection_state a b \<longleftrightarrow> connection_state_index a < connection_state_index b"

instance
  by standard
    (auto simp: less_eq_connection_state_def less_connection_state_def connection_state_index_def
       split: connection_state.splits)

end

lemmas state_order = less_eq_call_state_def less_call_state_def call_state_index_def
  less_eq_connection_state_def less_connection_state_def connection_state_index_def

fun validStateTransition :: "call_state \<Rightarrow> call_state \<Rightarrow> bool" where
  "validStateTransition cur new =
     (if new = OVER then True
      else case cur of
        INACTIVE \<Rightarrow> (case new of ACTIVE \<Rightarrow> True | BUSY \<Rightarrow> True | PEER_BUSY \<Rightarrow> True | MERROR \<Rightarrow> True
                     | _ \<Rightarrow> False)
      | ACTIVE \<Rightarrow> (case new of BUSY \<Rightarrow> True | PEER_BUSY \<Rightarrow> True | HOLD \<Rightarrow> True | MERROR \<Rightarrow> True
                   | _ \<Rightarrow> False)
      | HOLD \<Rightarrow> (case new of ACTIVE \<Rightarrow> True | MERROR \<Rightarrow> True | _ \<Rightarrow> False)
      | BUSY \<Rightarrow> (case new of MERROR \<Rightarrow> True | _ \<Rightarrow> False)
      | _ \<Rightarrow> False)"

section \<open>The call object\<close>

type_synonym payloads = "(string, string) smap"
type_synonym message = "payloads \<times> string" \<comment> \<open>payloads and sender\<close>

datatype state_listener =
    BaseListener \<comment> \<open>installed by the constructor\<close>
  | SubcallListener string \<comment> \<open>installed on a subcall by its parent\<close>
  | ReinviteListener \<comment> \<open>installed by \<^verbatim>\<open>SIPAccount::reinviteActiveCalls\<close>\<close>

record call =
  call_id :: string
  call_parent :: "string option"
  call_subcalls :: "string list"
  pendingOutMessages :: "message list"
  pendingInMessages :: "message list"
  duration_start :: "nat option"
  stateChangedListeners :: "state_listener list"
  call_conf :: "string option"
  type_of_call :: call_type
  call_account :: "string option"
  connectionState :: connection_state
  callState :: call_state
  peerNumber :: string
  peerDisplayName :: string
  recording :: bool

datatype call_event =
    StateChange string string string int \<comment> \<open>account, call, client state, code\<close>
  | IncomingMessage string string string payloads
  | PostSendText string "message list"
  | PostCheckAudio string
  | SendText string message
  | Hangup string int
  | PostSubcallStateChanged string string call_state connection_state
  | TryDeferredReinvite string
  | FactoryRemove string
  | StopRecording string
  | AccountDetach string
  | PeerAnswered string
  | PeerHungupCall string
  | PostRemoveCall string
  | RemoveCall string
  | PeerRinging string
  | CallBusy string
  | SetConferenceInfo string string
  | ConfOrder string string string
  | SetVoiceActivity string string

definition Call_new :: "string option \<Rightarrow> string \<Rightarrow> call_type \<Rightarrow> call" where
  "Call_new account i ty =
     \<lparr>call_id = i, call_parent = None, call_subcalls = [], pendingOutMessages = [],
      pendingInMessages = [], duration_start = None, stateChangedListeners = [BaseListener],
      call_conf = None, type_of_call = ty, call_account = account,
      connectionState = DISCONNECTED, callState = INACTIVE, peerNumber = [],
      peerDisplayName = [], recording = False\<rparr>"

definition getAccountId :: "call \<Rightarrow> string" where
  "getAccountId c = (case call_account c of Some a \<Rightarrow> a | None \<Rightarrow> [])"

definition isIncoming :: "call \<Rightarrow> bool" where
  "isIncoming c \<longleftrightarrow> type_of_call c = INCOMING"

definition getStateStr :: "call \<Rightarrow> string" where
  "getStateStr c =
     (case callState c of
        ACTIVE \<Rightarrow>
          (case connectionState c of
             PROGRESSING \<Rightarrow> ''CONNECTING''
           | RINGING \<Rightarrow> if isIncoming c then ''INCOMING'' else ''RINGING''
           | DISCONNECTED \<Rightarrow> ''HUNGUP''
           | _ \<Rightarrow> ''CURRENT'')
      | HOLD \<Rightarrow> if connectionState c = DISCONNECTED then ''HUNGUP'' else ''HOLD''
      | BUSY \<Rightarrow> ''BUSY''
      | PEER_BUSY \<Rightarrow> ''PEER_BUSY''
      | INACTIVE \<Rightarrow>
          (case connectionState c of
             PROGRESSING \<Rightarrow> ''CONNECTING''
           | TRYING \<Rightarrow> ''CONNECTING''
           | RINGING \<Rightarrow> if isIncoming c then ''INCOMING'' else ''RINGING''
           | CONNECTED \<Rightarrow> ''CURRENT''
           | _ \<Rightarrow> ''INACTIVE'')
      | OVER \<Rightarrow> ''OVER''
      | MERROR \<Rightarrow> ''FAILURE'')"

section \<open>State listeners\<close>

definition checkPendingIM :: "call \<Rightarrow> call \<times> call_event list" where
  "checkPendingIM c =
     (if call_parent c = None \<and> getStateStr c = ''CURRENT''
      then (c\<lparr>pendingInMessages := [], pendingOutMessages := []\<rparr>,
            map (\<lambda>msg. IncomingMessage (getAccountId c) (call_id c) (peerNumber c) (fst msg))
              (pendingInMessages c) @
            [PostSendText (call_id c) (pendingOutMessages c)])
      else (c, []))"

definition safePopSubcalls :: "call \<Rightarrow> string list \<times> call" where
  "safePopSubcalls c = (call_subcalls c, c\<lparr>call_subcalls := []\<rparr>)"

definition hangupCallsIf :: "string list \<Rightarrow> int \<Rightarrow> (string \<Rightarrow> bool) \<Rightarrow> call_event list" where
  "hangupCallsIf calls errcode P = map (\<lambda>s. Hangup s errcode) (filter P calls)"

definition hangupCalls :: "string list \<Rightarrow> int \<Rightarrow> call_event list" where
  "hangupCalls calls errcode = hangupCallsIf calls errcode (\<lambda>_. True)"

text \<open>\<^verbatim>\<open>now\<close> is the reading of the steady clock.\<close>

definition base_listener :: "nat \<Rightarrow> call \<Rightarrow> call \<times> call_event list" where
  "base_listener now c =
     (let (c1, ev1) = checkPendingIM c;
          c2 = (if call_parent c1 = None \<and> connectionState c1 = CONNECTED \<and> duration_start c1 = None
                then c1\<lparr>duration_start := Some now\<rparr> else c1);
          (c3, ev3) = (if callState c2 = OVER
                       then let (subs, c') = safePopSubcalls c2 in (c', hangupCalls subs 0)
                       else (c2, []))
      in (c3, ev1 @ [PostCheckAudio (call_id c)] @ ev3))"

text \<open>A listener's answer says whether it stays installed.\<close>

fun run_listener :: "nat \<Rightarrow> state_listener \<Rightarrow> call \<Rightarrow> bool \<times> call \<times> call_event list" where
  "run_listener now BaseListener c = (True, base_listener now c)"
| "run_listener now (SubcallListener par) c =
     (True, c, [PostSubcallStateChanged par (call_id c) (callState c) (connectionState c)])"
| "run_listener now ReinviteListener c =
     (if connectionState c = CONNECTED \<and> (callState c = ACTIVE \<or> callState c = HOLD)
      then (False, c, [TryDeferredReinvite (call_id c)])
      else if callState c = OVER \<or> connectionState c = DISCONNECTED then (False, c, [])
      else (True, c, []))"

fun run_listeners ::
  "nat \<Rightarrow> state_listener list \<Rightarrow> call \<Rightarrow> state_listener list \<times> call \<times> call_event list" where
  "run_listeners now [] c = ([], c, [])"
| "run_listeners now (l # ls) c =
     (let (keep, c1, ev1) = run_listener now l c;
          (ls2, c2, ev2) = run_listeners now ls c1
      in (if keep then l # ls2 else ls2, c2, ev1 @ ev2))"

section \<open>Changing the state\<close>

definition setState ::
  "nat \<Rightarrow> call_state \<Rightarrow> connection_state \<Rightarrow> int \<Rightarrow> call \<Rightarrow> bool \<times> call \<times> call_event list" where
  "setState now cs cnx code c =
     (if callState c \<noteq> cs \<and> \<not> validStateTransition (callState c) cs then (False, c, [])
      else if callState c = cs \<and> connectionState c = cnx then (True, c, [])
      else
        let old_client_state = getStateStr c;
            c1 = c\<lparr>callState := cs, connectionState := cnx\<rparr>;
            new_client_state = getStateStr c1;
            (ls, c2, ev) = run_listeners now (stateChangedListeners c1) c1;
            c3 = c2\<lparr>stateChangedListeners := ls\<rparr>
        in (True, c3,
            ev @ (if old_client_state \<noteq> new_client_state \<and> call_parent c3 = None
                  then [StateChange (getAccountId c3) (call_id c3) new_client_state code]
                  else [])))"

definition setState_call ::
  "nat \<Rightarrow> call_state \<Rightarrow> int \<Rightarrow> call \<Rightarrow> bool \<times> call \<times> call_event list" where
  "setState_call now cs code c = setState now cs (connectionState c) code c"

definition setState_cnx ::
  "nat \<Rightarrow> connection_state \<Rightarrow> int \<Rightarrow> call \<Rightarrow> bool \<times> call \<times> call_event list" where
  "setState_cnx now cnx code c = setState now (callState c) cnx code c"

definition ECONNABORTED :: int where "ECONNABORTED = 103"
definition ECONNREFUSED :: int where "ECONNREFUSED = 111"

definition peerHungup :: "nat \<Rightarrow> call \<Rightarrow> call \<times> call_event list" where
  "peerHungup now c =
     (let aborted = (callState c = ACTIVE \<or> callState c = HOLD)
      in snd (setState_cnx now DISCONNECTED (if aborted then ECONNABORTED else ECONNREFUSED) c))"

definition removeCall :: "nat \<Rightarrow> call \<Rightarrow> call \<times> call_event list" where
  "removeCall now c =
     (let (_, c1, ev1) = setState_call now OVER 0 c;
          (c2, ev2) = (if recording c1 then (c1\<lparr>recording := False\<rparr>, [StopRecording (call_id c1)])
                       else (c1, []));
          ev3 = (if call_account c2 \<noteq> None then [AccountDetach (call_id c2)] else [])
      in (c2, FactoryRemove (call_id c) # ev1 @ ev2 @ ev3))"

definition checkAudio :: "call \<Rightarrow> call_event list" where
  "checkAudio c =
     (let state = getStateStr c in
      if state = ''RINGING'' then [PeerRinging (call_id c)]
      else if state = ''BUSY'' then [CallBusy (call_id c)]
      else [])"

section \<open>Text messages\<close>

definition onTextMessage :: "payloads \<Rightarrow> call \<Rightarrow> call \<times> call_event list" where
  "onTextMessage messages c =
     (case smap_find messages ''application/confInfo+json'' of
        Some info \<Rightarrow> (c, [SetConferenceInfo (call_id c) info])
      | None \<Rightarrow>
          (case smap_find messages ''application/confOrder+json'' of
             Some order \<Rightarrow>
               (c, case call_conf c of Some conf \<Rightarrow> [ConfOrder conf (call_id c) order] | None \<Rightarrow> [])
           | None \<Rightarrow>
               let ev = (case smap_find messages ''application/confVoiceActivity+json'' of
                           Some v \<Rightarrow> [SetVoiceActivity (call_id c) v] | None \<Rightarrow> [])
               in if call_parent c \<noteq> None
                  then (c\<lparr>pendingInMessages := pendingInMessages c @ [(messages, [])]\<rparr>, ev)
                  else (c, ev @ [IncomingMessage (getAccountId c) (call_id c) (peerNumber c) messages])))"

section \<open>Subcalls\<close>

text \<open>Returns the parent, the subcall and the effects; \<^verbatim>\<open>p\<close> is the call itself.\<close>

definition addSubCall :: "call \<Rightarrow> call \<Rightarrow> call \<times> call \<times> call_event list" where
  "addSubCall sub p =
     (if connectionState p = CONNECTED \<or> connectionState p = DISCONNECTED \<or> callState p = OVER
      then (p, sub, [RemoveCall (call_id sub)])
      else if call_id sub \<in> set (call_subcalls p) then (p, sub, [])
      else (p\<lparr>call_subcalls := sset_insert (call_id sub) (call_subcalls p)\<rparr>,
            sub\<lparr>call_parent := Some (call_id p),
                stateChangedListeners := stateChangedListeners sub @ [SubcallListener (call_id p)]\<rparr>,
            map (SendText (call_id sub)) (pendingOutMessages p)))"

text \<open>Returns the parent, the moved-from subcall and the effects.\<close>

definition Call_merge :: "nat \<Rightarrow> call \<Rightarrow> call \<Rightarrow> call \<times> call \<times> call_event list" where
  "Call_merge now sub p =
     (let p1 = p\<lparr>pendingInMessages := pendingInMessages sub,
                 peerNumber := (if peerNumber p = [] then peerNumber sub else peerNumber p),
                 peerDisplayName := peerDisplayName sub\<rparr>;
          sub1 = sub\<lparr>pendingInMessages := [],
                     peerNumber := (if peerNumber p = [] then [] else peerNumber sub),
                     peerDisplayName := []\<rparr>;
          (_, p2, ev) = setState now (callState sub) (connectionState sub) 0 p1
      in (p2, sub1, ev @ [PostRemoveCall (call_id sub)]))"

definition EBUSY :: int where "EBUSY = 16"
definition EIO :: int where "EIO = 5"

text \<open>The state the parent takes when its last subcall is busy or has failed.\<close>

definition fail_state :: "call_state \<Rightarrow> call_state \<times> int" where
  "fail_state new_state =
     (if new_state = BUSY then (BUSY, EBUSY)
      else if new_state = PEER_BUSY then (PEER_BUSY, EBUSY)
      else (MERROR, EIO))"

definition subcallStateChanged ::
  "nat \<Rightarrow> call \<Rightarrow> call_state \<Rightarrow> connection_state \<Rightarrow> call \<Rightarrow> call \<times> call \<times> call_event list" where
  "subcallStateChanged now sub new_state new_cstate p =
     (if call_id sub \<notin> set (call_subcalls p) then (p, sub, [])
      else if new_state = ACTIVE \<and> new_cstate = CONNECTED then
        let (subs, p1) = safePopSubcalls p;
            (p2, sub1, ev) = Call_merge now sub p1
        in (p2, sub1, hangupCallsIf subs 0 (\<lambda>s. s \<noteq> call_id sub) @ ev @ [PeerAnswered (call_id p)])
      else if (new_state = ACTIVE \<or> new_state = PEER_BUSY) \<and> new_cstate = DISCONNECTED then
        let (subs, p1) = safePopSubcalls p;
            (p2, ev) = removeCall now p1
        in (p2, sub, hangupCalls subs 0 @ [PeerHungupCall (call_id p)] @ ev)
      else if BUSY \<le> new_state then
        let p1 = p\<lparr>call_subcalls := sset_erase (call_id sub) (call_subcalls p)\<rparr> in
        if call_subcalls p1 = [] then
          let (st, code) = fail_state new_state;
              (_, p2, ev1) = setState now st DISCONNECTED code p1;
              (p3, ev2) = removeCall now p2
          in (p3, sub, ev1 @ ev2)
        else (p1, sub, [])
      else
        let (p1, ev1) = (if new_state = ACTIVE \<and> callState p = INACTIVE
                         then snd (setState_call now new_state 0 p) else (p, []));
            (p2, ev2) = (if connectionState p1 < new_cstate \<and> new_cstate \<le> RINGING
                         then snd (setState_cnx now new_cstate 0 p1) else (p1, []))
        in (p2, sub, ev1 @ ev2))"

section \<open>The state machine of a call\<close>

text \<open>What a listener cannot change.\<close>

definition same_call :: "call \<Rightarrow> call \<Rightarrow> bool" where
  "same_call c d \<longleftrightarrow>
     call_id d = call_id c \<and> call_parent d = call_parent c \<and> call_account d = call_account c \<and>
     type_of_call d = type_of_call c \<and> callState d = callState c \<and>
     connectionState d = connectionState c \<and> peerNumber d = peerNumber c \<and>
     stateChangedListeners d = stateChangedListeners c \<and> recording d = recording c \<and>
     call_conf d = call_conf c \<and> peerDisplayName d = peerDisplayName c"

lemma same_call_refl [simp]: "same_call c c"
  by (simp add: same_call_def)

lemma same_call_trans: "same_call c d \<Longrightarrow> same_call d e \<Longrightarrow> same_call c e"
  by (simp add: same_call_def)

lemma getStateStr_cong:
  "callState d = callState c \<Longrightarrow> connectionState d = connectionState c \<Longrightarrow>
   type_of_call d = type_of_call c \<Longrightarrow> getStateStr d = getStateStr c"
  unfolding getStateStr_def isIncoming_def by (simp cong: call_state.case_cong connection_state.case_cong)

lemma same_call_str: "same_call c d \<Longrightarrow> getStateStr d = getStateStr c"
  by (rule getStateStr_cong) (auto simp: same_call_def)

lemma base_listener_same: "same_call c (fst (base_listener now c))"
  by (auto simp: base_listener_def checkPendingIM_def safePopSubcalls_def same_call_def Let_def)

lemma base_listener_over:
  "callState c = OVER \<Longrightarrow> call_subcalls (fst (base_listener now c)) = []"
  by (auto simp: base_listener_def checkPendingIM_def safePopSubcalls_def Let_def)

lemma run_listener_same: "run_listener now l c = (keep, d, ev) \<Longrightarrow> same_call c d"
  using base_listener_same [of c now] by (cases l) (auto split: if_splits)

lemma run_listeners_same: "run_listeners now ls c = (ls', d, ev) \<Longrightarrow> same_call c d"
proof (induction ls arbitrary: c ls' d ev)
  case (Cons l ls)
  obtain keep c1 ev1 where 1: "run_listener now l c = (keep, c1, ev1)" by (cases "run_listener now l c")
  obtain ls2 c2 ev2 where 2: "run_listeners now ls c1 = (ls2, c2, ev2)"
    by (cases "run_listeners now ls c1")
  from 1 2 Cons.prems have "d = c2" by simp
  with run_listener_same [OF 1] Cons.IH [OF 2] show ?case by (blast intro: same_call_trans)
qed simp

text \<open>Listeners never emit the client's state signal.\<close>

fun is_StateChange :: "call_event \<Rightarrow> bool" where
  "is_StateChange (StateChange _ _ _ _) = True"
| "is_StateChange _ = False"

lemma base_listener_quiet: "filter is_StateChange (snd (base_listener now c)) = []"
  by (auto simp: base_listener_def checkPendingIM_def safePopSubcalls_def hangupCalls_def
      hangupCallsIf_def Let_def filter_empty_conv)

lemma run_listeners_quiet: "filter is_StateChange (snd (snd (run_listeners now ls c))) = []"
proof (induction ls arbitrary: c)
  case (Cons l ls)
  have "filter is_StateChange (snd (snd (run_listener now l c))) = []"
    using base_listener_quiet [of now c] by (cases l) auto
  with Cons show ?case by (simp add: case_prod_beta Let_def)
qed simp

declare validStateTransition.simps [simp del]

text \<open>The three ways \<^verbatim>\<open>setState\<close> ends.\<close>

lemma setState_cases:
  assumes "setState now cs cnx code c = (ok, d, ev)"
  obtains (refused) "\<not> ok" "d = c" "ev = []" "cs \<noteq> callState c" "\<not> validStateTransition (callState c) cs"
  | (same) "ok" "d = c" "ev = []" "cs = callState c" "cnx = connectionState c"
  | (changed) ls c2 ev2 where "ok" "cs = callState c \<or> validStateTransition (callState c) cs"
      "run_listeners now (stateChangedListeners c) (c\<lparr>callState := cs, connectionState := cnx\<rparr>)
         = (ls, c2, ev2)"
      "d = c2\<lparr>stateChangedListeners := ls\<rparr>"
      "ev = ev2 @ (if getStateStr c \<noteq> getStateStr (c\<lparr>callState := cs, connectionState := cnx\<rparr>)
                      \<and> call_parent d = None
                   then [StateChange (getAccountId d) (call_id d)
                           (getStateStr (c\<lparr>callState := cs, connectionState := cnx\<rparr>)) code]
                   else [])"
proof (cases "callState c \<noteq> cs \<and> \<not> validStateTransition (callState c) cs")
  case True
  with assms show ?thesis by (intro refused) (auto simp: setState_def)
next
  case nref: False
  show ?thesis
  proof (cases "callState c = cs \<and> connectionState c = cnx")
    case True
    with assms nref show ?thesis by (intro same) (auto simp: setState_def)
  next
    case False
    obtain ls c2 ev2 where r: "run_listeners now (stateChangedListeners c)
        (c\<lparr>callState := cs, connectionState := cnx\<rparr>) = (ls, c2, ev2)"
      by (cases "run_listeners now (stateChangedListeners c)
            (c\<lparr>callState := cs, connectionState := cnx\<rparr>)")
    from assms False nref r have d: "d = c2\<lparr>stateChangedListeners := ls\<rparr>" and "ok"
      by (auto simp: setState_def Let_def simp del: if_split)
    from nref have v: "cs = callState c \<or> validStateTransition (callState c) cs" by auto
    from assms False nref r show ?thesis
      by (intro changed [OF \<open>ok\<close> v r d]) (auto simp: d setState_def Let_def simp del: if_split)
  qed
qed

lemma setState_all:
  assumes "setState now cs cnx code c = (ok, d, ev)"
  shows "(ok \<longleftrightarrow> cs = callState c \<or> validStateTransition (callState c) cs) \<and>
    (\<not> ok \<longrightarrow> d = c \<and> ev = []) \<and> (ok \<longrightarrow> callState d = cs \<and> connectionState d = cnx) \<and>
    call_id d = call_id c \<and> call_parent d = call_parent c \<and> call_account d = call_account c \<and>
    type_of_call d = type_of_call c \<and> peerNumber d = peerNumber c \<and> recording d = recording c \<and>
    filter is_StateChange ev =
      (if getStateStr d \<noteq> getStateStr c \<and> call_parent c = None
       then [StateChange (getAccountId c) (call_id c) (getStateStr d) code] else [])"
  using assms
proof (cases rule: setState_cases)
  case (changed ls c2 ev2)
  let ?c1 = "c\<lparr>callState := cs, connectionState := cnx\<rparr>"
  note s = run_listeners_same [OF changed(3)]
  have str: "getStateStr ?c1 = getStateStr d"
    using s changed(4) by (intro getStateStr_cong) (auto simp: same_call_def)
  have q: "filter is_StateChange ev2 = []"
    using run_listeners_quiet [of now "stateChangedListeners c" ?c1] changed(3) by simp
  have acc: "getAccountId d = getAccountId c" "call_id d = call_id c" "call_parent d = call_parent c"
    using s changed(4) by (auto simp: same_call_def getAccountId_def)
  show ?thesis
    using changed(1,2,4) s q by (auto simp: changed(5) str acc same_call_def getAccountId_def)
qed auto

lemmas setState_ok = setState_all [THEN conjunct1]

lemma setState_frame:
  assumes "setState now cs cnx code c = (ok, d, ev)"
  shows "call_id d = call_id c" "call_parent d = call_parent c" "call_account d = call_account c"
    "type_of_call d = type_of_call c" "peerNumber d = peerNumber c" "recording d = recording c"
  using setState_all [OF assms] by auto

text \<open>What the listeners guarantee about subcalls and the start of the conversation.\<close>

lemma base_listener_keeps:
  "duration_start c = Some t \<Longrightarrow> duration_start (fst (base_listener now c)) = Some t"
  "call_subcalls c = [] \<Longrightarrow> call_subcalls (fst (base_listener now c)) = []"
  "call_parent c = None \<Longrightarrow> connectionState c = CONNECTED \<Longrightarrow>
   duration_start (fst (base_listener now c)) \<noteq> None"
  by (auto simp: base_listener_def checkPendingIM_def safePopSubcalls_def Let_def)

lemma run_listener_keeps:
  assumes "run_listener now l c = (keep, d, ev)"
  shows "(duration_start c = Some t \<longrightarrow> duration_start d = Some t) \<and>
    (call_subcalls c = [] \<longrightarrow> call_subcalls d = [])"
  using assms base_listener_keeps(1) [of c t now] base_listener_keeps(2) [of c now]
  by (cases l) (auto split: if_splits)

lemma run_listeners_keeps:
  assumes "run_listeners now ls c = (ls', d, ev)"
  shows "(duration_start c = Some t \<longrightarrow> duration_start d = Some t) \<and>
    (call_subcalls c = [] \<longrightarrow> call_subcalls d = [])"
  using assms
proof (induction ls arbitrary: c ls' d ev)
  case (Cons l ls)
  obtain keep c1 ev1 where 1: "run_listener now l c = (keep, c1, ev1)" by (cases "run_listener now l c")
  obtain ls2 c2 ev2 where 2: "run_listeners now ls c1 = (ls2, c2, ev2)"
    by (cases "run_listeners now ls c1")
  from 1 2 Cons.prems have "d = c2" by simp
  with run_listener_keeps [OF 1] Cons.IH [OF 2] show ?case by blast
qed simp

lemma run_listeners_base:
  assumes "run_listeners now ls c = (ls', d, ev)" and "BaseListener \<in> set ls"
  shows "BaseListener \<in> set ls' \<and> (callState c = OVER \<longrightarrow> call_subcalls d = []) \<and>
    (call_parent c = None \<and> connectionState c = CONNECTED \<longrightarrow> duration_start d \<noteq> None)"
  using assms
proof (induction ls arbitrary: c ls' d ev)
  case (Cons l ls)
  obtain keep c1 ev1 where 1: "run_listener now l c = (keep, c1, ev1)" by (cases "run_listener now l c")
  obtain ls2 c2 ev2 where 2: "run_listeners now ls c1 = (ls2, c2, ev2)"
    by (cases "run_listeners now ls c1")
  from 1 2 Cons.prems have d: "d = c2" and ls': "ls' = (if keep then l # ls2 else ls2)" by auto
  note same = run_listener_same [OF 1]
  show ?case
  proof (cases "l = BaseListener")
    case True
    with 1 have b: "base_listener now c = (c1, ev1)" and "keep" by auto
    with base_listener_keeps(3) [of c now] base_listener_over [of c now]
      run_listeners_keeps [OF 2] True d ls'
    show ?thesis by auto
  next
    case False
    with Cons.prems have "BaseListener \<in> set ls" by auto
    from Cons.IH [OF 2 this] same d ls' show ?thesis by (auto simp: same_call_def)
  qed
qed simp

section \<open>A call and what its client sees\<close>

text \<open>
  The operations of a call that change it, each as one task of the main loop or of the account
  thread, with the reading of the clock at its start.
\<close>

datatype call_op =
    SetState call_state connection_state int
  | SetCallState call_state int
  | SetConnectionState connection_state int
  | PeerHungup
  | Remove
  | TextMessage payloads
  | AddSubCall call
  | SubcallStateChanged call call_state connection_state
  | AddListener state_listener

fun call_exec :: "nat \<Rightarrow> call_op \<Rightarrow> call \<Rightarrow> call \<times> call_event list" where
  "call_exec now (SetState cs cnx code) c = snd (setState now cs cnx code c)"
| "call_exec now (SetCallState cs code) c = snd (setState_call now cs code c)"
| "call_exec now (SetConnectionState cnx code) c = snd (setState_cnx now cnx code c)"
| "call_exec now PeerHungup c = peerHungup now c"
| "call_exec now Remove c = removeCall now c"
| "call_exec now (TextMessage m) c = onTextMessage m c"
| "call_exec now (AddSubCall sub) c = (let (c', _, ev) = addSubCall sub c in (c', ev))"
| "call_exec now (SubcallStateChanged sub cs cnx) c =
     (let (c', _, ev) = subcallStateChanged now sub cs cnx c in (c', ev))"
| "call_exec now (AddListener l) c =
     (c\<lparr>stateChangedListeners := stateChangedListeners c @ [l]\<rparr>, [])"

definition call_step :: "call \<times> call_event list \<Rightarrow> nat \<times> call_op \<Rightarrow> call \<times> call_event list" where
  "call_step s e = (case (s, e) of ((c, tr), (now, op)) \<Rightarrow>
     let (c', ev) = call_exec now op c in (c', tr @ ev))"

text \<open>The client states signalled so far, and the one a client that keeps the last shows.\<close>

fun reported_state :: "call_event \<Rightarrow> string" where
  "reported_state (StateChange _ _ s _) = s"
| "reported_state _ = []"

definition reported :: "call_event list \<Rightarrow> string list" where
  "reported tr = map reported_state (filter is_StateChange tr)"

definition client_view :: "call_event list \<Rightarrow> string" where
  "client_view tr = last (''INACTIVE'' # reported tr)"

lemma reported_append: "reported (xs @ ys) = reported xs @ reported ys"
  by (simp add: reported_def)

text \<open>
  A top-level call and the effects so far: the client is in sync and was never told the same
  state twice in a row, a finished call has no subcalls, a connected one has its start recorded.
\<close>

definition call_inv :: "call \<times> call_event list \<Rightarrow> bool" where
  "call_inv s \<longleftrightarrow> (case s of (c, tr) \<Rightarrow>
     call_parent c = None \<and> BaseListener \<in> set (stateChangedListeners c) \<and>
     (callState c = OVER \<longrightarrow> call_subcalls c = []) \<and>
     (connectionState c = CONNECTED \<longrightarrow> duration_start c \<noteq> None) \<and>
     client_view tr = getStateStr c \<and> distinct_adj (''INACTIVE'' # reported tr))"

text \<open>How one call may evolve into another.\<close>

definition call_progress :: "call \<Rightarrow> call \<Rightarrow> bool" where
  "call_progress c d \<longleftrightarrow>
     (BUSY \<le> callState c \<longrightarrow> callState c \<le> callState d) \<and>
     (\<forall>t. duration_start c = Some t \<longrightarrow> duration_start d = Some t) \<and>
     call_id d = call_id c \<and> type_of_call d = type_of_call c"

lemma call_progress_refl [simp]: "call_progress c c"
  by (simp add: call_progress_def)

lemma call_progress_trans: "call_progress c d \<Longrightarrow> call_progress d e \<Longrightarrow> call_progress c e"
  unfolding call_progress_def by (metis order_trans)

lemma validStateTransition_terminal:
  "BUSY \<le> cs \<Longrightarrow> validStateTransition cs cs' \<Longrightarrow> cs \<le> cs'"
  by (cases cs; cases cs') (auto simp: validStateTransition.simps state_order)

text \<open>The two kinds of steps the operations are made of.\<close>

lemma call_inv_setState:
  assumes inv: "call_inv (c, tr)" and set: "setState now cs cnx code c = (ok, d, ev)"
  shows "call_inv (d, tr @ ev) \<and> call_progress c d"
proof -
  from inv have top: "call_parent c = None" and view: "client_view tr = getStateStr c"
    and base: "BaseListener \<in> set (stateChangedListeners c)"
    and adj: "distinct_adj (''INACTIVE'' # reported tr)"
    by (auto simp: call_inv_def)
  note all = setState_all [OF set]
  from all top have rep: "reported ev = (if getStateStr d \<noteq> getStateStr c then [getStateStr d] else [])"
    by (auto simp: reported_def)
  have "client_view (tr @ ev) = getStateStr d"
    using rep view by (auto simp: client_view_def reported_append)
  moreover have "distinct_adj (''INACTIVE'' # reported (tr @ ev))"
    using rep view adj
    by (auto simp: client_view_def reported_append distinct_adj_append_iff
        simp flip: append_Cons simp del: last.simps)
  moreover from set have "BaseListener \<in> set (stateChangedListeners d) \<and>
      (callState d = OVER \<longrightarrow> call_subcalls d = []) \<and>
      (connectionState d = CONNECTED \<longrightarrow> duration_start d \<noteq> None) \<and>
      (\<forall>t. duration_start c = Some t \<longrightarrow> duration_start d = Some t)"
  proof (cases rule: setState_cases)
    case (changed ls c2 ev2)
    from run_listeners_same [OF changed(3)] run_listeners_base [OF changed(3) base]
      run_listeners_keeps [OF changed(3)] changed(4) top
    show ?thesis by (auto simp: same_call_def)
  qed (use inv in \<open>auto simp: call_inv_def\<close>)
  ultimately show ?thesis
    using all top by (cases ok)
      (auto simp: call_inv_def call_progress_def dest: validStateTransition_terminal)
qed

text \<open>An update of the other fields with effects that are not state signals.\<close>

definition quiet_update :: "call \<Rightarrow> call \<Rightarrow> bool" where
  "quiet_update c d \<longleftrightarrow>
     call_id d = call_id c \<and> call_parent d = call_parent c \<and> type_of_call d = type_of_call c \<and>
     callState d = callState c \<and> connectionState d = connectionState c \<and>
     duration_start d = duration_start c \<and>
     set (stateChangedListeners c) \<subseteq> set (stateChangedListeners d) \<and>
     (callState c = OVER \<and> call_subcalls c = [] \<longrightarrow> call_subcalls d = [])"

lemma call_inv_quiet:
  assumes "call_inv (c, tr)" and "quiet_update c d" and "filter is_StateChange ev = []"
  shows "call_inv (d, tr @ ev) \<and> call_progress c d"
proof -
  have "getStateStr d = getStateStr c"
    using assms(2) by (intro getStateStr_cong) (auto simp: quiet_update_def)
  with assms show ?thesis
    by (auto simp: call_inv_def quiet_update_def call_progress_def client_view_def reported_def)
qed

lemma call_inv_events: "call_inv (c, tr) \<Longrightarrow> filter is_StateChange ev = [] \<Longrightarrow> call_inv (c, tr @ ev)"
  using call_inv_quiet [of c tr c ev] by (simp add: quiet_update_def)

lemma call_inv_removeCall:
  assumes inv: "call_inv (c, tr)" and rem: "removeCall now c = (d, ev)"
  shows "call_inv (d, tr @ ev) \<and> call_progress c d"
proof -
  obtain ok c1 ev1 where s: "setState now OVER (connectionState c) 0 c = (ok, c1, ev1)"
    by (cases "setState now OVER (connectionState c) 0 c")
  from inv have "call_inv (c, tr @ [FactoryRemove (call_id c)])"
    by (rule call_inv_events) simp
  from call_inv_setState [OF this s]
  have 1: "call_inv (c1, (tr @ [FactoryRemove (call_id c)]) @ ev1)" and p: "call_progress c c1" by auto
  from rem s obtain ev2 where d: "quiet_update c1 d" "filter is_StateChange ev2 = []"
      "ev = FactoryRemove (call_id c) # ev1 @ ev2"
    by (fastforce simp: removeCall_def setState_call_def quiet_update_def Let_def split: if_splits)
  from call_inv_quiet [OF 1 d(1,2)] p d(3) show ?thesis
    by (auto intro: call_progress_trans)
qed

lemma hangup_quiet [simp]:
  "filter is_StateChange (hangupCallsIf xs n P) = []" "filter is_StateChange (hangupCalls xs n) = []"
  by (auto simp: hangupCalls_def hangupCallsIf_def filter_empty_conv)

lemma safePopSubcalls_simps [simp]:
  "fst (safePopSubcalls c) = call_subcalls c"
  "quiet_update c (snd (safePopSubcalls c))"
  by (auto simp: safePopSubcalls_def quiet_update_def)

lemma call_inv_merge:
  assumes inv: "call_inv (p, tr)" and m: "Call_merge now sub p = (q, sub', ev)"
  shows "call_inv (q, tr @ ev) \<and> call_progress p q"
proof -
  let ?p1 = "p\<lparr>pendingInMessages := pendingInMessages sub,
      peerNumber := (if peerNumber p = [] then peerNumber sub else peerNumber p),
      peerDisplayName := peerDisplayName sub\<rparr>"
  obtain ok p2 ev2 where s: "setState now (callState sub) (connectionState sub) 0 ?p1 = (ok, p2, ev2)"
    by (cases "setState now (callState sub) (connectionState sub) 0 ?p1")
  from m s have q: "q = p2" "ev = ev2 @ [PostRemoveCall (call_id sub)]"
    by (auto simp: Call_merge_def Let_def simp del: if_split)
  have "call_inv (?p1, tr @ []) \<and> call_progress p ?p1"
    by (rule call_inv_quiet [OF inv]) (auto simp: quiet_update_def)
  with call_inv_setState [OF _ s, of tr]
  have "call_inv (p2, tr @ ev2)" and "call_progress p p2" by (auto intro: call_progress_trans)
  with call_inv_events [of p2 "tr @ ev2" "[PostRemoveCall (call_id sub)]"] q show ?thesis by simp
qed

lemma call_inv_failed:
  assumes inv: "call_inv (p, tr)" and s: "setState now st DISCONNECTED code p = (ok, p2, ev1)"
    and r: "removeCall now p2 = (p3, ev2)"
  shows "call_inv (p3, tr @ ev1 @ ev2) \<and> call_progress p p3"
  using call_inv_setState [OF inv s] call_inv_removeCall [OF _ r, of "tr @ ev1"]
  by (auto intro: call_progress_trans)

lemma call_inv_ringing:
  assumes inv: "call_inv (p, tr)"
    and 1: "(p1, ev1) = (if b then snd (setState_call now cs 0 p) else (p, []))"
    and 2: "(p2, ev2) = (if b' then snd (setState_cnx now cnx 0 p1) else (p1, []))"
  shows "call_inv (p2, tr @ ev1 @ ev2) \<and> call_progress p p2"
proof -
  have A: "call_inv (p1, tr @ ev1) \<and> call_progress p p1"
    using inv 1 by (cases "setState now cs (connectionState p) 0 p")
      (auto simp: setState_call_def dest: call_inv_setState split: if_splits)
  have "call_inv (p2, (tr @ ev1) @ ev2) \<and> call_progress p1 p2"
    using A 2 call_inv_setState [of p1 "tr @ ev1"]
    by (cases "setState now (callState p1) cnx 0 p1") (auto simp: setState_cnx_def split: if_splits)
  with A show ?thesis by (auto intro: call_progress_trans)
qed

lemma call_inv_subcallStateChanged:
  assumes inv: "call_inv (p, tr)" and sc: "subcallStateChanged now sub ns nc p = (q, sub', ev)"
  shows "call_inv (q, tr @ ev) \<and> call_progress p q"
proof -
  let ?p0 = "snd (safePopSubcalls p)"
  have pop: "call_inv (?p0, tr @ ev0) \<and> call_progress p ?p0" if "filter is_StateChange ev0 = []" for ev0
    by (rule call_inv_quiet [OF inv]) (auto simp: that)
  consider (other) "call_id sub \<notin> set (call_subcalls p)"
    | (answered) "call_id sub \<in> set (call_subcalls p)" "ns = ACTIVE \<and> nc = CONNECTED"
    | (hungup) "call_id sub \<in> set (call_subcalls p)" "\<not> (ns = ACTIVE \<and> nc = CONNECTED)"
        "(ns = ACTIVE \<or> ns = PEER_BUSY) \<and> nc = DISCONNECTED"
    | (failed) "call_id sub \<in> set (call_subcalls p)" "\<not> (ns = ACTIVE \<and> nc = CONNECTED)"
        "\<not> ((ns = ACTIVE \<or> ns = PEER_BUSY) \<and> nc = DISCONNECTED)" "BUSY \<le> ns"
    | (ringing) "call_id sub \<in> set (call_subcalls p)" "\<not> (ns = ACTIVE \<and> nc = CONNECTED)"
        "\<not> ((ns = ACTIVE \<or> ns = PEER_BUSY) \<and> nc = DISCONNECTED)" "\<not> BUSY \<le> ns"
    by blast
  then show ?thesis
  proof cases
    case other
    with sc inv show ?thesis by (auto simp: subcallStateChanged_def)
  next
    case answered
    obtain p2 sub2 ev2 where m: "Call_merge now sub ?p0 = (p2, sub2, ev2)"
      by (cases "Call_merge now sub ?p0")
    let ?h = "hangupCallsIf (call_subcalls p) 0 (\<lambda>s. s \<noteq> call_id sub)"
    from sc answered m have q: "q = p2" "ev = ?h @ ev2 @ [PeerAnswered (call_id p)]"
      by (auto simp: subcallStateChanged_def safePopSubcalls_def)
    from pop [of ?h] call_inv_merge [OF _ m, of "tr @ ?h"]
    have "call_inv (p2, tr @ ?h @ ev2) \<and> call_progress p p2" by (auto intro: call_progress_trans)
    with call_inv_events [of p2 "tr @ ?h @ ev2" "[PeerAnswered (call_id p)]"] q show ?thesis by simp
  next
    case hungup
    obtain p2 ev2 where r: "removeCall now ?p0 = (p2, ev2)" by (cases "removeCall now ?p0")
    let ?h = "hangupCalls (call_subcalls p) 0 @ [PeerHungupCall (call_id p)]"
    from sc hungup r have q: "q = p2" "ev = ?h @ ev2"
      by (auto simp: subcallStateChanged_def safePopSubcalls_def)
    from pop [of ?h] call_inv_removeCall [OF _ r, of "tr @ ?h"] q show ?thesis
      by (auto intro: call_progress_trans)
  next
    case failed
    let ?p1 = "p\<lparr>call_subcalls := sset_erase (call_id sub) (call_subcalls p)\<rparr>"
    have 1: "call_inv (?p1, tr @ []) \<and> call_progress p ?p1"
      by (rule call_inv_quiet [OF inv]) (auto simp: quiet_update_def sset_erase_def)
    obtain st code where f: "fail_state ns = (st, code)" by (cases "fail_state ns")
    obtain ok p2 ev1 where s: "setState now st DISCONNECTED code ?p1 = (ok, p2, ev1)"
      by (cases "setState now st DISCONNECTED code ?p1")
    obtain p3 ev2 where r: "removeCall now p2 = (p3, ev2)" by (cases "removeCall now p2")
    from call_inv_failed [OF _ s r, of tr] 1 failed sc f s r show ?thesis
      by (auto simp: subcallStateChanged_def Let_def intro: call_progress_trans split: if_splits)
  next
    case ringing
    obtain p1 ev1 where a: "(p1, ev1) = (if ns = ACTIVE \<and> callState p = INACTIVE
        then snd (setState_call now ns 0 p) else (p, []))" by (metis surj_pair)
    obtain p2 ev2 where b: "(p2, ev2) = (if connectionState p1 < nc \<and> nc \<le> RINGING
        then snd (setState_cnx now nc 0 p1) else (p1, []))" by (metis surj_pair)
    from sc ringing have "(q, ev) = (p2, ev1 @ ev2)"
      by (simp add: subcallStateChanged_def Let_def flip: a b)
    with call_inv_ringing [OF inv a b] show ?thesis by simp
  qed
qed

lemma call_exec_inv:
  assumes inv: "call_inv (c, tr)" and ex: "call_exec now op c = (d, ev)"
  shows "call_inv (d, tr @ ev) \<and> call_progress c d"
proof (cases op)
  case (SetState cs cnx code)
  with ex inv show ?thesis
    by (cases "setState now cs cnx code c") (auto dest: call_inv_setState)
next
  case (SetCallState cs code)
  with ex inv show ?thesis
    by (cases "setState now cs (connectionState c) code c")
      (auto simp: setState_call_def dest: call_inv_setState)
next
  case (SetConnectionState cnx code)
  with ex inv show ?thesis
    by (cases "setState now (callState c) cnx code c")
      (auto simp: setState_cnx_def dest: call_inv_setState)
next
  case PeerHungup
  with ex obtain code ok where "setState now (callState c) DISCONNECTED code c = (ok, d, ev)"
    by (metis call_exec.simps(4) peerHungup_def prod.collapse setState_cnx_def snd_conv)
  with inv show ?thesis by (rule call_inv_setState)
next
  case Remove
  with ex inv show ?thesis by (auto dest: call_inv_removeCall)
next
  case (TextMessage m)
  with ex have "quiet_update c d" and "filter is_StateChange ev = []"
    by (auto simp: onTextMessage_def quiet_update_def Let_def split: option.splits if_splits)
  with inv show ?thesis by (rule call_inv_quiet)
next
  case (AddSubCall sub)
  with ex have "quiet_update c d" and "filter is_StateChange ev = []"
    by (auto simp: addSubCall_def quiet_update_def filter_empty_conv split: if_splits)
  with inv show ?thesis by (rule call_inv_quiet)
next
  case (SubcallStateChanged sub cs cnx)
  with ex inv show ?thesis
    by (cases "subcallStateChanged now sub cs cnx c") (auto dest: call_inv_subcallStateChanged)
next
  case (AddListener l)
  with ex have "quiet_update c d" and "filter is_StateChange ev = []" by (auto simp: quiet_update_def)
  with inv show ?thesis by (rule call_inv_quiet)
qed

lemma call_step_inv: "call_inv s \<Longrightarrow> call_inv (call_step s e)"
  by (cases s; cases e; cases "call_exec (fst e) (snd e) (fst s)")
    (auto simp: call_step_def dest: call_exec_inv)

lemma call_step_progress: "call_inv s \<Longrightarrow> call_progress (fst s) (fst (call_step s e))"
  by (cases s; cases e; cases "call_exec (fst e) (snd e) (fst s)")
    (auto simp: call_step_def dest: call_exec_inv)

interpretation cm: invariant_machine call_step call_inv
  by unfold_locales (rule call_step_inv)

lemma call_inv_new: "call_inv (Call_new acc i ty, [])"
  by (simp add: call_inv_def Call_new_def client_view_def reported_def getStateStr_def)

lemma call_run_progress: "call_inv s \<Longrightarrow> call_progress (fst s) (fst (foldl call_step s es))"
proof (induction es arbitrary: s)
  case (Cons e es)
  from call_progress_trans [OF call_step_progress [OF Cons.prems, of e]
      Cons.IH [OF call_step_inv [OF Cons.prems], of e]]
  show ?case by simp
qed simp

section \<open>Properties\<close>

text \<open>
  C1: however the tasks that act on a top-level call are interleaved, the state its client was last
  told is the call's own state, no state is signalled twice in a row, a call that is over has no
  subcall left and a connected call has the start of its conversation recorded.
\<close>

theorem call_client_in_sync:
  assumes "foldl call_step (Call_new acc i ty, []) es = (c, tr)"
  shows "client_view tr = getStateStr c \<and> distinct_adj (''INACTIVE'' # reported tr) \<and>
    (callState c = OVER \<longrightarrow> call_subcalls c = []) \<and>
    (connectionState c = CONNECTED \<longrightarrow> duration_start c \<noteq> None)"
  using cm.run_inv [OF call_inv_new, of acc i ty es] assms by (simp add: call_inv_def)

theorem call_client_in_sync_witness:
  "\<exists>c tr. foldl call_step (Call_new (Some ''acc'') ''1'' OUTGOING, [])
       [(7, SetState ACTIVE TRYING 0), (8, SetState ACTIVE RINGING 0), (9, SetState ACTIVE CONNECTED 0)] = (c, tr)
     \<and> reported tr = [''CURRENT'', ''RINGING'', ''CURRENT''] \<and> client_view tr = getStateStr c
     \<and> duration_start c = Some 9"
proof -
  let ?es = "[(7, SetState ACTIVE TRYING 0), (8, SetState ACTIVE RINGING 0),
    (9, SetState ACTIVE CONNECTED 0)]"
  obtain c tr where r: "foldl call_step (Call_new (Some ''acc'') ''1'' OUTGOING, []) ?es = (c, tr)"
    by (metis surj_pair)
  note call_client_in_sync [OF r]
  moreover have "reported tr = [''CURRENT'', ''RINGING'', ''CURRENT''] \<and> duration_start c = Some 9"
    using r by (auto simp: call_step_def Call_new_def setState_def validStateTransition.simps
        getStateStr_def isIncoming_def Let_def base_listener_def checkPendingIM_def reported_def)
  ultimately show ?thesis using r by blast
qed

text \<open>
  C8: a busy, failed or finished call never comes back: from there on every run only moves it
  towards \<^verbatim>\<open>OVER\<close>, in the order of the enumeration, and the start of its conversation, once
  recorded, is never changed.
\<close>

theorem call_never_resumes:
  assumes "call_inv s" and "BUSY \<le> callState (fst s)"
  shows "callState (fst s) \<le> callState (fst (foldl call_step s es)) \<and>
    (\<forall>t. duration_start (fst s) = Some t \<longrightarrow>
         duration_start (fst (foldl call_step s es)) = Some t)"
  using call_run_progress [OF assms(1), of es] assms(2) by (simp add: call_progress_def)

theorem call_never_resumes_witness:
  "BUSY \<le> callState (fst (foldl call_step (Call_new None ''1'' OUTGOING, []) [(1, SetCallState BUSY 16)]))
   \<and> (\<forall>es. BUSY \<le> callState (fst (foldl call_step
        (foldl call_step (Call_new None ''1'' OUTGOING, []) [(1, SetCallState BUSY 16)]) es)))"
proof -
  let ?s = "foldl call_step (Call_new None ''1'' OUTGOING, []) [(1, SetCallState BUSY 16)]"
  have inv: "call_inv ?s" by (rule cm.run_inv [OF call_inv_new])
  have b: "BUSY \<le> callState (fst ?s)"
    by (simp add: call_step_def Call_new_def setState_call_def setState_def validStateTransition.simps
        getStateStr_def Let_def base_listener_def checkPendingIM_def)
  from call_never_resumes [OF inv b] b show ?thesis by (meson order_trans)
qed

text \<open>
  C22: \<^verbatim>\<open>setState\<close> accepts exactly the current call state and the permitted transitions; a refused
  request changes nothing and has no effect; an accepted one installs both states and signals the
  client exactly when the client state of a call without parent changed.
\<close>

theorem setState_contract:
  assumes "setState now cs cnx code c = (ok, d, ev)"
  shows "(ok \<longleftrightarrow> cs = callState c \<or> validStateTransition (callState c) cs) \<and>
    (if ok then callState d = cs \<and> connectionState d = cnx else d = c \<and> ev = []) \<and>
    filter is_StateChange ev =
      (if getStateStr d \<noteq> getStateStr c \<and> call_parent c = None
       then [StateChange (getAccountId c) (call_id c) (getStateStr d) code] else [])"
  using setState_all [OF assms] by auto

theorem setState_contract_witness:
  "\<exists>d ev. setState 5 HOLD CONNECTED 0
       ((Call_new None ''1'' INCOMING)\<lparr>callState := ACTIVE, connectionState := CONNECTED\<rparr>) = (True, d, ev)
     \<and> callState d = HOLD \<and> filter is_StateChange ev = [StateChange [] ''1'' ''HOLD'' 0]"
proof -
  let ?c = "(Call_new None ''1'' INCOMING)\<lparr>callState := ACTIVE, connectionState := CONNECTED\<rparr>"
  obtain ok d ev where r: "setState 5 HOLD CONNECTED 0 ?c = (ok, d, ev)" by (metis surj_pair)
  have "getStateStr d = ''HOLD''"
    using setState_contract [OF r] by (auto simp: getStateStr_def Call_new_def validStateTransition.simps)
  with setState_contract [OF r] r show ?thesis
    by (auto simp: validStateTransition.simps Call_new_def getAccountId_def getStateStr_def)
qed

fun is_Hangup :: "call_event \<Rightarrow> bool" where
  "is_Hangup (Hangup _ _) = True"
| "is_Hangup _ = False"

fun is_IncomingMessage :: "call_event \<Rightarrow> bool" where
  "is_IncomingMessage (IncomingMessage _ _ _ _) = True"
| "is_IncomingMessage _ = False"

lemma run_listeners_other_quiet:
  assumes "BaseListener \<notin> set ls"
  shows "filter is_IncomingMessage (snd (snd (run_listeners now ls c))) = [] \<and>
    filter is_Hangup (snd (snd (run_listeners now ls c))) = [] \<and>
    pendingInMessages (fst (snd (run_listeners now ls c))) = pendingInMessages c"
  using assms
proof (induction ls arbitrary: c)
  case (Cons l ls)
  obtain keep c1 ev1 where 1: "run_listener now l c = (keep, c1, ev1)" by (cases "run_listener now l c")
  with Cons.prems have "filter is_IncomingMessage ev1 = [] \<and> filter is_Hangup ev1 = [] \<and> c1 = c"
    by (cases l) (auto split: if_splits)
  with Cons 1 show ?case by (auto simp: case_prod_beta Let_def)
qed simp

text \<open>The messages a call delivers when it becomes current.\<close>

definition deliveries :: "call \<Rightarrow> call_event list" where
  "deliveries c = map (\<lambda>msg. IncomingMessage (getAccountId c) (call_id c) (peerNumber c) (fst msg))
     (pendingInMessages c)"

lemma base_listener_effects:
  assumes "call_parent c = None" and "call_subcalls c = []" and "getStateStr c = ''CURRENT''"
  shows "filter is_Hangup (snd (base_listener now c)) = [] \<and>
    filter is_IncomingMessage (snd (base_listener now c)) = deliveries c \<and>
    pendingInMessages (fst (base_listener now c)) = []"
  using assms by (auto simp: base_listener_def checkPendingIM_def safePopSubcalls_def hangupCalls_def
      hangupCallsIf_def deliveries_def Let_def filter_empty_conv)

lemma setState_delivers:
  assumes s: "setState now cs cnx code c = (True, d, ev)" and new: "(cs, cnx) \<noteq> (callState c, connectionState c)"
    and ls: "stateChangedListeners c = BaseListener # ls" "BaseListener \<notin> set ls"
    and c: "call_parent c = None" "call_subcalls c = []"
    and cur: "getStateStr (c\<lparr>callState := cs, connectionState := cnx\<rparr>) = ''CURRENT''"
  shows "filter is_Hangup ev = [] \<and> filter is_IncomingMessage ev = deliveries c \<and>
    pendingInMessages d = [] \<and> call_subcalls d = []"
  using s
proof (cases rule: setState_cases)
  case (changed ls' c2 ev2)
  let ?c1 = "c\<lparr>callState := cs, connectionState := cnx\<rparr>"
  have dl: "deliveries ?c1 = deliveries c" by (simp add: deliveries_def getAccountId_def)
  obtain b evb where b: "base_listener now ?c1 = (b, evb)" by (cases "base_listener now ?c1")
  from base_listener_effects [of ?c1 now] c cur b dl
  have 1: "filter is_Hangup evb = []" "filter is_IncomingMessage evb = deliveries c" "pendingInMessages b = []"
    by auto
  from run_listeners_other_quiet [OF ls(2), of now b] 1 changed b ls(1)
    run_listeners_keeps [OF changed(3)] c(2)
  show ?thesis by (auto simp: case_prod_beta Let_def)
qed (use new in auto)

lemma merge_delivers:
  assumes m: "Call_merge now sub p = (q, sub', ev)"
    and ls: "stateChangedListeners p = BaseListener # ls" "BaseListener \<notin> set ls"
    and p: "call_parent p = None" "call_subcalls p = []" "connectionState p \<noteq> CONNECTED"
    and valid: "callState p = ACTIVE \<or> callState p = INACTIVE"
    and sub: "callState sub = ACTIVE" "connectionState sub = CONNECTED"
  shows "callState q = ACTIVE \<and> connectionState q = CONNECTED \<and> call_subcalls q = [] \<and>
    pendingInMessages q = [] \<and> pendingInMessages sub' = [] \<and> filter is_Hangup ev = [] \<and>
    filter is_IncomingMessage ev =
      map (\<lambda>msg. IncomingMessage (getAccountId p) (call_id p)
              (if peerNumber p = [] then peerNumber sub else peerNumber p) (fst msg))
        (pendingInMessages sub)"
proof -
  let ?p1 = "p\<lparr>pendingInMessages := pendingInMessages sub,
      peerNumber := (if peerNumber p = [] then peerNumber sub else peerNumber p),
      peerDisplayName := peerDisplayName sub\<rparr>"
  obtain ok p2 ev2 where s: "setState now ACTIVE CONNECTED 0 ?p1 = (ok, p2, ev2)"
    by (cases "setState now ACTIVE CONNECTED 0 ?p1")
  from m s sub have q: "q = p2" "ev = ev2 @ [PostRemoveCall (call_id sub)]"
      "pendingInMessages sub' = []"
    by (auto simp: Call_merge_def Let_def simp del: if_split)
  from setState_ok [OF s] valid have ok: "ok" by (auto simp: validStateTransition.simps)
  have "getStateStr (?p1\<lparr>callState := ACTIVE, connectionState := CONNECTED\<rparr>) = ''CURRENT''"
    by (simp add: getStateStr_def)
  with setState_delivers [of now ACTIVE CONNECTED 0 ?p1 p2 ev2 ls] s ok ls p
  have "filter is_Hangup ev2 = [] \<and> filter is_IncomingMessage ev2 = deliveries ?p1 \<and>
    pendingInMessages p2 = [] \<and> call_subcalls p2 = []" by simp
  with setState_all [OF s] ok q show ?thesis by (simp add: deliveries_def getAccountId_def)
qed

text \<open>
  When one of a peer's devices answers, the call takes over its state, every other device is
  hung up exactly once and no device stays attached, the messages received through the answering
  device are delivered once and in order, and the peer-answered hook runs.
\<close>

theorem answered_subcall_takes_over:
  assumes "subcallStateChanged now sub ACTIVE CONNECTED p = (q, sub', ev)"
    and "call_id sub \<in> set (call_subcalls p)" and "callState sub = ACTIVE" and "connectionState sub = CONNECTED"
    and "stateChangedListeners p = BaseListener # ls" and "BaseListener \<notin> set ls"
    and "call_parent p = None" and "connectionState p \<noteq> CONNECTED"
    and "callState p = ACTIVE \<or> callState p = INACTIVE"
  shows "callState q = ACTIVE \<and> connectionState q = CONNECTED \<and> call_subcalls q = [] \<and>
    filter is_Hangup ev = map (\<lambda>s. Hangup s 0) (filter (\<lambda>s. s \<noteq> call_id sub) (call_subcalls p)) \<and>
    filter is_IncomingMessage ev =
      map (\<lambda>msg. IncomingMessage (getAccountId p) (call_id p)
              (if peerNumber p = [] then peerNumber sub else peerNumber p) (fst msg))
        (pendingInMessages sub) \<and>
    pendingInMessages q = [] \<and> pendingInMessages sub' = [] \<and> last ev = PeerAnswered (call_id p)"
proof -
  let ?p0 = "p\<lparr>call_subcalls := []\<rparr>"
  obtain p2 sub2 ev2 where m: "Call_merge now sub ?p0 = (p2, sub2, ev2)"
    by (cases "Call_merge now sub ?p0")
  have h: "filter is_Hangup (hangupCallsIf xs 0 P) = map (\<lambda>s. Hangup s 0) (filter P xs)"
      "filter is_IncomingMessage (hangupCallsIf xs 0 P) = []" for xs P
    by (auto simp: hangupCallsIf_def filter_map comp_def filter_empty_conv intro!: filter_True)
  from assms(1,2) m have "q = p2" "sub' = sub2"
      "ev = hangupCallsIf (call_subcalls p) 0 (\<lambda>s. s \<noteq> call_id sub) @ ev2 @ [PeerAnswered (call_id p)]"
    by (auto simp: subcallStateChanged_def safePopSubcalls_def)
  with merge_delivers [OF m, of ls] assms(3-) show ?thesis
    by (simp add: h getAccountId_def)
qed

abbreviation example_parent :: call where
  "example_parent \<equiv> (Call_new (Some ''a'') ''p'' OUTGOING)
     \<lparr>callState := ACTIVE, connectionState := RINGING, call_subcalls := [''s'', ''t'']\<rparr>"

abbreviation example_device :: call where
  "example_device \<equiv> (Call_new (Some ''a'') ''s'' OUTGOING)
     \<lparr>callState := ACTIVE, connectionState := CONNECTED, call_parent := Some ''p'',
      peerNumber := ''bob'', pendingInMessages := [([(''text/plain'', ''hi'')], [])]\<rparr>"

theorem answered_subcall_takes_over_witness:
  "\<exists>q sub' ev. subcallStateChanged 3 example_device ACTIVE CONNECTED example_parent = (q, sub', ev) \<and>
     callState q = ACTIVE \<and> filter is_Hangup ev = [Hangup ''t'' 0] \<and>
     filter is_IncomingMessage ev = [IncomingMessage ''a'' ''p'' ''bob'' [(''text/plain'', ''hi'')]]"
proof -
  obtain q sub' ev where
    r: "subcallStateChanged 3 example_device ACTIVE CONNECTED example_parent = (q, sub', ev)"
    by (metis surj_pair)
  from answered_subcall_takes_over [OF r, of "[]"] r show ?thesis
    by (simp add: Call_new_def getAccountId_def)
qed

lemma removeCall_over:
  assumes "removeCall now c = (d, ev)" and "call_parent c = None"
  shows "callState d = OVER \<and> connectionState d = connectionState c \<and>
    reported ev = (if callState c = OVER then [] else [''OVER''])"
proof -
  obtain ok c1 ev1 where s: "setState now OVER (connectionState c) 0 c = (ok, c1, ev1)"
    by (cases "setState now OVER (connectionState c) 0 c")
  from setState_ok [OF s] have ok: "ok" by (simp add: validStateTransition.simps)
  with setState_all [OF s] have c1: "callState c1 = OVER" "connectionState c1 = connectionState c" by auto
  have str: "getStateStr c1 = ''OVER''" using c1 by (simp add: getStateStr_def)
  have old: "getStateStr c = ''OVER'' \<longleftrightarrow> callState c = OVER"
    by (auto simp: getStateStr_def split: call_state.splits connection_state.splits)
  from setState_all [OF s] str old assms(2)
  have "reported ev1 = (if callState c = OVER then [] else [''OVER''])" by (auto simp: reported_def)
  with assms(1) s c1 show ?thesis
    by (auto simp: removeCall_def setState_call_def reported_def Let_def split: if_splits)
qed

text \<open>
  A device that is busy or fails is dropped without a trace while another device of the peer
  is still being called; when it was the last one, the call reports that device's failure, then
  its end, and is disconnected.
\<close>

theorem last_failed_subcall_ends_call:
  assumes "subcallStateChanged now sub ns nc p = (q, sub', ev)"
    and "call_id sub \<in> set (call_subcalls p)" and "BUSY \<le> ns" and "\<not> (ns = PEER_BUSY \<and> nc = DISCONNECTED)"
    and "call_parent p = None" and "callState p = ACTIVE \<or> callState p = INACTIVE"
  shows "if set (call_subcalls p) = {call_id sub}
    then callState q = OVER \<and> connectionState q = DISCONNECTED \<and>
      reported ev = [if ns = BUSY then ''BUSY'' else if ns = PEER_BUSY then ''PEER_BUSY'' else ''FAILURE'',
                     ''OVER'']
    else q = p\<lparr>call_subcalls := filter (\<lambda>s. s \<noteq> call_id sub) (call_subcalls p)\<rparr> \<and> ev = []"
proof -
  let ?p1 = "p\<lparr>call_subcalls := sset_erase (call_id sub) (call_subcalls p)\<rparr>"
  have last: "call_subcalls ?p1 = [] \<longleftrightarrow> set (call_subcalls p) = {call_id sub}"
    using assms(2) by (auto simp: sset_erase_def filter_empty_conv)
  have ns: "ns \<noteq> ACTIVE" "ns = BUSY \<or> ns = PEER_BUSY \<or> ns = MERROR \<or> ns = OVER"
    using assms(3) by (cases ns; simp add: state_order)+
  obtain st code where f: "fail_state ns = (st, code)" by (cases "fail_state ns")
  obtain ok p2 ev1 where s: "setState now st DISCONNECTED code ?p1 = (ok, p2, ev1)"
    by (cases "setState now st DISCONNECTED code ?p1")
  obtain p3 ev2 where r: "removeCall now p2 = (p3, ev2)" by (cases "removeCall now p2")
  have sc: "subcallStateChanged now sub ns nc p =
      (if call_subcalls ?p1 = [] then (p3, sub, ev1 @ ev2) else (?p1, sub, []))"
    using assms(2,3,4) ns(1) f s r by (auto simp: subcallStateChanged_def Let_def)
  let ?str = "if ns = BUSY then ''BUSY'' else if ns = PEER_BUSY then ''PEER_BUSY'' else ''FAILURE''"
  have st: "st = (if ns = BUSY then BUSY else if ns = PEER_BUSY then PEER_BUSY else MERROR)"
    using f by (auto simp: fail_state_def split: if_splits)
  have "ok" using setState_ok [OF s] assms(6) st by (auto simp: validStateTransition.simps)
  with setState_all [OF s] have p2: "callState p2 = st" "connectionState p2 = DISCONNECTED" by auto
  then have str: "getStateStr p2 = ?str" using st by (simp add: getStateStr_def)
  moreover have "getStateStr ?p1 \<noteq> ?str"
    using assms(6) by (auto simp: getStateStr_def split: connection_state.splits)
  ultimately have rep: "reported ev1 = [?str]"
    using setState_all [OF s] assms(5) by (auto simp: reported_def)
  from removeCall_over [OF r] setState_frame(2) [OF s] assms(5) p2 st
  have over: "callState p3 = OVER" "connectionState p3 = DISCONNECTED" "reported ev2 = [''OVER'']"
    by (auto split: if_splits)
  show ?thesis
  proof (cases "set (call_subcalls p) = {call_id sub}")
    case True
    with sc assms(1) last have q: "q = p3" "ev = ev1 @ ev2" by auto
    with over rep True show ?thesis by (simp add: reported_append)
  next
    case False
    with sc assms(1) last show ?thesis by (auto simp: sset_erase_def)
  qed
qed

theorem last_failed_subcall_ends_call_witness:
  "\<exists>q sub' ev. subcallStateChanged 3 example_device BUSY RINGING
       (example_parent\<lparr>call_subcalls := [''s'']\<rparr>) = (q, sub', ev) \<and>
     callState q = OVER \<and> reported ev = [''BUSY'', ''OVER'']"
proof -
  obtain q sub' ev where r: "subcallStateChanged 3 example_device BUSY RINGING
       (example_parent\<lparr>call_subcalls := [''s'']\<rparr>) = (q, sub', ev)"
    by (metis surj_pair)
  from last_failed_subcall_ends_call [OF r] r show ?thesis
    by (simp add: Call_new_def)
qed

end
