(* ===== verification/String_Utils.thy ===== *)
theory String_Utils
  imports Sip_Prelude "HOL-Library.Word"
begin

text \<open>
  The string helpers of \<^verbatim>\<open>src/string_utils.cpp\<close>, \<^verbatim>\<open>src/string_utils.h\<close> and \<^verbatim>\<open>src/uri.cpp\<close>: hexadecimal
  identifiers, integer parsing, trimming, splitting, joining and replacing, line reading, and the
  parser and printer of URIs. The theorems are round trips and equivalences with declarative
  descriptions. Loops over a pair of pointers become recursion on the unread part of the string.
\<close>

section \<open>Integers and identifiers\<close>

datatype errc = Invalid_argument | Result_out_of_range

text \<open>The value of a digit as \<^verbatim>\<open>std::from_chars\<close> reads it.\<close>

definition digit_val :: "char \<Rightarrow> nat option" where
  "digit_val c =
     (let n = of_char c :: nat in
      if 48 \<le> n \<and> n \<le> 57 then Some (n - 48)
      else if 97 \<le> n \<and> n \<le> 122 then Some (n - 87)
      else if 65 \<le> n \<and> n \<le> 90 then Some (n - 55)
      else None)"

definition is_digit :: "nat \<Rightarrow> char \<Rightarrow> bool" where
  "is_digit b c = (case digit_val c of Some d \<Rightarrow> d < b | None \<Rightarrow> False)"

definition digits_val :: "nat \<Rightarrow> string \<Rightarrow> nat" where
  "digits_val b ds = foldl (\<lambda>a c. a * b + the (digit_val c)) 0 ds"

text \<open>
  \<^verbatim>\<open>std::from_chars\<close> into an integer of range \<^verbatim>\<open>lo..hi\<close>: the longest prefix of digits, after a
  minus sign for a signed type.
\<close>

definition from_chars :: "nat \<Rightarrow> int \<Rightarrow> int \<Rightarrow> string \<Rightarrow> errc + int" where
  "from_chars b lo hi s =
     (let neg = (lo < 0 \<and> s \<noteq> [] \<and> hd s = CHR ''-'');
          ds = takeWhile (is_digit b) (if neg then tl s else s);
          v = (if neg then - int (digits_val b ds) else int (digits_val b ds))
      in if ds = [] then Inl Invalid_argument
         else if v < lo \<or> hi < v then Inl Result_out_of_range
         else Inr v)"

definition to_int_or :: "int \<Rightarrow> int \<Rightarrow> string \<Rightarrow> int \<Rightarrow> int" where
  "to_int_or lo hi s defaultValue = (case from_chars 10 lo hi s of Inr v \<Rightarrow> v | Inl _ \<Rightarrow> defaultValue)"

definition to_int :: "int \<Rightarrow> int \<Rightarrow> string \<Rightarrow> errc + int" where
  "to_int lo hi s = from_chars 10 lo hi s"

definition hex_digit :: "nat \<Rightarrow> char" where
  "hex_digit d = (if d < 10 then char_of (48 + d) else char_of (87 + d))"

fun hex_digits :: "nat \<Rightarrow> string" where
  "hex_digits n = (if n < 16 then [hex_digit n] else hex_digits (n div 16) @ [hex_digit (n mod 16)])"

declare hex_digits.simps [simp del]

definition to_hex_string :: "64 word \<Rightarrow> string" where
  "to_hex_string w =
     (let ds = hex_digits (unat w) in replicate (16 - length ds) (CHR ''0'') @ ds)"

definition from_hex_string :: "string \<Rightarrow> errc + 64 word" where
  "from_hex_string s =
     (case from_chars 16 0 (2 ^ 64 - 1) s of
        Inr v \<Rightarrow> Inr (word_of_int v) | Inl _ \<Rightarrow> Inl Invalid_argument)"

text \<open>\<^verbatim>\<open>std::to_string\<close> of an unsigned number.\<close>

fun to_string :: "nat \<Rightarrow> string" where
  "to_string n =
     (if n < 10 then [char_of (48 + n)] else to_string (n div 10) @ [char_of (48 + n mod 10)])"

declare to_string.simps [simp del]

definition bool_to_str :: "bool \<Rightarrow> string" where
  "bool_to_str b = (if b then ''true'' else ''false'')"

section \<open>Trimming and splitting\<close>

text \<open>\<^verbatim>\<open>std::isspace\<close> in the C locale.\<close>

definition isspace :: "char \<Rightarrow> bool" where
  "isspace c \<longleftrightarrow> c \<in> {CHR '' '', CHR 0x09, CHR 0x0A, CHR 0x0B, CHR 0x0C, CHR 0x0D}"

definition trim :: "string \<Rightarrow> string" where
  "trim s = (let front = dropWhile isspace s in rev (dropWhile isspace (rev front)))"

lemma dropWhile_shorter: "dropWhile P xs = y # ys \<Longrightarrow> length ys < length xs"
  using length_dropWhile_le [of P xs] by simp

text \<open>The loop shared by the splitting functions, over the unread part of the string.\<close>

function split_loop :: "(char \<Rightarrow> bool) \<Rightarrow> string \<Rightarrow> string list" where
  "split_loop delim [] = []"
| "split_loop delim (c # s) =
     (let token = takeWhile (\<lambda>x. \<not> delim x) (c # s);
          rest = dropWhile (\<lambda>x. \<not> delim x) (c # s);
          out = (if token = [] then [] else [token])
      in case rest of [] \<Rightarrow> out | _ # s' \<Rightarrow> out @ split_loop delim s')"
  by pat_completeness auto
termination
  by (relation "measure (\<lambda>(_, s). length s)")
    (auto dest!: dropWhile_shorter [OF sym] split: if_splits)

declare split_loop.simps(2) [simp del]

definition split_string :: "string \<Rightarrow> char \<Rightarrow> string list" where
  "split_string s delim = split_loop (\<lambda>c. c = delim) s"

definition split_string_any :: "string \<Rightarrow> string \<Rightarrow> string list" where
  "split_string_any s delims = split_loop (\<lambda>c. c \<in> set delims) s"

definition split_string_to_unsigned :: "string \<Rightarrow> char \<Rightarrow> int list" where
  "split_string_to_unsigned s delim =
     concat (map (\<lambda>t. case from_chars 10 0 (2 ^ 32 - 1) t of Inr v \<Rightarrow> [v] | Inl _ \<Rightarrow> [])
       (split_loop (\<lambda>c. c = delim) s))"

definition string_split_vec :: "string \<Rightarrow> string \<Rightarrow> string list" where
  "string_split_vec s separator = split_loop (\<lambda>c. c \<in> set separator) s"

definition string_split_set :: "string \<Rightarrow> string \<Rightarrow> string list" where
  "string_split_set s separator =
     foldl (\<lambda>out t. sset_insert t out) [] (split_loop (\<lambda>c. c \<in> set separator) s)"

fun string_join :: "string list \<Rightarrow> string \<Rightarrow> string" where
  "string_join [] sep = []"
| "string_join [t] sep = t"
| "string_join (t # u # ts) sep = t @ sep @ string_join (u # ts) sep"

definition string_remove_suffix :: "string \<Rightarrow> char \<Rightarrow> string" where
  "string_remove_suffix s separator = takeWhile (\<lambda>c. c \<noteq> separator) s"

text \<open>Line reading: the line and the unread rest, or \<^verbatim>\<open>None\<close> at the end of the input.\<close>

definition getline_full :: "string \<Rightarrow> char \<Rightarrow> (string \<times> string) option" where
  "getline_full s delim =
     (if s = [] then None
      else Some (takeWhile (\<lambda>c. c \<noteq> delim) s,
                 (case dropWhile (\<lambda>c. c \<noteq> delim) s of [] \<Rightarrow> [] | _ # r \<Rightarrow> r)))"

lemma getline_full_shorter: "getline_full s delim = Some (line, r) \<Longrightarrow> length r < length s"
  using length_dropWhile_le [of "\<lambda>c. c \<noteq> delim" s]
  by (auto simp: getline_full_def split: if_splits list.splits)

function getline :: "string \<Rightarrow> char \<Rightarrow> (string \<times> string) option" where
  "getline s delim =
     (case getline_full s delim of
        None \<Rightarrow> None
      | Some (line, r) \<Rightarrow> if line = [] then getline r delim else Some (line, r))"
  by pat_completeness auto
termination
  by (relation "measure (\<lambda>(s, _). length s)") (auto dest: getline_full_shorter)

declare getline.simps [simp del]

section \<open>Replacing\<close>

text \<open>\<^verbatim>\<open>str.find(from, pos)\<close>: the first occurrence at or after \<^verbatim>\<open>pos\<close>.\<close>

definition occurs_at :: "string \<Rightarrow> string \<Rightarrow> nat \<Rightarrow> bool" where
  "occurs_at needle s i \<longleftrightarrow> i + length needle \<le> length s \<and> take (length needle) (drop i s) = needle"

definition find_sub :: "string \<Rightarrow> string \<Rightarrow> nat \<Rightarrow> nat option" where
  "find_sub needle s pos = find (occurs_at needle s) [pos..<Suc (length s)]"

partial_function (option) string_replace_loop ::
  "string \<Rightarrow> string \<Rightarrow> string \<Rightarrow> nat \<Rightarrow> string option" where
  "string_replace_loop s needle to start_pos =
     (case find_sub needle s start_pos of
        None \<Rightarrow> Some s
      | Some i \<Rightarrow>
          string_replace_loop (take i s @ to @ drop (i + length needle) s) needle to (i + length to))"

definition string_replace :: "string \<Rightarrow> string \<Rightarrow> string \<Rightarrow> string option" where
  "string_replace s needle to = string_replace_loop s needle to 0"

section \<open>URIs\<close>

datatype scheme = SIP_CORE | SIP | SWARM | RENDEZVOUS | GIT | DATA_TRANSFER | SYNC | UNRECOGNIZED

record uri =
  uri_scheme :: scheme
  uri_authority :: string

definition Uri_new :: "string \<Rightarrow> uri" where
  "Uri_new s =
     (case dropWhile (\<lambda>c. c \<noteq> CHR '':'') s of
        [] \<Rightarrow> \<lparr>uri_scheme = SIP_CORE, uri_authority = s\<rparr>
      | _ # authority \<Rightarrow>
          let scheme_str = takeWhile (\<lambda>c. c \<noteq> CHR '':'') s in
          \<lparr>uri_scheme =
             (if scheme_str = ''sip'' then SIP
              else if scheme_str = ''swarm'' then SWARM
              else if scheme_str = ''sip_core'' then SIP_CORE
              else if scheme_str = ''data-transfer'' then DATA_TRANSFER
              else if scheme_str = ''git'' then GIT
              else if scheme_str = ''rdv'' then RENDEZVOUS
              else if scheme_str = ''sync'' then SYNC
              else UNRECOGNIZED),
           uri_authority = authority\<rparr>)"

definition schemeToString :: "uri \<Rightarrow> string" where
  "schemeToString u =
     (case uri_scheme u of
        SIP \<Rightarrow> ''sip'' | SWARM \<Rightarrow> ''swarm'' | RENDEZVOUS \<Rightarrow> ''rdv'' | GIT \<Rightarrow> ''git'' | SYNC \<Rightarrow> ''sync''
      | _ \<Rightarrow> ''sip_core'')"

definition Uri_toString :: "uri \<Rightarrow> string" where
  "Uri_toString u = schemeToString u @ '':'' @ uri_authority u"

section \<open>Properties of identifiers\<close>

lemma is_digit_hex_digit: "d < 16 \<Longrightarrow> is_digit 16 (hex_digit d) \<and> digit_val (hex_digit d) = Some d"
  by (simp add: is_digit_def digit_val_def hex_digit_def Let_def)

lemma digits_val_Nil [simp]: "digits_val b [] = 0"
  by (simp add: digits_val_def)

lemma digits_val_snoc [simp]: "digits_val b (ds @ [c]) = digits_val b ds * b + the (digit_val c)"
  by (simp add: digits_val_def)

lemma digits_val_zeros: "digits_val b (replicate k (CHR ''0'') @ ds) = digits_val b ds"
proof -
  have "foldl (\<lambda>a c. a * b + the (digit_val c)) 0 (replicate k (CHR ''0'')) = 0"
    by (induction k) (auto simp: digit_val_def)
  then show ?thesis by (simp add: digits_val_def)
qed

lemma hex_digits_read: "digits_val 16 (hex_digits n) = n \<and> (\<forall>c \<in> set (hex_digits n). is_digit 16 c)"
proof (induction n rule: hex_digits.induct)
  case (1 n)
  show ?case
  proof (cases "n < 16")
    case True
    then show ?thesis using is_digit_hex_digit [of n] by (simp add: hex_digits.simps digits_val_def)
  next
    case False
    with 1 is_digit_hex_digit [of "n mod 16"] show ?thesis
      by (subst (1 2) hex_digits.simps) auto
  qed
qed

lemma length_hex_digits: "n < 16 ^ Suc k \<Longrightarrow> length (hex_digits n) \<le> Suc k"
proof (induction k arbitrary: n)
  case 0
  then show ?case by (simp add: hex_digits.simps)
next
  case (Suc k)
  then have "n div 16 < 16 ^ Suc k" by (simp add: less_mult_imp_div_less)
  from Suc.IH [OF this] show ?case by (subst hex_digits.simps) auto
qed

lemma hex_digits_not_Nil [simp]: "hex_digits n \<noteq> []"
  by (subst hex_digits.simps) simp

lemma to_hex_from_hex:
  "length (to_hex_string w) = 16 \<and> from_hex_string (to_hex_string w) = Inr w"
proof -
  let ?n = "unat w"
  let ?ds = "replicate (16 - length (hex_digits ?n)) (CHR ''0'') @ hex_digits ?n"
  have n: "?n < 2 ^ 64" using unsigned_less [of w, where ?'a = nat] by simp
  then have len: "length (hex_digits ?n) \<le> 16" using length_hex_digits [of ?n 15] by simp
  have "is_digit 16 (CHR ''0'')" by (simp add: is_digit_def digit_val_def)
  then have tw: "takeWhile (is_digit 16) ?ds = ?ds"
    using hex_digits_read [of ?n] by (auto simp: takeWhile_eq_all_conv)
  have v: "digits_val 16 ?ds = ?n" by (simp add: digits_val_zeros hex_digits_read)
  have "int ?n < 2 ^ 64" using unsigned_less [of w, where ?'a = int] by simp
  then have "from_chars 16 0 (2 ^ 64 - 1) ?ds = Inr (int ?n)"
    unfolding from_chars_def by (simp add: tw v Let_def)
  then have "from_hex_string ?ds = Inr w"
    by (simp add: from_hex_string_def)
  with len show ?thesis by (simp add: to_hex_string_def Let_def)
qed

lemma from_to_hex: "from_hex_string (to_hex_string w) = Inr w"
  using to_hex_from_hex by simp

text \<open>
  An identifier is printed as exactly sixteen digits, and reading them back gives the
  identifier, for all 64-bit values.
\<close>

theorem hex_string_roundtrip:
  "length (to_hex_string w) = 16 \<and> from_hex_string (to_hex_string w) = Inr w"
  by (rule to_hex_from_hex)

section \<open>Properties of splitting\<close>

lemma split_loop_delim: "delim c \<Longrightarrow> split_loop delim (c # s) = split_loop delim s"
  by (simp add: split_loop.simps)

lemma split_loop_unfold:
  "s \<noteq> [] \<Longrightarrow> split_loop delim s =
     (let token = takeWhile (\<lambda>x. \<not> delim x) s; out = (if token = [] then [] else [token])
      in case dropWhile (\<lambda>x. \<not> delim x) s of [] \<Rightarrow> out | _ # s' \<Rightarrow> out @ split_loop delim s')"
  by (cases s) (simp_all only: split_loop.simps Let_def not_False_eq_True simp_thms)

lemma split_loop_skip: "\<forall>c \<in> set sep. delim c \<Longrightarrow> split_loop delim (sep @ s) = split_loop delim s"
  by (induction sep) (auto simp: split_loop_delim)

lemma split_loop_token:
  assumes "t \<noteq> []" and "\<forall>c \<in> set t. \<not> delim c"
  shows "split_loop delim t = [t]" and "delim x \<Longrightarrow> split_loop delim (t @ x # s) = t # split_loop delim s"
proof -
  from assms obtain c t' where t: "t = c # t'" by (cases t) auto
  with assms have "takeWhile (\<lambda>x. \<not> delim x) t = t" "dropWhile (\<lambda>x. \<not> delim x) t = []"
    by (auto simp: takeWhile_eq_all_conv)
  with t show "split_loop delim t = [t]" by (simp add: split_loop.simps)
  assume "delim x"
  with assms have "takeWhile (\<lambda>x. \<not> delim x) (t @ x # s) = t" "dropWhile (\<lambda>x. \<not> delim x) (t @ x # s) = x # s"
    by (auto simp: takeWhile_tail dropWhile_append2 takeWhile_append2)
  with t show "split_loop delim (t @ x # s) = t # split_loop delim s" by (simp add: split_loop.simps)
qed

text \<open>
  Splitting a joined list of words at its separator gives the words back, for any non-empty
  separator none of whose characters occurs in a word, provided no word is empty.
\<close>

theorem join_split_roundtrip:
  assumes "sep \<noteq> []" and "\<forall>t \<in> set ts. t \<noteq> [] \<and> set t \<inter> set sep = {}"
  shows "string_split_vec (string_join ts sep) sep = ts"
  using assms(2)
proof (induction ts rule: induct_list012)
  case (3 t u ts)
  from assms(1) obtain x r where sep: "sep = x # r" by (cases sep) auto
  have "split_loop (\<lambda>c. c \<in> set sep) (t @ x # r @ string_join (u # ts) sep) =
      t # split_loop (\<lambda>c. c \<in> set sep) (string_join (u # ts) sep)"
    using 3(3) sep by (subst split_loop_token(2)) (auto simp: split_loop_skip)
  with 3 sep show ?case by (simp add: string_split_vec_def)
qed (auto simp: string_split_vec_def intro: split_loop_token)

theorem join_split_roundtrip_witness:
  "string_split_vec (string_join [''acc1'', ''acc2''] ''/'') ''/'' = [''acc1'', ''acc2'']"
  by (rule join_split_roundtrip) auto

text \<open>The lines a caller collects with \<^verbatim>\<open>while (getline(str, line, delim))\<close>.\<close>

lemma getline_shorter: "getline s delim = Some (line, r) \<Longrightarrow> length r < length s"
proof (induction s delim rule: getline.induct)
  case (1 s delim)
  from 1(2) have "getline_full s delim \<noteq> None" by (cases "getline_full s delim") (auto simp: getline.simps [of s])
  then obtain l r' where f: "getline_full s delim = Some (l, r')" by auto
  show ?case
  proof (cases "l = []")
    case True
    with f 1(2) have "getline r' delim = Some (line, r)" by (simp add: getline.simps [of s])
    with 1(1) [OF f refl True] getline_full_shorter [OF f] show ?thesis by simp
  next
    case False
    with f 1(2) getline_full_shorter [OF f] show ?thesis by (simp add: getline.simps [of s])
  qed
qed

function getlines :: "string \<Rightarrow> char \<Rightarrow> string list" where
  "getlines s delim =
     (case getline s delim of None \<Rightarrow> [] | Some (line, r) \<Rightarrow> line # getlines r delim)"
  by pat_completeness auto
termination
  by (relation "measure (\<lambda>(s, _). length s)") (auto dest: getline_shorter)

declare getlines.simps [simp del]

lemma split_string_getline_full:
  assumes "getline_full s delim = Some (line, r)"
  shows "split_string s delim = (if line = [] then [] else [line]) @ split_string r delim"
  using assms unfolding split_string_def getline_full_def
  by (cases "dropWhile (\<lambda>c. c \<noteq> delim) s")
    (auto simp: split_loop_unfold Let_def simp del: dropWhile_eq_Nil_conv split: if_splits)

lemma split_string_getline:
  "split_string s delim =
     (case getline s delim of None \<Rightarrow> [] | Some (line, r) \<Rightarrow> line # split_string r delim)"
proof (induction s delim rule: getline.induct)
  case (1 s delim)
  show ?case
  proof (cases "getline_full s delim")
    case None
    then have "s = []" by (simp add: getline_full_def split: if_splits)
    with None show ?thesis by (simp add: getline.simps split_string_def)
  next
    case (Some lr)
    obtain line r where lr: "lr = (line, r)" by (cases lr)
    with Some 1 split_string_getline_full [of s delim line r] show ?thesis
      by (subst getline.simps) auto
  qed
qed

text \<open>
  C40: reading lines until the end of the input yields exactly the words that splitting the input
  at the delimiter yields; empty lines are skipped by both, and both end.
\<close>

theorem getlines_is_split: "getlines s delim = split_string s delim"
proof (induction s delim rule: getlines.induct)
  case (1 s delim)
  then show ?case
    by (subst getlines.simps, subst split_string_getline) (auto split: option.splits)
qed

section \<open>Properties of trimming\<close>

text \<open>
  Trimming removes white space at both ends and nothing else.
\<close>

theorem trim_decomposes:
  "\<exists>front post. s = front @ trim s @ post \<and> list_all isspace front \<and> list_all isspace post \<and>
     (trim s = [] \<or> \<not> isspace (hd (trim s)) \<and> \<not> isspace (last (trim s)))"
proof (intro exI conjI)
  let ?f = "dropWhile isspace s"
  let ?post = "rev (takeWhile isspace (rev ?f))"
  have f: "trim s @ ?post = ?f"
    unfolding trim_def Let_def by (simp only: rev_append [symmetric] takeWhile_dropWhile_id rev_rev_ident)
  then show "s = takeWhile isspace s @ trim s @ ?post" by simp
  show "list_all isspace (takeWhile isspace s)" "list_all isspace ?post"
    by (auto simp: list_all_iff dest: set_takeWhileD)
  show "trim s = [] \<or> \<not> isspace (hd (trim s)) \<and> \<not> isspace (last (trim s))"
  proof (cases "trim s = []")
    case False
    then have "?f \<noteq> []" "hd ?f = hd (trim s)"
      using f hd_append2 [OF False, of ?post] by (metis append_is_Nil_conv, metis)
    then have "\<not> isspace (hd (trim s))" using hd_dropWhile [of isspace s] by metis
    moreover have "last (trim s) = hd (dropWhile isspace (rev ?f))" "dropWhile isspace (rev ?f) \<noteq> []"
      using False by (auto simp: trim_def Let_def last_rev)
    then have "\<not> isspace (last (trim s))" using hd_dropWhile by metis
    ultimately show ?thesis by simp
  qed simp
qed

section \<open>Properties of replacing\<close>

text \<open>The description: occurrences are replaced from the left, none inside a replacement.\<close>

function replace_all :: "string \<Rightarrow> string \<Rightarrow> string \<Rightarrow> string" where
  "replace_all needle to s =
     (if needle = [] \<or> length s < length needle then s
      else if take (length needle) s = needle
        then to @ replace_all needle to (drop (length needle) s)
      else hd s # replace_all needle to (tl s))"
  by pat_completeness auto
termination
  by (relation "measure (\<lambda>(needle, _, s). length s)")
    (auto simp: linorder_not_less simp flip: length_greater_0_conv)

declare replace_all.simps [simp del]

lemma find_sub_Some:
  assumes "find_sub needle s p = Some i"
  shows "p \<le> i \<and> occurs_at needle s i \<and> (\<forall>j. p \<le> j \<and> j < i \<longrightarrow> \<not> occurs_at needle s j)"
proof -
  from assms obtain k where k: "k < length [p..<Suc (length s)]" "occurs_at needle s ([p..<Suc (length s)] ! k)"
      "i = [p..<Suc (length s)] ! k" "\<forall>j<k. \<not> occurs_at needle s ([p..<Suc (length s)] ! j)"
    by (auto simp: find_sub_def find_Some_iff simp del: upt_Suc)
  have i: "i = p + k" using k(1,3) by (simp del: upt_Suc)
  have "\<not> occurs_at needle s j" if "p \<le> j" "j < i" for j
  proof -
    have "j - p < k" using that i by simp
    with k(4) have "\<not> occurs_at needle s ([p..<Suc (length s)] ! (j - p))" by blast
    with that k(1) i show ?thesis by (simp del: upt_Suc)
  qed
  with k i show ?thesis by auto
qed

lemma find_sub_None:
  assumes "find_sub needle s p = None" and "p \<le> j"
  shows "\<not> occurs_at needle s j"
proof (cases "j \<le> length s")
  case True
  with assms show ?thesis by (auto simp: find_sub_def find_None_iff simp del: upt_Suc)
next
  case False
  then show ?thesis by (simp add: occurs_at_def)
qed

lemma occurs_at_shift: "occurs_at needle (d @ s) (length d + j) = occurs_at needle s j"
  by (auto simp: occurs_at_def)

lemma occurs_at_tl: "s \<noteq> [] \<Longrightarrow> occurs_at needle (tl s) j = occurs_at needle s (Suc j)"
  using occurs_at_shift [of needle "[hd s]" "tl s" j] by simp

lemma replace_all_none:
  "needle \<noteq> [] \<Longrightarrow> (\<And>j. \<not> occurs_at needle s j) \<Longrightarrow> replace_all needle to s = s"
proof (induction s)
  case (Cons c s)
  have "\<not> occurs_at needle s j" for j using Cons.prems(2) [of "Suc j"] occurs_at_tl [of "c # s"] by simp
  with Cons have "replace_all needle to s = s" by blast
  with Cons.prems(2) [of 0] show ?case by (subst replace_all.simps) (auto simp: occurs_at_def)
qed (simp add: replace_all.simps)

lemma replace_all_first:
  "needle \<noteq> [] \<Longrightarrow> occurs_at needle s i \<Longrightarrow> \<forall>j<i. \<not> occurs_at needle s j \<Longrightarrow>
   replace_all needle to s = take i s @ to @ replace_all needle to (drop (i + length needle) s)"
proof (induction i arbitrary: s)
  case 0
  then show ?case by (subst replace_all.simps) (auto simp: occurs_at_def)
next
  case (Suc i)
  from Suc.prems have s: "s \<noteq> []" by (auto simp: occurs_at_def)
  from Suc.prems occurs_at_tl [OF s]
  have "occurs_at needle (tl s) i" "\<forall>j<i. \<not> occurs_at needle (tl s) j" by auto
  from Suc.IH [OF Suc.prems(1) this]
  have "replace_all needle to (tl s) = take i (tl s) @ to @ replace_all needle to (drop (i + length needle) (tl s))" .
  moreover have "\<not> occurs_at needle s 0" "length needle \<le> length s"
    using Suc.prems by (auto simp: occurs_at_def)
  ultimately show ?case
    using s Suc.prems(1) by (subst replace_all.simps) (auto simp: occurs_at_def take_Suc drop_Suc)
qed

lemma string_replace_loop_all:
  assumes "needle \<noteq> []"
  shows "string_replace_loop (d @ s) needle to (length d) = Some (d @ replace_all needle to s)"
proof (induction "length s" arbitrary: d s rule: less_induct)
  case less
  show ?case
  proof (cases "find_sub needle (d @ s) (length d)")
    case None
    then have "\<not> occurs_at needle s j" for j
      using find_sub_None [OF None, of "length d + j"] by (simp add: occurs_at_shift)
    with None assms show ?thesis
      by (subst string_replace_loop.simps) (simp add: replace_all_none)
  next
    case (Some k)
    note f = find_sub_Some [OF Some]
    define i where "i = k - length d"
    with f have k: "k = length d + i" by simp
    from f have occ: "occurs_at needle s i" by (simp add: k occurs_at_shift)
    have first: "\<forall>j<i. \<not> occurs_at needle s j"
    proof (intro allI impI)
      fix j assume "j < i"
      with f k have "\<not> occurs_at needle (d @ s) (length d + j)" by simp
      then show "\<not> occurs_at needle s j" by (simp add: occurs_at_shift)
    qed
    let ?r = "drop (i + length needle) s"
    have "length ?r < length s" using occ assms by (auto simp: occurs_at_def simp flip: length_greater_0_conv)
    from less [OF this, of "d @ take i s @ to"]
    have "string_replace_loop ((d @ take i s @ to) @ ?r) needle to (length (d @ take i s @ to)) =
        Some ((d @ take i s @ to) @ replace_all needle to ?r)" .
    moreover have "length (take i s) = i" using occ by (auto simp: occurs_at_def)
    ultimately show ?thesis
      using Some k replace_all_first [OF assms occ first]
      by (subst string_replace_loop.simps) (simp add: add.assoc)
  qed
qed

lemma string_replace_loop_empty:
  assumes "string_replace_loop s needle to p = Some y"
  shows "needle = [] \<longrightarrow> length s < p"
proof (rule string_replace_loop.raw_induct [where P = "\<lambda>s needle to p y. needle = [] \<longrightarrow> length s < p",
      OF _ assms])
  fix loop s needle to p and y :: string
  assume IH: "\<And>s needle to p y. loop s needle to p = Some y \<Longrightarrow> needle = [] \<longrightarrow> length s < p"
    and eq: "(case find_sub needle s p of None \<Rightarrow> Some s
       | Some i \<Rightarrow> loop (take i s @ to @ drop (i + length needle) s) needle to (i + length to)) = Some y"
  show "needle = [] \<longrightarrow> length s < p"
  proof (rule impI, rule ccontr)
    assume e: "needle = []" and "\<not> length s < p"
    then have f: "find_sub needle s p = Some p"
      by (simp add: find_sub_def upt_conv_Cons occurs_at_def del: upt_Suc)
    with eq have "loop (take p s @ to @ drop (p + length needle) s) needle to (p + length to) = Some y" by simp
    from IH [OF this] e \<open>\<not> length s < p\<close> show False by simp
  qed
qed

text \<open>
  \<^verbatim>\<open>string_replace\<close> returns for every non-empty pattern, with all occurrences replaced from the
  left and nothing inside a replacement touched, and it never returns for the empty pattern.
\<close>

theorem string_replace_spec:
  "string_replace s needle to = (if needle = [] then None else Some (replace_all needle to s))"
proof (cases "needle = []")
  case True
  with string_replace_loop_empty [of s needle to 0] show ?thesis
    by (cases "string_replace_loop s [] to 0") (auto simp: string_replace_def)
next
  case False
  with string_replace_loop_all [of needle "[]" s to] show ?thesis
    by (simp add: string_replace_def)
qed

section \<open>Properties of URIs\<close>

text \<open>The schemes whose name the printer knows.\<close>

definition printable :: "scheme \<Rightarrow> bool" where
  "printable s \<longleftrightarrow> s \<noteq> DATA_TRANSFER \<and> s \<noteq> UNRECOGNIZED"

lemma Uri_new_split:
  "CHR '':'' \<notin> set x \<Longrightarrow> dropWhile (\<lambda>c. c \<noteq> CHR '':'') (x @ '':'' @ a) = CHR '':'' # a \<and>
   takeWhile (\<lambda>c. c \<noteq> CHR '':'') (x @ '':'' @ a) = x"
  by (induction x) auto

text \<open>
  Parsing a printed URI gives the URI back, except that the data-transfer scheme and unknown
  schemes come back as the default one.
\<close>

theorem uri_roundtrip:
  "Uri_new (Uri_toString u) =
     u\<lparr>uri_scheme := if printable (uri_scheme u) then uri_scheme u else SIP_CORE\<rparr>"
proof -
  have c: "CHR '':'' \<notin> set (schemeToString u)"
    by (auto simp: schemeToString_def split: scheme.splits)
  show ?thesis
    unfolding Uri_new_def Uri_toString_def
    using Uri_new_split [OF c, of "uri_authority u"]
    by (cases u; cases "uri_scheme u") (simp_all add: schemeToString_def printable_def)
qed

end
