(* ===== verification/Call_Factory.thy ===== *)
theory Call_Factory
  imports Call String_Utils
begin

text \<open>
  The registry of live calls, \<^verbatim>\<open>src/call_factory.cpp\<close>, and the set of calls and conferences of one
  account, \<^verbatim>\<open>src/call_set.h\<close>. The factory owns the calls, one map per kind of link; an account
  holds weak references, which the model reads through a parameter \<^verbatim>\<open>lock\<close>. The theorems are
  about fresh identifiers, the consistency of the maps and the agreement of the queries.
\<close>

section \<open>The factory\<close>

datatype link_type = GENERIC | SIP_LINK

definition link_index :: "link_type \<Rightarrow> nat" where
  "link_index l = (case l of GENERIC \<Rightarrow> 0 | SIP_LINK \<Rightarrow> 1)"

instantiation link_type :: linorder
begin

definition less_eq_link_type :: "link_type \<Rightarrow> link_type \<Rightarrow> bool" where
  "less_eq_link_type a b \<longleftrightarrow> link_index a \<le> link_index b"

definition less_link_type :: "link_type \<Rightarrow> link_type \<Rightarrow> bool" where
  "less_link_type a b \<longleftrightarrow> link_index a < link_index b"

instance
  by standard
    (auto simp: less_eq_link_type_def less_link_type_def link_index_def split: link_type.splits)

end

type_synonym call_map = "(string, call) smap"

record call_factory =
  allowNewCall :: bool
  callMaps :: "(link_type, call_map) smap"

datatype factory_error = Out_of_range \<comment> \<open>\<^verbatim>\<open>std::map::at\<close>\<close>

definition SIP_CORE_ID_MAX_VAL :: nat where
  "SIP_CORE_ID_MAX_VAL = 9007199254740992"

definition CallFactory_new :: call_factory where
  "CallFactory_new = \<lparr>allowNewCall = True, callMaps = []\<rparr>"

definition getMap :: "link_type \<Rightarrow> call_factory \<Rightarrow> call_map option" where
  "getMap link f = smap_find (callMaps f) link"

definition hasCall :: "string \<Rightarrow> call_factory \<Rightarrow> bool" where
  "hasCall i f = list_ex (\<lambda>(_, m). smap_find m i \<noteq> None) (callMaps f)"

fun getCall_in :: "(link_type, call_map) smap \<Rightarrow> string \<Rightarrow> call option" where
  "getCall_in [] i = None"
| "getCall_in ((_, m) # ms) i = (case smap_find m i of Some c \<Rightarrow> Some c | None \<Rightarrow> getCall_in ms i)"

definition getCall :: "string \<Rightarrow> call_factory \<Rightarrow> call option" where
  "getCall i f = getCall_in (callMaps f) i"

text \<open>\<^verbatim>\<open>draws\<close> are the values the generator produces.\<close>

definition getNewCallID :: "nat list \<Rightarrow> call_factory \<Rightarrow> string option" where
  "getNewCallID draws f = draw_until (\<lambda>i. hasCall i f) (map to_string draws)"

definition CallFactory_empty :: "call_factory \<Rightarrow> bool" where
  "CallFactory_empty f = list_all (\<lambda>(_, m). m = []) (callMaps f)"

definition getAllCalls :: "call_factory \<Rightarrow> call list" where
  "getAllCalls f = foldl (\<lambda>v (_, m). v @ map snd m) [] (callMaps f)"

definition getCallIDs :: "call_factory \<Rightarrow> string list" where
  "getCallIDs f = foldl (\<lambda>v (_, m). v @ map fst m) [] (callMaps f)"

definition callCount :: "call_factory \<Rightarrow> nat" where
  "callCount f = foldl (\<lambda>n (_, m). n + length m) 0 (callMaps f)"

definition hasCall_link :: "string \<Rightarrow> link_type \<Rightarrow> call_factory \<Rightarrow> bool" where
  "hasCall_link i link f =
     (case getMap link f of Some m \<Rightarrow> smap_find m i \<noteq> None | None \<Rightarrow> False)"

definition empty_link :: "link_type \<Rightarrow> call_factory \<Rightarrow> bool" where
  "empty_link link f = (case getMap link f of Some m \<Rightarrow> m = [] | None \<Rightarrow> True)"

definition getCall_link :: "string \<Rightarrow> link_type \<Rightarrow> call_factory \<Rightarrow> call option" where
  "getCall_link i link f = (case getMap link f of Some m \<Rightarrow> smap_find m i | None \<Rightarrow> None)"

definition getAllCalls_link :: "link_type \<Rightarrow> call_factory \<Rightarrow> call list" where
  "getAllCalls_link link f = (case getMap link f of Some m \<Rightarrow> map snd m | None \<Rightarrow> [])"

definition getCallIDs_link :: "link_type \<Rightarrow> call_factory \<Rightarrow> string list" where
  "getCallIDs_link link f = (case getMap link f of Some m \<Rightarrow> map fst m | None \<Rightarrow> [])"

definition callCount_link :: "link_type \<Rightarrow> call_factory \<Rightarrow> nat" where
  "callCount_link link f = (case getMap link f of Some m \<Rightarrow> length m | None \<Rightarrow> 0)"

definition forbid :: "call_factory \<Rightarrow> call_factory" where
  "forbid f = f\<lparr>allowNewCall := False\<rparr>"

definition CallFactory_clear :: "call_factory \<Rightarrow> call_factory" where
  "CallFactory_clear f = f\<lparr>callMaps := []\<rparr>"

text \<open>\<^verbatim>\<open>link\<close> is what the call's own \<^verbatim>\<open>getLinkType()\<close> answers.\<close>

definition CallFactory_removeCall ::
  "link_type \<Rightarrow> call \<Rightarrow> call_factory \<Rightarrow> factory_error + call_factory" where
  "CallFactory_removeCall link c f =
     (case smap_find (callMaps f) link of
        None \<Rightarrow> Inl Out_of_range
      | Some m \<Rightarrow> Inr (f\<lparr>callMaps := smap_set link (smap_erase (call_id c) m) (callMaps f)\<rparr>))"

definition CallFactory_removeCall_id ::
  "(call \<Rightarrow> link_type) \<Rightarrow> string \<Rightarrow> call_factory \<Rightarrow> factory_error + call_factory" where
  "CallFactory_removeCall_id linkOf i f =
     (case getCall i f of
        Some c \<Rightarrow> CallFactory_removeCall (linkOf c) c f
      | None \<Rightarrow> Inr f)"

section \<open>The calls of an account\<close>

record ('w, 'conf) call_set =
  set_calls :: "(string, 'w) smap"
  set_conferences :: "(string, 'conf) smap"

definition CallSet_new :: "('w, 'conf) call_set" where
  "CallSet_new = \<lparr>set_calls = [], set_conferences = []\<rparr>"

definition CallSet_getCall :: "('w \<Rightarrow> call option) \<Rightarrow> string \<Rightarrow> ('w, 'conf) call_set \<Rightarrow> call option" where
  "CallSet_getCall lock i s = (case smap_find (set_calls s) i of None \<Rightarrow> None | Some w \<Rightarrow> lock w)"

definition CallSet_getConference :: "string \<Rightarrow> ('w, 'conf) call_set \<Rightarrow> 'conf option" where
  "CallSet_getConference i s = smap_find (set_conferences s) i"

definition CallSet_add :: "call \<Rightarrow> 'w \<Rightarrow> ('w, 'conf) call_set \<Rightarrow> ('w, 'conf) call_set" where
  "CallSet_add c w s = s\<lparr>set_calls := smap_emplace (call_id c) w (set_calls s)\<rparr>"

definition CallSet_addConference :: "string \<Rightarrow> 'conf \<Rightarrow> ('w, 'conf) call_set \<Rightarrow> ('w, 'conf) call_set" where
  "CallSet_addConference i conf s = s\<lparr>set_conferences := smap_emplace i conf (set_conferences s)\<rparr>"

definition CallSet_remove :: "call \<Rightarrow> ('w, 'conf) call_set \<Rightarrow> bool \<times> ('w, 'conf) call_set" where
  "CallSet_remove c s =
     (smap_find (set_calls s) (call_id c) \<noteq> None,
      s\<lparr>set_calls := smap_erase (call_id c) (set_calls s)\<rparr>)"

definition CallSet_removeConference :: "string \<Rightarrow> ('w, 'conf) call_set \<Rightarrow> bool \<times> ('w, 'conf) call_set" where
  "CallSet_removeConference i s =
     (smap_find (set_conferences s) i \<noteq> None,
      s\<lparr>set_conferences := smap_erase i (set_conferences s)\<rparr>)"

definition CallSet_getCallIds :: "('w, 'conf) call_set \<Rightarrow> string list" where
  "CallSet_getCallIds s = map fst (set_calls s)"

definition CallSet_getCalls :: "('w \<Rightarrow> call option) \<Rightarrow> ('w, 'conf) call_set \<Rightarrow> call list" where
  "CallSet_getCalls lock s = concat (map (\<lambda>(_, w). case lock w of Some c \<Rightarrow> [c] | None \<Rightarrow> []) (set_calls s))"

definition CallSet_getConferenceIds :: "('w, 'conf) call_set \<Rightarrow> string list" where
  "CallSet_getConferenceIds s = map fst (set_conferences s)"

text \<open>Stored conferences are never null pointers in the model.\<close>

definition CallSet_getConferences :: "('w, 'conf) call_set \<Rightarrow> 'conf list" where
  "CallSet_getConferences s = map snd (set_conferences s)"

section \<open>Creating a call\<close>

text \<open>
  Creates the call, registers it and attaches it to its account, whose weak reference is the
  call's identifier. Nothing is created while new calls are forbidden.
\<close>

definition newSipCall ::
  "string \<Rightarrow> call_type \<Rightarrow> nat list \<Rightarrow> call_factory \<Rightarrow> (string, 'conf) call_set \<Rightarrow>
   call option \<times> call_factory \<times> (string, 'conf) call_set" where
  "newSipCall account ty draws f s =
     (if \<not> allowNewCall f then (None, f, s)
      else case getNewCallID draws f of
        None \<Rightarrow> (None, f, s)
      | Some i \<Rightarrow>
          let c = Call_new (Some account) i ty;
              m = (case smap_find (callMaps f) SIP_LINK of Some m \<Rightarrow> m | None \<Rightarrow> [])
          in (Some c, f\<lparr>callMaps := smap_set SIP_LINK (smap_emplace i c m) (callMaps f)\<rparr>,
              CallSet_add c i s))"

section \<open>Runs of the factory\<close>

datatype factory_op =
    NewSipCall string call_type "nat list"
  | Forbid
  | RemoveCallOp call
  | RemoveCallId string
  | Clear

text \<open>An operation that throws leaves the registry as it was; all calls are SIP calls.\<close>

fun factory_step ::
  "call_factory \<times> (string, 'conf) call_set \<Rightarrow> factory_op \<Rightarrow> call_factory \<times> (string, 'conf) call_set" where
  "factory_step (f, s) (NewSipCall account ty draws) = snd (newSipCall account ty draws f s)"
| "factory_step (f, s) Forbid = (forbid f, s)"
| "factory_step (f, s) (RemoveCallOp c) =
     (case CallFactory_removeCall SIP_LINK c f of Inr f' \<Rightarrow> (f', s) | Inl _ \<Rightarrow> (f, s))"
| "factory_step (f, s) (RemoveCallId i) =
     (case CallFactory_removeCall_id (\<lambda>_. SIP_LINK) i f of Inr f' \<Rightarrow> (f', s) | Inl _ \<Rightarrow> (f, s))"
| "factory_step (f, s) Clear = (CallFactory_clear f, s)"

text \<open>The registry has at most one map, of SIP calls, each under its own identifier.\<close>

definition factory_wf :: "call_factory \<Rightarrow> bool" where
  "factory_wf f \<longleftrightarrow> callMaps f = [] \<or>
     (\<exists>m. callMaps f = [(SIP_LINK, m)] \<and> smap_wf m \<and> (\<forall>(i, c) \<in> set m. call_id c = i))"

definition sip_calls :: "call_factory \<Rightarrow> call_map" where
  "sip_calls f = (case smap_find (callMaps f) SIP_LINK of Some m \<Rightarrow> m | None \<Rightarrow> [])"

lemma factory_wfE:
  assumes "factory_wf f"
  obtains (none) "callMaps f = []" "sip_calls f = []"
  | (some) m where "callMaps f = [(SIP_LINK, m)]" "sip_calls f = m" "smap_wf m"
      "\<forall>(i, c) \<in> set m. call_id c = i"
  using assms by (auto simp: factory_wf_def sip_calls_def)

lemma factory_queries:
  assumes "factory_wf f"
  shows "getCall i f = smap_find (sip_calls f) i"
    "hasCall i f \<longleftrightarrow> smap_find (sip_calls f) i \<noteq> None"
    "getAllCalls f = map snd (sip_calls f)" "getCallIDs f = map fst (sip_calls f)"
    "callCount f = length (sip_calls f)" "CallFactory_empty f \<longleftrightarrow> sip_calls f = []"
  using assms
  by (cases rule: factory_wfE;
      simp add: getCall_def hasCall_def getAllCalls_def getCallIDs_def callCount_def
        CallFactory_empty_def split: option.split)+

lemma sip_calls_wf: "factory_wf f \<Longrightarrow> smap_wf (sip_calls f) \<and> (\<forall>(i, c) \<in> set (sip_calls f). call_id c = i)"
  by (erule factory_wfE) auto

lemma factory_wf_set:
  assumes "factory_wf f" and "smap_wf m" and "\<forall>(i, c) \<in> set m. call_id c = i"
  shows "factory_wf (f\<lparr>callMaps := smap_set SIP_LINK m (callMaps f)\<rparr>)"
    "sip_calls (f\<lparr>callMaps := smap_set SIP_LINK m (callMaps f)\<rparr>) = m"
  using assms by (auto elim!: factory_wfE simp: factory_wf_def sip_calls_def)

lemma factory_wf_new [simp]: "factory_wf CallFactory_new"
  by (simp add: factory_wf_def CallFactory_new_def)

lemma newSipCall_cases:
  assumes "factory_wf f" and "newSipCall account ty draws f s = (r, f', s')"
  obtains (not_made) "r = None" "f' = f" "s' = s"
  | (created) i where "getNewCallID draws f = Some i" "smap_find (sip_calls f) i = None"
      "r = Some (Call_new (Some account) i ty)" "s' = CallSet_add (Call_new (Some account) i ty) i s"
      "factory_wf f'" "sip_calls f' = smap_set i (Call_new (Some account) i ty) (sip_calls f)"
      "allowNewCall f'"
proof (cases "allowNewCall f \<and> getNewCallID draws f \<noteq> None")
  case False
  with assms show ?thesis by (intro not_made) (auto simp: newSipCall_def split: if_splits option.splits)
next
  case True
  then obtain i where i: "getNewCallID draws f = Some i" and allowed: "allowNewCall f" by auto
  then have free: "smap_find (sip_calls f) i = None"
    using draw_until_SomeD [of "\<lambda>i. hasCall i f" "map to_string draws" i]
      factory_queries(2) [OF assms(1), of i] by (simp add: getNewCallID_def)
  let ?c = "Call_new (Some account) i ty"
  from free have em: "smap_emplace i ?c (sip_calls f) = smap_set i ?c (sip_calls f)"
    by (simp add: smap_emplace_def)
  have ids: "\<forall>(j, d) \<in> set (smap_set i ?c (sip_calls f)). call_id d = j"
    using sip_calls_wf [OF assms(1)] by (auto dest!: in_smap_setD simp: Call_new_def)
  from assms(2) i allowed have f': "f' = f\<lparr>callMaps := smap_set SIP_LINK (smap_set i ?c (sip_calls f)) (callMaps f)\<rparr>"
    and r: "r = Some ?c" "s' = CallSet_add ?c i s"
    by (auto simp: newSipCall_def Let_def em simp flip: sip_calls_def)
  from created [OF i free r] factory_wf_set [OF assms(1) _ ids] sip_calls_wf [OF assms(1)] allowed f'
  show ?thesis by simp
qed

lemma removeCall_cases:
  assumes "factory_wf f" and "CallFactory_removeCall SIP_LINK c f = r"
  obtains (thrown) "r = Inl Out_of_range" "callMaps f = []"
  | (removed) f' where "r = Inr f'" "factory_wf f'" "sip_calls f' = smap_erase (call_id c) (sip_calls f)"
  using assms
proof (cases rule: factory_wfE [OF assms(1)])
  case 1
  with assms(2) show ?thesis by (intro thrown) (auto simp: CallFactory_removeCall_def)
next
  case (2 m)
  from 2 assms(2) have r: "r = Inr (f\<lparr>callMaps := smap_set SIP_LINK (smap_erase (call_id c) m) (callMaps f)\<rparr>)"
    by (simp add: CallFactory_removeCall_def)
  have ids: "\<forall>(j, d) \<in> set (smap_erase (call_id c) m). call_id d = j" using 2(4) by auto
  from removed [OF r] factory_wf_set [OF assms(1) _ ids] 2 show ?thesis by simp
qed

lemma removeCall_id_result:
  assumes "factory_wf f"
  shows "\<exists>f'. CallFactory_removeCall_id (\<lambda>_. SIP_LINK) i f = Inr f' \<and> factory_wf f' \<and>
    sip_calls f' = smap_erase i (sip_calls f)"
proof (cases "getCall i f")
  case None
  then have "smap_erase i (sip_calls f) = sip_calls f"
    using factory_queries(1) [OF assms, of i]
    by (force simp: smap_erase_def filter_id_conv map_of_eq_None_iff)
  with None assms show ?thesis by (simp add: CallFactory_removeCall_id_def)
next
  case (Some c)
  then have m: "smap_find (sip_calls f) i = Some c" using factory_queries(1) [OF assms, of i] by simp
  with sip_calls_wf [OF assms] have "call_id c = i" by (auto dest: map_of_SomeD)
  moreover from m have "callMaps f \<noteq> []" by (auto simp: sip_calls_def)
  ultimately show ?thesis
    using removeCall_cases [OF assms refl, of c] Some by (auto simp: CallFactory_removeCall_id_def)
qed

lemma factory_step_wf: "factory_wf (fst x) \<Longrightarrow> factory_wf (fst (factory_step x op))"
proof (cases x; cases op)
  fix f s account ty draws
  assume wf: "factory_wf (fst x)" and x: "x = (f, s)" and op: "op = NewSipCall account ty draws"
  obtain r f' s' where n: "newSipCall account ty draws f s = (r, f', s')" by (metis surj_pair)
  from wf x have "factory_wf f" by simp
  then have "factory_wf f'" by (cases rule: newSipCall_cases [OF _ n]) auto
  with n x op show ?thesis by simp
next
  fix f s c
  assume wf: "factory_wf (fst x)" and x: "x = (f, s)" and op: "op = RemoveCallOp c"
  from wf x have "factory_wf f" by simp
  with x op show ?thesis by (cases rule: removeCall_cases [OF _ refl, of f c]) auto
next
  fix f s i
  assume wf: "factory_wf (fst x)" and x: "x = (f, s)" and op: "op = RemoveCallId i"
  from wf x have "factory_wf f" by simp
  from removeCall_id_result [OF this, of i] x op show ?thesis by auto
qed (auto simp: forbid_def CallFactory_clear_def factory_wf_def)

interpretation fm: invariant_machine factory_step "\<lambda>x. factory_wf (fst x)"
  by unfold_locales (rule factory_step_wf)

section \<open>Properties\<close>

text \<open>
  A call that is created gets an identifier no live call has, is found under it and attached
  to its account, changes no other entry and raises the number of calls by one; and a call is
  created whenever new calls are allowed and one of the generator's values is unused.
\<close>

theorem new_call_registered:
  assumes "factory_wf f" and "allowNewCall f" and "\<exists>d \<in> set draws. \<not> hasCall (to_string d) f"
  shows "\<exists>c f' s'. newSipCall account ty draws f s = (Some c, f', s') \<and> factory_wf f' \<and>
    getCall (call_id c) f = None \<and> (\<forall>j. getCall j f' = (if j = call_id c then Some c else getCall j f)) \<and>
    callCount f' = Suc (callCount f) \<and> call_id c \<in> set (CallSet_getCallIds s') \<and>
    callState c = INACTIVE \<and> type_of_call c = ty"
proof -
  obtain r f' s' where n: "newSipCall account ty draws f s = (r, f', s')" by (metis surj_pair)
  from draw_until_ends [of _ "map to_string draws" "\<lambda>i. hasCall i f"] assms(3)
  obtain i0 where "getNewCallID draws f = Some i0" by (auto simp: getNewCallID_def)
  with n assms(2) have "r \<noteq> None" by (auto simp: newSipCall_def Let_def)
  from assms(1) n show ?thesis
  proof (cases rule: newSipCall_cases)
    case (created i)
    let ?c = "Call_new (Some account) i ty"
    have in_set: "i \<in> set (CallSet_getCallIds s')"
      using created(4) keys_smap_set [of i i "set_calls s"]
      by (auto simp: CallSet_getCallIds_def CallSet_add_def smap_emplace_def Call_new_def
          dest: map_of_SomeD split: option.splits intro: rev_image_eqI)
    have count: "callCount f' = Suc (callCount f)"
      using created factory_queries(5) [OF assms(1)] factory_queries(5) [OF created(5)]
      by (simp add: length_smap_set)
    have lookup: "getCall j f' = (if j = i then Some ?c else getCall j f)" for j
      using created factory_queries(1) [OF assms(1)] factory_queries(1) [OF created(5)] by simp
    show ?thesis
      using n created lookup count in_set factory_queries(1) [OF assms(1)]
      by (intro exI [of _ ?c] exI [of _ f'] exI [of _ s'] conjI) (simp_all add: Call_new_def)
  qed (use \<open>r \<noteq> None\<close> in simp)
qed

theorem new_call_registered_witness:
  "\<exists>c f' s'. newSipCall ''acc'' OUTGOING [7] CallFactory_new (CallSet_new :: (string, unit) call_set)
     = (Some c, f', s') \<and> getCall (call_id c) f' = Some c \<and> callCount f' = 1"
proof -
  have e: "\<exists>d \<in> set [7]. \<not> hasCall (to_string d) CallFactory_new" "allowNewCall CallFactory_new"
    by (simp_all add: hasCall_def CallFactory_new_def)
  have c: "callCount CallFactory_new = 0" by (simp add: callCount_def CallFactory_new_def)
  from new_call_registered [OF factory_wf_new e(2,1), of "''acc''" OUTGOING "CallSet_new :: (string, unit) call_set"]
  obtain c f' and s' :: "(string, unit) call_set" where
    "newSipCall ''acc'' OUTGOING [7] CallFactory_new CallSet_new = (Some c, f', s')"
    "\<forall>j. getCall j f' = (if j = call_id c then Some c else getCall j CallFactory_new)"
    "callCount f' = Suc (callCount CallFactory_new)" by blast
  with c show ?thesis by (intro exI [of _ c] exI [of _ f'] exI [of _ s']) simp
qed

text \<open>
  After any sequence of operations on a new factory the queries tell one story: identifiers
  are distinct, listed in step with the calls, counted by the call count, found by lookups, and
  absent exactly when the factory calls itself empty.
\<close>

theorem factory_queries_agree:
  assumes "foldl factory_step (CallFactory_new, s) ops = (f, s')"
  shows "distinct (getCallIDs f) \<and> map call_id (getAllCalls f) = getCallIDs f \<and>
    callCount f = length (getCallIDs f) \<and> (CallFactory_empty f \<longleftrightarrow> getCallIDs f = []) \<and>
    (\<forall>i. (hasCall i f \<longleftrightarrow> i \<in> set (getCallIDs f)) \<and> (hasCall i f \<longleftrightarrow> getCall i f \<noteq> None))"
proof -
  have wf: "factory_wf f" using fm.run_inv [of "(CallFactory_new, s)" ops] assms by simp
  note q = factory_queries [OF wf]
  have "map call_id (map snd (sip_calls f)) = map fst (sip_calls f)"
    using sip_calls_wf [OF wf] by auto
  moreover have "distinct (map fst (sip_calls f))" using sip_calls_wf [OF wf] smap_wf_distinct by blast
  ultimately show ?thesis by (auto simp: q map_of_eq_None_iff)
qed

theorem factory_queries_agree_witness:
  "\<exists>f s'. foldl factory_step (CallFactory_new, CallSet_new :: (string, unit) call_set)
      [NewSipCall ''a'' INCOMING [1], NewSipCall ''a'' OUTGOING [1, 2], RemoveCallId ''1''] = (f, s') \<and>
    callCount f = length (getCallIDs f)"
proof -
  obtain f s' where r: "foldl factory_step (CallFactory_new, CallSet_new :: (string, unit) call_set)
      [NewSipCall ''a'' INCOMING [1], NewSipCall ''a'' OUTGOING [1, 2], RemoveCallId ''1''] = (f, s')"
    by (metis surj_pair)
  from factory_queries_agree [OF r] r show ?thesis by blast
qed

text \<open>
  Removing by identifier never fails in a consistent registry and removes exactly that call,
  while removing a call object throws as soon as the registry has been cleared, for every call.
\<close>

theorem factory_removal:
  assumes "factory_wf f"
  shows "(\<exists>f'. CallFactory_removeCall_id (\<lambda>_. SIP_LINK) i f = Inr f' \<and> factory_wf f' \<and>
      (\<forall>j. getCall j f' = (if j = i then None else getCall j f))) \<and>
    CallFactory_removeCall SIP_LINK c (CallFactory_clear f) = Inl Out_of_range"
proof -
  from removeCall_id_result [OF assms, of i] obtain f' where
    f': "CallFactory_removeCall_id (\<lambda>_. SIP_LINK) i f = Inr f'" "factory_wf f'"
      "sip_calls f' = smap_erase i (sip_calls f)" by blast
  then have "\<forall>j. getCall j f' = (if j = i then None else getCall j f)"
    using factory_queries(1) [OF assms] factory_queries(1) [OF f'(2)] by simp
  with f' show ?thesis by (simp add: CallFactory_removeCall_def CallFactory_clear_def)
qed

theorem factory_removal_witness:
  "\<exists>f'. CallFactory_removeCall_id (\<lambda>_. SIP_LINK) ''9'' CallFactory_new = Inr f' \<and> factory_wf f'"
  using factory_removal [OF factory_wf_new, of "''9''"] by blast

end
