(* ===== verification/Dialog_Refresh.thy ===== *)
theory Dialog_Refresh
  imports Call
begin

text \<open>
  What happens to one call when the network changes: \<^verbatim>\<open>sip/sipcall.cpp\<close> (the refresh of a dialog by a
  re-invitation, its watchdog, deferred re-invitations, the binding of a call to a transport) and the parts of
  \<^verbatim>\<open>sip/sipaccount.cpp\<close> that act on one call (the loops of \<^verbatim>\<open>reinviteActiveCalls\<close> and
  \<^verbatim>\<open>rebindCallsToCurrentTransportForConnectivityChange\<close>, retries and follow-ups). Tasks that are
  scheduled with the manager are kept in a list, and any of them may run next, so the theorems hold
  whatever the delays are. What PJSIP answers is an environment.
\<close>

section \<open>The call\<close>

datatype inv_state = INV_NULL | INV_CALLING | INV_INCOMING | INV_EARLY | INV_CONNECTING | INV_CONFIRMED
  | INV_DISCONNECTED

record invite =
  inv_state :: inv_state
  invite_tsx :: bool \<comment> \<open>an INVITE transaction is in flight on the dialog\<close>

datatype refresh_task =
    Watchdog nat \<comment> \<open>15 seconds after a refresh began, with its generation\<close>
  | Followup nat \<comment> \<open>a deferred re-invitation, with its delay in milliseconds\<close>
  | Retry nat \<comment> \<open>another re-invitation after a failure, with its delay\<close>
  | AnswerAgain \<comment> \<open>an answer that waits for the transport\<close>

record rcall =
  rc_state :: call_state
  rc_conn :: connection_state
  rc_type :: call_type
  inviteSession :: "invite option"
  localHangupInProgress :: bool
  sipTransport :: "nat option"
  contactHeader :: string
  sipTransportGeneration :: nat
  rebindPending :: bool \<comment> \<open>\<^verbatim>\<open>connectivityTransportRebindPending_\<close>\<close>
  pendingReinvite :: bool \<comment> \<open>\<^verbatim>\<open>pendingConnectivityReinvite_\<close>\<close>
  retryCount :: nat \<comment> \<open>\<^verbatim>\<open>connectivityReinviteRetryCount_\<close>\<close>
  refreshPending :: bool \<comment> \<open>\<^verbatim>\<open>connectivityDialogRefreshPending_\<close>\<close>
  awaitingResponse :: bool \<comment> \<open>\<^verbatim>\<open>connectivityDialogRefreshAwaitingResponse_\<close>\<close>
  refreshGeneration :: nat \<comment> \<open>\<^verbatim>\<open>connectivityDialogRefreshGeneration_\<close>\<close>
  answerRetryScheduled :: bool \<comment> \<open>\<^verbatim>\<open>connectivityAnswerRetryScheduled_\<close>\<close>
  reinviteListeners :: nat \<comment> \<open>state listeners that \<^verbatim>\<open>reinviteActiveCalls\<close> installed\<close>
  rc_tasks :: "refresh_task list"
  rc_closures :: nat \<comment> \<open>posted removals of a failed call\<close>
  rc_reinvites :: nat \<comment> \<open>re-invitations sent\<close>
  rc_attempts :: nat \<comment> \<open>retries and follow-ups scheduled\<close>

text \<open>The answers of PJSIP and of the media layer, which may depend on the state of the call.\<close>

record ref_env =
  dlg_transport_ok :: "rcall \<Rightarrow> bool" \<comment> \<open>there is a selector and \<^verbatim>\<open>pjsip_dlg_set_transport\<close> accepts it\<close>
  sdp_refreshed :: "rcall \<Rightarrow> bool" \<comment> \<open>\<^verbatim>\<open>refreshSdpForConnectivityChange\<close>\<close>
  media_reserved :: "rcall \<Rightarrow> bool" \<comment> \<open>\<^verbatim>\<open>prepareLocalMediaReservations\<close>\<close>
  has_account :: "rcall \<Rightarrow> bool"
  offer_created :: "rcall \<Rightarrow> bool"
  inv_reinvite_ok :: "rcall \<Rightarrow> bool"
  inv_has_tdata :: "rcall \<Rightarrow> bool"
  inv_send_ok :: "rcall \<Rightarrow> bool"
  terminate_throws :: "rcall \<Rightarrow> bool" \<comment> \<open>a message to end the session exists but the account is gone\<close>

datatype pj_result = PJ_SUCCESS | PJ_EPENDING | PJ_EBUSY | NOT_PJ_SUCCESS

text \<open>Status codes; PJSIP gives transport errors of a transaction the code of "service unavailable".\<close>

definition PJSIP_SC_REQUEST_TIMEOUT :: int where "PJSIP_SC_REQUEST_TIMEOUT = 408"
definition PJSIP_SC_SERVICE_UNAVAILABLE :: int where "PJSIP_SC_SERVICE_UNAVAILABLE = 503"
definition PJSIP_SC_TSX_TRANSPORT_ERROR :: int where
  "PJSIP_SC_TSX_TRANSPORT_ERROR = PJSIP_SC_SERVICE_UNAVAILABLE"

lemmas status_codes = PJSIP_SC_REQUEST_TIMEOUT_def PJSIP_SC_SERVICE_UNAVAILABLE_def PJSIP_SC_TSX_TRANSPORT_ERROR_def

definition MAX_CONNECTIVITY_REINVITE_RETRIES :: nat where "MAX_CONNECTIVITY_REINVITE_RETRIES = 3"

section \<open>The refresh of a dialog\<close>

definition call_gone :: "rcall \<Rightarrow> bool" where
  "call_gone C \<longleftrightarrow> rc_conn C = DISCONNECTED \<or> rc_state C = OVER"

definition in_talk :: "rcall \<Rightarrow> bool" where
  "in_talk C \<longleftrightarrow> rc_conn C = CONNECTED \<and> (rc_state C = ACTIVE \<or> rc_state C = HOLD)"

definition markConnectivityTransportRebindPending :: "rcall \<Rightarrow> rcall" where
  "markConnectivityTransportRebindPending C = C\<lparr>rebindPending := True\<rparr>"

definition isConnectivityDialogRefreshAwaitingResponse :: "rcall \<Rightarrow> bool" where
  "isConnectivityDialogRefreshAwaitingResponse C \<longleftrightarrow> refreshPending C \<and> awaitingResponse C"

definition isConnectivityDialogRefreshSuccessCode :: "int \<Rightarrow> bool" where
  "isConnectivityDialogRefreshSuccessCode statusCode \<longleftrightarrow> 200 \<le> statusCode \<and> statusCode < 300"

definition isConnectivityDialogRefreshFinalFailureCode :: "int \<Rightarrow> bool" where
  "isConnectivityDialogRefreshFinalFailureCode statusCode \<longleftrightarrow>
     statusCode = PJSIP_SC_TSX_TRANSPORT_ERROR \<or> statusCode = PJSIP_SC_REQUEST_TIMEOUT \<or> 300 \<le> statusCode"

definition clearConnectivityDialogRefreshState :: "rcall \<Rightarrow> rcall" where
  "clearConnectivityDialogRefreshState C =
     C\<lparr>refreshPending := False, awaitingResponse := False, refreshGeneration := refreshGeneration C + 1\<rparr>"

definition scheduleConnectivityDialogRefreshWatchdog :: "nat \<Rightarrow> rcall \<Rightarrow> rcall" where
  "scheduleConnectivityDialogRefreshWatchdog generation C = C\<lparr>rc_tasks := rc_tasks C @ [Watchdog generation]\<rparr>"

definition beginConnectivityDialogRefresh :: "bool \<Rightarrow> rcall \<Rightarrow> rcall" where
  "beginConnectivityDialogRefresh awaiting C =
     (if call_gone C then C
      else let generation = refreshGeneration C + 1
           in scheduleConnectivityDialogRefreshWatchdog generation
                (C\<lparr>refreshPending := True, awaitingResponse := awaiting, refreshGeneration := generation\<rparr>))"

definition resetConnectivityReinviteState :: "rcall \<Rightarrow> rcall" where
  "resetConnectivityReinviteState C =
     clearConnectivityDialogRefreshState (C\<lparr>retryCount := 0, pendingReinvite := False\<rparr>)"

section \<open>Re-invitations\<close>

definition SIPSessionReinvite :: "ref_env \<Rightarrow> rcall \<Rightarrow> pj_result \<times> rcall" where
  "SIPSessionReinvite E C =
     (case inviteSession C of
        None \<Rightarrow> (PJ_EBUSY, C)
      | Some v \<Rightarrow>
          if invite_tsx v then (PJ_EBUSY, C)
          else if \<not> media_reserved E C then (NOT_PJ_SUCCESS, C)
          else if \<not> has_account E C then (NOT_PJ_SUCCESS, C)
          else if \<not> offer_created E C then (NOT_PJ_SUCCESS, C)
          else if \<not> inv_reinvite_ok E C then (NOT_PJ_SUCCESS, C)
          else if \<not> inv_has_tdata E C then (PJ_SUCCESS, C)
          else if inv_send_ok E C
          then (PJ_SUCCESS, C\<lparr>inviteSession := Some (v\<lparr>invite_tsx := True\<rparr>), rc_reinvites := rc_reinvites C + 1\<rparr>)
          else (NOT_PJ_SUCCESS, C))"

text \<open>\<^verbatim>\<open>updateDialogTransport\<close> changes nothing but the dialog inside PJSIP.\<close>

definition updateDialogTransport :: "ref_env \<Rightarrow> rcall \<Rightarrow> bool" where
  "updateDialogTransport E C \<longleftrightarrow>
     inviteSession C \<noteq> None \<and> sipTransport C \<noteq> None \<and> dlg_transport_ok E C"

definition reinviteOnConnectivityChange :: "ref_env \<Rightarrow> rcall \<Rightarrow> pj_result \<times> rcall" where
  "reinviteOnConnectivityChange E C =
     (let defer = (\<lambda>D. (PJ_EPENDING, beginConnectivityDialogRefresh False (D\<lparr>pendingReinvite := True\<rparr>))) in
      case inviteSession C of
        None \<Rightarrow> (NOT_PJ_SUCCESS, C)
      | Some v \<Rightarrow>
          if inv_state v \<noteq> INV_CONFIRMED then defer C
          else if invite_tsx v then defer C
          else if \<not> sdp_refreshed E C then defer C
          else case SIPSessionReinvite E C of
                 (PJ_SUCCESS, C1) \<Rightarrow> (PJ_SUCCESS, beginConnectivityDialogRefresh True (C1\<lparr>pendingReinvite := False\<rparr>))
               | (PJ_EBUSY, C1) \<Rightarrow> defer C1
               | (r, C1) \<Rightarrow> (r, C1))"

definition tryDeferredConnectivityReinvite :: "ref_env \<Rightarrow> rcall \<Rightarrow> rcall" where
  "tryDeferredConnectivityReinvite E C =
     (if \<not> pendingReinvite C \<or> \<not> in_talk C then C
      else case inviteSession C of
             None \<Rightarrow> C
           | Some v \<Rightarrow>
               if inv_state v \<noteq> INV_CONFIRMED \<or> invite_tsx v then C
               else snd (reinviteOnConnectivityChange E (C\<lparr>pendingReinvite := False\<rparr>)))"

section \<open>Ending a call\<close>

text \<open>
  \<^verbatim>\<open>Call::setState\<close> with the listeners of \<^verbatim>\<open>reinviteActiveCalls\<close>: each tries the deferred re-invitation once
  the call is in a talk and is then removed, and is removed when the call ends.
\<close>

definition rc_setState :: "ref_env \<Rightarrow> call_state \<Rightarrow> connection_state \<Rightarrow> rcall \<Rightarrow> bool \<times> rcall" where
  "rc_setState E cs cn C =
     (if rc_state C \<noteq> cs \<and> \<not> validStateTransition (rc_state C) cs then (False, C)
      else if rc_state C = cs \<and> rc_conn C = cn then (True, C)
      else let C1 = C\<lparr>rc_state := cs, rc_conn := cn\<rparr> in
           if in_talk C1
           then (True, ((tryDeferredConnectivityReinvite E ^^ reinviteListeners C1) C1)\<lparr>reinviteListeners := 0\<rparr>)
           else if call_gone C1 then (True, C1\<lparr>reinviteListeners := 0\<rparr>)
           else (True, C1))"

definition setSipTransport :: "nat option \<Rightarrow> string \<Rightarrow> bool \<Rightarrow> rcall \<Rightarrow> rcall" where
  "setSipTransport transport contactHdr keepRebindPending C =
     (let C1 = C\<lparr>sipTransportGeneration := sipTransportGeneration C + 1, sipTransport := transport,
                contactHeader := contactHdr\<rparr> in
      case transport of
        None \<Rightarrow> C1\<lparr>rebindPending := (if keepRebindPending then rebindPending C1 else False),
                  answerRetryScheduled := False\<rparr>
      | Some _ \<Rightarrow> C1\<lparr>rebindPending := keepRebindPending\<rparr>)"

definition rc_removeCall :: "ref_env \<Rightarrow> rcall \<Rightarrow> rcall" where
  "rc_removeCall E C =
     (let C1 = (clearConnectivityDialogRefreshState C)\<lparr>pendingReinvite := False\<rparr>;
          C2 = snd (rc_setState E OVER (rc_conn C1) C1)
      in setSipTransport None [] False (C2\<lparr>inviteSession := None\<rparr>))"

text \<open>\<^verbatim>\<open>hangup\<close> either ends the call or throws from \<^verbatim>\<open>terminateSipSession\<close> before the call is closed.\<close>

definition rc_hangup :: "ref_env \<Rightarrow> rcall \<Rightarrow> bool \<times> rcall" where
  "rc_hangup E C =
     (if localHangupInProgress C then (True, C)
      else let C1 = C\<lparr>localHangupInProgress := True\<rparr> in
           case inviteSession C1 of
             Some v \<Rightarrow>
               if inv_state v \<noteq> INV_DISCONNECTED \<and> terminate_throws E C1 then (False, C1)
               else (True, rc_removeCall E (snd (rc_setState E (rc_state C1) DISCONNECTED (C1\<lparr>inviteSession := None\<rparr>))))
           | None \<Rightarrow> (True, rc_removeCall E (snd (rc_setState E (rc_state C1) DISCONNECTED C1))))"

definition rc_onFailure :: "ref_env \<Rightarrow> rcall \<Rightarrow> rcall" where
  "rc_onFailure E C =
     (let (ok, C1) = rc_setState E MERROR DISCONNECTED C
      in if ok then C1\<lparr>rc_closures := rc_closures C1 + 1\<rparr> else C1)"

definition forceConnectivityDialogRefreshFailure :: "ref_env \<Rightarrow> rcall \<Rightarrow> rcall" where
  "forceConnectivityDialogRefreshFailure E C =
     (let C1 = (clearConnectivityDialogRefreshState C)\<lparr>pendingReinvite := False\<rparr> in
      if localHangupInProgress C \<or> call_gone C then C1
      else let (ok, C2) = rc_hangup E C1 in if ok then C2 else rc_onFailure E C2)"

section \<open>Retries and responses\<close>

definition schedule :: "(nat \<Rightarrow> refresh_task) \<Rightarrow> nat \<Rightarrow> rcall \<Rightarrow> rcall" where
  "schedule task delay C = C\<lparr>rc_tasks := rc_tasks C @ [task delay], rc_attempts := rc_attempts C + 1\<rparr>"

definition scheduleConnectivityReinviteFollowup :: "ref_env \<Rightarrow> nat \<Rightarrow> rcall \<Rightarrow> rcall" where
  "scheduleConnectivityReinviteFollowup E delay C =
     (if MAX_CONNECTIVITY_REINVITE_RETRIES \<le> retryCount C then forceConnectivityDialogRefreshFailure E C
      else schedule Followup delay (C\<lparr>retryCount := retryCount C + 1\<rparr>))"

definition scheduleConnectivityReinviteRetry :: "ref_env \<Rightarrow> rcall \<Rightarrow> rcall" where
  "scheduleConnectivityReinviteRetry E C =
     (if MAX_CONNECTIVITY_REINVITE_RETRIES \<le> retryCount C then forceConnectivityDialogRefreshFailure E C
      else let n = retryCount C + 1
           in schedule Retry (1000 * push_bit (n - 1) 1) (C\<lparr>retryCount := n\<rparr>))"

definition onConnectivityReinviteFinalResponse :: "ref_env \<Rightarrow> int \<Rightarrow> rcall \<Rightarrow> rcall" where
  "onConnectivityReinviteFinalResponse E statusCode C =
     (if \<not> isConnectivityDialogRefreshAwaitingResponse C then C
      else if isConnectivityDialogRefreshSuccessCode statusCode
      then clearConnectivityDialogRefreshState (C\<lparr>pendingReinvite := False, retryCount := 0\<rparr>)
      else if \<not> isConnectivityDialogRefreshFinalFailureCode statusCode then C
      else let C1 = clearConnectivityDialogRefreshState C in
           if has_account E C1 \<and> retryCount C1 < MAX_CONNECTIVITY_REINVITE_RETRIES
           then scheduleConnectivityReinviteRetry E C1
           else forceConnectivityDialogRefreshFailure E C1)"

text \<open>
  The INVITE transaction of the dialog reaches a final state (the first part of
  \<^verbatim>\<open>transaction_state_changed_cb\<close>, and PJSIP's own bookkeeping); a missing status is a transport error.
\<close>

definition transaction_final :: "ref_env \<Rightarrow> int \<Rightarrow> rcall \<Rightarrow> rcall" where
  "transaction_final E code C =
     (let C1 = C\<lparr>inviteSession := map_option (invite_tsx_update (\<lambda>_. False)) (inviteSession C)\<rparr> in
      if isConnectivityDialogRefreshAwaitingResponse C1
      then onConnectivityReinviteFinalResponse E (if code = 0 then PJSIP_SC_TSX_TRANSPORT_ERROR else code) C1
      else C1)"

definition onConnectivityDialogRefreshWatchdog :: "ref_env \<Rightarrow> nat \<Rightarrow> rcall \<Rightarrow> rcall" where
  "onConnectivityDialogRefreshWatchdog E generation C =
     (if \<not> refreshPending C \<or> generation \<noteq> refreshGeneration C \<or> call_gone C then C
      else forceConnectivityDialogRefreshFailure E C)"

text \<open>\<^verbatim>\<open>account_alive\<close>: the weak pointer to the account still leads to it when the task runs.\<close>

definition run_followup :: "ref_env \<Rightarrow> bool \<Rightarrow> rcall \<Rightarrow> rcall" where
  "run_followup E account_alive C =
     (if \<not> account_alive \<or> call_gone C \<or> \<not> pendingReinvite C then C
      else case reinviteOnConnectivityChange E C of
             (PJ_EPENDING, C1) \<Rightarrow> scheduleConnectivityReinviteFollowup E 1000 C1
           | (PJ_SUCCESS, C1) \<Rightarrow> C1
           | (_, C1) \<Rightarrow> scheduleConnectivityReinviteRetry E C1)"

definition run_retry :: "ref_env \<Rightarrow> bool \<Rightarrow> rcall \<Rightarrow> rcall" where
  "run_retry E account_alive C =
     (if \<not> account_alive \<or> call_gone C then C
      else case reinviteOnConnectivityChange E C of
             (PJ_EPENDING, C1) \<Rightarrow> C1
           | (PJ_SUCCESS, C1) \<Rightarrow> C1
           | (_, C1) \<Rightarrow> scheduleConnectivityReinviteRetry E C1)"

section \<open>What the account does to a call\<close>

text \<open>
  One round of the loop in \<^verbatim>\<open>reinviteActiveCalls\<close>, with the transport and contact of the account. The second
  component tells that the call is dialled again.
\<close>

definition reinvite_call :: "ref_env \<Rightarrow> nat \<Rightarrow> string \<Rightarrow> rcall \<Rightarrow> rcall \<times> bool" where
  "reinvite_call E transport contactHdr C =
     (let C1 = resetConnectivityReinviteState C in
      if \<not> in_talk C1
      then if rc_type C1 = OUTGOING \<and> rc_conn C1 \<noteq> CONNECTED then (snd (rc_hangup E C1), True)
           else let C2 = setSipTransport (Some transport) contactHdr False (C1\<lparr>pendingReinvite := True\<rparr>)
                in (C2\<lparr>reinviteListeners := reinviteListeners C2 + 1\<rparr>, False)
      else case reinviteOnConnectivityChange E (setSipTransport (Some transport) contactHdr True C1) of
             (PJ_EPENDING, C2) \<Rightarrow> (scheduleConnectivityReinviteFollowup E 500 C2, False)
           | (PJ_SUCCESS, C2) \<Rightarrow> (C2, False)
           | (_, C2) \<Rightarrow> (scheduleConnectivityReinviteRetry E C2, False))"

definition rebind_call :: "nat \<Rightarrow> string \<Rightarrow> rcall \<Rightarrow> rcall" where
  "rebind_call transport contactHdr C = setSipTransport (Some transport) contactHdr True C"

definition defer_call :: "rcall \<Rightarrow> rcall" where
  "defer_call C = (markConnectivityTransportRebindPending C)\<lparr>pendingReinvite := True\<rparr>"

definition fail_call :: "ref_env \<Rightarrow> rcall \<Rightarrow> rcall" where
  "fail_call E C = (if in_talk C then forceConnectivityDialogRefreshFailure E C else C)"

text \<open>The listener of a call on its transport, called for a state in which the transport is dead.\<close>

definition transport_died :: "ref_env \<Rightarrow> nat \<Rightarrow> rcall \<Rightarrow> rcall" where
  "transport_died E generation C =
     (if generation \<noteq> sipTransportGeneration C \<or> rc_conn C = DISCONNECTED \<or> rebindPending C then C
      else rc_onFailure E C)"

text \<open>Answering while the transport is replaced.\<close>

definition prepareConnectivityTransportForAnswer ::
  "bool \<Rightarrow> nat option \<Rightarrow> string \<Rightarrow> bool \<Rightarrow> rcall \<Rightarrow> bool \<times> rcall" where
  "prepareConnectivityTransportForAnswer account accountTransport contactHdr recoveryActive C =
     (if \<not> account then (True, C)
      else case accountTransport of
             None \<Rightarrow> (\<not> recoveryActive, C)
           | Some t \<Rightarrow>
               if contactHdr = [] then (\<not> recoveryActive, C)
               else if sipTransport C \<noteq> Some t \<or> contactHeader C \<noteq> contactHdr \<or> rebindPending C \<or> pendingReinvite C
               then (True, setSipTransport (Some t) contactHdr False C)
               else (True, C))"

definition scheduleDeferredConnectivityAnswer :: "rcall \<Rightarrow> rcall" where
  "scheduleDeferredConnectivityAnswer C =
     (if answerRetryScheduled C then C
      else C\<lparr>answerRetryScheduled := True, rc_tasks := rc_tasks C @ [AnswerAgain]\<rparr>)"

text \<open>
  The part of the scheduled task before it calls \<^verbatim>\<open>answer\<close>, and the part of \<^verbatim>\<open>answer\<close> that decides
  whether the answer is put off again; \<^verbatim>\<open>True\<close> when the 200 OK is sent.
\<close>

definition deferred_answerable :: "rcall \<Rightarrow> bool" where
  "deferred_answerable C \<longleftrightarrow>
     rc_type C = INCOMING \<and> \<not> call_gone C \<and>
     (case inviteSession C of
        None \<Rightarrow> False
      | Some v \<Rightarrow> inv_state v \<noteq> INV_CONNECTING \<and> inv_state v \<noteq> INV_CONFIRMED \<and> inv_state v \<noteq> INV_DISCONNECTED)"

definition try_answer :: "nat option \<Rightarrow> string \<Rightarrow> bool \<Rightarrow> rcall \<Rightarrow> bool \<times> rcall" where
  "try_answer accountTransport contactHdr recoveryActive C =
     (let (ready, C1) = prepareConnectivityTransportForAnswer True accountTransport contactHdr recoveryActive C
      in if ready then (True, C1) else (False, scheduleDeferredConnectivityAnswer C1))"

definition run_answer_again :: "nat option \<Rightarrow> string \<Rightarrow> bool \<Rightarrow> rcall \<Rightarrow> bool \<times> rcall" where
  "run_answer_again accountTransport contactHdr recoveryActive C =
     (let C1 = C\<lparr>answerRetryScheduled := False\<rparr> in
      if deferred_answerable C1 then try_answer accountTransport contactHdr recoveryActive C1 else (False, C1))"

section \<open>Runs\<close>

datatype refresh_op =
    Network_back nat string \<comment> \<open>\<^verbatim>\<open>reinviteActiveCalls\<close> reaches the call\<close>
  | Rebind nat string
  | Mark_rebind
  | Defer
  | Fail_all
  | Tsx_final int
  | Run_task nat bool "nat option" string bool \<comment> \<open>the task with this index; what it finds of the account\<close>
  | Set_state call_state connection_state \<comment> \<open>progress of a live dialog\<close>
  | Session "invite option" \<comment> \<open>PJSIP changes the session\<close>
  | Try_deferred \<comment> \<open>from \<^verbatim>\<open>onAnswered\<close> and after a media negotiation\<close>
  | Transport_died nat
  | Answer "nat option" string bool
  | Hang_up
  | Peer_ends call_state \<comment> \<open>the peer hangs up, or is busy\<close>
  | Failed
  | Removal \<comment> \<open>the closure that \<^verbatim>\<open>onFailure\<close> posted\<close>

definition remove_nth :: "nat \<Rightarrow> 'a list \<Rightarrow> 'a list" where
  "remove_nth k xs = take k xs @ drop (Suc k) xs"

definition run_task :: "ref_env \<Rightarrow> refresh_task \<Rightarrow> bool \<Rightarrow> nat option \<Rightarrow> string \<Rightarrow> bool \<Rightarrow> rcall \<Rightarrow> rcall" where
  "run_task E t alive transport contactHdr recoveryActive C =
     (case t of
        Watchdog g \<Rightarrow> onConnectivityDialogRefreshWatchdog E g C
      | Followup _ \<Rightarrow> run_followup E alive C
      | Retry _ \<Rightarrow> run_retry E alive C
      | AnswerAgain \<Rightarrow> snd (run_answer_again transport contactHdr recoveryActive C))"

fun refresh_exec :: "ref_env \<Rightarrow> refresh_op \<Rightarrow> rcall \<Rightarrow> rcall" where
  "refresh_exec E (Network_back t c) C = fst (reinvite_call E t c C)"
| "refresh_exec E (Rebind t c) C = rebind_call t c C"
| "refresh_exec E Mark_rebind C = markConnectivityTransportRebindPending C"
| "refresh_exec E Defer C = defer_call C"
| "refresh_exec E Fail_all C = fail_call E C"
| "refresh_exec E (Tsx_final code) C = transaction_final E code C"
| "refresh_exec E (Run_task k alive t c active) C =
     run_task E (rc_tasks C ! k) alive t c active (C\<lparr>rc_tasks := remove_nth k (rc_tasks C)\<rparr>)"
| "refresh_exec E (Set_state cs cn) C = snd (rc_setState E cs cn C)"
| "refresh_exec E (Session v) C = C\<lparr>inviteSession := v\<rparr>"
| "refresh_exec E Try_deferred C = tryDeferredConnectivityReinvite E C"
| "refresh_exec E (Transport_died g) C = transport_died E g C"
| "refresh_exec E (Answer t c active) C = snd (try_answer t c active C)"
| "refresh_exec E Hang_up C = snd (rc_hangup E C)"
| "refresh_exec E (Peer_ends cs) C = rc_removeCall E (snd (rc_setState E cs DISCONNECTED C))"
| "refresh_exec E Failed C = rc_onFailure E C"
| "refresh_exec E Removal C = rc_removeCall E (C\<lparr>rc_closures := rc_closures C - 1\<rparr>)"

fun refresh_enabled :: "refresh_op \<Rightarrow> rcall \<Rightarrow> bool" where
  "refresh_enabled (Run_task k alive t c active) C \<longleftrightarrow> k < length (rc_tasks C)"
| "refresh_enabled (Set_state cs cn) C \<longleftrightarrow> cn \<noteq> DISCONNECTED \<and> (rc_conn C \<noteq> DISCONNECTED \<or> rc_state C = INACTIVE)"
| "refresh_enabled Removal C \<longleftrightarrow> 0 < rc_closures C"
| "refresh_enabled _ C \<longleftrightarrow> True"

inductive refresh_step :: "rcall \<Rightarrow> rcall \<Rightarrow> bool" where
  op: "refresh_enabled r C \<Longrightarrow> refresh_step C (refresh_exec E r C)"

definition rc_new :: "call_type \<Rightarrow> rcall" where
  "rc_new t =
     \<lparr>rc_state = INACTIVE, rc_conn = DISCONNECTED, rc_type = t, inviteSession = None, localHangupInProgress = False,
      sipTransport = None, contactHeader = [], sipTransportGeneration = 0, rebindPending = False,
      pendingReinvite = False, retryCount = 0, refreshPending = False, awaitingResponse = False,
      refreshGeneration = 0, answerRetryScheduled = False, reinviteListeners = 0, rc_tasks = [], rc_closures = 0,
      rc_reinvites = 0, rc_attempts = 0\<rparr>"

section \<open>A refresh is always watched\<close>

fun tries_again :: "refresh_task \<Rightarrow> bool" where
  "tries_again (Followup _) = True"
| "tries_again (Retry _) = True"
| "tries_again _ = False"

definition watched :: "rcall \<Rightarrow> bool" where
  "watched C \<longleftrightarrow>
     (refreshPending C \<and> \<not> call_gone C \<longrightarrow> Watchdog (refreshGeneration C) \<in> set (rc_tasks C)) \<and>
     ((refreshPending C \<or> (\<exists>t \<in> set (rc_tasks C). tries_again t)) \<longrightarrow> rc_state C \<noteq> INACTIVE) \<and>
     retryCount C \<le> MAX_CONNECTIVITY_REINVITE_RETRIES"

lemmas refresh_defs = watched_def call_gone_def in_talk_def clearConnectivityDialogRefreshState_def
  beginConnectivityDialogRefresh_def scheduleConnectivityDialogRefreshWatchdog_def schedule_def Let_def

lemma watched_reinvite:
  assumes "watched C" "rc_state C \<noteq> INACTIVE"
  shows "watched (snd (reinviteOnConnectivityChange E C))"
  using assms
  by (auto simp: reinviteOnConnectivityChange_def SIPSessionReinvite_def refresh_defs
        split: option.splits pj_result.splits if_splits)

lemma reinvite_keeps_state [simp]:
  "rc_state (snd (reinviteOnConnectivityChange E C)) = rc_state C"
  "rc_conn (snd (reinviteOnConnectivityChange E C)) = rc_conn C"
  "reinviteListeners (snd (reinviteOnConnectivityChange E C)) = reinviteListeners C"
  "retryCount (snd (reinviteOnConnectivityChange E C)) = retryCount C"
  "rc_attempts (snd (reinviteOnConnectivityChange E C)) = rc_attempts C"
  by (auto simp: reinviteOnConnectivityChange_def SIPSessionReinvite_def refresh_defs
        split: option.splits pj_result.splits if_splits)

lemma tryDeferred_keeps_state [simp]:
  "rc_state (tryDeferredConnectivityReinvite E C) = rc_state C"
  "rc_conn (tryDeferredConnectivityReinvite E C) = rc_conn C"
  "reinviteListeners (tryDeferredConnectivityReinvite E C) = reinviteListeners C"
  "retryCount (tryDeferredConnectivityReinvite E C) = retryCount C"
  "rc_attempts (tryDeferredConnectivityReinvite E C) = rc_attempts C"
  by (auto simp: tryDeferredConnectivityReinvite_def split: option.splits)

lemma watched_pendingReinvite [simp]: "watched (C\<lparr>pendingReinvite := b\<rparr>) = watched C"
  by (simp add: watched_def call_gone_def)

lemma watched_tryDeferred: "watched C \<Longrightarrow> watched (tryDeferredConnectivityReinvite E C)"
  by (auto simp: tryDeferredConnectivityReinvite_def in_talk_def intro!: watched_reinvite split: option.split)

lemma watched_tryDeferred_all: "watched C \<Longrightarrow> watched ((tryDeferredConnectivityReinvite E ^^ n) C)"
  by (induction n) (auto intro: watched_tryDeferred)

lemma no_way_back:
  "validStateTransition cs cs' \<Longrightarrow> cs' \<noteq> INACTIVE"
  "validStateTransition OVER cs' \<Longrightarrow> cs' = OVER"
  by (cases cs; cases cs'; simp add: validStateTransition.simps)
    (simp add: validStateTransition.simps split: if_splits)

lemma watched_listeners [simp]: "watched (C\<lparr>reinviteListeners := n\<rparr>) = watched C"
  by (simp add: watched_def call_gone_def)

lemma watched_setState:
  assumes "watched C" "cs = OVER \<or> cn = DISCONNECTED \<or> rc_conn C \<noteq> DISCONNECTED \<or> rc_state C = INACTIVE"
  shows "watched (snd (rc_setState E cs cn C))"
proof -
  let ?D = "C\<lparr>rc_state := cs, rc_conn := cn\<rparr>"
  have "watched ?D" if "rc_state C = cs \<or> validStateTransition (rc_state C) cs"
    using assms that no_way_back(1) [of "rc_state C" cs] no_way_back(2) [of cs]
    by (auto simp: watched_def call_gone_def)
  then show ?thesis
    using assms(1) by (auto simp: rc_setState_def Let_def intro: watched_tryDeferred_all)
qed

lemma funpow_tryDeferred_keeps [simp]:
  "rc_state ((tryDeferredConnectivityReinvite E ^^ n) C) = rc_state C"
  "rc_conn ((tryDeferredConnectivityReinvite E ^^ n) C) = rc_conn C"
  "reinviteListeners ((tryDeferredConnectivityReinvite E ^^ n) C) = reinviteListeners C"
  "retryCount ((tryDeferredConnectivityReinvite E ^^ n) C) = retryCount C"
  "rc_attempts ((tryDeferredConnectivityReinvite E ^^ n) C) = rc_attempts C"
  by (induction n) auto

lemma setState_keeps [simp]:
  "retryCount (snd (rc_setState E cs cn C)) = retryCount C"
  "rc_attempts (snd (rc_setState E cs cn C)) = rc_attempts C"
  by (simp_all add: rc_setState_def Let_def)

lemma watched_clear: "watched C \<Longrightarrow> watched (clearConnectivityDialogRefreshState C)"
  by (auto simp: refresh_defs)

lemma setSipTransport_keeps [simp]:
  "rc_state (setSipTransport t c k C) = rc_state C" "rc_conn (setSipTransport t c k C) = rc_conn C"
  "rc_tasks (setSipTransport t c k C) = rc_tasks C" "refreshPending (setSipTransport t c k C) = refreshPending C"
  "awaitingResponse (setSipTransport t c k C) = awaitingResponse C"
  "refreshGeneration (setSipTransport t c k C) = refreshGeneration C"
  "retryCount (setSipTransport t c k C) = retryCount C" "rc_attempts (setSipTransport t c k C) = rc_attempts C"
  "inviteSession (setSipTransport t c k C) = inviteSession C" "rc_type (setSipTransport t c k C) = rc_type C"
  "pendingReinvite (setSipTransport t c k C) = pendingReinvite C"
  by (simp_all add: setSipTransport_def Let_def split: option.split)

lemma watched_setSipTransport [simp]: "watched (setSipTransport t c k C) = watched C"
  by (simp add: watched_def call_gone_def)

lemma watched_session [simp]:
  "watched (C\<lparr>inviteSession := v\<rparr>) = watched C"
  "watched (C\<lparr>rc_closures := n\<rparr>) = watched C"
  "watched (C\<lparr>localHangupInProgress := b\<rparr>) = watched C"
  "watched (C\<lparr>answerRetryScheduled := b\<rparr>) = watched C"
  "watched (C\<lparr>rebindPending := b\<rparr>) = watched C"
  by (simp_all add: watched_def call_gone_def)

lemma watched_removeCall: "watched C \<Longrightarrow> watched (rc_removeCall E C)"
  by (simp add: rc_removeCall_def Let_def) (rule watched_setState; simp add: watched_clear)

lemma watched_hangup: "watched C \<Longrightarrow> watched (snd (rc_hangup E C))"
  by (auto simp: rc_hangup_def Let_def intro!: watched_removeCall watched_setState split: option.split)

lemma watched_onFailure: "watched C \<Longrightarrow> watched (rc_onFailure E C)"
  using watched_setState [of C MERROR DISCONNECTED E] by (simp add: rc_onFailure_def case_prod_beta Let_def)

lemma watched_force: "watched C \<Longrightarrow> watched (forceConnectivityDialogRefreshFailure E C)"
  using watched_hangup [of "(clearConnectivityDialogRefreshState C)\<lparr>pendingReinvite := False\<rparr>" E]
  by (auto simp: forceConnectivityDialogRefreshFailure_def case_prod_beta Let_def watched_clear intro: watched_onFailure)

lemma watched_followup:
  "watched C \<Longrightarrow> rc_state C \<noteq> INACTIVE \<Longrightarrow> watched (scheduleConnectivityReinviteFollowup E d C)"
  by (auto simp: scheduleConnectivityReinviteFollowup_def watched_force)
    (auto simp: schedule_def watched_def call_gone_def)

lemma watched_retry:
  "watched C \<Longrightarrow> rc_state C \<noteq> INACTIVE \<Longrightarrow> watched (scheduleConnectivityReinviteRetry E C)"
  by (auto simp: scheduleConnectivityReinviteRetry_def watched_force)
    (auto simp: schedule_def watched_def call_gone_def Let_def)

lemma clear_keeps [simp]:
  "rc_state (clearConnectivityDialogRefreshState C) = rc_state C" "rc_conn (clearConnectivityDialogRefreshState C) = rc_conn C"
  "retryCount (clearConnectivityDialogRefreshState C) = retryCount C" "rc_attempts (clearConnectivityDialogRefreshState C) = rc_attempts C"
  by (simp_all add: clearConnectivityDialogRefreshState_def)

lemma watched_finalResponse:
  assumes "watched C"
  shows "watched (onConnectivityReinviteFinalResponse E code C)"
proof (cases "isConnectivityDialogRefreshAwaitingResponse C")
  case True
  then have "rc_state C \<noteq> INACTIVE" "watched (C\<lparr>pendingReinvite := False, retryCount := 0\<rparr>)"
    using assms by (auto simp: isConnectivityDialogRefreshAwaitingResponse_def watched_def call_gone_def)
  then show ?thesis
    using assms
    by (auto simp: onConnectivityReinviteFinalResponse_def Let_def watched_clear intro: watched_retry watched_force)
qed (simp add: onConnectivityReinviteFinalResponse_def assms)

lemma watched_transaction: "watched C \<Longrightarrow> watched (transaction_final E code C)"
  by (simp add: transaction_final_def Let_def watched_finalResponse)

lemma watched_attempt:
  assumes "watched C" "rc_state C \<noteq> INACTIVE"
  shows "watched (case reinviteOnConnectivityChange E C of
             (PJ_EPENDING, C1) \<Rightarrow> scheduleConnectivityReinviteFollowup E d C1
           | (PJ_SUCCESS, C1) \<Rightarrow> C1
           | (_, C1) \<Rightarrow> scheduleConnectivityReinviteRetry E C1)" (is ?thesis1)
    "watched (case reinviteOnConnectivityChange E C of
             (PJ_EPENDING, C1) \<Rightarrow> C1
           | (PJ_SUCCESS, C1) \<Rightarrow> C1
           | (_, C1) \<Rightarrow> scheduleConnectivityReinviteRetry E C1)" (is ?thesis2)
proof -
  obtain r D where D: "reinviteOnConnectivityChange E C = (r, D)" by fastforce
  then have "watched D" "rc_state D \<noteq> INACTIVE"
    using watched_reinvite [OF assms, of E] reinvite_keeps_state(1) [of E C] assms(2) by auto
  then show ?thesis1 ?thesis2
    by (cases r; simp add: D watched_followup watched_retry)+
qed

lemma watched_reset: "watched C \<Longrightarrow> watched (resetConnectivityReinviteState C)"
  by (auto simp: resetConnectivityReinviteState_def refresh_defs)

lemma watched_reinvite_call: "watched C \<Longrightarrow> watched (fst (reinvite_call E t c C))"
proof -
  assume w: "watched C"
  let ?C1 = "resetConnectivityReinviteState C"
  have "rc_state ?C1 \<noteq> INACTIVE" if "in_talk ?C1" using that by (auto simp: in_talk_def)
  then show ?thesis
    using w watched_attempt(1) [of "setSipTransport (Some t) c True ?C1" E 500]
    by (auto simp: reinvite_call_def Let_def watched_reset watched_hangup split: prod.splits pj_result.splits)
qed

lemma set_remove_nth: "set (remove_nth k xs) \<subseteq> set xs"
  using set_take_subset [of k xs] set_drop_subset [of "Suc k" xs] by (auto simp: remove_nth_def)

lemma in_remove_nth: "x \<in> set xs \<Longrightarrow> k < length xs \<Longrightarrow> x \<noteq> xs ! k \<Longrightarrow> x \<in> set (remove_nth k xs)"
  by (subst (asm) id_take_nth_drop [of k]) (auto simp: remove_nth_def)

text \<open>Only the watchdog of the present refresh may not be taken away from a call that goes on.\<close>

lemma watched_remove:
  assumes "watched C" "k < length (rc_tasks C)" "rc_tasks C ! k \<noteq> Watchdog (refreshGeneration C) \<or> \<not> refreshPending C \<or> call_gone C"
  shows "watched (C\<lparr>rc_tasks := remove_nth k (rc_tasks C)\<rparr>)"
  using assms set_remove_nth [of k "rc_tasks C"] in_remove_nth [OF _ assms(2), of "Watchdog (refreshGeneration C)"]
  by (auto simp: watched_def call_gone_def)

lemma watchdog_bites:
  assumes "refreshPending C" "\<not> call_gone C"
  shows "onConnectivityDialogRefreshWatchdog E (refreshGeneration C) C = forceConnectivityDialogRefreshFailure E C"
  using assms by (simp add: onConnectivityDialogRefreshWatchdog_def)

lemma watched_without_refresh:
  "watched C \<Longrightarrow> watched (clearConnectivityDialogRefreshState (C\<lparr>rc_tasks := remove_nth k (rc_tasks C)\<rparr>))"
  using set_remove_nth [of k "rc_tasks C"] by (auto simp: refresh_defs)

lemma force_clear:
  assumes "watched (clearConnectivityDialogRefreshState C)"
  shows "watched (forceConnectivityDialogRefreshFailure E C)"
  using assms watched_hangup [of "(clearConnectivityDialogRefreshState C)\<lparr>pendingReinvite := False\<rparr>" E]
  by (auto simp: forceConnectivityDialogRefreshFailure_def case_prod_beta Let_def intro: watched_onFailure)

lemma watched_answer: "watched C \<Longrightarrow> watched (snd (try_answer t c a C))"
  by (auto simp: try_answer_def prepareConnectivityTransportForAnswer_def scheduleDeferredConnectivityAnswer_def
        case_prod_beta Let_def watched_def call_gone_def split: option.split)

lemma watched_run_task:
  assumes w: "watched C" and k: "k < length (rc_tasks C)"
  shows "watched (run_task E (rc_tasks C ! k) alive t c active (C\<lparr>rc_tasks := remove_nth k (rc_tasks C)\<rparr>))"
    (is "watched (run_task E ?task alive t c active ?D)")
proof (cases "?task = Watchdog (refreshGeneration C) \<and> refreshPending C \<and> \<not> call_gone C")
  case True
  then have "run_task E ?task alive t c active ?D = forceConnectivityDialogRefreshFailure E ?D"
    by (simp add: run_task_def onConnectivityDialogRefreshWatchdog_def call_gone_def)
  then show ?thesis
    using force_clear [OF watched_without_refresh [OF w]] by simp
next
  case False
  then have d: "watched ?D" using watched_remove [OF w k] by blast
  have live: "rc_state ?D \<noteq> INACTIVE" if "tries_again ?task"
    using w k that nth_mem [OF k] by (auto simp: watched_def)
  show ?thesis
  proof (cases ?task)
    case (Watchdog g)
    then show ?thesis
      using d by (auto simp: run_task_def onConnectivityDialogRefreshWatchdog_def intro: watched_force)
  next
    case (Followup n)
    with live have "rc_state ?D \<noteq> INACTIVE" by simp
    from watched_attempt(1) [OF d this] d Followup show ?thesis by (auto simp: run_task_def run_followup_def)
  next
    case (Retry n)
    with live have "rc_state ?D \<noteq> INACTIVE" by simp
    from watched_attempt(2) [OF d this] d Retry show ?thesis by (auto simp: run_task_def run_retry_def)
  next
    case AnswerAgain
    with d show ?thesis
      by (auto simp: run_task_def run_answer_again_def Let_def intro: watched_answer)
  qed
qed

lemma watched_exec: "refresh_enabled r C \<Longrightarrow> watched C \<Longrightarrow> watched (refresh_exec E r C)"
proof (cases r)
  case (Peer_ends cs)
  then show "watched C \<Longrightarrow> watched (refresh_exec E r C)"
    by (simp add: watched_removeCall watched_setState)
qed (auto simp: rebind_call_def markConnectivityTransportRebindPending_def defer_call_def fail_call_def transport_died_def
       watched_reinvite_call watched_force watched_transaction watched_run_task watched_tryDeferred watched_answer
       watched_hangup watched_onFailure watched_removeCall intro!: watched_setState)

interpretation refresh: relational_machine "\<lambda>C. \<exists>t. C = rc_new t" refresh_step watched
proof
  fix C assume "\<exists>t. C = rc_new t"
  then show "watched C" by (auto simp: rc_new_def watched_def)
next
  fix C D assume "refresh_step C D" "watched C"
  then show "watched D" by (auto elim!: refresh_step.cases intro: watched_exec)
qed

lemma removeCall_conn [simp]: "rc_conn (rc_removeCall E C) = rc_conn C"
proof -
  let ?D = "(clearConnectivityDialogRefreshState C)\<lparr>pendingReinvite := False\<rparr>"
  have "rc_conn (snd (rc_setState E OVER (rc_conn ?D) ?D)) = rc_conn ?D"
    by (simp add: rc_setState_def Let_def)
  then show ?thesis by (simp add: rc_removeCall_def Let_def)
qed

lemma setState_conn: "rc_state C = cs \<or> validStateTransition (rc_state C) cs \<Longrightarrow> rc_conn (snd (rc_setState E cs cn C)) = cn"
  by (auto simp: rc_setState_def Let_def)

lemma force_ends_talk:
  assumes "in_talk C" "\<not> localHangupInProgress C"
  shows "rc_conn (forceConnectivityDialogRefreshFailure E C) = DISCONNECTED"
proof -
  let ?D = "(clearConnectivityDialogRefreshState C)\<lparr>pendingReinvite := False\<rparr>"
  have D: "\<not> localHangupInProgress ?D" "rc_state ?D = rc_state C" "rc_state C = ACTIVE \<or> rc_state C = HOLD"
    using assms by (auto simp: in_talk_def clearConnectivityDialogRefreshState_def)
  have stays: "rc_state (snd (rc_hangup E ?D)) = rc_state C" if "\<not> fst (rc_hangup E ?D)"
    using that D(1) by (auto simp: rc_hangup_def Let_def split: option.splits if_splits)
  have "rc_conn (snd (rc_hangup E ?D)) = DISCONNECTED" if "fst (rc_hangup E ?D)"
    using that D(1) by (auto simp: rc_hangup_def Let_def setState_conn split: option.splits if_splits)
  moreover have "rc_conn (rc_onFailure E F) = DISCONNECTED" if "rc_state F = rc_state C" for F
    using that D(3) setState_conn [of F MERROR E DISCONNECTED]
    by (auto simp: rc_onFailure_def case_prod_beta Let_def validStateTransition.simps)
  ultimately show ?thesis
    using assms stays
    by (auto simp: forceConnectivityDialogRefreshFailure_def Let_def case_prod_beta in_talk_def call_gone_def)
qed

text \<open>
  C7: a talk does not hang on a dialog that cannot be refreshed. In every reachable state of a call, if a refresh
  of the dialog is pending and the call is in a talk that is not being hung up, then the watchdog of this very refresh is
  among the scheduled tasks, and when it runs while the refresh is still pending the connection ends, whatever PJSIP answers.
\<close>

theorem broken_dialog_is_ended:
  assumes "refresh_step\<^sup>*\<^sup>* (rc_new type) C" and "refreshPending C" "in_talk C" "\<not> localHangupInProgress C"
  shows "\<exists>k. refresh_enabled (Run_task k alive t c a) C \<and> rc_tasks C ! k = Watchdog (refreshGeneration C) \<and>
             (\<forall>E. rc_conn (refresh_exec E (Run_task k alive t c a) C) = DISCONNECTED)"
proof -
  have "watched C" using refresh.reachable_inv assms(1) by blast
  then have "Watchdog (refreshGeneration C) \<in> set (rc_tasks C)"
    using assms(2,3) by (auto simp: watched_def in_talk_def call_gone_def)
  then obtain k where k: "k < length (rc_tasks C)" "rc_tasks C ! k = Watchdog (refreshGeneration C)"
    by (auto simp: in_set_conv_nth)
  let ?D = "C\<lparr>rc_tasks := remove_nth k (rc_tasks C)\<rparr>"
  have D: "in_talk ?D" "\<not> localHangupInProgress ?D" "refreshPending ?D" "\<not> call_gone ?D"
    using assms(2-4) by (auto simp: in_talk_def call_gone_def)
  have "refresh_exec E (Run_task k alive t c a) C = forceConnectivityDialogRefreshFailure E ?D" for E
    using watchdog_bites [OF D(3,4), of E] k(2) by (simp add: run_task_def)
  then show ?thesis
    using k force_ends_talk [OF D(1,2)] by auto
qed

text \<open>A talk whose re-invitation was sent, for witnesses.\<close>

definition yes_env :: ref_env where
  "yes_env = \<lparr>dlg_transport_ok = \<lambda>_. True, sdp_refreshed = \<lambda>_. True, media_reserved = \<lambda>_. True, has_account = \<lambda>_. True,
     offer_created = \<lambda>_. True, inv_reinvite_ok = \<lambda>_. True, inv_has_tdata = \<lambda>_. True, inv_send_ok = \<lambda>_. True,
     terminate_throws = \<lambda>_. False\<rparr>"

definition demo_talk :: rcall where
  "demo_talk = (rc_new OUTGOING)\<lparr>rc_state := ACTIVE, rc_conn := CONNECTED,
     inviteSession := Some \<lparr>inv_state = INV_CONFIRMED, invite_tsx = False\<rparr>\<rparr>"

definition demo_refreshing :: rcall where
  "demo_refreshing = refresh_exec yes_env (Network_back 7 ''c'') demo_talk"

lemma demo_talk_reachable: "refresh_step\<^sup>*\<^sup>* (rc_new OUTGOING) demo_talk"
proof -
  let ?C = "refresh_exec yes_env (Set_state ACTIVE CONNECTED) (rc_new OUTGOING)"
  have "demo_talk = refresh_exec yes_env (Session (Some \<lparr>inv_state = INV_CONFIRMED, invite_tsx = False\<rparr>)) ?C"
    by (simp add: demo_talk_def rc_setState_def rc_new_def validStateTransition.simps in_talk_def)
  moreover have "refresh_step (rc_new OUTGOING) ?C" by (rule refresh_step.op) (simp add: rc_new_def)
  moreover have "refresh_step ?C demo_talk" if "demo_talk = refresh_exec yes_env (Session v) ?C" for v
    unfolding that by (rule refresh_step.op) simp
  ultimately show ?thesis
    by (meson converse_rtranclp_into_rtranclp r_into_rtranclp)
qed

lemma demo_refreshing_reachable: "refresh_step\<^sup>*\<^sup>* (rc_new OUTGOING) demo_refreshing"
  unfolding demo_refreshing_def
  by (rule rtranclp.rtrancl_into_rtrancl [OF demo_talk_reachable refresh_step.op]) simp

lemmas demo_call_defs = demo_refreshing_def demo_talk_def yes_env_def rc_new_def reinvite_call_def
  resetConnectivityReinviteState_def setSipTransport_def reinviteOnConnectivityChange_def SIPSessionReinvite_def refresh_defs

theorem broken_dialog_is_ended_witness:
  "\<exists>k. refresh_enabled (Run_task k True None [] False) demo_refreshing \<and>
       rc_tasks demo_refreshing ! k = Watchdog (refreshGeneration demo_refreshing) \<and>
       (\<forall>E. rc_conn (refresh_exec E (Run_task k True None [] False) demo_refreshing) = DISCONNECTED)"
  by (rule broken_dialog_is_ended [OF demo_refreshing_reachable]) (simp_all add: demo_call_defs)

section \<open>The budget of retries\<close>

definition refresh_do :: "rcall \<Rightarrow> ref_env \<times> refresh_op \<Rightarrow> rcall" where
  "refresh_do C e = (if refresh_enabled (snd e) C then refresh_exec (fst e) (snd e) C else C)"

text \<open>Operations that do not grant a new budget: no new change of the network, no accepted re-invitation.\<close>

fun no_new_budget :: "refresh_op \<Rightarrow> bool" where
  "no_new_budget (Network_back _ _) = False"
| "no_new_budget (Tsx_final code) = (\<not> isConnectivityDialogRefreshSuccessCode code)"
| "no_new_budget _ = True"

definition unspent :: "rcall \<Rightarrow> int" where
  "unspent C = int (rc_attempts C) - int (retryCount C)"

lemma removeCall_unspent [simp]: "unspent (rc_removeCall E C) = unspent C"
  by (simp add: unspent_def rc_removeCall_def Let_def)

lemma hangup_unspent [simp]: "unspent (snd (rc_hangup E C)) = unspent C"
  by (auto simp: rc_hangup_def Let_def split: option.split) (simp_all add: unspent_def)

lemma onFailure_unspent [simp]: "unspent (rc_onFailure E C) = unspent C"
  by (simp add: rc_onFailure_def case_prod_beta Let_def unspent_def)

lemma force_unspent [simp]: "unspent (forceConnectivityDialogRefreshFailure E C) = unspent C"
proof -
  have "unspent ((clearConnectivityDialogRefreshState C)\<lparr>pendingReinvite := False\<rparr>) = unspent C"
    by (simp add: unspent_def)
  then show ?thesis
    by (simp add: forceConnectivityDialogRefreshFailure_def case_prod_beta Let_def)
qed

lemma scheduled_unspent [simp]:
  "unspent (scheduleConnectivityReinviteFollowup E d C) = unspent C"
  "unspent (scheduleConnectivityReinviteRetry E C) = unspent C"
  by (simp_all add: scheduleConnectivityReinviteFollowup_def scheduleConnectivityReinviteRetry_def Let_def)
    (simp_all add: unspent_def schedule_def)

lemma reinvite_unspent [simp]:
  "unspent (snd (reinviteOnConnectivityChange E C)) = unspent C"
  "unspent (tryDeferredConnectivityReinvite E C) = unspent C"
  "unspent (snd (rc_setState E cs cn C)) = unspent C"
  "unspent (setSipTransport t c k C) = unspent C"
  "unspent (C\<lparr>rc_tasks := ts\<rparr>) = unspent C"
  by (simp_all add: unspent_def)

lemma attempt_unspent:
  "unspent (case reinviteOnConnectivityChange E C of
             (PJ_EPENDING, C1) \<Rightarrow> scheduleConnectivityReinviteFollowup E d C1
           | (PJ_SUCCESS, C1) \<Rightarrow> C1
           | (_, C1) \<Rightarrow> scheduleConnectivityReinviteRetry E C1) = unspent C" (is ?thesis1)
  "unspent (case reinviteOnConnectivityChange E C of
             (PJ_EPENDING, C1) \<Rightarrow> C1
           | (PJ_SUCCESS, C1) \<Rightarrow> C1
           | (_, C1) \<Rightarrow> scheduleConnectivityReinviteRetry E C1) = unspent C" (is ?thesis2)
proof -
  obtain r D where D: "reinviteOnConnectivityChange E C = (r, D)" by fastforce
  then have "unspent D = unspent C" by (metis reinvite_unspent(1) snd_conv)
  then show ?thesis1 ?thesis2 by (cases r; simp add: D)+
qed

lemma answer_unspent [simp]: "unspent (snd (try_answer t c a C)) = unspent C"
  by (auto simp: try_answer_def prepareConnectivityTransportForAnswer_def scheduleDeferredConnectivityAnswer_def
        case_prod_beta Let_def unspent_def split: option.split)

lemma run_task_unspent [simp]: "unspent (run_task E t alive tr c a C) = unspent C"
proof -
  have "unspent (C\<lparr>answerRetryScheduled := False\<rparr>) = unspent C" by (simp add: unspent_def)
  then show ?thesis
    by (cases t)
      (auto simp: run_task_def onConnectivityDialogRefreshWatchdog_def run_followup_def run_retry_def
         run_answer_again_def Let_def attempt_unspent)
qed

lemma transaction_unspent:
  assumes "\<not> isConnectivityDialogRefreshSuccessCode code"
  shows "unspent (transaction_final E code C) = unspent C"
proof -
  have "\<not> isConnectivityDialogRefreshSuccessCode (if code = 0 then PJSIP_SC_TSX_TRANSPORT_ERROR else code)"
    using assms by (simp add: isConnectivityDialogRefreshSuccessCode_def status_codes)
  then show ?thesis
    by (auto simp: transaction_final_def onConnectivityReinviteFinalResponse_def Let_def)
      (simp_all add: unspent_def)
qed

interpretation budget: guarded_part unspent refresh_do "\<lambda>e. no_new_budget (snd e)"
proof
  fix e :: "ref_env \<times> refresh_op" and C
  assume "no_new_budget (snd e)"
  then show "unspent (refresh_do C e) = unspent C"
    by (cases "snd e")
      (auto simp: refresh_do_def transaction_unspent rebind_call_def markConnectivityTransportRebindPending_def
         defer_call_def fail_call_def transport_died_def unspent_def [of "rebindPending_update _ _"]
         unspent_def [of "pendingReinvite_update _ _"] unspent_def [of "inviteSession_update _ _"]
         unspent_def [of "rc_closures_update _ _"], simp_all add: unspent_def)
qed

lemma watched_do: "watched C \<Longrightarrow> watched (refresh_do C e)"
  by (simp add: refresh_do_def watched_exec)

interpretation watched_runs: invariant_machine refresh_do watched
  by unfold_locales (rule watched_do)

lemma refresh_do_steps: "refresh_step\<^sup>*\<^sup>* C (foldl refresh_do C es)"
proof (induction es rule: rev_induct)
  case (snoc e es)
  then show ?case
    by (auto simp: refresh_do_def intro: rtranclp.rtrancl_into_rtrancl refresh_step.op)
qed simp

text \<open>
  C15: a call gets at most three tries per change of the network. Take any reachable state of a call and any
  interleaving of operations on it, with any answers of PJSIP, that contains no new change of the network and no accepted
  re-invitation: then at most three retries and follow-ups are scheduled in the whole of it, and each of them is one of the
  three that the counter of the call shows.
\<close>

theorem retries_within_budget:
  assumes "refresh_step\<^sup>*\<^sup>* (rc_new type) C" and "list_all (\<lambda>e. no_new_budget (snd e)) es"
  defines "D \<equiv> foldl refresh_do C es"
  shows "rc_attempts D \<le> rc_attempts C + 3 \<and>
    int (rc_attempts D) - int (rc_attempts C) = int (retryCount D) - int (retryCount C)"
proof -
  have "watched C" using refresh.reachable_inv assms(1) by blast
  then have "watched D" unfolding D_def by (rule watched_runs.run_inv)
  then have "retryCount D \<le> 3" by (simp add: watched_def MAX_CONNECTIVITY_REINVITE_RETRIES_def)
  moreover have "unspent D = unspent C" unfolding D_def using assms(2) by (rule budget.run_keeps)
  ultimately show ?thesis by (simp add: unspent_def)
qed

theorem retries_within_budget_witness:
  "rc_attempts (foldl refresh_do demo_refreshing [(yes_env, Tsx_final 408), (yes_env, Run_task 1 True None [] False)]) \<le>
     rc_attempts demo_refreshing + 3"
  by (rule retries_within_budget [OF demo_refreshing_reachable, THEN conjunct1])
    (simp add: isConnectivityDialogRefreshSuccessCode_def)

section \<open>The flag that outlives the refresh\<close>

lemma reinvite_keeps_rebind [simp]:
  "rebindPending (snd (reinviteOnConnectivityChange E C)) = rebindPending C"
  "sipTransportGeneration (snd (reinviteOnConnectivityChange E C)) = sipTransportGeneration C"
  by (auto simp: reinviteOnConnectivityChange_def SIPSessionReinvite_def refresh_defs
        split: option.splits pj_result.splits if_splits)

text \<open>
  C27: a call that was moved to a new network does not notice the loss of its new transport. Let a call in a talk be
  moved to a new transport, let its re-invitation be sent and accepted: then the dialog is refreshed and nothing is pending,
  but the flag that was to protect the call during the move is still set, and the call ignores that its transport dies.
\<close>

theorem refreshed_call_ignores_dead_transport:
  assumes "in_talk C" "fst (reinviteOnConnectivityChange E (setSipTransport (Some tr) contact True
             (resetConnectivityReinviteState C))) = PJ_SUCCESS"
    and "200 \<le> code" "code < 300"
  defines "D \<equiv> transaction_final E code (fst (reinvite_call E tr contact C))"
  shows "\<not> refreshPending D \<and> \<not> pendingReinvite D \<and> in_talk D \<and> rebindPending D \<and>
    transport_died E' (sipTransportGeneration D) D = D"
proof -
  let ?C1 = "setSipTransport (Some tr) contact True (resetConnectivityReinviteState C)"
  obtain C2 where C2: "reinviteOnConnectivityChange E ?C1 = (PJ_SUCCESS, C2)"
    using assms(2) by (cases "reinviteOnConnectivityChange E ?C1") auto
  have talk: "in_talk (resetConnectivityReinviteState C)" "in_talk ?C1"
    using assms(1) by (auto simp: in_talk_def resetConnectivityReinviteState_def)
  then have "fst (reinvite_call E tr contact C) = C2"
    by (simp add: reinvite_call_def Let_def C2)
  moreover have "rebindPending ?C1" by (simp add: setSipTransport_def Let_def)
  then have C2': "rebindPending C2" "in_talk C2"
    using reinvite_keeps_rebind(1) [of E ?C1] reinvite_keeps_state(1,2) [of E ?C1] talk(2) C2
    by (auto simp: in_talk_def)
  moreover have "refreshPending C2" "awaitingResponse C2" "\<not> pendingReinvite C2"
    using C2 C2'(2) by (auto simp: reinviteOnConnectivityChange_def SIPSessionReinvite_def refresh_defs
        split: option.splits if_splits pj_result.splits)
  ultimately have D: "D = clearConnectivityDialogRefreshState
      (C2\<lparr>inviteSession := map_option (invite_tsx_update (\<lambda>_. False)) (inviteSession C2), pendingReinvite := False, retryCount := 0\<rparr>)"
    using assms(3,4) by (simp add: D_def transaction_final_def onConnectivityReinviteFinalResponse_def Let_def
        isConnectivityDialogRefreshAwaitingResponse_def isConnectivityDialogRefreshSuccessCode_def)
  have "\<not> refreshPending D" "\<not> pendingReinvite D" "in_talk D" "rebindPending D"
    using C2' by (simp_all add: D clearConnectivityDialogRefreshState_def in_talk_def)
  then show ?thesis by (simp add: transport_died_def)
qed

theorem refreshed_call_ignores_dead_transport_witness:
  "rebindPending (transaction_final yes_env 200 (fst (reinvite_call yes_env 7 ''c'' demo_talk)))"
  using refreshed_call_ignores_dead_transport [of demo_talk yes_env 7 "''c''" 200] by (simp add: demo_call_defs)

end
