(* ===== verification/Sip_Account.thy ===== *)
theory Sip_Account
  imports Dialog_Refresh
begin

text \<open>
  A SIP account, \<^verbatim>\<open>sip/sipaccount.cpp\<close>: registration, the choice between the main route and the backup routes,
  keep-alive probes and their timers, and the recovery of the transport. The account is a record; a handler is a
  function on it. The answers of PJSIP, of name resolution and of the transport broker, and the clock, are an environment
  that may depend on the state in which they are asked for. Armed timers, outstanding resolutions, probes in flight and closures
  posted to the main thread are part of the state, so that a run of the account is a sequence of handlers.
  Log messages and the texts of reasons are left out, apart from the reason of a recovery, which the code compares.
\<close>

section \<open>Data\<close>

datatype registration_state = UNREGISTERED | REG_TRYING | REGISTERED | ERROR_GENERIC | ERROR_FAKE | ERROR_AUTH
  | ERROR_NETWORK | ERROR_HOST | ERROR_SERVICE_UNAVAILABLE | ERROR_NEED_MIGRATION | INITIALIZING

datatype transport_type = TCP | UDP | TLS

datatype keep_alive_type = Packet | Options

datatype keep_alive_topology = NoRoute | ServiceRoute | ServiceRouteWithBackup

datatype tp_state = TP_CONNECTED | TP_DISCONNECTED | TP_SHUTDOWN | TP_DESTROY

text \<open>An address that is not set, or one of a family; \<^verbatim>\<open>pj_sockaddr_get_len\<close> is the size of the structure.\<close>

datatype ip_addr = No_Addr | IPv4 string | IPv6 string

fun getLength :: "ip_addr \<Rightarrow> nat" where
  "getLength No_Addr = 0"
| "getLength (IPv4 _) = 16"
| "getLength (IPv6 _) = 28"

record acc_config =
  hostname :: string
  serviceRoute :: string
  backServiceRoutes :: "string list"
  transport_config :: transport_type
  keepAliveInterval :: nat
  keepAliveType :: keep_alive_type
  enabled :: bool
  allowIPAutoRewrite :: bool

record sip_transport =
  tp_id :: nat
  tp_type :: transport_type

record ka_entry = \<comment> \<open>the three anonymous structures of the class\<close>
  ka_socket :: ip_addr
  ka_length :: nat
  ka_id :: bool

datatype acc_timer = Active_Timer | Main_Timer | Backup_Timer | Rereg_Timer

datatype probe = Active_Probe | Main_Probe | Backup_Probe | Startup_Probe

datatype resolve_job = Service_Route | Back_Route | Host_Name | Main_Keep_Alive

datatype acc_event =
    StateSignal registration_state int \<comment> \<open>\<^verbatim>\<open>RegistrationStateChanged\<close>\<close>
  | VolatileSignal
  | RegisterSent nat string \<comment> \<open>the registration client and the route it uses\<close>
  | UnregisterSent nat
  | ProbeSent probe string \<comment> \<open>the target of the request\<close>
  | RawKeepAlive
  | Resubscribe bool bool \<comment> \<open>subscriptions are recovered; presence is published again\<close>
  | InvalidateSubscriptions
  | Redial string
  | ApplicationProxy string

datatype posted = Post_Recover string int | Post_Transport_State tp_state int

record account =
  cfg :: acc_config
  active :: bool
  registrationState :: registration_state
  regDetails :: int
  bRegister :: bool
  regc :: "nat option"
  regc_created :: nat
  regc_destroyed :: nat
  transport :: "sip_transport option"
  transportStatus :: int
  contact :: string
  localBinding :: "(string \<times> nat) option"
  hostIp :: ip_addr
  serviceRouteIp :: ip_addr
  backServiceRouteIps :: "ip_addr list"
  activeBackupRoute :: "string \<times> ip_addr"
  activeBackupRouteIdx :: int
  kaTarget :: ka_entry
  kaMainRoute :: ka_entry
  kaBackupRoute :: ka_entry
  ka_options_pending :: bool
  ka_main_route_options_pending :: bool
  ka_backup_route_options_pending :: bool
  mainRouteAvailable :: bool
  needsResubscribe :: bool
  needsRepublish :: bool
  pendingTransportRebind :: bool
  pendingBackupKeepAliveStart :: bool
  routeSwitchPending :: bool
  transportSwitchPending :: bool
  transportRecoveryPending :: bool
  connectivityRecoveryRequested :: bool
  isShuttingDown :: bool
  pendingReinviteAfterRegister :: bool
  connectivityRecoveryInProgress :: bool
  prepareTransportResetDone :: bool
  mainRouteFastProbeEnabled :: bool
  activeNoRouteFastProbeEnabled :: bool
  startupMainRouteProbePending :: bool
  skipMainRouteStartupProbeOnce :: bool
  lastTransportRecoveryMs :: int
  optionsRecoveryAttemptMs :: "int list"
  rawKeepAliveRecoveryAttemptMs :: "int list"
  rereg_active :: bool
  rereg_attempt_cnt :: nat
  rereg_id :: bool
  rereg_user_data :: bool
  calls :: "(string \<times> rcall) list"
  heap :: "(acc_timer \<times> int) list" \<comment> \<open>armed timers with their delays in milliseconds\<close>
  resolving :: "(string \<times> resolve_job) list"
  in_flight :: "probe list"
  main_queue :: "posted list"
  acc_log :: "acc_event list"
  crashed :: bool

record acc_env =
  now_ms :: int
  resolve_now :: "account \<Rightarrow> string \<Rightarrow> ip_addr list option" \<comment> \<open>\<^verbatim>\<open>None\<close>: the callback comes later\<close>
  timer_ok :: "account \<Rightarrow> acc_timer \<Rightarrow> bool"
  create_ok :: "account \<Rightarrow> probe \<Rightarrow> bool"
  send_ok :: "account \<Rightarrow> probe \<Rightarrow> bool"
  raw_ok :: "account \<Rightarrow> bool"
  broker_ok :: bool
  endpoint_ok :: bool
  bind_ok :: "account \<Rightarrow> bool"
  candidate :: "account \<Rightarrow> sip_transport option" \<comment> \<open>what the broker returns\<close>
  contact_ok :: "account \<Rightarrow> bool"
  new_contact :: "account \<Rightarrow> string"
  nat_contact :: "account \<Rightarrow> string option" \<comment> \<open>the contact after \<^verbatim>\<open>checkNATAddress\<close>, if it changes\<close>
  local_binding :: "account \<Rightarrow> (string \<times> nat) option"
  regc_ok :: "account \<Rightarrow> bool" \<comment> \<open>\<^verbatim>\<open>pjsip_regc_create\<close>\<close>
  regc_prepared :: "account \<Rightarrow> bool" \<comment> \<open>initialisation, transport and request of the client\<close>
  regc_sent :: "account \<Rightarrow> bool"
  unregister_prepared :: "account \<Rightarrow> bool"
  connected :: "nat \<Rightarrow> bool" \<comment> \<open>\<^verbatim>\<open>isConnected\<close> of a transport\<close>
  jitter :: int \<comment> \<open>the random part of a delay, in milliseconds\<close>
  call_env :: ref_env

definition PJSIP_SC_TRYING :: int where "PJSIP_SC_TRYING = 100"
definition PJSIP_SC_OK :: int where "PJSIP_SC_OK = 200"
definition PJSIP_SC_FORBIDDEN :: int where "PJSIP_SC_FORBIDDEN = 403"
definition PJSIP_SC_NOT_FOUND :: int where "PJSIP_SC_NOT_FOUND = 404"
definition PJSIP_SC_INTERNAL_SERVER_ERROR :: int where "PJSIP_SC_INTERNAL_SERVER_ERROR = 500"
definition PJSIP_SC_BAD_GATEWAY :: int where "PJSIP_SC_BAD_GATEWAY = 502"
definition PJSIP_SC_SERVER_TIMEOUT :: int where "PJSIP_SC_SERVER_TIMEOUT = 504"
definition PJ_ECANCELLED :: int where "PJ_ECANCELLED = 70014"

definition REGISTRATION_FIRST_RETRY_INTERVAL :: int where "REGISTRATION_FIRST_RETRY_INTERVAL = 25"
definition REGISTRATION_RETRY_INTERVAL :: int where "REGISTRATION_RETRY_INTERVAL = 50"
definition TRANSPORT_RECOVERY_DEBOUNCE_MS :: int where "TRANSPORT_RECOVERY_DEBOUNCE_MS = 1500"
definition RECOVERY_MAX_ATTEMPTS :: nat where "RECOVERY_MAX_ATTEMPTS = 3"
definition RECOVERY_WINDOW_MS :: int where "RECOVERY_WINDOW_MS = 60 * 1000"
definition FAST_PROBE_INTERVAL_SEC :: nat where "FAST_PROBE_INTERVAL_SEC = 1"

lemmas sip_codes = status_codes PJSIP_SC_TRYING_def PJSIP_SC_OK_def PJSIP_SC_FORBIDDEN_def PJSIP_SC_NOT_FOUND_def
  PJSIP_SC_INTERNAL_SERVER_ERROR_def PJSIP_SC_BAD_GATEWAY_def PJSIP_SC_SERVER_TIMEOUT_def PJ_ECANCELLED_def

section \<open>Decisions\<close>

definition isOptionsSuccess200 :: "int \<Rightarrow> bool" where
  "isOptionsSuccess200 statusCode \<longleftrightarrow> statusCode = PJSIP_SC_OK"

definition isTransportFailureFromOptions :: "int \<Rightarrow> bool" where
  "isTransportFailureFromOptions statusCode \<longleftrightarrow> statusCode = PJSIP_SC_TSX_TRANSPORT_ERROR"

definition isRouteFailureFromOptions :: "int \<Rightarrow> bool" where
  "isRouteFailureFromOptions statusCode =
     (if statusCode < 200 then False
      else if isOptionsSuccess200 statusCode then False
      else \<not> isTransportFailureFromOptions statusCode)"

definition resolveMainRouteProbeIntervalSec :: "nat \<Rightarrow> bool \<Rightarrow> nat" where
  "resolveMainRouteProbeIntervalSec keepAliveIntervalSec fastProbeEnabled =
     (if keepAliveIntervalSec = 0 then 0
      else if fastProbeEnabled then FAST_PROBE_INTERVAL_SEC else keepAliveIntervalSec)"

definition resolveActiveKeepAliveIntervalSec :: "nat \<Rightarrow> bool \<Rightarrow> nat" where
  "resolveActiveKeepAliveIntervalSec keepAliveIntervalSec fastProbeEnabled =
     (if keepAliveIntervalSec = 0 then 0
      else if fastProbeEnabled then FAST_PROBE_INTERVAL_SEC else keepAliveIntervalSec)"

definition shouldEnableMainRouteFastProbeForStatusCode :: "int \<Rightarrow> bool" where
  "shouldEnableMainRouteFastProbeForStatusCode statusCode =
     (if statusCode = PJSIP_SC_TSX_TRANSPORT_ERROR then True
      else if statusCode < 200 then False
      else statusCode \<noteq> PJSIP_SC_OK)"

definition shouldEnableActiveNoRouteFastProbeForStatusCode :: "int \<Rightarrow> bool" where
  "shouldEnableActiveNoRouteFastProbeForStatusCode statusCode =
     (if statusCode = PJSIP_SC_TSX_TRANSPORT_ERROR then True
      else if statusCode < 200 then False
      else statusCode \<noteq> PJSIP_SC_OK)"

definition isTransientOptionsFailureCode :: "int \<Rightarrow> bool" where
  "isTransientOptionsFailureCode statusCode \<longleftrightarrow>
     statusCode = PJSIP_SC_TSX_TRANSPORT_ERROR \<or>
     statusCode \<in> {PJSIP_SC_REQUEST_TIMEOUT, PJSIP_SC_INTERNAL_SERVER_ERROR, PJSIP_SC_BAD_GATEWAY,
                    PJSIP_SC_SERVICE_UNAVAILABLE, PJSIP_SC_SERVER_TIMEOUT}"

definition isHardOptionsFailureCode :: "int \<Rightarrow> bool" where
  "isHardOptionsFailureCode statusCode =
     (if statusCode < 200 then False
      else if statusCode = PJSIP_SC_OK then False
      else if statusCode = PJSIP_SC_TSX_TRANSPORT_ERROR then False
      else \<not> isTransientOptionsFailureCode statusCode)"

definition shouldSuppressOptionsRecoveryAttempt :: "nat \<Rightarrow> int \<Rightarrow> int \<Rightarrow> int list \<Rightarrow> bool \<times> int list" where
  "shouldSuppressOptionsRecoveryAttempt maxAttempts windowMs nowMs attemptMs =
     (let kept = dropWhile (\<lambda>t. t < nowMs - windowMs) attemptMs in
      if maxAttempts \<le> length kept then (True, kept) else (False, kept @ [nowMs]))"

definition resolveKeepAliveTopology :: "bool \<Rightarrow> bool \<Rightarrow> keep_alive_topology" where
  "resolveKeepAliveTopology hasServiceRoute hasBackServiceRoute =
     (if hasServiceRoute \<and> hasBackServiceRoute then ServiceRouteWithBackup
      else if hasServiceRoute then ServiceRoute
      else NoRoute)"

definition shouldUseOptionsForKeepAlive :: "keep_alive_type \<Rightarrow> bool \<Rightarrow> bool" where
  "shouldUseOptionsForKeepAlive kaType isUdpTransport \<longleftrightarrow> \<not> isUdpTransport \<or> kaType = Options"

definition shouldUseStartupMainRouteProbe :: "bool \<Rightarrow> keep_alive_topology \<Rightarrow> bool \<Rightarrow> bool \<Rightarrow> bool" where
  "shouldUseStartupMainRouteProbe optionsKeepAliveMode topology usingBackupRoute skipStartupProbe \<longleftrightarrow>
     optionsKeepAliveMode \<and> topology = ServiceRouteWithBackup \<and> \<not> usingBackupRoute \<and> \<not> skipStartupProbe"

section \<open>Queries\<close>

definition isUsable :: "account \<Rightarrow> bool" where
  "isUsable A \<longleftrightarrow> enabled (cfg A) \<and> active A"

definition hasServiceRoute :: "account \<Rightarrow> bool" where
  "hasServiceRoute A \<longleftrightarrow> serviceRoute (cfg A) \<noteq> []"

definition hasBackServiceRoutes :: "account \<Rightarrow> bool" where
  "hasBackServiceRoutes A \<longleftrightarrow> backServiceRoutes (cfg A) \<noteq> []"

definition isUsingBackupRoute :: "account \<Rightarrow> bool" where
  "isUsingBackupRoute A \<longleftrightarrow> fst (activeBackupRoute A) \<noteq> []"

definition getTransportType :: "account \<Rightarrow> transport_type" where
  "getTransportType A =
     (case transport A of
        Some t \<Rightarrow> tp_type t
      | None \<Rightarrow> if transport_config (cfg A) = TCP then TCP else UDP)"

definition isTransportRecoveryActive :: "account \<Rightarrow> bool" where
  "isTransportRecoveryActive A \<longleftrightarrow> transportRecoveryPending A \<or> connectivityRecoveryInProgress A"

definition getMainRouteProbeIntervalSec :: "account \<Rightarrow> nat" where
  "getMainRouteProbeIntervalSec A =
     resolveMainRouteProbeIntervalSec (keepAliveInterval (cfg A)) (mainRouteFastProbeEnabled A)"

definition isNoRouteKeepAliveMode :: "account \<Rightarrow> bool" where
  "isNoRouteKeepAliveMode A \<longleftrightarrow> \<not> hasServiceRoute A \<and> \<not> hasBackServiceRoutes A"

definition getActiveKeepAliveIntervalSec :: "account \<Rightarrow> nat" where
  "getActiveKeepAliveIntervalSec A =
     resolveActiveKeepAliveIntervalSec (keepAliveInterval (cfg A)) (activeNoRouteFastProbeEnabled A)"

definition getActualIpAddress :: "account \<Rightarrow> ip_addr" where
  "getActualIpAddress A =
     (if isUsingBackupRoute A \<and> hasBackServiceRoutes A then snd (activeBackupRoute A)
      else if hasServiceRoute A then serviceRouteIp A
      else hostIp A)"

definition isOptionsKeepAliveMode :: "account \<Rightarrow> bool" where
  "isOptionsKeepAliveMode A \<longleftrightarrow> shouldUseOptionsForKeepAlive (keepAliveType (cfg A)) (getTransportType A = UDP)"

definition getKeepAliveTopology :: "account \<Rightarrow> keep_alive_topology" where
  "getKeepAliveTopology A = resolveKeepAliveTopology (hasServiceRoute A) (hasBackServiceRoutes A)"

definition consumeShouldRunStartupMainRouteProbe :: "account \<Rightarrow> bool \<times> account" where
  "consumeShouldRunStartupMainRouteProbe A =
     (let A1 = A\<lparr>skipMainRouteStartupProbeOnce := False\<rparr> in
      (shouldUseStartupMainRouteProbe (isOptionsKeepAliveMode A1) (getKeepAliveTopology A1) (isUsingBackupRoute A1)
         (skipMainRouteStartupProbeOnce A), A1))"

definition getServerUri :: "account \<Rightarrow> string" where
  "getServerUri A = ''<sip:'' @ hostname (cfg A) @ ''>''"

definition getServerUriForTarget :: "string \<Rightarrow> account \<Rightarrow> string" where
  "getServerUriForTarget target A =
     (if target = [] then getServerUri A
      else if hd target = CHR ''<'' then target
      else if take 4 target = ''sip:'' \<or> take 5 target = ''sips:'' then ''<'' @ target @ ''>''
      else ''<sip:'' @ target @ ''>'')"

definition getMainRouteKeepAliveUri :: "account \<Rightarrow> string" where
  "getMainRouteKeepAliveUri A =
     (if hasServiceRoute A then getServerUriForTarget (serviceRoute (cfg A)) A else getServerUri A)"

definition getBackupRouteKeepAliveUri :: "account \<Rightarrow> string" where
  "getBackupRouteKeepAliveUri A =
     (if hasBackServiceRoutes A then getServerUriForTarget (fst (activeBackupRoute A)) A else getServerUri A)"

definition getActiveKeepAliveUri :: "account \<Rightarrow> string" where
  "getActiveKeepAliveUri A =
     (if isUsingBackupRoute A \<and> hasBackServiceRoutes A then getBackupRouteKeepAliveUri A
      else if hasServiceRoute A then getMainRouteKeepAliveUri A
      else getServerUri A)"

definition getActiveServiceRoute :: "account \<Rightarrow> string" where
  "getActiveServiceRoute A =
     (if isUsingBackupRoute A \<and> hasBackServiceRoutes A then fst (activeBackupRoute A) else serviceRoute (cfg A))"

definition setUpTransmissionData :: "ip_addr \<Rightarrow> account \<Rightarrow> bool" where
  "setUpTransmissionData ip A \<longleftrightarrow>
     ip \<noteq> No_Addr \<and>
     (case transport A of None \<Rightarrow> False | Some t \<Rightarrow> \<not> (tp_type t = UDP \<and> 16 < getLength ip))"

section \<open>Timers and requests\<close>

text \<open>The timer heap of PJSIP: an entry that is armed cannot be armed again.\<close>

definition is_armed :: "acc_timer \<Rightarrow> account \<Rightarrow> bool" where
  "is_armed t A \<longleftrightarrow> t \<in> fst ` set (heap A)"

definition schedule_timer :: "acc_env \<Rightarrow> acc_timer \<Rightarrow> int \<Rightarrow> account \<Rightarrow> bool \<times> account" where
  "schedule_timer E t delay A =
     (if is_armed t A \<or> \<not> timer_ok E A t then (False, A) else (True, A\<lparr>heap := heap A @ [(t, delay)]\<rparr>))"

definition cancel_timer :: "acc_timer \<Rightarrow> account \<Rightarrow> account" where
  "cancel_timer t A = A\<lparr>heap := filter (\<lambda>x. fst x \<noteq> t) (heap A)\<rparr>"

definition emit :: "acc_event \<Rightarrow> account \<Rightarrow> account" where
  "emit ev A = A\<lparr>acc_log := acc_log A @ [ev]\<rparr>"

text \<open>\<^verbatim>\<open>pjsip_endpt_create_request\<close>, \<^verbatim>\<open>setUpTransmissionData\<close> and \<^verbatim>\<open>pjsip_endpt_send_request\<close> for an OPTIONS request.\<close>

definition sendable :: "acc_env \<Rightarrow> probe \<Rightarrow> ip_addr \<Rightarrow> account \<Rightarrow> bool" where
  "sendable E p ip A \<longleftrightarrow> create_ok E A p \<and> setUpTransmissionData ip A \<and> send_ok E A p"

definition send_probe :: "probe \<Rightarrow> string \<Rightarrow> account \<Rightarrow> account" where
  "send_probe p target A = emit (ProbeSent p target) (A\<lparr>in_flight := in_flight A @ [p]\<rparr>)"

text \<open>With \<^verbatim>\<open>Account::setRegistrationState\<close>, which tells the client of a change.\<close>

definition setRegistrationState :: "registration_state \<Rightarrow> int \<Rightarrow> account \<Rightarrow> account" where
  "setRegistrationState state code A =
     (let A1 = A\<lparr>regDetails := code\<rparr> in
      if state \<noteq> registrationState A1 then emit (StateSignal state code) (A1\<lparr>registrationState := state\<rparr>)
      else A1)"

definition emitRegistrationStateSignal :: "registration_state \<Rightarrow> int \<Rightarrow> account \<Rightarrow> account" where
  "emitRegistrationStateSignal state code A = emit (StateSignal state code) (A\<lparr>regDetails := code\<rparr>)"

definition setRegistrationStateWithSignal :: "registration_state \<Rightarrow> int \<Rightarrow> bool \<Rightarrow> account \<Rightarrow> account" where
  "setRegistrationStateWithSignal state code forceEmit A =
     (if \<not> forceEmit \<or> state \<noteq> registrationState A then setRegistrationState state code A
      else emitRegistrationStateSignal state code A)"

definition destroyRegistrationInfo :: "account \<Rightarrow> account" where
  "destroyRegistrationInfo A =
     (case regc A of None \<Rightarrow> A | Some _ \<Rightarrow> A\<lparr>regc := None, regc_destroyed := regc_destroyed A + 1\<rparr>)"

definition setRegistrationInfo :: "nat \<Rightarrow> account \<Rightarrow> account" where
  "setRegistrationInfo r A = (destroyRegistrationInfo A)\<lparr>regc := Some r\<rparr>"

definition markTransportRebindRequired :: "account \<Rightarrow> account" where
  "markTransportRebindRequired A =
     A\<lparr>pendingTransportRebind := True, needsResubscribe := True, needsRepublish := True\<rparr>"

section \<open>Fast probing\<close>

definition rescheduleMainRouteProbeNow :: "acc_env \<Rightarrow> nat \<Rightarrow> account \<Rightarrow> account" where
  "rescheduleMainRouteProbeNow E seconds A =
     (if \<not> isUsingBackupRoute A \<or> \<not> hasServiceRoute A \<or> seconds = 0 \<or> transport A = None \<or> ka_length (kaMainRoute A) = 0
      then A
      else let A1 = (if ka_id (kaMainRoute A) then cancel_timer Main_Timer A else A);
               (ok, A2) = schedule_timer E Main_Timer (int seconds * 1000) A1
           in A2\<lparr>kaMainRoute := (kaMainRoute A2)\<lparr>ka_id := ok\<rparr>\<rparr>)"

definition rescheduleActiveKeepAliveNow :: "acc_env \<Rightarrow> nat \<Rightarrow> account \<Rightarrow> account" where
  "rescheduleActiveKeepAliveNow E seconds A =
     (let targetLen = getLength (ka_socket (kaTarget A)) in
      if seconds = 0 \<or> transport A = None \<or> targetLen = 0 \<or> ka_length (kaTarget A) = 0 then A
      else let A1 = (if ka_id (kaTarget A) then cancel_timer Active_Timer A else A);
               (ok, A2) = schedule_timer E Active_Timer (int seconds * 1000) A1
           in A2\<lparr>kaTarget := (kaTarget A2)\<lparr>ka_length := targetLen, ka_id := ok\<rparr>\<rparr>)"

definition enableMainRouteFastProbe :: "acc_env \<Rightarrow> account \<Rightarrow> account" where
  "enableMainRouteFastProbe E A =
     (if \<not> isUsingBackupRoute A then A
      else let A1 = A\<lparr>mainRouteFastProbeEnabled := True\<rparr>
           in rescheduleMainRouteProbeNow E (getMainRouteProbeIntervalSec A1) A1)"

definition enableActiveNoRouteFastProbe :: "acc_env \<Rightarrow> account \<Rightarrow> account" where
  "enableActiveNoRouteFastProbe E A =
     (let A1 = A\<lparr>activeNoRouteFastProbeEnabled := True\<rparr>
      in rescheduleActiveKeepAliveNow E (getActiveKeepAliveIntervalSec A1) A1)"

definition disableMainRouteFastProbe :: "account \<Rightarrow> account" where
  "disableMainRouteFastProbe A = A\<lparr>mainRouteFastProbeEnabled := False\<rparr>"

definition disableActiveNoRouteFastProbe :: "account \<Rightarrow> account" where
  "disableActiveNoRouteFastProbe A = A\<lparr>activeNoRouteFastProbeEnabled := False\<rparr>"

definition resetOptionsRecoveryWindow :: "account \<Rightarrow> account" where
  "resetOptionsRecoveryWindow A = A\<lparr>optionsRecoveryAttemptMs := []\<rparr>"

definition resetRawKeepAliveRecoveryWindow :: "account \<Rightarrow> account" where
  "resetRawKeepAliveRecoveryWindow A = A\<lparr>rawKeepAliveRecoveryAttemptMs := []\<rparr>"

definition shouldSuppressRawKeepAliveRecovery :: "acc_env \<Rightarrow> account \<Rightarrow> bool \<times> account" where
  "shouldSuppressRawKeepAliveRecovery E A =
     (let (suppress, ts) = shouldSuppressOptionsRecoveryAttempt RECOVERY_MAX_ATTEMPTS RECOVERY_WINDOW_MS (now_ms E)
                             (rawKeepAliveRecoveryAttemptMs A)
      in (suppress, A\<lparr>rawKeepAliveRecoveryAttemptMs := ts\<rparr>))"

section \<open>Keep-alive timers\<close>

definition registerKeepAliveTimer :: "acc_env \<Rightarrow> account \<Rightarrow> account" where
  "registerKeepAliveTimer E A =
     (let A1 = (if ka_id (kaTarget A) then (cancel_timer Active_Timer A)\<lparr>kaTarget := (kaTarget A)\<lparr>ka_id := False\<rparr>\<rparr>
                else A);
          seconds = getActiveKeepAliveIntervalSec A1;
          targetLen = getLength (ka_socket (kaTarget A1)) in
      if seconds = 0 then disableActiveNoRouteFastProbe A1
      else if transport A1 = None \<or> getTransportType A1 = TLS \<or> ka_length (kaTarget A1) = 0 \<or> targetLen = 0 then A1
      else let A2 = A1\<lparr>kaTarget := (kaTarget A1)\<lparr>ka_length := targetLen\<rparr>\<rparr> in
           if getTransportType A2 = UDP \<and> 16 < targetLen then A2
           else let (ok, A3) = schedule_timer E Active_Timer (int seconds * 1000) A2
                in A3\<lparr>kaTarget := (kaTarget A3)\<lparr>ka_id := ok\<rparr>\<rparr>)"

definition cancelKeepAliveTimer :: "account \<Rightarrow> account" where
  "cancelKeepAliveTimer A =
     (let A1 = disableActiveNoRouteFastProbe A;
          A2 = (if ka_id (kaTarget A1)
                then (cancel_timer Active_Timer A1)\<lparr>kaTarget := (kaTarget A1)\<lparr>ka_id := False\<rparr>\<rparr> else A1)
      in A2\<lparr>ka_options_pending := False\<rparr>)"

text \<open>The callback of the resolution in \<^verbatim>\<open>registerMainRouteKeepAliveTimer\<close>.\<close>

definition main_route_resolved :: "acc_env \<Rightarrow> ip_addr list \<Rightarrow> account \<Rightarrow> account" where
  "main_route_resolved E host_ips A =
     (case host_ips of
        [] \<Rightarrow> A
      | ip # _ \<Rightarrow>
          let A1 = A\<lparr>kaMainRoute := (kaMainRoute A)\<lparr>ka_socket := ip,
                       ka_length := (if ip = No_Addr then ka_length (kaMainRoute A) else getLength ip)\<rparr>\<rparr>;
              intervalSec = getMainRouteProbeIntervalSec A1
          in if intervalSec = 0 then A1
             else let (ok, A2) = schedule_timer E Main_Timer (int intervalSec * 1000) A1
                  in A2\<lparr>kaMainRoute := (kaMainRoute A2)\<lparr>ka_id := ok\<rparr>\<rparr>)"

definition registerMainRouteKeepAliveTimer :: "acc_env \<Rightarrow> account \<Rightarrow> account" where
  "registerMainRouteKeepAliveTimer E A =
     (let A1 = (if ka_id (kaMainRoute A)
                then (cancel_timer Main_Timer A)\<lparr>kaMainRoute := (kaMainRoute A)\<lparr>ka_id := False\<rparr>\<rparr> else A);
          route = serviceRoute (cfg A1) in
      if \<not> isUsingBackupRoute A1 \<or> \<not> hasServiceRoute A1 then A1
      else if \<not> isOptionsKeepAliveMode A1 then A1
      else if getMainRouteProbeIntervalSec A1 = 0 then disableMainRouteFastProbe A1
      else if transport A1 = None then A1
      else case resolve_now E A1 route of
             Some ips \<Rightarrow> main_route_resolved E ips A1
           | None \<Rightarrow> A1\<lparr>resolving := resolving A1 @ [(route, Main_Keep_Alive)]\<rparr>)"

definition cancelMainRouteKeepAliveTimer :: "account \<Rightarrow> account" where
  "cancelMainRouteKeepAliveTimer A =
     (let A1 = disableMainRouteFastProbe A;
          A2 = (if ka_id (kaMainRoute A1)
                then (cancel_timer Main_Timer A1)\<lparr>kaMainRoute := (kaMainRoute A1)\<lparr>ka_id := False\<rparr>\<rparr> else A1)
      in A2\<lparr>ka_main_route_options_pending := False\<rparr>)"

definition cancelBackupRouteKeepAliveTimer :: "account \<Rightarrow> account" where
  "cancelBackupRouteKeepAliveTimer A =
     (let A1 = (if ka_id (kaBackupRoute A) then cancel_timer Backup_Timer A else A)
      in A1\<lparr>kaBackupRoute := \<lparr>ka_socket = No_Addr, ka_length = 0, ka_id = False\<rparr>,
            ka_backup_route_options_pending := False, pendingBackupKeepAliveStart := False\<rparr>)"

definition registerBackupRouteKeepAliveTimer :: "account \<Rightarrow> account" where
  "registerBackupRouteKeepAliveTimer A = cancelBackupRouteKeepAliveTimer A"

definition startBackupKeepAliveAfterRegister :: "account \<Rightarrow> account" where
  "startBackupKeepAliveAfterRegister A = cancelBackupRouteKeepAliveTimer (A\<lparr>pendingBackupKeepAliveStart := False\<rparr>)"

definition cancelAutoReregistrationTimer :: "account \<Rightarrow> account" where
  "cancelAutoReregistrationTimer A =
     (let A1 = A\<lparr>rereg_active := False\<rparr>
      in if rereg_id A1 then (cancel_timer Rereg_Timer A1)\<lparr>rereg_id := False\<rparr> else A1)"

definition resetAutoRegistration :: "account \<Rightarrow> account" where
  "resetAutoRegistration A = A\<lparr>rereg_active := False, rereg_attempt_cnt := 0, rereg_user_data := False\<rparr>"

definition scheduleReregistration :: "acc_env \<Rightarrow> account \<Rightarrow> account" where
  "scheduleReregistration E A =
     (if \<not> isUsable A then A
      else let A1 = (if rereg_id A then (cancel_timer Rereg_Timer A)\<lparr>rereg_id := False\<rparr> else A);
               A2 = A1\<lparr>rereg_active := True, rereg_user_data := True\<rparr>;
               sec = (if rereg_attempt_cnt A2 \<noteq> 0 then REGISTRATION_RETRY_INTERVAL else REGISTRATION_FIRST_RETRY_INTERVAL);
               (ok, A3) = schedule_timer E Rereg_Timer (sec * 1000 + jitter E) A2
           in A3\<lparr>rereg_id := ok\<rparr>)"

definition sendBackupRouteKeepAlive :: "acc_env \<Rightarrow> account \<Rightarrow> account" where
  "sendBackupRouteKeepAlive E A =
     (let backupIp = snd (activeBackupRoute A) in
      if \<not> hasBackServiceRoutes A \<or> isUsingBackupRoute A \<or> transport A = None \<or> backupIp = No_Addr
         \<or> ka_backup_route_options_pending A then A
      else if sendable E Backup_Probe backupIp A
      then send_probe Backup_Probe (getBackupRouteKeepAliveUri A) (A\<lparr>ka_backup_route_options_pending := True\<rparr>)
      else A)"

section \<open>Transports\<close>

definition updateLocalBindingSnapshot :: "acc_env \<Rightarrow> account \<Rightarrow> account" where
  "updateLocalBindingSnapshot E A =
     (case local_binding E A of
        None \<Rightarrow> A
      | Some b \<Rightarrow>
          let A1 = A\<lparr>localBinding := Some b\<rparr>
          in if localBinding A \<noteq> None \<and> localBinding A \<noteq> Some b then markTransportRebindRequired A1 else A1)"

definition attachTransport :: "acc_env \<Rightarrow> account \<Rightarrow> bool \<times> account" where
  "attachTransport E A =
     (if transport A = None then (True, A)
      else if \<not> contact_ok E A then (False, A)
      else (True, updateLocalBindingSnapshot E (A\<lparr>contact := new_contact E A\<rparr>)))"

definition setTransport :: "acc_env \<Rightarrow> sip_transport option \<Rightarrow> account \<Rightarrow> bool \<times> account" where
  "setTransport E t A =
     (if t = transport A then (True, A)
      else let (ok, A1) = attachTransport E (A\<lparr>transport := t\<rparr>) in
           if ok then (True, A1)
           else let (restored, A2) = attachTransport E (A1\<lparr>transport := transport A\<rparr>)
                in (False, if restored then A2 else A2\<lparr>transport := None\<rparr>))"

definition switchTransportInternal ::
  "acc_env \<Rightarrow> transport_type \<Rightarrow> bool \<Rightarrow> bool \<Rightarrow> account \<Rightarrow> bool \<times> bool \<times> account" where
  "switchTransportInternal E ttype persistConfig markRebind A =
     (if \<not> broker_ok E \<or> ttype = TLS \<or> \<not> bind_ok E A then (False, False, A)
      else case candidate E A of
             None \<Rightarrow> (False, False, A)
           | Some t \<Rightarrow>
               let (ok, A1) = setTransport E (Some t) A in
               if \<not> ok then (False, False, A1)
               else let transportChanged = (transport A \<noteq> transport A1);
                        A2 = (if persistConfig then A1\<lparr>cfg := (cfg A1)\<lparr>transport_config := ttype\<rparr>\<rparr> else A1);
                        A3 = (if markRebind \<and> transportChanged then markTransportRebindRequired A2 else A2)
                    in (True, transportChanged, A3))"

section \<open>Routes\<close>

definition updateActiveKeepAliveTargetFromActualIpAddress :: "account \<Rightarrow> bool \<times> account" where
  "updateActiveKeepAliveTargetFromActualIpAddress A =
     (let ip = getActualIpAddress A in
      if ip = No_Addr then (False, A)
      else (True, A\<lparr>kaTarget := (kaTarget A)\<lparr>ka_socket := ip, ka_length := getLength ip\<rparr>\<rparr>))"

definition iterateActiveBackServiceRoute :: "account \<Rightarrow> account" where
  "iterateActiveBackServiceRoute A =
     (let routes = backServiceRoutes (cfg A) in
      if length routes = 0 \<or> length routes \<noteq> length (backServiceRouteIps A) then A
      else let next = activeBackupRouteIdx A + 1;
               idx = (if int (length routes) \<le> next then 0 else next)
           in A\<lparr>activeBackupRouteIdx := idx,
                activeBackupRoute := (routes ! nat idx, backServiceRouteIps A ! nat idx)\<rparr>)"

definition switchToBackupRoute :: "acc_env \<Rightarrow> account \<Rightarrow> account" where
  "switchToBackupRoute E A =
     (if \<not> hasBackServiceRoutes A \<or> isUsingBackupRoute A then A
      else let A1 = iterateActiveBackServiceRoute (markTransportRebindRequired A);
               A2 = cancelBackupRouteKeepAliveTimer (A1\<lparr>mainRouteAvailable := False\<rparr>);
               A3 = disableMainRouteFastProbe (disableActiveNoRouteFastProbe A2);
               A4 = snd (updateActiveKeepAliveTargetFromActualIpAddress A3)
           in registerMainRouteKeepAliveTimer E A4)"

definition switchToMainRoute :: "account \<Rightarrow> account" where
  "switchToMainRoute A =
     (if \<not> isUsingBackupRoute A then A
      else let A1 = (markTransportRebindRequired A)\<lparr>activeBackupRoute := ([], No_Addr)\<rparr>;
               A2 = disableMainRouteFastProbe (disableActiveNoRouteFastProbe A1);
               A3 = snd (updateActiveKeepAliveTargetFromActualIpAddress A2)
           in cancelMainRouteKeepAliveTimer A3)"

section \<open>Registration\<close>

text \<open>\<^verbatim>\<open>sendRegister\<close>; the first component is false when it throws. A client that was created is then lost.\<close>

definition sendRegister :: "acc_env \<Rightarrow> account \<Rightarrow> bool \<times> account" where
  "sendRegister E A =
     (if \<not> isUsable A then (True, A)
      else let A1 = setRegistrationState REG_TRYING 0 (A\<lparr>bRegister := True\<rparr>) in
           if \<not> regc_ok E A1 then (False, A1)
           else let r = regc_created A1; A2 = A1\<lparr>regc_created := r + 1\<rparr> in
                if \<not> regc_prepared E A2 \<or> \<not> regc_sent E A2 then (False, A2)
                else (True, setRegistrationInfo r (emit (RegisterSent r (getActiveServiceRoute A2)) A2)))"

text \<open>
  \<^verbatim>\<open>doRegister\<close>, \<^verbatim>\<open>doRegister1_\<close>, \<^verbatim>\<open>doRegister2_\<close>, \<^verbatim>\<open>sendStartupMainRouteProbe\<close> and
  \<^verbatim>\<open>switchRouteAndReregister\<close> call each other in a circle when names are resolved at once and the
  first probe cannot be sent. The functions take the recursive call of \<^verbatim>\<open>doRegister\<close> as an argument;
  \<open>doRegister\<close> below ties the knot, and a theorem of \<open>Sip_Routes\<close> shows that it satisfies the equation of the code.
\<close>

definition switchRouteAndReregister_with ::
  "(account \<Rightarrow> account) \<Rightarrow> acc_env \<Rightarrow> bool \<Rightarrow> bool \<Rightarrow> account \<Rightarrow> account" where
  "switchRouteAndReregister_with register E useBackup skipMainRouteStartupProbe A =
     (if isShuttingDown A \<or> \<not> isUsable A \<or> routeSwitchPending A then A
      else let A1 = A\<lparr>routeSwitchPending := True\<rparr>;
               (switched, A2) =
                 (if useBackup
                  then if \<not> isUsingBackupRoute A1
                       then let B = switchToBackupRoute E A1 in (isUsingBackupRoute B, B) else (False, A1)
                  else if isUsingBackupRoute A1
                       then let B = switchToMainRoute A1 in (\<not> isUsingBackupRoute B, B) else (False, A1));
               A3 = (if switched
                     then register (destroyRegistrationInfo
                            (if skipMainRouteStartupProbe then A2\<lparr>skipMainRouteStartupProbeOnce := True\<rparr> else A2))
                     else A2)
           in A3\<lparr>routeSwitchPending := False\<rparr>)"

definition startup_failed_with :: "(account \<Rightarrow> account) \<Rightarrow> acc_env \<Rightarrow> account \<Rightarrow> account" where
  "startup_failed_with register E A =
     enableMainRouteFastProbe E
       (switchRouteAndReregister_with register E True False (A\<lparr>mainRouteAvailable := False\<rparr>))"

definition sendStartupMainRouteProbe_with :: "(account \<Rightarrow> account) \<Rightarrow> acc_env \<Rightarrow> account \<Rightarrow> account" where
  "sendStartupMainRouteProbe_with register E A =
     (if \<not> hasServiceRoute A \<or> startupMainRouteProbePending A then A
      else let A1 = A\<lparr>startupMainRouteProbePending := True\<rparr> in
           if serviceRouteIp A1 = No_Addr then A1\<lparr>startupMainRouteProbePending := False\<rparr>
           else if sendable E Startup_Probe (serviceRouteIp A1) A1
           then send_probe Startup_Probe (getMainRouteKeepAliveUri A1) A1
           else startup_failed_with register E (A1\<lparr>startupMainRouteProbePending := False\<rparr>))"

definition doRegister2_with :: "(account \<Rightarrow> account) \<Rightarrow> acc_env \<Rightarrow> account \<Rightarrow> account" where
  "doRegister2_with register E A =
     (let (result, _, A1) = switchTransportInternal E (transport_config (cfg A)) False False A in
      if \<not> result then setRegistrationState ERROR_GENERIC 0 A1
      else let (probe, A2) = consumeShouldRunStartupMainRouteProbe A1 in
           if probe then sendStartupMainRouteProbe_with register E A2
           else let (ok, A3) = sendRegister E A2
                in if ok then A3 else setRegistrationState ERROR_GENERIC 0 A3)"

text \<open>The callbacks of the resolutions in \<^verbatim>\<open>doRegister1_\<close>.\<close>

definition service_resolved_with :: "(account \<Rightarrow> account) \<Rightarrow> acc_env \<Rightarrow> ip_addr list \<Rightarrow> account \<Rightarrow> account" where
  "service_resolved_with register E host_ips A =
     (case host_ips of
        [] \<Rightarrow> setRegistrationState ERROR_GENERIC PJSIP_SC_NOT_FOUND A
      | ip # _ \<Rightarrow> doRegister2_with register E (A\<lparr>serviceRouteIp := ip\<rparr>))"

definition host_resolved_with :: "(account \<Rightarrow> account) \<Rightarrow> acc_env \<Rightarrow> ip_addr list \<Rightarrow> account \<Rightarrow> account" where
  "host_resolved_with register E host_ips A =
     (case host_ips of
        [] \<Rightarrow> setRegistrationState ERROR_GENERIC PJSIP_SC_NOT_FOUND A
      | ip # _ \<Rightarrow> doRegister2_with register E (A\<lparr>hostIp := ip\<rparr>))"

definition back_resolved :: "ip_addr list \<Rightarrow> account \<Rightarrow> account" where
  "back_resolved host_ips A =
     (case host_ips of
        [] \<Rightarrow> A\<lparr>backServiceRouteIps := backServiceRouteIps A @ [No_Addr]\<rparr>
      | ip # _ \<Rightarrow>
          let A1 = A\<lparr>backServiceRouteIps := backServiceRouteIps A @ [ip]\<rparr>
          in if pendingBackupKeepAliveStart A1
             then startBackupKeepAliveAfterRegister (A1\<lparr>pendingBackupKeepAliveStart := False\<rparr>) else A1)"

definition resolve_back :: "acc_env \<Rightarrow> account \<Rightarrow> string \<Rightarrow> account" where
  "resolve_back E A route =
     (case resolve_now E A route of
        Some ips \<Rightarrow> back_resolved ips A
      | None \<Rightarrow> A\<lparr>resolving := resolving A @ [(route, Back_Route)]\<rparr>)"

definition doRegister1_with :: "(account \<Rightarrow> account) \<Rightarrow> acc_env \<Rightarrow> account \<Rightarrow> account" where
  "doRegister1_with register E A =
     (if hasServiceRoute A \<or> hasBackServiceRoutes A
      then let route = serviceRoute (cfg A);
               A1 = (if hasServiceRoute A
                     then case resolve_now E A route of
                            Some ips \<Rightarrow> service_resolved_with register E ips A
                          | None \<Rightarrow> A\<lparr>resolving := resolving A @ [(route, Service_Route)]\<rparr>
                     else A)
           in foldl (resolve_back E) (A1\<lparr>backServiceRouteIps := []\<rparr>) (backServiceRoutes (cfg A1))
      else case resolve_now E A (hostname (cfg A)) of
             Some ips \<Rightarrow> host_resolved_with register E ips A
           | None \<Rightarrow> A\<lparr>resolving := resolving A @ [(hostname (cfg A), Host_Name)]\<rparr>)"

definition doRegister_with :: "(account \<Rightarrow> account) \<Rightarrow> acc_env \<Rightarrow> account \<Rightarrow> account" where
  "doRegister_with register E A =
     (if \<not> isUsable A then A else doRegister1_with register E (setRegistrationState REG_TRYING 0 A))"

text \<open>The nested call happens on the backup route, where no first probe is sent: one level is enough.\<close>

definition doRegister :: "acc_env \<Rightarrow> account \<Rightarrow> account" where
  "doRegister E = doRegister_with (doRegister_with (\<lambda>A. A) E) E"

definition switchRouteAndReregister :: "acc_env \<Rightarrow> bool \<Rightarrow> bool \<Rightarrow> account \<Rightarrow> account" where
  "switchRouteAndReregister E = switchRouteAndReregister_with (doRegister E) E"

definition sendStartupMainRouteProbe :: "acc_env \<Rightarrow> account \<Rightarrow> account" where
  "sendStartupMainRouteProbe E = sendStartupMainRouteProbe_with (doRegister E) E"

definition doRegister2 :: "acc_env \<Rightarrow> account \<Rightarrow> account" where
  "doRegister2 E = doRegister2_with (doRegister E) E"

section \<open>Results of probes\<close>

definition reregisterCurrentRoute :: "acc_env \<Rightarrow> account \<Rightarrow> account" where
  "reregisterCurrentRoute E A =
     (if isShuttingDown A \<or> \<not> isUsable A \<or> registrationState A = REG_TRYING then A
      else doRegister E (destroyRegistrationInfo (A\<lparr>needsResubscribe := True, needsRepublish := True\<rparr>)))"

definition handleStartupMainRouteProbeResult :: "acc_env \<Rightarrow> int \<Rightarrow> account \<Rightarrow> account" where
  "handleStartupMainRouteProbeResult E statusCode A =
     (if isOptionsSuccess200 statusCode
      then doRegister2 E (A\<lparr>mainRouteAvailable := True, skipMainRouteStartupProbeOnce := True\<rparr>)
      else enableMainRouteFastProbe E (switchRouteAndReregister E True False (A\<lparr>mainRouteAvailable := False\<rparr>)))"

definition handleActiveRouteOptionsSuccess :: "acc_env \<Rightarrow> int \<Rightarrow> account \<Rightarrow> account" where
  "handleActiveRouteOptionsSuccess E statusCode A =
     (if \<not> isOptionsSuccess200 statusCode then A
      else let A1 = (if \<not> isUsingBackupRoute A \<and> hasServiceRoute A then A\<lparr>mainRouteAvailable := True\<rparr> else A) in
           if \<not> activeNoRouteFastProbeEnabled A1 then A1
           else if registrationState A1 = REG_TRYING then enableActiveNoRouteFastProbe E A1
           else reregisterCurrentRoute E (disableActiveNoRouteFastProbe A1))"

definition handleActiveRouteOptionsFailure :: "acc_env \<Rightarrow> int \<Rightarrow> account \<Rightarrow> account" where
  "handleActiveRouteOptionsFailure E statusCode A =
     (if \<not> shouldEnableActiveNoRouteFastProbeForStatusCode statusCode then A
      else let noResponse = (statusCode = PJSIP_SC_TSX_TRANSPORT_ERROR \<or> statusCode = PJSIP_SC_REQUEST_TIMEOUT);
               withBackup = (getKeepAliveTopology A = ServiceRouteWithBackup) in
           if registrationState A = REG_TRYING
           then if withBackup \<and> isUsingBackupRoute A
                then enableMainRouteFastProbe E (enableActiveNoRouteFastProbe E A)
                else if noResponse \<or> activeNoRouteFastProbeEnabled A then enableActiveNoRouteFastProbe E A
                else A
           else if withBackup
           then if \<not> isUsingBackupRoute A
                then enableMainRouteFastProbe E (switchRouteAndReregister E True False
                       (disableActiveNoRouteFastProbe (A\<lparr>mainRouteAvailable := False\<rparr>)))
                else setRegistrationStateWithSignal ERROR_GENERIC statusCode True
                       (enableMainRouteFastProbe E (enableActiveNoRouteFastProbe E A))
           else let A1 = (if noResponse \<or> activeNoRouteFastProbeEnabled A then enableActiveNoRouteFastProbe E A else A)
                in setRegistrationStateWithSignal ERROR_GENERIC statusCode True A1)"

section \<open>Scheduling a recovery\<close>

definition scheduleRecoveryInternal :: "acc_env \<Rightarrow> string \<Rightarrow> int \<Rightarrow> bool \<Rightarrow> account \<Rightarrow> bool \<times> account" where
  "scheduleRecoveryInternal E reason status debounced A =
     (if isShuttingDown A \<or> \<not> isUsable A then (False, A)
      else if debounced \<and> 0 < lastTransportRecoveryMs A
              \<and> now_ms E - lastTransportRecoveryMs A < TRANSPORT_RECOVERY_DEBOUNCE_MS then (False, A)
      else if transportRecoveryPending A then (False, A)
      else (True, A\<lparr>transportRecoveryPending := True, lastTransportRecoveryMs := now_ms E,
                    main_queue := main_queue A @ [Post_Recover reason status]\<rparr>))"

definition scheduleTransportRecovery :: "acc_env \<Rightarrow> string \<Rightarrow> int \<Rightarrow> account \<Rightarrow> bool \<times> account" where
  "scheduleTransportRecovery E reason status A = scheduleRecoveryInternal E reason status True A"

definition handleUdpRawKeepAliveSendFailure :: "acc_env \<Rightarrow> int \<Rightarrow> account \<Rightarrow> account" where
  "handleUdpRawKeepAliveSendFailure E status A =
     (let (suppress, A1) = shouldSuppressRawKeepAliveRecovery E A in
      if suppress
      then scheduleReregistration E (setRegistrationState ERROR_GENERIC PJSIP_SC_TSX_TRANSPORT_ERROR A1)
      else snd (scheduleTransportRecovery E ''active-route-udp-raw-keepalive-send-failure'' status A1))"

section \<open>Callbacks of probes and timers\<close>

definition keep_alive_on_complete :: "acc_env \<Rightarrow> int \<Rightarrow> account \<Rightarrow> account" where
  "keep_alive_on_complete E code A =
     (let A1 = (if isOptionsSuccess200 code then handleActiveRouteOptionsSuccess E code A
                else if shouldEnableActiveNoRouteFastProbeForStatusCode code then handleActiveRouteOptionsFailure E code A
                else A)
      in A1\<lparr>ka_options_pending := False\<rparr>)"

definition backup_keep_alive_on_complete :: "acc_env \<Rightarrow> int \<Rightarrow> account \<Rightarrow> account" where
  "backup_keep_alive_on_complete E code A =
     (let A1 = (if isTransportFailureFromOptions code
                then snd (scheduleTransportRecovery E ''backup-route-options-transport-failure'' code A) else A)
      in A1\<lparr>ka_backup_route_options_pending := False\<rparr>)"

definition main_route_keep_alive_on_complete :: "acc_env \<Rightarrow> int \<Rightarrow> account \<Rightarrow> account" where
  "main_route_keep_alive_on_complete E code A =
     (let A1 = (if isOptionsSuccess200 code
                then let B = A\<lparr>mainRouteAvailable := True\<rparr> in
                     if registrationState B = REG_TRYING then enableMainRouteFastProbe E B
                     else switchRouteAndReregister E False True (disableMainRouteFastProbe B)
                else if shouldEnableMainRouteFastProbeForStatusCode code
                then enableMainRouteFastProbe E (A\<lparr>mainRouteAvailable := False\<rparr>)
                else A)
      in A1\<lparr>ka_main_route_options_pending := False\<rparr>)"

definition startup_main_route_probe_on_complete :: "acc_env \<Rightarrow> int \<Rightarrow> account \<Rightarrow> account" where
  "startup_main_route_probe_on_complete E code A =
     handleStartupMainRouteProbeResult E code (A\<lparr>startupMainRouteProbePending := False\<rparr>)"

definition main_route_keep_alive_timer_cb :: "acc_env \<Rightarrow> account \<Rightarrow> account" where
  "main_route_keep_alive_timer_cb E A0 =
     (let A = A0\<lparr>kaMainRoute := (kaMainRoute A0)\<lparr>ka_id := False\<rparr>\<rparr>;
          targetLen = getLength (ka_socket (kaMainRoute A)) in
      if \<not> isUsingBackupRoute A \<or> \<not> hasServiceRoute A \<or> transport A = None
         \<or> ka_length (kaMainRoute A) = 0 \<or> targetLen = 0 then A
      else let A1 = A\<lparr>kaMainRoute := (kaMainRoute A)\<lparr>ka_length := targetLen\<rparr>\<rparr>;
               A2 = (if ka_main_route_options_pending A1 then A1
                     else let B = A1\<lparr>ka_main_route_options_pending := True\<rparr> in
                          if sendable E Main_Probe (serviceRouteIp B) B
                          then send_probe Main_Probe (getMainRouteKeepAliveUri B) B
                          else (enableMainRouteFastProbe E (B\<lparr>mainRouteAvailable := False\<rparr>))
                                 \<lparr>ka_main_route_options_pending := False\<rparr>);
               seconds = getMainRouteProbeIntervalSec A2
           in if seconds = 0 then A2
              else let (ok, A3) = schedule_timer E Main_Timer (int seconds * 1000) A2
                   in if ok then A3\<lparr>kaMainRoute := (kaMainRoute A3)\<lparr>ka_id := True\<rparr>\<rparr> else A3)"

definition backup_route_keep_alive_timer_cb :: "acc_env \<Rightarrow> account \<Rightarrow> account" where
  "backup_route_keep_alive_timer_cb E A0 =
     (let A = A0\<lparr>kaBackupRoute := (kaBackupRoute A0)\<lparr>ka_id := False\<rparr>\<rparr> in
      if isUsingBackupRoute A \<or> \<not> hasBackServiceRoutes A then A
      else let A1 = sendBackupRouteKeepAlive E A;
               seconds = keepAliveInterval (cfg A1)
           in if seconds = 0 then A1
              else let (ok, A2) = schedule_timer E Backup_Timer (int seconds * 1000) A1
                   in if ok then A2\<lparr>kaBackupRoute := (kaBackupRoute A2)\<lparr>ka_id := True\<rparr>\<rparr> else A2)"

text \<open>The end of \<^verbatim>\<open>keep_alive_timer_cb\<close>: the timer is armed again unless the interval is zero.\<close>

definition rearm_active :: "acc_env \<Rightarrow> account \<Rightarrow> account" where
  "rearm_active E A =
     (let seconds = getActiveKeepAliveIntervalSec A in
      if seconds = 0 then A
      else let (ok, A1) = schedule_timer E Active_Timer (int seconds * 1000) A
           in if ok then A1\<lparr>kaTarget := (kaTarget A1)\<lparr>ka_id := True\<rparr>\<rparr> else A1)"

definition keep_alive_timer_cb :: "acc_env \<Rightarrow> account \<Rightarrow> account" where
  "keep_alive_timer_cb E A0 =
     (let A = A0\<lparr>kaTarget := (kaTarget A0)\<lparr>ka_id := False\<rparr>\<rparr>;
          targetLen = getLength (ka_socket (kaTarget A));
          actualLen = getLength (getActualIpAddress A);
          isUdp = (getTransportType A = UDP) in
      if transport A = None then setRegistrationState ERROR_GENERIC PJSIP_SC_TSX_TRANSPORT_ERROR A
      else if connectivityRecoveryInProgress A then rearm_active E A
      else if getTransportType A = TLS \<or> ka_length (kaTarget A) = 0 \<or> targetLen = 0 then A
      else let A1 = A\<lparr>kaTarget := (kaTarget A)\<lparr>ka_length := targetLen\<rparr>\<rparr>;
               skipSend = (isUdp \<and> (16 < targetLen \<or> 16 < actualLen));
               useOptions = shouldUseOptionsForKeepAlive (keepAliveType (cfg A1)) isUdp;
               A2 = (if skipSend then A1
                     else if useOptions
                     then if ka_options_pending A1 then A1
                          else if sendable E Active_Probe (getActualIpAddress A1) A1
                          then send_probe Active_Probe (getActiveKeepAliveUri A1) (A1\<lparr>ka_options_pending := True\<rparr>)
                          else handleActiveRouteOptionsFailure E PJSIP_SC_TSX_TRANSPORT_ERROR A1
                     else let B = emit RawKeepAlive A1 in
                          if \<not> raw_ok E B
                          then if isUdp then handleUdpRawKeepAliveSendFailure E PJSIP_SC_TSX_TRANSPORT_ERROR B
                               else handleActiveRouteOptionsFailure E PJSIP_SC_TSX_TRANSPORT_ERROR B
                          else if isNoRouteKeepAliveMode B \<and> activeNoRouteFastProbeEnabled B
                          then disableActiveNoRouteFastProbe B
                          else B)
           in rearm_active E A2)"

section \<open>Connectivity\<close>

definition runPostRegisterRecoverySync :: "acc_env \<Rightarrow> account \<Rightarrow> account" where
  "runPostRegisterRecoverySync E A =
     (if \<not> pendingTransportRebind A \<and> \<not> needsResubscribe A \<and> \<not> needsRepublish A then A
      else if transport A = None \<or> \<not> contact_ok E A then A
      else let recover = (pendingTransportRebind A \<or> needsResubscribe A);
               republish = needsRepublish A;
               A1 = A\<lparr>pendingTransportRebind := False, needsResubscribe := False, needsRepublish := False,
                      contact := new_contact E A\<rparr>
           in emit (Resubscribe recover republish) A1)"

definition map_calls :: "(rcall \<Rightarrow> rcall) \<Rightarrow> account \<Rightarrow> account" where
  "map_calls f A = A\<lparr>calls := map (\<lambda>(i, c). (i, f c)) (calls A)\<rparr>"

definition rebindCallsToCurrentTransportForConnectivityChange :: "account \<Rightarrow> account" where
  "rebindCallsToCurrentTransportForConnectivityChange A =
     (case transport A of
        None \<Rightarrow> map_calls markConnectivityTransportRebindPending A
      | Some t \<Rightarrow>
          if contact A = [] then map_calls markConnectivityTransportRebindPending A
          else map_calls (rebind_call (tp_id t) (contact A)) A)"

definition failConnectivityRefreshForActiveCalls :: "acc_env \<Rightarrow> account \<Rightarrow> account" where
  "failConnectivityRefreshForActiveCalls E A = map_calls (fail_call (call_env E)) A"

definition reinviteActiveCalls :: "acc_env \<Rightarrow> account \<Rightarrow> account" where
  "reinviteActiveCalls E A =
     (if calls A = [] then A
      else case transport A of
             None \<Rightarrow> (map_calls defer_call A)\<lparr>pendingReinviteAfterRegister := True\<rparr>
           | Some t \<Rightarrow>
               if contact A = [] then (map_calls defer_call A)\<lparr>pendingReinviteAfterRegister := True\<rparr>
               else let rs = map (\<lambda>(i, c). (i, reinvite_call (call_env E) (tp_id t) (contact A) c)) (calls A)
                    in A\<lparr>calls := map (\<lambda>(i, r). (i, fst r)) rs,
                         acc_log := acc_log A @ map (Redial \<circ> fst) (filter (\<lambda>(i, r). snd r) rs)\<rparr>)"

definition resetNetworkRuntimeStateForConnectivityChange :: "account \<Rightarrow> account" where
  "resetNetworkRuntimeStateForConnectivityChange A = A\<lparr>transportStatus := PJSIP_SC_TRYING, localBinding := None\<rparr>"

definition prepareTransportReset :: "acc_env \<Rightarrow> bool \<Rightarrow> account \<Rightarrow> account" where
  "prepareTransportReset E resetNetworkRuntimeState A =
     (let A1 = (if resetNetworkRuntimeState then resetNetworkRuntimeStateForConnectivityChange A else A);
          A2 = markTransportRebindRequired A1;
          A3 = cancelBackupRouteKeepAliveTimer (cancelMainRouteKeepAliveTimer (cancelKeepAliveTimer A2));
          A4 = resetAutoRegistration (cancelAutoReregistrationTimer A3);
          A5 = emit InvalidateSubscriptions (A4\<lparr>pendingBackupKeepAliveStart := False\<rparr>)
      in snd (setTransport E None (destroyRegistrationInfo A5)))"

definition prepareConnectivityRecovery :: "acc_env \<Rightarrow> account \<Rightarrow> account" where
  "prepareConnectivityRecovery E A =
     (if isShuttingDown A \<or> \<not> isUsable A then A
      else let A1 = A\<lparr>connectivityRecoveryRequested := True, connectivityRecoveryInProgress := True\<rparr>;
               A2 = map_calls markConnectivityTransportRebindPending A1
           in (prepareTransportReset E True A2)\<lparr>prepareTransportResetDone := True\<rparr>)"

definition dispatchPreparedConnectivityRecovery :: "acc_env \<Rightarrow> string \<Rightarrow> account \<Rightarrow> account" where
  "dispatchPreparedConnectivityRecovery E reason A =
     snd (scheduleRecoveryInternal E reason PJSIP_SC_TSX_TRANSPORT_ERROR False A)"

definition hasRunningTransportForConnectivityChange :: "acc_env \<Rightarrow> account \<Rightarrow> bool" where
  "hasRunningTransportForConnectivityChange E A =
     (if isShuttingDown A \<or> \<not> isUsable A \<or> transportRecoveryPending A then False
      else case transport A of
             None \<Rightarrow> False
           | Some t \<Rightarrow>
               (case tp_type t of
                  TCP \<Rightarrow> connected E (tp_id t) \<or> transportStatus A = PJSIP_SC_OK
                | UDP \<Rightarrow> True
                | TLS \<Rightarrow> False))"

definition shouldHandleConnectivityChange :: "acc_env \<Rightarrow> account \<Rightarrow> bool" where
  "shouldHandleConnectivityChange E A =
     (let s = registrationState A;
          intent = (bRegister A \<or> s \<noteq> UNREGISTERED \<or> transport A \<noteq> None);
          running = hasRunningTransportForConnectivityChange E A;
          recoverable = (s = ERROR_GENERIC \<or> s = ERROR_HOST \<or> s = ERROR_SERVICE_UNAVAILABLE);
          stuckInTrying = (s = REG_TRYING \<and> \<not> running \<and> \<not> transportRecoveryPending A)
      in \<not> isShuttingDown A \<and> isUsable A \<and> intent \<and> (running \<or> recoverable \<or> stuckInTrying))"

definition handleConnectivityChangedForced :: "acc_env \<Rightarrow> string \<Rightarrow> account \<Rightarrow> account" where
  "handleConnectivityChangedForced E reason A =
     (if \<not> shouldHandleConnectivityChange E A then A
      else dispatchPreparedConnectivityRecovery E reason (prepareConnectivityRecovery E A))"

definition connectivityChanged :: "acc_env \<Rightarrow> account \<Rightarrow> account" where
  "connectivityChanged E A = handleConnectivityChangedForced E ''connectivity-changed'' A"

text \<open>The local function of \<^verbatim>\<open>recoverTransport\<close> that looks for requests made meanwhile.\<close>

definition schedulePendingConnectivityRecovery :: "acc_env \<Rightarrow> account \<Rightarrow> account" where
  "schedulePendingConnectivityRecovery E A =
     (if \<not> isUsable A \<or> isShuttingDown A \<or> \<not> connectivityRecoveryRequested A then A
      else handleConnectivityChangedForced E ''connectivity-changed-coalesced'' (A\<lparr>connectivityRecoveryRequested := False\<rparr>))"

definition connectivity_reason :: "string \<Rightarrow> bool" where
  "connectivity_reason reason \<longleftrightarrow> take 20 reason = ''connectivity-changed''"

definition recoverTransport :: "acc_env \<Rightarrow> string \<Rightarrow> account \<Rightarrow> account" where
  "recoverTransport E reason A =
     (if \<not> transportRecoveryPending A then A
      else let connectivityRequested = connectivityRecoveryRequested A;
               A1 = A\<lparr>transportRecoveryPending := False, connectivityRecoveryInProgress := True,
                      connectivityRecoveryRequested := False\<rparr> in
           if isShuttingDown A1 \<or> \<not> isUsable A1 \<or> \<not> broker_ok E \<or> \<not> endpoint_ok E
           then A1\<lparr>connectivityRecoveryInProgress := False\<rparr>
           else let A2 = (if prepareTransportResetDone A1 then A1\<lparr>prepareTransportResetDone := False\<rparr>
                          else prepareTransportReset E (connectivityRequested \<or> connectivity_reason reason) A1);
                    (ok, _, A3) = switchTransportInternal E (transport_config (cfg A2)) False False A2 in
                if \<not> ok
                then let A4 = map_calls defer_call (A3\<lparr>connectivityRecoveryInProgress := False\<rparr>);
                         A5 = setRegistrationState ERROR_GENERIC PJSIP_SC_TSX_TRANSPORT_ERROR
                                (A4\<lparr>pendingReinviteAfterRegister := True\<rparr>)
                     in scheduleReregistration E (schedulePendingConnectivityRecovery E A5)
                else let A4 = (rebindCallsToCurrentTransportForConnectivityChange A3)
                                \<lparr>pendingReinviteAfterRegister := True\<rparr>;
                         A5 = (doRegister E A4)\<lparr>connectivityRecoveryInProgress := False\<rparr>
                     in schedulePendingConnectivityRecovery E A5)"

section \<open>The state of the transport\<close>

definition isAlive :: "tp_state \<Rightarrow> bool" where
  "isAlive s \<longleftrightarrow> s \<noteq> TP_DISCONNECTED \<and> s \<noteq> TP_SHUTDOWN \<and> s \<noteq> TP_DESTROY"

definition isBenignTransportShutdown :: "tp_state \<Rightarrow> int \<Rightarrow> account \<Rightarrow> bool" where
  "isBenignTransportShutdown s status A =
     (if status \<noteq> 0 \<and> status \<noteq> PJ_ECANCELLED then False
      else if s = TP_SHUTDOWN \<or> s = TP_DESTROY then True
      else s = TP_DISCONNECTED \<and> isShuttingDown A)"

definition shouldRecoverTransport :: "tp_state \<Rightarrow> int \<Rightarrow> account \<Rightarrow> bool" where
  "shouldRecoverTransport s status A =
     (if transport_config (cfg A) \<noteq> TCP \<and> transport_config (cfg A) \<noteq> UDP then False
      else if isShuttingDown A then False
      else if isBenignTransportShutdown s status A then False
      else \<not> isAlive s)"

definition onTransportStateChanged :: "acc_env \<Rightarrow> tp_state \<Rightarrow> int \<Rightarrow> account \<Rightarrow> account" where
  "onTransportStateChanged E s status A =
     (let A1 =
            (if \<not> isAlive s
             then let benign = isBenignTransportShutdown s status A;
                      B = A\<lparr>transportStatus := (if benign then (if status = 0 then PJSIP_SC_OK else status)
                                               else if status \<noteq> 0 then status else PJSIP_SC_SERVICE_UNAVAILABLE)\<rparr> in
                  if shouldRecoverTransport s status B
                  then let (scheduled, B1) = scheduleTransportRecovery E ''transport-state-change'' (transportStatus B) B
                       in if scheduled then B1
                          else setRegistrationState ERROR_GENERIC PJSIP_SC_TSX_TRANSPORT_ERROR B1
                  else if \<not> benign then setRegistrationState ERROR_GENERIC PJSIP_SC_TSX_TRANSPORT_ERROR B
                  else B
             else A\<lparr>transportStatus := (if status \<noteq> 0 then status else PJSIP_SC_OK)\<rparr>)
      in if transportStatus A \<noteq> transportStatus A1 then emit VolatileSignal A1 else A1)"

definition switchTransport :: "acc_env \<Rightarrow> transport_type \<Rightarrow> account \<Rightarrow> bool \<times> account" where
  "switchTransport E ttype A =
     (if transportSwitchPending A then (False, A)
      else let (ok, changed, A1) = switchTransportInternal E ttype True True (A\<lparr>transportSwitchPending := True\<rparr>) in
           if \<not> ok then (False, A1\<lparr>transportSwitchPending := False\<rparr>)
           else if \<not> changed \<or> \<not> isUsable A1 then (True, A1\<lparr>transportSwitchPending := False\<rparr>)
           else let A2 = cancelBackupRouteKeepAliveTimer (cancelMainRouteKeepAliveTimer (cancelKeepAliveTimer
                           (markTransportRebindRequired A1)));
                    A3 = resetAutoRegistration (cancelAutoReregistrationTimer (A2\<lparr>pendingBackupKeepAliveStart := False\<rparr>));
                    A4 = doRegister E (destroyRegistrationInfo A3)
                in (True, A4\<lparr>transportSwitchPending := False\<rparr>))"

section \<open>The answer of the registrar\<close>

record reg_result = \<comment> \<open>\<^verbatim>\<open>pjsip_regc_cbparam\<close>\<close>
  rp_regc :: nat
  rp_status :: int \<comment> \<open>0 is \<^verbatim>\<open>PJ_SUCCESS\<close>\<close>
  rp_code :: int
  rp_fake :: bool \<comment> \<open>the reason contains "fake"\<close>
  rp_expiration :: int
  rp_rdata :: bool \<comment> \<open>a response was received; without one PJSIP passes a null pointer\<close>
  rp_proxy :: "string option" \<comment> \<open>the header \<^verbatim>\<open>Application-Proxy\<close>\<close>
  rp_destination :: "ip_addr option" \<comment> \<open>where the request was sent, if its transaction is known\<close>

definition dual_route_options_mode :: "account \<Rightarrow> bool" where
  "dual_route_options_mode A \<longleftrightarrow> isOptionsKeepAliveMode A \<and> getKeepAliveTopology A = ServiceRouteWithBackup"

text \<open>Watching the active route with fast probes, which several failures begin.\<close>

definition probe_actual_address :: "acc_env \<Rightarrow> account \<Rightarrow> account" where
  "probe_actual_address E A =
     (let (found, A1) = updateActiveKeepAliveTargetFromActualIpAddress A
      in if found then registerKeepAliveTimer E (enableActiveNoRouteFastProbe E A1) else A1)"

text \<open>The three branches of \<^verbatim>\<open>onRegister\<close>; the first component tells that the branch returns from the function.\<close>

definition onRegister_status :: "acc_env \<Rightarrow> reg_result \<Rightarrow> account \<Rightarrow> bool \<times> account" where
  "onRegister_status E param A0 =
     (let optionsMode = isOptionsKeepAliveMode A0;
          dual = dual_route_options_mode A0;
          A = cancelBackupRouteKeepAliveTimer A0;
          failureCode = (if 0 < rp_code param then rp_code param else PJSIP_SC_TSX_TRANSPORT_ERROR) in
      if dual \<and> isUsingBackupRoute A \<and> \<not> mainRouteAvailable A
      then (True, setRegistrationStateWithSignal ERROR_GENERIC failureCode True
              (enableMainRouteFastProbe E (probe_actual_address E (destroyRegistrationInfo A))))
      else let recover = shouldRecoverTransport TP_DISCONNECTED (rp_status param) A;
               B = (if recover then destroyRegistrationInfo A else A);
               (scheduled, B1) = (if recover then scheduleTransportRecovery E ''registration-error'' (rp_status param) B
                                  else (False, B)) in
           if scheduled then (True, B1)
           else if dual \<and> \<not> isUsingBackupRoute B1 \<and> hasBackServiceRoutes B1
           then (True, enableMainRouteFastProbe E
                   (switchRouteAndReregister E True False (B1\<lparr>mainRouteAvailable := False\<rparr>)))
           else let C = destroyRegistrationInfo B1;
                    C1 = (if optionsMode then probe_actual_address E C else C)
                in (False, setRegistrationStateWithSignal ERROR_GENERIC failureCode True C1))"

definition registration_error :: "int \<Rightarrow> registration_state" where
  "registration_error code =
     (if code = PJSIP_SC_FORBIDDEN then ERROR_AUTH
      else if code = PJSIP_SC_NOT_FOUND then ERROR_HOST
      else if code = PJSIP_SC_REQUEST_TIMEOUT then ERROR_HOST
      else if code = PJSIP_SC_SERVICE_UNAVAILABLE then ERROR_SERVICE_UNAVAILABLE
      else ERROR_GENERIC)"

definition onRegister_code :: "acc_env \<Rightarrow> reg_result \<Rightarrow> account \<Rightarrow> bool \<times> account" where
  "onRegister_code E param A0 =
     (let optionsMode = isOptionsKeepAliveMode A0;
          dual = dual_route_options_mode A0;
          code = rp_code param;
          A = cancelBackupRouteKeepAliveTimer A0;
          shouldRetryBackup =
            (code \<in> {PJSIP_SC_REQUEST_TIMEOUT, PJSIP_SC_SERVICE_UNAVAILABLE, PJSIP_SC_NOT_FOUND}
             \<and> dual \<and> \<not> isUsingBackupRoute A \<and> hasBackServiceRoutes A) in
      if shouldRetryBackup
      then (True, enableMainRouteFastProbe E
              (switchRouteAndReregister E True False (destroyRegistrationInfo (A\<lparr>mainRouteAvailable := False\<rparr>))))
      else let (scheduled, B) = (if isTransportFailureFromOptions code
                                 then scheduleTransportRecovery E ''registration-transport-error'' code (destroyRegistrationInfo A)
                                 else (False, A)) in
           if scheduled then (True, B)
           else let C = destroyRegistrationInfo B;
                    C1 = (if dual \<and> isUsingBackupRoute C \<and> \<not> mainRouteAvailable C
                          then enableMainRouteFastProbe E (probe_actual_address E C)
                          else if optionsMode
                          then let (found, D) = updateActiveKeepAliveTargetFromActualIpAddress C in
                               if found \<and> (code = PJSIP_SC_REQUEST_TIMEOUT \<or> activeNoRouteFastProbeEnabled D)
                               then registerKeepAliveTimer E (enableActiveNoRouteFastProbe E D) else D
                          else C)
                in (False, setRegistrationStateWithSignal (registration_error code) code True C1))"

definition onRegister_success :: "acc_env \<Rightarrow> reg_result \<Rightarrow> account \<Rightarrow> account" where
  "onRegister_success E param A0 =
     (let A = resetAutoRegistration A0 in
      if rp_fake param then setRegistrationState ERROR_FAKE 500 (cancelKeepAliveTimer A)
      else if rp_expiration param < 1
      then setRegistrationState UNREGISTERED (rp_code param) (destroyRegistrationInfo
             (cancelBackupRouteKeepAliveTimer (cancelMainRouteKeepAliveTimer (cancelKeepAliveTimer A))))
      else let A1 = emit (ApplicationProxy (case rp_proxy param of None \<Rightarrow> [] | Some h \<Rightarrow> h)) A;
               A2 = (if \<not> isUsingBackupRoute A1 \<and> hasServiceRoute A1 then A1\<lparr>mainRouteAvailable := True\<rparr> else A1);
               A3 = disableActiveNoRouteFastProbe (setRegistrationState REGISTERED (rp_code param) A2);
               A4 = resetRawKeepAliveRecoveryWindow (resetOptionsRecoveryWindow A3);
               A5 = runPostRegisterRecoverySync E A4;
               runConnectivityReinvite = pendingReinviteAfterRegister A5;
               A6 = A5\<lparr>pendingReinviteAfterRegister := False\<rparr>;
               A7 = (case rp_destination param of
                       None \<Rightarrow> A6
                     | Some ip \<Rightarrow> A6\<lparr>kaTarget := (kaTarget A6)\<lparr>ka_socket := ip, ka_length := getLength ip\<rparr>\<rparr>);
               A8 = startBackupKeepAliveAfterRegister (registerKeepAliveTimer E A7)
           in if runConnectivityReinvite then reinviteActiveCalls E A8 else A8)"

text \<open>The end of \<^verbatim>\<open>onRegister\<close>: the contact is rewritten from the response, and some failures are retried.\<close>

definition onRegister_end :: "acc_env \<Rightarrow> reg_result \<Rightarrow> account \<Rightarrow> account" where
  "onRegister_end E param A =
     (let code = rp_code param;
          A1 = (if \<not> allowIPAutoRewrite (cfg A) then A
                else if \<not> rp_rdata param then A\<lparr>crashed := True\<rparr>
                else case nat_contact E A of None \<Rightarrow> A | Some c \<Rightarrow> A\<lparr>contact := c\<rparr>) in
      if crashed A1 then A1
      else if code \<in> {PJSIP_SC_REQUEST_TIMEOUT, PJSIP_SC_INTERNAL_SERVER_ERROR, PJSIP_SC_BAD_GATEWAY,
                      PJSIP_SC_SERVICE_UNAVAILABLE, PJSIP_SC_SERVER_TIMEOUT} \<or> code div 100 = 6
      then scheduleReregistration E A1
      else A1)"

definition onRegister :: "acc_env \<Rightarrow> reg_result \<Rightarrow> account \<Rightarrow> account" where
  "onRegister E param A =
     (if isShuttingDown A \<or> regc A \<noteq> Some (rp_regc param) then A
      else let (returned, A1) =
                 (if rp_status param \<noteq> 0 then onRegister_status E param A
                  else if rp_code param < 0 \<or> 300 \<le> rp_code param then onRegister_code E param A
                  else if rp_code param div 100 = 2 then (False, onRegister_success E param A)
                  else (False, A))
           in if returned then A1 else onRegister_end E param A1)"

section \<open>Unregistering and re-registering\<close>

definition sendUnregister :: "acc_env \<Rightarrow> account \<Rightarrow> bool \<times> account" where
  "sendUnregister E A =
     (if \<not> bRegister A then (True, setRegistrationState UNREGISTERED 0 A)
      else let A1 = A\<lparr>bRegister := False\<rparr> in
           case regc A1 of
             None \<Rightarrow> (False, A1)
           | Some r \<Rightarrow>
               if isTransportRecoveryActive A1 \<or> transport A1 = None
               then (True, setRegistrationState UNREGISTERED 0 (destroyRegistrationInfo A1))
               else if unregister_prepared E A1 \<and> regc_sent E A1 then (True, emit (UnregisterSent r) A1)
               else (False, A1))"

definition doUnregister :: "acc_env \<Rightarrow> account \<Rightarrow> account" where
  "doUnregister E A =
     (let (ok, A1) = sendUnregister E
            (cancelBackupRouteKeepAliveTimer (cancelMainRouteKeepAliveTimer (cancelKeepAliveTimer A)))
      in if ok then A1 else setRegistrationState ERROR_GENERIC 0 A1)"

definition doUnregisterFireAndForget :: "acc_env \<Rightarrow> account \<Rightarrow> account" where
  "doUnregisterFireAndForget E A =
     (let A1 = cancelBackupRouteKeepAliveTimer (cancelMainRouteKeepAliveTimer (cancelKeepAliveTimer A));
          A2 = resetAutoRegistration (cancelAutoReregistrationTimer A1) in
      if \<not> bRegister A2 then setRegistrationState UNREGISTERED 0 (destroyRegistrationInfo A2)
      else let A3 = A2\<lparr>bRegister := False\<rparr> in
           case regc A3 of
             None \<Rightarrow> setRegistrationState UNREGISTERED 0 A3
           | Some r \<Rightarrow>
               let A4 = (if \<not> isTransportRecoveryActive A3 \<and> transport A3 \<noteq> None \<and> unregister_prepared E A3 \<and> regc_sent E A3
                         then emit (UnregisterSent r) A3 else A3)
               in setRegistrationState UNREGISTERED 0 (destroyRegistrationInfo A4))"

text \<open>The callback of the re-registration timer reads the weak pointer that \<^verbatim>\<open>resetAutoRegistration\<close> deletes.\<close>

definition auto_rereg_timer_fired :: "acc_env \<Rightarrow> account \<Rightarrow> account" where
  "auto_rereg_timer_fired E A =
     (if \<not> rereg_user_data A then A\<lparr>crashed := True\<rparr>
      else if \<not> rereg_active A then A
      else doRegister E (A\<lparr>rereg_attempt_cnt := rereg_attempt_cnt A + 1\<rparr>))"

text \<open>\<^verbatim>\<open>Manager::setKeepAliveInterval\<close> and \<^verbatim>\<open>Manager::sendRegister\<close> for the account.\<close>

definition setKeepAliveInterval :: "acc_env \<Rightarrow> nat \<Rightarrow> account \<Rightarrow> account" where
  "setKeepAliveInterval E interval A =
     (let restoreMain = (isUsingBackupRoute A \<and> mainRouteFastProbeEnabled A \<and> 0 < interval);
          restoreActive = (isOptionsKeepAliveMode A \<and> activeNoRouteFastProbeEnabled A \<and> 0 < interval);
          A1 = A\<lparr>cfg := (cfg A)\<lparr>keepAliveInterval := interval\<rparr>\<rparr>;
          A2 = cancelBackupRouteKeepAliveTimer (cancelMainRouteKeepAliveTimer (cancelKeepAliveTimer A1)) in
      if \<not> isUsable A2 \<or> transport A2 = None then A2
      else let A3 = registerKeepAliveTimer E A2;
               A4 = (if restoreActive then enableActiveNoRouteFastProbe E A3 else A3) in
           if \<not> hasBackServiceRoutes A4 then A4
           else if isUsingBackupRoute A4
           then let A5 = registerMainRouteKeepAliveTimer E A4
                in if restoreMain then enableMainRouteFastProbe E A5 else A5
           else registerBackupRouteKeepAliveTimer A4)"

definition manager_sendRegister :: "acc_env \<Rightarrow> bool \<Rightarrow> account \<Rightarrow> account" where
  "manager_sendRegister E enable A =
     (let A1 = A\<lparr>cfg := (cfg A)\<lparr>enabled := enable\<rparr>\<rparr>
      in if enable then doRegister E A1 else doUnregister E A1)"

section \<open>Runs\<close>

text \<open>
  The destructor. Timers and the registration client are taken down; requests in flight keep their raw pointer.
\<close>

definition destroy_account :: "acc_env \<Rightarrow> account \<Rightarrow> account" where
  "destroy_account E A =
     (let A1 = A\<lparr>isShuttingDown := True, transportRecoveryPending := False, connectivityRecoveryRequested := False,
                 pendingReinviteAfterRegister := False, connectivityRecoveryInProgress := False,
                 prepareTransportResetDone := False\<rparr>;
          A2 = cancelBackupRouteKeepAliveTimer (cancelMainRouteKeepAliveTimer (cancelKeepAliveTimer A1));
          A3 = resetAutoRegistration (cancelAutoReregistrationTimer A2)
      in snd (setTransport E None (destroyRegistrationInfo A3)))"

datatype acc_op =
    Register
  | Unregister
  | Unregister_now
  | Send_register bool
  | Push_notification
  | Reg_answer reg_result
  | Timer acc_timer
  | Probe_done nat int \<comment> \<open>the request with this index gets a final answer\<close>
  | Resolved nat "ip_addr list"
  | Run_posted
  | Transport_state tp_state int \<comment> \<open>the listener posts the change\<close>
  | Connectivity_changed
  | Switch_transport transport_type
  | Set_interval nat
  | Set_active bool
  | Calls_change "(string \<times> rcall) list"
  | Destroy

definition probe_done :: "acc_env \<Rightarrow> probe \<Rightarrow> int \<Rightarrow> account \<Rightarrow> account" where
  "probe_done E p code A =
     (if isShuttingDown A then A\<lparr>crashed := True\<rparr>
      else case p of
             Active_Probe \<Rightarrow> keep_alive_on_complete E code A
           | Main_Probe \<Rightarrow> main_route_keep_alive_on_complete E code A
           | Backup_Probe \<Rightarrow> backup_keep_alive_on_complete E code A
           | Startup_Probe \<Rightarrow> startup_main_route_probe_on_complete E code A)"

definition timer_fired :: "acc_env \<Rightarrow> acc_timer \<Rightarrow> account \<Rightarrow> account" where
  "timer_fired E t A =
     (case t of
        Active_Timer \<Rightarrow> keep_alive_timer_cb E A
      | Main_Timer \<Rightarrow> main_route_keep_alive_timer_cb E A
      | Backup_Timer \<Rightarrow> backup_route_keep_alive_timer_cb E A
      | Rereg_Timer \<Rightarrow> auto_rereg_timer_fired E A)"

definition resolved :: "acc_env \<Rightarrow> resolve_job \<Rightarrow> ip_addr list \<Rightarrow> account \<Rightarrow> account" where
  "resolved E job ips A =
     (case job of
        Service_Route \<Rightarrow> service_resolved_with (doRegister E) E ips A
      | Back_Route \<Rightarrow> back_resolved ips A
      | Host_Name \<Rightarrow> host_resolved_with (doRegister E) E ips A
      | Main_Keep_Alive \<Rightarrow> main_route_resolved E ips A)"

definition run_posted :: "acc_env \<Rightarrow> posted \<Rightarrow> account \<Rightarrow> account" where
  "run_posted E p A =
     (case p of
        Post_Recover reason _ \<Rightarrow> recoverTransport E reason A
      | Post_Transport_State s status \<Rightarrow> onTransportStateChanged E s status A)"

fun acc_exec :: "acc_env \<Rightarrow> acc_op \<Rightarrow> account \<Rightarrow> account" where
  "acc_exec E Register A = doRegister E A"
| "acc_exec E Unregister A = doUnregister E A"
| "acc_exec E Unregister_now A = doUnregisterFireAndForget E A"
| "acc_exec E (Send_register enable) A = manager_sendRegister E enable A"
| "acc_exec E Push_notification A = (if enabled (cfg A) then doRegister E (doUnregister E A) else A)"
| "acc_exec E (Reg_answer param) A = onRegister E param A"
| "acc_exec E (Timer t) A = timer_fired E t (cancel_timer t A)"
| "acc_exec E (Probe_done k code) A = probe_done E (in_flight A ! k) code (A\<lparr>in_flight := remove_nth k (in_flight A)\<rparr>)"
| "acc_exec E (Resolved k ips) A = resolved E (snd (resolving A ! k)) ips (A\<lparr>resolving := remove_nth k (resolving A)\<rparr>)"
| "acc_exec E Run_posted A = run_posted E (hd (main_queue A)) (A\<lparr>main_queue := tl (main_queue A)\<rparr>)"
| "acc_exec E (Transport_state s status) A = A\<lparr>main_queue := main_queue A @ [Post_Transport_State s status]\<rparr>"
| "acc_exec E Connectivity_changed A = connectivityChanged E A"
| "acc_exec E (Switch_transport t) A = snd (switchTransport E t A)"
| "acc_exec E (Set_interval n) A = setKeepAliveInterval E n A"
| "acc_exec E (Set_active b) A = A\<lparr>active := b\<rparr>"
| "acc_exec E (Calls_change cs) A = A\<lparr>calls := cs\<rparr>"
| "acc_exec E Destroy A = destroy_account E A"

text \<open>
  After the destructor only armed timers and requests in flight reach the object; the other closures
  hold weak pointers. Nothing happens after a crash.
\<close>

fun acc_ready :: "acc_op \<Rightarrow> account \<Rightarrow> bool" where
  "acc_ready (Timer t) A \<longleftrightarrow> is_armed t A"
| "acc_ready (Probe_done k code) A \<longleftrightarrow> k < length (in_flight A)"
| "acc_ready (Resolved k ips) A \<longleftrightarrow> k < length (resolving A) \<and> \<not> isShuttingDown A"
| "acc_ready Run_posted A \<longleftrightarrow> main_queue A \<noteq> [] \<and> \<not> isShuttingDown A"
| "acc_ready (Reg_answer param) A \<longleftrightarrow> rp_regc param < regc_created A \<and> \<not> isShuttingDown A"
| "acc_ready _ A \<longleftrightarrow> \<not> isShuttingDown A"

inductive acc_step :: "account \<Rightarrow> account \<Rightarrow> bool" where
  op: "acc_ready r A \<Longrightarrow> \<not> crashed A \<Longrightarrow> acc_step A (acc_exec E r A)"

definition no_ka :: ka_entry where
  "no_ka = \<lparr>ka_socket = No_Addr, ka_length = 0, ka_id = False\<rparr>"

text \<open>A new account; \<^verbatim>\<open>bRegister_\<close> is not initialised.\<close>

definition acc_new :: "acc_config \<Rightarrow> bool \<Rightarrow> account" where
  "acc_new c reg =
     \<lparr>cfg = c, active = True, registrationState = UNREGISTERED, regDetails = 0, bRegister = reg, regc = None,
      regc_created = 0, regc_destroyed = 0, transport = None, transportStatus = PJSIP_SC_TRYING, contact = [],
      localBinding = None, hostIp = No_Addr, serviceRouteIp = No_Addr, backServiceRouteIps = [],
      activeBackupRoute = ([], No_Addr), activeBackupRouteIdx = -1, kaTarget = no_ka, kaMainRoute = no_ka,
      kaBackupRoute = no_ka, ka_options_pending = False, ka_main_route_options_pending = False,
      ka_backup_route_options_pending = False, mainRouteAvailable = False, needsResubscribe = False,
      needsRepublish = False, pendingTransportRebind = False, pendingBackupKeepAliveStart = False,
      routeSwitchPending = False, transportSwitchPending = False, transportRecoveryPending = False,
      connectivityRecoveryRequested = False, isShuttingDown = False, pendingReinviteAfterRegister = False,
      connectivityRecoveryInProgress = False, prepareTransportResetDone = False, mainRouteFastProbeEnabled = False,
      activeNoRouteFastProbeEnabled = False, startupMainRouteProbePending = False, skipMainRouteStartupProbeOnce = False,
      lastTransportRecoveryMs = 0, optionsRecoveryAttemptMs = [], rawKeepAliveRecoveryAttemptMs = [],
      rereg_active = False, rereg_attempt_cnt = 0, rereg_id = False, rereg_user_data = False, calls = [], heap = [],
      resolving = [], in_flight = [], main_queue = [], acc_log = [], crashed = False\<rparr>"

end
