(* ===== verification/Sip_Routes.thy ===== *)
theory Sip_Routes
  imports Sip_Account
begin

text \<open>
  The routes of an account: that the recursion of the registration ends, an invariant of all runs, failover to a
  backup route and the way back.
\<close>

section \<open>Frames\<close>

text \<open>The parts of an account that decide about routes, and that most operations leave alone.\<close>

definition route_part :: "account \<Rightarrow> acc_config \<times> bool \<times> (string \<times> ip_addr) \<times> int \<times> bool" where
  "route_part A = (cfg A, active A, activeBackupRoute A, activeBackupRouteIdx A, isShuttingDown A)"

lemma route_part_eqD:
  assumes "route_part B = route_part A"
  shows "cfg B = cfg A" "active B = active A" "activeBackupRoute B = activeBackupRoute A"
    "activeBackupRouteIdx B = activeBackupRouteIdx A" "isShuttingDown B = isShuttingDown A"
    "isUsingBackupRoute B = isUsingBackupRoute A" "isUsable B = isUsable A" "hasServiceRoute B = hasServiceRoute A"
    "hasBackServiceRoutes B = hasBackServiceRoutes A"
  using assms by (auto simp: route_part_def isUsingBackupRoute_def isUsable_def hasServiceRoute_def hasBackServiceRoutes_def)

lemma snd_if: "snd (if b then x else y) = (if b then snd x else snd y)" by simp
lemma fst_if: "fst (if b then x else y) = (if b then fst x else fst y)" by simp

lemma schedule_timer_frame [simp]: "route_part (snd (schedule_timer E t d A)) = route_part A"
  by (simp add: schedule_timer_def route_part_def)

lemma cancel_timer_frame [simp]: "route_part (cancel_timer t A) = route_part A"
  by (simp add: cancel_timer_def route_part_def)

lemma emit_frame [simp]: "route_part (emit ev A) = route_part A"
  by (simp add: emit_def route_part_def)

lemma send_probe_frame [simp]: "route_part (send_probe p target A) = route_part A"
  by (simp add: send_probe_def emit_def route_part_def)

lemma setRegistrationState_frame [simp]:
  "route_part (setRegistrationState s c A) = route_part A"
  "route_part (emitRegistrationStateSignal s c A) = route_part A"
  "route_part (setRegistrationStateWithSignal s c b A) = route_part A"
  by (simp_all add: setRegistrationState_def emitRegistrationStateSignal_def setRegistrationStateWithSignal_def
      emit_def route_part_def Let_def)

lemma destroyRegistrationInfo_frame [simp]:
  "route_part (destroyRegistrationInfo A) = route_part A" "route_part (setRegistrationInfo r A) = route_part A"
  by (simp_all add: setRegistrationInfo_def destroyRegistrationInfo_def route_part_def split: option.split)

lemma mark_frame [simp]: "route_part (markTransportRebindRequired A) = route_part A"
  by (simp add: markTransportRebindRequired_def route_part_def)

lemma field_frames [simp]:
  "route_part (kaTarget_update f A) = route_part A" "route_part (kaMainRoute_update f A) = route_part A"
  "route_part (kaBackupRoute_update f A) = route_part A" "route_part (mainRouteAvailable_update g A) = route_part A"
  "route_part (mainRouteFastProbeEnabled_update g A) = route_part A"
  "route_part (activeNoRouteFastProbeEnabled_update g A) = route_part A"
  "route_part (ka_options_pending_update g A) = route_part A"
  "route_part (ka_main_route_options_pending_update g A) = route_part A"
  "route_part (ka_backup_route_options_pending_update g A) = route_part A"
  "route_part (pendingBackupKeepAliveStart_update g A) = route_part A"
  "route_part (resolving_update h A) = route_part A" "route_part (transport_update t A) = route_part A"
  "route_part (contact_update c A) = route_part A" "route_part (localBinding_update b A) = route_part A"
  "route_part (routeSwitchPending_update g A) = route_part A"
  "route_part (skipMainRouteStartupProbeOnce_update g A) = route_part A"
  "route_part (startupMainRouteProbePending_update g A) = route_part A"
  "route_part (serviceRouteIp_update i A) = route_part A" "route_part (hostIp_update i A) = route_part A"
  "route_part (backServiceRouteIps_update is A) = route_part A" "route_part (bRegister_update g A) = route_part A"
  "route_part (regc_created_update n A) = route_part A" "route_part (needsResubscribe_update g A) = route_part A"
  "route_part (needsRepublish_update g A) = route_part A" "route_part (pendingTransportRebind_update g A) = route_part A"
  "route_part (rereg_active_update g A) = route_part A" "route_part (rereg_id_update g A) = route_part A"
  "route_part (rereg_user_data_update g A) = route_part A" "route_part (rereg_attempt_cnt_update n A) = route_part A"
  "route_part (optionsRecoveryAttemptMs_update ts A) = route_part A"
  "route_part (rawKeepAliveRecoveryAttemptMs_update ts A) = route_part A"
  "route_part (transportStatus_update st A) = route_part A" "route_part (calls_update cs A) = route_part A"
  "route_part (pendingReinviteAfterRegister_update g A) = route_part A"
  "route_part (connectivityRecoveryRequested_update g A) = route_part A"
  "route_part (connectivityRecoveryInProgress_update g A) = route_part A"
  "route_part (prepareTransportResetDone_update g A) = route_part A"
  "route_part (transportRecoveryPending_update g A) = route_part A"
  "route_part (transportSwitchPending_update g A) = route_part A"
  "route_part (lastTransportRecoveryMs_update st A) = route_part A" "route_part (main_queue_update q A) = route_part A"
  "route_part (in_flight_update fl A) = route_part A" "route_part (crashed_update g A) = route_part A"
  "route_part (acc_log_update lg A) = route_part A" "route_part (regDetails_update st A) = route_part A"
  by (simp_all add: route_part_def)

lemmas prod_simps = case_prod_beta Let_def snd_if fst_if

lemma probes_frame [simp]:
  "route_part (rescheduleMainRouteProbeNow E n A) = route_part A"
  "route_part (rescheduleActiveKeepAliveNow E n A) = route_part A"
  "route_part (enableMainRouteFastProbe E A) = route_part A"
  "route_part (enableActiveNoRouteFastProbe E A) = route_part A"
  "route_part (disableMainRouteFastProbe A) = route_part A"
  "route_part (disableActiveNoRouteFastProbe A) = route_part A"
  by (simp_all add: rescheduleMainRouteProbeNow_def rescheduleActiveKeepAliveNow_def enableMainRouteFastProbe_def
      enableActiveNoRouteFastProbe_def disableMainRouteFastProbe_def disableActiveNoRouteFastProbe_def prod_simps)

lemma timers_frame [simp]:
  "route_part (registerKeepAliveTimer E A) = route_part A" "route_part (cancelKeepAliveTimer A) = route_part A"
  "route_part (main_route_resolved E ips A) = route_part A"
  "route_part (registerMainRouteKeepAliveTimer E A) = route_part A"
  "route_part (cancelMainRouteKeepAliveTimer A) = route_part A"
  "route_part (cancelBackupRouteKeepAliveTimer A) = route_part A"
  "route_part (registerBackupRouteKeepAliveTimer A) = route_part A"
  "route_part (startBackupKeepAliveAfterRegister A) = route_part A"
  "route_part (cancelAutoReregistrationTimer A) = route_part A" "route_part (resetAutoRegistration A) = route_part A"
  "route_part (scheduleReregistration E A) = route_part A" "route_part (sendBackupRouteKeepAlive E A) = route_part A"
  by (simp_all add: registerKeepAliveTimer_def cancelKeepAliveTimer_def main_route_resolved_def
      registerMainRouteKeepAliveTimer_def cancelMainRouteKeepAliveTimer_def cancelBackupRouteKeepAliveTimer_def
      registerBackupRouteKeepAliveTimer_def startBackupKeepAliveAfterRegister_def cancelAutoReregistrationTimer_def
      resetAutoRegistration_def scheduleReregistration_def sendBackupRouteKeepAlive_def prod_simps
      split: list.split option.split)

lemma transports_frame [simp]:
  "route_part (updateLocalBindingSnapshot E A) = route_part A" "route_part (snd (attachTransport E A)) = route_part A"
  "route_part (snd (setTransport E t A)) = route_part A"
  "route_part (snd (updateActiveKeepAliveTargetFromActualIpAddress A)) = route_part A"
  by (simp_all add: updateLocalBindingSnapshot_def attachTransport_def setTransport_def
      updateActiveKeepAliveTargetFromActualIpAddress_def prod_simps split: option.split)

lemma switchTransportInternal_frame [simp]:
  "route_part (snd (snd (switchTransportInternal E t False m A))) = route_part A"
  by (simp add: switchTransportInternal_def prod_simps split: option.split)

lemma sendRegister_frame [simp]: "route_part (snd (sendRegister E A)) = route_part A"
  by (simp add: sendRegister_def prod_simps)

lemma back_resolved_frame [simp]:
  "route_part (back_resolved ips A) = route_part A" "route_part (resolve_back E A r) = route_part A"
  by (simp_all add: back_resolved_def resolve_back_def Let_def split: list.split option.split)

lemma resolve_back_all_frame [simp]: "route_part (foldl (resolve_back E) A rs) = route_part A"
  by (induction rs arbitrary: A) simp_all

lemmas using_backup_frames [simp] =
  destroyRegistrationInfo_frame [THEN route_part_eqD(6)] field_frames [THEN route_part_eqD(6)]
  setRegistrationState_frame [THEN route_part_eqD(6)] switchTransportInternal_frame [THEN route_part_eqD(6)]
  probes_frame [THEN route_part_eqD(6)] timers_frame [THEN route_part_eqD(6)] transports_frame [THEN route_part_eqD(6)]
  sendRegister_frame [THEN route_part_eqD(6)] emit_frame [THEN route_part_eqD(6)] mark_frame [THEN route_part_eqD(6)]
  resolve_back_all_frame [THEN route_part_eqD(6)] back_resolved_frame [THEN route_part_eqD(6)]

section \<open>The recursion of the registration ends\<close>

lemma switch_with_cong:
  assumes "\<And>B. isUsingBackupRoute B \<Longrightarrow> k B = k' B"
  shows "switchRouteAndReregister_with k E True skip A = switchRouteAndReregister_with k' E True skip A"
  by (simp add: switchRouteAndReregister_with_def prod_simps assms)

lemma startup_with_cong:
  assumes "\<And>B. isUsingBackupRoute B \<Longrightarrow> k B = k' B"
  shows "sendStartupMainRouteProbe_with k E A = sendStartupMainRouteProbe_with k' E A"
  using switch_with_cong [of k k', OF assms]
  by (simp add: sendStartupMainRouteProbe_with_def startup_failed_with_def prod_simps)

lemma doRegister_with_cong:
  assumes "\<And>B. isUsingBackupRoute B \<Longrightarrow> k B = k' B"
  shows "doRegister2_with k E A = doRegister2_with k' E A" "doRegister_with k E A = doRegister_with k' E A"
  using startup_with_cong [of k k', OF assms]
  by (simp_all add: doRegister_with_def doRegister1_with_def service_resolved_with_def host_resolved_with_def
      doRegister2_with_def prod_simps split: list.split option.split)

lemma consume_on_backup:
  "isUsingBackupRoute A \<Longrightarrow> \<not> fst (consumeShouldRunStartupMainRouteProbe A)"
  by (simp add: consumeShouldRunStartupMainRouteProbe_def shouldUseStartupMainRouteProbe_def Let_def)

lemma doRegister_on_backup:
  assumes "isUsingBackupRoute A"
  shows "doRegister2_with k E A = doRegister2_with k' E A" "doRegister_with k E A = doRegister_with k' E A"
proof -
  have two: "doRegister2_with k E B = doRegister2_with k' E B" if "isUsingBackupRoute B" for B
    using that by (simp add: doRegister2_with_def prod_simps consume_on_backup)
  then show "doRegister2_with k E A = doRegister2_with k' E A" using assms by blast
  have "service_resolved_with k E ips B = service_resolved_with k' E ips B"
    "host_resolved_with k E ips B = host_resolved_with k' E ips B" if "isUsingBackupRoute B" for ips B
    using that two [of "B\<lparr>serviceRouteIp := hd ips\<rparr>"] two [of "B\<lparr>hostIp := hd ips\<rparr>"]
    by (auto simp: service_resolved_with_def host_resolved_with_def split: list.split)
  then show "doRegister_with k E A = doRegister_with k' E A"
    using assms by (simp add: doRegister_with_def doRegister1_with_def Let_def split: option.split)
qed

text \<open>
  The circle of calls between registering, the first probe of the main route and the switch to the
  backup route ends: the function of the model, in which the nested call is unrolled once, satisfies the recursive
  equation of the code, whatever the network answers.
\<close>

theorem doRegister_unfold: "doRegister E A = doRegister_with (doRegister E) E A"
proof -
  have "doRegister_with (\<lambda>A. A) E B = doRegister E B" if "isUsingBackupRoute B" for B
    unfolding doRegister_def by (rule doRegister_on_backup(2) [OF that])
  then have "doRegister_with (doRegister_with (\<lambda>A. A) E) E A = doRegister_with (doRegister E) E A"
    by (rule doRegister_with_cong(2))
  then show ?thesis by (simp add: doRegister_def)
qed

section \<open>Properties that the operations keep\<close>

text \<open>
  A property of accounts that survives the elementary changes of the code survives every operation, apart
  from an accepted registration and the destructor, which change more.
\<close>

fun is_signal :: "acc_event \<Rightarrow> bool" where
  "is_signal (StateSignal _ _) = True"
| "is_signal _ = False"

fun may_finish :: "acc_op \<Rightarrow> bool" where
  "may_finish (Reg_answer p) \<longleftrightarrow> rp_status p = 0 \<and> rp_code p div 100 = 2"
| "may_finish Destroy \<longleftrightarrow> True"
| "may_finish _ \<longleftrightarrow> False"

locale account_property =
  fixes P :: "account \<Rightarrow> bool"
  assumes fields:
    "P (kaTarget_update f A) = P A" "P (kaMainRoute_update f A) = P A"
  "P (kaBackupRoute_update f A) = P A" "P (mainRouteAvailable_update g A) = P A"
  "P (activeNoRouteFastProbeEnabled_update g A) = P A" "P (ka_options_pending_update g A) = P A"
  "P (ka_main_route_options_pending_update g A) = P A"
  "P (ka_backup_route_options_pending_update g A) = P A"
  "P (pendingBackupKeepAliveStart_update g A) = P A" "P (resolving_update h A) = P A"
  "P (transport_update t A) = P A" "P (contact_update c A) = P A"
  "P (localBinding_update b A) = P A" "P (routeSwitchPending_update g A) = P A"
  "P (skipMainRouteStartupProbeOnce_update g A) = P A"
  "P (startupMainRouteProbePending_update g A) = P A" "P (serviceRouteIp_update i A) = P A"
  "P (hostIp_update i A) = P A" "P (backServiceRouteIps_update is A) = P A"
  "P (bRegister_update g A) = P A" "P (regc_created_update n A) = P A"
  "P (needsResubscribe_update g A) = P A" "P (needsRepublish_update g A) = P A"
  "P (pendingTransportRebind_update g A) = P A" "P (rereg_active_update g A) = P A"
  "P (rereg_id_update g A) = P A" "P (rereg_user_data_update g A) = P A"
  "P (rereg_attempt_cnt_update n A) = P A" "P (optionsRecoveryAttemptMs_update ts A) = P A"
  "P (rawKeepAliveRecoveryAttemptMs_update ts A) = P A" "P (transportStatus_update st A) = P A"
  "P (calls_update cs A) = P A" "P (connectivityRecoveryRequested_update g A) = P A"
  "P (connectivityRecoveryInProgress_update g A) = P A"
  "P (prepareTransportResetDone_update g A) = P A" "P (transportRecoveryPending_update g A) = P A"
  "P (transportSwitchPending_update g A) = P A" "P (lastTransportRecoveryMs_update st A) = P A"
  "P (main_queue_update q A) = P A" "P (in_flight_update fl A) = P A"
  "P (crashed_update g A) = P A" "P (regDetails_update st A) = P A"
  "P (heap_update hp A) = P A" "P (isShuttingDown_update g A) = P A"
  "P (active_update g A) = P A" "P (regc_update rc A) = P A"
  "P (regc_destroyed_update n A) = P A"
    and quiet: "list_all (\<lambda>ev. \<not> is_signal ev) evs \<Longrightarrow> P (A\<lparr>acc_log := acc_log A @ evs\<rparr>) = P A"
    and state: "P A \<Longrightarrow> P (setRegistrationState s code A)"
    and same_state: "P A \<Longrightarrow> P (emitRegistrationStateSignal (registrationState A) code A)"
    and fast_off: "P A \<Longrightarrow> P (A\<lparr>mainRouteFastProbeEnabled := False\<rparr>)"
    and fast_on: "P A \<Longrightarrow> isUsingBackupRoute A \<Longrightarrow> P (A\<lparr>mainRouteFastProbeEnabled := True\<rparr>)"
    and to_backup: "P A \<Longrightarrow> \<not> isUsingBackupRoute A \<Longrightarrow> P (iterateActiveBackServiceRoute A)"
    and to_main: "P A \<Longrightarrow> P (A\<lparr>activeBackupRoute := ([], No_Addr), mainRouteFastProbeEnabled := False\<rparr>)"
    and config: "P (A\<lparr>cfg := (cfg A)\<lparr>transport_config := tt\<rparr>\<rparr>) = P A" "P (A\<lparr>cfg := (cfg A)\<lparr>keepAliveInterval := ka\<rparr>\<rparr>) = P A"
      "P (A\<lparr>cfg := (cfg A)\<lparr>enabled := en\<rparr>\<rparr>) = P A"
    and pend: "P A \<Longrightarrow> P (A\<lparr>pendingReinviteAfterRegister := True\<rparr>)"
begin

declare fields [simp] config [simp] state [simp] fast_off [simp] pend [simp]

lemma P_emit [simp]: "\<not> is_signal ev \<Longrightarrow> P (emit ev A) = P A"
  using quiet [of "[ev]" A] by (simp add: emit_def)

lemma P_setRegistrationStateWithSignal [simp]: "P A \<Longrightarrow> P (setRegistrationStateWithSignal s c b A)"
  using same_state [of A] by (auto simp: setRegistrationStateWithSignal_def)

lemma P_basic [simp]:
  "P (snd (schedule_timer E t d A)) = P A" "P (cancel_timer t A) = P A"
  "P (send_probe p target A) = P A" "P (destroyRegistrationInfo A) = P A"
  "P (setRegistrationInfo r A) = P A" "P (markTransportRebindRequired A) = P A"
  by (simp_all add: schedule_timer_def cancel_timer_def send_probe_def destroyRegistrationInfo_def setRegistrationInfo_def
      markTransportRebindRequired_def split: option.split)

lemma P_disable [simp]:
  "P A \<Longrightarrow> P (disableMainRouteFastProbe A)" "P (disableActiveNoRouteFastProbe A) = P A"
  by (simp_all add: disableMainRouteFastProbe_def disableActiveNoRouteFastProbe_def)

lemma P_enable [simp]:
  "P A \<Longrightarrow> P (enableMainRouteFastProbe E A)" "P A \<Longrightarrow> P (enableActiveNoRouteFastProbe E A)"
proof -
  have "P (A\<lparr>mainRouteFastProbeEnabled := True\<rparr>)" if "P A" "isUsingBackupRoute A"
    using that by (rule fast_on)
  moreover have "P (rescheduleMainRouteProbeNow E n B) = P B" "P (rescheduleActiveKeepAliveNow E n B) = P B" for n B
    by (simp_all add: rescheduleMainRouteProbeNow_def rescheduleActiveKeepAliveNow_def prod_simps)
  ultimately show "P A \<Longrightarrow> P (enableMainRouteFastProbe E A)" "P A \<Longrightarrow> P (enableActiveNoRouteFastProbe E A)"
    by (simp_all add: enableMainRouteFastProbe_def enableActiveNoRouteFastProbe_def Let_def)
qed

lemma P_timers [simp]:
  "P (registerKeepAliveTimer E A) = P A" "P (cancelKeepAliveTimer A) = P A"
  "P (main_route_resolved E ips A) = P A"
  "P (cancelBackupRouteKeepAliveTimer A) = P A"
  "P (registerBackupRouteKeepAliveTimer A) = P A" "P (startBackupKeepAliveAfterRegister A) = P A"
  "P (cancelAutoReregistrationTimer A) = P A" "P (resetAutoRegistration A) = P A"
  "P (scheduleReregistration E A) = P A" "P (sendBackupRouteKeepAlive E A) = P A"
  by (simp_all add: registerKeepAliveTimer_def cancelKeepAliveTimer_def main_route_resolved_def
      cancelBackupRouteKeepAliveTimer_def registerBackupRouteKeepAliveTimer_def startBackupKeepAliveAfterRegister_def
      cancelAutoReregistrationTimer_def resetAutoRegistration_def scheduleReregistration_def sendBackupRouteKeepAlive_def
      prod_simps split: list.split option.split)

lemma P_main_timers [simp]:
  "P A \<Longrightarrow> P (registerMainRouteKeepAliveTimer E A)" "P A \<Longrightarrow> P (cancelMainRouteKeepAliveTimer A)"
  by (simp_all add: registerMainRouteKeepAliveTimer_def cancelMainRouteKeepAliveTimer_def prod_simps split: option.split)

lemma P_transports [simp]:
  "P (updateLocalBindingSnapshot E A) = P A" "P (snd (attachTransport E A)) = P A"
  "P (snd (setTransport E t A)) = P A"
  "P (snd (updateActiveKeepAliveTargetFromActualIpAddress A)) = P A"
  by (simp_all add: updateLocalBindingSnapshot_def attachTransport_def setTransport_def
      updateActiveKeepAliveTargetFromActualIpAddress_def prod_simps split: option.split)

lemma P_switchTransportInternal [simp]:
  "P (snd (snd (switchTransportInternal E t p m A))) = P A"
  by (simp add: switchTransportInternal_def prod_simps split: option.split)

lemma P_routes [simp]:
  "P A \<Longrightarrow> P (switchToBackupRoute E A)" "P A \<Longrightarrow> P (switchToMainRoute A)"
proof -
  have "P (iterateActiveBackServiceRoute (markTransportRebindRequired A))" if "P A" "\<not> isUsingBackupRoute A"
    using that by (intro to_backup) simp_all
  then show "P A \<Longrightarrow> P (switchToBackupRoute E A)"
    by (simp add: switchToBackupRoute_def Let_def)
  have "P (disableMainRouteFastProbe (disableActiveNoRouteFastProbe (B\<lparr>activeBackupRoute := ([], No_Addr)\<rparr>)))"
    if "P B" for B
  proof -
    have "disableMainRouteFastProbe (disableActiveNoRouteFastProbe (B\<lparr>activeBackupRoute := ([], No_Addr)\<rparr>)) =
       (B\<lparr>activeBackupRoute := ([], No_Addr), mainRouteFastProbeEnabled := False\<rparr>)\<lparr>activeNoRouteFastProbeEnabled := False\<rparr>"
      by (simp add: disableMainRouteFastProbe_def disableActiveNoRouteFastProbe_def)
    then show ?thesis using to_main [OF that] by simp
  qed
  then show "P A \<Longrightarrow> P (switchToMainRoute A)"
    by (simp add: switchToMainRoute_def Let_def)
qed

lemma P_sendRegister [simp]: "P A \<Longrightarrow> P (snd (sendRegister E A))"
  by (simp add: sendRegister_def prod_simps)

lemma P_consume [simp]: "P (snd (consumeShouldRunStartupMainRouteProbe A)) = P A"
  by (simp add: consumeShouldRunStartupMainRouteProbe_def Let_def)

lemma P_back [simp]: "P (back_resolved ips A) = P A" "P (resolve_back E A r) = P A"
  by (simp_all add: back_resolved_def resolve_back_def Let_def split: list.split option.split)

lemma P_back_all [simp]: "P (foldl (resolve_back E) A rs) = P A"
  by (induction rs arbitrary: A) simp_all

lemma P_with:
  assumes k: "\<And>B. P B \<Longrightarrow> P (k B)"
  shows "P A \<Longrightarrow> P (switchRouteAndReregister_with k E b skip A)"
    and "P A \<Longrightarrow> P (doRegister2_with k E A)"
    and "P A \<Longrightarrow> P (service_resolved_with k E ips A)"
    and "P A \<Longrightarrow> P (host_resolved_with k E ips A)"
    and "P A \<Longrightarrow> P (doRegister_with k E A)"
proof -
  show switch: "P A \<Longrightarrow> P (switchRouteAndReregister_with k E b skip A)" for A b skip
    by (simp add: switchRouteAndReregister_with_def prod_simps k)
  have startup: "P A \<Longrightarrow> P (sendStartupMainRouteProbe_with k E A)" for A
    by (simp add: sendStartupMainRouteProbe_with_def startup_failed_with_def Let_def switch)
  show two: "P A \<Longrightarrow> P (doRegister2_with k E A)" for A
    by (simp add: doRegister2_with_def prod_simps startup)
  show service: "P A \<Longrightarrow> P (service_resolved_with k E ips A)" for ips A
    by (simp add: service_resolved_with_def two split: list.split)
  show host: "P A \<Longrightarrow> P (host_resolved_with k E ips A)" for ips A
    by (simp add: host_resolved_with_def two split: list.split)
  show "P A \<Longrightarrow> P (doRegister_with k E A)"
    by (simp add: doRegister_with_def doRegister1_with_def Let_def service host split: option.split)
qed

lemma P_doRegister [simp]: "P A \<Longrightarrow> P (doRegister E A)"
  unfolding doRegister_def by (intro P_with(5))

lemma P_switchRoute [simp]:
  "P A \<Longrightarrow> P (switchRouteAndReregister E b skip A)" "P A \<Longrightarrow> P (doRegister2 E A)"
  by (simp_all add: switchRouteAndReregister_def doRegister2_def P_with)

lemma P_probe_results [simp]:
  "P A \<Longrightarrow> P (reregisterCurrentRoute E A)"
  "P A \<Longrightarrow> P (handleStartupMainRouteProbeResult E code A)"
  "P A \<Longrightarrow> P (handleActiveRouteOptionsSuccess E code A)"
  "P A \<Longrightarrow> P (handleActiveRouteOptionsFailure E code A)"
  by (simp_all add: reregisterCurrentRoute_def handleStartupMainRouteProbeResult_def handleActiveRouteOptionsSuccess_def
      handleActiveRouteOptionsFailure_def Let_def)

lemma P_recovery [simp]:
  "P (snd (scheduleRecoveryInternal E r st d A)) = P A" "P (snd (scheduleTransportRecovery E r st A)) = P A"
  "P A \<Longrightarrow> P (handleUdpRawKeepAliveSendFailure E st A)"
  by (simp_all add: scheduleRecoveryInternal_def scheduleTransportRecovery_def handleUdpRawKeepAliveSendFailure_def
      shouldSuppressRawKeepAliveRecovery_def prod_simps)

lemma P_callbacks [simp]:
  "P A \<Longrightarrow> P (keep_alive_on_complete E code A)" "P A \<Longrightarrow> P (backup_keep_alive_on_complete E code A)"
  "P A \<Longrightarrow> P (main_route_keep_alive_on_complete E code A)"
  "P A \<Longrightarrow> P (startup_main_route_probe_on_complete E code A)"
  by (simp_all add: keep_alive_on_complete_def backup_keep_alive_on_complete_def main_route_keep_alive_on_complete_def
      startup_main_route_probe_on_complete_def Let_def)

lemma P_rearm [simp]: "P (rearm_active E A) = P A"
  by (simp add: rearm_active_def prod_simps)

lemma P_timer_cbs [simp]:
  "P A \<Longrightarrow> P (main_route_keep_alive_timer_cb E A)" "P A \<Longrightarrow> P (backup_route_keep_alive_timer_cb E A)"
  "P A \<Longrightarrow> P (keep_alive_timer_cb E A)"
  by (simp_all add: main_route_keep_alive_timer_cb_def backup_route_keep_alive_timer_cb_def keep_alive_timer_cb_def prod_simps)

lemma P_calls [simp]:
  "P (map_calls f A) = P A" "P (rebindCallsToCurrentTransportForConnectivityChange A) = P A"
  by (simp_all add: map_calls_def rebindCallsToCurrentTransportForConnectivityChange_def split: option.split)

lemma P_reinviteActiveCalls [simp]: "P A \<Longrightarrow> P (reinviteActiveCalls E A)"
proof -
  have "P (B\<lparr>calls := cs, acc_log := acc_log B @ map (Redial \<circ> h) xs\<rparr>) = P B" for B cs h and xs :: "(string \<times> rcall \<times> bool) list"
  proof -
    have "list_all (\<lambda>ev. \<not> is_signal ev) (map (Redial \<circ> h) xs)" by (simp add: list_all_iff)
    from quiet [OF this, of "B\<lparr>calls := cs\<rparr>"] show ?thesis by simp
  qed
  then show "P A \<Longrightarrow> P (reinviteActiveCalls E A)" by (simp add: reinviteActiveCalls_def Let_def split: option.split)
qed

lemma P_connectivity [simp]:
  "P A \<Longrightarrow> P (runPostRegisterRecoverySync E A)" "P A \<Longrightarrow> P (prepareTransportReset E b A)"
  "P A \<Longrightarrow> P (prepareConnectivityRecovery E A)" "P A \<Longrightarrow> P (handleConnectivityChangedForced E r A)"
  "P A \<Longrightarrow> P (schedulePendingConnectivityRecovery E A)" "P A \<Longrightarrow> P (connectivityChanged E A)"
  by (simp_all add: runPostRegisterRecoverySync_def prepareTransportReset_def prepareConnectivityRecovery_def
      handleConnectivityChangedForced_def schedulePendingConnectivityRecovery_def connectivityChanged_def
      dispatchPreparedConnectivityRecovery_def resetNetworkRuntimeStateForConnectivityChange_def Let_def)

lemma P_recoverTransport [simp]: "P A \<Longrightarrow> P (recoverTransport E r A)"
  by (simp add: recoverTransport_def prod_simps)

lemma P_transport_state [simp]:
  "P A \<Longrightarrow> P (onTransportStateChanged E s st A)" "P A \<Longrightarrow> P (snd (switchTransport E t A))"
  by (simp_all add: onTransportStateChanged_def switchTransport_def prod_simps)

lemma P_probe_actual [simp]: "P A \<Longrightarrow> P (probe_actual_address E A)"
  by (simp add: probe_actual_address_def prod_simps)

lemma P_onRegister_parts [simp]:
  "P A \<Longrightarrow> P (snd (onRegister_status E p A))" "P A \<Longrightarrow> P (snd (onRegister_code E p A))" "P A \<Longrightarrow> P (onRegister_end E p A)"
  by (simp_all add: onRegister_status_def onRegister_code_def onRegister_end_def prod_simps split: option.split)

lemma P_onRegister:
  assumes "P A" "rp_status p = 0 \<and> rp_code p div 100 = 2 \<Longrightarrow> P (onRegister_success E p A)"
  shows "P (onRegister E p A)"
  using assms by (simp add: onRegister_def prod_simps)

lemma P_unregister [simp]:
  "P A \<Longrightarrow> P (doUnregister E A)" "P A \<Longrightarrow> P (doUnregisterFireAndForget E A)"
  "P A \<Longrightarrow> P (auto_rereg_timer_fired E A)" "P A \<Longrightarrow> P (setKeepAliveInterval E n A)"
  "P A \<Longrightarrow> P (manager_sendRegister E b A)"
  by (simp_all add: doUnregister_def sendUnregister_def doUnregisterFireAndForget_def auto_rereg_timer_fired_def
      setKeepAliveInterval_def manager_sendRegister_def prod_simps split: option.split)

lemma P_exec: "P A \<Longrightarrow> \<not> may_finish r \<Longrightarrow> P (acc_exec E r A)"
  by (cases r)
    (auto simp: timer_fired_def probe_done_def resolved_def run_posted_def P_with intro!: P_onRegister
      split: acc_timer.split probe.split resolve_job.split posted.split)

end

section \<open>An invariant of all runs\<close>

text \<open>The state that the client was last told.\<close>

fun shown :: "registration_state \<Rightarrow> acc_event list \<Rightarrow> registration_state" where
  "shown s [] = s"
| "shown s (StateSignal t _ # evs) = shown t evs"
| "shown s (_ # evs) = shown s evs"

definition acc_ok :: "account \<Rightarrow> bool" where
  "acc_ok A \<longleftrightarrow>
     shown UNREGISTERED (acc_log A) = registrationState A \<and>
     (mainRouteFastProbeEnabled A \<longrightarrow> isUsingBackupRoute A) \<and>
     (isUsingBackupRoute A \<longrightarrow> fst (activeBackupRoute A) \<in> set (backServiceRoutes (cfg A))) \<and>
     -1 \<le> activeBackupRouteIdx A"

lemma shown_snoc: "shown s (evs @ [ev]) = (case ev of StateSignal t _ \<Rightarrow> t | _ \<Rightarrow> shown s evs)"
  by (induction s evs rule: shown.induct) (auto split: acc_event.split)

lemma shown_quiet: "list_all (\<lambda>ev. \<not> is_signal ev) evs' \<Longrightarrow> shown s (evs @ evs') = shown s evs"
proof (induction evs' rule: rev_induct)
  case (snoc ev evs')
  then have "shown s (evs @ evs') = shown s evs" by simp
  then show ?case
    using snoc.prems shown_snoc [of s "evs @ evs'" ev] by (cases ev) auto
qed simp

lemma acc_ok_iterate:
  assumes "acc_ok A" "\<not> isUsingBackupRoute A"
  shows "acc_ok (iterateActiveBackServiceRoute A)"
proof -
  let ?routes = "backServiceRoutes (cfg A)"
  have "nat (if int (length ?routes) \<le> activeBackupRouteIdx A + 1 then 0 else activeBackupRouteIdx A + 1) < length ?routes"
    if "length ?routes \<noteq> 0"
    using that assms(1) by (auto simp: acc_ok_def)
  then show ?thesis
    using assms
    by (auto simp: iterateActiveBackServiceRoute_def acc_ok_def isUsingBackupRoute_def Let_def intro!: nth_mem)
qed

interpretation ok: account_property acc_ok
  by unfold_locales
    ((erule (1) acc_ok_iterate) |
     (auto simp: acc_ok_def isUsingBackupRoute_def setRegistrationState_def emitRegistrationStateSignal_def emit_def
       shown_snoc shown_quiet Let_def) [1])+

lemma acc_ok_success [simp]: "acc_ok A \<Longrightarrow> acc_ok (onRegister_success E p A)"
proof -
  have pend: "acc_ok (B\<lparr>pendingReinviteAfterRegister := b\<rparr>) = acc_ok B" for b B
    by (simp add: acc_ok_def isUsingBackupRoute_def)
  show "acc_ok A \<Longrightarrow> acc_ok (onRegister_success E p A)"
    by (simp add: onRegister_success_def resetOptionsRecoveryWindow_def resetRawKeepAliveRecoveryWindow_def Let_def pend
        split: option.split)
qed

lemma acc_ok_destroy [simp]: "acc_ok A \<Longrightarrow> acc_ok (destroy_account E A)"
proof -
  have pend: "acc_ok (B\<lparr>pendingReinviteAfterRegister := b\<rparr>) = acc_ok B" for b B
    by (simp add: acc_ok_def isUsingBackupRoute_def)
  show "acc_ok A \<Longrightarrow> acc_ok (destroy_account E A)" by (simp add: destroy_account_def Let_def pend)
qed

lemma acc_ok_exec: "acc_ok A \<Longrightarrow> acc_ok (acc_exec E r A)"
proof (cases "may_finish r")
  case True
  then show "acc_ok A \<Longrightarrow> acc_ok (acc_exec E r A)"
    by (cases r) (auto intro: ok.P_onRegister)
qed (rule ok.P_exec)

interpretation account_runs: relational_machine "\<lambda>A. \<exists>c b. A = acc_new c b" acc_step acc_ok
proof
  fix A assume "\<exists>c b. A = acc_new c b"
  then show "acc_ok A" by (auto simp: acc_new_def acc_ok_def isUsingBackupRoute_def)
next
  fix A B assume "acc_step A B" "acc_ok A"
  then show "acc_ok B" by (auto elim!: acc_step.cases intro: acc_ok_exec)
qed


end
