(* ===== verification/Sip_Failover.thy ===== *)
theory Sip_Failover
  imports Sip_Routes
begin

text \<open>
  What an account does when routes fail and come back, what it forgets and what it does not, how often it
  recovers, and three ways in which it gets lost.
\<close>

section \<open>Registering over a route\<close>

definition network_up :: "acc_env \<Rightarrow> bool" where
  "network_up E \<longleftrightarrow>
     broker_ok E \<and>
     (\<forall>A. bind_ok E A \<and> candidate E A \<noteq> None \<and> contact_ok E A \<and> regc_ok E A \<and> regc_prepared E A \<and> regc_sent E A)"

lemma setTransport_up:
  assumes "network_up E"
  shows "fst (setTransport E t A)"
  using assms by (simp add: setTransport_def attachTransport_def network_up_def prod_simps)

lemma switchTransport_up:
  assumes "network_up E" "t \<noteq> TLS"
  shows "fst (switchTransportInternal E t p m A)"
  using assms setTransport_up [OF assms(1)]
  by (auto simp: switchTransportInternal_def network_up_def prod_simps split: option.split)

lemma sendRegister_up:
  assumes "network_up E" "isUsable A"
  shows "fst (sendRegister E A)" "RegisterSent (regc_created A) (getActiveServiceRoute A) \<in> set (acc_log (snd (sendRegister E A)))"
    "regc (snd (sendRegister E A)) = Some (regc_created A)" "registrationState (snd (sendRegister E A)) = REG_TRYING"
  using assms
  by (auto simp: sendRegister_def network_up_def prod_simps setRegistrationInfo_def destroyRegistrationInfo_def emit_def
      setRegistrationState_def getActiveServiceRoute_def isUsingBackupRoute_def hasBackServiceRoutes_def split: option.split)

text \<open>What the registration leaves alone before the request is sent.\<close>

definition reg_part :: "account \<Rightarrow> nat \<times> nat option \<times> registration_state \<times> acc_event list \<times> bool" where
  "reg_part A = (regc_created A, regc A, registrationState A, acc_log A, skipMainRouteStartupProbeOnce A)"

lemma reg_part_transport [simp]:
  "reg_part (snd (setTransport E t A)) = reg_part A"
  "reg_part (snd (snd (switchTransportInternal E tt p m A))) = reg_part A"
proof -
  have attach: "reg_part (snd (attachTransport E B)) = reg_part B" for B
    by (simp add: attachTransport_def updateLocalBindingSnapshot_def markTransportRebindRequired_def reg_part_def Let_def
        split: option.split)
  then show "reg_part (snd (setTransport E t A)) = reg_part A" for t A
    by (simp add: setTransport_def prod_simps) (simp add: reg_part_def)
  then show "reg_part (snd (snd (switchTransportInternal E tt p m A))) = reg_part A"
    by (simp add: switchTransportInternal_def markTransportRebindRequired_def prod_simps split: option.split)
      (simp add: reg_part_def)
qed

lemma reg_part_back [simp]:
  "reg_part (resolve_back E A r) = reg_part A" "reg_part (foldl (resolve_back E) A rs) = reg_part A"
proof -
  show one: "reg_part (resolve_back E A r) = reg_part A" for A r
    by (simp add: resolve_back_def back_resolved_def startBackupKeepAliveAfterRegister_def
        cancelBackupRouteKeepAliveTimer_def cancel_timer_def reg_part_def Let_def split: option.split list.split)
  show "reg_part (foldl (resolve_back E) A rs) = reg_part A"
    by (induction rs arbitrary: A) (simp_all add: one)
qed

lemma doRegister2_sends:
  fixes k :: "account \<Rightarrow> account" and E :: acc_env and A :: account
  assumes up: "network_up E" and A: "isUsable A" "transport_config (cfg A) \<noteq> TLS"
    "isUsingBackupRoute A \<or> skipMainRouteStartupProbeOnce A"
  defines "B \<equiv> doRegister2_with k E A"
  shows "RegisterSent (regc_created A) (getActiveServiceRoute A) \<in> set (acc_log B)"
    "regc B = Some (regc_created A)" "registrationState B = REG_TRYING" "route_part B = route_part A"
proof -
  let ?A1 = "snd (snd (switchTransportInternal E (transport_config (cfg A)) False False A))"
  let ?A2 = "snd (consumeShouldRunStartupMainRouteProbe ?A1)"
  have r1: "route_part ?A1 = route_part A" "reg_part ?A1 = reg_part A" by simp_all
  then have skip: "skipMainRouteStartupProbeOnce ?A1 = skipMainRouteStartupProbeOnce A" by (simp add: reg_part_def)
  have r2: "route_part ?A2 = route_part A" and reg2: "regc_created ?A2 = regc_created A"
    using r1 by (simp_all add: consumeShouldRunStartupMainRouteProbe_def Let_def reg_part_def)
  have "\<not> fst (consumeShouldRunStartupMainRouteProbe ?A1)"
    using A(3) skip route_part_eqD(6) [OF r1(1)]
    by (auto simp: consumeShouldRunStartupMainRouteProbe_def shouldUseStartupMainRouteProbe_def Let_def)
  then have "B = snd (sendRegister E ?A2)"
    using switchTransport_up [OF up A(2)] sendRegister_up(1) [OF up, of ?A2] A(1) route_part_eqD(7) [OF r2]
    by (simp add: B_def doRegister2_with_def prod_simps)
  moreover have "getActiveServiceRoute ?A2 = getActiveServiceRoute A"
    using route_part_eqD(1,3,6,9) [OF r2] by (simp add: getActiveServiceRoute_def)
  ultimately show "RegisterSent (regc_created A) (getActiveServiceRoute A) \<in> set (acc_log B)"
    "regc B = Some (regc_created A)" "registrationState B = REG_TRYING" "route_part B = route_part A"
    using sendRegister_up(2-4) [OF up, of ?A2] A(1) route_part_eqD(7) [OF r2] r2 reg2 by simp_all
qed

lemma doRegister_sends:
  assumes up: "network_up E" and A: "isUsable A" "transport_config (cfg A) \<noteq> TLS" "hasServiceRoute A"
    "isUsingBackupRoute A \<or> skipMainRouteStartupProbeOnce A"
    and name: "\<And>B. \<exists>ip ips. resolve_now E B (serviceRoute (cfg A)) = Some (ip # ips)"
  defines "B \<equiv> doRegister E A"
  shows "RegisterSent (regc_created A) (getActiveServiceRoute A) \<in> set (acc_log B)"
    "regc B = Some (regc_created A)" "registrationState B = REG_TRYING" "route_part B = route_part A"
proof -
  let ?k = "doRegister_with (\<lambda>A. A) E"
  let ?A1 = "setRegistrationState REG_TRYING 0 A"
  have r1: "route_part ?A1 = route_part A" by simp
  have same: "regc_created ?A1 = regc_created A" "skipMainRouteStartupProbeOnce ?A1 = skipMainRouteStartupProbeOnce A"
    by (simp_all add: setRegistrationState_def emit_def Let_def)
  obtain ip ips where ip: "resolve_now E ?A1 (serviceRoute (cfg A)) = Some (ip # ips)" using name by blast
  let ?A2 = "?A1\<lparr>serviceRouteIp := ip\<rparr>"
  have r2: "route_part ?A2 = route_part A" using r1 by simp
  let ?C = "doRegister2_with ?k E ?A2"
  have C: "RegisterSent (regc_created ?A2) (getActiveServiceRoute ?A2) \<in> set (acc_log ?C)"
    "regc ?C = Some (regc_created ?A2)" "registrationState ?C = REG_TRYING" "route_part ?C = route_part ?A2"
    using doRegister2_sends [OF up, of ?A2 ?k] A same route_part_eqD(1,6,7) [OF r2] by simp_all
  have "B = foldl (resolve_back E) (?C\<lparr>backServiceRouteIps := []\<rparr>) (backServiceRoutes (cfg ?C))"
    using A(1,3) ip route_part_eqD(1,8) [OF r1]
    by (simp add: B_def doRegister_def doRegister_with_def doRegister1_with_def service_resolved_with_def Let_def)
  then have "reg_part B = reg_part (?C\<lparr>backServiceRouteIps := []\<rparr>)" "route_part B = route_part ?C" by simp_all
  moreover have "getActiveServiceRoute ?A2 = getActiveServiceRoute A"
    using route_part_eqD(1,3,6,9) [OF r2] by (simp add: getActiveServiceRoute_def)
  ultimately show "RegisterSent (regc_created A) (getActiveServiceRoute A) \<in> set (acc_log B)"
    "regc B = Some (regc_created A)" "registrationState B = REG_TRYING" "route_part B = route_part A"
    using C same r2 by (simp_all add: reg_part_def)
qed

section \<open>Failover and the way back\<close>

definition next_backup :: "account \<Rightarrow> nat" where
  "next_backup A = nat (if int (length (backServiceRoutes (cfg A))) \<le> activeBackupRouteIdx A + 1 then 0
                        else activeBackupRouteIdx A + 1)"

definition backups_resolved :: "account \<Rightarrow> bool" where
  "backups_resolved A \<longleftrightarrow>
     backServiceRoutes (cfg A) \<noteq> [] \<and> [] \<notin> set (backServiceRoutes (cfg A)) \<and>
     length (backServiceRouteIps A) = length (backServiceRoutes (cfg A))"

lemma switchToBackupRoute_chooses:
  fixes E :: acc_env and A :: account
  assumes "acc_ok A" "backups_resolved A" "\<not> isUsingBackupRoute A"
  defines "B \<equiv> switchToBackupRoute E A"
  shows "activeBackupRoute B = (backServiceRoutes (cfg A) ! next_backup A, backServiceRouteIps A ! next_backup A)"
    "cfg B = cfg A" "active B = active A" "isShuttingDown B = isShuttingDown A" "isUsingBackupRoute B"
proof -
  let ?I = "iterateActiveBackServiceRoute (markTransportRebindRequired A)"
  have "next_backup A < length (backServiceRoutes (cfg A))"
    using assms(1,2) by (auto simp: next_backup_def acc_ok_def backups_resolved_def)
  then have ne: "backServiceRoutes (cfg A) ! next_backup A \<noteq> []"
    using assms(2) nth_mem unfolding backups_resolved_def by metis
  have "route_part B = route_part ?I"
    using assms(2,3) by (simp add: B_def switchToBackupRoute_def Let_def backups_resolved_def hasBackServiceRoutes_def)
  note I = route_part_eqD(1-5) [OF this]
  show "activeBackupRoute B = (backServiceRoutes (cfg A) ! next_backup A, backServiceRouteIps A ! next_backup A)"
    "cfg B = cfg A" "active B = active A" "isShuttingDown B = isShuttingDown A"
    using assms(2)
    by (simp_all add: I iterateActiveBackServiceRoute_def markTransportRebindRequired_def next_backup_def backups_resolved_def Let_def)
  then show "isUsingBackupRoute B" using ne by (simp add: isUsingBackupRoute_def)
qed

definition name_resolves :: "acc_env \<Rightarrow> string \<Rightarrow> bool" where
  "name_resolves E name \<longleftrightarrow> (\<forall>A. \<exists>ip ips. resolve_now E A name = Some (ip # ips))"

definition can_switch :: "account \<Rightarrow> bool" where
  "can_switch A \<longleftrightarrow> isUsable A \<and> \<not> isShuttingDown A \<and> \<not> routeSwitchPending A \<and> hasServiceRoute A \<and>
     transport_config (cfg A) \<noteq> TLS"

lemma doRegister_on_backup_frame:
  assumes "isUsingBackupRoute A"
  shows "route_part (doRegister E A) = route_part A"
proof -
  have two: "route_part (doRegister2_with k E B) = route_part B" if "isUsingBackupRoute B" for k B
    using that consume_on_backup [of "snd (snd (switchTransportInternal E (transport_config (cfg B)) False False B))"]
    by (simp add: doRegister2_with_def prod_simps)
      (simp add: consumeShouldRunStartupMainRouteProbe_def Let_def)
  have "route_part (service_resolved_with k E ips B) = route_part B" "route_part (host_resolved_with k E ips B) = route_part B"
    if "isUsingBackupRoute B" for k ips B
    using that two by (auto simp: service_resolved_with_def host_resolved_with_def split: list.split)
  then show ?thesis
    using assms by (simp add: doRegister_def doRegister_with_def doRegister1_with_def Let_def split: option.split)
qed

lemma switch_to_backup_works:
  fixes E :: acc_env and A :: account
  assumes "acc_ok A" "backups_resolved A" "\<not> isUsingBackupRoute A" "can_switch A"
  defines "B \<equiv> switchRouteAndReregister E True False A"
  shows "activeBackupRoute B = (backServiceRoutes (cfg A) ! next_backup A, backServiceRouteIps A ! next_backup A)"
    "isUsingBackupRoute B" "\<not> routeSwitchPending B"
    "network_up E \<Longrightarrow> name_resolves E (serviceRoute (cfg A)) \<Longrightarrow>
       registrationState B = REG_TRYING \<and> (\<exists>r. regc B = Some r \<and> RegisterSent r (fst (activeBackupRoute B)) \<in> set (acc_log B))"
proof -
  let ?A1 = "A\<lparr>routeSwitchPending := True\<rparr>"
  let ?S = "switchToBackupRoute E ?A1"
  let ?D = "destroyRegistrationInfo ?S"
  have S: "activeBackupRoute ?S = (backServiceRoutes (cfg A) ! next_backup A, backServiceRouteIps A ! next_backup A)"
    "cfg ?S = cfg A" "active ?S = active A" "isShuttingDown ?S = isShuttingDown A" "isUsingBackupRoute ?S"
    using switchToBackupRoute_chooses [of ?A1 E] assms(1-3) by (simp_all add: backups_resolved_def next_backup_def)
  have D: "route_part ?D = route_part ?S" by simp
  have B: "B = (doRegister E ?D)\<lparr>routeSwitchPending := False\<rparr>"
    using assms(3,4) S(5)
    by (simp add: B_def switchRouteAndReregister_def switchRouteAndReregister_with_def prod_simps can_switch_def)
  have "route_part B = route_part ?S"
    using doRegister_on_backup_frame [of ?D E] S(5) by (simp add: B)
  note R = route_part_eqD [OF this]
  show "activeBackupRoute B = (backServiceRoutes (cfg A) ! next_backup A, backServiceRouteIps A ! next_backup A)"
    "isUsingBackupRoute B" "\<not> routeSwitchPending B"
    using R S by (simp_all add: B)
  assume up: "network_up E" "name_resolves E (serviceRoute (cfg A))"
  have "getActiveServiceRoute ?D = fst (activeBackupRoute B)"
    using R(3) S route_part_eqD(1,3,6) [OF D] assms(2)
    by (simp add: getActiveServiceRoute_def hasBackServiceRoutes_def backups_resolved_def)
  then show "registrationState B = REG_TRYING \<and> (\<exists>r. regc B = Some r \<and> RegisterSent r (fst (activeBackupRoute B)) \<in> set (acc_log B))"
    using doRegister_sends [OF up(1), of ?D] up(2) assms(4) S route_part_eqD [OF D]
    by (auto simp: B can_switch_def name_resolves_def isUsable_def hasServiceRoute_def)
qed

text \<open>
  C6: failover. Take any reachable state in which the account is usable and registered over its main route, with
  backup routes whose names are resolved, and let the probe of the main route get a final answer other than 200. Then
  the account uses the next backup route, in turn, with the address at the same position, probes the main route fast, and, if the
  network works and the name of the main route resolves, has sent a registration over the backup route.
\<close>

theorem failing_main_route_is_left:
  fixes E :: acc_env and A :: account
  assumes "acc_step\<^sup>*\<^sup>* (acc_new c b) A" and "can_switch A" "backups_resolved A" "\<not> isUsingBackupRoute A"
    "registrationState A \<noteq> REG_TRYING" and "200 < code"
  defines "B \<equiv> keep_alive_on_complete E code A"
  shows "activeBackupRoute B = (backServiceRoutes (cfg A) ! next_backup A, backServiceRouteIps A ! next_backup A) \<and>
    isUsingBackupRoute B \<and> mainRouteFastProbeEnabled B \<and>
    (network_up E \<and> name_resolves E (serviceRoute (cfg A)) \<longrightarrow>
       registrationState B = REG_TRYING \<and> (\<exists>r. regc B = Some r \<and> RegisterSent r (fst (activeBackupRoute B)) \<in> set (acc_log B)))"
proof -
  let ?A1 = "disableActiveNoRouteFastProbe (A\<lparr>mainRouteAvailable := False\<rparr>)"
  let ?S = "switchRouteAndReregister E True False ?A1"
  have fields: "cfg ?A1 = cfg A" "activeBackupRouteIdx ?A1 = activeBackupRouteIdx A" "backServiceRouteIps ?A1 = backServiceRouteIps A"
    "active ?A1 = active A" "isShuttingDown ?A1 = isShuttingDown A" "routeSwitchPending ?A1 = routeSwitchPending A"
    "activeBackupRoute ?A1 = activeBackupRoute A"
    by (simp_all add: disableActiveNoRouteFastProbe_def)
  have ok: "acc_ok ?A1" using account_runs.reachable_inv assms(1) by fastforce
  have A1: "backups_resolved ?A1" "\<not> isUsingBackupRoute ?A1" "can_switch ?A1" "next_backup ?A1 = next_backup A"
    using assms(2-4) fields
    by (auto simp: backups_resolved_def can_switch_def isUsingBackupRoute_def isUsable_def hasServiceRoute_def next_backup_def)
  have dual: "getKeepAliveTopology A = ServiceRouteWithBackup"
    using assms(2,3) by (simp add: getKeepAliveTopology_def resolveKeepAliveTopology_def can_switch_def backups_resolved_def
        hasBackServiceRoutes_def)
  have fails: "shouldEnableActiveNoRouteFastProbeForStatusCode code" "\<not> isOptionsSuccess200 code"
    using assms(6) by (simp_all add: shouldEnableActiveNoRouteFastProbeForStatusCode_def isOptionsSuccess200_def sip_codes)
  have B: "B = (enableMainRouteFastProbe E ?S)\<lparr>ka_options_pending := False\<rparr>"
    using fails dual assms(4,5) by (simp add: B_def keep_alive_on_complete_def handleActiveRouteOptionsFailure_def Let_def)
  note S = switch_to_backup_works [OF ok A1(1,2,3), of E]
  have "route_part B = route_part ?S" by (simp add: B)
  note R = route_part_eqD [OF this]
  have route: "activeBackupRoute B = (backServiceRoutes (cfg A) ! next_backup A, backServiceRouteIps A ! next_backup A)"
    using R(3) S(1) fields A1(4) by simp
  have "mainRouteFastProbeEnabled (enableMainRouteFastProbe E ?S)"
    using S(2) by (simp add: enableMainRouteFastProbe_def rescheduleMainRouteProbeNow_def schedule_timer_def cancel_timer_def prod_simps)
  then have fast: "isUsingBackupRoute B \<and> mainRouteFastProbeEnabled B" using S(2) R(6) by (simp add: B)
  have "acc_log B = acc_log ?S" "regc B = regc ?S" "registrationState B = registrationState ?S"
    by (simp_all add: B enableMainRouteFastProbe_def rescheduleMainRouteProbeNow_def schedule_timer_def cancel_timer_def prod_simps)
  then have "network_up E \<and> name_resolves E (serviceRoute (cfg A)) \<longrightarrow>
       registrationState B = REG_TRYING \<and> (\<exists>r. regc B = Some r \<and> RegisterSent r (fst (activeBackupRoute B)) \<in> set (acc_log B))"
    using S(4) R(3) fields by simp
  with route fast show ?thesis by blast
qed


section \<open>Recoveries are rationed\<close>

text \<open>
  Attempts at increasing times, with the deque that \<^verbatim>\<open>shouldSuppressOptionsRecoveryAttempt\<close> keeps; the result is the list of the times at
  which an attempt was allowed.
\<close>

fun allowed_attempts :: "nat \<Rightarrow> int \<Rightarrow> int list \<Rightarrow> int list \<Rightarrow> int list" where
  "allowed_attempts m w q [] = []"
| "allowed_attempts m w q (t # ts) =
     (let (suppress, q') = shouldSuppressOptionsRecoveryAttempt m w t q
      in (if suppress then [] else [t]) @ allowed_attempts m w q' ts)"

text \<open>The attempts of a window that ends at the last one so far: what was allowed before, and the deque.\<close>

definition covers :: "nat \<Rightarrow> int \<Rightarrow> int list \<Rightarrow> int list \<Rightarrow> int \<Rightarrow> bool" where
  "covers m w past q now \<longleftrightarrow>
     sorted (past :: int list) \<and> (\<forall>t \<in> set past. t \<le> now) \<and> (\<exists>dropped. past = dropped @ q \<and> (\<forall>t \<in> set dropped. t < now - w)) \<and>
     length q \<le> m \<and>
     (\<forall>s. length (filter (\<lambda>t. s \<le> t \<and> t \<le> s + w) past) \<le> m)"

lemma dropWhile_split: "\<exists>d. q = d @ dropWhile P q \<and> (\<forall>t \<in> set d. P t)"
  using takeWhile_dropWhile_id [of P q] set_takeWhileD by metis

lemma covers_step:
  assumes c: "covers m w past q now" and "now \<le> t" "0 \<le> w"
    and r: "shouldSuppressOptionsRecoveryAttempt m w t q = (suppress, q')"
  shows "covers m w (past @ (if suppress then [] else [t])) q' t"
proof -
  let ?kept = "dropWhile (\<lambda>u. u < t - w) q"
  obtain d where d: "past = d @ q" "\<forall>u \<in> set d. u < now - w" using c by (auto simp: covers_def)
  obtain e where e: "q = e @ ?kept" "\<forall>u \<in> set e. u < t - w" using dropWhile_split [of q "\<lambda>u. u < t - w"] by blast
  have past: "past = (d @ e) @ ?kept" using d(1) e(1) by simp
  have old: "\<forall>u \<in> set (d @ e). u < t - w" using d(2) e(2) \<open>now \<le> t\<close> by auto
  have len: "length ?kept \<le> m" using c length_dropWhile_le [of "\<lambda>u. u < t - w" q] by (auto simp: covers_def)
  have le: "\<forall>u \<in> set past. u \<le> t" using c \<open>now \<le> t\<close> by (auto simp: covers_def)
  show ?thesis
  proof (cases "m \<le> length ?kept")
    case True
    then have q': "suppress" "q' = ?kept" using r by (auto simp: shouldSuppressOptionsRecoveryAttempt_def Let_def)
    have "\<exists>dr. past = dr @ ?kept \<and> (\<forall>u \<in> set dr. u < t - w)" using past old by blast
    then show ?thesis using c q' le len by (auto simp: covers_def)
  next
    case False
    then have q': "\<not> suppress" "q' = ?kept @ [t]" using r by (auto simp: shouldSuppressOptionsRecoveryAttempt_def Let_def)
    have few: "length (filter (\<lambda>u. s \<le> u \<and> u \<le> s + w) (past @ [t])) \<le> m" for s
    proof (cases "s \<le> t \<and> t \<le> s + w")
      case True
      have "\<not> s \<le> u" if "u \<in> set (d @ e)" for u using bspec [OF old that] True by linarith
      then have "filter (\<lambda>u. s \<le> u \<and> u \<le> s + w) (d @ e) = []" by (auto simp: filter_empty_conv)
      then have "filter (\<lambda>u. s \<le> u \<and> u \<le> s + w) past = filter (\<lambda>u. s \<le> u \<and> u \<le> s + w) ?kept"
        using past by (metis append_Nil filter_append)
      moreover have "length (filter (\<lambda>u. s \<le> u \<and> u \<le> s + w) ?kept) < m"
        using False length_filter_le [of "\<lambda>u. s \<le> u \<and> u \<le> s + w" ?kept] by linarith
      ultimately show ?thesis using True by simp
    qed (use c in \<open>auto simp: covers_def\<close>)
    have "sorted (past @ [t])" using c le by (auto simp: covers_def sorted_append)
    moreover have "past @ [t] = (d @ e) @ (?kept @ [t])" using past by simp
    then have "\<exists>dr. past @ [t] = dr @ (?kept @ [t]) \<and> (\<forall>u \<in> set dr. u < t - w)" using old by blast
    ultimately show ?thesis using q' le few False by (auto simp: covers_def)
  qed
qed

lemma covers_all:
  assumes "covers m w past q now" "sorted (now # ts)" "0 \<le> w"
  shows "length (filter (\<lambda>t. s \<le> t \<and> t \<le> s + w) (past @ allowed_attempts m w q ts)) \<le> m"
  using assms
proof (induction ts arbitrary: past q now)
  case (Cons t ts)
  obtain b q' where r: "shouldSuppressOptionsRecoveryAttempt m w t q = (b, q')" by fastforce
  have "covers m w (past @ (if b then [] else [t])) q' t" using covers_step [OF Cons.prems(1) _ _ r] Cons.prems(2,3) by simp
  from Cons.IH [OF this] Cons.prems(2,3) show ?case by (simp add: r)
qed (auto simp: covers_def)

text \<open>
  However often the sending of a keep-alive packet fails, at whatever times, the deque lets at most three
  attempts pass in any span of sixty seconds, wherever the span begins.
\<close>

theorem recoveries_are_rationed:
  assumes "sorted moments"
  shows "length (filter (\<lambda>t. s \<le> t \<and> t \<le> s + RECOVERY_WINDOW_MS)
           (allowed_attempts RECOVERY_MAX_ATTEMPTS RECOVERY_WINDOW_MS [] moments)) \<le> 3"
proof (cases moments)
  case (Cons t ts)
  have "covers 3 60000 [] [] t" by (simp add: covers_def)
  from covers_all [OF this, of moments s] assms Cons show ?thesis
    by (simp add: RECOVERY_WINDOW_MS_def RECOVERY_MAX_ATTEMPTS_def)
qed simp

theorem recoveries_are_rationed_witness:
  "length (filter (\<lambda>t. 1 \<le> t \<and> t \<le> 1 + RECOVERY_WINDOW_MS)
     (allowed_attempts RECOVERY_MAX_ATTEMPTS RECOVERY_WINDOW_MS [] [1, 2, 3, 4, 70000])) \<le> 3"
  by (rule recoveries_are_rationed) simp

section \<open>A re-invitation that waits for the registration\<close>

interpretation waits: account_property pendingReinviteAfterRegister
  by unfold_locales
    (simp_all add: setRegistrationState_def emitRegistrationStateSignal_def emit_def iterateActiveBackServiceRoute_def Let_def)

definition reinvited :: "acc_env \<Rightarrow> account \<Rightarrow> account \<Rightarrow> bool" where
  "reinvited E A B \<longleftrightarrow>
     (\<exists>t hdr. transport A = Some t \<and> hdr \<noteq> [] \<and>
        calls B = map (\<lambda>(i, c). (i, fst (reinvite_call (call_env E) (tp_id t) hdr c))) (calls A))"

definition link_part :: "account \<Rightarrow> sip_transport option \<times> (string \<times> rcall) list" where
  "link_part A = (transport A, calls A)"

lemma link_frames [simp]:
  "link_part (setRegistrationState s c A) = link_part A" "link_part (resetAutoRegistration A) = link_part A"
  "link_part (emit ev A) = link_part A" "link_part (disableActiveNoRouteFastProbe A) = link_part A"
  "link_part (resetOptionsRecoveryWindow A) = link_part A" "link_part (resetRawKeepAliveRecoveryWindow A) = link_part A"
  "link_part (runPostRegisterRecoverySync E A) = link_part A" "link_part (registerKeepAliveTimer E A) = link_part A"
  "link_part (startBackupKeepAliveAfterRegister A) = link_part A" "link_part (kaTarget_update f A) = link_part A"
  "link_part (pendingReinviteAfterRegister_update g A) = link_part A" "link_part (mainRouteAvailable_update g A) = link_part A"
  by (simp_all add: link_part_def setRegistrationState_def resetAutoRegistration_def emit_def disableActiveNoRouteFastProbe_def
      resetOptionsRecoveryWindow_def resetRawKeepAliveRecoveryWindow_def runPostRegisterRecoverySync_def
      registerKeepAliveTimer_def startBackupKeepAliveAfterRegister_def cancelBackupRouteKeepAliveTimer_def schedule_timer_def
      cancel_timer_def prod_simps)

lemma reinviteActiveCalls_cases:
  "pendingReinviteAfterRegister (reinviteActiveCalls E A) \<or> calls A = [] \<or> reinvited E A (reinviteActiveCalls E A)"
  by (auto simp: reinviteActiveCalls_def reinvited_def Let_def split: option.split)

lemma reinvited_frame: "link_part A' = link_part A \<Longrightarrow> calls B' = calls B \<Longrightarrow> reinvited E A' B \<Longrightarrow> reinvited E A B'"
  by (simp add: reinvited_def link_part_def)

lemma onRegister_end_keeps:
  "pendingReinviteAfterRegister (onRegister_end E p A) = pendingReinviteAfterRegister A"
  "calls (onRegister_end E p A) = calls A"
  by (simp_all add: onRegister_end_def scheduleReregistration_def schedule_timer_def cancel_timer_def prod_simps split: option.split)

lemma onRegister_success_reinvites:
  fixes E :: acc_env and p :: reg_result and A :: account
  assumes "pendingReinviteAfterRegister A"
  defines "B \<equiv> onRegister_success E p A"
  shows "pendingReinviteAfterRegister B \<or> calls A = [] \<or> reinvited E A B"
proof (cases "rp_fake p \<or> rp_expiration p < 1")
  case True
  then show ?thesis using assms by (auto simp: B_def onRegister_success_def Let_def resetAutoRegistration_def)
next
  case False
  let ?A2 = "\<lambda>X. if \<not> isUsingBackupRoute X \<and> hasServiceRoute X then X\<lparr>mainRouteAvailable := True\<rparr> else X"
  let ?A1 = "emit (ApplicationProxy (case rp_proxy p of None \<Rightarrow> [] | Some h \<Rightarrow> h)) (resetAutoRegistration A)"
  let ?A4 = "resetRawKeepAliveRecoveryWindow (resetOptionsRecoveryWindow
     (disableActiveNoRouteFastProbe (setRegistrationState REGISTERED (rp_code p) (?A2 ?A1))))"
  let ?A5 = "runPostRegisterRecoverySync E ?A4"
  let ?A6 = "?A5\<lparr>pendingReinviteAfterRegister := False\<rparr>"
  let ?A7 = "case rp_destination p of None \<Rightarrow> ?A6 | Some ip \<Rightarrow> ?A6\<lparr>kaTarget := (kaTarget ?A6)\<lparr>ka_socket := ip, ka_length := getLength ip\<rparr>\<rparr>"
  let ?A8 = "startBackupKeepAliveAfterRegister (registerKeepAliveTimer E ?A7)"
  have "pendingReinviteAfterRegister ?A4"
    using assms(1) by (simp add: resetAutoRegistration_def emit_def disableActiveNoRouteFastProbe_def setRegistrationState_def
        resetOptionsRecoveryWindow_def resetRawKeepAliveRecoveryWindow_def Let_def)
  then have "pendingReinviteAfterRegister ?A5"
    by (simp add: runPostRegisterRecoverySync_def emit_def Let_def)
  then have B: "B = reinviteActiveCalls E ?A8"
    using False unfolding B_def onRegister_success_def Let_def by simp
  have "link_part ?A8 = link_part A" by (simp split: option.split)
  with B obtain X where X: "B = reinviteActiveCalls E X" "link_part X = link_part A" by blast
  then have "calls X = calls A" by (simp add: link_part_def)
  with reinviteActiveCalls_cases [of E X] show ?thesis
    unfolding X(1) using reinvited_frame [OF X(2) refl] by auto
qed

text \<open>
  C14: re-invitations are not forgotten. While an account has noted that its calls are to be re-invited after the next
  registration, every operation, with any answers of the network, keeps the note, unless it is the account's own destructor or
  an accepted registration; an accepted registration either re-invites every call of the account over its transport, with a contact
  that is not empty, or keeps the note.
\<close>

theorem reinvitation_is_not_forgotten:
  fixes E :: acc_env and A :: account
  assumes "pendingReinviteAfterRegister A" "r \<noteq> Destroy"
  defines "B \<equiv> acc_exec E r A"
  shows "pendingReinviteAfterRegister B \<or>
     (\<exists>p. r = Reg_answer p \<and> rp_status p = 0 \<and> rp_code p div 100 = 2 \<and> (calls A = [] \<or> reinvited E A B))"
proof (cases "may_finish r")
  case True
  then obtain p where p: "r = Reg_answer p" "rp_status p = 0" "rp_code p div 100 = 2"
    using assms(2) by (cases r) auto
  then have "B = A \<or> B = onRegister_end E p (onRegister_success E p A)"
    by (auto simp: B_def onRegister_def)
  then show ?thesis
  proof
    assume "B = onRegister_end E p (onRegister_success E p A)"
    then have "pendingReinviteAfterRegister B = pendingReinviteAfterRegister (onRegister_success E p A)"
      "calls B = calls (onRegister_success E p A)"
      by (simp_all add: onRegister_end_keeps)
    then show ?thesis
      using onRegister_success_reinvites [OF assms(1), of E p] p by (metis reinvited_frame)
  qed (use assms(1) in simp)
next
  case False
  then show ?thesis using waits.P_exec [OF assms(1) False] by (simp add: B_def)
qed

section \<open>A network in which everything works\<close>

definition acc_do :: "account \<Rightarrow> acc_env \<times> acc_op \<Rightarrow> account" where
  "acc_do A e = (if acc_ready (snd e) A \<and> \<not> crashed A then acc_exec (fst e) (snd e) A else A)"

lemma acc_do_steps: "acc_step\<^sup>*\<^sup>* A (foldl acc_do A es)"
proof (induction es rule: rev_induct)
  case (snoc e es)
  then show ?case
    by (auto simp: acc_do_def intro: rtranclp.rtrancl_into_rtrancl acc_step.op)
qed simp

definition net_env :: acc_env where
  "net_env =
     \<lparr>now_ms = 1, resolve_now = \<lambda>_ name. Some [IPv4 name], timer_ok = \<lambda>_ _. True, create_ok = \<lambda>_ _. True,
      send_ok = \<lambda>_ _. True, raw_ok = \<lambda>_. True, broker_ok = True, endpoint_ok = True, bind_ok = \<lambda>_. True,
      candidate = \<lambda>_. Some \<lparr>tp_id = 1, tp_type = UDP\<rparr>, contact_ok = \<lambda>_. True, new_contact = \<lambda>_. ''c'',
      nat_contact = \<lambda>_. None, local_binding = \<lambda>_. None, regc_ok = \<lambda>_. True, regc_prepared = \<lambda>_. True,
      regc_sent = \<lambda>_. True, unregister_prepared = \<lambda>_. True, connected = \<lambda>_. True, jitter = 0, call_env = yes_env\<rparr>"

definition demo_cfg :: acc_config where
  "demo_cfg = \<lparr>hostname = ''h'', serviceRoute = ''m'', backServiceRoutes = [''b''], transport_config = UDP,
     keepAliveInterval = 25, keepAliveType = Options, enabled = True, allowIPAutoRewrite = True\<rparr>"

definition demo_answer :: "nat \<Rightarrow> int \<Rightarrow> reg_result" where
  "demo_answer r code = \<lparr>rp_regc = r, rp_status = 0, rp_code = code, rp_fake = False, rp_expiration = 3600, rp_rdata = True,
     rp_proxy = None, rp_destination = Some (IPv4 ''m'')\<rparr>"

definition demo_registered :: account where
  "demo_registered = foldl acc_do (acc_new demo_cfg False)
     [(net_env, Register), (net_env, Probe_done 0 200), (net_env, Reg_answer (demo_answer 0 200))]"

definition demo_on_backup :: account where
  "demo_on_backup = foldl acc_do demo_registered
     [(net_env, Reg_answer (demo_answer 0 404)), (net_env, Reg_answer (demo_answer 1 200))]"

lemma demo_reachable:
  "acc_step\<^sup>*\<^sup>* (acc_new demo_cfg False) demo_registered" "acc_step\<^sup>*\<^sup>* (acc_new demo_cfg False) demo_on_backup"
proof -
  show reg: "acc_step\<^sup>*\<^sup>* (acc_new demo_cfg False) demo_registered"
    unfolding demo_registered_def by (rule acc_do_steps)
  show "acc_step\<^sup>*\<^sup>* (acc_new demo_cfg False) demo_on_backup"
    unfolding demo_on_backup_def using reg acc_do_steps by (rule rtranclp_trans)
qed

lemma net_env_works: "network_up net_env" "name_resolves net_env name"
  by (simp_all add: network_up_def name_resolves_def net_env_def)

lemma demo_registered_facts:
  "can_switch demo_registered" "backups_resolved demo_registered" "\<not> isUsingBackupRoute demo_registered"
  "registrationState demo_registered \<noteq> REG_TRYING"
  by code_simp+

lemma demo_on_backup_facts:
  "can_switch demo_on_backup" "isUsingBackupRoute demo_on_backup" "registrationState demo_on_backup \<noteq> REG_TRYING"
  by code_simp+

theorem failing_main_route_is_left_witness:
  "isUsingBackupRoute (keep_alive_on_complete net_env 408 demo_registered) \<and>
   mainRouteFastProbeEnabled (keep_alive_on_complete net_env 408 demo_registered)"
  using failing_main_route_is_left [OF demo_reachable(1) demo_registered_facts, of 408 net_env] by simp



definition demo_waiting :: account where
  "demo_waiting = demo_registered\<lparr>pendingReinviteAfterRegister := True, calls := [(''1'', demo_talk)]\<rparr>"

theorem reinvitation_is_not_forgotten_witness:
  "pendingReinviteAfterRegister (acc_exec net_env (Reg_answer (demo_answer 0 200)) demo_waiting) \<or>
     (\<exists>p. Reg_answer (demo_answer 0 200) = Reg_answer p \<and> rp_status p = 0 \<and> rp_code p div 100 = 2 \<and>
        (calls demo_waiting = [] \<or>
         reinvited net_env demo_waiting (acc_exec net_env (Reg_answer (demo_answer 0 200)) demo_waiting)))"
  by (rule reinvitation_is_not_forgotten) (simp_all add: demo_waiting_def)

end
