(* ===== verification/Sip_Lost.thy ===== *)
theory Sip_Lost
  imports Sip_Failover
begin

text \<open>Ways in which an account gets lost, each with the operations that lead there.\<close>

section \<open>The timer that outlives its data\<close>

definition rereg_part :: "account \<Rightarrow> (acc_timer \<times> int) list \<times> bool \<times> bool" where
  "rereg_part A = (filter (\<lambda>x. fst x = Rereg_Timer) (heap A), rereg_user_data A, crashed A)"

lemma rereg_armed: "is_armed Rereg_Timer A \<longleftrightarrow> fst (rereg_part A) \<noteq> []"
  by (force simp: is_armed_def rereg_part_def filter_empty_conv)

lemma filter_other: "t \<noteq> u \<Longrightarrow> filter (\<lambda>x. fst x \<noteq> u \<and> fst x = t) xs = filter (\<lambda>x. fst x = t) xs"
  by (induction xs) auto

lemma rereg_frames [simp]:
  "t \<noteq> Rereg_Timer \<Longrightarrow> rereg_part (cancel_timer t A) = rereg_part A"
  "t \<noteq> Rereg_Timer \<Longrightarrow> rereg_part (snd (schedule_timer E t d A)) = rereg_part A"
  "rereg_part (emit ev A) = rereg_part A" "rereg_part (setRegistrationState s c A) = rereg_part A"
  "rereg_part (destroyRegistrationInfo A) = rereg_part A" "rereg_part (disableActiveNoRouteFastProbe A) = rereg_part A"
  "rereg_part (disableMainRouteFastProbe A) = rereg_part A"
  "rereg_part (kaTarget_update f A) = rereg_part A" "rereg_part (kaMainRoute_update f A) = rereg_part A"
  "rereg_part (kaBackupRoute_update f A) = rereg_part A" "rereg_part (mainRouteAvailable_update g A) = rereg_part A"
  "rereg_part (ka_options_pending_update g A) = rereg_part A" "rereg_part (ka_main_route_options_pending_update g A) = rereg_part A"
  "rereg_part (ka_backup_route_options_pending_update g A) = rereg_part A"
  "rereg_part (pendingBackupKeepAliveStart_update g A) = rereg_part A"
  "rereg_part (pendingReinviteAfterRegister_update g A) = rereg_part A" "rereg_part (calls_update cs A) = rereg_part A"
  "rereg_part (acc_log_update lg A) = rereg_part A" "rereg_part (contact_update ct A) = rereg_part A"
  by (simp_all add: rereg_part_def cancel_timer_def schedule_timer_def emit_def setRegistrationState_def
      destroyRegistrationInfo_def disableActiveNoRouteFastProbe_def disableMainRouteFastProbe_def filter_other Let_def
      split: option.split)

lemma rereg_timers [simp]:
  "rereg_part (cancelKeepAliveTimer A) = rereg_part A" "rereg_part (cancelMainRouteKeepAliveTimer A) = rereg_part A"
  "rereg_part (cancelBackupRouteKeepAliveTimer A) = rereg_part A" "rereg_part (registerKeepAliveTimer E A) = rereg_part A"
  "rereg_part (startBackupKeepAliveAfterRegister A) = rereg_part A"
  by (simp_all add: cancelKeepAliveTimer_def cancelMainRouteKeepAliveTimer_def cancelBackupRouteKeepAliveTimer_def
      registerKeepAliveTimer_def startBackupKeepAliveAfterRegister_def prod_simps)

lemma rereg_registered [simp]:
  "rereg_part (runPostRegisterRecoverySync E A) = rereg_part A" "rereg_part (reinviteActiveCalls E A) = rereg_part A"
  "rereg_part (resetOptionsRecoveryWindow A) = rereg_part A" "rereg_part (resetRawKeepAliveRecoveryWindow A) = rereg_part A"
  by (simp_all add: runPostRegisterRecoverySync_def reinviteActiveCalls_def map_calls_def resetOptionsRecoveryWindow_def
      resetRawKeepAliveRecoveryWindow_def Let_def split: option.split)
    (simp_all add: rereg_part_def emit_def)

lemma onRegister_success_rereg: "rereg_part (onRegister_success E p A) = rereg_part (resetAutoRegistration A)"
  by (simp add: onRegister_success_def Let_def split: option.split)

text \<open>
  C24: an accepted registration arms a trap. Let a retry of the registration be scheduled, and let the registrar accept
  a registration that was sent meanwhile for another reason: then the retry is still armed but its data are deleted, and when
  its time comes the callback follows a null pointer.
\<close>

theorem accepted_registration_arms_a_trap:
  fixes E E' :: acc_env and A :: account
  assumes "is_armed Rereg_Timer A" "regc A = Some (rp_regc p)" "\<not> isShuttingDown A" "\<not> crashed A"
    and "rp_status p = 0" "200 \<le> rp_code p" "rp_code p < 300" "rp_rdata p"
  defines "B \<equiv> onRegister E p A"
  shows "is_armed Rereg_Timer B \<and> \<not> crashed B \<and> crashed (acc_exec E' (Timer Rereg_Timer) B)"
proof -
  have "rp_code p div 100 = 2" using assms(6,7) by linarith
  then have B1: "B = onRegister_end E p (onRegister_success E p A)" using assms(2,3,5,6,7) by (simp add: B_def onRegister_def)
  have quiet: "rp_code p \<noteq> 408" "rp_code p \<noteq> 500" "rp_code p \<noteq> 502" "rp_code p \<noteq> 503" "rp_code p \<noteq> 504" "rp_code p div 100 \<noteq> 6"
    using assms(6,7) by auto
  have r: "rereg_part (onRegister_success E p A) = (filter (\<lambda>x. fst x = Rereg_Timer) (heap A), False, False)"
    using assms(4) unfolding onRegister_success_rereg by (simp add: resetAutoRegistration_def rereg_part_def)
  then have "\<not> crashed (onRegister_success E p A)" by (simp add: rereg_part_def)
  then have "rereg_part B = rereg_part (onRegister_success E p A)"
    using assms(8) quiet by (auto simp: B1 onRegister_end_def sip_codes Let_def split: option.split)
  then have B: "rereg_part B = (filter (\<lambda>x. fst x = Rereg_Timer) (heap A), False, False)" using r by simp
  moreover have "filter (\<lambda>x. fst x = Rereg_Timer) (heap A) \<noteq> []" using assms(1) by (simp add: rereg_armed rereg_part_def)
  ultimately have armed: "is_armed Rereg_Timer B \<and> \<not> crashed B" by (simp add: rereg_armed) (simp add: rereg_part_def)
  have "\<not> rereg_user_data B" using B by (simp add: rereg_part_def)
  then have "crashed (acc_exec E' (Timer Rereg_Timer) B)"
    by (simp add: timer_fired_def auto_rereg_timer_fired_def cancel_timer_def)
  with armed show ?thesis by blast
qed

text \<open>The registrar answers 500, the client registers again before the retry, and the registrar accepts.\<close>

definition demo_retrying :: account where
  "demo_retrying = foldl acc_do (acc_new demo_cfg False)
     [(net_env, Register), (net_env, Probe_done 0 200), (net_env, Reg_answer (demo_answer 0 500)),
      (net_env, Register), (net_env, Probe_done 0 200)]"

theorem accepted_registration_arms_a_trap_witness:
  "acc_step\<^sup>*\<^sup>* (acc_new demo_cfg False) demo_retrying \<and>
   crashed (acc_exec net_env (Timer Rereg_Timer) (onRegister net_env (demo_answer 1 200) demo_retrying))"
proof
  show "acc_step\<^sup>*\<^sup>* (acc_new demo_cfg False) demo_retrying"
    unfolding demo_retrying_def by (rule acc_do_steps)
  have "is_armed Rereg_Timer demo_retrying" "regc demo_retrying = Some 1" "\<not> isShuttingDown demo_retrying" "\<not> crashed demo_retrying"
    by code_simp+
  then show "crashed (acc_exec net_env (Timer Rereg_Timer) (onRegister net_env (demo_answer 1 200) demo_retrying))"
    by (intro accepted_registration_arms_a_trap [THEN conjunct2, THEN conjunct2]) (simp_all add: demo_answer_def)
qed

section \<open>A registration without an answer\<close>

lemma probe_actual_frame [simp]: "route_part (probe_actual_address E A) = route_part A"
  by (simp add: probe_actual_address_def prod_simps)


definition demo_plain :: account where
  "demo_plain = foldl acc_do (acc_new (demo_cfg\<lparr>serviceRoute := [], backServiceRoutes := []\<rparr>) False) [(net_env, Register)]"


section \<open>Stranded while registering\<close>

text \<open>
  Nothing of the account's own is under way: no timer, no request, no closure, no registration; at most
  names of backup routes are being resolved. Only the client or the network can wake it.
\<close>

definition stranded :: "account \<Rightarrow> bool" where
  "stranded A \<longleftrightarrow>
     registrationState A = REG_TRYING \<and> heap A = [] \<and> in_flight A = [] \<and> main_queue A = [] \<and> regc A = None \<and>
     list_all (\<lambda>(_, job). job = Back_Route) (resolving A)"

lemma stranded_back_resolved: "stranded A \<Longrightarrow> stranded (back_resolved ips A)"
  by (auto simp: stranded_def back_resolved_def startBackupKeepAliveAfterRegister_def cancelBackupRouteKeepAliveTimer_def
      cancel_timer_def Let_def split: list.split)

fun is_resolution :: "acc_op \<Rightarrow> bool" where
  "is_resolution (Resolved _ _) = True"
| "is_resolution _ = False"

lemma stranded_resolution:
  assumes "stranded A" "is_resolution (snd e)"
  shows "stranded (acc_do A e)"
proof (cases "acc_ready (snd e) A")
  case True
  then obtain k ips where e: "snd e = Resolved k ips" "k < length (resolving A)"
    using assms(2) by (cases "snd e") auto
  then have job: "snd (resolving A ! k) = Back_Route"
    using assms(1) nth_mem [OF e(2)] by (auto simp: stranded_def list_all_iff split_beta)
  have "stranded (A\<lparr>resolving := remove_nth k (resolving A)\<rparr>)"
    using assms(1) set_remove_nth [of k "resolving A"] by (auto simp: stranded_def list_all_iff)
  then show ?thesis
    using assms(1) e job by (simp add: acc_do_def resolved_def stranded_back_resolved)
qed (use assms(1) in \<open>simp add: acc_do_def\<close>)

lemma stranded_quiet [simp]:
  "stranded (markTransportRebindRequired A) = stranded A"
  "stranded A \<Longrightarrow> stranded (cancelBackupRouteKeepAliveTimer A)"
  "stranded (disableMainRouteFastProbe A) = stranded A" "stranded (disableActiveNoRouteFastProbe A) = stranded A"
  "stranded (snd (updateActiveKeepAliveTargetFromActualIpAddress A)) = stranded A"
  "stranded (A\<lparr>mainRouteAvailable := b\<rparr>) = stranded A" "stranded (A\<lparr>routeSwitchPending := b\<rparr>) = stranded A"
  "stranded (A\<lparr>startupMainRouteProbePending := b\<rparr>) = stranded A"
  "stranded A \<Longrightarrow> \<not> isUsingBackupRoute A \<Longrightarrow> stranded (registerMainRouteKeepAliveTimer E A)"
  by (simp_all add: stranded_def markTransportRebindRequired_def cancelBackupRouteKeepAliveTimer_def cancel_timer_def
      disableMainRouteFastProbe_def disableActiveNoRouteFastProbe_def updateActiveKeepAliveTargetFromActualIpAddress_def
      registerMainRouteKeepAliveTimer_def isUsingBackupRoute_def Let_def)

lemma stranded_resolutions: "stranded A \<Longrightarrow> list_all (\<lambda>e. is_resolution (snd e)) es \<Longrightarrow> stranded (foldl acc_do A es)"
  by (induction es arbitrary: A) (auto intro: stranded_resolution)

lemma strands_on_failure:
  fixes E :: acc_env and A :: account
  assumes "stranded A" "\<not> isUsingBackupRoute A" "hasBackServiceRoutes A"
    "length (backServiceRouteIps A) \<noteq> length (backServiceRoutes (cfg A))"
    and "code \<noteq> PJSIP_SC_OK" and "list_all (\<lambda>e. is_resolution (snd e)) es"
  shows "stranded (foldl acc_do (startup_main_route_probe_on_complete E code A) es)"
proof (rule stranded_resolutions)
  let ?A1 = "A\<lparr>startupMainRouteProbePending := False, mainRouteAvailable := False\<rparr>"
  define S where "S = switchToBackupRoute E (?A1\<lparr>routeSwitchPending := True\<rparr>)"
  have "iterateActiveBackServiceRoute (markTransportRebindRequired (?A1\<lparr>routeSwitchPending := True\<rparr>)) =
      markTransportRebindRequired (?A1\<lparr>routeSwitchPending := True\<rparr>)"
    using assms(4) by (simp add: iterateActiveBackServiceRoute_def markTransportRebindRequired_def Let_def)
  then have S: "\<not> isUsingBackupRoute S" "stranded S"
    using assms(1-4) by (simp_all add: S_def switchToBackupRoute_def hasBackServiceRoutes_def Let_def)
  define B where "B = switchRouteAndReregister E True False ?A1"
  have "B = ?A1 \<or> B = S\<lparr>routeSwitchPending := False\<rparr>"
    using assms(2) S(1) by (auto simp: B_def S_def switchRouteAndReregister_def switchRouteAndReregister_with_def)
  then have "stranded B" "\<not> isUsingBackupRoute B" using S assms(1,2) by auto
  moreover have "startup_main_route_probe_on_complete E code A = enableMainRouteFastProbe E B"
    using assms(5) by (simp add: startup_main_route_probe_on_complete_def handleStartupMainRouteProbeResult_def
        isOptionsSuccess200_def B_def)
  ultimately show "stranded (startup_main_route_probe_on_complete E code A)"
    by (simp add: enableMainRouteFastProbe_def)
qed (rule assms(6))

text \<open>
  C26: a failure of the main route at the wrong moment strands the account. Let an account be registering with its first
  probe of the main route answered, and let the address of a backup route still be unknown; if the answer is not 200, the
  account neither registers over a backup route nor tries again: it is left registering with nothing under way, also once
  all names are resolved.
\<close>

theorem failed_first_probe_strands_account:
  fixes E :: acc_env and A :: account
  assumes "registrationState A = REG_TRYING" "in_flight A = [Startup_Probe]" "heap A = []" "main_queue A = []" "regc A = None"
    "list_all (\<lambda>(_, job). job = Back_Route) (resolving A)" "\<not> isShuttingDown A"
    and "\<not> isUsingBackupRoute A" "hasBackServiceRoutes A"
    "length (backServiceRouteIps A) \<noteq> length (backServiceRoutes (cfg A))"
    and "code \<noteq> PJSIP_SC_OK" and "list_all (\<lambda>e. is_resolution (snd e)) es"
  shows "stranded (foldl acc_do (acc_exec E (Probe_done 0 code) A) es)"
proof -
  let ?A1 = "A\<lparr>in_flight := []\<rparr>"
  have "acc_exec E (Probe_done 0 code) A = startup_main_route_probe_on_complete E code ?A1"
    using assms(2,7) by (simp add: probe_done_def remove_nth_def)
  moreover have "stranded ?A1" using assms(1,3-6) by (simp add: stranded_def)
  ultimately show ?thesis
    using strands_on_failure [of ?A1 code es E] assms(8-12) by (simp add: hasBackServiceRoutes_def)
qed

text \<open>The name of the backup route takes longer than the first probe.\<close>

definition slow_env :: acc_env where
  "slow_env = net_env\<lparr>resolve_now := \<lambda>_ name. if name = ''m'' then Some [IPv4 name] else None\<rparr>"

definition demo_probing :: account where
  "demo_probing = acc_exec slow_env Register (acc_new demo_cfg False)"

theorem failed_first_probe_strands_account_witness:
  "stranded (foldl acc_do (acc_exec slow_env (Probe_done 0 408) demo_probing) [(net_env, Resolved 0 [IPv4 ''b''])])"
proof -
  have "registrationState demo_probing = REG_TRYING" "in_flight demo_probing = [Startup_Probe]" "heap demo_probing = []"
    "main_queue demo_probing = []" "regc demo_probing = None" "list_all (\<lambda>(_, job). job = Back_Route) (resolving demo_probing)"
    "\<not> isShuttingDown demo_probing" "\<not> isUsingBackupRoute demo_probing" "hasBackServiceRoutes demo_probing"
    "length (backServiceRouteIps demo_probing) \<noteq> length (backServiceRoutes (cfg demo_probing))"
    by code_simp+
  then show ?thesis by (rule failed_first_probe_strands_account) (simp_all add: sip_codes)
qed

section \<open>Further observations\<close>

text \<open>An account that has backup routes only never gets to the point where it registers.\<close>

lemma backup_only_account_does_not_register:
  assumes "isUsable A" "\<not> hasServiceRoute A" "hasBackServiceRoutes A"
  shows "registrationState (doRegister E A) = REG_TRYING \<and> regc (doRegister E A) = regc A"
proof -
  let ?A1 = "(setRegistrationState REG_TRYING 0 A)\<lparr>backServiceRouteIps := []\<rparr>"
  have "doRegister E A = foldl (resolve_back E) ?A1 (backServiceRoutes (cfg A))"
    using assms route_part_eqD [OF setRegistrationState_frame(1) [of REG_TRYING 0 A]]
    by (simp add: doRegister_def doRegister_with_def doRegister1_with_def Let_def)
  then have "reg_part (doRegister E A) = reg_part ?A1" by simp
  then show ?thesis by (simp add: reg_part_def setRegistrationState_def emit_def Let_def)
qed

text \<open>A backup route does not help when the name of the main route cannot be resolved.\<close>

lemma unknown_main_route_blocks_backup:
  assumes "isUsable A" "hasServiceRoute A" "\<And>B. resolve_now E B (serviceRoute (cfg A)) = Some []"
  shows "registrationState (doRegister E A) = ERROR_GENERIC \<and> regc (doRegister E A) = regc A"
proof -
  let ?A1 = "setRegistrationState ERROR_GENERIC PJSIP_SC_NOT_FOUND (setRegistrationState REG_TRYING 0 A)"
  have "doRegister E A = foldl (resolve_back E) (?A1\<lparr>backServiceRouteIps := []\<rparr>) (backServiceRoutes (cfg ?A1))"
    using assms route_part_eqD [OF setRegistrationState_frame(1) [of REG_TRYING 0 A]]
    by (simp add: doRegister_def doRegister_with_def doRegister1_with_def service_resolved_with_def Let_def)
  then have "reg_part (doRegister E A) = reg_part (?A1\<lparr>backServiceRouteIps := []\<rparr>)" by simp
  then show ?thesis by (simp add: reg_part_def setRegistrationState_def emit_def Let_def)
qed

text \<open>An account whose registration failed reports an error when it is unregistered.\<close>

lemma unregistering_a_failure_is_an_error:
  assumes "bRegister A" "regc A = None"
  shows "registrationState (doUnregister E A) = ERROR_GENERIC"
proof -
  let ?A1 = "cancelBackupRouteKeepAliveTimer (cancelMainRouteKeepAliveTimer (cancelKeepAliveTimer A))"
  have "bRegister ?A1" "regc ?A1 = None"
    using assms
    by (simp_all add: cancelBackupRouteKeepAliveTimer_def cancelMainRouteKeepAliveTimer_def cancelKeepAliveTimer_def
        cancel_timer_def disableActiveNoRouteFastProbe_def disableMainRouteFastProbe_def Let_def)
  then show ?thesis by (simp add: doUnregister_def sendUnregister_def setRegistrationState_def emit_def Let_def)
qed

text \<open>Addresses of backup routes are kept in the order in which they arrive, names in the order of the configuration.\<close>

lemma backup_addresses_get_swapped:
  "activeBackupRoute (foldl acc_do (acc_new (demo_cfg\<lparr>backServiceRoutes := [''a'', ''b'']\<rparr>) False)
     [(slow_env, Register), (slow_env, Resolved 1 [IPv4 ''b'']), (slow_env, Resolved 0 [IPv4 ''a'']), (slow_env, Probe_done 0 408)])
   = (''a'', IPv4 ''b'')"
  by code_simp

end
