(* ===== verification/Media_Attribute.thy ===== *)
theory Media_Attribute
  imports String_Utils
begin

text \<open>
  The description of one media stream of a call, \<^verbatim>\<open>src/media/media_attribute.cpp\<close>, and its
  exchange format with clients, a map from strings to strings. The theorems are the round trip
  and the tolerance of the reader towards missing and malformed entries.
\<close>

section \<open>Media attributes\<close>

datatype media_type = MEDIA_NONE | MEDIA_AUDIO | MEDIA_VIDEO | MEDIA_ALL

type_synonym media_map = "(string, string) smap"

record media_attribute =
  ma_type :: media_type
  ma_muted :: bool
  ma_secure :: bool
  ma_enabled :: bool
  ma_sourceUri :: string
  ma_label :: string
  ma_onHold :: bool

text \<open>The values of the member initialisers.\<close>

definition MediaAttribute_default :: media_attribute where
  "MediaAttribute_default =
     \<lparr>ma_type = MEDIA_NONE, ma_muted = False, ma_secure = True, ma_enabled = False,
      ma_sourceUri = [], ma_label = [], ma_onHold = False\<rparr>"

text \<open>The labels of the streams of a call, \<^verbatim>\<open>connectivity/sip_utils.h\<close>.\<close>

definition DEFAULT_VIDEO_STREAMID :: string where "DEFAULT_VIDEO_STREAMID = ''video_0''"
definition DEFAULT_AUDIO_STREAMID :: string where "DEFAULT_AUDIO_STREAMID = ''audio_0''"

definition KEY_MEDIA_TYPE :: string where "KEY_MEDIA_TYPE = ''MEDIA_TYPE''"
definition KEY_ENABLED :: string where "KEY_ENABLED = ''ENABLED''"
definition KEY_MUTED :: string where "KEY_MUTED = ''MUTED''"
definition KEY_SOURCE :: string where "KEY_SOURCE = ''SOURCE''"
definition KEY_LABEL :: string where "KEY_LABEL = ''LABEL''"
definition KEY_ON_HOLD :: string where "KEY_ON_HOLD = ''ON_HOLD''"

lemmas media_keys = KEY_MEDIA_TYPE_def KEY_ENABLED_def KEY_MUTED_def KEY_SOURCE_def KEY_LABEL_def
  KEY_ON_HOLD_def

definition stringToMediaType :: "string \<Rightarrow> media_type" where
  "stringToMediaType s =
     (if s = ''MEDIA_TYPE_AUDIO'' then MEDIA_AUDIO
      else if s = ''MEDIA_TYPE_VIDEO'' then MEDIA_VIDEO
      else MEDIA_NONE)"

definition mediaTypeToString :: "media_type \<Rightarrow> string" where
  "mediaTypeToString t =
     (if t = MEDIA_AUDIO then ''MEDIA_TYPE_AUDIO''
      else if t = MEDIA_VIDEO then ''MEDIA_TYPE_VIDEO''
      else [])"

definition boolToString :: "bool \<Rightarrow> string" where
  "boolToString b = (if b then ''true'' else ''false'')"

definition getMediaType :: "media_map \<Rightarrow> bool \<times> media_type" where
  "getMediaType m =
     (case smap_find m KEY_MEDIA_TYPE of
        None \<Rightarrow> (False, MEDIA_NONE)
      | Some s \<Rightarrow> let t = stringToMediaType s in if t = MEDIA_NONE then (False, t) else (True, t))"

definition getBoolValue :: "media_map \<Rightarrow> string \<Rightarrow> bool \<times> bool" where
  "getBoolValue m key =
     (case smap_find m key of
        None \<Rightarrow> (False, False)
      | Some v \<Rightarrow> if v = ''true'' then (True, True)
                  else if v = ''false'' then (True, False)
                  else (False, False))"

definition getStringValue :: "media_map \<Rightarrow> string \<Rightarrow> bool \<times> string" where
  "getStringValue m key = (case smap_find m key of None \<Rightarrow> (False, []) | Some v \<Rightarrow> (True, v))"

definition MediaAttribute_of_map :: "media_map \<Rightarrow> bool \<Rightarrow> media_attribute" where
  "MediaAttribute_of_map m secure =
     (let a0 = MediaAttribute_default;
          (ok1, t) = getMediaType m;
          a1 = (if ok1 then a0\<lparr>ma_type := t\<rparr> else a0);
          (ok2, muted) = getBoolValue m KEY_MUTED;
          a2 = (if ok2 then a1\<lparr>ma_muted := muted\<rparr> else a1);
          (ok3, enabled) = getBoolValue m KEY_ENABLED;
          a3 = (if ok3 then a2\<lparr>ma_enabled := enabled\<rparr> else a2);
          (ok4, source) = getStringValue m KEY_SOURCE;
          a4 = (if ok4 then a3\<lparr>ma_sourceUri := source\<rparr> else a3);
          (ok5, label) = getStringValue m KEY_LABEL;
          a5 = (if ok5 then a4\<lparr>ma_label := label\<rparr> else a4);
          (ok6, onHold) = getBoolValue m KEY_ON_HOLD;
          a6 = (if ok6 then a5\<lparr>ma_onHold := onHold\<rparr> else a5)
      in a6\<lparr>ma_secure := secure\<rparr>)"

definition buildMediaAttributesList :: "media_map list \<Rightarrow> bool \<Rightarrow> media_attribute list" where
  "buildMediaAttributesList ms secure = map (\<lambda>m. MediaAttribute_of_map m secure) ms"

definition hasMediaType :: "media_attribute list \<Rightarrow> media_type \<Rightarrow> bool" where
  "hasMediaType l t = list_ex (\<lambda>a. ma_type a = t) l"

definition toMediaMap :: "media_attribute \<Rightarrow> media_map" where
  "toMediaMap a =
     smap_emplace KEY_ON_HOLD (boolToString (ma_onHold a))
     (smap_emplace KEY_SOURCE (ma_sourceUri a)
     (smap_emplace KEY_MUTED (boolToString (ma_muted a))
     (smap_emplace KEY_ENABLED (boolToString (ma_enabled a))
     (smap_emplace KEY_LABEL (ma_label a)
     (smap_emplace KEY_MEDIA_TYPE (mediaTypeToString (ma_type a)) [])))))"

definition mediaAttributesToMediaMaps :: "media_attribute list \<Rightarrow> media_map list" where
  "mediaAttributesToMediaMaps l = map toMediaMap l"

definition MediaAttribute_toString :: "bool \<Rightarrow> media_attribute \<Rightarrow> string" where
  "MediaAttribute_toString full a =
     ''type '' @ (if ma_type a = MEDIA_AUDIO then ''[AUDIO]'' else ''[VIDEO]'') @ '' '' @
     ''enabled '' @ (if ma_enabled a then ''[YES]'' else ''[NO]'') @ '' '' @
     ''muted '' @ (if ma_muted a then ''[YES]'' else ''[NO]'') @ '' '' @
     ''label ['' @ ma_label a @ '']'' @
     (if full
      then '' '' @ ''source ['' @ ma_sourceUri a @ '']'' @ '' '' @
           ''secure '' @ (if ma_secure a then ''[YES]'' else ''[NO]'')
      else [])"

definition hasValidVideo :: "media_attribute \<Rightarrow> bool" where
  "hasValidVideo a \<longleftrightarrow> ma_type a = MEDIA_VIDEO \<and> ma_enabled a"

section \<open>Properties\<close>

lemma toMediaMap_find:
  "smap_find (toMediaMap a) KEY_MEDIA_TYPE = Some (mediaTypeToString (ma_type a))"
  "smap_find (toMediaMap a) KEY_LABEL = Some (ma_label a)"
  "smap_find (toMediaMap a) KEY_ENABLED = Some (boolToString (ma_enabled a))"
  "smap_find (toMediaMap a) KEY_MUTED = Some (boolToString (ma_muted a))"
  "smap_find (toMediaMap a) KEY_SOURCE = Some (ma_sourceUri a)"
  "smap_find (toMediaMap a) KEY_ON_HOLD = Some (boolToString (ma_onHold a))"
  by (simp_all add: toMediaMap_def media_keys)

lemma getBoolValue_boolToString: "smap_find m k = Some (boolToString b) \<Longrightarrow> getBoolValue m k = (True, b)"
  by (simp add: getBoolValue_def boolToString_def)

lemma getMediaType_toString:
  "smap_find m KEY_MEDIA_TYPE = Some (mediaTypeToString t) \<Longrightarrow>
   getMediaType m = (if t = MEDIA_AUDIO \<or> t = MEDIA_VIDEO then (True, t) else (False, MEDIA_NONE))"
  by (cases t) (simp_all add: getMediaType_def mediaTypeToString_def stringToMediaType_def)

lemma MediaAttribute_of_toMediaMap:
  "MediaAttribute_of_map (toMediaMap a) secure =
     a\<lparr>ma_type := (if ma_type a = MEDIA_AUDIO \<or> ma_type a = MEDIA_VIDEO then ma_type a else MEDIA_NONE),
       ma_secure := secure\<rparr>"
proof -
  note f = toMediaMap_find [of a]
  show ?thesis
    unfolding MediaAttribute_of_map_def getMediaType_toString [OF f(1)] getBoolValue_boolToString [OF f(3)]
      getBoolValue_boolToString [OF f(4)] getBoolValue_boolToString [OF f(6)] getStringValue_def f
    by (cases a) (simp add: MediaAttribute_default_def Let_def)
qed

text \<open>
  A list of media attributes of the two concrete types survives the exchange format: reading
  back the maps written for it gives the same list, with the security flag of the reader.
\<close>

theorem media_list_roundtrip:
  assumes "\<forall>a \<in> set l. ma_type a = MEDIA_AUDIO \<or> ma_type a = MEDIA_VIDEO"
  shows "buildMediaAttributesList (mediaAttributesToMediaMaps l) secure = map (\<lambda>a. a\<lparr>ma_secure := secure\<rparr>) l"
  using assms
  by (auto simp: buildMediaAttributesList_def mediaAttributesToMediaMaps_def MediaAttribute_of_toMediaMap)

theorem media_list_roundtrip_witness:
  "buildMediaAttributesList (mediaAttributesToMediaMaps
     [MediaAttribute_default\<lparr>ma_type := MEDIA_AUDIO, ma_muted := True, ma_label := ''audio_0''\<rparr>]) True =
   [MediaAttribute_default\<lparr>ma_type := MEDIA_AUDIO, ma_muted := True, ma_label := ''audio_0''\<rparr>]"
  using media_list_roundtrip [of "[MediaAttribute_default\<lparr>ma_type := MEDIA_AUDIO, ma_muted := True,
      ma_label := ''audio_0''\<rparr>]" True]
  by (simp add: MediaAttribute_default_def)

text \<open>
  A media map from a client is read entry by entry: a missing or malformed entry leaves the
  default of its attribute alone and disturbs no other, in particular a stream whose
  \<^verbatim>\<open>ENABLED\<close> or \<^verbatim>\<open>MUTED\<close> entry is neither "true" nor "false" is disabled and not muted.
\<close>

theorem media_map_reader:
  "MediaAttribute_of_map m secure =
     \<lparr>ma_type = (case smap_find m ''MEDIA_TYPE'' of
          Some s \<Rightarrow> if s = ''MEDIA_TYPE_AUDIO'' then MEDIA_AUDIO
                    else if s = ''MEDIA_TYPE_VIDEO'' then MEDIA_VIDEO else MEDIA_NONE
        | None \<Rightarrow> MEDIA_NONE),
      ma_muted = (smap_find m ''MUTED'' = Some ''true''), ma_secure = secure,
      ma_enabled = (smap_find m ''ENABLED'' = Some ''true''),
      ma_sourceUri = (case smap_find m ''SOURCE'' of Some s \<Rightarrow> s | None \<Rightarrow> []),
      ma_label = (case smap_find m ''LABEL'' of Some s \<Rightarrow> s | None \<Rightarrow> []),
      ma_onHold = (smap_find m ''ON_HOLD'' = Some ''true'')\<rparr>"
proof -
  have b: "(if fst (getBoolValue m k) then snd (getBoolValue m k) else False) = (smap_find m k = Some ''true'')" for k
    by (simp add: getBoolValue_def split: option.split)
  have s: "(if fst (getStringValue m k) then snd (getStringValue m k) else []) =
      (case smap_find m k of Some s \<Rightarrow> s | None \<Rightarrow> [])" for k
    by (simp add: getStringValue_def split: option.split)
  have t: "(if fst (getMediaType m) then snd (getMediaType m) else MEDIA_NONE) =
      (case smap_find m ''MEDIA_TYPE'' of
          Some s \<Rightarrow> if s = ''MEDIA_TYPE_AUDIO'' then MEDIA_AUDIO
                    else if s = ''MEDIA_TYPE_VIDEO'' then MEDIA_VIDEO else MEDIA_NONE
        | None \<Rightarrow> MEDIA_NONE)"
    by (simp add: getMediaType_def stringToMediaType_def KEY_MEDIA_TYPE_def Let_def split: option.split)
  have "MediaAttribute_of_map m secure =
     \<lparr>ma_type = (if fst (getMediaType m) then snd (getMediaType m) else MEDIA_NONE),
      ma_muted = (if fst (getBoolValue m KEY_MUTED) then snd (getBoolValue m KEY_MUTED) else False), ma_secure = secure,
      ma_enabled = (if fst (getBoolValue m KEY_ENABLED) then snd (getBoolValue m KEY_ENABLED) else False),
      ma_sourceUri = (if fst (getStringValue m KEY_SOURCE) then snd (getStringValue m KEY_SOURCE) else []),
      ma_label = (if fst (getStringValue m KEY_LABEL) then snd (getStringValue m KEY_LABEL) else []),
      ma_onHold = (if fst (getBoolValue m KEY_ON_HOLD) then snd (getBoolValue m KEY_ON_HOLD) else False)\<rparr>"
    by (simp add: MediaAttribute_of_map_def MediaAttribute_default_def Let_def case_prod_beta)
  then show ?thesis unfolding b s t by (simp add: media_keys)
qed

end
