(* ===== verification/Audio_Rtp.thy ===== *)
theory Audio_Rtp
  imports Media_Attribute "HOL-Library.Word"
begin

text \<open>
  The audio RTP session of a call, \<^verbatim>\<open>media/audio/audio_rtp_session.cpp\<close> and \<^verbatim>\<open>media/rtp_session.h\<close>: the socket and its
  reservation, sender, receiver, microphone, the modes of early media and of a held call, and the sequence numbers of the
  packets. Sockets, encoders and the microphone are an environment; a sender is its sequence number. Recorders are left out.
\<close>

section \<open>The session\<close>

record media_description = \<comment> \<open>what of \<^verbatim>\<open>MediaDescription\<close> the sessions of a call read\<close>
  md_type :: media_type
  md_enabled :: bool
  md_onHold :: bool
  md_codec :: bool \<comment> \<open>there is a codec\<close>
  md_crypto :: bool

record audio_receiver =
  rv_muted :: bool

record audio_input =
  ai_muted :: bool
  ai_attached :: bool \<comment> \<open>the sender observes the microphone\<close>

record audio_rtp =
  ar_send :: media_description
  ar_receive :: media_description
  ar_input :: string
  reservedSocketPair :: bool
  socketPair :: bool
  as_sender :: "16 word option" \<comment> \<open>the sequence number that the encoder of the sender stands at\<close>
  receiveThread :: "audio_receiver option"
  audioInput :: "audio_input option"
  initSeqVal :: "16 word"
  lastSenderSeqVal :: "16 word option"
  muteState :: bool
  earlyMediaMode :: bool
  holdKeepaliveMode :: bool
  natPunching :: bool
  rtcpChecking :: bool
  packetLoss :: nat
  voiceCallback :: bool
  ar_wire :: "16 word option" \<comment> \<open>the number that the latest sender stands at, or stood at when it ended\<close>
  ar_starts :: "(16 word option \<times> 16 word) list" \<comment> \<open>for each sender, \<open>ar_wire\<close> before it and its first number\<close>
  ar_crashed :: bool

record audio_env =
  encoder_ok :: "audio_rtp \<Rightarrow> bool" \<comment> \<open>the constructor of the sender does not throw\<close>
  params_ok :: "audio_rtp \<Rightarrow> bool" \<comment> \<open>the microphone gives its parameters in time\<close>
  release_ok :: "audio_rtp \<Rightarrow> bool" \<comment> \<open>the socket pair still has both its sockets\<close>
  random_seq :: "audio_rtp \<Rightarrow> 16 word" \<comment> \<open>where a muxer starts that is given no number\<close>
  ping_ok :: "audio_rtp \<Rightarrow> bool"

definition takeReservedSocketPair :: "audio_rtp \<Rightarrow> audio_rtp option" where
  "takeReservedSocketPair S = (if reservedSocketPair S then Some (S\<lparr>reservedSocketPair := False\<rparr>) else None)"

definition ensureSocketPairLocked :: "audio_rtp \<Rightarrow> bool \<times> audio_rtp" where
  "ensureSocketPairLocked S =
     (if socketPair S then (True, S)
      else case takeReservedSocketPair S of
             None \<Rightarrow> (False, S)
           | Some S1 \<Rightarrow> (True, S1\<lparr>socketPair := True\<rparr>))"

definition preserveCurrentSocketPairReservationIfNeeded :: "audio_env \<Rightarrow> audio_rtp \<Rightarrow> audio_rtp" where
  "preserveCurrentSocketPairReservationIfNeeded E S =
     (if reservedSocketPair S \<or> \<not> socketPair S \<or> \<not> md_enabled (ar_send S) \<and> \<not> md_enabled (ar_receive S) then S
      else if release_ok E S then S\<lparr>reservedSocketPair := True\<rparr> else S)"

section \<open>Senders\<close>

text \<open>
  The number that the next sender is to start from: one after the present sender, or one after the last sender that
  \<^verbatim>\<open>stop\<close> saw. \<^verbatim>\<open>MediaEncoder::setInitSeqVal\<close> ignores zero.
\<close>

definition next_seq :: "audio_rtp \<Rightarrow> 16 word" where
  "next_seq S =
     (case as_sender S of
        Some q \<Rightarrow> q + 1
      | None \<Rightarrow> case lastSenderSeqVal S of Some q \<Rightarrow> q + 1 | None \<Rightarrow> initSeqVal S)"

definition first_seq :: "audio_env \<Rightarrow> audio_rtp \<Rightarrow> 16 word" where
  "first_seq E S = (if initSeqVal S = 0 then random_seq E S else initSeqVal S)"

definition new_sender :: "audio_env \<Rightarrow> audio_rtp \<Rightarrow> audio_rtp" where
  "new_sender E S =
     (let S1 = S\<lparr>as_sender := None\<rparr> in
      if encoder_ok E S1
      then S1\<lparr>as_sender := Some (first_seq E S1), ar_wire := Some (first_seq E S1),
              ar_starts := (ar_wire S1, first_seq E S1) # ar_starts S1\<rparr>
      else S1\<lparr>ar_send := (ar_send S1)\<lparr>md_enabled := False\<rparr>\<rparr>)"

definition detach_input :: "audio_rtp \<Rightarrow> audio_rtp" where
  "detach_input S = S\<lparr>audioInput := map_option (\<lambda>i. i\<lparr>ai_attached := False\<rparr>) (audioInput S)\<rparr>"

text \<open>The encoder sends packets: encoded sound, digits, or the empty packet of \<^verbatim>\<open>natPing\<close>.\<close>

definition send_packets :: "16 word \<Rightarrow> audio_rtp \<Rightarrow> audio_rtp" where
  "send_packets n S =
     (case as_sender S of None \<Rightarrow> S | Some q \<Rightarrow> S\<lparr>as_sender := Some (q + n), ar_wire := Some (q + n)\<rparr>)"

definition natPing :: "audio_env \<Rightarrow> audio_rtp \<Rightarrow> audio_rtp" where
  "natPing E S = (if ping_ok E S then send_packets 1 S else S)"

definition ensureEarlySenderLocked :: "audio_env \<Rightarrow> audio_rtp \<Rightarrow> audio_rtp" where
  "ensureEarlySenderLocked E S =
     (if \<not> md_enabled (ar_send S) \<or> md_onHold (ar_send S) \<or> \<not> socketPair S then S
      else let S1 = S\<lparr>audioInput := None\<rparr> in new_sender E (S1\<lparr>initSeqVal := next_seq S1\<rparr>))"

definition startNatPunchingLocked :: "audio_env \<Rightarrow> audio_rtp \<Rightarrow> audio_rtp" where
  "startNatPunchingLocked E S = (if as_sender S = None then S else (natPing E S)\<lparr>natPunching := True\<rparr>)"

definition stopNatPunchingLocked :: "audio_rtp \<Rightarrow> audio_rtp" where
  "stopNatPunchingLocked S =
     (if \<not> earlyMediaMode S \<and> \<not> holdKeepaliveMode S \<and> natPunching S then S\<lparr>natPunching := False\<rparr> else S)"

text \<open>One round of the thread; \<^verbatim>\<open>owns_lock\<close> tells whether the mutex was free.\<close>

definition processNatPunch :: "audio_env \<Rightarrow> bool \<Rightarrow> audio_rtp \<Rightarrow> audio_rtp" where
  "processNatPunch E owns_lock S =
     (if owns_lock \<and> (earlyMediaMode S \<or> holdKeepaliveMode S) \<and> as_sender S \<noteq> None then natPing E S else S)"

text \<open>
  \<^verbatim>\<open>startSender\<close> follows pointers that may be null: the socket, a sender that could not be made (when a voice callback
  is to be passed on to it) and the codec.
\<close>

definition startSender :: "audio_env \<Rightarrow> audio_rtp \<Rightarrow> audio_rtp" where
  "startSender E S =
     (if \<not> md_enabled (ar_send S) \<or> md_onHold (ar_send S)
      then if as_sender S \<noteq> None then (detach_input S)\<lparr>as_sender := None\<rparr> else S
      else let S1 = S\<lparr>audioInput := Some \<lparr>ai_muted = muteState S, ai_attached = False\<rparr>\<rparr> in
           if \<not> params_ok E S1 then S1
           else if \<not> socketPair S1 then S1\<lparr>ar_crashed := True\<rparr>
           else let S2 = new_sender E (S1\<lparr>initSeqVal := next_seq S1\<rparr>) in
                if voiceCallback S2 \<and> as_sender S2 = None \<or> \<not> md_codec (ar_send S2) then S2\<lparr>ar_crashed := True\<rparr>
                else S2\<lparr>audioInput := map_option (\<lambda>i. i\<lparr>ai_attached := as_sender S2 \<noteq> None\<rparr>) (audioInput S2),
                        rtcpChecking := True\<rparr>)"

definition rtp_restartSender :: "audio_env \<Rightarrow> audio_rtp \<Rightarrow> audio_rtp" where
  "rtp_restartSender E S = (if \<not> socketPair S then S else startSender E S)"

definition startReceiver :: "audio_rtp \<Rightarrow> audio_rtp" where
  "startReceiver S =
     (if \<not> md_enabled (ar_receive S) \<or> md_onHold (ar_receive S) then S\<lparr>receiveThread := None\<rparr>
      else if \<not> md_codec (ar_receive S) \<or> \<not> socketPair S then S\<lparr>ar_crashed := True\<rparr>
      else S\<lparr>receiveThread := Some \<lparr>rv_muted = False\<rparr>\<rparr>)"

section \<open>Operations\<close>

definition AudioRtpSession_stop :: "audio_env \<Rightarrow> audio_rtp \<Rightarrow> audio_rtp" where
  "AudioRtpSession_stop E S =
     (let S1 = stopNatPunchingLocked (S\<lparr>earlyMediaMode := False, holdKeepaliveMode := False\<rparr>);
          S2 = (detach_input S1)\<lparr>rtcpChecking := False, receiveThread := None\<rparr>;
          S3 = (case as_sender S2 of None \<Rightarrow> S2 | Some q \<Rightarrow> S2\<lparr>lastSenderSeqVal := Some q\<rparr>);
          S4 = preserveCurrentSocketPairReservationIfNeeded E (S3\<lparr>as_sender := None\<rparr>)
      in S4\<lparr>socketPair := False, audioInput := None\<rparr>)"

definition AudioRtpSession_start :: "audio_env \<Rightarrow> audio_rtp \<Rightarrow> audio_rtp" where
  "AudioRtpSession_start E S =
     (if \<not> md_enabled (ar_send S) \<and> \<not> md_enabled (ar_receive S) then AudioRtpSession_stop E S
      else let S1 = stopNatPunchingLocked (S\<lparr>earlyMediaMode := False, holdKeepaliveMode := False\<rparr>);
               (ok, S2) = ensureSocketPairLocked S1
           in if \<not> ok then S2 else startReceiver (startSender E S2))"

definition startEarlyMedia :: "audio_env \<Rightarrow> audio_rtp \<Rightarrow> audio_rtp" where
  "startEarlyMedia E S =
     (if \<not> md_enabled (ar_send S) \<and> \<not> md_enabled (ar_receive S) then AudioRtpSession_stop E S
      else let (ok, S1) = ensureSocketPairLocked S
           in if \<not> ok then S1
              else startNatPunchingLocked E (ensureEarlySenderLocked E (startReceiver (S1\<lparr>earlyMediaMode := True\<rparr>))))"

definition stopEarlyMedia :: "audio_rtp \<Rightarrow> audio_rtp" where
  "stopEarlyMedia S = stopNatPunchingLocked (S\<lparr>earlyMediaMode := False\<rparr>)"

definition promoteEarlyMediaToActive :: "audio_env \<Rightarrow> audio_rtp \<Rightarrow> audio_rtp" where
  "promoteEarlyMediaToActive E S =
     (if \<not> earlyMediaMode S then S
      else startSender E (stopNatPunchingLocked (S\<lparr>earlyMediaMode := False\<rparr>)))"

definition startHoldKeepalive :: "audio_env \<Rightarrow> audio_rtp \<Rightarrow> audio_rtp" where
  "startHoldKeepalive E S =
     (if \<not> md_enabled (ar_send S) then S
      else let (ok, S1) = ensureSocketPairLocked S
           in if \<not> ok then S1
              else let S2 = S1\<lparr>holdKeepaliveMode := True, audioInput := None\<rparr> in
                   if as_sender S2 \<noteq> None then startNatPunchingLocked E S2
                   else let S3 = new_sender E (S2\<lparr>initSeqVal := next_seq S2\<rparr>)
                        in if as_sender S3 = None then S3 else startNatPunchingLocked E S3)"

definition stopHoldKeepalive :: "audio_env \<Rightarrow> bool \<Rightarrow> audio_rtp \<Rightarrow> audio_rtp" where
  "stopHoldKeepalive E restart S =
     (let S1 = stopNatPunchingLocked (S\<lparr>holdKeepaliveMode := False\<rparr>) in
      if restart \<and> md_enabled (ar_send S1) \<and> \<not> md_onHold (ar_send S1)
      then let (ok, S2) = ensureSocketPairLocked S1 in if ok then startSender E S2 else S2
      else S1)"

datatype direction = SEND | RECV

fun AudioRtpSession_setMuted :: "bool \<Rightarrow> direction \<Rightarrow> audio_rtp \<Rightarrow> audio_rtp" where
  "AudioRtpSession_setMuted muted SEND S =
     S\<lparr>muteState := muted, audioInput := map_option (\<lambda>i. i\<lparr>ai_muted := muted\<rparr>) (audioInput S)\<rparr>"
| "AudioRtpSession_setMuted muted RECV S =
     S\<lparr>receiveThread := map_option (\<lambda>r. r\<lparr>rv_muted := muted\<rparr>) (receiveThread S)\<rparr>"

definition setVoiceCallback :: "audio_rtp \<Rightarrow> audio_rtp" where
  "setVoiceCallback S = S\<lparr>voiceCallback := True\<rparr>"

definition updateMedia :: "media_description \<Rightarrow> media_description \<Rightarrow> audio_rtp \<Rightarrow> audio_rtp" where
  "updateMedia send receive S = S\<lparr>ar_send := send, ar_receive := receive\<rparr>"

definition setReservedSocketPair :: "audio_rtp \<Rightarrow> audio_rtp" where
  "setReservedSocketPair S = S\<lparr>reservedSocketPair := True\<rparr>"

definition setMediaSource :: "string \<Rightarrow> audio_rtp \<Rightarrow> audio_rtp" where
  "setMediaSource resource S = S\<lparr>ar_input := resource\<rparr>"

text \<open>The loss is an unsigned number that is clamped as a signed one.\<close>

definition setNewPacketLoss :: "32 word \<Rightarrow> audio_rtp \<Rightarrow> audio_rtp" where
  "setNewPacketLoss newPL S =
     (let pl = nat (max 0 (min 100 (sint newPL))) in
      if pl \<noteq> packetLoss S \<and> as_sender S \<noteq> None then S\<lparr>packetLoss := pl\<rparr> else S)"

definition no_media :: media_description where
  "no_media = \<lparr>md_type = MEDIA_NONE, md_enabled = False, md_onHold = False, md_codec = False, md_crypto = False\<rparr>"

definition AudioRtpSession_new :: audio_rtp where
  "AudioRtpSession_new =
     \<lparr>ar_send = no_media, ar_receive = no_media, ar_input = [], reservedSocketPair = False, socketPair = False, as_sender = None,
      receiveThread = None, audioInput = None, initSeqVal = 0, lastSenderSeqVal = None, muteState = False,
      earlyMediaMode = False, holdKeepaliveMode = False, natPunching = False, rtcpChecking = False, packetLoss = 10,
      voiceCallback = False, ar_wire = None, ar_starts = [], ar_crashed = False\<rparr>"

section \<open>Runs\<close>

datatype audio_op =
    Start | Stop | Restart_sender | Early_media | Stop_early | Promote | Hold_keepalive | Stop_hold bool
  | Mute bool direction | Voice_callback | Update_media media_description media_description | Reserve | Source string
  | Nat_round bool | Packets "16 word" | Packet_loss "32 word"

fun audio_exec :: "audio_env \<Rightarrow> audio_op \<Rightarrow> audio_rtp \<Rightarrow> audio_rtp" where
  "audio_exec E Start S = AudioRtpSession_start E S"
| "audio_exec E Stop S = AudioRtpSession_stop E S"
| "audio_exec E Restart_sender S = rtp_restartSender E S"
| "audio_exec E Early_media S = startEarlyMedia E S"
| "audio_exec E Stop_early S = stopEarlyMedia S"
| "audio_exec E Promote S = promoteEarlyMediaToActive E S"
| "audio_exec E Hold_keepalive S = startHoldKeepalive E S"
| "audio_exec E (Stop_hold restart) S = stopHoldKeepalive E restart S"
| "audio_exec E (Mute muted dir) S = AudioRtpSession_setMuted muted dir S"
| "audio_exec E Voice_callback S = setVoiceCallback S"
| "audio_exec E (Update_media send receive) S = updateMedia send receive S"
| "audio_exec E Reserve S = setReservedSocketPair S"
| "audio_exec E (Source resource) S = setMediaSource resource S"
| "audio_exec E (Nat_round owns_lock) S = processNatPunch E owns_lock S"
| "audio_exec E (Packets n) S = send_packets n S"
| "audio_exec E (Packet_loss pl) S = setNewPacketLoss pl S"

text \<open>
  What the client of a session takes care of: an enabled media has a codec, the encoders open, and a sender that
  is running is not asked to start again after its media was disabled or held, without a \<^verbatim>\<open>stop\<close> between.
\<close>

definition has_codec :: "media_description \<Rightarrow> bool" where
  "has_codec m \<longleftrightarrow> (md_enabled m \<longrightarrow> md_codec m)"

definition sendable_media :: "media_description \<Rightarrow> bool" where
  "sendable_media m \<longleftrightarrow> md_enabled m \<and> \<not> md_onHold m"

fun op_allowed :: "audio_op \<Rightarrow> audio_rtp \<Rightarrow> bool" where
  "op_allowed (Update_media send receive) S = (has_codec send \<and> has_codec receive)"
| "op_allowed Start S = (as_sender S = None \<or> sendable_media (ar_send S))"
| "op_allowed Restart_sender S = (as_sender S = None \<or> sendable_media (ar_send S))"
| "op_allowed Promote S = (as_sender S = None \<or> sendable_media (ar_send S))"
| "op_allowed _ S = True"

definition encoders_open :: "audio_env \<Rightarrow> bool" where
  "encoders_open E \<longleftrightarrow> (\<forall>S. encoder_ok E S)"

inductive audio_step :: "audio_rtp \<Rightarrow> audio_rtp \<Rightarrow> bool" where
  op: "encoders_open E \<Longrightarrow> op_allowed r S \<Longrightarrow> audio_step S (audio_exec E r S)"

section \<open>Pointers are not null\<close>

definition rtp_wf :: "audio_rtp \<Rightarrow> bool" where
  "rtp_wf S \<longleftrightarrow>
     (as_sender S \<noteq> None \<or> receiveThread S \<noteq> None \<or> earlyMediaMode S \<or> holdKeepaliveMode S \<or> rtcpChecking S \<longrightarrow> socketPair S) \<and>
     (natPunching S \<longrightarrow> earlyMediaMode S \<or> holdKeepaliveMode S) \<and>
     (\<forall>i. audioInput S = Some i \<and> ai_attached i \<longrightarrow> as_sender S \<noteq> None) \<and>
     has_codec (ar_send S) \<and> has_codec (ar_receive S) \<and> packetLoss S \<le> 100 \<and> \<not> ar_crashed S"

lemmas rtp_defs = takeReservedSocketPair_def ensureSocketPairLocked_def preserveCurrentSocketPairReservationIfNeeded_def
  new_sender_def detach_input_def send_packets_def natPing_def ensureEarlySenderLocked_def startNatPunchingLocked_def
  stopNatPunchingLocked_def processNatPunch_def startSender_def rtp_restartSender_def startReceiver_def
  AudioRtpSession_stop_def AudioRtpSession_start_def startEarlyMedia_def stopEarlyMedia_def promoteEarlyMediaToActive_def
  startHoldKeepalive_def stopHoldKeepalive_def setVoiceCallback_def updateMedia_def setReservedSocketPair_def
  setMediaSource_def setNewPacketLoss_def

lemma stop_wf: "rtp_wf S \<Longrightarrow> rtp_wf (AudioRtpSession_stop E S)"
  by (auto simp: rtp_wf_def rtp_defs Let_def split: option.split)

lemma startSender_wf: "rtp_wf S \<Longrightarrow> socketPair S \<Longrightarrow> encoders_open E \<Longrightarrow> rtp_wf (startSender E S)"
  by (auto simp: rtp_wf_def startSender_def new_sender_def detach_input_def encoders_open_def has_codec_def Let_def)

lemma startSender_socket [simp]: "socketPair (startSender E S) = socketPair S"
  by (simp add: startSender_def new_sender_def detach_input_def Let_def)

lemma startReceiver_wf: "rtp_wf S \<Longrightarrow> socketPair S \<Longrightarrow> rtp_wf (startReceiver S)"
  by (auto simp: rtp_wf_def startReceiver_def has_codec_def)

lemma ensureSocket_wf:
  assumes "rtp_wf S" "ensureSocketPairLocked S = (ok, S1)"
  shows "rtp_wf S1" "ok \<Longrightarrow> socketPair S1"
  using assms by (auto simp: rtp_wf_def ensureSocketPairLocked_def takeReservedSocketPair_def split: if_splits option.splits)

lemma stopNat_wf: "rtp_wf S \<Longrightarrow> rtp_wf (stopNatPunchingLocked (S\<lparr>earlyMediaMode := False, holdKeepaliveMode := False\<rparr>))"
  "rtp_wf S \<Longrightarrow> rtp_wf (stopNatPunchingLocked (S\<lparr>earlyMediaMode := False\<rparr>))"
  "rtp_wf S \<Longrightarrow> rtp_wf (stopNatPunchingLocked (S\<lparr>holdKeepaliveMode := False\<rparr>))"
  by (auto simp: rtp_wf_def stopNatPunchingLocked_def)

lemma stopNat_socket [simp]: "socketPair (stopNatPunchingLocked S) = socketPair S"
  by (simp add: stopNatPunchingLocked_def)

lemma startNat_wf: "rtp_wf S \<Longrightarrow> earlyMediaMode S \<or> holdKeepaliveMode S \<Longrightarrow> rtp_wf (startNatPunchingLocked E S)"
  by (auto simp: rtp_wf_def startNatPunchingLocked_def natPing_def send_packets_def split: option.split)

lemma start_wf:
  assumes "rtp_wf S" "encoders_open E"
  shows "rtp_wf (AudioRtpSession_start E S)"
proof -
  obtain ok S1 where e: "ensureSocketPairLocked (stopNatPunchingLocked (S\<lparr>earlyMediaMode := False, holdKeepaliveMode := False\<rparr>)) = (ok, S1)"
    by fastforce
  note S1 = ensureSocket_wf [OF stopNat_wf(1) [OF assms(1)] e]
  show ?thesis
    using S1 startReceiver_wf [OF startSender_wf [OF S1(1) _ assms(2)]] stop_wf [OF assms(1)]
    by (auto simp: AudioRtpSession_start_def e)
qed

lemma new_sender_wf: "rtp_wf S \<Longrightarrow> audioInput S = None \<Longrightarrow> socketPair S \<Longrightarrow> rtp_wf (new_sender E (S\<lparr>initSeqVal := q\<rparr>))"
  by (auto simp: rtp_wf_def new_sender_def has_codec_def Let_def)

lemma early_wf:
  assumes "rtp_wf S"
  shows "rtp_wf (startEarlyMedia E S)"
proof -
  obtain ok S1 where e: "ensureSocketPairLocked S = (ok, S1)" by fastforce
  note S1 = ensureSocket_wf [OF assms e]
  show ?thesis
  proof (cases "ok \<and> (md_enabled (ar_send S) \<or> md_enabled (ar_receive S))")
    case True
    let ?R = "startReceiver (S1\<lparr>earlyMediaMode := True\<rparr>)"
    have R: "rtp_wf ?R" "socketPair ?R" "earlyMediaMode ?R"
      using S1 True by (auto simp: startReceiver_def rtp_wf_def has_codec_def)
    have "rtp_wf (?R\<lparr>audioInput := None\<rparr>)" using R(1) by (auto simp: rtp_wf_def)
    then have "rtp_wf (ensureEarlySenderLocked E ?R)" "earlyMediaMode (ensureEarlySenderLocked E ?R)"
      using R new_sender_wf [of "?R\<lparr>audioInput := None\<rparr>"]
      by (simp_all add: ensureEarlySenderLocked_def Let_def) (simp add: new_sender_def Let_def)
    then have "rtp_wf (startNatPunchingLocked E (ensureEarlySenderLocked E ?R))" by (simp add: startNat_wf)
    then show ?thesis using True by (auto simp: startEarlyMedia_def e)
  qed (use S1 stop_wf [OF assms] in \<open>auto simp: startEarlyMedia_def e\<close>)
qed

lemma hold_wf:
  assumes "rtp_wf S"
  shows "rtp_wf (startHoldKeepalive E S)"
proof -
  obtain ok S1 where e: "ensureSocketPairLocked S = (ok, S1)" by fastforce
  note S1 = ensureSocket_wf [OF assms e]
  let ?S2 = "S1\<lparr>holdKeepaliveMode := True, audioInput := None\<rparr>"
  have "rtp_wf (startHoldKeepalive E S)" if ok
  proof -
    have S2: "rtp_wf ?S2" "socketPair ?S2" using S1 that by (auto simp: rtp_wf_def)
    have S3: "rtp_wf (new_sender E (?S2\<lparr>initSeqVal := q\<rparr>))" "holdKeepaliveMode (new_sender E (?S2\<lparr>initSeqVal := q\<rparr>))" for q
      using new_sender_wf [OF S2(1) _ S2(2)] by simp (simp add: new_sender_def Let_def)
    show ?thesis
      using that S2 startNat_wf [OF S2(1)] S3 startNat_wf [OF S3(1)] assms
      by (auto simp: startHoldKeepalive_def e Let_def)
  qed
  then show ?thesis using S1 assms by (cases ok) (auto simp: startHoldKeepalive_def e)
qed

lemma stopHold_wf:
  assumes "rtp_wf S" "encoders_open E"
  shows "rtp_wf (stopHoldKeepalive E restart S)"
proof -
  let ?S1 = "stopNatPunchingLocked (S\<lparr>holdKeepaliveMode := False\<rparr>)"
  obtain ok S2 where e: "ensureSocketPairLocked ?S1 = (ok, S2)" by fastforce
  note S2 = ensureSocket_wf [OF stopNat_wf(3) [OF assms(1)] e]
  show ?thesis
    using S2 startSender_wf [OF S2(1) _ assms(2)] stopNat_wf(3) [OF assms(1)]
    by (auto simp: stopHoldKeepalive_def e Let_def)
qed

lemma promote_wf: "rtp_wf S \<Longrightarrow> encoders_open E \<Longrightarrow> rtp_wf (promoteEarlyMediaToActive E S)"
  by (auto simp: promoteEarlyMediaToActive_def intro!: startSender_wf stopNat_wf) (simp add: rtp_wf_def)

lemma small_wf:
  "rtp_wf S \<Longrightarrow> rtp_wf (AudioRtpSession_setMuted muted dir S)"
  "rtp_wf S \<Longrightarrow> rtp_wf (setVoiceCallback S)"
  "rtp_wf S \<Longrightarrow> has_codec send \<Longrightarrow> has_codec receive \<Longrightarrow> rtp_wf (updateMedia send receive S)"
  "rtp_wf S \<Longrightarrow> rtp_wf (setReservedSocketPair S)"
  "rtp_wf S \<Longrightarrow> rtp_wf (setMediaSource resource S)"
  "rtp_wf S \<Longrightarrow> rtp_wf (send_packets n S)"
  "rtp_wf S \<Longrightarrow> rtp_wf (setNewPacketLoss pl S)"
  subgoal by (cases dir) (auto simp: rtp_wf_def)
  subgoal by (simp add: rtp_wf_def setVoiceCallback_def)
  subgoal by (simp add: rtp_wf_def updateMedia_def)
  subgoal by (simp add: rtp_wf_def setReservedSocketPair_def)
  subgoal by (simp add: rtp_wf_def setMediaSource_def)
  subgoal by (auto simp: rtp_wf_def send_packets_def split: option.split)
  subgoal by (auto simp: rtp_wf_def setNewPacketLoss_def Let_def)
  done

lemma audio_exec_wf:
  assumes "rtp_wf S" "encoders_open E" "op_allowed r S"
  shows "rtp_wf (audio_exec E r S)"
  using assms
  by (cases r) (simp_all add: start_wf stop_wf early_wf hold_wf stopHold_wf promote_wf startSender_wf stopNat_wf small_wf
      rtp_restartSender_def stopEarlyMedia_def processNatPunch_def natPing_def)

section \<open>Sequence numbers\<close>

definition start_ok :: "16 word option \<times> 16 word \<Rightarrow> bool" where
  "start_ok p = (case fst p of None \<Rightarrow> True | Some q \<Rightarrow> snd p = q + 1 \<or> q + 1 = 0)"

definition seq_ok :: "audio_rtp \<Rightarrow> bool" where
  "seq_ok S \<longleftrightarrow>
     ar_wire S = (if as_sender S = None then lastSenderSeqVal S else as_sender S) \<and> list_all start_ok (ar_starts S)"

lemma next_seq_frame [simp]: "next_seq (S\<lparr>audioInput := i\<rparr>) = next_seq S"
  by (simp add: next_seq_def split: option.split)

lemma new_sender_seq: "seq_ok S \<Longrightarrow> encoders_open E \<Longrightarrow> seq_ok (new_sender E (S\<lparr>initSeqVal := next_seq S\<rparr>))"
  by (auto simp: seq_ok_def new_sender_def encoders_open_def first_seq_def next_seq_def start_ok_def Let_def split: option.splits)

lemma seq_frames [simp]:
  "seq_ok (S\<lparr>audioInput := i\<rparr>) = seq_ok S" "seq_ok (S\<lparr>receiveThread := t\<rparr>) = seq_ok S"
  "seq_ok (S\<lparr>earlyMediaMode := b\<rparr>) = seq_ok S" "seq_ok (S\<lparr>holdKeepaliveMode := b\<rparr>) = seq_ok S"
  "seq_ok (S\<lparr>natPunching := b\<rparr>) = seq_ok S" "seq_ok (S\<lparr>rtcpChecking := b\<rparr>) = seq_ok S"
  "seq_ok (S\<lparr>ar_crashed := b\<rparr>) = seq_ok S" "seq_ok (S\<lparr>socketPair := b\<rparr>) = seq_ok S"
  "seq_ok (S\<lparr>reservedSocketPair := b\<rparr>) = seq_ok S"
  by (simp_all add: seq_ok_def)

lemma seq_sub [simp]:
  "seq_ok (stopNatPunchingLocked S) = seq_ok S" "seq_ok (startReceiver S) = seq_ok S"
  "seq_ok (snd (ensureSocketPairLocked S)) = seq_ok S"
  "seq_ok (preserveCurrentSocketPairReservationIfNeeded E S) = seq_ok S"
  by (simp_all add: stopNatPunchingLocked_def startReceiver_def ensureSocketPairLocked_def takeReservedSocketPair_def
      preserveCurrentSocketPairReservationIfNeeded_def)

lemma packets_seq: "seq_ok S \<Longrightarrow> seq_ok (send_packets n S)" "seq_ok S \<Longrightarrow> seq_ok (natPing E S)"
  by (auto simp: seq_ok_def send_packets_def natPing_def split: option.splits)

lemma startNat_seq: "seq_ok S \<Longrightarrow> seq_ok (startNatPunchingLocked E S)"
  by (simp add: startNatPunchingLocked_def packets_seq)

lemma stop_seq: "seq_ok S \<Longrightarrow> seq_ok (AudioRtpSession_stop E S)"
proof -
  have "seq_ok S \<Longrightarrow> as_sender S = Some q \<Longrightarrow> seq_ok (S\<lparr>lastSenderSeqVal := Some q, as_sender := None\<rparr>)"
    "seq_ok S \<Longrightarrow> as_sender S = None \<Longrightarrow> seq_ok (S\<lparr>as_sender := None\<rparr>)" for S q
    by (simp_all add: seq_ok_def)
  moreover have "as_sender (stopNatPunchingLocked T) = as_sender T" for T by (simp add: stopNatPunchingLocked_def)
  ultimately show "seq_ok S \<Longrightarrow> seq_ok (AudioRtpSession_stop E S)"
    by (simp add: AudioRtpSession_stop_def detach_input_def Let_def split: option.split)
qed

lemma startSender_seq:
  assumes "seq_ok S" "encoders_open E" "as_sender S = None \<or> sendable_media (ar_send S)"
  shows "seq_ok (startSender E S)"
proof -
  let ?S1 = "S\<lparr>audioInput := Some \<lparr>ai_muted = muteState S, ai_attached = False\<rparr>\<rparr>"
  have "seq_ok ?S1" using assms(1) by simp
  then show ?thesis
    using new_sender_seq [OF _ assms(2), of ?S1] assms(1,3)
    by (auto simp: startSender_def sendable_media_def Let_def)
qed

lemma socket_fields:
  assumes "ensureSocketPairLocked S = (ok, S1)"
  shows "as_sender S1 = as_sender S" "ar_send S1 = ar_send S" "seq_ok S1 = seq_ok S"
  using assms seq_sub(3) [of S] by (auto simp: ensureSocketPairLocked_def takeReservedSocketPair_def split: if_splits option.splits)

lemma stopNat_fields [simp]:
  "as_sender (stopNatPunchingLocked S) = as_sender S" "ar_send (stopNatPunchingLocked S) = ar_send S"
  by (simp_all add: stopNatPunchingLocked_def)

lemma start_seq:
  assumes "seq_ok S" "encoders_open E" "as_sender S = None \<or> sendable_media (ar_send S)"
  shows "seq_ok (AudioRtpSession_start E S)"
proof -
  let ?S1 = "stopNatPunchingLocked (S\<lparr>earlyMediaMode := False, holdKeepaliveMode := False\<rparr>)"
  obtain ok S2 where e: "ensureSocketPairLocked ?S1 = (ok, S2)" by fastforce
  note S2 = socket_fields [OF e]
  then have "seq_ok S2" "seq_ok (startSender E S2)" using assms by (simp_all add: startSender_seq)
  then show ?thesis using stop_seq [OF assms(1)] by (auto simp: AudioRtpSession_start_def e)
qed

lemma early_seq: "seq_ok S \<Longrightarrow> encoders_open E \<Longrightarrow> seq_ok (startEarlyMedia E S)"
proof -
  have sender: "seq_ok S \<Longrightarrow> encoders_open E \<Longrightarrow> seq_ok (ensureEarlySenderLocked E S)" for S
    using new_sender_seq [of "S\<lparr>audioInput := None\<rparr>"] by (simp add: ensureEarlySenderLocked_def)
  obtain ok S1 where e: "ensureSocketPairLocked S = (ok, S1)" by fastforce
  show "seq_ok S \<Longrightarrow> encoders_open E \<Longrightarrow> seq_ok (startEarlyMedia E S)"
    using socket_fields(3) [OF e] by (simp add: startEarlyMedia_def e stop_seq startNat_seq sender)
qed

lemma hold_seq: "seq_ok S \<Longrightarrow> encoders_open E \<Longrightarrow> seq_ok (startHoldKeepalive E S)"
proof -
  obtain ok S1 where e: "ensureSocketPairLocked S = (ok, S1)" by fastforce
  show "seq_ok S \<Longrightarrow> encoders_open E \<Longrightarrow> seq_ok (startHoldKeepalive E S)"
    using socket_fields(3) [OF e] new_sender_seq [of "S1\<lparr>holdKeepaliveMode := True, audioInput := None\<rparr>" E]
    by (simp add: startHoldKeepalive_def e startNat_seq Let_def)
qed

lemma stopHold_seq: "seq_ok S \<Longrightarrow> encoders_open E \<Longrightarrow> seq_ok (stopHoldKeepalive E restart S)"
proof -
  obtain ok S1 where e: "ensureSocketPairLocked (stopNatPunchingLocked (S\<lparr>holdKeepaliveMode := False\<rparr>)) = (ok, S1)" by fastforce
  show "seq_ok S \<Longrightarrow> encoders_open E \<Longrightarrow> seq_ok (stopHoldKeepalive E restart S)"
    using socket_fields [OF e] startSender_seq [of S1 E] by (auto simp: stopHoldKeepalive_def e Let_def sendable_media_def)
qed

lemma small_seq:
  "seq_ok (AudioRtpSession_setMuted muted dir S) = seq_ok S" "seq_ok (setVoiceCallback S) = seq_ok S"
  "seq_ok (updateMedia send receive S) = seq_ok S" "seq_ok (setReservedSocketPair S) = seq_ok S"
  "seq_ok (setMediaSource resource S) = seq_ok S" "seq_ok (setNewPacketLoss pl S) = seq_ok S"
  by (cases dir) (simp_all add: seq_ok_def setVoiceCallback_def updateMedia_def setReservedSocketPair_def setMediaSource_def
      setNewPacketLoss_def Let_def)

lemma audio_exec_seq:
  assumes "seq_ok S" "encoders_open E" "op_allowed r S"
  shows "seq_ok (audio_exec E r S)"
  using assms
  by (cases r) (simp_all add: start_seq stop_seq startSender_seq early_seq hold_seq stopHold_seq packets_seq small_seq
      rtp_restartSender_def stopEarlyMedia_def promoteEarlyMediaToActive_def processNatPunch_def)

interpretation rtp: relational_machine "\<lambda>S. S = AudioRtpSession_new" audio_step "\<lambda>S. rtp_wf S \<and> seq_ok S"
proof
  show "rtp_wf S \<and> seq_ok S" if "S = AudioRtpSession_new" for S
    by (simp add: that AudioRtpSession_new_def rtp_wf_def seq_ok_def has_codec_def no_media_def)
  show "rtp_wf T \<and> seq_ok T" if "audio_step S T" "rtp_wf S \<and> seq_ok S" for S T
    using that by (auto elim!: audio_step.cases intro: audio_exec_wf audio_exec_seq)
qed

text \<open>
  No operation of a session follows a null pointer. In every state that a session can reach while its encoders open
  and its client keeps the rules, each allowed operation runs through, and afterwards a sender, a receiver, the thread that reads
  reports and both special modes exist only with a socket, the microphone is attached only to a sender that exists, and the
  loss told to the encoder is a percentage.
\<close>

theorem session_follows_no_null_pointer:
  assumes "audio_step\<^sup>*\<^sup>* AudioRtpSession_new S" "encoders_open E" "op_allowed r S"
  defines "T \<equiv> audio_exec E r S"
  shows "\<not> ar_crashed T \<and>
    (as_sender T \<noteq> None \<or> receiveThread T \<noteq> None \<or> rtcpChecking T \<or> earlyMediaMode T \<or> holdKeepaliveMode T \<longrightarrow> socketPair T) \<and>
    (\<forall>i. audioInput T = Some i \<and> ai_attached i \<longrightarrow> as_sender T \<noteq> None) \<and> packetLoss T \<le> 100"
proof -
  have "rtp_wf T" unfolding T_def using rtp.reachable_inv [OF refl assms(1)] assms(2,3) by (auto intro: audio_exec_wf)
  then show ?thesis by (auto simp: rtp_wf_def)
qed


section \<open>A session at work\<close>

definition audio_do :: "audio_rtp \<Rightarrow> audio_env \<times> audio_op \<Rightarrow> audio_rtp" where
  "audio_do S e = (if op_allowed (snd e) S then audio_exec (fst e) (snd e) S else S)"

lemma audio_do_steps: "list_all (\<lambda>e. encoders_open (fst e)) es \<Longrightarrow> audio_step\<^sup>*\<^sup>* S (foldl audio_do S es)"
proof (induction es rule: rev_induct)
  case (snoc e es)
  then show ?case by (auto simp: audio_do_def intro: rtranclp.rtrancl_into_rtrancl audio_step.op)
qed simp

definition audio_yes :: audio_env where
  "audio_yes = \<lparr>encoder_ok = \<lambda>_. True, params_ok = \<lambda>_. True, release_ok = \<lambda>_. True, random_seq = \<lambda>_. 65530, ping_ok = \<lambda>_. True\<rparr>"

definition talk_media :: media_description where
  "talk_media = \<lparr>md_type = MEDIA_AUDIO, md_enabled = True, md_onHold = False, md_codec = True, md_crypto = False\<rparr>"

definition demo_session :: audio_rtp where
  "demo_session = foldl audio_do AudioRtpSession_new (map (Pair audio_yes)
     [Update_media talk_media talk_media, Voice_callback, Reserve, Start, Packets 3, Stop, Start, Packets 10, Stop])"

lemma audio_yes_opens: "encoders_open audio_yes"
  by (simp add: audio_yes_def encoders_open_def)

lemma demo_session_reachable: "audio_step\<^sup>*\<^sup>* AudioRtpSession_new demo_session"
  unfolding demo_session_def by (rule audio_do_steps) (simp add: audio_yes_opens)

theorem session_follows_no_null_pointer_witness: "\<not> ar_crashed (audio_exec audio_yes Start demo_session)"
proof -
  have "as_sender demo_session = None" by code_simp
  then show ?thesis
    using session_follows_no_null_pointer [OF demo_session_reachable audio_yes_opens, of Start] by simp
qed

lemma demo_session_starts: "ar_starts demo_session = [(Some 65533, 65534), (None, 65530)]"
  by code_simp


section \<open>What a session forgets\<close>

text \<open>
  A sender that is dropped because its media was held is forgotten. Let the sender of a session stand at \<open>q\<close>, and let
  the last \<^verbatim>\<open>stop\<close> have seen \<open>l\<close>. If the sender is restarted after its media was put on hold, and again after the hold ended,
  the new sender starts after \<open>l\<close> and not after \<open>q\<close>: numbers that the peer has seen are used again.
\<close>

theorem dropped_sender_repeats_numbers:
  fixes E :: audio_env and S :: audio_rtp and held active r :: media_description
  assumes "as_sender S = Some q" "lastSenderSeqVal S = Some l" "l + 1 \<noteq> 0" "socketPair S"
    and "md_onHold held" "sendable_media active" "md_codec active" "\<And>S. encoder_ok E S \<and> params_ok E S"
  defines "T \<equiv> audio_exec E Restart_sender (audio_exec E (Update_media active r) (audio_exec E Restart_sender
                  (audio_exec E (Update_media held r) S)))"
  shows "as_sender T = Some (l + 1)"
  using assms(1-8)
  by (simp add: T_def rtp_restartSender_def startSender_def updateMedia_def sendable_media_def detach_input_def next_seq_def
      new_sender_def first_seq_def Let_def)

theorem dropped_sender_repeats_numbers_witness:
  "as_sender (audio_exec audio_yes Restart_sender (audio_exec audio_yes (Update_media talk_media talk_media)
     (audio_exec audio_yes Restart_sender (audio_exec audio_yes (Update_media (talk_media\<lparr>md_onHold := True\<rparr>) talk_media)
        (foldl audio_do demo_session (map (Pair audio_yes) [Start, Packets 100])))))) = Some 9"
proof -
  let ?S = "foldl audio_do demo_session (map (Pair audio_yes) [Start, Packets 100])"
  have "as_sender ?S = Some 109" "lastSenderSeqVal ?S = Some 8" "socketPair ?S" by code_simp+
  then show ?thesis
    using dropped_sender_repeats_numbers [of ?S 109 8 "talk_media\<lparr>md_onHold := True\<rparr>" talk_media audio_yes talk_media]
    by (simp add: talk_media_def sendable_media_def audio_yes_def)
qed

text \<open>The receiver that a restart creates is not muted, whatever was set before: the peer's mute is lost at each renegotiation.\<close>

lemma ensureSocket_succeeds:
  assumes "socketPair S \<or> reservedSocketPair S"
  obtains S1 where "ensureSocketPairLocked S = (True, S1)" "socketPair S1" "ar_receive S1 = ar_receive S"
  using assms by (cases "socketPair S") (auto simp: ensureSocketPairLocked_def takeReservedSocketPair_def)

lemma restart_forgets_receive_mute:
  assumes "md_enabled (ar_receive S)" "\<not> md_onHold (ar_receive S)" "md_codec (ar_receive S)" "socketPair S \<or> reservedSocketPair S"
  shows "\<exists>r. receiveThread (AudioRtpSession_start E (AudioRtpSession_setMuted True RECV S)) = Some r \<and> \<not> rv_muted r"
proof -
  let ?M = "stopNatPunchingLocked ((AudioRtpSession_setMuted True RECV S)\<lparr>earlyMediaMode := False, holdKeepaliveMode := False\<rparr>)"
  obtain S1 where e: "ensureSocketPairLocked ?M = (True, S1)" and S1: "socketPair S1" "ar_receive S1 = ar_receive S"
  proof (rule ensureSocket_succeeds [of ?M])
    show "socketPair ?M \<or> reservedSocketPair ?M" using assms(4) by (simp add: stopNatPunchingLocked_def)
  qed (simp add: stopNatPunchingLocked_def)
  have "ar_receive (startSender E S1) = ar_receive S"
    using S1(2) by (simp add: startSender_def new_sender_def detach_input_def Let_def)
  then show ?thesis
    using assms(1-3) S1(1) e by (simp add: AudioRtpSession_start_def startReceiver_def)
qed

end
