(* ===== verification/Sip_Media.thy ===== *)
theory Sip_Media
  imports Audio_Rtp Dialog_Refresh
begin

text \<open>
  The media streams of a SIP call, \<^verbatim>\<open>sip/sipcall.cpp\<close>: their attributes, negotiation, changes asked for by the client or
  by the peer, hold and resume. Audio sessions are those of \<open>Audio_Rtp\<close>; a video session is the list of commands it was given. What
  SDP negotiation yields and what PJSIP and the account answer is an environment that may depend on the state of the call. Port
  numbers, sinks, the message that tells the peer of a mute, and the deferred re-invitations of \<open>Dialog_Refresh\<close> are left out; the
  build is the default one, with video and without \<^verbatim>\<open>RQM\<close>. \<^verbatim>\<open>remainingRequest_\<close> is never set to a
  request, so the code of \<^verbatim>\<open>startAllMedia\<close> that reads it is left out too.
\<close>

section \<open>Data\<close>

datatype video_cmd =
    V_updateMedia media_description media_description | V_reserved | V_setMuted bool direction | V_source string
  | V_start | V_stop | V_restart | V_enterHold bool | V_leaveHold | V_exitConference

datatype rtp_session = Audio_session audio_rtp | Video_session "video_cmd list"

record rtp_stream =
  mediaAttribute :: media_attribute
  remoteMediaAttribute :: "media_attribute option"
  rtpSession :: "rtp_session option" \<comment> \<open>\<^verbatim>\<open>None\<close> is a null pointer\<close>

datatype media_event =
    Offer_sent "media_attribute list" | Answer_sent "media_attribute list"
  | AudioMuted bool | VideoMuted bool | PeerHold bool | PeerMuted bool
  | MediaNegotiationStatus "media_map list" | MediaNegotiationFailed "media_map list"
  | MediaChangeRequested "media_map list" | Conference_asked "media_map list"
  | KeyframeRequested int | EarlyMediaStarted

record scall =
  sm_state :: call_state
  sm_conn :: connection_state
  sm_type :: call_type
  sm_subcall :: bool
  sm_inv :: "invite option"
  sm_transport :: bool
  sm_hangup :: bool \<comment> \<open>\<^verbatim>\<open>localHangupInProgress_\<close>\<close>
  sm_conf :: bool \<comment> \<open>the call is in a conference\<close>
  streams :: "rtp_stream list"
  peerHolding :: bool
  peerMuted :: bool
  earlyMediaRequested :: bool
  earlyMediaStarted :: bool
  mediaRestartRequired :: bool
  pendingAudioSocketPair :: bool
  pendingVideoSocketPair :: bool
  isAudioOnly :: bool
  sm_recording :: bool
  pendingRecord :: bool
  readyToRecord :: bool
  sm_log :: "media_event list" \<comment> \<open>latest first\<close>
  sm_crashed :: bool

record media_env =
  aenv :: audio_env
  default_device :: string \<comment> \<open>\<^verbatim>\<open>getMRLForDefaultDevice\<close>\<close>
  srtp :: bool
  ice_max_comp :: nat
  sm_account :: "scall \<Rightarrow> bool"
  video_enabled :: bool
  auto_answer :: bool
  family_ok :: "scall \<Rightarrow> bool"
  reserve_ok :: "scall \<Rightarrow> media_type \<Rightarrow> bool"
  sm_offer_ok :: "scall \<Rightarrow> bool"
  sm_reinvite_ok :: "scall \<Rightarrow> bool"
  sm_has_tdata :: "scall \<Rightarrow> bool"
  sm_send_ok :: "scall \<Rightarrow> bool"
  answer_prepared :: "scall \<Rightarrow> bool" \<comment> \<open>the offer is processed, negotiation starts, the answer is made\<close>
  sdp_slots :: "scall \<Rightarrow> (media_description \<times> media_description) list" \<comment> \<open>local and remote\<close>
  remote_media :: "scall \<Rightarrow> media_attribute list"
  video_reserved :: "video_cmd list \<Rightarrow> bool" \<comment> \<open>a video session holds a reserved socket pair\<close>
  recorder_ok :: "scall \<Rightarrow> bool"
  terminate_fails :: "scall \<Rightarrow> bool"

definition note_event :: "media_event \<Rightarrow> scall \<Rightarrow> scall" where
  "note_event e C = C\<lparr>sm_log := e # sm_log C\<rparr>"

section \<open>Sessions\<close>

fun session_type :: "rtp_session \<Rightarrow> media_type" where
  "session_type (Audio_session _) = MEDIA_AUDIO"
| "session_type (Video_session _) = MEDIA_VIDEO"

fun session_setMuted :: "bool \<Rightarrow> direction \<Rightarrow> rtp_session \<Rightarrow> rtp_session" where
  "session_setMuted m d (Audio_session S) = Audio_session (AudioRtpSession_setMuted m d S)"
| "session_setMuted m d (Video_session l) = Video_session (l @ [V_setMuted m d])"

fun session_setMediaSource :: "string \<Rightarrow> rtp_session \<Rightarrow> rtp_session" where
  "session_setMediaSource r (Audio_session S) = Audio_session (setMediaSource r S)"
| "session_setMediaSource r (Video_session l) = Video_session (l @ [V_source r])"

fun session_updateMedia :: "media_description \<Rightarrow> media_description \<Rightarrow> rtp_session \<Rightarrow> rtp_session" where
  "session_updateMedia s r (Audio_session S) = Audio_session (updateMedia s r S)"
| "session_updateMedia s r (Video_session l) = Video_session (l @ [V_updateMedia s r])"

fun session_reserve :: "rtp_session \<Rightarrow> rtp_session" where
  "session_reserve (Audio_session S) = Audio_session (setReservedSocketPair S)"
| "session_reserve (Video_session l) = Video_session (l @ [V_reserved])"

fun session_reserved :: "media_env \<Rightarrow> rtp_session \<Rightarrow> bool" where
  "session_reserved E (Audio_session S) = reservedSocketPair S"
| "session_reserved E (Video_session l) = video_reserved E l"

fun session_start :: "media_env \<Rightarrow> rtp_session \<Rightarrow> rtp_session" where
  "session_start E (Audio_session S) = Audio_session (AudioRtpSession_start (aenv E) S)"
| "session_start E (Video_session l) = Video_session (l @ [V_start])"

fun session_stop :: "media_env \<Rightarrow> rtp_session \<Rightarrow> rtp_session" where
  "session_stop E (Audio_session S) = Audio_session (AudioRtpSession_stop (aenv E) S)"
| "session_stop E (Video_session l) = Video_session (l @ [V_stop])"

fun session_restartSender :: "media_env \<Rightarrow> rtp_session \<Rightarrow> rtp_session" where
  "session_restartSender E (Audio_session S) = Audio_session (rtp_restartSender (aenv E) S)"
| "session_restartSender E (Video_session l) = Video_session (l @ [V_restart])"

text \<open>A command to the sessions of some streams; a null pointer among them is followed.\<close>

definition on_session :: "(rtp_session \<Rightarrow> rtp_session) \<Rightarrow> rtp_stream \<Rightarrow> rtp_stream" where
  "on_session f st = st\<lparr>rtpSession := map_option f (rtpSession st)\<rparr>"

definition all_sessions :: "(rtp_session \<Rightarrow> rtp_session) \<Rightarrow> scall \<Rightarrow> scall" where
  "all_sessions f C =
     C\<lparr>streams := map (on_session f) (streams C),
       sm_crashed := (sm_crashed C \<or> list_ex (\<lambda>st. rtpSession st = None) (streams C))\<rparr>"

definition findRtpStreamIndex :: "string \<Rightarrow> scall \<Rightarrow> nat option" where
  "findRtpStreamIndex label C =
     (let i = length (takeWhile (\<lambda>st. ma_label (mediaAttribute st) \<noteq> label) (streams C))
      in if i < length (streams C) then Some i else None)"

definition getMediaAttributeList :: "scall \<Rightarrow> media_attribute list" where
  "getMediaAttributeList C = map mediaAttribute (streams C)"

definition currentMediaList :: "scall \<Rightarrow> media_map list" where
  "currentMediaList C = mediaAttributesToMediaMaps (getMediaAttributeList C)"

definition hasEnabledMedia :: "media_attribute list \<Rightarrow> media_type \<Rightarrow> bool" where
  "hasEnabledMedia l t = list_ex (\<lambda>a. ma_type a = t \<and> ma_enabled a) l"

definition SIPCall_hasVideo :: "scall \<Rightarrow> bool" where
  "SIPCall_hasVideo C =
     list_ex (\<lambda>st. hasValidVideo (mediaAttribute st) \<or> (case remoteMediaAttribute st of None \<Rightarrow> False | Some a \<Rightarrow> hasValidVideo a))
       (streams C)"

definition isCaptureDeviceMuted :: "media_type \<Rightarrow> scall \<Rightarrow> bool" where
  "isCaptureDeviceMuted t C =
     (\<not> list_ex (\<lambda>st. ma_type (mediaAttribute st) = t \<and> \<not> ma_muted (mediaAttribute st)) (streams C))"

section \<open>Streams\<close>

definition addMediaStream :: "media_env \<Rightarrow> media_attribute \<Rightarrow> scall \<Rightarrow> scall" where
  "addMediaStream E a C =
     (let a1 = (if ma_sourceUri a = [] then a\<lparr>ma_sourceUri := default_device E\<rparr> else a)
      in C\<lparr>streams := streams C @ [\<lparr>mediaAttribute = a1, remoteMediaAttribute = None, rtpSession = None\<rparr>]\<rparr>)"

text \<open>The session of the last stream; \<^verbatim>\<open>None\<close> stands for the exception.\<close>

definition createRtpSession :: "media_attribute \<Rightarrow> rtp_session option" where
  "createRtpSession a =
     (if ma_type a = MEDIA_AUDIO then Some (Audio_session AudioRtpSession_new)
      else if ma_type a = MEDIA_VIDEO then Some (Video_session [])
      else None)"

definition add_stream :: "media_env \<Rightarrow> media_attribute \<Rightarrow> scall \<Rightarrow> bool \<times> scall" where
  "add_stream E a C =
     (let C1 = addMediaStream E a C in
      case createRtpSession a of
        None \<Rightarrow> (False, C1)
      | Some r \<Rightarrow> (True, C1\<lparr>streams := (streams C1)[length (streams C) := (last (streams C1))\<lparr>rtpSession := Some r\<rparr>]\<rparr>))"

definition initMediaStreams :: "media_env \<Rightarrow> media_attribute list \<Rightarrow> scall \<Rightarrow> scall" where
  "initMediaStreams E l C =
     fold (\<lambda>a D. if ma_type a \<noteq> MEDIA_AUDIO \<and> ma_type a \<noteq> MEDIA_VIDEO then D else snd (add_stream E a D)) l C"

definition updateMediaStream :: "media_env \<Rightarrow> media_attribute \<Rightarrow> nat \<Rightarrow> scall \<Rightarrow> scall" where
  "updateMediaStream E new i C =
     (let st = streams C ! i; a = mediaAttribute st;
          notifyMute = (ma_muted new \<noteq> ma_muted a);
          a1 = a\<lparr>ma_muted := ma_muted new, ma_onHold := ma_onHold new\<rparr>;
          video = (ma_type a = MEDIA_VIDEO);
          a2 = (if video then a1\<lparr>ma_sourceUri := (if ma_sourceUri new = [] then default_device E else ma_sourceUri new)\<rparr> else a1);
          st1 = st\<lparr>mediaAttribute := a2\<rparr>;
          st2 = (if video then on_session (session_setMediaSource (ma_sourceUri a2)) st1 else st1);
          mutes = (notifyMute \<and> (ma_type a = MEDIA_AUDIO \<or> video));
          st3 = (if mutes then on_session (session_setMuted (ma_muted a2) SEND) st2 else st2);
          C1 = C\<lparr>streams := (streams C)[i := st3],
                 sm_crashed := (sm_crashed C \<or> rtpSession st = None \<and> (video \<or> mutes))\<rparr>
      in if mutes \<and> \<not> sm_subcall C
         then note_event (if video then VideoMuted (ma_muted a2) else AudioMuted (ma_muted a2)) C1
         else C1)"

text \<open>The loop over the new attributes; the first component is false when \<^verbatim>\<open>createRtpSession\<close> throws.\<close>

fun update_streams :: "media_env \<Rightarrow> media_attribute list \<Rightarrow> scall \<Rightarrow> bool \<times> scall" where
  "update_streams E [] C = (True, C)"
| "update_streams E (a # l) C =
     (case findRtpStreamIndex (ma_label a) C of
        Some i \<Rightarrow> update_streams E l (updateMediaStream E a i C)
      | None \<Rightarrow>
          let a1 = (if ma_type a = MEDIA_VIDEO \<and> \<not> sm_conf C then a\<lparr>ma_muted := True\<rparr> else a);
              (ok, C1) = add_stream E a1 C
          in if ok then update_streams E l C1 else (False, C1))"

definition drop_streams :: "nat \<Rightarrow> scall \<Rightarrow> scall" where
  "drop_streams n C =
     (if n < length (streams C)
      then C\<lparr>streams := take n (streams C),
             sm_crashed := (sm_crashed C \<or> list_ex (\<lambda>st. rtpSession st = None) (drop n (streams C)))\<rparr>
      else C)"

text \<open>\<^verbatim>\<open>None\<close>: the exception of \<^verbatim>\<open>createRtpSession\<close> passes through.\<close>

definition updateAllMediaStreams :: "media_env \<Rightarrow> media_attribute list \<Rightarrow> scall \<Rightarrow> bool option \<times> scall" where
  "updateAllMediaStreams E l C =
     (if ice_max_comp E div 2 < length l then (Some False, C)
      else let (ok, C1) = update_streams E l C in
           if \<not> ok then (None, C1) else (Some True, drop_streams (length l) C1))"

section \<open>Reservations and re-invitations\<close>

definition prepareLocalMediaReservations :: "media_env \<Rightarrow> media_attribute list \<Rightarrow> scall \<Rightarrow> bool \<times> scall" where
  "prepareLocalMediaReservations E l C =
     (let audio = hasEnabledMedia l MEDIA_AUDIO; video = hasEnabledMedia l MEDIA_VIDEO in
      if \<not> sm_account E C \<or> \<not> family_ok E C then (False, C)
      else if audio \<and> \<not> reserve_ok E C MEDIA_AUDIO \<or> video \<and> \<not> reserve_ok E C MEDIA_VIDEO then (False, C)
      else (True, C\<lparr>pendingAudioSocketPair := audio, pendingVideoSocketPair := video\<rparr>))"

definition clearPendingLocalReservations :: "scall \<Rightarrow> scall" where
  "clearPendingLocalReservations C = C\<lparr>pendingAudioSocketPair := False, pendingVideoSocketPair := False\<rparr>"

definition SIPCall_reinvite :: "media_env \<Rightarrow> media_attribute list \<Rightarrow> scall \<Rightarrow> pj_result \<times> scall" where
  "SIPCall_reinvite E l C =
     (case sm_inv C of
        None \<Rightarrow> (PJ_EBUSY, C)
      | Some v \<Rightarrow>
          if invite_tsx v then (PJ_EBUSY, C)
          else let (ok, C1) = prepareLocalMediaReservations E l C in
               if \<not> ok then (NOT_PJ_SUCCESS, C1)
               else if \<not> sm_account E C1 then (NOT_PJ_SUCCESS, C1)
               else if \<not> sm_offer_ok E C1 then (NOT_PJ_SUCCESS, clearPendingLocalReservations C1)
               else if \<not> sm_reinvite_ok E C1 then (NOT_PJ_SUCCESS, clearPendingLocalReservations C1)
               else if \<not> sm_has_tdata E C1 then (PJ_SUCCESS, C1)
               else if sm_send_ok E C1
               then (PJ_SUCCESS, note_event (Offer_sent l) (C1\<lparr>sm_inv := Some (v\<lparr>invite_tsx := True\<rparr>)\<rparr>))
               else (NOT_PJ_SUCCESS, clearPendingLocalReservations C1))"

section \<open>Hold and resume\<close>

definition sm_setState :: "call_state \<Rightarrow> connection_state \<Rightarrow> scall \<Rightarrow> bool \<times> scall" where
  "sm_setState cs cn C =
     (if sm_state C \<noteq> cs \<and> \<not> validStateTransition (sm_state C) cs then (False, C)
      else (True, C\<lparr>sm_state := cs, sm_conn := cn\<rparr>))"

fun keepalive_session :: "media_env \<Rightarrow> bool \<Rightarrow> bool \<Rightarrow> bool \<Rightarrow> rtp_session \<Rightarrow> rtp_session" where
  "keepalive_session E enable start pm (Audio_session S) =
     Audio_session (if enable then startHoldKeepalive (aenv E) (AudioRtpSession_setMuted True RECV S)
                    else AudioRtpSession_setMuted pm RECV (stopHoldKeepalive (aenv E) start S))"
| "keepalive_session E enable start pm (Video_session l) = Video_session l"

definition applyLocalHoldAudioKeepalive :: "media_env \<Rightarrow> bool \<Rightarrow> bool \<Rightarrow> scall \<Rightarrow> scall" where
  "applyLocalHoldAudioKeepalive E enable start C =
     C\<lparr>streams := map (\<lambda>st. if ma_type (mediaAttribute st) = MEDIA_AUDIO
                            then on_session (keepalive_session E enable start (peerMuted C)) st else st) (streams C)\<rparr>"

fun blackout_session :: "bool \<Rightarrow> bool \<Rightarrow> bool \<Rightarrow> bool \<Rightarrow> rtp_session \<Rightarrow> rtp_session" where
  "blackout_session enable start localMuted remoteMuted (Video_session l) =
     Video_session (l @ (if enable then [V_setMuted True RECV, V_enterHold start]
                         else [V_leaveHold, V_setMuted localMuted SEND, V_setMuted remoteMuted RECV]))"
| "blackout_session enable start localMuted remoteMuted (Audio_session S) = Audio_session S"

definition applyLocalHoldVideoBlackout :: "bool \<Rightarrow> bool \<Rightarrow> scall \<Rightarrow> scall" where
  "applyLocalHoldVideoBlackout enable start C =
     C\<lparr>streams := map (\<lambda>st. if ma_type (mediaAttribute st) = MEDIA_VIDEO
                            then on_session (blackout_session enable start (ma_muted (mediaAttribute st))
                                   (case remoteMediaAttribute st of None \<Rightarrow> False | Some a \<Rightarrow> ma_muted a)) st
                            else st) (streams C)\<rparr>"

definition set_onHold :: "bool \<Rightarrow> scall \<Rightarrow> scall" where
  "set_onHold b C = C\<lparr>streams := map (\<lambda>st. st\<lparr>mediaAttribute := (mediaAttribute st)\<lparr>ma_onHold := b\<rparr>\<rparr>) (streams C)\<rparr>"

definition leave_hold :: "media_env \<Rightarrow> scall \<Rightarrow> scall" where
  "leave_hold E C = applyLocalHoldVideoBlackout False False (applyLocalHoldAudioKeepalive E False True (set_onHold False C))"

definition SIPCall_hold :: "media_env \<Rightarrow> scall \<Rightarrow> bool \<times> scall" where
  "SIPCall_hold E C =
     (if sm_conn C \<noteq> CONNECTED then (False, C)
      else let (ok, C1) = sm_setState HOLD (sm_conn C) C in
           if \<not> ok then (False, C1)
           else let C2 = applyLocalHoldVideoBlackout True False (applyLocalHoldAudioKeepalive E True False (set_onHold True C1));
                    (r, C3) = SIPCall_reinvite E (getMediaAttributeList C2) C2
                in if r = PJ_SUCCESS then (True, C3)
                   else let C4 = leave_hold E C3 in (False, snd (sm_setState ACTIVE (sm_conn C4) C4)))"

definition internalOffHold :: "media_env \<Rightarrow> scall \<Rightarrow> bool \<times> scall" where
  "internalOffHold E C =
     (let (ok, C1) = sm_setState ACTIVE (sm_conn C) C in
      if \<not> ok then (False, C1)
      else let C2 = leave_hold E C1; (r, C3) = SIPCall_reinvite E (getMediaAttributeList C2) C2
           in if r = PJ_SUCCESS then (True, C3) else (False, snd (SIPCall_hold E C3)))"

definition SIPCall_unhold :: "media_env \<Rightarrow> scall \<Rightarrow> bool \<times> scall" where
  "SIPCall_unhold E C = (if \<not> sm_account E C then (False, C) else internalOffHold E C)"

section \<open>Negotiated media\<close>

definition stopAllMedia :: "media_env \<Rightarrow> scall \<Rightarrow> scall" where
  "stopAllMedia E C = all_sessions (session_stop E) C"

definition start_stream :: "media_env \<Rightarrow> rtp_stream \<Rightarrow> rtp_stream" where
  "start_stream E st =
     (case rtpSession st of
        None \<Rightarrow> st
      | Some r \<Rightarrow> if \<not> session_reserved E r \<and> \<not> ma_enabled (mediaAttribute st) then st else on_session (session_start E) st)"

definition startAllMedia :: "media_env \<Rightarrow> scall \<Rightarrow> scall" where
  "startAllMedia E C =
     (if \<not> sm_transport C then C
      else let C1 = C\<lparr>readyToRecord := False,
                      sm_crashed := (sm_crashed C \<or> list_ex (\<lambda>st. rtpSession st = None) (streams C))\<rparr> in
           if sm_state C1 = HOLD
           then applyLocalHoldVideoBlackout True True (applyLocalHoldAudioKeepalive E True True C1)
           else C1\<lparr>streams := map (start_stream E) (streams C1)\<rparr>)"

fun note_keyframes :: "nat \<Rightarrow> rtp_stream list \<Rightarrow> scall \<Rightarrow> scall" where
  "note_keyframes i [] C = C"
| "note_keyframes i (st # l) C =
     note_keyframes (i + 1) l
       (if rtpSession st \<noteq> None \<and> ma_type (mediaAttribute st) = MEDIA_VIDEO \<and>
           \<not> (case remoteMediaAttribute st of None \<Rightarrow> False | Some a \<Rightarrow> ma_muted a)
        then note_event (KeyframeRequested (int i)) C else C)"

text \<open>\<^verbatim>\<open>updateRemoteMedia\<close>; the key frame it asks for goes to the stream with the label of the remote media, if there is one.\<close>

definition remote_stream :: "rtp_stream \<Rightarrow> media_attribute \<Rightarrow> rtp_stream" where
  "remote_stream st a =
     (let st1 = st\<lparr>remoteMediaAttribute := Some a\<rparr>
      in if ma_type a = MEDIA_VIDEO then on_session (session_setMuted (ma_muted a) RECV) st1 else st1)"

definition updateRemoteMedia :: "media_env \<Rightarrow> scall \<Rightarrow> scall" where
  "updateRemoteMedia E C =
     (let l = remote_media E C in
      if length l \<noteq> length (streams C) then C
      else let C1 = C\<lparr>streams := map2 remote_stream (streams C) l,
                       sm_crashed := (sm_crashed C \<or>
                         list_ex (\<lambda>(st, a). ma_type a = MEDIA_VIDEO \<and> rtpSession st = None) (zip (streams C) l))\<rparr>
           in fold (\<lambda>a D. if ma_type a = MEDIA_VIDEO \<and> \<not> ma_muted a
                         then note_event (KeyframeRequested (case findRtpStreamIndex (ma_label a) D of None \<Rightarrow> - 1 | Some i \<Rightarrow> int i)) D
                         else D) l C1)"

fun session_voice :: "rtp_session \<Rightarrow> rtp_session" where
  "session_voice (Audio_session S) = Audio_session (setVoiceCallback S)"
| "session_voice (Video_session l) = Video_session l"

text \<open>A session whose kind is not that of the media is cast to a null pointer, which is then followed.\<close>

definition configureRtpSession :: "nat \<Rightarrow> media_description \<Rightarrow> media_description \<Rightarrow> scall \<Rightarrow> scall" where
  "configureRtpSession i local remote C =
     (let st = streams C ! i; audio = (md_type local = MEDIA_AUDIO);
          takes = (if audio then pendingAudioSocketPair C else pendingVideoSocketPair C);
          st1 = on_session (session_updateMedia remote local) st;
          st2 = (if takes then on_session session_reserve st1 else st1);
          st3 = on_session (session_setMuted (ma_muted (mediaAttribute st)) SEND) st2;
          st4 = on_session (session_setMediaSource (ma_sourceUri (mediaAttribute st))) st3;
          st5 = (if audio then on_session session_voice st4 else st4)
      in C\<lparr>streams := (streams C)[i := st5],
           pendingAudioSocketPair := (pendingAudioSocketPair C \<and> \<not> audio),
           pendingVideoSocketPair := (pendingVideoSocketPair C \<and> audio),
           sm_crashed := (sm_crashed C \<or> map_option session_type (rtpSession st) \<noteq> Some (md_type local))\<rparr>)"

definition usable_slot :: "media_env \<Rightarrow> media_description \<Rightarrow> media_description \<Rightarrow> bool" where
  "usable_slot E local remote \<longleftrightarrow>
     md_type local = md_type remote \<and> (md_enabled local \<longrightarrow> md_codec local) \<and> (md_enabled remote \<longrightarrow> md_codec remote) \<and>
     \<not> (srtp E \<and> md_enabled local \<and> \<not> md_crypto local) \<and> \<not> (srtp E \<and> md_enabled remote \<and> \<not> md_crypto remote)"

text \<open>The loop of \<^verbatim>\<open>setupNegotiatedMedia\<close>; the first component is false when it throws.\<close>

fun setup_slots :: "media_env \<Rightarrow> nat \<Rightarrow> (media_description \<times> media_description) list \<Rightarrow> bool \<Rightarrow> bool \<Rightarrow> scall \<Rightarrow>
    bool \<times> bool \<times> bool \<times> scall" where
  "setup_slots E i [] hold any C = (True, hold, any, C)"
| "setup_slots E i ((local, remote) # l) hold any C =
     (if length (streams C) \<le> i then setup_slots E (i + 1) l hold any C
      else let st = streams C ! i;
               C1 = C\<lparr>streams := (streams C)[i := st\<lparr>mediaAttribute := (mediaAttribute st)\<lparr>ma_enabled := md_enabled local\<rparr>\<rparr>]\<rparr>
           in if rtpSession st = None \<or> md_type local \<noteq> MEDIA_AUDIO \<and> md_type local \<noteq> MEDIA_VIDEO then (False, hold, any, C1)
              else if \<not> usable_slot E local remote then setup_slots E (i + 1) l hold any C1
              else setup_slots E (i + 1) l (hold \<and> md_onHold remote) True (configureRtpSession i local remote C1))"

definition setupNegotiatedMedia :: "media_env \<Rightarrow> scall \<Rightarrow> bool option \<times> scall" where
  "setupNegotiatedMedia E C =
     (if \<not> sm_transport C \<or> sdp_slots E C = [] then (Some False, C)
      else let (ok, peer_holding, any, C1) = setup_slots E 0 (sdp_slots E C) True False C in
           if \<not> ok then (None, C1)
           else let C2 = C1\<lparr>pendingAudioSocketPair := False, pendingVideoSocketPair := False\<rparr>
                in (Some any, if \<not> sm_subcall C2 \<and> peerHolding C2 \<noteq> peer_holding
                              then note_event (PeerHold peer_holding) (C2\<lparr>peerHolding := peer_holding\<rparr>) else C2))"

definition SIPCall_removeCall :: "scall \<Rightarrow> scall" where
  "SIPCall_removeCall C =
     (snd (sm_setState OVER (sm_conn C) C))\<lparr>sm_inv := None, sm_transport := False, pendingAudioSocketPair := False,
        pendingVideoSocketPair := False\<rparr>"

definition SIPCall_hangup :: "media_env \<Rightarrow> scall \<Rightarrow> scall" where
  "SIPCall_hangup E C =
     (if sm_hangup C then C
      else let C1 = C\<lparr>sm_hangup := True, pendingRecord := False\<rparr>;
               alive = (case sm_inv C1 of None \<Rightarrow> False | Some v \<Rightarrow> inv_state v \<noteq> INV_DISCONNECTED)
           in if alive \<and> terminate_fails E C1 then C1
              else let C2 = stopAllMedia E (C1\<lparr>sm_inv := None\<rparr>)
                   in SIPCall_removeCall (snd (sm_setState (sm_state C2) DISCONNECTED C2)))"

section \<open>Recording\<close>

definition SIPCall_toggleRecording :: "media_env \<Rightarrow> scall \<Rightarrow> scall" where
  "SIPCall_toggleRecording E C =
     (let C1 = C\<lparr>pendingRecord := True\<rparr> in
      if \<not> readyToRecord C1 then C1
      else if \<not> sm_recording C1
      then if \<not> sm_account E C1 then C1
           else (all_sessions id C1)\<lparr>pendingRecord := False, sm_recording := recorder_ok E C1\<rparr>
      else C1\<lparr>pendingRecord := False, sm_recording := False\<rparr>)"

definition SIPCall_reportMediaNegotiationStatus :: "media_env \<Rightarrow> bool \<Rightarrow> scall \<Rightarrow> scall" where
  "SIPCall_reportMediaNegotiationStatus E success C =
     (let C1 = note_event ((if success then MediaNegotiationStatus else MediaNegotiationFailed) (currentMediaList C)) C;
          newState = (\<not> SIPCall_hasVideo C1);
          C2 = (if isAudioOnly C1 \<noteq> newState \<and> sm_recording C1
                then (SIPCall_toggleRecording E (all_sessions id C1))\<lparr>pendingRecord := True\<rparr> else C1);
          C3 = C2\<lparr>isAudioOnly := newState\<rparr>
      in if pendingRecord C3 \<and> readyToRecord C3 then SIPCall_toggleRecording E C3 else C3)"

section \<open>The end of a negotiation\<close>

fun early_session :: "media_env \<Rightarrow> rtp_session \<Rightarrow> rtp_session" where
  "early_session E (Audio_session S) = Audio_session (startEarlyMedia (aenv E) S)"
| "early_session E (Video_session l) = Video_session l"

fun stop_early_session :: "rtp_session \<Rightarrow> rtp_session" where
  "stop_early_session (Audio_session S) = Audio_session (stopEarlyMedia S)"
| "stop_early_session (Video_session l) = Video_session l"

definition startEarlyMediaLocked :: "media_env \<Rightarrow> scall \<Rightarrow> scall" where
  "startEarlyMediaLocked E C =
     C\<lparr>streams := map (on_session (early_session E)) (streams C),
       earlyMediaStarted := list_ex (\<lambda>st. map_option session_type (rtpSession st) = Some MEDIA_AUDIO) (streams C)\<rparr>"

definition inv_is :: "inv_state \<Rightarrow> scall \<Rightarrow> bool" where
  "inv_is s C \<longleftrightarrow> (case sm_inv C of None \<Rightarrow> False | Some v \<Rightarrow> inv_state v = s)"

definition restart_media :: "media_env \<Rightarrow> scall \<Rightarrow> scall" where
  "restart_media E C =
     (let C1 = updateRemoteMedia E (stopAllMedia E C) in
      if sm_type C1 = OUTGOING \<and> inv_is INV_EARLY C1 \<and> earlyMediaRequested C1 \<and> sm_conn C1 \<noteq> CONNECTED
      then let C2 = startEarlyMediaLocked E C1 in if earlyMediaStarted C2 then note_event EarlyMediaStarted C2 else C2
      else let C2 = (if earlyMediaStarted C1
                     then C1\<lparr>streams := map (on_session stop_early_session) (streams C1), earlyMediaStarted := False\<rparr> else C1);
               C3 = startAllMedia E C2;
               C4 = (if sm_inv C3 \<noteq> None \<and> \<not> inv_is INV_EARLY C3 then C3\<lparr>earlyMediaRequested := False\<rparr> else C3)
           in note_keyframes 0 (streams C4) C4)"

text \<open>The first component is false when the function throws.\<close>

definition onMediaNegotiationComplete :: "media_env \<Rightarrow> scall \<Rightarrow> bool \<times> scall" where
  "onMediaNegotiationComplete E C =
     (if sm_inv C = None \<or> inv_is INV_DISCONNECTED C then (True, C)
      else if \<not> mediaRestartRequired C then (True, SIPCall_reportMediaNegotiationStatus E True C)
      else if earlyMediaStarted C \<and> inv_is INV_EARLY C then (True, SIPCall_reportMediaNegotiationStatus E True C)
      else case setupNegotiatedMedia E C of
             (None, C1) \<Rightarrow> (False, C1)
           | (Some False, C1) \<Rightarrow> (True, SIPCall_hangup E (stopAllMedia E C1))
           | (Some True, C1) \<Rightarrow> (True, SIPCall_reportMediaNegotiationStatus E True (restart_media E C1)))"

definition sdp_media_update_cb :: "media_env \<Rightarrow> bool \<Rightarrow> scall \<Rightarrow> scall" where
  "sdp_media_update_cb E success C =
     (if \<not> success then SIPCall_hangup E C
      else let (ok, C1) = onMediaNegotiationComplete E C in if ok then C1 else SIPCall_hangup E C1)"

section \<open>Changes of the media\<close>

definition isReinviteRequired :: "media_attribute list \<Rightarrow> scall \<Rightarrow> bool" where
  "isReinviteRequired l C \<longleftrightarrow>
     length l \<noteq> length (streams C) \<or>
     list_ex (\<lambda>a. case findRtpStreamIndex (ma_label a) C of
                    None \<Rightarrow> True
                  | Some i \<Rightarrow> let b = mediaAttribute (streams C ! i) in ma_onHold a \<noteq> ma_onHold b \<or> ma_enabled a \<noteq> ma_enabled b) l"

text \<open>The list that is asked for: the last audio media, or a media of no type, and the last video media if there is one.\<close>

definition requested_media :: "media_attribute list \<Rightarrow> media_attribute list" where
  "requested_media l =
     (let audio = filter (\<lambda>a. ma_type a = MEDIA_AUDIO) l; video = filter (\<lambda>a. ma_type a = MEDIA_VIDEO) l
      in (if audio = [] then MediaAttribute_default else (last audio)\<lparr>ma_label := DEFAULT_AUDIO_STREAMID\<rparr>) #
         (if video = [] then [] else [(last video)\<lparr>ma_label := DEFAULT_VIDEO_STREAMID\<rparr>]))"

text \<open>\<^verbatim>\<open>None\<close>: an exception. \<^verbatim>\<open>isRestartRequired\<close> is always false.\<close>

definition SIPCall_requestMediaChange :: "media_env \<Rightarrow> media_map list \<Rightarrow> scall \<Rightarrow> bool option \<times> scall" where
  "SIPCall_requestMediaChange E mediaList C =
     (let l = buildMediaAttributesList mediaList (srtp E) in
      if \<not> sm_account E C then (Some False, C)
      else if \<not> video_enabled E \<and> hasMediaType l MEDIA_VIDEO then (Some False, C)
      else let l1 = requested_media l; needReinvite = isReinviteRequired l1 C in
           case updateAllMediaStreams E l1 C of
             (None, C1) \<Rightarrow> (None, C1)
           | (Some False, C1) \<Rightarrow> (Some False, C1)
           | (Some True, C1) \<Rightarrow>
               (Some True, if needReinvite then snd (SIPCall_reinvite E l1 C1) else SIPCall_reportMediaNegotiationStatus E True C1))"

definition SIPCall_muteMedia :: "media_env \<Rightarrow> string \<Rightarrow> bool \<Rightarrow> scall \<Rightarrow> scall" where
  "SIPCall_muteMedia E mediaType mute C =
     snd (SIPCall_requestMediaChange E (mediaAttributesToMediaMaps
            (map (\<lambda>a. if ma_type a = stringToMediaType mediaType then a\<lparr>ma_muted := mute\<rparr> else a) (getMediaAttributeList C))) C)"

definition disable_video :: "media_env \<Rightarrow> media_attribute list \<Rightarrow> media_attribute list" where
  "disable_video E l =
     (if video_enabled E then l else map (\<lambda>a. if ma_type a = MEDIA_VIDEO then a\<lparr>ma_enabled := False\<rparr> else a) l)"

definition SIPCall_answerMediaChangeRequest :: "media_env \<Rightarrow> media_map list \<Rightarrow> scall \<Rightarrow> scall" where
  "SIPCall_answerMediaChangeRequest E mediaList C =
     (if \<not> sm_account E C then C
      else let l = disable_video E (buildMediaAttributesList mediaList (srtp E)) in
           if l = [] then C
           else case updateAllMediaStreams E l C of
                  (Some True, C1) \<Rightarrow>
                    let (ok, C2) = prepareLocalMediaReservations E l C1 in
                    if \<not> ok then C2
                    else if \<not> answer_prepared E C2 then clearPendingLocalReservations C2
                    else if \<not> sm_send_ok E C2 then (clearPendingLocalReservations C2)\<lparr>sm_inv := None\<rparr>
                    else note_event (Answer_sent l) C2
                | (_, C1) \<Rightarrow> C1)"

definition checkMediaChangeRequest :: "media_env \<Rightarrow> media_map list \<Rightarrow> scall \<Rightarrow> bool" where
  "checkMediaChangeRequest E remoteMediaList C \<longleftrightarrow>
     (let l = buildMediaAttributesList remoteMediaList (srtp E) in
      length l \<noteq> length (streams C) \<or>
      list_ex (\<lambda>(a, st). ma_type a \<noteq> ma_type (mediaAttribute st) \<or> ma_enabled a \<noteq> ma_enabled (mediaAttribute st)) (zip l (streams C)))"

definition enrich_media :: "media_env \<Rightarrow> media_map \<Rightarrow> media_map" where
  "enrich_media E m =
     (if smap_find m KEY_MEDIA_TYPE = Some ''MEDIA_TYPE_VIDEO'' \<and> (smap_find m KEY_SOURCE = None \<or> smap_find m KEY_SOURCE = Some [])
      then smap_set KEY_SOURCE (default_device E) m else m)"

definition SIPCall_handleMediaChangeRequest :: "media_env \<Rightarrow> media_map list \<Rightarrow> scall \<Rightarrow> scall" where
  "SIPCall_handleMediaChangeRequest E remoteMediaList C =
     (if \<not> sm_account E C then C
      else if \<not> checkMediaChangeRequest E remoteMediaList C
      then SIPCall_answerMediaChangeRequest E (mediaAttributesToMediaMaps (getMediaAttributeList C)) C
      else let enriched = map (enrich_media E) remoteMediaList in
           if auto_answer E
           then let own = map (\<lambda>st. toMediaMap (mediaAttribute st)) (streams C)
                in SIPCall_answerMediaChangeRequest E (own @ drop (length own) enriched) C
           else note_event (MediaChangeRequested enriched) C)"

text \<open>The peer's offer, as the list of its enabled media; the reply is the status that is returned to PJSIP.\<close>

definition onReceiveReinvite :: "media_env \<Rightarrow> media_attribute list \<Rightarrow> bool \<Rightarrow> scall \<Rightarrow> bool \<times> scall" where
  "onReceiveReinvite E offer trying_ok C =
     (if \<not> sm_account E C then (True, C)
      else if offer = [] then (False, C)
      else if \<not> trying_ok then (True, C)
      else let l = mediaAttributesToMediaMaps offer in
           (True, if sm_conf C then note_event (Conference_asked l) C else SIPCall_handleMediaChangeRequest E l C))"

definition onReceiveOfferIn200OK :: "media_env \<Rightarrow> media_attribute list \<Rightarrow> scall \<Rightarrow> scall" where
  "onReceiveOfferIn200OK E offer C =
     (if streams C \<noteq> [] \<or> \<not> sm_account E C \<or> offer = [] then C
      else let l = disable_video E offer; (ok, C1) = prepareLocalMediaReservations E l (initMediaStreams E l C)
           in if ok \<and> \<not> answer_prepared E C1 then clearPendingLocalReservations C1 else C1)"

definition SIPCall_peerMuted :: "bool \<Rightarrow> int \<Rightarrow> scall \<Rightarrow> scall" where
  "SIPCall_peerMuted muted idx C =
     (let mute = (\<lambda>st. if map_option session_type (rtpSession st) = Some MEDIA_AUDIO
                       then on_session (session_setMuted muted RECV) st else st);
          C1 = (if idx = - 1
                then C\<lparr>streams := map mute (streams C),
                       sm_crashed := (sm_crashed C \<or> list_ex (\<lambda>st. rtpSession st = None) (streams C))\<rparr>
                else if 0 \<le> idx \<and> nat idx < length (streams C)
                then C\<lparr>streams := (streams C)[nat idx := mute (streams C ! nat idx)]\<rparr>
                else C)
      in note_event (PeerMuted muted) (C1\<lparr>peerMuted := muted\<rparr>))"

text \<open>What \<^verbatim>\<open>Manager::onAudioDevicesChanged\<close> does to a call.\<close>

definition audio_devices_changed :: "media_env \<Rightarrow> scall \<Rightarrow> scall" where
  "audio_devices_changed E C =
     (if sm_subcall C \<or> sm_conn C \<noteq> CONNECTED \<or> sm_state C \<noteq> ACTIVE then C else all_sessions (session_restartSender E) C)"

text \<open>\<^verbatim>\<open>switchInput\<close> with a normalised source; what it asks of the video inputs themselves is left out.\<close>

definition SIPCall_switchInput :: "media_env \<Rightarrow> bool \<Rightarrow> string \<Rightarrow> scall \<Rightarrow> bool option \<times> scall" where
  "SIPCall_switchInput E valid source C =
     (if \<not> valid then (Some False, SIPCall_reportMediaNegotiationStatus E False C)
      else case updateAllMediaStreams E (map (\<lambda>a. if ma_type a = MEDIA_VIDEO then a\<lparr>ma_sourceUri := source, ma_muted := (source = [])\<rparr> else a)
                  (getMediaAttributeList C)) C of
             (None, C1) \<Rightarrow> (None, C1)
           | (Some False, C1) \<Rightarrow> (Some False, SIPCall_reportMediaNegotiationStatus E False C1)
           | (Some True, C1) \<Rightarrow> (Some True, SIPCall_reportMediaNegotiationStatus E True C1))"

text \<open>
  \<^verbatim>\<open>answer\<close> with a list of media, from the check of the transport on; the connection is then established. Exceptions
  leave the state that they find.
\<close>

definition SIPCall_answer :: "media_env \<Rightarrow> media_map list \<Rightarrow> scall \<Rightarrow> scall" where
  "SIPCall_answer E mediaList C =
     (if sm_type C \<noteq> INCOMING \<or> \<not> sm_account E C \<or> sm_inv C = None then C
      else let new = buildMediaAttributesList mediaList (srtp E) in
           if new = [] \<and> streams C = [] \<or> new \<noteq> [] \<and> length new \<noteq> length (streams C) then C
           else let l = (if new = [] then getMediaAttributeList C else new);
                    C1 = fold (\<lambda>(i, a). updateMediaStream E a i) (enumerate 0 l) C;
                    (ok, C2) = prepareLocalMediaReservations E l C1
                in if \<not> ok then C2
                   else if \<not> answer_prepared E C2 then clearPendingLocalReservations C2
                   else if \<not> sm_send_ok E C2 then (clearPendingLocalReservations C2)\<lparr>sm_inv := None\<rparr>
                   else snd (sm_setState ACTIVE CONNECTED (note_event (Answer_sent l) C2)))"

fun promote_session :: "media_env \<Rightarrow> rtp_session \<Rightarrow> rtp_session" where
  "promote_session E (Audio_session S) = Audio_session (promoteEarlyMediaToActive (aenv E) S)"
| "promote_session E (Video_session l) = Video_session l"

definition promoteEarlyMediaToActiveLocked :: "media_env \<Rightarrow> scall \<Rightarrow> scall" where
  "promoteEarlyMediaToActiveLocked E C =
     (if \<not> earlyMediaStarted C then C
      else C\<lparr>streams := map (on_session (promote_session E)) (streams C), earlyMediaStarted := False, earlyMediaRequested := False\<rparr>)"

text \<open>\<^verbatim>\<open>onAnswered\<close> and the closure it posts.\<close>

definition onAnswered :: "media_env \<Rightarrow> scall \<Rightarrow> scall" where
  "onAnswered E C = promoteEarlyMediaToActiveLocked E C"

definition answered_closure :: "scall \<Rightarrow> scall" where
  "answered_closure C = (if sm_conn C \<noteq> CONNECTED then snd (sm_setState ACTIVE CONNECTED C) else C)"

section \<open>Runs\<close>

text \<open>
  \<open>Other_state\<close> stands for the handlers that change the state of the call without touching its media, none of which sets
  it on hold; \<open>Invite\<close>, \<open>Transport\<close> and \<open>In_conference\<close> for what happens outside the call; \<open>Session_thread\<close> for the threads
  of a session, which send packets.
\<close>

datatype media_op =
    Hold | Unhold | Request_change "media_map list" | Mute_media string bool | Answer_change "media_map list"
  | Peer_offer "media_attribute list" bool | Offer_in_200 "media_attribute list" | Negotiated bool
  | Peer_muted bool int | Devices_changed | Switch_input bool string | Answer_call "media_map list" | Confirmed | Answered
  | Setup_success | Toggle_recording | Hang_up | Other_state call_state connection_state | Invite "invite option"
  | Transport bool | In_conference bool | Session_thread nat audio_op

fun media_op_ok :: "media_op \<Rightarrow> bool" where
  "media_op_ok (Other_state cs cn) = (cs \<noteq> HOLD)"
| "media_op_ok (Session_thread i r) = (case r of Nat_round _ \<Rightarrow> True | Packets _ \<Rightarrow> True | Packet_loss _ \<Rightarrow> True | _ \<Rightarrow> False)"
| "media_op_ok _ = True"

fun thread_session :: "media_env \<Rightarrow> audio_op \<Rightarrow> rtp_session \<Rightarrow> rtp_session" where
  "thread_session E r (Audio_session S) = Audio_session (audio_exec (aenv E) r S)"
| "thread_session E r (Video_session l) = Video_session l"

fun media_exec :: "media_env \<Rightarrow> media_op \<Rightarrow> scall \<Rightarrow> scall" where
  "media_exec E Hold C = snd (SIPCall_hold E C)"
| "media_exec E Unhold C = snd (SIPCall_unhold E C)"
| "media_exec E (Request_change l) C = snd (SIPCall_requestMediaChange E l C)"
| "media_exec E (Mute_media t m) C = SIPCall_muteMedia E t m C"
| "media_exec E (Answer_change l) C = SIPCall_answerMediaChangeRequest E l C"
| "media_exec E (Peer_offer l ok) C = snd (onReceiveReinvite E l ok C)"
| "media_exec E (Offer_in_200 l) C = onReceiveOfferIn200OK E l C"
| "media_exec E (Negotiated success) C = sdp_media_update_cb E success C"
| "media_exec E (Peer_muted m i) C = SIPCall_peerMuted m i C"
| "media_exec E Devices_changed C = audio_devices_changed E C"
| "media_exec E (Switch_input valid source) C = snd (SIPCall_switchInput E valid source C)"
| "media_exec E (Answer_call l) C = SIPCall_answer E l C"
| "media_exec E Confirmed C = onAnswered E C"
| "media_exec E Answered C = answered_closure C"
| "media_exec E Setup_success C = C\<lparr>readyToRecord := True\<rparr>"
| "media_exec E Toggle_recording C = SIPCall_toggleRecording E C"
| "media_exec E Hang_up C = SIPCall_hangup E C"
| "media_exec E (Other_state cs cn) C = snd (sm_setState cs cn C)"
| "media_exec E (Invite v) C = C\<lparr>sm_inv := v\<rparr>"
| "media_exec E (Transport b) C = C\<lparr>sm_transport := b\<rparr>"
| "media_exec E (In_conference b) C = C\<lparr>sm_conf := b\<rparr>"
| "media_exec E (Session_thread i r) C =
     (if i < length (streams C) then C\<lparr>streams := (streams C)[i := on_session (thread_session E r) (streams C ! i)]\<rparr> else C)"

definition scall_new :: "media_env \<Rightarrow> call_type \<Rightarrow> bool \<Rightarrow> media_attribute list \<Rightarrow> scall" where
  "scall_new E type subcall l =
     initMediaStreams E l
       \<lparr>sm_state = INACTIVE, sm_conn = DISCONNECTED, sm_type = type, sm_subcall = subcall, sm_inv = None, sm_transport = False,
        sm_hangup = False, sm_conf = False, streams = [], peerHolding = False, peerMuted = False, earlyMediaRequested = False,
        earlyMediaStarted = False, mediaRestartRequired = True, pendingAudioSocketPair = False, pendingVideoSocketPair = False,
        isAudioOnly = False, sm_recording = False, pendingRecord = False, readyToRecord = False, sm_log = [], sm_crashed = False\<rparr>"

end
