(* ===== verification/Sip_Hold.thy ===== *)
theory Sip_Hold
  imports Sip_Media
begin

text \<open>
  What holding a call means for its sessions. A locale collects the operations that only change attributes of streams; it is
  interpreted on the properties of audio sessions that a held call needs, and on the invariant of \<open>Audio_Rtp\<close>.
\<close>

section \<open>Properties of the sessions of a call\<close>

fun session_sat :: "(audio_rtp \<Rightarrow> bool) \<Rightarrow> rtp_session \<Rightarrow> bool" where
  "session_sat P (Audio_session S) = P S"
| "session_sat P (Video_session l) = True"

text \<open>The session of a stream is of the type of its attribute, and satisfies a property if it is an audio session.\<close>

definition stream_sat :: "(audio_rtp \<Rightarrow> bool) \<Rightarrow> rtp_stream \<Rightarrow> bool" where
  "stream_sat P st \<longleftrightarrow>
     (case rtpSession st of None \<Rightarrow> True | Some r \<Rightarrow> session_type r = ma_type (mediaAttribute st) \<and> session_sat P r)"

definition media_sat :: "(audio_rtp \<Rightarrow> bool) \<Rightarrow> scall \<Rightarrow> bool" where
  "media_sat P C \<longleftrightarrow> list_all (stream_sat P) (streams C)"

lemma session_types [simp]:
  "session_type (session_setMuted m d r) = session_type r" "session_type (session_setMediaSource u r) = session_type r"
  "session_type (session_updateMedia x y r) = session_type r" "session_type (session_reserve r) = session_type r"
  "session_type (session_start E r) = session_type r" "session_type (session_stop E r) = session_type r"
  "session_type (session_restartSender E r) = session_type r" "session_type (keepalive_session E b b' pm r) = session_type r"
  "session_type (blackout_session b b' lm rm r) = session_type r" "session_type (session_voice r) = session_type r"
  "session_type (thread_session E op r) = session_type r"
  by (cases r; simp)+

lemma on_session_sat:
  assumes "\<And>r. session_sat P r \<Longrightarrow> session_sat Q (f r)" "\<And>r. session_type (f r) = session_type r" "stream_sat P st"
  shows "stream_sat Q (on_session f st)"
  using assms by (cases "rtpSession st") (simp_all add: stream_sat_def on_session_def)

lemma stream_sat_attr [simp]:
  "ma_type a = ma_type (mediaAttribute st) \<Longrightarrow> stream_sat P (st\<lparr>mediaAttribute := a\<rparr>) = stream_sat P st"
  "stream_sat P (st\<lparr>remoteMediaAttribute := b\<rparr>) = stream_sat P st"
  by (simp_all add: stream_sat_def split: option.split)

lemma media_sat_map:
  assumes "\<And>st. stream_sat P st \<Longrightarrow> stream_sat Q (g st)" "media_sat P C"
  shows "media_sat Q (C\<lparr>streams := map g (streams C)\<rparr>)"
  using assms by (simp add: media_sat_def list_all_iff)

lemma media_sat_update:
  assumes "media_sat P C" "stream_sat P st"
  shows "media_sat P (C\<lparr>streams := (streams C)[i := st]\<rparr>)"
  using assms by (auto simp: media_sat_def list_all_iff dest!: set_update_subset_insert [THEN subsetD])

lemma media_sat_nth: "media_sat P C \<Longrightarrow> i < length (streams C) \<Longrightarrow> stream_sat P (streams C ! i)"
  by (simp add: media_sat_def list_all_length)

lemma media_sat_frames [simp]:
  "media_sat P (C\<lparr>sm_crashed := b\<rparr>) = media_sat P C" "media_sat P (C\<lparr>sm_inv := v\<rparr>) = media_sat P C"
  "media_sat P (note_event e C) = media_sat P C" "media_sat P (C\<lparr>sm_state := s\<rparr>) = media_sat P C"
  "media_sat P (C\<lparr>sm_conn := n\<rparr>) = media_sat P C" "media_sat P (C\<lparr>pendingAudioSocketPair := b\<rparr>) = media_sat P C"
  "media_sat P (C\<lparr>pendingVideoSocketPair := b\<rparr>) = media_sat P C" "media_sat P (C\<lparr>pendingRecord := b\<rparr>) = media_sat P C"
  "media_sat P (C\<lparr>sm_recording := b\<rparr>) = media_sat P C" "media_sat P (C\<lparr>isAudioOnly := b\<rparr>) = media_sat P C"
  "media_sat P (C\<lparr>readyToRecord := b\<rparr>) = media_sat P C" "media_sat P (C\<lparr>peerHolding := b\<rparr>) = media_sat P C"
  "media_sat P (C\<lparr>peerMuted := b\<rparr>) = media_sat P C" "media_sat P (C\<lparr>sm_hangup := b\<rparr>) = media_sat P C"
  "media_sat P (C\<lparr>sm_transport := b\<rparr>) = media_sat P C" "media_sat P (C\<lparr>sm_conf := b\<rparr>) = media_sat P C"
  "media_sat P (C\<lparr>earlyMediaRequested := b\<rparr>) = media_sat P C" "media_sat P (C\<lparr>earlyMediaStarted := b\<rparr>) = media_sat P C"
  by (simp_all add: media_sat_def note_event_def)

text \<open>What decides whether a call is held, and the flags of early media.\<close>

definition hold_part :: "scall \<Rightarrow> call_state \<times> bool \<times> bool \<times> bool" where
  "hold_part C = (sm_state C, sm_hangup C, earlyMediaRequested C, earlyMediaStarted C)"

lemma hold_part_frames [simp]:
  "hold_part (C\<lparr>streams := ss\<rparr>) = hold_part C"
  "hold_part (C\<lparr>sm_crashed := b\<rparr>) = hold_part C" "hold_part (C\<lparr>sm_inv := v\<rparr>) = hold_part C"
  "hold_part (note_event e C) = hold_part C" "hold_part (C\<lparr>pendingAudioSocketPair := b\<rparr>) = hold_part C"
  "hold_part (C\<lparr>pendingVideoSocketPair := b\<rparr>) = hold_part C" "hold_part (C\<lparr>pendingRecord := b\<rparr>) = hold_part C"
  "hold_part (C\<lparr>sm_recording := b\<rparr>) = hold_part C" "hold_part (C\<lparr>isAudioOnly := b\<rparr>) = hold_part C"
  "hold_part (C\<lparr>readyToRecord := b\<rparr>) = hold_part C" "hold_part (C\<lparr>peerHolding := b\<rparr>) = hold_part C"
  "hold_part (C\<lparr>peerMuted := b\<rparr>) = hold_part C"
  "hold_part (C\<lparr>sm_transport := b\<rparr>) = hold_part C" "hold_part (C\<lparr>sm_conf := b\<rparr>) = hold_part C"
  by (simp_all add: hold_part_def note_event_def)

lemma prepare_frames [simp]:
  "media_sat P (snd (prepareLocalMediaReservations E l C)) = media_sat P C"
  "hold_part (snd (prepareLocalMediaReservations E l C)) = hold_part C"
  "streams (snd (prepareLocalMediaReservations E l C)) = streams C"
  "media_sat P (clearPendingLocalReservations C) = media_sat P C"
  "hold_part (clearPendingLocalReservations C) = hold_part C" "streams (clearPendingLocalReservations C) = streams C"
  by (simp_all add: prepareLocalMediaReservations_def clearPendingLocalReservations_def Let_def)

lemma reinvite_frames [simp]:
  "media_sat P (snd (SIPCall_reinvite E l C)) = media_sat P C"
  "hold_part (snd (SIPCall_reinvite E l C)) = hold_part C"
  by (auto simp: SIPCall_reinvite_def case_prod_beta Let_def split: option.split)

lemma sessions_id: "all_sessions id C = C\<lparr>sm_crashed := (sm_crashed C \<or> list_ex (\<lambda>st. rtpSession st = None) (streams C))\<rparr>"
proof -
  have "on_session id = id" by (simp add: on_session_def fun_eq_iff option.map_id)
  then show ?thesis by (simp add: all_sessions_def)
qed

lemma report_frames [simp]:
  "media_sat P (SIPCall_toggleRecording E C) = media_sat P C" "hold_part (SIPCall_toggleRecording E C) = hold_part C"
  "media_sat P (SIPCall_reportMediaNegotiationStatus E b C) = media_sat P C"
  "hold_part (SIPCall_reportMediaNegotiationStatus E b C) = hold_part C"
proof -
  show t: "media_sat P (SIPCall_toggleRecording E C) = media_sat P C" "hold_part (SIPCall_toggleRecording E C) = hold_part C" for C
    by (simp_all add: SIPCall_toggleRecording_def sessions_id Let_def)
  show "media_sat P (SIPCall_reportMediaNegotiationStatus E b C) = media_sat P C"
    "hold_part (SIPCall_reportMediaNegotiationStatus E b C) = hold_part C"
    by (simp_all add: SIPCall_reportMediaNegotiationStatus_def sessions_id t Let_def)
qed

section \<open>Operations that only change attributes\<close>

locale kept_by_changes =
  fixes P :: "audio_rtp \<Rightarrow> bool"
  assumes P_new: "P AudioRtpSession_new"
    and P_mute: "P S \<Longrightarrow> P (AudioRtpSession_setMuted m d S)"
    and P_source: "P S \<Longrightarrow> P (setMediaSource r S)"
begin

lemma session_changes:
  "session_sat P r \<Longrightarrow> session_sat P (session_setMuted m d r)"
  "session_sat P r \<Longrightarrow> session_sat P (session_setMediaSource u r)"
  by (cases r; simp add: P_mute P_source)+

lemmas stream_changes = on_session_sat [OF session_changes(1) session_types(1)] on_session_sat [OF session_changes(2) session_types(2)]

lemma updateMediaStream_sat: "media_sat P C \<Longrightarrow> i < length (streams C) \<Longrightarrow> media_sat P (updateMediaStream E a i C)"
  by (auto simp: updateMediaStream_def Let_def intro!: media_sat_update stream_changes dest: media_sat_nth)

lemma createRtpSession_sat: "createRtpSession a = Some r \<Longrightarrow> session_type r = ma_type a \<and> session_sat P r"
  by (auto simp: createRtpSession_def P_new split: if_splits)

lemma add_stream_sat: "media_sat P C \<Longrightarrow> media_sat P (snd (add_stream E a C))"
  using createRtpSession_sat
  by (auto simp: add_stream_def addMediaStream_def media_sat_def stream_sat_def Let_def split: option.split)

lemma initMediaStreams_sat: "media_sat P C \<Longrightarrow> media_sat P (initMediaStreams E l C)"
  unfolding initMediaStreams_def by (induction l arbitrary: C) (simp_all add: add_stream_sat)

lemma update_streams_sat: "media_sat P C \<Longrightarrow> media_sat P (snd (update_streams E l C))"
proof (induction E l C rule: update_streams.induct)
  case (2 E a l C)
  show ?case
  proof (cases "findRtpStreamIndex (ma_label a) C")
    case None
    define a1 where "a1 = (if ma_type a = MEDIA_VIDEO \<and> \<not> sm_conf C then a\<lparr>ma_muted := True\<rparr> else a)"
    have "media_sat P (snd (add_stream E a1 C))" using "2.prems" by (rule add_stream_sat)
    then show ?thesis
      using "2.IH"(1) [OF None] None by (cases "add_stream E a1 C") (auto simp: a1_def Let_def)
  next
    case (Some i)
    then have "i < length (streams C)" by (simp add: findRtpStreamIndex_def Let_def split: if_splits)
    then show ?thesis using "2.IH"(2) [OF Some] "2.prems" Some by (simp add: updateMediaStream_sat)
  qed
qed simp

lemma updateAllMediaStreams_sat: "media_sat P C \<Longrightarrow> media_sat P (snd (updateAllMediaStreams E l C))"
  using update_streams_sat [of C E l]
  by (auto simp: updateAllMediaStreams_def drop_streams_def media_sat_def case_prod_beta Let_def list_all_iff dest: in_set_takeD)

lemma requestMediaChange_sat: "media_sat P C \<Longrightarrow> media_sat P (snd (SIPCall_requestMediaChange E l C))"
  using updateAllMediaStreams_sat [of C E "requested_media (buildMediaAttributesList l (srtp E))"]
  by (auto simp: SIPCall_requestMediaChange_def Let_def split: prod.split option.split bool.split)

lemma answerMediaChangeRequest_sat: "media_sat P C \<Longrightarrow> media_sat P (SIPCall_answerMediaChangeRequest E l C)"
  using updateAllMediaStreams_sat [of C E "disable_video E (buildMediaAttributesList l (srtp E))"]
  by (auto simp: SIPCall_answerMediaChangeRequest_def Let_def case_prod_beta [of _ "prepareLocalMediaReservations _ _ _"]
      split: prod.split option.split bool.split)

lemma peer_offer_sat:
  "media_sat P C \<Longrightarrow> media_sat P (snd (onReceiveReinvite E l ok C))"
  "media_sat P C \<Longrightarrow> media_sat P (onReceiveOfferIn200OK E l C)"
  by (simp_all add: onReceiveReinvite_def SIPCall_handleMediaChangeRequest_def answerMediaChangeRequest_sat
      onReceiveOfferIn200OK_def initMediaStreams_sat case_prod_beta Let_def)

lemma peerMuted_sat: "media_sat P C \<Longrightarrow> media_sat P (SIPCall_peerMuted m i C)"
proof -
  assume C: "media_sat P C"
  let ?g = "\<lambda>st. if map_option session_type (rtpSession st) = Some MEDIA_AUDIO then on_session (session_setMuted m RECV) st else st"
  have g: "stream_sat P st \<Longrightarrow> stream_sat P (?g st)" for st using stream_changes(1) by simp
  have "media_sat P (C\<lparr>streams := map ?g (streams C)\<rparr>)" using g C by (rule media_sat_map)
  moreover have "media_sat P (C\<lparr>streams := (streams C)[k := ?g (streams C ! k)]\<rparr>)" if "k < length (streams C)" for k
    using C g [OF media_sat_nth [OF C that]] by (rule media_sat_update)
  ultimately show ?thesis using C by (auto simp: SIPCall_peerMuted_def Let_def media_sat_def note_event_def)
qed

lemma switchInput_sat: "media_sat P C \<Longrightarrow> media_sat P (snd (SIPCall_switchInput E v s C))"
proof -
  assume C: "media_sat P C"
  let ?l = "map (\<lambda>a. if ma_type a = MEDIA_VIDEO then a\<lparr>ma_sourceUri := s, ma_muted := (s = [])\<rparr> else a) (getMediaAttributeList C)"
  obtain r D where D: "updateAllMediaStreams E ?l C = (r, D)" by fastforce
  then have "media_sat P D" using updateAllMediaStreams_sat [OF C, of E ?l] by simp
  then show ?thesis using C by (cases r; cases "the r") (simp_all add: SIPCall_switchInput_def D)
qed

end

section \<open>The microphone of a session\<close>

definition silent :: "audio_rtp \<Rightarrow> bool" where
  "silent S \<longleftrightarrow> (\<forall>i. audioInput S = Some i \<longrightarrow> \<not> ai_attached i)"

definition sess_ok :: "audio_rtp \<Rightarrow> bool" where
  "sess_ok S \<longleftrightarrow> \<not> earlyMediaMode S \<and> (silent S \<or> md_enabled (ar_send S) \<and> socketPair S)"

lemma setMuted_keeps:
  "silent (AudioRtpSession_setMuted m d S) = silent S" "sess_ok (AudioRtpSession_setMuted m d S) = sess_ok S"
  by (cases d; auto simp: silent_def sess_ok_def)+

lemma stop_silences: "silent (AudioRtpSession_stop E S)" "sess_ok (AudioRtpSession_stop E S)"
  by (simp_all add: silent_def sess_ok_def AudioRtpSession_stop_def stopNatPunchingLocked_def detach_input_def
      preserveCurrentSocketPairReservationIfNeeded_def Let_def split: option.split)

lemma startSender_keeps: "sess_ok S \<Longrightarrow> sess_ok (startSender E S)"
  by (auto simp: sess_ok_def silent_def startSender_def new_sender_def detach_input_def Let_def)

lemma socket_keeps:
  assumes "ensureSocketPairLocked S = (ok, S1)" "sess_ok S"
  shows "sess_ok S1" "\<not> ok \<Longrightarrow> silent S1"
  using assms by (auto simp: ensureSocketPairLocked_def takeReservedSocketPair_def sess_ok_def silent_def split: if_splits)

lemma receiver_keeps: "sess_ok (startReceiver S) = sess_ok S"
  by (simp add: sess_ok_def silent_def startReceiver_def)

lemma stopNat_keeps:
  "sess_ok S \<Longrightarrow> sess_ok (stopNatPunchingLocked (S\<lparr>earlyMediaMode := False, holdKeepaliveMode := False\<rparr>))"
  "sess_ok S \<Longrightarrow> sess_ok (stopNatPunchingLocked (S\<lparr>holdKeepaliveMode := False\<rparr>))"
  by (simp_all add: sess_ok_def silent_def stopNatPunchingLocked_def)

lemma start_keeps: "sess_ok S \<Longrightarrow> sess_ok (AudioRtpSession_start E S)"
proof -
  assume S: "sess_ok S"
  obtain ok S1 where e: "ensureSocketPairLocked (stopNatPunchingLocked (S\<lparr>earlyMediaMode := False, holdKeepaliveMode := False\<rparr>)) = (ok, S1)"
    by fastforce
  show ?thesis
    using socket_keeps(1) [OF e stopNat_keeps(1) [OF S]]
    by (simp add: AudioRtpSession_start_def e stop_silences receiver_keeps startSender_keeps)
qed

lemma startNat_keeps: "silent (startNatPunchingLocked E S) = silent S" "sess_ok (startNatPunchingLocked E S) = sess_ok S"
  by (simp_all add: silent_def sess_ok_def startNatPunchingLocked_def natPing_def send_packets_def split: option.split)

lemma keepalive_silences:
  assumes "sess_ok S"
  shows "silent (startHoldKeepalive E S)" "sess_ok (startHoldKeepalive E S)"
proof -
  obtain ok S1 where e: "ensureSocketPairLocked S = (ok, S1)" by fastforce
  note S1 = socket_keeps [OF e assms]
  have n: "silent (new_sender E (T\<lparr>initSeqVal := q, audioInput := None\<rparr>))" "silent (T\<lparr>audioInput := None\<rparr>)"
    "sess_ok (new_sender E (T\<lparr>initSeqVal := q, audioInput := None\<rparr>)) = (\<not> earlyMediaMode T)"
    "sess_ok (T\<lparr>audioInput := None\<rparr>) = (\<not> earlyMediaMode T)" for T q
    by (auto simp: silent_def sess_ok_def new_sender_def Let_def)
  have early: "\<not> earlyMediaMode S1" using S1(1) by (simp add: sess_ok_def)
  have off: "\<not> md_enabled (ar_send S) \<Longrightarrow> silent S" using assms by (auto simp: sess_ok_def)
  let ?S2 = "S1\<lparr>holdKeepaliveMode := True, audioInput := None\<rparr>"
  have S3: "silent (new_sender E (?S2\<lparr>initSeqVal := q\<rparr>))" "sess_ok (new_sender E (?S2\<lparr>initSeqVal := q\<rparr>))"
    "silent ?S2" "sess_ok ?S2" for q
    using early by (auto simp: silent_def sess_ok_def new_sender_def Let_def)
  show "silent (startHoldKeepalive E S)" "sess_ok (startHoldKeepalive E S)"
    using assms S1 S3 off by (auto simp: startHoldKeepalive_def e Let_def startNat_keeps)
qed

lemma stopHold_keeps: "sess_ok S \<Longrightarrow> sess_ok (stopHoldKeepalive E b S)"
proof -
  assume S: "sess_ok S"
  let ?S1 = "stopNatPunchingLocked (S\<lparr>holdKeepaliveMode := False\<rparr>)"
  obtain ok S2 where e: "ensureSocketPairLocked ?S1 = (ok, S2)" by fastforce
  show ?thesis
    using socket_keeps(1) [OF e stopNat_keeps(2) [OF S]] stopNat_keeps(2) [OF S]
    by (simp add: stopHoldKeepalive_def e startSender_keeps Let_def)
qed

lemma small_keeps:
  "silent (setMediaSource r S) = silent S" "sess_ok (setMediaSource r S) = sess_ok S"
  "silent (setReservedSocketPair S) = silent S" "sess_ok (setReservedSocketPair S) = sess_ok S"
  "silent (setVoiceCallback S) = silent S" "sess_ok (setVoiceCallback S) = sess_ok S"
  by (simp_all add: silent_def sess_ok_def setMediaSource_def setReservedSocketPair_def setVoiceCallback_def)

lemma restart_keeps: "sess_ok S \<Longrightarrow> sess_ok (rtp_restartSender E S)"
  by (simp add: rtp_restartSender_def startSender_keeps)

lemma thread_keeps:
  assumes "media_op_ok (Session_thread i r)"
  shows "silent (audio_exec E r S) = silent S" "sess_ok (audio_exec E r S) = sess_ok S"
  using assms by (cases r; simp add: silent_def sess_ok_def processNatPunch_def natPing_def send_packets_def setNewPacketLoss_def
      Let_def split: option.split)+

interpretation quiet_changes: kept_by_changes silent
  by unfold_locales (simp_all add: setMuted_keeps small_keeps, simp add: silent_def AudioRtpSession_new_def)

interpretation ok_changes: kept_by_changes sess_ok
  by unfold_locales (simp_all add: setMuted_keeps small_keeps, simp add: sess_ok_def silent_def AudioRtpSession_new_def)

section \<open>What the operations leave alone\<close>

lemma updateMediaStream_part [simp]: "hold_part (updateMediaStream E a i C) = hold_part C"
  by (simp add: updateMediaStream_def Let_def)

lemma add_stream_part [simp]: "hold_part (snd (add_stream E a C)) = hold_part C"
  by (simp add: add_stream_def addMediaStream_def Let_def split: option.split)

lemma initMediaStreams_part [simp]: "hold_part (initMediaStreams E l C) = hold_part C"
  unfolding initMediaStreams_def by (induction l arbitrary: C) simp_all

lemma update_streams_part [simp]: "hold_part (snd (update_streams E l C)) = hold_part C"
proof (induction E l C rule: update_streams.induct)
  case (2 E a l C)
  show ?case
  proof (cases "findRtpStreamIndex (ma_label a) C")
    case None
    define a1 where "a1 = (if ma_type a = MEDIA_VIDEO \<and> \<not> sm_conf C then a\<lparr>ma_muted := True\<rparr> else a)"
    obtain ok D where D: "add_stream E a1 C = (ok, D)" by fastforce
    then have "hold_part D = hold_part C" using add_stream_part [of E a1 C] by simp
    then show ?thesis
      using "2.IH"(1) [OF None a1_def D [symmetric] refl] None D by (auto simp: a1_def Let_def)
  qed (use "2.IH"(2) in simp)
qed simp

lemma updateAll_part [simp]: "hold_part (snd (updateAllMediaStreams E l C)) = hold_part C"
  by (simp add: updateAllMediaStreams_def drop_streams_def case_prod_beta Let_def)

lemma requestMediaChange_part [simp]: "hold_part (snd (SIPCall_requestMediaChange E ms C)) = hold_part C"
proof -
  define l where "l = requested_media (buildMediaAttributesList ms (srtp E))"
  obtain r D where D: "updateAllMediaStreams E l C = (r, D)" by fastforce
  then have "hold_part D = hold_part C" using updateAll_part [of E l C] by simp
  then show ?thesis by (cases r; cases "the r") (simp_all add: SIPCall_requestMediaChange_def Let_def D flip: l_def)
qed

lemma answerMediaChange_part [simp]: "hold_part (SIPCall_answerMediaChangeRequest E ms C) = hold_part C"
proof -
  define l where "l = disable_video E (buildMediaAttributesList ms (srtp E))"
  obtain r D where D: "updateAllMediaStreams E l C = (r, D)" by fastforce
  then have "hold_part D = hold_part C" using updateAll_part [of E l C] by simp
  then show ?thesis
    by (cases r; cases "the r") (simp_all add: SIPCall_answerMediaChangeRequest_def Let_def D case_prod_beta flip: l_def)
qed

lemma switchInput_part [simp]: "hold_part (snd (SIPCall_switchInput E v s C)) = hold_part C"
proof -
  define l where "l = map (\<lambda>a. if ma_type a = MEDIA_VIDEO then a\<lparr>ma_sourceUri := s, ma_muted := (s = [])\<rparr> else a) (getMediaAttributeList C)"
  obtain r D where D: "updateAllMediaStreams E l C = (r, D)" by fastforce
  then have "hold_part D = hold_part C" using updateAll_part [of E l C] by simp
  then show ?thesis by (cases r; cases "the r") (simp_all add: SIPCall_switchInput_def D flip: l_def)
qed

lemma peer_part [simp]:
  "hold_part (snd (onReceiveReinvite E l ok C)) = hold_part C" "hold_part (onReceiveOfferIn200OK E l C) = hold_part C"
  "hold_part (SIPCall_peerMuted m i C) = hold_part C"
  by (simp_all add: onReceiveReinvite_def SIPCall_handleMediaChangeRequest_def onReceiveOfferIn200OK_def SIPCall_peerMuted_def
      case_prod_beta Let_def)

lemma sessions_part [simp]:
  "hold_part (all_sessions f C) = hold_part C" "hold_part (stopAllMedia E C) = hold_part C"
  "hold_part (applyLocalHoldAudioKeepalive E b b' C) = hold_part C" "hold_part (applyLocalHoldVideoBlackout b b' C) = hold_part C"
  "hold_part (set_onHold b C) = hold_part C" "hold_part (leave_hold E C) = hold_part C" "hold_part (startAllMedia E C) = hold_part C"
  by (simp_all add: all_sessions_def stopAllMedia_def applyLocalHoldAudioKeepalive_def applyLocalHoldVideoBlackout_def set_onHold_def
      leave_hold_def startAllMedia_def Let_def)

lemma fold_keeps: "(\<And>a D. h (g a D) = h D) \<Longrightarrow> h (fold g l C) = h C"
  by (induction l arbitrary: C) simp_all

lemma updateRemoteMedia_part [simp]: "hold_part (updateRemoteMedia E C) = hold_part C"
  by (simp add: updateRemoteMedia_def Let_def fold_keeps [of hold_part])

lemma note_keyframes_part [simp]: "hold_part (note_keyframes i l C) = hold_part C"
  by (induction i l C rule: note_keyframes.induct) simp_all

lemma configure_part [simp]: "hold_part (configureRtpSession i x y C) = hold_part C"
  by (simp add: configureRtpSession_def Let_def)

lemma setup_slots_part: "hold_part (snd (snd (snd (setup_slots E i l h a C)))) = hold_part C"
  by (induction E i l h a C rule: setup_slots.induct) (simp_all add: Let_def)

lemma setup_part [simp]: "hold_part (snd (setupNegotiatedMedia E C)) = hold_part C"
  by (simp add: setupNegotiatedMedia_def setup_slots_part case_prod_beta Let_def)

section \<open>Negotiation and hold\<close>

lemma sat_sessions:
  assumes "\<And>r. session_sat P r \<Longrightarrow> session_sat Q (f r)" "\<And>r. session_type (f r) = session_type r" "media_sat P C"
  shows "media_sat Q (all_sessions f C)" "media_sat Q (C\<lparr>streams := map (on_session f) (streams C)\<rparr>)"
  using media_sat_map [OF on_session_sat [OF assms(1,2)] assms(3)] by (simp_all add: all_sessions_def media_sat_def)

lemma any_sat: "media_sat P C \<Longrightarrow> media_sat (\<lambda>_. True) C"
proof -
  have "session_sat (\<lambda>_. True) r" for r by (cases r) simp_all
  then have "stream_sat P st \<Longrightarrow> stream_sat (\<lambda>_. True) st" for st by (simp add: stream_sat_def split: option.splits)
  then show "media_sat P C \<Longrightarrow> media_sat (\<lambda>_. True) C" by (simp add: media_sat_def list_all_iff)
qed

lemma stopAllMedia_sat:
  assumes "media_sat P C"
  shows "media_sat silent (stopAllMedia E C)" "media_sat sess_ok (stopAllMedia E C)"
proof -
  have "session_sat silent (session_stop E r)" "session_sat sess_ok (session_stop E r)" for r
    by (cases r; simp add: stop_silences)+
  then show "media_sat silent (stopAllMedia E C)" "media_sat sess_ok (stopAllMedia E C)"
    unfolding stopAllMedia_def using assms by (simp_all add: sat_sessions(1) [of P])
qed

lemma keepalive_sat:
  assumes "media_sat sess_ok C"
  shows "media_sat silent (applyLocalHoldAudioKeepalive E True b C)" "media_sat sess_ok (applyLocalHoldAudioKeepalive E b' b C)"
proof -
  let ?f = "\<lambda>b' b. keepalive_session E b' b (peerMuted C)"
  have s: "session_sat sess_ok r \<Longrightarrow> session_sat silent (?f True b r)" "session_sat sess_ok r \<Longrightarrow> session_sat sess_ok (?f b' b r)" for r b b'
    by (cases r; simp add: keepalive_silences stopHold_keeps setMuted_keeps del: AudioRtpSession_setMuted.simps)+
  have other: "stream_sat sess_ok st \<Longrightarrow> ma_type (mediaAttribute st) \<noteq> MEDIA_AUDIO \<Longrightarrow> stream_sat silent st" for st
    by (auto simp: stream_sat_def split: option.splits) (metis session_sat.simps(2) session_type.elims)
  show "media_sat silent (applyLocalHoldAudioKeepalive E True b C)"
    unfolding applyLocalHoldAudioKeepalive_def
    by (rule media_sat_map [OF _ assms]) (simp add: on_session_sat [OF s(1) session_types(8)] other)
  show "media_sat sess_ok (applyLocalHoldAudioKeepalive E b' b C)"
    unfolding applyLocalHoldAudioKeepalive_def
    by (rule media_sat_map [OF _ assms]) (simp add: on_session_sat [OF s(2) session_types(8)])
qed

lemma blackout_sat: "media_sat P C \<Longrightarrow> media_sat P (applyLocalHoldVideoBlackout b b' C)"
proof -
  have s: "session_sat P r \<Longrightarrow> session_sat P (blackout_session b b' lm rm r)" for r lm rm by (cases r) simp_all
  show "media_sat P C \<Longrightarrow> media_sat P (applyLocalHoldVideoBlackout b b' C)"
    unfolding applyLocalHoldVideoBlackout_def
    by (rule media_sat_map) (simp_all add: on_session_sat [OF s session_types(9)])
qed

lemma set_onHold_sat: "media_sat P C \<Longrightarrow> media_sat P (set_onHold b C)"
  unfolding set_onHold_def by (rule media_sat_map) simp_all

lemma leave_hold_sat: "media_sat sess_ok C \<Longrightarrow> media_sat sess_ok (leave_hold E C)"
  unfolding leave_hold_def by (intro blackout_sat keepalive_sat(2) set_onHold_sat)

lemma startAllMedia_sat:
  assumes "media_sat sess_ok C" "media_sat silent C"
  shows "media_sat sess_ok (startAllMedia E C)" "sm_state C = HOLD \<Longrightarrow> media_sat silent (startAllMedia E C)"
proof -
  have s: "session_sat sess_ok r \<Longrightarrow> session_sat sess_ok (session_start E r)" for r by (cases r) (simp_all add: start_keeps)
  have "stream_sat sess_ok st \<Longrightarrow> stream_sat sess_ok (start_stream E st)" for st
    using on_session_sat [OF s session_types(5)] by (auto simp: start_stream_def split: option.split)
  then have "media_sat sess_ok (D\<lparr>streams := map (start_stream E) (streams D)\<rparr>)" if "media_sat sess_ok D" for D
    using that by (rule media_sat_map)
  note start = this
  define C1 where "C1 = C\<lparr>readyToRecord := False, sm_crashed := (sm_crashed C \<or> list_ex (\<lambda>st. rtpSession st = None) (streams C))\<rparr>"
  have C1: "media_sat sess_ok C1" "media_sat silent C1" "sm_state C1 = sm_state C" using assms by (simp_all add: C1_def)
  have e: "startAllMedia E C = (if \<not> sm_transport C then C
      else if sm_state C1 = HOLD then applyLocalHoldVideoBlackout True True (applyLocalHoldAudioKeepalive E True True C1)
      else C1\<lparr>streams := map (start_stream E) (streams C1)\<rparr>)"
    by (simp add: startAllMedia_def C1_def Let_def)
  show "media_sat sess_ok (startAllMedia E C)"
    unfolding e using assms(1) start [OF C1(1)] blackout_sat [OF keepalive_sat(2) [OF C1(1)]] by simp
  show "media_sat silent (startAllMedia E C)" if "sm_state C = HOLD"
    unfolding e using assms(2) that C1(3) blackout_sat [OF keepalive_sat(1) [OF C1(1)]] by simp
qed

context kept_by_changes
begin

lemma updateRemoteMedia_sat:
  assumes "media_sat P C"
  shows "media_sat P (updateRemoteMedia E C)"
proof -
  have "stream_sat P st \<Longrightarrow> stream_sat P (remote_stream st a)" for st a
    using stream_changes(1) by (simp add: remote_stream_def Let_def)
  then have "list_all (stream_sat P) (map2 remote_stream (streams C) (remote_media E C))"
    using assms by (force simp: media_sat_def list_all_iff dest: set_zip_leftD)
  then have "media_sat P (C\<lparr>streams := map2 remote_stream (streams C) (remote_media E C)\<rparr>)" by (simp add: media_sat_def)
  then show ?thesis
    using assms by (simp add: updateRemoteMedia_def Let_def fold_keeps [of "media_sat P"])
qed

lemma answer_updates_sat:
  assumes "media_sat P C" "k + length l \<le> length (streams C)"
  shows "media_sat P (fold (\<lambda>(i, a). updateMediaStream E a i) (enumerate k l) C)"
  using assms
proof (induction l arbitrary: k C)
  case (Cons a l)
  have "length (streams (updateMediaStream E a k C)) = length (streams C)"
    by (simp add: updateMediaStream_def note_event_def Let_def)
  then show ?case using Cons by (simp add: updateMediaStream_sat)
qed simp

end

lemma configure_sat:
  assumes "media_sat (\<lambda>_. True) C" "i < length (streams C)"
  shows "media_sat (\<lambda>_. True) (configureRtpSession i x y C)"
proof -
  have s: "session_sat (\<lambda>_. True) r" for r by (cases r) simp_all
  have step: "stream_sat (\<lambda>_. True) st \<Longrightarrow> stream_sat (\<lambda>_. True) (on_session f st)" if "\<And>r. session_type (f r) = session_type r" for f st
    using that by (rule on_session_sat [OF s])
  show ?thesis
    using assms media_sat_nth [OF assms]
    by (simp add: configureRtpSession_def Let_def media_sat_update step)
qed

lemma setup_slots_sat: "media_sat (\<lambda>_. True) C \<Longrightarrow> media_sat (\<lambda>_. True) (snd (snd (snd (setup_slots E i l h a C))))"
proof (induction E i l h a C rule: setup_slots.induct)
  case (2 E i x y l h a C)
  define st where "st = streams C ! i"
  define C1 where "C1 = C\<lparr>streams := (streams C)[i := st\<lparr>mediaAttribute := (mediaAttribute st)\<lparr>ma_enabled := md_enabled x\<rparr>\<rparr>]\<rparr>"
  show ?case
  proof (cases "length (streams C) \<le> i")
    case False
    then have C1: "media_sat (\<lambda>_. True) C1" "i < length (streams C1)"
      using "2.prems" media_sat_nth [of "\<lambda>_. True" C i] by (auto simp: C1_def st_def intro!: media_sat_update)
    then have "media_sat (\<lambda>_. True) (configureRtpSession i x y C1)" by (rule configure_sat)
    then show ?thesis
      using "2.IH"(2,3) [OF False st_def C1_def] C1 False by (simp add: Let_def flip: st_def C1_def)
  qed (use "2.IH"(1) "2.prems" in simp)
qed simp

lemma setup_sat: "media_sat P C \<Longrightarrow> media_sat (\<lambda>_. True) (snd (setupNegotiatedMedia E C))"
  using setup_slots_sat [OF any_sat, of P C E] any_sat [of P C]
  by (simp add: setupNegotiatedMedia_def case_prod_beta Let_def)

section \<open>Held calls\<close>

definition held_ok :: "scall \<Rightarrow> bool" where
  "held_ok C \<longleftrightarrow> sm_state C = OVER \<or>
     media_sat sess_ok C \<and> (sm_state C = HOLD \<longrightarrow> media_sat silent C) \<and>
     \<not> sm_hangup C \<and> \<not> earlyMediaRequested C \<and> \<not> earlyMediaStarted C"

lemma held_okI:
  assumes "held_ok C" "hold_part D = hold_part C" "media_sat sess_ok C \<Longrightarrow> media_sat sess_ok D" "media_sat silent C \<Longrightarrow> media_sat silent D"
  shows "held_ok D"
  using assms by (auto simp: held_ok_def hold_part_def)

lemma part_eqD:
  assumes "hold_part D = hold_part C"
  shows "sm_state D = sm_state C" "sm_hangup D = sm_hangup C" "earlyMediaRequested D = earlyMediaRequested C"
    "earlyMediaStarted D = earlyMediaStarted C"
  using assms by (simp_all add: hold_part_def)

lemma attribute_ops_hold:
  assumes "held_ok C"
  shows "held_ok (snd (SIPCall_requestMediaChange E ms C))" "held_ok (SIPCall_answerMediaChangeRequest E ms C)"
    "held_ok (snd (SIPCall_switchInput E v s C))" "held_ok (snd (onReceiveReinvite E l ok C))" "held_ok (onReceiveOfferIn200OK E l C)"
    "held_ok (SIPCall_peerMuted m i C)" "held_ok (SIPCall_toggleRecording E C)"
  by (rule held_okI [OF assms], simp, rule ok_changes.requestMediaChange_sat ok_changes.answerMediaChangeRequest_sat
        ok_changes.switchInput_sat ok_changes.peer_offer_sat ok_changes.peerMuted_sat, assumption,
      rule quiet_changes.requestMediaChange_sat quiet_changes.answerMediaChangeRequest_sat
        quiet_changes.switchInput_sat quiet_changes.peer_offer_sat quiet_changes.peerMuted_sat, assumption)+
    (rule held_okI [OF assms]; simp)

lemma restart_media_held:
  assumes "media_sat P C" "\<not> sm_hangup C" "\<not> earlyMediaRequested C" "\<not> earlyMediaStarted C"
  shows "held_ok (restart_media E C)"
proof -
  define C1 where "C1 = updateRemoteMedia E (stopAllMedia E C)"
  have C1: "media_sat sess_ok C1" "media_sat silent C1" "hold_part C1 = hold_part C"
    unfolding C1_def
    using ok_changes.updateRemoteMedia_sat [OF stopAllMedia_sat(2) [OF assms(1)]]
      quiet_changes.updateRemoteMedia_sat [OF stopAllMedia_sat(1) [OF assms(1)]] by simp_all
  define C3 where "C3 = startAllMedia E C1"
  have C3: "hold_part C3 = hold_part C" by (simp add: C3_def C1)
  have "held_ok C3"
    using startAllMedia_sat [OF C1(1,2), of E] assms part_eqD [OF C3] part_eqD [OF C1(3)]
    unfolding held_ok_def C3_def by simp
  moreover have "restart_media E C = note_keyframes 0 (streams (C3\<lparr>earlyMediaRequested := False\<rparr>)) (C3\<lparr>earlyMediaRequested := False\<rparr>)"
  proof -
    have "\<not> earlyMediaRequested C1" "\<not> earlyMediaStarted C1" using assms part_eqD [OF C1(3)] by simp_all
    moreover have "C3\<lparr>earlyMediaRequested := False\<rparr> = C3" using assms(3) part_eqD(3) [OF C3] by simp
    ultimately show ?thesis by (simp add: restart_media_def Let_def flip: C1_def C3_def)
  qed
  moreover have "held_ok (C3\<lparr>earlyMediaRequested := False\<rparr>) = held_ok C3"
    using part_eqD(3) [OF C3] assms(3) by (simp add: held_ok_def)
  moreover have "media_sat Q (note_keyframes i l D) = media_sat Q D" for Q i l D
    by (induction i l D rule: note_keyframes.induct) simp_all
  ultimately show ?thesis using held_okI note_keyframes_part by metis
qed

text \<open>A call that is over stays over, and only \<^verbatim>\<open>hold\<close> puts a call on hold.\<close>

lemma over_final: "validStateTransition OVER cs \<longleftrightarrow> cs = OVER" "validStateTransition cs OVER" "validStateTransition HOLD ACTIVE"
  by (cases cs; simp add: validStateTransition.simps)+

lemma setState_over: "sm_state C = OVER \<Longrightarrow> sm_state (snd (sm_setState cs cn C)) = OVER"
  by (simp add: sm_setState_def over_final)

lemma setState_held:
  assumes "held_ok C" "cs \<noteq> HOLD"
  shows "held_ok (snd (sm_setState cs cn C))"
proof (cases "sm_state C = OVER")
  case True
  then show ?thesis by (simp add: held_ok_def setState_over)
next
  case False
  then show ?thesis using assms by (simp add: held_ok_def sm_setState_def)
qed

lemma hold_held:
  assumes "held_ok C"
  shows "held_ok (snd (SIPCall_hold E C))"
proof (cases "sm_conn C = CONNECTED \<and> fst (sm_setState HOLD (sm_conn C) C)")
  case True
  then have live: "sm_state C \<noteq> OVER" by (auto simp: sm_setState_def over_final split: if_splits)
  define C1 where "C1 = C\<lparr>sm_state := HOLD, sm_conn := sm_conn C\<rparr>"
  define C2 where "C2 = applyLocalHoldVideoBlackout True False (applyLocalHoldAudioKeepalive E True False (set_onHold True C1))"
  obtain r C3 where r: "SIPCall_reinvite E (getMediaAttributeList C2) C2 = (r, C3)" by fastforce
  have "media_sat sess_ok (set_onHold True C1)"
    using assms live by (intro set_onHold_sat) (simp add: held_ok_def C1_def)
  then have C2: "media_sat sess_ok C2" "media_sat silent C2" "hold_part C2 = hold_part C1"
    unfolding C2_def by (simp_all add: blackout_sat keepalive_sat)
  have C3: "media_sat sess_ok C3" "media_sat silent C3" "hold_part C3 = hold_part C1"
    using C2 reinvite_frames(1) [of sess_ok E "getMediaAttributeList C2" C2]
      reinvite_frames(1) [of silent E "getMediaAttributeList C2" C2] reinvite_frames(2) [of E "getMediaAttributeList C2" C2] by (simp_all add: r)
  have C4: "media_sat sess_ok (leave_hold E C3)" "hold_part (leave_hold E C3) = hold_part C1"
    using C3 by (simp_all add: leave_hold_sat)
  have flags: "\<not> sm_hangup C1" "\<not> earlyMediaRequested C1" "\<not> earlyMediaStarted C1" "sm_state C1 = HOLD"
    using assms live by (simp_all add: held_ok_def C1_def)
  have s: "sm_setState HOLD CONNECTED C = (True, C1)"
    using True by (auto simp: sm_setState_def C1_def split: if_splits)
  have e: "snd (SIPCall_hold E C) = (if r = PJ_SUCCESS then C3 else snd (sm_setState ACTIVE (sm_conn (leave_hold E C3)) (leave_hold E C3)))"
    using True by (simp add: SIPCall_hold_def s r Let_def flip: C2_def)
  have "held_ok C3" using C3 flags part_eqD [OF C3(3)] by (simp add: held_ok_def)
  moreover have "held_ok (snd (sm_setState ACTIVE (sm_conn (leave_hold E C3)) (leave_hold E C3)))"
    using C4(1) flags part_eqD [OF C4(2)] by (simp add: held_ok_def sm_setState_def over_final)
  ultimately show ?thesis unfolding e by simp
qed (use assms in \<open>auto simp: SIPCall_hold_def sm_setState_def\<close>)

lemma offhold_held:
  assumes "held_ok C"
  shows "held_ok (snd (internalOffHold E C))"
proof (cases "fst (sm_setState ACTIVE (sm_conn C) C)")
  case True
  define C1 where "C1 = C\<lparr>sm_state := ACTIVE, sm_conn := sm_conn C\<rparr>"
  have s: "sm_setState ACTIVE (sm_conn C) C = (True, C1)"
    using True by (auto simp: sm_setState_def C1_def split: if_splits)
  have live: "sm_state C \<noteq> OVER" using True by (auto simp: sm_setState_def over_final split: if_splits)
  obtain r C3 where r: "SIPCall_reinvite E (getMediaAttributeList (leave_hold E C1)) (leave_hold E C1) = (r, C3)" by fastforce
  have "media_sat sess_ok C1" using assms live by (simp add: held_ok_def C1_def)
  then have C3: "media_sat sess_ok C3" "hold_part C3 = hold_part C1"
    using reinvite_frames(1) [of sess_ok E "getMediaAttributeList (leave_hold E C1)" "leave_hold E C1"]
      reinvite_frames(2) [of E "getMediaAttributeList (leave_hold E C1)" "leave_hold E C1"] by (simp_all add: r leave_hold_sat)
  have "\<not> sm_hangup C1" "\<not> earlyMediaRequested C1" "\<not> earlyMediaStarted C1" "sm_state C1 = ACTIVE"
    using assms live by (simp_all add: held_ok_def C1_def)
  then have "held_ok C3" using C3(1) part_eqD [OF C3(2)] by (simp add: held_ok_def)
  moreover have "snd (internalOffHold E C) = (if r = PJ_SUCCESS then C3 else snd (SIPCall_hold E C3))"
    by (simp add: internalOffHold_def s r Let_def)
  ultimately show ?thesis by (simp add: hold_held)
qed (use assms in \<open>auto simp: internalOffHold_def sm_setState_def\<close>)

lemma hangup_over:
  assumes "\<And>D. \<not> terminate_fails E D" "\<not> sm_hangup C \<or> sm_state C = OVER"
  shows "sm_state (SIPCall_hangup E C) = OVER"
  using assms by (auto simp: SIPCall_hangup_def SIPCall_removeCall_def sm_setState_def over_final Let_def)

lemma restart_state: "sm_state (restart_media E C) = sm_state C"
proof -
  have k: "sm_state (note_keyframes i l D) = sm_state D" for i l D using part_eqD(1) [OF note_keyframes_part] .
  have s: "sm_state (startAllMedia E D) = sm_state D" for D using part_eqD(1) [OF sessions_part(7)] .
  have "sm_state (updateRemoteMedia E (stopAllMedia E C)) = sm_state C" by (rule part_eqD(1)) simp
  then show ?thesis by (simp add: restart_media_def startEarlyMediaLocked_def note_event_def k s Let_def)
qed

lemma report_held: "held_ok C \<Longrightarrow> held_ok (SIPCall_reportMediaNegotiationStatus E b C)"
  by (rule held_okI) simp_all

lemma negotiation_held:
  assumes "\<And>D. \<not> terminate_fails E D" "held_ok C"
  shows "held_ok (sdp_media_update_cb E success C)"
proof -
  have over: "sm_state D = OVER \<Longrightarrow> held_ok D" for D by (simp add: held_ok_def)
  have up: "held_ok (SIPCall_hangup E D)" if "hold_part D = hold_part C" for D
    using assms part_eqD [OF that] by (intro over hangup_over) (auto simp: held_ok_def)
  obtain r C1 where r: "setupNegotiatedMedia E C = (r, C1)" by fastforce
  have C1: "hold_part C1 = hold_part C" using setup_part [of E C] by (simp add: r)
  have "held_ok (restart_media E C1)"
  proof (cases "sm_state C = OVER")
    case True
    then show ?thesis using part_eqD(1) [OF C1] by (intro over) (simp add: restart_state)
  next
    case False
    then have "media_sat sess_ok C" "\<not> sm_hangup C" "\<not> earlyMediaRequested C" "\<not> earlyMediaStarted C"
      using assms(2) by (simp_all add: held_ok_def)
    then show ?thesis using restart_media_held setup_sat [of sess_ok C E] part_eqD [OF C1] by (simp add: r)
  qed
  then have restarted: "held_ok (SIPCall_reportMediaNegotiationStatus E True (restart_media E C1))" by (rule report_held)
  have keep: "held_ok (SIPCall_reportMediaNegotiationStatus E True C)" using assms(2) by (rule report_held)
  have stop: "hold_part (stopAllMedia E C1) = hold_part C" using C1 by simp
  show ?thesis
  proof (cases r)
    case None
    then show ?thesis
      using assms(2) keep up [OF C1] up [OF refl] by (simp add: sdp_media_update_cb_def onMediaNegotiationComplete_def r)
  next
    case (Some b)
    then show ?thesis
      using assms(2) keep restarted up [OF stop] up [OF refl]
      by (cases b) (simp_all add: sdp_media_update_cb_def onMediaNegotiationComplete_def r)
  qed
qed

lemma answer_held:
  assumes "held_ok C"
  shows "held_ok (SIPCall_answer E ms C)"
proof -
  define new where "new = buildMediaAttributesList ms (srtp E)"
  define l where "l = (if new = [] then getMediaAttributeList C else new)"
  define C1 where "C1 = fold (\<lambda>(i, a). updateMediaStream E a i) (enumerate 0 l) C"
  define C2 where "C2 = snd (prepareLocalMediaReservations E l C1)"
  have "held_ok C1" if "new = [] \<or> length new = length (streams C)"
  proof -
    have "0 + length l \<le> length (streams C)" using that by (auto simp: l_def getMediaAttributeList_def)
    note sat = ok_changes.answer_updates_sat [OF _ this] quiet_changes.answer_updates_sat [OF _ this]
    have "hold_part C1 = hold_part C" unfolding C1_def by (rule fold_keeps) (simp add: case_prod_beta)
    then show ?thesis by (rule held_okI [OF assms]) (unfold C1_def, erule sat(1), erule sat(2))
  qed
  then have C2: "held_ok C2" if "new = [] \<or> length new = length (streams C)"
    unfolding C2_def using that by - (rule held_okI, simp_all)
  have gone: "held_ok D \<Longrightarrow> held_ok (clearPendingLocalReservations D)"
    "held_ok D \<Longrightarrow> held_ok ((clearPendingLocalReservations D)\<lparr>sm_inv := None\<rparr>)" for D
    by (erule held_okI; simp)+
  have sent: "held_ok (snd (sm_setState ACTIVE CONNECTED (note_event e D)))" if "held_ok D" for e D
    by (rule setState_held, rule held_okI [OF that]) simp_all
  show ?thesis
    using assms C2 gone sent
    by (simp add: SIPCall_answer_def Let_def case_prod_beta [of _ "prepareLocalMediaReservations _ _ _"] flip: new_def l_def C1_def C2_def)
qed

lemma devices_held: "held_ok C \<Longrightarrow> held_ok (audio_devices_changed E C)"
proof -
  assume C: "held_ok C"
  have s: "session_sat sess_ok r \<Longrightarrow> session_sat sess_ok (session_restartSender E r)" for r
    by (cases r) (simp_all add: restart_keeps)
  show ?thesis
  proof (cases "sm_state C = ACTIVE")
    case True
    then have "media_sat sess_ok C" using C by (simp add: held_ok_def)
    then have "media_sat sess_ok (all_sessions (session_restartSender E) C)"
      by (rule sat_sessions(1) [rotated 2]) (simp_all add: s)
    then have "held_ok (all_sessions (session_restartSender E) C)"
      using C True part_eqD [OF sessions_part(1) [of "session_restartSender E" C]] by (simp add: held_ok_def)
    then show ?thesis using C by (simp add: audio_devices_changed_def)
  qed (simp add: audio_devices_changed_def C)
qed

lemma answered_held: "held_ok C \<Longrightarrow> held_ok (onAnswered E C)" "held_ok C \<Longrightarrow> held_ok (answered_closure C)"
  by (auto simp: onAnswered_def promoteEarlyMediaToActiveLocked_def answered_closure_def setState_held)
    (simp add: held_ok_def)

lemma thread_held:
  assumes "held_ok C" "media_op_ok (Session_thread i r)"
  shows "held_ok (media_exec E (Session_thread i r) C)"
proof (cases "i < length (streams C)")
  case True
  have s: "session_sat sess_ok x \<Longrightarrow> session_sat sess_ok (thread_session E r x)"
    "session_sat silent x \<Longrightarrow> session_sat silent (thread_session E r x)" for x
    by (cases x; simp add: thread_keeps [OF assms(2)])+
  have "media_sat P (media_exec E (Session_thread i r) C)"
    if "media_sat P C" "\<And>x. session_sat P x \<Longrightarrow> session_sat P (thread_session E r x)" for P
    using that(1) on_session_sat [OF that(2) session_types(11) media_sat_nth [OF that(1) True]] True
    by (simp add: media_sat_update)
  then show ?thesis using s by (intro held_okI [OF assms(1)]) (simp_all add: True)
qed (simp add: assms(1))

text \<open>Steps of a call whose session can always be ended.\<close>

inductive call_media_step :: "scall \<Rightarrow> scall \<Rightarrow> bool" where
  op: "media_op_ok r \<Longrightarrow> (\<And>D. \<not> terminate_fails E D) \<Longrightarrow> call_media_step C (media_exec E r C)"

lemma exec_held:
  assumes "media_op_ok r" "\<And>D. \<not> terminate_fails E D" "held_ok C"
  shows "held_ok (media_exec E r C)"
proof (cases r)
  case Unhold
  then show ?thesis using assms(3) by (simp add: SIPCall_unhold_def offhold_held)
next
  case Hang_up
  have "sm_state (SIPCall_hangup E C) = OVER" using assms(3) by (intro hangup_over assms(2)) (auto simp: held_ok_def)
  then show ?thesis using Hang_up by (simp add: held_ok_def)
next
  case (Session_thread i x)
  then show ?thesis using thread_held assms(1,3) by blast
next
  case (Mute_media t m)
  then show ?thesis using assms(3) by (simp add: SIPCall_muteMedia_def attribute_ops_hold)
qed (use assms in \<open>simp_all add: attribute_ops_hold hold_held negotiation_held answer_held devices_held answered_held setState_held
       held_okI [OF assms(3)]\<close>)

definition call_init :: "scall \<Rightarrow> bool" where
  "call_init C \<longleftrightarrow> (\<exists>E type sub l. C = scall_new E type sub l)"

interpretation media_machine: relational_machine call_init call_media_step held_ok
proof
  fix C assume "call_init C"
  then obtain E type sub l where C: "C = scall_new E type sub l" by (auto simp: call_init_def)
  have "media_sat sess_ok C" unfolding C scall_new_def by (rule ok_changes.initMediaStreams_sat) (simp add: media_sat_def)
  moreover have "hold_part C = (INACTIVE, False, False, False)" unfolding C scall_new_def by simp (simp add: hold_part_def)
  ultimately show "held_ok C" by (simp add: held_ok_def hold_part_def)
next
  fix C D assume "call_media_step C D" "held_ok C"
  then show "held_ok D" by (auto elim!: call_media_step.cases intro: exec_held)
qed

section \<open>Calls on hold\<close>


lemma log_frames [simp]:
  "sm_log (applyLocalHoldVideoBlackout b c C) = sm_log C" "sm_log (applyLocalHoldAudioKeepalive E b c C) = sm_log C"
  "sm_log (set_onHold b C) = sm_log C" "sm_log (leave_hold E C) = sm_log C"
  "sm_conn (applyLocalHoldVideoBlackout b c C) = sm_conn C" "sm_conn (applyLocalHoldAudioKeepalive E b c C) = sm_conn C"
  "sm_conn (set_onHold b C) = sm_conn C" "sm_conn (leave_hold E C) = sm_conn C"
  "sm_inv (applyLocalHoldVideoBlackout b c C) = sm_inv C" "sm_inv (applyLocalHoldAudioKeepalive E b c C) = sm_inv C"
  "sm_inv (set_onHold b C) = sm_inv C" "sm_inv (leave_hold E C) = sm_inv C"
  by (simp_all add: applyLocalHoldVideoBlackout_def applyLocalHoldAudioKeepalive_def set_onHold_def leave_hold_def)

lemma attribute_frames [simp]:
  "getMediaAttributeList (applyLocalHoldVideoBlackout b c C) = getMediaAttributeList C"
  "getMediaAttributeList (applyLocalHoldAudioKeepalive E b c C) = getMediaAttributeList C"
  "getMediaAttributeList (set_onHold b C) = map (\<lambda>a. a\<lparr>ma_onHold := b\<rparr>) (getMediaAttributeList C)"
  "getMediaAttributeList (C\<lparr>sm_state := cs, sm_conn := cn\<rparr>) = getMediaAttributeList C"
  "getMediaAttributeList (C\<lparr>sm_state := cs\<rparr>) = getMediaAttributeList C"
  by (auto simp: getMediaAttributeList_def applyLocalHoldVideoBlackout_def applyLocalHoldAudioKeepalive_def set_onHold_def
      on_session_def)

lemma leave_hold_attributes [simp]:
  "getMediaAttributeList (leave_hold E C) = map (\<lambda>a. a\<lparr>ma_onHold := False\<rparr>) (getMediaAttributeList C)"
  by (simp add: leave_hold_def)

lemma reinvite_outcome:
  "getMediaAttributeList (snd (SIPCall_reinvite E l C)) = getMediaAttributeList C"
  "sm_conn (snd (SIPCall_reinvite E l C)) = sm_conn C"
  "sm_log (snd (SIPCall_reinvite E l C)) = sm_log C \<or>
     fst (SIPCall_reinvite E l C) = PJ_SUCCESS \<and> sm_log (snd (SIPCall_reinvite E l C)) = Offer_sent l # sm_log C"
  by (auto simp: SIPCall_reinvite_def getMediaAttributeList_def prepareLocalMediaReservations_def clearPendingLocalReservations_def
      note_event_def case_prod_beta Let_def split: option.split)

lemma hold_unfolds:
  fixes E C
  defines "C2 \<equiv> applyLocalHoldVideoBlackout True False (applyLocalHoldAudioKeepalive E True False (set_onHold True (C\<lparr>sm_state := HOLD\<rparr>)))"
  assumes "sm_conn C = CONNECTED" "sm_state C = ACTIVE \<or> sm_state C = HOLD" "SIPCall_reinvite E (getMediaAttributeList C2) C2 = (r, C3)"
  shows "SIPCall_hold E C = (if r = PJ_SUCCESS then (True, C3) else (False, (leave_hold E C3)\<lparr>sm_state := ACTIVE\<rparr>))"
proof -
  have s: "sm_setState HOLD CONNECTED C = (True, C\<lparr>sm_state := HOLD\<rparr>)"
    using assms(2,3) by (auto simp: sm_setState_def validStateTransition.simps)
  have "hold_part C3 = hold_part C2" using reinvite_frames(2) [of E "getMediaAttributeList C2" C2] by (simp add: assms(4))
  then have "sm_state (leave_hold E C3) = HOLD"
    using part_eqD(1) [OF sessions_part(6) [of E C3]] part_eqD(1) [of C3 C2]
      part_eqD(1) [of C2 "C\<lparr>sm_state := HOLD\<rparr>"] by (simp add: C2_def)
  then have "sm_setState ACTIVE (sm_conn (leave_hold E C3)) (leave_hold E C3) = (True, (leave_hold E C3)\<lparr>sm_state := ACTIVE\<rparr>)"
    by (simp add: sm_setState_def over_final)
  then show ?thesis using assms(2,4) by (simp add: SIPCall_hold_def s Let_def del: attribute_frames flip: C2_def)
qed


text \<open>
  C28: a resume that fails does not put the call back on hold. When a transaction is in flight on the dialog of a held call,
  its re-invitation is refused; the call that \<^verbatim>\<open>hold()\<close> should then hold again becomes active, no media is marked as held, and
  the peer is told nothing.
\<close>

theorem failed_resume_leaves_call_active:
  assumes "sm_state C = HOLD" "sm_conn C = CONNECTED" "sm_account E C" "sm_inv C = Some v" "invite_tsx v"
  shows "\<exists>D. SIPCall_unhold E C = (False, D) \<and> sm_state D = ACTIVE \<and> sm_log D = sm_log C \<and>
     getMediaAttributeList D = map (\<lambda>a. a\<lparr>ma_onHold := False\<rparr>) (getMediaAttributeList C)"
proof -
  have busy: "SIPCall_reinvite E l D = (PJ_EBUSY, D)" if "sm_inv D = Some v" for l D
    using that assms(5) by (simp add: SIPCall_reinvite_def)
  define C1 where "C1 = C\<lparr>sm_state := ACTIVE\<rparr>"
  define C2 where "C2 = leave_hold E C1"
  have s: "sm_setState ACTIVE CONNECTED C = (True, C1)" using assms(1,2) by (simp add: sm_setState_def over_final C1_def)
  have C2: "sm_inv C2 = Some v" "sm_conn C2 = CONNECTED" "sm_log C2 = sm_log C"
    "getMediaAttributeList C2 = map (\<lambda>a. a\<lparr>ma_onHold := False\<rparr>) (getMediaAttributeList C)"
    using assms(2,4) by (simp_all add: C2_def C1_def)
  have C2s: "sm_state C2 = ACTIVE" using part_eqD(1) [of C2 C1] by (simp add: C2_def C1_def)
  obtain ok D where D: "SIPCall_hold E C2 = (ok, D)" by fastforce
  have u: "SIPCall_unhold E C = (False, D)"
    using assms(2,3) by (simp add: SIPCall_unhold_def internalOffHold_def s busy [OF C2(1)] D Let_def flip: C2_def)
  define C3 where
    "C3 = applyLocalHoldVideoBlackout True False (applyLocalHoldAudioKeepalive E True False (set_onHold True (C2\<lparr>sm_state := HOLD\<rparr>)))"
  have "sm_inv C3 = Some v" using C2(1) by (simp add: C3_def)
  then have "D = (leave_hold E C3)\<lparr>sm_state := ACTIVE\<rparr>"
    using hold_unfolds [OF C2(2) disjI1 [OF C2s], of E PJ_EBUSY C3] busy D by (simp add: C3_def)
  then show ?thesis using u C2(3,4) by (simp add: C3_def comp_def)
qed

text \<open>
  C29: a change of the media that lists no audio breaks the call. The request is filled up with a media of no type, for
  which a stream is added before the creation of its session throws; the stream stays, with a null session, and the next
  \<^verbatim>\<open>stopAllMedia\<close>, as in a hang-up, follows the null pointer.
\<close>

theorem media_change_without_audio_breaks_call:
  assumes "sm_account E C" "list_all (\<lambda>a. ma_type a \<noteq> MEDIA_AUDIO) (buildMediaAttributesList l (srtp E))"
    "video_enabled E \<or> \<not> hasMediaType (buildMediaAttributesList l (srtp E)) MEDIA_VIDEO" "4 \<le> ice_max_comp E"
    "list_all (\<lambda>st. ma_label (mediaAttribute st) \<noteq> []) (streams C)"
  shows "\<exists>D. SIPCall_requestMediaChange E l C = (None, D) \<and> length (streams D) = length (streams C) + 1 \<and>
     rtpSession (last (streams D)) = None \<and> sm_crashed (stopAllMedia E' D)"
proof -
  let ?l = "requested_media (buildMediaAttributesList l (srtp E))"
  have "filter (\<lambda>a. ma_type a = MEDIA_AUDIO) (buildMediaAttributesList l (srtp E)) = []"
    using assms(2) by (simp add: filter_empty_conv list_all_iff)
  then obtain v where l: "?l = MediaAttribute_default # v" "length v \<le> 1" by (simp add: requested_media_def Let_def)
  let ?D = "addMediaStream E MediaAttribute_default C"
  have "takeWhile (\<lambda>st. ma_label (mediaAttribute st) \<noteq> []) (streams C) = streams C"
    using assms(5) by (simp add: takeWhile_eq_all_conv list_all_iff)
  then have "findRtpStreamIndex (ma_label MediaAttribute_default) C = None"
    by (simp add: findRtpStreamIndex_def MediaAttribute_default_def Let_def del: takeWhile_eq_all_conv)
  then have "update_streams E ?l C = (False, ?D)"
    by (simp add: l MediaAttribute_default_def add_stream_def createRtpSession_def Let_def)
  moreover have "\<not> ice_max_comp E div 2 < length ?l" using assms(4) l by simp
  ultimately have "updateAllMediaStreams E ?l C = (None, ?D)" by (simp add: updateAllMediaStreams_def)
  then have "SIPCall_requestMediaChange E l C = (None, ?D)"
    using assms(1,3) by (simp add: SIPCall_requestMediaChange_def Let_def)
  moreover have "length (streams ?D) = length (streams C) + 1 \<and> rtpSession (last (streams ?D)) = None \<and> sm_crashed (stopAllMedia E' ?D)"
    by (simp add: addMediaStream_def stopAllMedia_def all_sessions_def Let_def)
  ultimately show ?thesis by blast
qed

text \<open>
  \<^verbatim>\<open>updateAllMediaStreams\<close> removes streams by their position, not by their label. A list of one new media is reported as a
  success, but the stream that was added for it is removed again: the first stream of the call is the one that stays, although it
  is not in the list.
\<close>

theorem new_stream_is_dropped_by_position:
  assumes "list_all (\<lambda>st. ma_label (mediaAttribute st) \<noteq> ma_label a) (streams C)" "streams C \<noteq> []"
    "ma_type a = MEDIA_AUDIO \<or> ma_type a = MEDIA_VIDEO" "2 \<le> ice_max_comp E"
  shows "\<exists>D. updateAllMediaStreams E [a] C = (Some True, D) \<and> streams D = [hd (streams C)]"
proof -
  obtain st ss where ss: "streams C = st # ss" using assms(2) by (cases "streams C") simp_all
  have "takeWhile (\<lambda>st. ma_label (mediaAttribute st) \<noteq> ma_label a) (streams C) = streams C"
    using assms(1) by (simp add: takeWhile_eq_all_conv list_all_iff)
  then have i: "findRtpStreamIndex (ma_label a) C = None"
    by (simp add: findRtpStreamIndex_def Let_def del: takeWhile_eq_all_conv)
  define b where "b = (if ma_type a = MEDIA_VIDEO \<and> \<not> sm_conf C then a\<lparr>ma_muted := True\<rparr> else a)"
  have "ma_type b = ma_type a" by (simp add: b_def)
  then obtain r where r: "createRtpSession b = Some r" using assms(3) by (auto simp: createRtpSession_def)
  have "\<exists>x. streams (snd (add_stream E b C)) = streams C @ [x]" "fst (add_stream E b C)"
    by (simp_all add: add_stream_def addMediaStream_def r Let_def)
  then obtain D x where D: "add_stream E b C = (True, D)" "streams D = streams C @ [x]" by (cases "add_stream E b C") auto
  have "update_streams E [a] C = (True, D)" using i D(1) by (simp add: b_def Let_def)
  then show ?thesis using assms(4) D(2) ss by (simp add: updateAllMediaStreams_def drop_streams_def)
qed

section \<open>A call in an environment that answers yes\<close>

definition voice_media :: media_attribute where
  "voice_media = MediaAttribute_default\<lparr>ma_type := MEDIA_AUDIO, ma_enabled := True, ma_label := DEFAULT_AUDIO_STREAMID\<rparr>"

definition camera_media :: media_attribute where
  "camera_media = MediaAttribute_default\<lparr>ma_type := MEDIA_VIDEO, ma_enabled := True, ma_label := DEFAULT_VIDEO_STREAMID\<rparr>"

definition media_yes :: media_env where
  "media_yes = \<lparr>aenv = audio_yes, default_device = ''camera'', srtp = False, ice_max_comp = 32, sm_account = (\<lambda>_. True),
     video_enabled = True, auto_answer = True, family_ok = (\<lambda>_. True), reserve_ok = (\<lambda>_ _. True), sm_offer_ok = (\<lambda>_. True),
     sm_reinvite_ok = (\<lambda>_. True), sm_has_tdata = (\<lambda>_. True), sm_send_ok = (\<lambda>_. True), answer_prepared = (\<lambda>_. True),
     sdp_slots = (\<lambda>_. [(talk_media, talk_media)]), remote_media = (\<lambda>_. [voice_media]), video_reserved = (\<lambda>_. True),
     recorder_ok = (\<lambda>_. True), terminate_fails = (\<lambda>_. False)\<rparr>"

definition new_voice_call :: scall where
  "new_voice_call = scall_new media_yes INCOMING False [voice_media]"

definition media_run :: "scall \<Rightarrow> media_op list \<Rightarrow> scall" where
  "media_run C rs = foldl (\<lambda>C r. media_exec media_yes r C) C rs"

definition free_invite :: invite where
  "free_invite = \<lparr>inv_state = INV_CONFIRMED, invite_tsx = False\<rparr>"

definition busy_invite :: invite where
  "busy_invite = \<lparr>inv_state = INV_CONFIRMED, invite_tsx = True\<rparr>"

definition talking_call :: scall where
  "talking_call = media_run new_voice_call
     [Invite (Some free_invite), Transport True, Answer_call [], Negotiated True, Invite (Some free_invite)]"

definition held_call :: scall where
  "held_call = media_run talking_call [Hold, Negotiated True]"

definition call_view :: "scall \<Rightarrow> call_state \<times> connection_state \<times> invite option \<times> media_type option list" where
  "call_view C = (sm_state C, sm_conn C, sm_inv C, map (\<lambda>st. map_option session_type (rtpSession st)) (streams C))"

lemma media_run_steps: "list_all media_op_ok rs \<Longrightarrow> call_media_step\<^sup>*\<^sup>* C (media_run C rs)"
proof (induction rs arbitrary: C)
  case (Cons r rs)
  have "call_media_step C (media_exec media_yes r C)" using Cons.prems by (intro call_media_step.op) (simp_all add: media_yes_def)
  moreover have "call_media_step\<^sup>*\<^sup>* (media_exec media_yes r C) (media_run C (r # rs))"
    using Cons.IH [of "media_exec media_yes r C"] Cons.prems by (simp add: media_run_def)
  ultimately show ?case by (rule converse_rtranclp_into_rtranclp)
qed (simp add: media_run_def)

lemma talking_call_speaks: "sm_state talking_call = ACTIVE \<and> sm_conn talking_call = CONNECTED \<and>
   list_ex (\<lambda>st. case rtpSession st of Some (Audio_session S) \<Rightarrow> \<not> audioInput S = None | _ \<Rightarrow> False) (streams talking_call)"
  by code_simp

lemma held_call_reached: "call_media_step\<^sup>*\<^sup>* (scall_new media_yes INCOMING False [voice_media]) held_call"
proof -
  have "call_media_step\<^sup>*\<^sup>* new_voice_call talking_call" unfolding talking_call_def by (rule media_run_steps) simp
  moreover have "call_media_step\<^sup>*\<^sup>* talking_call held_call" unfolding held_call_def by (rule media_run_steps) simp
  ultimately show ?thesis unfolding new_voice_call_def by (rule rtranclp_trans)
qed

lemma held_call_view: "call_view held_call = (HOLD, CONNECTED, Some busy_invite, [Some MEDIA_AUDIO])"
  by code_simp

lemma held_call_state: "sm_state held_call = HOLD" "sm_conn held_call = CONNECTED" "sm_inv held_call = Some busy_invite"
  using held_call_view by (simp_all add: call_view_def)

lemma held_call_session: "\<exists>st S. streams held_call = [st] \<and> rtpSession st = Some (Audio_session S)"
proof -
  have "map (\<lambda>st. map_option session_type (rtpSession st)) (streams held_call) = [Some MEDIA_AUDIO]"
    using held_call_view by (simp add: call_view_def)
  then obtain st r where "streams held_call = [st]" "rtpSession st = Some r" "session_type r = MEDIA_AUDIO" by auto
  then show ?thesis by (cases r) simp_all
qed



theorem failed_resume_leaves_call_active_witness:
  "\<exists>D. SIPCall_unhold media_yes held_call = (False, D) \<and> sm_state D = ACTIVE"
  using failed_resume_leaves_call_active [OF held_call_state(1,2), of media_yes busy_invite] held_call_state(3)
  by (auto simp: media_yes_def busy_invite_def)

theorem media_change_without_audio_breaks_call_witness:
  "\<exists>D. SIPCall_requestMediaChange media_yes [toMediaMap camera_media] talking_call = (None, D) \<and> sm_crashed (stopAllMedia media_yes D)"
proof -
  have "list_all (\<lambda>a. ma_type a \<noteq> MEDIA_AUDIO) (buildMediaAttributesList [toMediaMap camera_media] (srtp media_yes))" by code_simp
  moreover have "list_all (\<lambda>st. ma_label (mediaAttribute st) \<noteq> []) (streams talking_call)" by code_simp
  ultimately show ?thesis
    using media_change_without_audio_breaks_call [of media_yes talking_call "[toMediaMap camera_media]" media_yes]
    by (auto simp: media_yes_def)
qed

theorem new_stream_is_dropped_by_position_witness:
  "\<exists>D. updateAllMediaStreams media_yes [camera_media] talking_call = (Some True, D) \<and> streams D = [hd (streams talking_call)]"
proof -
  have "list_all (\<lambda>st. ma_label (mediaAttribute st) \<noteq> ma_label camera_media) (streams talking_call)" "streams talking_call \<noteq> []"
    by code_simp+
  then show ?thesis
    using new_stream_is_dropped_by_position [of camera_media talking_call media_yes] by (simp add: media_yes_def camera_media_def)
qed

end
