(* ===== verification/Json_Library.thy ===== *)
theory Json_Library
  imports Sip_Prelude
begin

text \<open>
  The interface of the jsoncpp library that the message store and the conference protocol use. The
  library is not part of the repository: its values and operations are a parameter, a record of
  functions, and what the code relies on is the predicate \<open>json_laws\<close>. A small model shows that the
  laws can hold.
\<close>

section \<open>Operations\<close>

text \<open>The operations of \<^verbatim>\<open>Json::Value\<close>; \<^verbatim>\<open>None\<close> stands for an exception. \<^verbatim>\<open>j_members\<close> and \<^verbatim>\<open>j_elements\<close>
  are what a loop over a value visits, with keys and without.\<close>

record ('j, 'text) json_lib =
  j_null :: 'j
  j_object :: "(string, 'j) smap \<Rightarrow> 'j"
  j_str :: "string \<Rightarrow> 'j"
  j_int :: "int \<Rightarrow> 'j"
  j_bool :: "bool \<Rightarrow> 'j"
  j_array :: "'j list \<Rightarrow> 'j"
  j_members :: "'j \<Rightarrow> (string, 'j) smap"
  j_elements :: "'j \<Rightarrow> 'j list"
  j_isObject :: "'j \<Rightarrow> bool"
  j_isArray :: "'j \<Rightarrow> bool"
  j_isMember :: "'j \<Rightarrow> string \<Rightarrow> bool option"
  j_get :: "'j \<Rightarrow> string \<Rightarrow> 'j option"
  j_get_default :: "'j \<Rightarrow> string \<Rightarrow> 'j \<Rightarrow> 'j option"
  j_asString :: "'j \<Rightarrow> string option"
  j_asBool :: "'j \<Rightarrow> bool option"
  j_asInt :: "'j \<Rightarrow> int option"
  j_asInt64 :: "'j \<Rightarrow> int option"
  j_asUInt :: "'j \<Rightarrow> nat option"
  j_write :: "'j \<Rightarrow> 'text"
  j_read :: "'text \<Rightarrow> 'j option"

definition json_laws :: "('j, 'text) json_lib \<Rightarrow> bool" where
  "json_laws J \<longleftrightarrow>
     j_members J (j_null J) = [] \<and>
     (\<forall>m. smap_wf m \<longrightarrow> j_members J (j_object J m) = m) \<and>
     (\<forall>m k v. smap_find m k = Some v \<longrightarrow> j_get J (j_object J m) k = Some v) \<and>
     (\<forall>m k d v. smap_find m k = Some v \<longrightarrow> j_get_default J (j_object J m) k d = Some v) \<and>
     (\<forall>m k. j_isMember J (j_object J m) k = Some (smap_find m k \<noteq> None)) \<and>
     (\<forall>m. j_isObject J (j_object J m)) \<and> (\<forall>i. \<not> j_isObject J (j_int J i)) \<and>
     (\<forall>vs. j_elements J (j_array J vs) = vs) \<and> (\<forall>vs. j_isArray J (j_array J vs)) \<and>
     (\<forall>vs. \<not> j_isObject J (j_array J vs)) \<and> (\<forall>m. \<not> j_isArray J (j_object J m)) \<and>
     (\<forall>s. j_asString J (j_str J s) = Some s) \<and>
     (\<forall>b. j_asBool J (j_bool J b) = Some b) \<and>
     (\<forall>i. - (2 ^ 31) \<le> i \<and> i < 2 ^ 31 \<longrightarrow> j_asInt J (j_int J i) = Some i) \<and>
     (\<forall>i. - (2 ^ 63) \<le> i \<and> i < 2 ^ 63 \<longrightarrow> j_asInt64 J (j_int J i) = Some i) \<and>
     (\<forall>n. n < 2 ^ 32 \<longrightarrow> j_asUInt J (j_int J (int n)) = Some n) \<and>
     (\<forall>v. j_read J (j_write J v) = Some v)"

section \<open>A model of the laws\<close>

datatype json_value = JNull | JInt int | JStr string | JBool bool | JArr "json_value list"
  | JObj "(string \<times> json_value) list"

text \<open>The text of a document is the document itself.\<close>

definition json_model :: "(json_value, json_value) json_lib" where
  "json_model =
     \<lparr>j_null = JNull, j_object = JObj, j_str = JStr, j_int = JInt, j_bool = JBool,
      j_array = JArr,
      j_members = (\<lambda>v. case v of JObj m \<Rightarrow> m | _ \<Rightarrow> []),
      j_elements = (\<lambda>v. case v of JArr vs \<Rightarrow> vs | JObj m \<Rightarrow> map snd m | _ \<Rightarrow> []),
      j_isObject = (\<lambda>v. case v of JObj _ \<Rightarrow> True | _ \<Rightarrow> False),
      j_isArray = (\<lambda>v. case v of JArr _ \<Rightarrow> True | _ \<Rightarrow> False),
      j_isMember = (\<lambda>v k. case v of JObj m \<Rightarrow> Some (map_of m k \<noteq> None) | JNull \<Rightarrow> Some False | _ \<Rightarrow> None),
      j_get = (\<lambda>v k. case v of JObj m \<Rightarrow> Some (case map_of m k of Some x \<Rightarrow> x | None \<Rightarrow> JNull)
                     | JNull \<Rightarrow> Some JNull | _ \<Rightarrow> None),
      j_get_default = (\<lambda>v k d. case v of JObj m \<Rightarrow> Some (case map_of m k of Some x \<Rightarrow> x | None \<Rightarrow> d)
                     | JNull \<Rightarrow> Some d | _ \<Rightarrow> None),
      j_asString = (\<lambda>v. case v of JStr s \<Rightarrow> Some s | JNull \<Rightarrow> Some [] | _ \<Rightarrow> None),
      j_asBool = (\<lambda>v. case v of JBool b \<Rightarrow> Some b | JNull \<Rightarrow> Some False | JInt i \<Rightarrow> Some (i \<noteq> 0) | _ \<Rightarrow> None),
      j_asInt = (\<lambda>v. case v of JInt i \<Rightarrow> if - (2 ^ 31) \<le> i \<and> i < 2 ^ 31 then Some i else None
                     | JNull \<Rightarrow> Some 0 | _ \<Rightarrow> None),
      j_asInt64 = (\<lambda>v. case v of JInt i \<Rightarrow> if - (2 ^ 63) \<le> i \<and> i < 2 ^ 63 then Some i else None
                     | JNull \<Rightarrow> Some 0 | _ \<Rightarrow> None),
      j_asUInt = (\<lambda>v. case v of JInt i \<Rightarrow> if 0 \<le> i \<and> i < 2 ^ 32 then Some (nat i) else None
                     | JNull \<Rightarrow> Some 0 | _ \<Rightarrow> None),
      j_write = (\<lambda>v. v), j_read = Some\<rparr>"

lemma json_model_laws: "json_laws json_model"
  by (simp add: json_laws_def json_model_def)

end
