(* ===== verification/Message_Engine.thy ===== *)
theory Message_Engine
  imports Call String_Utils Json_Library
begin

text \<open>
  The outgoing message queue of an account, \<^verbatim>\<open>src/im/message_engine.cpp\<close>: sending with a token,
  retrying when a peer comes online, status changes reported by the transport, cancelling, and
  the file that keeps unsent messages across restarts. JSON values and their text belong to the
  jsoncpp library and are a parameter. An operation returns the engine and the list of its
  effects: requests to the account, signals to the client and tasks posted to the main thread.
\<close>

section \<open>Messages\<close>

type_synonym message_token = "64 word"

datatype message_status = UNKNOWN | IDLE | SENDING | SENT | DISPLAYED | FAILURE | CANCELLED
  | Unlisted int \<comment> \<open>a value outside the enumeration, as a cast may give\<close>

definition status_to_int :: "message_status \<Rightarrow> int" where
  "status_to_int s =
     (case s of UNKNOWN \<Rightarrow> 0 | IDLE \<Rightarrow> 1 | SENDING \<Rightarrow> 2 | SENT \<Rightarrow> 3 | DISPLAYED \<Rightarrow> 4 | FAILURE \<Rightarrow> 5
      | CANCELLED \<Rightarrow> 6 | Unlisted i \<Rightarrow> i)"

definition int_to_status :: "int \<Rightarrow> message_status" where
  "int_to_status i =
     (if i = 0 then UNKNOWN else if i = 1 then IDLE else if i = 2 then SENDING else if i = 3 then SENT
      else if i = 4 then DISPLAYED else if i = 5 then FAILURE else if i = 6 then CANCELLED
      else Unlisted i)"

record msg =
  msg_to :: string
  msg_payloads :: payloads
  msg_status :: message_status
  msg_retried :: nat
  msg_last_op :: int

definition Message_new :: msg where
  "Message_new = \<lparr>msg_to = [], msg_payloads = [], msg_status = UNKNOWN, msg_retried = 0, msg_last_op = 0\<rparr>"

definition MAX_RETRIES :: nat where
  "MAX_RETRIES = 20"

record 'text engine =
  messages :: "(string, (message_token, msg) smap) smap"
  save_file :: "'text option"

datatype msg_event =
    PostRetrySend string
  | StatusChanged string message_token message_status
  | AccountSend string payloads message_token bool

text \<open>What an operation reads from outside, times in nanoseconds.\<close>

record ('j, 'text) msg_env =
  env_json :: "('j, 'text) json_lib"
  steady_now :: int
  system_now :: int
  file_writable :: bool
  registered :: bool

section \<open>Saving and loading\<close>

definition to_time_t :: "int \<Rightarrow> int" where
  "to_time_t t = (if t < 0 then - ((- t) div 1000000000) else t div 1000000000)"

definition message_json :: "('j, 'text) msg_env \<Rightarrow> msg \<Rightarrow> 'j" where
  "message_json E v =
     (let J = env_json E;
          wall_time = system_now E + (msg_last_op v - steady_now E);
          payload = (if msg_payloads v = [] then j_null J
                     else j_object J (smap_map (\<lambda>_ s. j_str J s) (msg_payloads v)))
      in j_object J
           (smap_set ''payload'' payload
           (smap_set ''retried'' (j_int J (int (msg_retried v)))
           (smap_set ''last_op'' (j_int J (to_time_t wall_time))
           (smap_set ''to'' (j_str J (msg_to v))
           (smap_set ''status''
              (j_int J (status_to_int (if msg_status v = SENDING then IDLE else msg_status v))) []))))))"

definition settled :: "message_status \<Rightarrow> bool" where
  "settled s \<longleftrightarrow> s = FAILURE \<or> s = SENT \<or> s = CANCELLED"

definition peer_json :: "('j, 'text) msg_env \<Rightarrow> (message_token, msg) smap \<Rightarrow> (string, 'j) smap" where
  "peer_json E ms =
     foldl (\<lambda>root (t, v). if settled (msg_status v) then root
                          else smap_set (to_hex_string t) (message_json E v) root) [] ms"

definition root_json ::
  "('j, 'text) msg_env \<Rightarrow> (string, (message_token, msg) smap) smap \<Rightarrow> (string, 'j) smap" where
  "root_json E mm =
     foldl (\<lambda>root (peer, ms). let pr = peer_json E ms in
              if pr = [] then root else smap_set peer (j_object (env_json E) pr) root) [] mm"

definition save_messages :: "('j, 'text) msg_env \<Rightarrow> 'text engine \<Rightarrow> 'text engine" where
  "save_messages E e =
     (if file_writable E
      then e\<lparr>save_file := Some (j_write (env_json E) (j_object (env_json E) (root_json E (messages e))))\<rparr>
      else e)"

fun load_payloads :: "('j, 'text) json_lib \<Rightarrow> (string, 'j) smap \<Rightarrow> payloads \<Rightarrow> payloads option" where
  "load_payloads J [] pl = Some pl"
| "load_payloads J ((k, v) # rest) pl =
     (case j_asString J v of Some s \<Rightarrow> load_payloads J rest (smap_set k s pl) | None \<Rightarrow> None)"

definition load_message :: "('j, 'text) msg_env \<Rightarrow> string \<Rightarrow> 'j \<Rightarrow> (message_token \<times> msg) option" where
  "load_message E key jmsg =
     (let J = env_json E in
      case from_hex_string key of Inl _ \<Rightarrow> None | Inr token \<Rightarrow>
      case Option.bind (j_get J jmsg ''status'') (j_asInt J) of None \<Rightarrow> None | Some status \<Rightarrow>
      case Option.bind (j_get J jmsg ''to'') (j_asString J) of None \<Rightarrow> None | Some to \<Rightarrow>
      case Option.bind (j_get J jmsg ''last_op'') (j_asInt64 J) of None \<Rightarrow> None | Some wall \<Rightarrow>
      case Option.bind (j_get_default J jmsg ''retried'' (j_int J 0)) (j_asUInt J) of None \<Rightarrow> None | Some retried \<Rightarrow>
      case j_get J jmsg ''payload'' of None \<Rightarrow> None | Some pl \<Rightarrow>
      case load_payloads J (j_members J pl) [] of None \<Rightarrow> None | Some payloads \<Rightarrow>
        Some (token, \<lparr>msg_to = to, msg_payloads = payloads, msg_status = int_to_status status,
                      msg_retried = retried,
                      msg_last_op = steady_now E + (wall * 1000000000 - system_now E)\<rparr>))"

text \<open>The loops over messages and peers keep what was loaded before an exception ends them.\<close>

fun load_peer ::
  "('j, 'text) msg_env \<Rightarrow> (string, 'j) smap \<Rightarrow> (message_token, msg) smap \<Rightarrow>
   bool \<times> (message_token, msg) smap" where
  "load_peer E [] p = (True, p)"
| "load_peer E ((key, jmsg) # rest) p =
     (case load_message E key jmsg of
        None \<Rightarrow> (False, p)
      | Some (token, m) \<Rightarrow> load_peer E rest (smap_emplace token m p))"

fun load_root ::
  "('j, 'text) msg_env \<Rightarrow> (string, 'j) smap \<Rightarrow> (string, (message_token, msg) smap) smap \<Rightarrow>
   (string, (message_token, msg) smap) smap" where
  "load_root E [] mm = mm"
| "load_root E ((to, pmessages) # rest) mm =
     (let p = (case smap_find mm to of Some p \<Rightarrow> p | None \<Rightarrow> []);
          (ok, p') = load_peer E (j_members (env_json E) pmessages) p;
          mm' = smap_set to p' mm
      in if ok then load_root E rest mm' else mm')"

definition load :: "('j, 'text) msg_env \<Rightarrow> 'text engine \<Rightarrow> 'text engine" where
  "load E e =
     (case save_file e of
        None \<Rightarrow> e
      | Some txt \<Rightarrow>
          (case j_read (env_json E) txt of
             None \<Rightarrow> e
           | Some root \<Rightarrow> e\<lparr>messages := load_root E (j_members (env_json E) root) (messages e)\<rparr>))"

section \<open>Operations\<close>

definition peer_messages :: "string \<Rightarrow> 'text engine \<Rightarrow> (message_token, msg) smap" where
  "peer_messages peer e = (case smap_find (messages e) peer of Some ms \<Rightarrow> ms | None \<Rightarrow> [])"

definition set_message :: "string \<Rightarrow> message_token \<Rightarrow> msg \<Rightarrow> 'text engine \<Rightarrow> 'text engine" where
  "set_message peer t m e =
     e\<lparr>messages := smap_set peer (smap_set t m (peer_messages peer e)) (messages e)\<rparr>"

text \<open>
  \<^verbatim>\<open>draws\<close> are the values of the generator; \<^verbatim>\<open>None\<close> means that all of them were in use.
\<close>

definition sendMessage ::
  "('j, 'text) msg_env \<Rightarrow> string \<Rightarrow> payloads \<Rightarrow> message_token \<Rightarrow> message_token list \<Rightarrow> 'text engine \<Rightarrow>
   (message_token \<times> 'text engine \<times> msg_event list) option" where
  "sendMessage E to pl refreshToken draws e =
     (if pl = [] \<or> to = [] then Some (0, e, [])
      else let ms = peer_messages to e in
        case smap_find ms refreshToken of
          Some prev \<Rightarrow>
            if msg_status prev \<noteq> SENT
            then Some (refreshToken,
                   save_messages E (set_message to refreshToken (prev\<lparr>msg_to := to, msg_payloads := pl\<rparr>) e),
                   [PostRetrySend to])
            else map_option (\<lambda>t. (t, save_messages E (set_message to t (Message_new\<lparr>msg_to := to, msg_payloads := pl\<rparr>) e),
                   [PostRetrySend to])) (draw_until (\<lambda>t. smap_find ms t \<noteq> None) draws)
        | None \<Rightarrow>
            map_option (\<lambda>t. (t, save_messages E (set_message to t (Message_new\<lparr>msg_to := to, msg_payloads := pl\<rparr>) e),
                   [PostRetrySend to])) (draw_until (\<lambda>t. smap_find ms t \<noteq> None) draws))"

definition waiting :: "msg \<Rightarrow> bool" where
  "waiting m \<longleftrightarrow> msg_status m = UNKNOWN \<or> msg_status m = IDLE"

definition GITMESSAGE :: string where
  "GITMESSAGE = ''application/im-gitmessage-id''"

definition retrySend ::
  "('j, 'text) msg_env \<Rightarrow> string \<Rightarrow> bool \<Rightarrow> 'text engine \<Rightarrow> 'text engine \<times> msg_event list" where
  "retrySend E peer retryOnTimeout e =
     (if \<not> registered E then (e, [])
      else case smap_find (messages e) peer of
        None \<Rightarrow> (e, [])
      | Some ms \<Rightarrow>
          let ms' = smap_map (\<lambda>_ m. if waiting m
                then m\<lparr>msg_status := SENDING, msg_retried := Suc (msg_retried m) mod 2 ^ 32,
                       msg_last_op := steady_now E\<rparr>
                else m) ms;
              pending = filter (\<lambda>(_, m). waiting m) ms
          in (e\<lparr>messages := smap_set peer ms' (messages e)\<rparr>,
              concat (map (\<lambda>(t, m).
                (if smap_find (msg_payloads m) GITMESSAGE = None then [StatusChanged (msg_to m) t SENDING] else []) @
                [AccountSend (msg_to m) (msg_payloads m) t retryOnTimeout]) pending)))"

definition onPeerOnline ::
  "('j, 'text) msg_env \<Rightarrow> string \<Rightarrow> bool \<Rightarrow> 'text engine \<Rightarrow> 'text engine \<times> msg_event list" where
  "onPeerOnline E peer retryOnTimeout e = retrySend E peer retryOnTimeout e"

fun find_token ::
  "(string, (message_token, msg) smap) smap \<Rightarrow> message_token \<Rightarrow> (string \<times> msg) option" where
  "find_token [] t = None"
| "find_token ((peer, ms) # rest) t =
     (case smap_find ms t of Some m \<Rightarrow> Some (peer, m) | None \<Rightarrow> find_token rest t)"

definition getStatus :: "message_token \<Rightarrow> 'text engine \<Rightarrow> message_status" where
  "getStatus t e = (case find_token (messages e) t of Some (_, m) \<Rightarrow> msg_status m | None \<Rightarrow> UNKNOWN)"

definition isSent :: "message_token \<Rightarrow> 'text engine \<Rightarrow> bool" where
  "isSent t e \<longleftrightarrow> getStatus t e = SENT"

definition cancel ::
  "('j, 'text) msg_env \<Rightarrow> message_token \<Rightarrow> 'text engine \<Rightarrow> bool \<times> 'text engine \<times> msg_event list" where
  "cancel E t e =
     (case find_token (messages e) t of
        None \<Rightarrow> (False, e, [])
      | Some (peer, m) \<Rightarrow>
          (True, save_messages E (set_message peer t (m\<lparr>msg_status := CANCELLED\<rparr>) e),
           if smap_find (msg_payloads m) GITMESSAGE = None
           then [StatusChanged (msg_to m) t CANCELLED] else []))"

definition onMessageSent ::
  "('j, 'text) msg_env \<Rightarrow> string \<Rightarrow> message_token \<Rightarrow> bool \<Rightarrow> 'text engine \<Rightarrow> 'text engine \<times> msg_event list" where
  "onMessageSent E peer t ok e =
     (case smap_find (messages e) peer of
        None \<Rightarrow> (e, [])
      | Some ms \<Rightarrow>
          (case smap_find ms t of
             None \<Rightarrow> (e, [])
           | Some m \<Rightarrow>
               let sig = (\<lambda>s. if smap_find (msg_payloads m) GITMESSAGE = None
                              then [StatusChanged (msg_to m) t s] else []) in
               if msg_status m = SENDING then
                 if ok then (save_messages E (set_message peer t (m\<lparr>msg_status := SENT\<rparr>) e), sig SENT)
                 else if MAX_RETRIES \<le> msg_retried m
                 then (save_messages E (set_message peer t (m\<lparr>msg_status := FAILURE\<rparr>) e), sig FAILURE)
                 else (set_message peer t (m\<lparr>msg_status := IDLE\<rparr>) e, [])
               else (e, [])))"

definition onMessageDisplayed ::
  "string \<Rightarrow> message_token \<Rightarrow> bool \<Rightarrow> 'text engine \<Rightarrow> 'text engine \<times> msg_event list" where
  "onMessageDisplayed peer t displayed e =
     (if \<not> displayed then (e, []) else (e, [StatusChanged peer t DISPLAYED]))"

section \<open>Runs of the engine\<close>

text \<open>
  The operations between two restarts. \<^verbatim>\<open>SendMessage\<close> draws its token from the given values;
  a draw that finds all of them in use has not returned and leaves the engine unchanged.
\<close>

datatype msg_op =
    SendMessage string payloads message_token "message_token list"
  | PeerOnline string bool
  | CancelMessage message_token
  | MessageSent string message_token bool
  | MessageDisplayed string message_token bool

fun msg_exec ::
  "('j, 'text) msg_env \<Rightarrow> msg_op \<Rightarrow> 'text engine \<Rightarrow> 'text engine \<times> msg_event list" where
  "msg_exec E (SendMessage to pl refresh draws) e =
     (case sendMessage E to pl refresh draws e of Some (_, e', ev) \<Rightarrow> (e', ev) | None \<Rightarrow> (e, []))"
| "msg_exec E (PeerOnline peer b) e = onPeerOnline E peer b e"
| "msg_exec E (CancelMessage t) e = snd (cancel E t e)"
| "msg_exec E (MessageSent peer t ok) e = onMessageSent E peer t ok e"
| "msg_exec E (MessageDisplayed peer t b) e = onMessageDisplayed peer t b e"

definition msg_step ::
  "'text engine \<times> msg_event list \<Rightarrow> ('j, 'text) msg_env \<times> msg_op \<Rightarrow> 'text engine \<times> msg_event list" where
  "msg_step s x = (case (s, x) of ((e, tr), (E, op)) \<Rightarrow>
     let (e', ev) = msg_exec E op e in (e', tr @ ev))"

text \<open>A message of the engine, and the attempts made for it so far.\<close>

definition get_message :: "string \<Rightarrow> message_token \<Rightarrow> 'text engine \<Rightarrow> msg option" where
  "get_message peer t e = smap_find (peer_messages peer e) t"

fun is_attempt :: "string \<Rightarrow> message_token \<Rightarrow> msg_event \<Rightarrow> bool" where
  "is_attempt peer t (AccountSend to _ t' _) = (to = peer \<and> t' = t)"
| "is_attempt peer t _ = False"

definition attempts :: "string \<Rightarrow> message_token \<Rightarrow> msg_event list \<Rightarrow> nat" where
  "attempts peer t tr = length (filter (is_attempt peer t) tr)"

lemma attempts_append [simp]: "attempts peer t (xs @ ys) = attempts peer t xs + attempts peer t ys"
  by (simp add: attempts_def)

lemma attempts_none: "(\<And>x. x \<in> set ev \<Longrightarrow> \<not> is_attempt peer t x) \<Longrightarrow> attempts peer t ev = 0"
  by (simp add: attempts_def filter_empty_conv)

lemma get_message_save [simp]:
  "messages (save_messages E e) = messages e" "get_message peer t (save_messages E e) = get_message peer t e"
  by (simp_all add: save_messages_def get_message_def peer_messages_def)

lemma get_message_set [simp]:
  "get_message peer t (set_message peer' t' m e) =
     (if peer = peer' \<and> t = t' then Some m else get_message peer t e)"
  by (auto simp: set_message_def get_message_def peer_messages_def split: option.split)

text \<open>
  Between restarts the number of attempts made for a message is its retry count, at most the
  maximum, and below it while the message waits; it is filed under its addressee.
\<close>

definition msg_ok :: "string \<Rightarrow> msg \<Rightarrow> bool" where
  "msg_ok peer m \<longleftrightarrow> msg_to m = peer \<and> msg_retried m \<le> MAX_RETRIES \<and>
     (waiting m \<longrightarrow> msg_retried m < MAX_RETRIES)"

definition maps_wf :: "'text engine \<Rightarrow> bool" where
  "maps_wf e \<longleftrightarrow> smap_wf (messages e) \<and> (\<forall>(peer, ms) \<in> set (messages e). smap_wf ms)"

fun entry_ok :: "string \<Rightarrow> nat \<Rightarrow> msg option \<Rightarrow> bool" where
  "entry_ok peer n None = (n = 0)"
| "entry_ok peer n (Some m) = (msg_ok peer m \<and> n = msg_retried m)"

definition msg_inv :: "'text engine \<times> msg_event list \<Rightarrow> bool" where
  "msg_inv s \<longleftrightarrow> maps_wf (fst s) \<and>
     (\<forall>peer t. entry_ok peer (attempts peer t (snd s)) (get_message peer t (fst s)))"

lemma msg_invD: "msg_inv (e, tr) \<Longrightarrow> entry_ok peer (attempts peer t tr) (get_message peer t e)"
  by (simp add: msg_inv_def)

lemma peer_messages_wf: "maps_wf e \<Longrightarrow> smap_wf (peer_messages peer e)"
  by (auto simp: maps_wf_def peer_messages_def dest: map_of_SomeD split: option.splits)

lemma maps_wf_set: "maps_wf e \<Longrightarrow> smap_wf ms \<Longrightarrow> maps_wf (e\<lparr>messages := smap_set peer ms (messages e)\<rparr>)"
  by (auto simp: maps_wf_def dest!: in_smap_setD)

lemma maps_wf_set_message [simp]: "maps_wf e \<Longrightarrow> maps_wf (set_message peer t m e)"
  unfolding set_message_def by (intro maps_wf_set smap_wf_set peer_messages_wf)

lemma maps_wf_save [simp]: "maps_wf (save_messages E e) = maps_wf e"
  by (simp add: maps_wf_def)

lemma msg_inv_set:
  assumes inv: "msg_inv (e, tr)" and m: "msg_ok peer m"
    and r: "msg_retried m = (case get_message peer t e of Some m0 \<Rightarrow> msg_retried m0 | None \<Rightarrow> 0)"
    and quiet: "\<And>p u x. x \<in> set ev \<Longrightarrow> \<not> is_attempt p u x"
  shows "msg_inv (set_message peer t m e, tr @ ev)"
proof -
  have "attempts p u ev = 0" for p u using quiet by (rule attempts_none)
  moreover have "attempts peer t tr = msg_retried m"
    using msg_invD [OF inv, of peer t] r by (cases "get_message peer t e") auto
  ultimately show ?thesis
    using inv m by (simp add: msg_inv_def)
qed

lemma msg_inv_save [simp]: "msg_inv (save_messages E e, tr) = msg_inv (e, tr)"
  by (simp add: msg_inv_def)

lemma msg_inv_quiet:
  assumes "msg_inv (e, tr)" and "\<And>p u x. x \<in> set ev \<Longrightarrow> \<not> is_attempt p u x"
  shows "msg_inv (e, tr @ ev)"
  using assms(1) attempts_none [OF assms(2)] by (simp add: msg_inv_def)

lemma find_token_get:
  assumes "maps_wf e" and "find_token (messages e) t = Some (peer, m)"
  shows "get_message peer t e = Some m"
proof -
  have "(\<exists>ms. (peer, ms) \<in> set mm \<and> smap_find ms t = Some m)"
    if "find_token mm t = Some (peer, m)" for mm
    using that by (induction mm t rule: find_token.induct) (auto split: option.splits)
  from this [OF assms(2)] obtain ms where "(peer, ms) \<in> set (messages e)" "smap_find ms t = Some m"
    by blast
  with assms(1) show ?thesis
    by (simp add: get_message_def peer_messages_def maps_wf_def smap_find_iff [THEN iffD2])
qed

lemma msg_inv_sendMessage:
  assumes inv: "msg_inv (e, tr)" and s: "sendMessage E to pl refresh draws e = Some (t, e', ev)"
  shows "msg_inv (e', tr @ ev)"
proof (cases "pl = [] \<or> to = []")
  case True
  with s inv show ?thesis by (auto simp: sendMessage_def)
next
  case False
  let ?new = "Message_new\<lparr>msg_to := to, msg_payloads := pl\<rparr>"
  have new: "msg_ok to ?new" "msg_retried ?new = 0"
    by (simp_all add: msg_ok_def Message_new_def MAX_RETRIES_def)
  have fresh: "msg_inv (save_messages E (set_message to u ?new e), tr @ [PostRetrySend to])"
    if "draw_until (\<lambda>t. smap_find (peer_messages to e) t \<noteq> None) draws = Some u" for u
    using draw_until_SomeD [OF that] new
    by (auto intro!: msg_inv_set [OF inv] simp: get_message_def simp del: get_message_set)
  have upd: "msg_inv (save_messages E (set_message to refresh (prev\<lparr>msg_to := to, msg_payloads := pl\<rparr>) e),
      tr @ [PostRetrySend to])" if "get_message to refresh e = Some prev" for prev
    using that msg_invD [OF inv, of to refresh]
    by (auto intro!: msg_inv_set [OF inv] simp: msg_ok_def waiting_def)
  from s False fresh upd show ?thesis
    by (auto simp: sendMessage_def get_message_def Let_def split: option.splits if_splits)
qed

lemma get_message_cong: "messages e = messages e' \<Longrightarrow> get_message peer t e = get_message peer t e'"
  by (simp add: get_message_def peer_messages_def)

lemma msg_inv_cong: "messages e = messages e' \<Longrightarrow> msg_inv (e, tr) = msg_inv (e', tr)"
  by (simp add: msg_inv_def maps_wf_def get_message_cong [of e e'])

lemma onMessageSent_cases:
  fixes e e' :: "'text engine" and ev :: "msg_event list"
  assumes "onMessageSent E peer t ok e = (e', ev)"
  obtains (unchanged) "e' = e" "ev = []"
  | (updated) m st where "get_message peer t e = Some m" "msg_status m = SENDING"
      "messages e' = messages (set_message peer t (m\<lparr>msg_status := st\<rparr>) e)"
      "st = SENT \<or> st = FAILURE \<or> st = IDLE \<and> msg_retried m < MAX_RETRIES"
      "\<And>p u x. x \<in> set ev \<Longrightarrow> \<not> is_attempt p u x"
proof (cases "\<exists>m. get_message peer t e = Some m \<and> msg_status m = SENDING")
  case False
  have "e' = e \<and> ev = []"
    using assms False
    by (auto simp: onMessageSent_def get_message_def peer_messages_def Let_def split: option.splits)
  then show ?thesis using unchanged by simp
next
  case True
  then obtain m where m: "get_message peer t e = Some m" "msg_status m = SENDING" by blast
  then obtain ms where ms: "smap_find (messages e) peer = Some ms" "smap_find ms t = Some m"
    by (auto simp: get_message_def peer_messages_def split: option.splits)
  let ?st = "if ok then SENT else if MAX_RETRIES \<le> msg_retried m then FAILURE else IDLE"
  have e': "messages e' = messages (set_message peer t (m\<lparr>msg_status := ?st\<rparr>) e)"
    and q: "\<And>p u x. x \<in> set ev \<Longrightarrow> \<not> is_attempt p u x"
    using assms ms m by (auto simp: onMessageSent_def Let_def split: if_splits)
  have st: "?st = SENT \<or> ?st = FAILURE \<or> ?st = IDLE \<and> msg_retried m < MAX_RETRIES" by auto
  from updated [OF m e' st q] show ?thesis .
qed

lemma msg_inv_onMessageSent:
  assumes inv: "msg_inv (e, tr)" and s: "onMessageSent E peer t ok e = (e', ev)"
  shows "msg_inv (e', tr @ ev)"
  using s
proof (cases rule: onMessageSent_cases)
  case (updated m st)
  have "msg_ok peer m" using msg_invD [OF inv, of peer t] updated(1) by simp
  with updated have "msg_inv (set_message peer t (m\<lparr>msg_status := st\<rparr>) e, tr @ ev)"
    by (intro msg_inv_set [OF inv]) (auto simp: msg_ok_def waiting_def)
  with msg_inv_cong [OF updated(3)] show ?thesis by simp
qed (use inv in simp)

lemma cancel_cases:
  assumes "maps_wf e" and "cancel E t e = (r, e', ev)"
  obtains (unknown) "\<not> r" "e' = e" "ev = []"
  | (cancelled) peer m where "r" "get_message peer t e = Some m"
      "messages e' = messages (set_message peer t (m\<lparr>msg_status := CANCELLED\<rparr>) e)"
      "\<And>p u x. x \<in> set ev \<Longrightarrow> \<not> is_attempt p u x"
proof (cases "find_token (messages e) t")
  case None
  with assms(2) show ?thesis by (intro unknown) (auto simp: cancel_def)
next
  case (Some pm)
  obtain peer m where pm: "pm = (peer, m)" by (cases pm)
  with Some have g: "get_message peer t e = Some m" using find_token_get [OF assms(1)] by simp
  from assms(2) Some pm have "messages e' = messages (set_message peer t (m\<lparr>msg_status := CANCELLED\<rparr>) e)" "r"
    and "\<And>p u x. x \<in> set ev \<Longrightarrow> \<not> is_attempt p u x"
    by (auto simp: cancel_def split: if_splits)
  with cancelled g show ?thesis by blast
qed

lemma msg_inv_cancel:
  assumes inv: "msg_inv (e, tr)" and s: "cancel E t e = (r, e', ev)"
  shows "msg_inv (e', tr @ ev)"
proof -
  have wf: "maps_wf e" using inv by (simp add: msg_inv_def)
  from wf s show ?thesis
  proof (cases rule: cancel_cases)
    case (cancelled peer m)
    have "msg_ok peer m" using msg_invD [OF inv, of peer t] cancelled(2) by simp
    with cancelled have "msg_inv (set_message peer t (m\<lparr>msg_status := CANCELLED\<rparr>) e, tr @ ev)"
      by (intro msg_inv_set [OF inv]) (auto simp: msg_ok_def waiting_def)
    with msg_inv_cong [OF cancelled(3)] show ?thesis by simp
  qed (use inv in simp)
qed

text \<open>A retry sends each waiting message of the peer once and no other.\<close>

definition attempted :: "('j, 'text) msg_env \<Rightarrow> msg \<Rightarrow> msg" where
  "attempted E m = (if waiting m
     then m\<lparr>msg_status := SENDING, msg_retried := Suc (msg_retried m) mod 2 ^ 32, msg_last_op := steady_now E\<rparr>
     else m)"

lemma retrySend_get:
  assumes "retrySend E peer b e = (e', ev)" and "registered E"
  shows "get_message p t e' = (if p = peer then map_option (attempted E) (get_message p t e) else get_message p t e)"
  using assms
  by (auto simp: retrySend_def get_message_def peer_messages_def attempted_def [abs_def] Let_def split: option.splits)

lemma retrySend_unregistered: "\<not> registered E \<Longrightarrow> retrySend E peer b e = (e, [])"
  by (simp add: retrySend_def)

lemma retrySend_attempts:
  assumes "retrySend E peer b e = (e', ev)" and "registered E" and wf: "maps_wf e"
    and to: "\<And>t m. get_message peer t e = Some m \<Longrightarrow> msg_to m = peer"
  shows "attempts p t ev =
    (case get_message p t e of Some m \<Rightarrow> if p = peer \<and> waiting m then 1 else 0 | None \<Rightarrow> 0)"
proof (cases "smap_find (messages e) peer")
  case None
  with assms show ?thesis
    by (auto simp: retrySend_def attempts_def get_message_def peer_messages_def split: option.splits)
next
  case (Some ms)
  define f :: "message_token \<times> msg \<Rightarrow> msg_event list" where "f = (\<lambda>(t, m).
      (if smap_find (msg_payloads m) GITMESSAGE = None then [StatusChanged (msg_to m) t SENDING] else []) @
      [AccountSend (msg_to m) (msg_payloads m) t b])"
  have ev: "ev = concat (map f (filter (\<lambda>(_, m). waiting m) ms))"
    using assms(1,2) Some by (auto simp: retrySend_def f_def Let_def)
  have g: "get_message peer u e = smap_find ms u" for u
    using Some by (simp add: get_message_def peer_messages_def)
  have "smap_wf ms" using peer_messages_wf [OF wf, of peer] Some by (simp add: peer_messages_def)
  then have d: "distinct (map fst ms)" by (rule smap_wf_distinct)
  have "attempts p t (concat (map f (filter (\<lambda>(_, m). waiting m) xs))) =
      (case map_of xs t of Some m \<Rightarrow> if p = peer \<and> waiting m then 1 else 0 | None \<Rightarrow> 0)"
    if "distinct (map fst xs)" "\<And>u m. (u, m) \<in> set xs \<Longrightarrow> msg_to m = peer" for xs
    using that
  proof (induction xs)
    case (Cons x xs)
    obtain u m where x: "x = (u, m)" by (cases x)
    have one: "attempts p t (f x) = (if p = peer \<and> u = t then 1 else 0)"
      using Cons.prems(2) [of u m] x by (auto simp: attempts_def f_def)
    have notin: "map_of xs u = None" using Cons.prems(1) x by (simp add: map_of_eq_None_iff)
    have "attempts p t (concat (map f (filter (\<lambda>(_, m). waiting m) xs))) =
      (case map_of xs t of Some m \<Rightarrow> if p = peer \<and> waiting m then 1 else 0 | None \<Rightarrow> 0)"
      by (rule Cons.IH) (use Cons.prems in auto)
    with x one notin show ?case by auto
  qed (simp add: attempts_def)
  moreover have "msg_to m = peer" if "(u, m) \<in> set ms" for u m
    using that d to g by simp
  ultimately have "attempts p t ev =
      (case map_of ms t of Some m \<Rightarrow> if p = peer \<and> waiting m then 1 else 0 | None \<Rightarrow> 0)"
    using d unfolding ev by blast
  then show ?thesis using g by (cases "p = peer") (auto split: option.splits)
qed

lemma attempted_ok: "msg_ok peer m \<Longrightarrow> msg_ok peer (attempted E m) \<and>
    msg_retried (attempted E m) = msg_retried m + (if waiting m then 1 else 0)"
  by (auto simp: msg_ok_def attempted_def waiting_def MAX_RETRIES_def)

lemma maps_wf_retrySend: "maps_wf e \<Longrightarrow> maps_wf (fst (retrySend E peer b e))"
  using peer_messages_wf [of e peer]
  by (auto simp: retrySend_def Let_def peer_messages_def intro!: maps_wf_set split: option.splits)

lemma msg_inv_retrySend:
  assumes inv: "msg_inv (e, tr)" and s: "retrySend E peer b e = (e', ev)"
  shows "msg_inv (e', tr @ ev)"
proof (cases "registered E")
  case False
  with s inv show ?thesis by (auto simp: retrySend_unregistered)
next
  case True
  have wf: "maps_wf e" using inv by (simp add: msg_inv_def)
  have to: "msg_to m = peer" if "get_message peer t e = Some m" for t m
    using msg_invD [OF inv, of peer t] that by (simp add: msg_ok_def)
  have "attempts p t ev =
      (case get_message p t e of Some m \<Rightarrow> if p = peer \<and> waiting m then 1 else 0 | None \<Rightarrow> 0)" for p t
    by (rule retrySend_attempts [OF s True wf to])
  then have "entry_ok p (attempts p t (tr @ ev)) (get_message p t e')" for p t
    using msg_invD [OF inv, of p t] retrySend_get [OF s True, of p t]
    by (cases "get_message p t e") (auto simp: attempted_ok)
  moreover have "maps_wf e'" using maps_wf_retrySend [OF wf, of E peer b] s by simp
  ultimately show ?thesis by (simp add: msg_inv_def)
qed

lemma msg_exec_inv:
  assumes inv: "msg_inv (e, tr)" and ex: "msg_exec E op e = (e', ev)"
  shows "msg_inv (e', tr @ ev)"
proof (cases op)
  case (SendMessage to pl r draws)
  with ex inv msg_inv_sendMessage [OF inv] show ?thesis by (auto split: option.splits)
next
  case (PeerOnline peer b)
  with ex msg_inv_retrySend [OF inv] show ?thesis by (auto simp: onPeerOnline_def)
next
  case (CancelMessage t)
  with ex msg_inv_cancel [OF inv] show ?thesis by (cases "cancel E t e") auto
next
  case (MessageSent peer t ok)
  with ex msg_inv_onMessageSent [OF inv] show ?thesis by auto
next
  case (MessageDisplayed peer t b)
  with ex inv show ?thesis by (auto simp: onMessageDisplayed_def intro!: msg_inv_quiet split: if_splits)
qed

interpretation em: invariant_machine msg_step msg_inv
  by unfold_locales (auto simp: msg_step_def split: prod.splits intro: msg_exec_inv)

definition engine_new :: "'text engine" where
  "engine_new = \<lparr>messages = [], save_file = None\<rparr>"

lemma msg_inv_new: "msg_inv (engine_new, [])"
  by (simp add: msg_inv_def engine_new_def maps_wf_def get_message_def peer_messages_def attempts_def)

section \<open>Properties\<close>


text \<open>A settled message stays settled and is not sent again.\<close>

lemma settled_step:
  assumes inv: "msg_inv (e, tr)" and ex: "msg_exec E op e = (e', ev)"
    and m: "get_message peer t e = Some m" and st: "settled (msg_status m)"
  shows "(\<exists>m'. get_message peer t e' = Some m' \<and> settled (msg_status m')) \<and> attempts peer t ev = 0"
proof -
  have wf: "maps_wf e" using inv by (simp add: msg_inv_def)
  have ret: "attempts peer t ev = 0"
    if "get_message peer t e' = Some m'" "msg_retried m' = msg_retried m" for m'
    using msg_invD [OF inv, of peer t] msg_invD [OF msg_exec_inv [OF inv ex], of peer t] that m by simp
  have "\<exists>m'. get_message peer t e' = Some m' \<and> settled (msg_status m') \<and> msg_retried m' = msg_retried m"
  proof (cases op)
    case (SendMessage to pl r draws)
    with ex m st show ?thesis
      by (auto simp: sendMessage_def get_message_def [symmetric] Let_def
          dest!: draw_until_SomeD split: option.splits if_splits)
  next
    case (PeerOnline p b)
    have "attempted E m = m" using st by (auto simp: attempted_def waiting_def settled_def)
    with PeerOnline ex m retrySend_get [of E p b e e' ev peer t] have "get_message peer t e' = Some m"
      by (cases "registered E") (auto simp: onPeerOnline_def retrySend_unregistered)
    with st show ?thesis by blast
  next
    case (CancelMessage u)
    obtain r where c: "cancel E u e = (r, e', ev)" using ex CancelMessage by (cases "cancel E u e") auto
    from wf c show ?thesis
    proof (cases rule: cancel_cases)
      case (cancelled p m0)
      with m st get_message_cong [OF cancelled(3), of peer t] show ?thesis by (auto simp: settled_def)
    qed (use m st in simp)
  next
    case (MessageSent p u ok)
    then have c: "onMessageSent E p u ok e = (e', ev)" using ex by simp
    then show ?thesis
    proof (cases rule: onMessageSent_cases)
      case (updated m0 s0)
      with m st get_message_cong [OF updated(3), of peer t] show ?thesis by (auto simp: settled_def)
    qed (use m st in simp)
  next
    case (MessageDisplayed p u b)
    with ex m st show ?thesis by (auto simp: onMessageDisplayed_def split: if_splits)
  qed
  with ret show ?thesis by blast
qed

lemma settled_run:
  assumes "msg_inv (e, tr)" and "get_message peer t e = Some m" and "settled (msg_status m)"
    and "foldl msg_step (e, tr) ops = (e', tr')"
  shows "(\<exists>m'. get_message peer t e' = Some m' \<and> settled (msg_status m')) \<and>
    attempts peer t tr' = attempts peer t tr"
  using assms
proof (induction ops arbitrary: e tr m)
  case (Cons x ops)
  obtain E op where x: "x = (E, op)" by (cases x)
  obtain e1 ev where ex: "msg_exec E op e = (e1, ev)" by (cases "msg_exec E op e")
  from settled_step [OF Cons.prems(1) ex Cons.prems(2,3)] obtain m1 where
    m1: "get_message peer t e1 = Some m1" "settled (msg_status m1)" and a: "attempts peer t ev = 0" by blast
  from Cons.IH [OF msg_exec_inv [OF Cons.prems(1) ex] m1] Cons.prems(4) x ex a
  show ?case by (simp add: msg_step_def)
qed simp

text \<open>
  A message that was sent, has failed or was cancelled stays so, and the account is never
  asked to send it again.
\<close>

theorem settled_message_stays:
  assumes "msg_inv (e, tr)" and "get_message peer t e = Some m" and "settled (msg_status m)"
    and "foldl msg_step (e, tr) ops = (e', tr')"
  shows "\<exists>m'. get_message peer t e' = Some m' \<and> settled (msg_status m') \<and>
    attempts peer t tr' = attempts peer t tr"
  using settled_run [OF assms] by blast

text \<open>
  Refreshing a message that was cancelled or has failed succeeds, returns the message's token
  and stores the new content, but the message is never sent.
\<close>

theorem refreshed_settled_message_is_lost:
  assumes "msg_inv (e, tr)" and "get_message to t e = Some m"
    and "msg_status m = CANCELLED \<or> msg_status m = FAILURE" and "pl \<noteq> []" and "to \<noteq> []"
  shows "\<exists>e1 ev. sendMessage E to pl t draws e = Some (t, e1, ev) \<and>
    get_message to t e1 = Some (m\<lparr>msg_to := to, msg_payloads := pl\<rparr>) \<and>
    (\<forall>ops. attempts to t (snd (foldl msg_step (e1, tr @ ev) ops)) = attempts to t tr)"
proof -
  let ?m = "m\<lparr>msg_to := to, msg_payloads := pl\<rparr>"
  let ?e1 = "save_messages E (set_message to t ?m e)"
  have s: "sendMessage E to pl t draws e = Some (t, ?e1, [PostRetrySend to])"
    using assms(2-) by (auto simp: sendMessage_def get_message_def Let_def)
  have inv: "msg_inv (?e1, tr @ [PostRetrySend to])" by (rule msg_inv_sendMessage [OF assms(1) s])
  have g: "get_message to t ?e1 = Some ?m" by simp
  have st: "settled (msg_status ?m)" using assms(3) by (auto simp: settled_def)
  have "attempts to t (snd (foldl msg_step (?e1, tr @ [PostRetrySend to]) ops)) = attempts to t tr" for ops
    using settled_run [OF inv g st, of ops]
    by (cases "foldl msg_step (?e1, tr @ [PostRetrySend to]) ops") (auto simp: attempts_def)
  with s g show ?thesis by blast
qed

section \<open>The file\<close>

lemma to_hex_string_inject: "to_hex_string t = to_hex_string u \<longleftrightarrow> t = u"
  by (metis from_to_hex sum.inject(2))

text \<open>What survives of a message that was saved at \<open>E1\<close> and is loaded at \<open>E2\<close>.\<close>

definition restored :: "('j, 'text) msg_env \<Rightarrow> ('j, 'text) msg_env \<Rightarrow> msg \<Rightarrow> msg" where
  "restored E1 E2 m =
     m\<lparr>msg_status := (if msg_status m = SENDING then IDLE else msg_status m),
       msg_last_op := steady_now E2 +
         (to_time_t (system_now E1 + (msg_last_op m - steady_now E1)) * 1000000000 - system_now E2)\<rparr>"

definition storable :: "('j, 'text) msg_env \<Rightarrow> msg \<Rightarrow> bool" where
  "storable E m \<longleftrightarrow> smap_wf (msg_payloads m) \<and> msg_retried m < 2 ^ 32 \<and>
     (let w = to_time_t (system_now E + (msg_last_op m - steady_now E)) in - (2 ^ 63) \<le> w \<and> w < 2 ^ 63) \<and>
     msg_status m \<in> {UNKNOWN, IDLE, SENDING, SENT, DISPLAYED, FAILURE, CANCELLED}"

lemma load_payloads_map:
  assumes "json_laws J"
  shows "load_payloads J (smap_map (\<lambda>_ s. j_str J s) pl) acc = Some (foldl (\<lambda>m (k, v). smap_set k v m) acc pl)"
proof (induction pl arbitrary: acc)
  case (Cons kv pl)
  then show ?case using assms by (cases kv) (simp add: smap_map_def json_laws_def)
qed (simp add: smap_map_def)

lemma load_message_json:
  assumes J: "json_laws (env_json E1)" and E: "env_json E2 = env_json E1" and m: "storable E1 m"
  shows "load_message E2 (to_hex_string t) (message_json E1 m) = Some (t, restored E1 E2 m)"
proof -
  let ?J = "env_json E1"
  define w where "w = to_time_t (system_now E1 + (msg_last_op m - steady_now E1))"
  define st where "st = (if msg_status m = SENDING then IDLE else msg_status m)"
  define pl where "pl = (if msg_payloads m = [] then j_null ?J
      else j_object ?J (smap_map (\<lambda>_ s. j_str ?J s) (msg_payloads m)))"
  define fields where "fields = smap_set ''payload'' pl (smap_set ''retried'' (j_int ?J (int (msg_retried m)))
      (smap_set ''last_op'' (j_int ?J w) (smap_set ''to'' (j_str ?J (msg_to m))
      (smap_set ''status'' (j_int ?J (status_to_int st)) []))))"
  have js: "message_json E1 m = j_object ?J fields"
    by (simp add: message_json_def fields_def w_def st_def pl_def Let_def)
  have f: "smap_find fields ''payload'' = Some pl" "smap_find fields ''retried'' = Some (j_int ?J (int (msg_retried m)))"
    "smap_find fields ''last_op'' = Some (j_int ?J w)" "smap_find fields ''to'' = Some (j_str ?J (msg_to m))"
    "smap_find fields ''status'' = Some (j_int ?J (status_to_int st))"
    by (simp_all add: fields_def)
  have st: "- (2 ^ 31) \<le> status_to_int st \<and> status_to_int st < 2 ^ 31 \<and> int_to_status (status_to_int st) = st"
    using m by (auto simp: st_def storable_def status_to_int_def int_to_status_def)
  have wf: "smap_wf (msg_payloads m)" using m by (simp add: storable_def)
  have mem: "j_members ?J pl = smap_map (\<lambda>_ s. j_str ?J s) (msg_payloads m)"
    using J wf by (auto simp: pl_def json_laws_def smap_map_def [of _ "[]"])
  have lp: "load_payloads ?J (j_members ?J pl) [] = Some (msg_payloads m)"
    by (simp add: mem load_payloads_map [OF J] smap_copy [OF wf])
  have b: "- (2 ^ 63) \<le> w" "w < 2 ^ 63" "msg_retried m < 2 ^ 32"
    using m by (simp_all add: storable_def w_def Let_def)
  from J have get: "j_get ?J (j_object ?J fields) k = Some v" if "smap_find fields k = Some v" for k v
    using that by (simp add: json_laws_def)
  from J have getd: "j_get_default ?J (j_object ?J fields) k d = Some v" if "smap_find fields k = Some v" for k d v
    using that by (simp add: json_laws_def)
  from J st b have as: "j_asInt ?J (j_int ?J (status_to_int st)) = Some (status_to_int st)"
    "j_asInt64 ?J (j_int ?J w) = Some w" "j_asUInt ?J (j_int ?J (int (msg_retried m))) = Some (msg_retried m)"
    "j_asString ?J (j_str ?J (msg_to m)) = Some (msg_to m)"
    unfolding json_laws_def by blast+
  show ?thesis
    unfolding load_message_def E Let_def js get [OF f(1)] getd [OF f(2)] get [OF f(3)] get [OF f(4)] get [OF f(5)]
      Option.bind.simps as from_to_hex sum.case option.case lp
    using st by (simp add: restored_def w_def st_def)
qed

text \<open>Building an object member by member, for the messages of a peer and for the peers.\<close>

lemma foldl_smap_set_filter:
  "foldl (\<lambda>root x. if P x then root else smap_set (f x) (g x) root) root xs =
     foldl (\<lambda>m (k, v). smap_set k v m) root (map (\<lambda>x. (f x, g x)) (filter (\<lambda>x. \<not> P x) xs))"
  by (induction xs arbitrary: root) auto

lemma foldl_smap_set_members:
  assumes "distinct (map fst kvs)"
  shows "smap_wf (foldl (\<lambda>m (k, v). smap_set k v m) [] kvs) \<and>
    set (foldl (\<lambda>m (k, v). smap_set k v m) [] kvs) = set kvs"
proof -
  let ?m = "foldl (\<lambda>m (k, v). smap_set k v m) [] kvs"
  from smap.lookup_update_all [of "[]" kvs] have wf: "smap_wf ?m" and l: "smap_find ?m = map_of (rev kvs)" by auto
  have "x \<in> set ?m \<longleftrightarrow> x \<in> set kvs" for x
    using smap_find_iff [OF wf, of "fst x" "snd x"] l assms
    by (simp add: rev_map [symmetric])
  with wf show ?thesis by blast
qed

lemma in_map_filter:
  "(k, j) \<in> set (map (\<lambda>x. (f (fst x), g (snd x))) (filter (\<lambda>x. P (snd x)) xs)) \<longleftrightarrow>
     (\<exists>t v. (t, v) \<in> set xs \<and> P v \<and> k = f t \<and> j = g v)"
  by (simp add: image_iff Bex_def)

lemma peer_json_members:
  assumes "smap_wf ms"
  shows "smap_wf (peer_json E ms)"
    and "(k, j) \<in> set (peer_json E ms) \<longleftrightarrow>
      (\<exists>t v. (t, v) \<in> set ms \<and> \<not> settled (msg_status v) \<and> k = to_hex_string t \<and> j = message_json E v)"
proof -
  let ?kvs = "map (\<lambda>x. (to_hex_string (fst x), message_json E (snd x))) (filter (\<lambda>x. \<not> settled (msg_status (snd x))) ms)"
  have "inj_on to_hex_string A" for A by (auto simp: inj_on_def to_hex_string_inject)
  then have d: "distinct (map fst ?kvs)"
    using smap_wf_distinct [OF assms] by (auto simp: comp_def distinct_map inj_on_def to_hex_string_inject)
  have eq: "peer_json E ms = foldl (\<lambda>m (k, v). smap_set k v m) [] ?kvs"
    unfolding peer_json_def case_prod_beta' foldl_smap_set_filter ..
  note m = foldl_smap_set_members [OF d, folded eq]
  show "smap_wf (peer_json E ms)" using m by blast
  show "(k, j) \<in> set (peer_json E ms) \<longleftrightarrow>
      (\<exists>t v. (t, v) \<in> set ms \<and> \<not> settled (msg_status v) \<and> k = to_hex_string t \<and> j = message_json E v)"
    using in_map_filter [of k j to_hex_string "message_json E" "\<lambda>v. \<not> settled (msg_status v)" ms] m
    by (simp only:)
qed

lemma root_json_members:
  assumes "smap_wf mm"
  shows "smap_wf (root_json E mm)"
    and "(peer, j) \<in> set (root_json E mm) \<longleftrightarrow>
      (\<exists>ms. (peer, ms) \<in> set mm \<and> peer_json E ms \<noteq> [] \<and> j = j_object (env_json E) (peer_json E ms))"
proof -
  let ?kvs = "map (\<lambda>x. (fst x, j_object (env_json E) (peer_json E (snd x)))) (filter (\<lambda>x. peer_json E (snd x) \<noteq> []) mm)"
  have d: "distinct (map fst ?kvs)"
    using smap_wf_distinct [OF assms] by (auto simp: comp_def distinct_map inj_on_def)
  have eq: "root_json E mm = foldl (\<lambda>m (k, v). smap_set k v m) [] ?kvs"
    unfolding root_json_def case_prod_beta' Let_def foldl_smap_set_filter ..
  note m = foldl_smap_set_members [OF d, folded eq]
  show "smap_wf (root_json E mm)" using m by blast
  show "(peer, j) \<in> set (root_json E mm) \<longleftrightarrow>
      (\<exists>ms. (peer, ms) \<in> set mm \<and> peer_json E ms \<noteq> [] \<and> j = j_object (env_json E) (peer_json E ms))"
    using in_map_filter [of peer j "\<lambda>x. x" "\<lambda>ms. j_object (env_json E) (peer_json E ms)"
        "\<lambda>ms. peer_json E ms \<noteq> []" mm] m
    by (simp only:) blast
qed

lemma load_peer_ok:
  assumes "\<And>k j. (k, j) \<in> set L \<Longrightarrow> load_message E k j = Some (g (k, j))"
    and "distinct (map (\<lambda>x. fst (g x)) L)"
  shows "fst (load_peer E L p) \<and>
    smap_find (snd (load_peer E L p)) t =
      (case smap_find p t of Some m \<Rightarrow> Some m | None \<Rightarrow> map_of (map g L) t)"
  using assms
proof (induction L arbitrary: p)
  case (Cons x L)
  obtain k j where x: "x = (k, j)" by (cases x)
  obtain u m where g: "g (k, j) = (u, m)" by (cases "g (k, j)")
  have l: "load_message E k j = Some (u, m)" using Cons.prems(1) x g by simp
  have notin: "map_of (map g L) u = None"
    using Cons.prems(2) x g by (auto simp: map_of_eq_None_iff)
  have "fst (load_peer E L (smap_emplace u m p)) \<and>
    smap_find (snd (load_peer E L (smap_emplace u m p))) t =
      (case smap_find (smap_emplace u m p) t of Some m \<Rightarrow> Some m | None \<Rightarrow> map_of (map g L) t)"
    by (rule Cons.IH) (use Cons.prems in auto)
  with x l g notin show ?case by (auto split: option.splits)
qed (simp split: option.splits)

lemma load_root_ok:
  assumes "\<And>peer j. (peer, j) \<in> set R \<Longrightarrow> fst (load_peer E (j_members (env_json E) j) [])"
    and "distinct (map fst R)" and "\<And>peer. peer \<in> fst ` set R \<Longrightarrow> smap_find mm peer = None"
  shows "smap_find (load_root E R mm) peer =
    (case map_of R peer of
       Some j \<Rightarrow> Some (snd (load_peer E (j_members (env_json E) j) []))
     | None \<Rightarrow> smap_find mm peer)"
  using assms
proof (induction R arbitrary: mm)
  case (Cons x R)
  obtain to j where x: "x = (to, j)" by (cases x)
  obtain ok p where l: "load_peer E (j_members (env_json E) j) [] = (ok, p)"
    by (cases "load_peer E (j_members (env_json E) j) []")
  have ok: "ok" using Cons.prems(1) [of to j] x l by simp
  have none: "smap_find mm to = None" using Cons.prems(3) x by simp
  have "smap_find (load_root E R (smap_set to p mm)) peer =
    (case map_of R peer of
       Some j \<Rightarrow> Some (snd (load_peer E (j_members (env_json E) j) []))
     | None \<Rightarrow> smap_find (smap_set to p mm) peer)"
    by (rule Cons.IH) (use Cons.prems x in auto)
  moreover have "map_of R to = None" using Cons.prems(2) x by (simp add: map_of_eq_None_iff)
  ultimately show ?case using x l ok none by (auto split: option.splits)
qed simp

lemma load_peer_json:
  assumes J: "json_laws (env_json E1)" and E: "env_json E2 = env_json E1" and ms: "smap_wf ms"
    and st: "\<And>t m. (t, m) \<in> set ms \<Longrightarrow> storable E1 m"
  shows "fst (load_peer E2 (peer_json E1 ms) []) \<and>
    smap_find (snd (load_peer E2 (peer_json E1 ms) [])) t =
      (case smap_find ms t of Some m \<Rightarrow> if settled (msg_status m) then None else Some (restored E1 E2 m)
       | None \<Rightarrow> None)"
proof -
  let ?L = "peer_json E1 ms"
  let ?g = "\<lambda>x. the (load_message E2 (fst x) (snd x))"
  note wf = peer_json_members(1) [OF ms, of E1]
  note mem = peer_json_members(2) [OF ms, of _ _ E1]
  have load: "load_message E2 (to_hex_string u) (message_json E1 v) = Some (u, restored E1 E2 v)"
    if "(u, v) \<in> set ms" for u v
    using load_message_json [OF J E st [OF that]] .
  have ok: "load_message E2 k j = Some (?g (k, j))" if "(k, j) \<in> set ?L" for k j
    using that load by (auto simp: mem)
  have xs: "(u, w) \<in> set (map ?g ?L) \<longleftrightarrow>
      (\<exists>v. (u, v) \<in> set ms \<and> \<not> settled (msg_status v) \<and> w = restored E1 E2 v)" for u w
  proof
    assume "(u, w) \<in> set (map ?g ?L)"
    then obtain k j where kj: "(k, j) \<in> set ?L" "(u, w) = ?g (k, j)" by auto
    then obtain t v where "(t, v) \<in> set ms" "\<not> settled (msg_status v)" "k = to_hex_string t" "j = message_json E1 v"
      unfolding mem by blast
    with load [of t v] kj(2)
    show "\<exists>v. (u, v) \<in> set ms \<and> \<not> settled (msg_status v) \<and> w = restored E1 E2 v" by auto
  next
    assume "\<exists>v. (u, v) \<in> set ms \<and> \<not> settled (msg_status v) \<and> w = restored E1 E2 v"
    then obtain v where v: "(u, v) \<in> set ms" "\<not> settled (msg_status v)" "w = restored E1 E2 v" by blast
    then have "(to_hex_string u, message_json E1 v) \<in> set ?L" unfolding mem by blast
    then have "?g (to_hex_string u, message_json E1 v) \<in> set (map ?g ?L)"
      unfolding set_map by (rule imageI)
    with load [OF v(1)] v(3) show "(u, w) \<in> set (map ?g ?L)" by simp
  qed
  have "distinct (map fst ?L)" using smap_wf_distinct [OF wf] .
  moreover have "inj_on (\<lambda>x. fst (?g x)) (set ?L)"
  proof (rule inj_onI)
    fix x y assume x: "x \<in> set ?L" and y: "y \<in> set ?L" and eq: "fst (?g x) = fst (?g y)"
    from x mem [of "fst x" "snd x"] obtain a v where
      a: "(a, v) \<in> set ms" "x = (to_hex_string a, message_json E1 v)" by (auto simp: prod_eq_iff)
    from y mem [of "fst y" "snd y"] obtain b w where
      b: "(b, w) \<in> set ms" "y = (to_hex_string b, message_json E1 w)" by (auto simp: prod_eq_iff)
    from eq load [OF a(1)] load [OF b(1)] a(2) b(2) have "a = b" by simp
    with a b smap_find_iff [OF ms, of a] show "x = y" by (metis option.inject)
  qed
  ultimately have d: "distinct (map (\<lambda>x. fst (?g x)) ?L)"
    by (auto simp: distinct_map)
  then have d': "distinct (map fst (map ?g ?L))" by (simp add: comp_def)
  have "map_of (map ?g ?L) t =
      (case smap_find ms t of Some m \<Rightarrow> if settled (msg_status m) then None else Some (restored E1 E2 m)
       | None \<Rightarrow> None)" (is "?l = ?r")
  proof (rule option_eqI)
    fix w
    have l: "?l = Some w \<longleftrightarrow> (t, w) \<in> set (map ?g ?L)" for w by (rule map_of_eq_Some_iff [OF d'])
    have r: "?r = Some w \<longleftrightarrow> (\<exists>v. (t, v) \<in> set ms \<and> \<not> settled (msg_status v) \<and> w = restored E1 E2 v)" for w
      by (cases "smap_find ms t") (auto simp flip: smap_find_iff [OF ms])
    show "?l = Some w \<longleftrightarrow> ?r = Some w" using l [of w] r [of w] xs [of t w] by (simp only:)
  qed
  with load_peer_ok [of ?L E2 ?g "[]" t, OF ok d] show ?thesis by simp
qed

lemma root_json_find:
  assumes mm: "smap_wf ms"
  shows "map_of (root_json E ms) peer = (case smap_find ms peer of
      Some x \<Rightarrow> if peer_json E x = [] then None else Some (j_object (env_json E) (peer_json E x)) | None \<Rightarrow> None)"
proof (cases "smap_find ms peer")
  case None
  note R = root_json_members [OF mm]
  from None have "map_of (root_json E ms) peer \<noteq> Some j" for j
    using smap_find_iff [OF mm, of peer] by (auto simp: R smap_find_iff [OF R(1)])
  then have "map_of (root_json E ms) peer = None" by (meson not_None_eq)
  with None show ?thesis by simp
next
  case (Some x)
  note R = root_json_members [OF mm]
  have "(peer, y) \<in> set ms \<longleftrightarrow> y = x" for y
    using Some smap_find_iff [OF mm, of peer y] by auto
  then have j: "map_of (root_json E ms) peer = Some j \<longleftrightarrow> peer_json E x \<noteq> [] \<and> j = j_object (env_json E) (peer_json E x)" for j
    by (auto simp: R smap_find_iff [OF R(1)])
  then show ?thesis using Some by (cases "map_of (root_json E ms) peer") auto
qed

text \<open>
  C34: loading the file a program run saved restores exactly the messages that were still to be
  sent, each with its addressee, content and retry count; a message in flight waits again, and
  the time of its last operation is kept up to a second when both clocks advanced alike.
\<close>

theorem save_load_roundtrip:
  assumes J: "json_laws (env_json E1)" and E: "env_json E2 = env_json E1" and "file_writable E1"
    and wf: "maps_wf e" and st: "\<forall>peer t m. get_message peer t e = Some m \<longrightarrow> storable E1 m"
  shows "get_message peer t (load E2 (engine_new\<lparr>save_file := save_file (save_messages E1 e)\<rparr>)) =
    (case get_message peer t e of
       Some m \<Rightarrow> if settled (msg_status m) then None else Some (restored E1 E2 m)
     | None \<Rightarrow> None)"
proof -
  let ?J = "env_json E1" and ?R = "root_json E1 (messages e)"
  from wf have mm: "smap_wf (messages e)" and ms: "\<And>p ms. (p, ms) \<in> set (messages e) \<Longrightarrow> smap_wf ms"
    by (auto simp: maps_wf_def)
  note R = root_json_members [OF mm]
  have s: "storable E1 m" if "(p, ms) \<in> set (messages e)" "(u, m) \<in> set ms" for p ms u m
  proof -
    have "smap_find (messages e) p = Some ms" "smap_find ms u = Some m"
      using that smap_find_iff [OF mm] smap_find_iff [OF ms] by auto
    then have "get_message p u e = Some m" by (simp add: get_message_def peer_messages_def)
    with st show ?thesis by blast
  qed
  have mem: "j_members ?J (j_object ?J x) = x" if "smap_wf x" for x
    using J that by (simp add: json_laws_def)
  have lp: "fst (load_peer E2 (peer_json E1 x) []) \<and>
      smap_find (snd (load_peer E2 (peer_json E1 x) [])) t =
      (case smap_find x t of Some m \<Rightarrow> if settled (msg_status m) then None else Some (restored E1 E2 m)
       | None \<Rightarrow> None)" if "(p, x) \<in> set (messages e)" for p x
    using s [OF that] ms [OF that] by (intro load_peer_json [OF J E]) auto
  have a: "messages (load E2 (engine_new\<lparr>save_file := save_file (save_messages E1 e)\<rparr>)) = load_root E2 ?R []"
    using assms(3) J E by (simp add: load_def save_messages_def engine_new_def json_laws_def R)
  have b: "smap_find (load_root E2 ?R []) peer =
    (case map_of ?R peer of
       Some j \<Rightarrow> Some (snd (load_peer E2 (j_members (env_json E2) j) [])) | None \<Rightarrow> smap_find [] peer)"
    using R(1) lp by (intro load_root_ok) (auto simp: R E mem peer_json_members(1) ms smap_wf_distinct)
  note c = root_json_find [OF mm]
  have l: "peer_messages peer (load E2 (engine_new\<lparr>save_file := save_file (save_messages E1 e)\<rparr>)) =
      (case smap_find (messages e) peer of
         Some x \<Rightarrow> if peer_json E1 x = [] then [] else snd (load_peer E2 (peer_json E1 x) []) | None \<Rightarrow> [])"
  proof (cases "smap_find (messages e) peer")
    case (Some x)
    then have "smap_wf x" using ms by (auto dest: map_of_SomeD)
    with Some show ?thesis by (simp add: peer_messages_def a b c E mem peer_json_members(1))
  qed (simp add: peer_messages_def a b c)
  show ?thesis
  proof (cases "smap_find (messages e) peer")
    case (Some x)
    then have x: "(peer, x) \<in> set (messages e)" by (simp add: smap_find_iff [OF mm])
    have "load_peer E2 [] [] = (True, [])" by simp
    with l lp [OF x] Some show ?thesis
      by (cases "peer_json E1 x = []") (auto simp: get_message_def peer_messages_def)
  qed (use l in \<open>simp add: get_message_def peer_messages_def\<close>)
qed

definition example_env :: "(json_value, json_value) msg_env" where
  "example_env = \<lparr>env_json = json_model, steady_now = 5000000000, system_now = 900000000000,
     file_writable = True, registered = True\<rparr>"

definition example_engine :: "json_value engine" where
  "example_engine = \<lparr>messages = [(''bob'', [(7, \<lparr>msg_to = ''bob'', msg_payloads = [(''text/plain'', ''hi'')],
     msg_status = SENDING, msg_retried = 2, msg_last_op = 1000000000\<rparr>)])], save_file = None\<rparr>"

theorem save_load_roundtrip_witness:
  "\<exists>m. get_message ''bob'' 7 (load example_env
       (engine_new\<lparr>save_file := save_file (save_messages example_env example_engine)\<rparr>)) = Some m \<and>
     msg_status m = IDLE \<and> msg_retried m = 2 \<and> msg_last_op m = 1000000000"
proof -
  have l: "json_laws (env_json example_env)" by (simp add: example_env_def json_model_laws)
  have w: "file_writable example_env" by (simp add: example_env_def)
  have wf: "maps_wf example_engine" by (simp add: maps_wf_def example_engine_def smap_wf_def)
  have st: "\<forall>peer t m. get_message peer t example_engine = Some m \<longrightarrow> storable example_env m"
    by (auto simp: get_message_def peer_messages_def example_engine_def storable_def example_env_def
        to_time_t_def smap_wf_def split: if_splits)
  have g: "get_message ''bob'' 7 example_engine = Some \<lparr>msg_to = ''bob'', msg_payloads = [(''text/plain'', ''hi'')],
     msg_status = SENDING, msg_retried = 2, msg_last_op = 1000000000\<rparr>"
    by (simp add: get_message_def peer_messages_def example_engine_def)
  show ?thesis
    using save_load_roundtrip [OF l refl w wf st, of "''bob''" 7] g
    by (simp add: restored_def settled_def example_env_def to_time_t_def)
qed


abbreviation example_cancelled :: "json_value engine" where
  "example_cancelled \<equiv> set_message ''bob'' 7
     \<lparr>msg_to = ''bob'', msg_payloads = [(''text/plain'', ''hi'')], msg_status = CANCELLED, msg_retried = 0,
      msg_last_op = 0\<rparr> engine_new"

lemma example_cancelled_inv: "msg_inv (example_cancelled, [])"
  by (rule msg_inv_set [OF msg_inv_new, of "''bob''" _ 7 "[]", simplified])
    (simp_all add: msg_ok_def waiting_def MAX_RETRIES_def get_message_def peer_messages_def engine_new_def)

theorem settled_message_stays_witness:
  "\<forall>ops :: ((json_value, json_value) msg_env \<times> msg_op) list. attempts ''bob'' 7 (snd (foldl msg_step (example_cancelled, []) ops)) = 0"
proof
  fix ops :: "((json_value, json_value) msg_env \<times> msg_op) list"
  obtain e' tr' where r: "foldl msg_step (example_cancelled, []) ops = (e', tr')" by (metis surj_pair)
  from settled_message_stays [OF example_cancelled_inv _ _ r, of "''bob''" 7] r
  show "attempts ''bob'' 7 (snd (foldl msg_step (example_cancelled, []) ops)) = 0"
    by (auto simp: settled_def attempts_def)
qed

theorem refreshed_settled_message_is_lost_witness:
  "\<exists>e1 ev. sendMessage example_env ''bob'' [(''text/plain'', ''again'')] 7 [] example_cancelled = Some (7, e1, ev) \<and>
     (\<forall>ops. attempts ''bob'' 7 (snd (foldl msg_step (e1, ev) ops)) = 0)"
proof -
  have g: "get_message ''bob'' 7 example_cancelled = Some
     \<lparr>msg_to = ''bob'', msg_payloads = [(''text/plain'', ''hi'')], msg_status = CANCELLED, msg_retried = 0,
      msg_last_op = 0\<rparr>" by simp
  have "attempts ''bob'' 7 [] = 0" by (simp add: attempts_def)
  with refreshed_settled_message_is_lost [OF example_cancelled_inv g, of "[(''text/plain'', ''again'')]" example_env "[]"]
  show ?thesis by auto
qed

end
