(* ===== verification/Congestion_Control.thy ===== *)
theory Congestion_Control
  imports Sip_Prelude "HOL-Library.Word"
begin

unbundle bit_operations_syntax

text \<open>
  Bandwidth feedback between two video peers: the REMB packets of \<^verbatim>\<open>src/media/congestion_control.cpp\<close>,
  how \<^verbatim>\<open>src/media/socket_pair.cpp\<close> reads them off the wire, how
  \<^verbatim>\<open>src/media/video/video_rtp_session.cpp\<close> decodes the bit rate, and the overuse detector. Integers are
  machine words. The header is the bit-field layout of a little-endian build. The Kalman filter
  that feeds the detector is floating-point arithmetic and is not modelled; the detector only
  compares its output, over an arbitrary ordered type.
\<close>

section \<open>REMB packets\<close>

type_synonym byte = "8 word"

definition packetVersion :: byte where "packetVersion = 2"
definition packetFMT :: byte where "packetFMT = 15"
definition packetType :: byte where "packetType = 206"
definition uniqueIdentifier :: "32 word" where "uniqueIdentifier = 0x52454D42"

definition insert2Byte :: "byte list \<Rightarrow> 16 word \<Rightarrow> byte list" where
  "insert2Byte v val = v @ [ucast (drop_bit 8 val), ucast (val AND 0xff)]"

definition insert4Byte :: "byte list \<Rightarrow> 32 word \<Rightarrow> byte list" where
  "insert4Byte v val =
     v @ [ucast (drop_bit 24 val), ucast (drop_bit 16 val AND 0xff), ucast (drop_bit 8 val AND 0xff),
          ucast (val AND 0xff)]"

text \<open>The loop that normalises the mantissa to 18 bits.\<close>

lemma drop_bit_less: "(0x3ffff :: 64 word) < m \<Longrightarrow> unat (drop_bit 1 m) < unat m"
proof -
  assume "0x3ffff < m"
  then have "0 < unat m" by (simp add: word_less_nat_alt)
  then have "unat m div 2 < unat m" by simp
  then show ?thesis by (simp add: drop_bit_Suc unat_div)
qed

function remb_normalize :: "64 word \<Rightarrow> byte \<Rightarrow> 64 word \<times> byte" where
  "remb_normalize mantissa exponenta =
     (if 0x3ffff < mantissa then remb_normalize (drop_bit 1 mantissa) (exponenta + 1)
      else (mantissa, exponenta))"
  by pat_completeness auto
termination
  by (relation "measure (\<lambda>(m, _). unat m)") (auto dest: drop_bit_less)

declare remb_normalize.simps [simp del]

definition createREMB :: "64 word \<Rightarrow> byte list" where
  "createREMB bitrate_bps =
     (let v0 = [push_bit 6 packetVersion OR packetFMT, packetType];
          v1 = insert2Byte v0 5;
          v2 = insert4Byte v1 0x12345678;
          v3 = insert4Byte v2 0;
          v4 = insert4Byte v3 uniqueIdentifier @ [1];
          (mantissa, exponenta) = remb_normalize bitrate_bps 0;
          v5 = v4 @ [ucast ((push_bit 2 (ucast exponenta) :: 64 word) OR drop_bit 16 mantissa)];
          v6 = insert2Byte v5 (ucast (mantissa AND 0xffff))
      in insert4Byte v6 0x2345678b)"

record remb_header =
  h_fmt :: "32 word"
  h_p :: "32 word"
  h_version :: "32 word"
  h_pt :: "32 word"
  h_len :: "32 word"
  h_ssrc :: "32 word"
  h_ssrc_source :: "32 word"
  h_uid :: "32 word"
  h_n_ssrc :: "32 word"
  h_br_exp :: "32 word"
  h_br_mantis :: "32 word"
  h_f_ssrc :: "32 word"

definition le32 :: "byte \<Rightarrow> byte \<Rightarrow> byte \<Rightarrow> byte \<Rightarrow> 32 word" where
  "le32 a b c d = ucast a OR push_bit 8 (ucast b) OR push_bit 16 (ucast c) OR push_bit 24 (ucast d)"

text \<open>\<^verbatim>\<open>reinterpret_cast<rtcpREMBHeader*>\<close>: bit-fields are filled from the low bits up.\<close>

fun remb_of_bytes :: "byte list \<Rightarrow> remb_header option" where
  "remb_of_bytes (b0 # b1 # b2 # b3 # b4 # b5 # b6 # b7 # b8 # b9 # b10 # b11 # b12 # b13 # b14 # b15 #
     b16 # b17 # b18 # b19 # b20 # b21 # b22 # b23 # rest) =
     Some \<lparr>h_fmt = ucast (b0 AND 31), h_p = ucast (drop_bit 5 b0 AND 1), h_version = ucast (drop_bit 6 b0),
           h_pt = ucast b1, h_len = ucast b2 OR push_bit 8 (ucast b3),
           h_ssrc = le32 b4 b5 b6 b7, h_ssrc_source = le32 b8 b9 b10 b11, h_uid = le32 b12 b13 b14 b15,
           h_n_ssrc = ucast b16, h_br_exp = ucast (b17 AND 63),
           h_br_mantis = ucast (drop_bit 6 b17) OR push_bit 2 (ucast b18) OR push_bit 10 (ucast b19),
           h_f_ssrc = le32 b20 b21 b22 b23\<rparr>"
| "remb_of_bytes _ = None"

definition MAX_LIST_SIZE :: nat where
  "MAX_LIST_SIZE = 10"

text \<open>The queue of received packets; packets that are not REMB are dropped.\<close>

definition saveRtcpREMBPacket :: "byte list \<Rightarrow> remb_header list \<Rightarrow> remb_header list" where
  "saveRtcpREMBPacket buf q =
     (case remb_of_bytes buf of
        None \<Rightarrow> q
      | Some h \<Rightarrow>
          if h_pt h \<noteq> 206 then q
          else if h_uid h \<noteq> 0x424D4552 then q
          else (if MAX_LIST_SIZE \<le> length q then tl q else q) @ [h])"

text \<open>
  The shift is done on \<^verbatim>\<open>int\<close>, to which an 18-bit field promotes: \<^verbatim>\<open>None\<close> is the undefined behaviour of a
  shift by 32 or more, or of a result beyond 32 bits; a result with the sign bit set is
  negative and sign-extends.
\<close>

definition parseREMB :: "remb_header \<Rightarrow> 64 word option" where
  "parseREMB packet =
     (if h_fmt packet \<noteq> 15 \<or> h_pt packet \<noteq> 206 then Some 0
      else
        let e = unat (h_br_exp packet); v = unat (h_br_mantis packet) * 2 ^ e in
        if 32 \<le> e \<or> 2 ^ 32 \<le> v then None
        else
          let bitrate_bps = (if v < 2 ^ 31 then of_nat v else of_nat v - 2 ^ 32) :: 64 word in
          Some (if drop_bit e bitrate_bps \<noteq> ucast (h_br_mantis packet) then 0 else bitrate_bps))"

definition check_RCTP_Info_REMB :: "remb_header list \<Rightarrow> 64 word option option" where
  "check_RCTP_Info_REMB q =
     (if q = [] then Some None
      else case parseREMB (last q) of
        None \<Rightarrow> None
      | Some temp \<Rightarrow>
          Some (Some (drop_bit 10 temp OR (push_bit 6 temp AND 0xff00) OR (push_bit 16 temp AND 0x30000))))"

section \<open>The overuse detector\<close>

datatype bandwidth_usage = bwNormal | bwUnderusing | bwOverusing

record congestion_control =
  overuse_counter :: nat
  t0_overuse :: int
  last_state :: bandwidth_usage

definition OVERUSE_THRESH :: int where
  "OVERUSE_THRESH = 100000000"

text \<open>\<^verbatim>\<open>now\<close> is the reading of the clock, in nanoseconds.\<close>

definition get_bw_state ::
  "int \<Rightarrow> 'f::{linorder, uminus} \<Rightarrow> 'f \<Rightarrow> congestion_control \<Rightarrow> bandwidth_usage \<times> congestion_control" where
  "get_bw_state now estimation thresh c =
     (if thresh < estimation then
        if overuse_counter c = 0
        then (bwNormal, c\<lparr>t0_overuse := now, overuse_counter := 1\<rparr>)
        else
          let c1 = c\<lparr>overuse_counter := Suc (overuse_counter c) mod 2 ^ 32\<rparr>;
              c2 = (if OVERUSE_THRESH \<le> now - t0_overuse c1 \<and> 1 < overuse_counter c1
                    then c1\<lparr>overuse_counter := 0, last_state := bwOverusing\<rparr> else c1)
          in (last_state c2, c2)
      else if estimation < - thresh then
        (bwUnderusing, c\<lparr>overuse_counter := 0, last_state := bwUnderusing\<rparr>)
      else (bwNormal, c\<lparr>overuse_counter := 0, last_state := bwNormal\<rparr>))"

section \<open>Properties of REMB packets\<close>

lemma remb_normalize_small: "m \<le> 0x3ffff \<Longrightarrow> remb_normalize m e = (m, e)"
  by (simp add: remb_normalize.simps)

lemma createREMB_bytes:
  assumes "remb_normalize b 0 = (m, e)"
  shows "createREMB b = [0x8f, 206, 0, 5, 0x12, 0x34, 0x56, 0x78, 0, 0, 0, 0, 0x52, 0x45, 0x4D, 0x42, 1,
    ucast ((push_bit 2 (ucast e) :: 64 word) OR drop_bit 16 m),
    ucast (drop_bit 8 (ucast (m AND 0xffff) :: 16 word)), ucast ((ucast (m AND 0xffff) :: 16 word) AND 0xff),
    0x23, 0x45, 0x67, 0x8b]"
  using assms
  by (simp add: createREMB_def insert2Byte_def insert4Byte_def packetVersion_def packetFMT_def
      packetType_def uniqueIdentifier_def Let_def)

lemma word_masks:
  "(63 :: 'a::len word) = mask 6" "(0xff :: 'a word) = mask 8" "(0xffff :: 'a word) = mask 16"
  "(0xff00 :: 64 word) = push_bit 8 (mask 8)" "(0x30000 :: 64 word) = push_bit 16 (mask 2)"
  by (simp_all add: mask_eq_exp_minus_1 push_bit_eq_mult)

lemma take_bit_self: "unat b < 2 ^ n \<Longrightarrow> take_bit n b = b"
  by (simp add: word_unat_eq_iff unsigned_take_bit_eq take_bit_nat_eq_self_iff)

lemma unat_bits_less:
  fixes w :: "'a::len word"
  assumes "\<And>n. bit w n \<Longrightarrow> n < k"
  shows "unat w < 2 ^ k"
proof -
  have "take_bit k w = w" using assms by (intro bit_word_eqI) (auto simp: bit_take_bit_iff)
  then have "unat w = take_bit k (unat w)" by (metis unsigned_take_bit_eq)
  then show ?thesis by (metis take_bit_nat_less_exp)
qed

lemma unat_drop_bit: "unat (drop_bit n w) = unat w div 2 ^ n" for w :: "64 word"
proof -
  have "take_bit 64 (unat w) = unat w"
    using unsigned_less [of w, where ?'a = nat] by (simp add: take_bit_nat_eq_self)
  then show ?thesis by (subst unsigned_drop_bit_eq) (simp add: drop_bit_eq_div)
qed

text \<open>The fields a receiver reads from a packet whose bit rate needs no exponent.\<close>

lemma remb_exp_field:
  assumes "take_bit 18 b = (b :: 64 word)"
  shows "(ucast ((ucast ((push_bit 2 (ucast (0 :: 8 word)) :: 64 word) OR drop_bit 16 b) :: 8 word) AND 63) :: 32 word)
    = ucast (drop_bit 16 b)"
  by (subst (1 2) assms [symmetric], rule bit_word_eqI) (auto simp: bit_simps word_masks)

definition wire_mantissa :: "64 word \<Rightarrow> 32 word" where
  "wire_mantissa b = push_bit 2 (ucast (drop_bit 8 b AND 0xff)) OR push_bit 10 (ucast (b AND 0xff))"

lemma remb_mantissa_field:
  assumes "take_bit 18 b = (b :: 64 word)"
  shows "ucast (drop_bit 6 (ucast ((push_bit 2 (ucast (0 :: 8 word)) :: 64 word) OR drop_bit 16 b) :: 8 word)) OR
    push_bit 2 (ucast (ucast (drop_bit 8 (ucast (b AND 0xffff) :: 16 word)) :: 8 word)) OR
    push_bit 10 (ucast (ucast ((ucast (b AND 0xffff) :: 16 word) AND 0xff) :: 8 word)) = wire_mantissa b"
  unfolding wire_mantissa_def
  by (subst (1) assms [symmetric], rule bit_word_eqI, simp add: bit_simps word_masks) auto

lemma bit_wire_mantissa:
  "bit (wire_mantissa b) n \<longleftrightarrow>
     (2 \<le> n \<and> n < 10 \<and> bit b (n + 6)) \<or> (10 \<le> n \<and> n < 18 \<and> bit b (n - 10))"
proof -
  have "2 \<le> n \<Longrightarrow> 8 + (n - 2) = n + 6" by simp
  moreover have "bit (wire_mantissa b) n \<longleftrightarrow>
      n < 32 \<and> ((2 \<le> n \<and> n - 2 < 8 \<and> bit b (8 + (n - 2))) \<or> (10 \<le> n \<and> n - 10 < 8 \<and> bit b (n - 10)))"
    unfolding wire_mantissa_def by (auto simp: bit_simps word_masks)
  ultimately show ?thesis by (auto simp: add.commute)
qed

lemma remb_received:
  assumes "take_bit 18 b = (b :: 64 word)" and "b \<le> 0x3ffff"
  obtains h where "last (saveRtcpREMBPacket (createREMB b) q) = h" "saveRtcpREMBPacket (createREMB b) q \<noteq> []"
    "h_fmt h = 15" "h_pt h = 206" "h_br_exp h = ucast (drop_bit 16 b)" "h_br_mantis h = wire_mantissa b"
proof -
  obtain h where h: "remb_of_bytes (createREMB b) = Some h" "h_fmt h = 15" "h_pt h = 206" "h_uid h = 0x424D4552"
    "h_br_exp h = ucast (drop_bit 16 b)" "h_br_mantis h = wire_mantissa b"
    unfolding createREMB_bytes [OF remb_normalize_small [OF assms(2)]] remb_of_bytes.simps
      remb_exp_field [OF assms(1)] remb_mantissa_field [OF assms(1)]
    by (simp add: le32_def)
  with that [of h] show ?thesis by (simp add: saveRtcpREMBPacket_def)
qed

text \<open>The rearrangement of bits by which the video session reads the bit rate.\<close>

definition unscramble :: "64 word \<Rightarrow> 64 word" where
  "unscramble temp = drop_bit 10 temp OR (push_bit 6 temp AND 0xff00) OR (push_bit 16 temp AND 0x30000)"

lemma bit_unscramble:
  "bit (unscramble t) n \<longleftrightarrow>
     bit t (10 + n) \<or> (8 \<le> n \<and> n < 16 \<and> bit t (n - 6)) \<or> (16 \<le> n \<and> n < 18 \<and> bit t (n - 16))"
  unfolding unscramble_def word_masks
  by (cases "n < 64") (auto simp: bit_simps dest: bit_imp_le_length)

lemma check_unscramble:
  "q \<noteq> [] \<Longrightarrow> check_RCTP_Info_REMB q = map_option (\<lambda>t. Some (unscramble t)) (parseREMB (last q))"
  by (simp add: check_RCTP_Info_REMB_def unscramble_def split: option.split)

lemma parseREMB_exact:
  assumes "h_fmt h = 15" and "h_pt h = 206" and "unat (h_br_exp h) < 32"
    and v: "unat (h_br_mantis h) * 2 ^ unat (h_br_exp h) < 2 ^ 31"
  shows "parseREMB h = Some (push_bit (unat (h_br_exp h)) (ucast (h_br_mantis h)))"
proof -
  let ?e = "unat (h_br_exp h)" and ?m = "h_br_mantis h"
  let ?v = "unat ?m * 2 ^ ?e"
  have w: "(of_nat ?v :: 64 word) = push_bit ?e (ucast ?m)"
    by (simp add: push_bit_eq_mult)
  have "unat (of_nat ?v :: 64 word) = ?v"
    using v by (simp only: unsigned_of_nat) (simp add: take_bit_nat_eq_self)
  then have "unat (drop_bit ?e (of_nat ?v :: 64 word)) = unat ?m"
    by (simp only: unat_drop_bit) simp
  moreover have "unat (ucast ?m :: 64 word) = unat ?m" 
    using unsigned_less [of ?m, where ?'a = nat] by (simp add: unsigned_ucast_eq take_bit_nat_eq_self)
  ultimately have "drop_bit ?e (of_nat ?v :: 64 word) = ucast ?m" by (simp add: word_unat_eq_iff)
  with assms w show ?thesis by (simp add: parseREMB_def Let_def)
qed

text \<open>
  C39: a bit rate below \<open>2\<^sup>1\<^sup>6\<close> sent by one peer is received by the other as sent, whatever was
  queued before: the rearrangement in the video session undoes the layout of the header.
\<close>

theorem remb_roundtrip:
  assumes "unat b < 2 ^ 16"
  shows "check_RCTP_Info_REMB (saveRtcpREMBPacket (createREMB b) q) = Some (Some b)"
proof -
  from assms have "take_bit 18 b = b" "b \<le> 0x3ffff" by (auto simp: take_bit_self word_le_nat_alt)
  then obtain h where h: "last (saveRtcpREMBPacket (createREMB b) q) = h" "saveRtcpREMBPacket (createREMB b) q \<noteq> []"
    "h_fmt h = 15" "h_pt h = 206" "h_br_exp h = ucast (drop_bit 16 b)" "h_br_mantis h = wire_mantissa b"
    by (rule remb_received)
  have b16: "take_bit 16 b = b" using assms by (rule take_bit_self)
  have nb: "bit b n \<Longrightarrow> n < 16" for n using b16 by (metis bit_take_bit_iff)
  have "drop_bit 16 b = 0" by (rule bit_word_eqI) (auto simp: bit_simps dest: nb)
  with h(5) have e: "h_br_exp h = 0" by simp
  have "unat (wire_mantissa b) < 2 ^ 18" by (rule unat_bits_less) (auto simp: bit_wire_mantissa)
  with h e parseREMB_exact [of h] have p: "parseREMB h = Some (ucast (wire_mantissa b))" by simp
  have "unscramble (ucast (wire_mantissa b)) = b"
  proof (rule bit_word_eqI)
    fix n assume "n < LENGTH(64)"
    then have "bit (ucast (wire_mantissa b) :: 64 word) k \<longleftrightarrow> bit (wire_mantissa b) k" for k
      by (auto simp: bit_simps bit_wire_mantissa)
    then have u: "bit (unscramble (ucast (wire_mantissa b))) n \<longleftrightarrow> bit (wire_mantissa b) (10 + n) \<or>
        (8 \<le> n \<and> n < 16 \<and> bit (wire_mantissa b) (n - 6)) \<or> (16 \<le> n \<and> n < 18 \<and> bit (wire_mantissa b) (n - 16))"
      by (simp only: bit_unscramble)
    consider "n < 8" | "8 \<le> n" "n < 16" | "16 \<le> n" by linarith
    then show "bit (unscramble (ucast (wire_mantissa b))) n = bit b n"
    proof cases
      case 3
      with nb [of n] show ?thesis unfolding u bit_wire_mantissa by auto
    next
      case 2
      then have "2 \<le> n - 6" "n - 6 < 10" "n - 6 + 6 = n" by auto
      with 2 show ?thesis unfolding u bit_wire_mantissa by auto
    qed (unfold u bit_wire_mantissa, simp)
  qed
  with p check_unscramble [OF h(2)] h(1) show ?thesis by simp
qed

theorem remb_roundtrip_witness:
  "check_RCTP_Info_REMB (saveRtcpREMBPacket (createREMB 0x6803) []) = Some (Some 0x6803)"
  by (rule remb_roundtrip) simp

text \<open>
  A bit rate between \<open>2\<^sup>1\<^sup>6\<close> and \<open>2\<^sup>1\<^sup>8\<close> is received, but never as sent: its two highest bits are
  written where the receiver's header has its exponent.
\<close>

theorem remb_wide_misread:
  assumes "2 ^ 16 \<le> unat b" and "unat b < 2 ^ 18"
  shows "\<exists>r. check_RCTP_Info_REMB (saveRtcpREMBPacket (createREMB b) q) = Some (Some r) \<and> r \<noteq> b \<and> unat r < 2 ^ 16"
proof -
  from assms have "take_bit 18 b = b" "b \<le> 0x3ffff" by (auto simp: take_bit_self word_le_nat_alt)
  then obtain h where h: "last (saveRtcpREMBPacket (createREMB b) q) = h" "saveRtcpREMBPacket (createREMB b) q \<noteq> []"
    "h_fmt h = 15" "h_pt h = 206" "h_br_exp h = ucast (drop_bit 16 b)" "h_br_mantis h = wire_mantissa b"
    by (rule remb_received)
  let ?e = "unat (h_br_exp h)" and ?m = "wire_mantissa b"
  have m: "unat ?m < 2 ^ 18" by (rule unat_bits_less) (auto simp: bit_wire_mantissa)
  have d: "unat (drop_bit 16 b) < 4" using assms by (simp only: unat_drop_bit) auto
  then have e: "?e < 4" unfolding h(5) by (simp add: unsigned_ucast_eq take_bit_nat_eq_self)
  then have "(2::nat) ^ ?e \<le> 2 ^ 3" by (intro power_increasing) auto
  then have "unat ?m * 2 ^ ?e \<le> unat ?m * 2 ^ 3" by (rule mult_le_mono2)
  also have "\<dots> < 2 ^ 31" using m by simp
  finally have "unat ?m * 2 ^ ?e < 2 ^ 31" .
  then have p: "parseREMB h = Some (push_bit ?e (ucast ?m))"
    using parseREMB_exact [of h] h e by simp
  let ?r = "unscramble (push_bit ?e (ucast ?m))"
  have "bit ?r n \<Longrightarrow> n < 16" for n
    using e by (auto simp: bit_unscramble bit_simps bit_wire_mantissa)
  then have "unat ?r < 2 ^ 16" by (rule unat_bits_less)
  with p check_unscramble [OF h(2)] h(1) assms(1) show ?thesis by auto
qed

theorem remb_wide_misread_witness:
  "\<exists>r. check_RCTP_Info_REMB (saveRtcpREMBPacket (createREMB 0x10000) []) = Some (Some r) \<and> r \<noteq> 0x10000"
  using remb_wide_misread [of "0x10000" "[]"] by auto

section \<open>Properties of the overuse detector\<close>

text \<open>A run of the detector over samples of clock, estimate and threshold.\<close>

definition bw_step :: "congestion_control \<Rightarrow> int \<times> 'f::{linorder, uminus} \<times> 'f \<Rightarrow> congestion_control" where
  "bw_step c s = (case s of (now, estimation, thresh) \<Rightarrow> snd (get_bw_state now estimation thresh c))"

text \<open>A stretch of consecutive samples above the threshold that lasts long enough.\<close>

definition over :: "int \<times> 'f::linorder \<times> 'f \<Rightarrow> bool" where
  "over s \<longleftrightarrow> (case s of (_, estimation, thresh) \<Rightarrow> thresh < estimation)"

definition long_overuse :: "(int \<times> 'f::linorder \<times> 'f) list \<Rightarrow> bool" where
  "long_overuse mid \<longleftrightarrow> 2 \<le> length mid \<and> list_all over mid \<and>
     OVERUSE_THRESH \<le> fst (last mid) - fst (hd mid)"

definition bw_inv :: "(int \<times> 'f::linorder \<times> 'f) list \<Rightarrow> congestion_control \<Rightarrow> bool" where
  "bw_inv hist c \<longleftrightarrow>
     (last_state c = bwOverusing \<longrightarrow> (\<exists>pre mid post. hist = pre @ mid @ post \<and> long_overuse mid)) \<and>
     (0 < overuse_counter c \<longrightarrow>
        (\<exists>pre mid. hist = pre @ mid \<and> mid \<noteq> [] \<and> list_all over mid \<and> fst (hd mid) = t0_overuse c))"

lemma bw_inv_step:
  assumes "bw_inv hist c"
  shows "bw_inv (hist @ [s]) (bw_step c s)"
proof -
  obtain now est th where s: "s = (now, est, th)" by (cases s)
  have keep: "\<exists>pre mid post. hist @ [s] = pre @ mid @ post \<and> long_overuse mid"
    if "last_state c = bwOverusing"
  proof -
    from assms that obtain pre mid post where "hist = pre @ mid @ post" "long_overuse mid"
      by (auto simp: bw_inv_def)
    then show ?thesis by (intro exI [of _ pre] exI [of _ mid] exI [of _ "post @ [s]"]) simp
  qed
  show ?thesis
  proof (cases "th < est")
    case False
    then show ?thesis by (auto simp: s bw_inv_def bw_step_def get_bw_state_def)
  next
    case o: True
    then have os: "over s" by (simp add: s over_def)
    show ?thesis
    proof (cases "overuse_counter c = 0")
      case True
      have "\<exists>pre mid. hist @ [s] = pre @ mid \<and> mid \<noteq> [] \<and> list_all over mid \<and> fst (hd mid) = now"
        using os s by (intro exI [of _ hist] exI [of _ "[s]"]) simp
      with o True keep show ?thesis
        unfolding bw_inv_def by (auto simp: s bw_step_def get_bw_state_def)
    next
      case False
      with assms obtain pre mid where mid: "hist = pre @ mid" "mid \<noteq> []" "list_all over mid"
        "fst (hd mid) = t0_overuse c" by (auto simp: bw_inv_def)
      then have ext: "hist @ [s] = pre @ (mid @ [s])" "list_all over (mid @ [s])" "fst (hd (mid @ [s])) = t0_overuse c"
        using os by auto
      show ?thesis
      proof (cases "OVERUSE_THRESH \<le> now - t0_overuse c \<and> 1 < Suc (overuse_counter c) mod 2 ^ 32")
        case True
        have "long_overuse (mid @ [s])"
          using True mid ext s by (cases mid) (auto simp: long_overuse_def)
        then have "\<exists>pre mid post. hist @ [s] = pre @ mid @ post \<and> long_overuse mid"
          using ext(1) by (intro exI [of _ pre] exI [of _ "mid @ [s]"] exI [of _ "[]"]) simp
        with True o False show ?thesis by (auto simp: s bw_inv_def bw_step_def get_bw_state_def Let_def)
      next
        case short: False
        from ext have "\<exists>pre mid. hist @ [s] = pre @ mid \<and> mid \<noteq> [] \<and> list_all over mid \<and> fst (hd mid) = t0_overuse c"
          by blast
        with short o False keep show ?thesis
          by (auto simp: s bw_inv_def bw_step_def get_bw_state_def Let_def simp del: power_numeral)
      qed
    qed
  qed
qed

lemma bw_run_inv: "bw_inv hist c \<Longrightarrow> bw_inv (hist @ ss) (foldl bw_step c ss)"
proof (induction ss arbitrary: hist c)
  case (Cons s ss)
  from Cons.IH [OF bw_inv_step [OF Cons.prems, of s]] show ?case by simp
qed simp

text \<open>
  Starting from a detector that has seen no overuse, the overuse state is only entered after an
  uninterrupted stretch of at least two samples above the threshold that spans at least a tenth
  of a second.
\<close>

theorem overuse_needs_duration:
  assumes "overuse_counter c = 0" and "last_state c \<noteq> bwOverusing"
    and "last_state (foldl bw_step c samples) = bwOverusing"
  shows "\<exists>pre mid post. samples = pre @ mid @ post \<and> 2 \<le> length mid \<and> list_all over mid \<and>
    OVERUSE_THRESH \<le> fst (last mid) - fst (hd mid)"
proof -
  have "bw_inv [] c" using assms by (simp add: bw_inv_def)
  from bw_run_inv [OF this, of samples] assms(3) show ?thesis
    by (auto simp: bw_inv_def long_overuse_def)
qed

theorem overuse_needs_duration_witness:
  "\<exists>pre mid post. [(0 :: int, 5 :: int, 2 :: int), (200000000, 6, 2)] = pre @ mid @ post \<and> 2 \<le> length mid \<and>
     list_all over mid \<and> OVERUSE_THRESH \<le> fst (last mid) - fst (hd mid)"
  by (rule overuse_needs_duration [of "\<lparr>overuse_counter = 0, t0_overuse = 0, last_state = bwNormal\<rparr>"])
    (simp_all add: bw_step_def get_bw_state_def OVERUSE_THRESH_def)

end
