(* ===== verification/Conference_Info.thy ===== *)
theory Conference_Info
  imports Json_Library String_Utils "HOL-Library.Monad_Syntax"
begin

text \<open>
  The description of a conference that its host sends around: one row per stream with its place in
  the mixed picture and its flags (\<^verbatim>\<open>ParticipantInfo\<close> and \<^verbatim>\<open>ConfInfo\<close> of \<^verbatim>\<open>src/conference.h\<close>), its JSON form,
  the reader on the other side (\<^verbatim>\<open>Call::setConferenceInfo\<close>), and how a host that is itself bridged to
  other hosts combines descriptions (\<^verbatim>\<open>getConfInfoHostUri\<close> and \<^verbatim>\<open>mergeConfInfo\<close> of \<^verbatim>\<open>src/conference.cpp\<close>).
\<close>

section \<open>Rows and descriptions\<close>

record participant_info =
  pi_uri :: string
  pi_device :: string
  pi_sinkId :: string
  pi_active :: bool
  pi_x :: int
  pi_y :: int
  pi_w :: int
  pi_h :: int
  pi_videoMuted :: bool
  pi_audioLocalMuted :: bool
  pi_audioModeratorMuted :: bool
  pi_isModerator :: bool
  pi_handRaised :: bool
  pi_voiceActivity :: bool
  pi_recording :: bool
  pi_callId :: string

definition ParticipantInfo_new :: participant_info where
  "ParticipantInfo_new =
     \<lparr>pi_uri = [], pi_device = [], pi_sinkId = [], pi_active = False, pi_x = 0, pi_y = 0, pi_w = 0, pi_h = 0,
      pi_videoMuted = False, pi_audioLocalMuted = False, pi_audioModeratorMuted = False, pi_isModerator = False,
      pi_handRaised = False, pi_voiceActivity = False, pi_recording = False, pi_callId = []\<rparr>"

text \<open>Equality of rows leaves the call identifier out.\<close>

definition ParticipantInfo_eq :: "participant_info \<Rightarrow> participant_info \<Rightarrow> bool" where
  "ParticipantInfo_eq p1 p2 \<longleftrightarrow> p1\<lparr>pi_callId := []\<rparr> = p2\<lparr>pi_callId := []\<rparr>"

text \<open>\<^verbatim>\<open>ConfInfo\<close> is a vector of rows with four more members.\<close>

record conf_info =
  rows :: "participant_info list"
  ci_h :: int
  ci_w :: int
  ci_v :: int
  ci_layout :: int

definition ConfInfo_new :: conf_info where
  "ConfInfo_new = \<lparr>rows = [], ci_h = 0, ci_w = 0, ci_v = 1, ci_layout = 0\<rparr>"

definition ConfInfo_eq :: "conf_info \<Rightarrow> conf_info \<Rightarrow> bool" where
  "ConfInfo_eq c1 c2 \<longleftrightarrow>
     ci_h c1 = ci_h c2 \<and> ci_w c1 = ci_w c2 \<and> ci_layout c1 = ci_layout c2 \<and>
     length (rows c1) = length (rows c2) \<and>
     list_all (\<lambda>p1. list_ex (ParticipantInfo_eq p1) (rows c2)) (rows c1)"

section \<open>The forms of a description\<close>

definition object_of :: "('j, 'text) json_lib \<Rightarrow> (string \<times> 'j) list \<Rightarrow> 'j" where
  "object_of J kvs = j_object J (foldl (\<lambda>m (k, v). smap_set k v m) [] kvs)"

definition ParticipantInfo_toJson :: "('j, 'text) json_lib \<Rightarrow> participant_info \<Rightarrow> 'j" where
  "ParticipantInfo_toJson J p =
     object_of J
       [(''uri'', j_str J (pi_uri p)), (''device'', j_str J (pi_device p)), (''sinkId'', j_str J (pi_sinkId p)),
        (''active'', j_bool J (pi_active p)), (''x'', j_int J (pi_x p)), (''y'', j_int J (pi_y p)),
        (''w'', j_int J (pi_w p)), (''h'', j_int J (pi_h p)), (''videoMuted'', j_bool J (pi_videoMuted p)),
        (''audioLocalMuted'', j_bool J (pi_audioLocalMuted p)),
        (''audioModeratorMuted'', j_bool J (pi_audioModeratorMuted p)),
        (''isModerator'', j_bool J (pi_isModerator p)), (''handRaised'', j_bool J (pi_handRaised p)),
        (''voiceActivity'', j_bool J (pi_voiceActivity p)), (''recording'', j_bool J (pi_recording p))]"

text \<open>\<^verbatim>\<open>v[key].as...()\<close>; the row keeps what is not read. \<^verbatim>\<open>None\<close> is an exception of the library.\<close>

definition member_as :: "('j, 'text) json_lib \<Rightarrow> 'j \<Rightarrow> ('j \<Rightarrow> 'a option) \<Rightarrow> string \<Rightarrow> 'a option" where
  "member_as J v as key = Option.bind (j_get J v key) as"

definition ParticipantInfo_fromJson ::
  "('j, 'text) json_lib \<Rightarrow> 'j \<Rightarrow> participant_info \<Rightarrow> participant_info option" where
  "ParticipantInfo_fromJson J v p =
     (let str = member_as J v (j_asString J); bln = member_as J v (j_asBool J); num = member_as J v (j_asInt J) in
      do {
        u \<leftarrow> str ''uri''; d \<leftarrow> str ''device''; s \<leftarrow> str ''sinkId''; a \<leftarrow> bln ''active'';
        x \<leftarrow> num ''x''; y \<leftarrow> num ''y''; w \<leftarrow> num ''w''; h \<leftarrow> num ''h'';
        vm \<leftarrow> bln ''videoMuted''; lm \<leftarrow> bln ''audioLocalMuted''; mm \<leftarrow> bln ''audioModeratorMuted'';
        m \<leftarrow> bln ''isModerator''; hr \<leftarrow> bln ''handRaised''; va \<leftarrow> bln ''voiceActivity'';
        r \<leftarrow> bln ''recording'';
        Some (p\<lparr>pi_uri := u, pi_device := d, pi_sinkId := s, pi_active := a, pi_x := x, pi_y := y, pi_w := w,
                pi_h := h, pi_videoMuted := vm, pi_audioLocalMuted := lm, pi_audioModeratorMuted := mm,
                pi_isModerator := m, pi_handRaised := hr, pi_voiceActivity := va, pi_recording := r\<rparr>)
      })"

definition ConfInfo_toString :: "('j, 'text) json_lib \<Rightarrow> conf_info \<Rightarrow> 'text" where
  "ConfInfo_toString J c =
     j_write J (object_of J
       ((if rows c = [] then [] else [(''p'', j_array J (map (ParticipantInfo_toJson J) (rows c)))]) @
        [(''w'', j_int J (ci_w c)), (''h'', j_int J (ci_h c)), (''v'', j_int J (ci_v c)),
         (''layout'', j_int J (ci_layout c))]))"

text \<open>\<^verbatim>\<open>std::to_string\<close> of an \<^verbatim>\<open>int\<close>.\<close>

fun decimal_digits :: "nat \<Rightarrow> string" where
  "decimal_digits n = (if n < 10 then [] else decimal_digits (n div 10)) @ [char_of (48 + n mod 10)]"

definition int_to_string :: "int \<Rightarrow> string" where
  "int_to_string i = (if i < 0 then CHR ''-'' # decimal_digits (nat (- i)) else decimal_digits (nat i))"

definition ParticipantInfo_toMap :: "participant_info \<Rightarrow> (string, string) smap" where
  "ParticipantInfo_toMap p =
     foldl (\<lambda>m (k, v). smap_set k v m) []
       [(''uri'', pi_uri p), (''device'', pi_device p), (''sinkId'', pi_sinkId p), (''active'', bool_to_str (pi_active p)),
        (''x'', int_to_string (pi_x p)), (''y'', int_to_string (pi_y p)), (''w'', int_to_string (pi_w p)), (''h'', int_to_string (pi_h p)),
        (''videoMuted'', bool_to_str (pi_videoMuted p)), (''audioLocalMuted'', bool_to_str (pi_audioLocalMuted p)),
        (''audioModeratorMuted'', bool_to_str (pi_audioModeratorMuted p)),
        (''isModerator'', bool_to_str (pi_isModerator p)), (''handRaised'', bool_to_str (pi_handRaised p)),
        (''voiceActivity'', bool_to_str (pi_voiceActivity p)), (''callId'', pi_callId p),
        (''recording'', bool_to_str (pi_recording p))]"

definition toVectorMapStringString :: "conf_info \<Rightarrow> (string, string) smap list" where
  "toVectorMapStringString c =
     map (\<lambda>info. smap_set ''ch'' (int_to_string (ci_h c)) (smap_set ''cw'' (int_to_string (ci_w c)) (ParticipantInfo_toMap info)))
       (rows c)"

section \<open>Reading a description\<close>

fun read_rows :: "('j, 'text) json_lib \<Rightarrow> 'j list \<Rightarrow> participant_info list option" where
  "read_rows J [] = Some []"
| "read_rows J (v # vs) =
     do {
       m \<leftarrow> j_isMember J v ''uri'';
       if m then do {
         p \<leftarrow> ParticipantInfo_fromJson J v ParticipantInfo_new;
         ps \<leftarrow> read_rows J vs;
         Some (p # ps)
       } else read_rows J vs
     }"

definition read_int_member ::
  "('j, 'text) json_lib \<Rightarrow> 'j \<Rightarrow> string \<Rightarrow> int \<Rightarrow> int option" where
  "read_int_member J v key d =
     do { m \<leftarrow> j_isMember J v key; if m then member_as J v (j_asInt J) key else Some d }"

text \<open>
  The reading half of \<^verbatim>\<open>Call::setConferenceInfo\<close>: the description and, if the message has one, the peer's
  protocol version.
\<close>

definition read_conf_info ::
  "('j, 'text) json_lib \<Rightarrow> 'text \<Rightarrow> (conf_info \<times> int option) option" where
  "read_conf_info J msg =
     (case j_read J msg of
        None \<Rightarrow> Some (ConfInfo_new, None)
      | Some json \<Rightarrow>
          if j_isObject J json then
            do {
              has_p \<leftarrow> j_isMember J json ''p'';
              ps \<leftarrow> (if has_p then do { arr \<leftarrow> j_get J json ''p''; read_rows J (j_elements J arr) } else Some []);
              has_v \<leftarrow> j_isMember J json ''v'';
              v \<leftarrow> read_int_member J json ''v'' (ci_v ConfInfo_new);
              w \<leftarrow> read_int_member J json ''w'' 0;
              h \<leftarrow> read_int_member J json ''h'' 0;
              Some (ConfInfo_new\<lparr>rows := ps, ci_v := v, ci_w := w, ci_h := h\<rparr>, if has_v then Some v else None)
            }
          else do { ps \<leftarrow> read_rows J (j_elements J json); Some (ConfInfo_new\<lparr>rows := ps\<rparr>, None) })"

section \<open>Combining the descriptions of several hosts\<close>

type_synonym remote_hosts = "(string, conf_info) smap"

text \<open>The loop over the rows of \<^verbatim>\<open>getConfInfoHostUri\<close>.\<close>

fun own_rows :: "remote_hosts \<Rightarrow> string \<Rightarrow> string \<Rightarrow> participant_info list \<Rightarrow> participant_info list" where
  "own_rows remotes localHostURI destURI [] = []"
| "own_rows remotes localHostURI destURI (it # its) =
     (let isRemoteHost = (smap_find remotes (pi_uri it) \<noteq> None);
          it' = (if pi_uri it = [] \<and> destURI \<noteq> [] then it\<lparr>pi_uri := localHostURI\<rparr> else it)
      in if isRemoteHost then own_rows remotes localHostURI destURI its
         else it' # own_rows remotes localHostURI destURI its)"

fun remote_rows :: "remote_hosts \<Rightarrow> string \<Rightarrow> participant_info list" where
  "remote_rows [] destURI = []"
| "remote_rows ((hostUri, c) # rest) destURI =
     (if destURI \<noteq> hostUri then rows c @ remote_rows rest destURI else remote_rows rest destURI)"

definition getConfInfoHostUri :: "conf_info \<Rightarrow> remote_hosts \<Rightarrow> string \<Rightarrow> string \<Rightarrow> conf_info" where
  "getConfInfoHostUri c remotes localHostURI destURI =
     c\<lparr>rows := own_rows remotes localHostURI destURI (rows c) @ remote_rows remotes destURI\<rparr>"

text \<open>
  The table update of \<^verbatim>\<open>mergeConfInfo\<close>; \<^verbatim>\<open>newInfo\<close> has been resized to the local picture. Answers the table and
  whether something changed.
\<close>

definition merge_remote :: "conf_info \<Rightarrow> string \<Rightarrow> remote_hosts \<Rightarrow> remote_hosts \<times> bool" where
  "merge_remote newInfo peerURI remotes =
     (if rows newInfo = [] then (smap_erase peerURI remotes, True)
      else case smap_find remotes peerURI of
        Some old \<Rightarrow> if \<not> ConfInfo_eq old newInfo then (smap_set peerURI newInfo remotes, True) else (remotes, False)
      | None \<Rightarrow> (smap_emplace peerURI newInfo remotes, True))"

fun findHostforRemoteParticipant :: "remote_hosts \<Rightarrow> string \<Rightarrow> string \<Rightarrow> string" where
  "findHostforRemoteParticipant [] uri deviceId = []"
| "findHostforRemoteParticipant ((host, c) # rest) uri deviceId =
     (if list_ex (\<lambda>p. uri = string_remove_suffix (pi_uri p) CHR ''@'' \<and> (deviceId = [] \<or> deviceId = pi_device p)) (rows c)
      then host else findHostforRemoteParticipant rest uri deviceId)"

section \<open>Descriptions survive the wire\<close>

definition int32 :: "int \<Rightarrow> bool" where
  "int32 i \<longleftrightarrow> - (2 ^ 31) \<le> i \<and> i < 2 ^ 31"

definition row_ok :: "participant_info \<Rightarrow> bool" where
  "row_ok p \<longleftrightarrow> int32 (pi_x p) \<and> int32 (pi_y p) \<and> int32 (pi_w p) \<and> int32 (pi_h p)"

definition conf_info_ok :: "conf_info \<Rightarrow> bool" where
  "conf_info_ok c \<longleftrightarrow> list_all row_ok (rows c) \<and> int32 (ci_w c) \<and> int32 (ci_h c) \<and> int32 (ci_v c)"

lemma find_foldl_set: "smap_find (foldl (\<lambda>m (k, v). smap_set k v m) m kvs) k =
    (case smap_find (rev kvs) k of Some v \<Rightarrow> Some v | None \<Rightarrow> smap_find m k)"
  by (induction kvs arbitrary: m) (auto simp: map_add_def split: option.splits)

lemma json_object_of:
  assumes "json_laws J"
  shows "smap_find (rev kvs) k = Some v \<Longrightarrow> j_get J (object_of J kvs) k = Some v"
    and "j_isMember J (object_of J kvs) k = Some (smap_find (rev kvs) k \<noteq> None)"
    and "j_isObject J (object_of J kvs)"
  using assms by (auto simp: json_laws_def object_of_def find_foldl_set split: option.splits)

lemma json_read_back:
  assumes "json_laws J"
  shows "j_asString J (j_str J s) = Some s" and "j_asBool J (j_bool J b) = Some b"
    and "int32 i \<Longrightarrow> j_asInt J (j_int J i) = Some i" and "j_elements J (j_array J vs) = vs"
    and "j_read J (j_write J v) = Some v"
  using assms by (simp_all add: json_laws_def int32_def)

lemma row_roundtrip:
  assumes J: "json_laws J" and "row_ok p"
  shows "ParticipantInfo_fromJson J (ParticipantInfo_toJson J p) ParticipantInfo_new = Some (p\<lparr>pi_callId := []\<rparr>)"
  using assms(2) by (simp add: ParticipantInfo_fromJson_def ParticipantInfo_toJson_def member_as_def Let_def
      json_object_of [OF J] json_read_back [OF J] row_ok_def ParticipantInfo_new_def)

lemma read_rows_toJson:
  assumes J: "json_laws J" and "list_all row_ok ps"
  shows "read_rows J (map (ParticipantInfo_toJson J) ps) = Some (map (\<lambda>p. p\<lparr>pi_callId := []\<rparr>) ps)"
  using assms(2)
proof (induction ps)
  case (Cons p ps)
  have "j_isMember J (ParticipantInfo_toJson J p) ''uri'' = Some True"
    by (simp add: ParticipantInfo_toJson_def json_object_of [OF J])
  with Cons show ?case by (simp add: row_roundtrip [OF J])
qed simp

text \<open>
  A description that a host sends is read by the participant as it was written, row by row and
  in order, except that the host's call identifiers stay at home and that the layout is lost: it
  is written into the message but never read from it.
\<close>

theorem conf_info_roundtrip:
  assumes J: "json_laws J" and ok: "conf_info_ok c"
  shows "read_conf_info J (ConfInfo_toString J c) =
    Some (c\<lparr>rows := map (\<lambda>p. p\<lparr>pi_callId := []\<rparr>) (rows c), ci_layout := 0\<rparr>, Some (ci_v c))"
  using ok by (cases "rows c = []")
    (simp_all add: conf_info_ok_def read_conf_info_def ConfInfo_toString_def read_int_member_def member_as_def
      json_object_of [OF J] json_read_back [OF J] read_rows_toJson [OF J] ConfInfo_new_def)

abbreviation example_row :: "string \<Rightarrow> participant_info" where
  "example_row u \<equiv> ParticipantInfo_new\<lparr>pi_uri := u, pi_w := 640, pi_callId := ''7''\<rparr>"

theorem conf_info_roundtrip_witness:
  "read_conf_info json_model (ConfInfo_toString json_model (ConfInfo_new\<lparr>rows := [example_row ''bob''], ci_layout := 2\<rparr>)) =
     Some (ConfInfo_new\<lparr>rows := [example_row ''bob''\<lparr>pi_callId := []\<rparr>], ci_layout := 0\<rparr>, Some 1)"
proof -
  have "conf_info_ok (ConfInfo_new\<lparr>rows := [example_row ''bob''], ci_layout := 2\<rparr>)"
    by (simp add: conf_info_ok_def row_ok_def int32_def ConfInfo_new_def ParticipantInfo_new_def)
  from conf_info_roundtrip [OF json_model_laws this] show ?thesis by (simp add: ConfInfo_new_def)
qed

section \<open>Bridged conferences\<close>

lemma own_rows_filter:
  "own_rows remotes l d ps = map (\<lambda>p. if pi_uri p = [] \<and> d \<noteq> [] then p\<lparr>pi_uri := l\<rparr> else p)
     (filter (\<lambda>p. smap_find remotes (pi_uri p) = None) ps)"
  by (induction ps) (auto simp: Let_def)

lemma set_remote_rows:
  "set (remote_rows remotes d) = (\<Union>(h, c) \<in> set remotes. if h = d then {} else set (rows c))"
  by (induction remotes d rule: remote_rows.induct) auto

lemma smap_set_eq:
  assumes "smap_wf m"
  shows "set (smap_set k v m) = insert (k, v) {x \<in> set m. fst x \<noteq> k}"
proof (rule set_eqI)
  fix x :: "'a \<times> 'b"
  obtain a b where x: "x = (a, b)" by (cases x)
  have "smap_wf (smap_set k v m)" using assms by (rule smap_wf_set)
  then show "x \<in> set (smap_set k v m) \<longleftrightarrow> x \<in> insert (k, v) {x \<in> set m. fst x \<noteq> k}"
    using assms x by (simp flip: smap_find_iff del: smap_set.simps) auto
qed

lemma ConfInfo_eq_refl [simp]: "ConfInfo_eq c c"
  by (auto simp: ConfInfo_eq_def ParticipantInfo_eq_def list_all_iff list_ex_iff)

text \<open>
  A host bridged to other hosts does not echo. Once it has accepted the description of another
  host, it describes to that host its own rows (without the rows that stand for hosts) and the
  rows of all other hosts, and to every other destination also the accepted rows; accepting the
  same description again changes nothing, so two bridged hosts do not update each other for ever.
\<close>

theorem bridged_hosts_do_not_echo:
  assumes wf: "smap_wf remotes" and new: "rows n \<noteq> []" and merge: "merge_remote n h remotes = (remotes', True)"
  shows "set (rows (getConfInfoHostUri c remotes' l h)) =
      set (own_rows remotes' l h (rows c)) \<union> (\<Union>(h', c') \<in> set remotes. if h' = h then {} else set (rows c')) \<and>
    (d \<noteq> h \<longrightarrow> set (rows n) \<subseteq> set (rows (getConfInfoHostUri c remotes' l d))) \<and>
    merge_remote n h remotes' = (remotes', False)"
proof -
  have r: "remotes' = smap_set h n remotes"
    using merge new by (auto simp: merge_remote_def smap_emplace_def split: option.splits if_splits)
  have 1: "set (remote_rows remotes' h) = (\<Union>(h', c') \<in> set remotes. if h' = h then {} else set (rows c'))"
    unfolding r set_remote_rows smap_set_eq [OF wf] by (auto split: if_splits)
  have 2: "set (rows n) \<subseteq> set (remote_rows remotes' d)" if "d \<noteq> h"
    unfolding r set_remote_rows smap_set_eq [OF wf] using that by auto
  have 3: "merge_remote n h remotes' = (remotes', False)"
    unfolding r using new by (simp add: merge_remote_def del: smap_set.simps)
  from 1 2 3 show ?thesis by (auto simp: getConfInfoHostUri_def)
qed

theorem bridged_hosts_do_not_echo_witness:
  "rows (getConfInfoHostUri (ConfInfo_new\<lparr>rows := [example_row ''bob'', example_row ''carol'']\<rparr>)
       [(''bob'', ConfInfo_new\<lparr>rows := [example_row ''dave'']\<rparr>)] ''me'' ''bob'') = [example_row ''carol''] \<and>
   set (rows (getConfInfoHostUri (ConfInfo_new\<lparr>rows := [example_row ''bob'', example_row ''carol'']\<rparr>)
       [(''bob'', ConfInfo_new\<lparr>rows := [example_row ''dave'']\<rparr>)] ''me'' ''bob'')) = {example_row ''carol''}"
  using bridged_hosts_do_not_echo [of "[]" "ConfInfo_new\<lparr>rows := [example_row ''dave'']\<rparr>" "''bob''"
      "[(''bob'', ConfInfo_new\<lparr>rows := [example_row ''dave'']\<rparr>)]" "ConfInfo_new\<lparr>rows := [example_row ''bob'', example_row ''carol'']\<rparr>" "''me''" "''x''"]
  by (simp add: merge_remote_def smap_emplace_def getConfInfoHostUri_def ParticipantInfo_new_def)

section \<open>When a description counts as changed\<close>

definition anonymous :: "participant_info \<Rightarrow> participant_info" where
  "anonymous p = p\<lparr>pi_callId := []\<rparr>"

lemma ConfInfo_eq_subset:
  "ConfInfo_eq c1 c2 \<longleftrightarrow> ci_h c1 = ci_h c2 \<and> ci_w c1 = ci_w c2 \<and> ci_layout c1 = ci_layout c2 \<and>
     length (rows c1) = length (rows c2) \<and> anonymous ` set (rows c1) \<subseteq> anonymous ` set (rows c2)"
  by (auto simp: ConfInfo_eq_def ParticipantInfo_eq_def anonymous_def list_all_iff list_ex_iff image_iff)

text \<open>
  When the stored description of a host has no two equal rows, a new one is taken over exactly
  if it differs from it in size, layout or its set of rows; when it has two equal rows this can
  fail, and a description in which one of them was replaced is thrown away.
\<close>

theorem changed_description_detected:
  assumes new: "rows n \<noteq> []" and old: "smap_find remotes h = Some c"
  shows "(distinct (map anonymous (rows c)) \<longrightarrow>
      (snd (merge_remote n h remotes) \<longleftrightarrow>
        \<not> (ci_h c = ci_h n \<and> ci_w c = ci_w n \<and> ci_layout c = ci_layout n \<and> length (rows c) = length (rows n) \<and>
           anonymous ` set (rows c) = anonymous ` set (rows n)))) \<and>
    (rows c = [a, a] \<and> rows n = [a, b] \<and> n = c\<lparr>rows := [a, b]\<rparr> \<longrightarrow> merge_remote n h remotes = (remotes, False))"
proof -
  have "anonymous ` set (rows c) = anonymous ` set (rows n)"
    if d: "distinct (map anonymous (rows c))" and l: "length (rows c) = length (rows n)"
      and s: "anonymous ` set (rows c) \<subseteq> anonymous ` set (rows n)"
  proof (rule card_seteq [OF _ s])
    have "card (anonymous ` set (rows n)) \<le> length (rows n)"
      using card_length [of "map anonymous (rows n)"] by simp
    also have "\<dots> = card (anonymous ` set (rows c))" using distinct_card [OF d] l by simp
    finally show "card (anonymous ` set (rows n)) \<le> card (anonymous ` set (rows c))" .
  qed simp
  then show ?thesis using new old by (auto simp: merge_remote_def ConfInfo_eq_subset)
qed

theorem changed_description_detected_witness:
  "merge_remote (ConfInfo_new\<lparr>rows := [example_row ''bob'', example_row ''eve'']\<rparr>) ''h''
     [(''h'', ConfInfo_new\<lparr>rows := [example_row ''bob'', example_row ''bob'']\<rparr>)] =
     ([(''h'', ConfInfo_new\<lparr>rows := [example_row ''bob'', example_row ''bob'']\<rparr>)], False)"
  using changed_description_detected [of "ConfInfo_new\<lparr>rows := [example_row ''bob'', example_row ''eve'']\<rparr>"
      "[(''h'', ConfInfo_new\<lparr>rows := [example_row ''bob'', example_row ''bob'']\<rparr>)]" "''h''"
      "ConfInfo_new\<lparr>rows := [example_row ''bob'', example_row ''bob'']\<rparr>" "example_row ''bob''" "example_row ''eve''"]
  by simp

end
