(* ===== verification/Conference_Protocol.thy ===== *)
theory Conference_Protocol
  imports Json_Library String_Utils
begin

text \<open>
  The orders participants send to the host of a conference, \<^verbatim>\<open>src/conference_protocol.cpp\<close>: the builders of
  outgoing orders and the parser that turns a received document into calls of the conference's
  handlers. The parser returns the handlers it called, in order, and whether it ran to its end; it
  stops early when the JSON library throws. The theorems are about who may do what, and about
  orders reaching the handler they were built for.
\<close>

section \<open>Building orders\<close>

definition PROTOVERSION :: string where "PROTOVERSION = ''version''"
definition LAYOUT :: string where "LAYOUT = ''layout''"
definition HANDRAISED :: string where "HANDRAISED = ''handRaised''"
definition HANDSTATE :: string where "HANDSTATE = ''handState''"
definition ACTIVEPART :: string where "ACTIVEPART = ''activeParticipant''"
definition MUTEPART :: string where "MUTEPART = ''muteParticipant''"
definition MUTESTATE :: string where "MUTESTATE = ''muteState''"
definition HANGUPPART :: string where "HANGUPPART = ''hangupParticipant''"
definition DEVICES :: string where "DEVICES = ''devices''"
definition MEDIAS :: string where "MEDIAS = ''medias''"
definition RAISEHAND :: string where "RAISEHAND = ''raiseHand''"
definition HANGUP :: string where "HANGUP = ''hangup''"
definition ACTIVE_KEY :: string where "ACTIVE_KEY = ''active''"
definition MUTEAUDIO :: string where "MUTEAUDIO = ''muteAudio''"
definition MUTEVIDEO :: string where "MUTEVIDEO = ''muteVideo''"
definition VOICEACTIVITY :: string where "VOICEACTIVITY = ''voiceActivity''"

lemmas protocol_keys = PROTOVERSION_def LAYOUT_def HANDRAISED_def HANDSTATE_def ACTIVEPART_def
  MUTEPART_def MUTESTATE_def HANGUPPART_def DEVICES_def MEDIAS_def RAISEHAND_def HANGUP_def
  ACTIVE_KEY_def MUTEAUDIO_def MUTEVIDEO_def VOICEACTIVITY_def

definition deviceOrder :: "('j, 'text) json_lib \<Rightarrow> string \<Rightarrow> string \<Rightarrow> 'j \<Rightarrow> 'j" where
  "deviceOrder J accountUri deviceId deviceVal =
     (let devices = j_object J [(deviceId, deviceVal)];
          account = j_object J [(DEVICES, devices)]
      in j_object J (smap_set PROTOVERSION (j_int J 1) [(accountUri, account)]))"

definition mediaOrder ::
  "('j, 'text) json_lib \<Rightarrow> string \<Rightarrow> string \<Rightarrow> string \<Rightarrow> string \<Rightarrow> bool \<Rightarrow> 'j" where
  "mediaOrder J accountUri deviceId streamId key state =
     (let media = j_object J [(key, j_bool J state)];
          medias = j_object J [(streamId, media)]
      in deviceOrder J accountUri deviceId (j_object J [(MEDIAS, medias)]))"

definition raiseHand_order :: "('j, 'text) json_lib \<Rightarrow> string \<Rightarrow> string \<Rightarrow> bool \<Rightarrow> 'j" where
  "raiseHand_order J accountUri deviceId state =
     deviceOrder J accountUri deviceId (j_object J [(RAISEHAND, j_bool J state)])"

definition hangupParticipant_order :: "('j, 'text) json_lib \<Rightarrow> string \<Rightarrow> string \<Rightarrow> 'j" where
  "hangupParticipant_order J accountUri deviceId =
     deviceOrder J accountUri deviceId (j_object J [(HANGUP, j_str J ''true'')])"

definition muteAudio_order :: "('j, 'text) json_lib \<Rightarrow> string \<Rightarrow> string \<Rightarrow> string \<Rightarrow> bool \<Rightarrow> 'j" where
  "muteAudio_order J accountUri deviceId streamId state =
     mediaOrder J accountUri deviceId streamId MUTEAUDIO state"

definition setActiveStream_order :: "('j, 'text) json_lib \<Rightarrow> string \<Rightarrow> string \<Rightarrow> string \<Rightarrow> bool \<Rightarrow> 'j" where
  "setActiveStream_order J accountUri deviceId streamId state =
     mediaOrder J accountUri deviceId streamId ACTIVE_KEY state"

definition isConferenceControlPayload :: "(string, string) smap \<Rightarrow> bool" where
  "isConferenceControlPayload payloads =
     list_ex (\<lambda>(mime, _). mime = ''application/confInfo+json'' \<or> mime = ''application/confOrder+json'' \<or>
                mime = ''application/confVoiceActivity+json'') payloads"

definition confInfoOutOfDialogEnabledFromEnv :: "string option \<Rightarrow> bool" where
  "confInfoOutOfDialogEnabledFromEnv envValue \<longleftrightarrow> envValue \<noteq> Some ''1''"

section \<open>The parser\<close>

datatype conf_call =
    Version nat
  | RaiseHandUri string bool
  | SetLayout int
  | SetActiveParticipant string
  | MuteParticipant string bool
  | KickParticipant string
  | RaiseHand string string bool
  | HangupParticipant string string
  | VoiceActivity string bool
  | MuteStreamVideo string string string bool
  | MuteStreamAudio string string string bool
  | SetActiveStream string bool

text \<open>Which handlers are registered.\<close>

record conf_handlers =
  on_version :: bool
  on_checkAuthorization :: "(string \<Rightarrow> bool) option"
  on_hangupParticipant :: bool
  on_raiseHand :: bool
  on_setActiveStream :: bool
  on_muteStreamAudio :: bool
  on_muteStreamVideo :: bool
  on_setLayout :: bool
  on_raiseHandUri :: bool
  on_kickParticipant :: bool
  on_setActiveParticipant :: bool
  on_muteParticipant :: bool
  on_voiceActivity :: bool

text \<open>The handlers called so far and whether parsing goes on.\<close>

type_synonym parse_result = "conf_call list \<times> bool"

definition parsed :: parse_result where
  "parsed = ([], True)"

definition thrown :: parse_result where
  "thrown = ([], False)"

definition calls :: "conf_call list \<Rightarrow> parse_result" where
  "calls cs = (cs, True)"

definition and_then :: "parse_result \<Rightarrow> parse_result \<Rightarrow> parse_result" where
  "and_then p q = (if snd p then (fst p @ fst q, snd q) else p)"

fun in_order :: "('a \<Rightarrow> parse_result) \<Rightarrow> 'a list \<Rightarrow> parse_result" where
  "in_order f [] = parsed"
| "in_order f (x # xs) = and_then (f x) (in_order f xs)"

text \<open>Evaluates a library call that may throw.\<close>

definition with_val :: "'a option \<Rightarrow> ('a \<Rightarrow> parse_result) \<Rightarrow> parse_result" where
  "with_val v k = (case v of Some x \<Rightarrow> k x | None \<Rightarrow> thrown)"

definition field :: "('j, 'text) json_lib \<Rightarrow> 'j \<Rightarrow> string \<Rightarrow> ('j \<Rightarrow> 'a option) \<Rightarrow> 'a option" where
  "field J v key as = Option.bind (j_get J v key) as"

text \<open>\<^verbatim>\<open>if (value.isMember(key)) k\<close>\<close>

definition if_member :: "('j, 'text) json_lib \<Rightarrow> 'j \<Rightarrow> string \<Rightarrow> parse_result \<Rightarrow> parse_result" where
  "if_member J v key p = with_val (j_isMember J v key) (\<lambda>m. if m then p else parsed)"

definition parseV0 :: "('j, 'text) json_lib \<Rightarrow> conf_handlers \<Rightarrow> string \<Rightarrow> 'j \<Rightarrow> parse_result" where
  "parseV0 J H peerId data =
     (case on_checkAuthorization H of
        None \<Rightarrow> parsed
      | Some check \<Rightarrow>
          let isPeerModerator = check peerId in
          and_then
            (if_member J data HANDRAISED
               (with_val (field J data HANDSTATE (j_asString J)) (\<lambda>st.
                with_val (field J data HANDRAISED (j_asString J)) (\<lambda>uri.
                  let state = (st = ''true'') in
                  if \<not> on_raiseHandUri H then parsed
                  else if peerId = uri then calls [RaiseHandUri uri state]
                  else if \<not> state \<and> isPeerModerator then calls [RaiseHandUri uri state]
                  else parsed))))
          (if \<not> isPeerModerator then parsed
           else
             and_then
               (if on_setLayout H
                then if_member J data LAYOUT
                       (with_val (field J data LAYOUT (j_asInt J)) (\<lambda>i. calls [SetLayout i]))
                else parsed)
            (and_then
               (if on_setActiveParticipant H
                then if_member J data ACTIVEPART
                       (with_val (field J data ACTIVEPART (j_asString J)) (\<lambda>s. calls [SetActiveParticipant s]))
                else parsed)
            (and_then
               (if on_muteParticipant H
                then if_member J data MUTEPART (if_member J data MUTESTATE
                       (with_val (field J data MUTEPART (j_asString J)) (\<lambda>s.
                        with_val (field J data MUTESTATE (j_asString J)) (\<lambda>m.
                          calls [MuteParticipant s (m = ''true'')]))))
                else parsed)
               (if on_kickParticipant H
                then if_member J data HANGUPPART
                       (with_val (field J data HANGUPPART (j_asString J)) (\<lambda>s. calls [KickParticipant s]))
                else parsed)))))"

definition parse_media ::
  "('j, 'text) json_lib \<Rightarrow> conf_handlers \<Rightarrow> bool \<Rightarrow> string \<Rightarrow> string \<Rightarrow> string \<times> 'j \<Rightarrow> parse_result" where
  "parse_media J H isPeerModerator accountUri deviceId m =
     (case m of (streamId, mediaVal) \<Rightarrow>
      if \<not> j_isObject J mediaVal then parsed
      else
        and_then
          (if on_voiceActivity H
           then if_member J mediaVal VOICEACTIVITY
                  (with_val (field J mediaVal VOICEACTIVITY (j_asBool J)) (\<lambda>b. calls [VoiceActivity streamId b]))
           else parsed)
          (if \<not> isPeerModerator then parsed
           else
             and_then
               (if on_muteStreamVideo H
                then if_member J mediaVal MUTEVIDEO
                       (with_val (field J mediaVal MUTEVIDEO (j_asBool J)) (\<lambda>b.
                          calls [MuteStreamVideo accountUri deviceId streamId b]))
                else parsed)
            (and_then
               (if on_muteStreamAudio H
                then if_member J mediaVal MUTEAUDIO
                       (with_val (field J mediaVal MUTEAUDIO (j_asBool J)) (\<lambda>b.
                          calls [MuteStreamAudio accountUri deviceId streamId b]))
                else parsed)
               (if on_setActiveStream H
                then if_member J mediaVal ACTIVE_KEY
                       (with_val (field J mediaVal ACTIVE_KEY (j_asBool J)) (\<lambda>b.
                          calls [SetActiveStream streamId b]))
                else parsed))))"

definition parse_device ::
  "('j, 'text) json_lib \<Rightarrow> conf_handlers \<Rightarrow> string \<Rightarrow> bool \<Rightarrow> string \<Rightarrow> string \<times> 'j \<Rightarrow> parse_result" where
  "parse_device J H peerId isPeerModerator accountUri d =
     (case d of (deviceId, deviceValue) \<Rightarrow>
      if \<not> j_isObject J deviceValue then parsed
      else
        and_then
          (if on_raiseHand H
           then if_member J deviceValue RAISEHAND
                  (with_val (field J deviceValue RAISEHAND (j_asBool J)) (\<lambda>newState.
                     if peerId = accountUri \<or> \<not> newState \<and> isPeerModerator
                     then calls [RaiseHand accountUri deviceId newState] else parsed))
           else parsed)
       (and_then
          (if on_hangupParticipant H \<and> isPeerModerator
           then if_member J deviceValue HANGUP (calls [HangupParticipant accountUri deviceId])
           else parsed)
          (if_member J deviceValue MEDIAS
             (with_val (j_get J deviceValue MEDIAS) (\<lambda>medias.
                in_order (parse_media J H isPeerModerator accountUri deviceId) (j_members J medias))))))"

definition parse_account ::
  "('j, 'text) json_lib \<Rightarrow> conf_handlers \<Rightarrow> string \<Rightarrow> bool \<Rightarrow> string \<times> 'j \<Rightarrow> parse_result" where
  "parse_account J H peerId isPeerModerator a =
     (case a of (key, accValue) \<Rightarrow>
      if key = PROTOVERSION then parsed
      else if isPeerModerator \<and> key = LAYOUT
      then if on_setLayout H then with_val (j_asInt J accValue) (\<lambda>i. calls [SetLayout i]) else parsed
      else if \<not> j_isObject J accValue then parsed
      else if_member J accValue DEVICES
             (with_val (j_get J accValue DEVICES) (\<lambda>devices.
                in_order (parse_device J H peerId isPeerModerator key) (j_members J devices))))"

definition parseV1 :: "('j, 'text) json_lib \<Rightarrow> conf_handlers \<Rightarrow> string \<Rightarrow> 'j \<Rightarrow> parse_result" where
  "parseV1 J H peerId data =
     (case on_checkAuthorization H of
        None \<Rightarrow> parsed
      | Some check \<Rightarrow> in_order (parse_account J H peerId (check peerId)) (j_members J data))"

definition parse_order :: "('j, 'text) json_lib \<Rightarrow> conf_handlers \<Rightarrow> string \<Rightarrow> 'j \<Rightarrow> parse_result" where
  "parse_order J H peerId data =
     with_val (j_isMember J data PROTOVERSION) (\<lambda>m.
       if m then
         with_val (field J data PROTOVERSION (j_asUInt J)) (\<lambda>version.
           and_then (if on_version H then calls [Version version] else parsed)
             (if version = 1 then parseV1 J H peerId data else parsed))
       else parseV0 J H peerId data)"

section \<open>Who may do what\<close>

text \<open>What a peer may cause: everyone may raise and lower their own hand and report voice activity, only
  moderators may do the rest, and even they cannot raise another participant's hand.\<close>

fun permitted :: "string \<Rightarrow> bool \<Rightarrow> conf_call \<Rightarrow> bool" where
  "permitted peer moderator (Version _) = True"
| "permitted peer moderator (VoiceActivity _ _) = True"
| "permitted peer moderator (RaiseHandUri uri state) = (uri = peer \<or> \<not> state \<and> moderator)"
| "permitted peer moderator (RaiseHand uri _ state) = (uri = peer \<or> \<not> state \<and> moderator)"
| "permitted peer moderator _ = moderator"

definition all_calls :: "(conf_call \<Rightarrow> bool) \<Rightarrow> parse_result \<Rightarrow> bool" where
  "all_calls P p \<longleftrightarrow> list_all P (fst p)"

named_theorems all_calls_rules \<open>how the calls of a composed parser follow from its parts\<close>

lemma all_calls_parsed [all_calls_rules]: "all_calls P parsed"
  by (simp add: all_calls_def parsed_def)

lemma all_calls_calls [all_calls_rules]: "list_all P cs \<Longrightarrow> all_calls P (calls cs)"
  by (simp add: all_calls_def calls_def)

lemma all_calls_and_then [all_calls_rules]: "all_calls P p \<Longrightarrow> all_calls P q \<Longrightarrow> all_calls P (and_then p q)"
  by (simp add: all_calls_def and_then_def)

lemma all_calls_with_val [all_calls_rules]: "(\<And>x. v = Some x \<Longrightarrow> all_calls P (k x)) \<Longrightarrow> all_calls P (with_val v k)"
  by (cases v) (auto simp: with_val_def all_calls_def thrown_def)

lemma all_calls_if_member [all_calls_rules]: "all_calls P p \<Longrightarrow> all_calls P (if_member J v key p)"
  unfolding if_member_def by (rule all_calls_with_val) (simp add: all_calls_parsed)

lemma all_calls_if [all_calls_rules]:
  "(b \<Longrightarrow> all_calls P p) \<Longrightarrow> (\<not> b \<Longrightarrow> all_calls P q) \<Longrightarrow> all_calls P (if b then p else q)"
  by simp

lemma all_calls_in_order [all_calls_rules]:
  "(\<And>x. x \<in> set xs \<Longrightarrow> all_calls P (f x)) \<Longrightarrow> all_calls P (in_order f xs)"
  by (induction xs) (auto intro: all_calls_rules)

lemma parseV0_permitted:
  assumes "on_checkAuthorization H = Some check"
  shows "all_calls (permitted peer (check peer)) (parseV0 J H peer data)"
  unfolding parseV0_def Let_def assms option.case by (intro all_calls_rules; simp)

lemma parse_media_permitted: "all_calls (permitted peer moderator) (parse_media J H moderator uri dev m)"
  unfolding parse_media_def by (cases m) (simp only: prod.case, intro all_calls_rules; simp)

lemma parse_device_permitted: "all_calls (permitted peer moderator) (parse_device J H peer moderator uri d)"
  unfolding parse_device_def
  by (cases d) (simp only: prod.case, intro all_calls_rules parse_media_permitted; auto)

lemma parse_account_permitted: "all_calls (permitted peer moderator) (parse_account J H peer moderator a)"
  unfolding parse_account_def
  by (cases a) (simp only: prod.case, intro all_calls_rules parse_device_permitted; simp)

lemma parse_order_permitted:
  assumes "on_checkAuthorization H = Some check"
  shows "all_calls (permitted peer (check peer)) (parse_order J H peer data)"
proof -
  from assms have "all_calls (permitted peer (check peer)) (parseV1 J H peer data)"
    by (simp add: parseV1_def all_calls_in_order parse_account_permitted)
  then show ?thesis
    unfolding parse_order_def by (intro all_calls_rules parseV0_permitted [OF assms]; simp)
qed

text \<open>
  C20: whatever document a peer sends, well-formed or not, the handlers the host calls for it are only
  those the peer may use; without an authorisation check registered, nothing but the version
  handler is called.
\<close>

theorem conference_orders_authorized:
  "list_all (\<lambda>c. case on_checkAuthorization H of
       Some check \<Rightarrow> permitted peer (check peer) c
     | None \<Rightarrow> (\<exists>v. c = Version v)) (fst (parse_order J H peer data))"
proof (cases "on_checkAuthorization H")
  case None
  then have v: "parseV0 J H peer data = parsed" "parseV1 J H peer data = parsed"
    by (simp_all add: parseV0_def parseV1_def)
  have "all_calls (\<lambda>c. \<exists>v. c = Version v) (parse_order J H peer data)"
    unfolding parse_order_def v by (intro all_calls_rules; simp)
  with None show ?thesis by (simp add: all_calls_def)
next
  case (Some check)
  from parse_order_permitted [OF Some, of peer J data] Some show ?thesis by (simp add: all_calls_def)
qed

section \<open>Orders arrive\<close>

lemma json_facts:
  assumes "json_laws J"
  shows "smap_wf m \<Longrightarrow> j_members J (j_object J m) = m"
    and "smap_find m k = Some v \<Longrightarrow> j_get J (j_object J m) k = Some v"
    and "j_isMember J (j_object J m) k = Some (smap_find m k \<noteq> None)"
    and "j_isObject J (j_object J m)" and "j_asBool J (j_bool J b) = Some b"
    and "j_asUInt J (j_int J 1) = Some 1"
proof -
  have "\<forall>n. n < 2 ^ 32 \<longrightarrow> j_asUInt J (j_int J (int n)) = Some n"
    using assms by (simp add: json_laws_def)
  from this [rule_format, of 1] show "j_asUInt J (j_int J 1) = Some 1" by simp
qed (use assms in \<open>simp_all add: json_laws_def\<close>)

lemma parser_simps [simp]:
  "and_then parsed p = p" "and_then p parsed = p" "and_then (calls xs) (calls ys) = calls (xs @ ys)"
  "with_val (Some x) k = k x"
  by (auto simp: and_then_def parsed_def calls_def with_val_def prod_eq_iff)

lemma smap_wf_singleton [simp]: "smap_wf [(k, v)]"
  by (simp add: smap_wf_def)

text \<open>An order for one device of one account, received by the host.\<close>

lemma parse_deviceOrder:
  assumes J: "json_laws J" and auth: "on_checkAuthorization H = Some check" and v: "on_version H"
    and uri: "uri \<noteq> PROTOVERSION" "uri \<noteq> LAYOUT" and d: "j_isObject J val"
  shows "parse_order J H peer (deviceOrder J uri dev val) =
    and_then (calls [Version 1]) (parse_device J H peer (check peer) uri (dev, val))"
proof -
  let ?acc = "j_object J [(DEVICES, j_object J [(dev, val)])]"
  let ?m = "smap_set PROTOVERSION (j_int J 1) [(uri, ?acc)]"
  have wf: "smap_wf ?m" by (intro smap_wf_set smap_wf_singleton)
  have "parse_account J H peer (check peer) (uri, ?acc) = parse_device J H peer (check peer) uri (dev, val)"
    using uri by (simp add: parse_account_def if_member_def json_facts [OF J])
  moreover have "parse_account J H peer (check peer) (PROTOVERSION, x) = parsed" for x
    by (simp add: parse_account_def)
  ultimately have "in_order (parse_account J H peer (check peer)) ?m = parse_device J H peer (check peer) uri (dev, val)"
    using uri by simp
  then have "parseV1 J H peer (j_object J ?m) = parse_device J H peer (check peer) uri (dev, val)"
    unfolding parseV1_def auth option.case json_facts(1) [OF J wf] .
  moreover have "smap_find ?m PROTOVERSION = Some (j_int J 1)"
    by (simp del: smap_set.simps)
  ultimately show ?thesis
    using v by (simp add: parse_order_def deviceOrder_def field_def Let_def json_facts [OF J] del: smap_set.simps)
qed

text \<open>
  The orders a participant's client builds reach the handler they are meant for, with the
  arguments they were built from, when the sender may give them: raising one's own hand, and as a
  moderator hanging a participant up, muting a stream and choosing the active stream.
\<close>

theorem conference_orders_arrive:
  assumes J: "json_laws J" and auth: "on_checkAuthorization H = Some check"
    and H: "on_version H" "on_raiseHand H" "on_hangupParticipant H" "on_muteStreamAudio H" "on_setActiveStream H"
    and uri: "uri \<noteq> ''version''" "uri \<noteq> ''layout''" and mod: "check moderator"
  shows "parse_order J H uri (raiseHand_order J uri dev st) = ([Version 1, RaiseHand uri dev st], True) \<and>
    parse_order J H moderator (hangupParticipant_order J uri dev) = ([Version 1, HangupParticipant uri dev], True) \<and>
    parse_order J H moderator (muteAudio_order J uri dev stream st) =
      ([Version 1, MuteStreamAudio uri dev stream st], True) \<and>
    parse_order J H moderator (setActiveStream_order J uri dev stream st) =
      ([Version 1, SetActiveStream stream st], True)"
proof -
  note f = json_facts [OF J]
  have uri': "uri \<noteq> PROTOVERSION" "uri \<noteq> LAYOUT" using uri by (simp_all add: protocol_keys)
  note order = parse_deviceOrder [OF J auth H(1) uri']
  have 1: "parse_device J H uri (check uri) uri (dev, j_object J [(RAISEHAND, j_bool J st)]) = calls [RaiseHand uri dev st]"
    using H by (simp add: parse_device_def if_member_def field_def f protocol_keys)
  have 2: "parse_device J H moderator True uri (dev, j_object J [(HANGUP, j_str J ''true'')]) = calls [HangupParticipant uri dev]"
    using H by (simp add: parse_device_def if_member_def f protocol_keys)
  have media: "parse_device J H moderator True uri (dev, j_object J [(MEDIAS, j_object J [(stream, j_object J [(key, j_bool J st)])])]) =
      parse_media J H True uri dev (stream, j_object J [(key, j_bool J st)])" for key
    using H by (simp add: parse_device_def if_member_def f protocol_keys)
  have 3: "parse_media J H True uri dev (stream, j_object J [(MUTEAUDIO, j_bool J st)]) = calls [MuteStreamAudio uri dev stream st]"
    "parse_media J H True uri dev (stream, j_object J [(ACTIVE_KEY, j_bool J st)]) = calls [SetActiveStream stream st]"
    using H by (simp_all add: parse_media_def if_member_def field_def f protocol_keys)
  show ?thesis
    using mod by (simp add: raiseHand_order_def hangupParticipant_order_def muteAudio_order_def
        setActiveStream_order_def mediaOrder_def Let_def order f 1 2 media 3) (simp add: calls_def)
qed

abbreviation example_handlers :: conf_handlers where
  "example_handlers \<equiv> \<lparr>on_version = True, on_checkAuthorization = Some (\<lambda>p. p = ''host''), on_hangupParticipant = True,
     on_raiseHand = True, on_setActiveStream = True, on_muteStreamAudio = True, on_muteStreamVideo = False,
     on_setLayout = True, on_raiseHandUri = True, on_kickParticipant = True, on_setActiveParticipant = True,
     on_muteParticipant = True, on_voiceActivity = True\<rparr>"

theorem conference_orders_arrive_witness:
  "parse_order json_model example_handlers ''host'' (muteAudio_order json_model ''bob'' ''dev'' ''s'' True) =
     ([Version 1, MuteStreamAudio ''bob'' ''dev'' ''s'' True], True)"
  using conference_orders_arrive [of json_model example_handlers "\<lambda>p. p = ''host''" "''bob''" "''host''" "''dev''" True "''s''"]
    json_model_laws by simp

end
