(* ===== verification/Audio_Frame_Resizer.thy ===== *)
theory Audio_Frame_Resizer
  imports Sip_Prelude
begin

text \<open>
  The frame resizer of \<^verbatim>\<open>src/media/audio/audio_frame_resizer.cpp\<close>, which regroups the samples of
  incoming frames into frames of a fixed number of samples. The sample queue is FFmpeg's
  \<^verbatim>\<open>AVAudioFifo\<close>: its functions are an argument \<^verbatim>\<open>av\<close> of the definitions and what its
  documentation promises is the predicate \<^verbatim>\<open>fifo_laws\<close>. Frames handed to the callback are
  returned as a list. The loop \<^verbatim>\<open>while (auto frame = dequeue())\<close> does not end when the frame
  size is zero, so it is a partial function whose value is \<^term>\<open>None\<close> when it does not return.
\<close>

record audio_format =
  sample_rate :: nat
  nb_channels :: nat
  sampleFormat :: int

text \<open>\<^verbatim>\<open>AV_SAMPLE_FMT_S16\<close> is 1.\<close>

definition AudioFormat_DEFAULT :: audio_format where
  "AudioFormat_DEFAULT = \<lparr>sample_rate = 16000, nb_channels = 1, sampleFormat = 1\<rparr>"

text \<open>
  An audio frame with its sample points in order; a value of type \<^typ>\<open>'s\<close> holds the samples of
  all channels at one instant, so the length of the list is \<^verbatim>\<open>nb_samples\<close>.
\<close>

record 's audio_frame =
  af_format :: audio_format
  af_samples :: "'s list"
  af_pts :: int
  has_voice :: bool

record ('q, 's) av_fifo =
  fifo_alloc :: "audio_format \<Rightarrow> int \<Rightarrow> 'q"
  fifo_size :: "'q \<Rightarrow> int"
  fifo_write :: "'q \<Rightarrow> 's list \<Rightarrow> int \<times> 'q"
  fifo_read :: "'q \<Rightarrow> int \<Rightarrow> int \<times> 's list \<times> 'q"
  fifo_reset :: "'q \<Rightarrow> 'q"

record 'q resizer =
  rz_format :: audio_format
  frameSize :: int
  has_cb :: bool
  queue :: 'q
  nextOutputPts :: int
  hasVoice :: bool

datatype resizer_error = FifoWriteFailed

section \<open>Operations\<close>

definition AudioFrameResizer_new :: "('q, 's) av_fifo \<Rightarrow> audio_format \<Rightarrow> int \<Rightarrow> bool \<Rightarrow> 'q resizer" where
  "AudioFrameResizer_new av fmt sz cb =
     \<lparr>rz_format = fmt, frameSize = sz, has_cb = cb, queue = fifo_alloc av fmt sz,
      nextOutputPts = 0, hasVoice = False\<rparr>"

definition resizer_samples :: "('q, 's) av_fifo \<Rightarrow> 'q resizer \<Rightarrow> int" where
  "resizer_samples av rz = fifo_size av (queue rz)"

definition dequeue :: "('q, 's) av_fifo \<Rightarrow> 'q resizer \<Rightarrow> 's audio_frame option \<times> 'q resizer" where
  "dequeue av rz =
     (if resizer_samples av rz < frameSize rz then (None, rz)
      else case fifo_read av (queue rz) (frameSize rz) of
             (ret, data, q) \<Rightarrow>
               if ret < 0 then (None, rz\<lparr>queue := q\<rparr>)
               else (Some \<lparr>af_format = rz_format rz, af_samples = data, af_pts = nextOutputPts rz,
                           has_voice = hasVoice rz\<rparr>,
                     rz\<lparr>queue := q, nextOutputPts := nextOutputPts rz + frameSize rz\<rparr>))"

text \<open>The loop that hands every complete frame to the callback.\<close>

partial_function (option) drain ::
  "('q, 's) av_fifo \<Rightarrow> 'q resizer \<Rightarrow> ('s audio_frame list \<times> 'q resizer) option" where
  "drain av rz =
     (case dequeue av rz of
        (None, rz') \<Rightarrow> Some ([], rz')
      | (Some f, rz') \<Rightarrow>
          Option.bind (drain av rz') (\<lambda>(fs, rz''). Some (f # fs, rz'')))"

definition setFrameSize ::
  "('q, 's) av_fifo \<Rightarrow> int \<Rightarrow> 'q resizer \<Rightarrow> ('s audio_frame list \<times> 'q resizer) option" where
  "setFrameSize av sz rz =
     (if frameSize rz \<noteq> sz then
        let rz1 = rz\<lparr>frameSize := sz\<rparr> in
        if has_cb rz1 then drain av rz1 else Some ([], rz1)
      else Some ([], rz))"

definition resizer_setFormat ::
  "('q, 's) av_fifo \<Rightarrow> audio_format \<Rightarrow> int \<Rightarrow> 'q resizer \<Rightarrow>
     ('s audio_frame list \<times> 'q resizer) option" where
  "resizer_setFormat av fmt sz rz =
     Option.bind (if sz \<noteq> 0 then setFrameSize av sz rz else Some ([], rz))
       (\<lambda>(fs, rz1). Some (fs,
          if fmt \<noteq> rz_format rz1
          then rz1\<lparr>rz_format := fmt, queue := fifo_alloc av fmt (frameSize rz1)\<rparr> else rz1))"

text \<open>A null frame, or one without data, is dropped; the rest of the body is \<^verbatim>\<open>enqueue_frame\<close>.\<close>

definition enqueue_frame ::
  "('q, 's) av_fifo \<Rightarrow> 's audio_frame \<Rightarrow> 'q resizer \<Rightarrow>
     (resizer_error \<times> 'q resizer + 's audio_frame list \<times> 'q resizer) option" where
  "enqueue_frame av f rz =
     (let nb_samples = resizer_samples av rz in
      if has_cb rz \<and> nb_samples = 0 \<and> int (length (af_samples f)) = frameSize rz
      then Some (Inr ([f], rz\<lparr>nextOutputPts := af_pts f + frameSize rz\<rparr>))
      else
        let rz1 = rz\<lparr>hasVoice := has_voice f\<rparr> in
        case fifo_write av (queue rz1) (af_samples f) of
          (ret, q) \<Rightarrow>
            let rz2 = rz1\<lparr>queue := q\<rparr> in
            if ret < 0 then Some (Inl (FifoWriteFailed, rz2))
            else
              let rz3 = (if nextOutputPts rz2 = 0
                         then rz2\<lparr>nextOutputPts := af_pts f - nb_samples\<rparr> else rz2)
              in if has_cb rz3 then map_option Inr (drain av rz3) else Some (Inr ([], rz3)))"

definition enqueue ::
  "('q, 's) av_fifo \<Rightarrow> 's audio_frame option \<Rightarrow> 'q resizer \<Rightarrow>
     (resizer_error \<times> 'q resizer + 's audio_frame list \<times> 'q resizer) option" where
  "enqueue av frame rz =
     (case frame of
        None \<Rightarrow> Some (Inr ([], rz))
      | Some f \<Rightarrow>
          Option.bind
            (if af_format f \<noteq> rz_format rz
             then resizer_setFormat av (af_format f) (frameSize rz) rz else Some ([], rz))
            (\<lambda>(fs, rz1).
               map_option (map_sum id (\<lambda>(gs, rz2). (fs @ gs, rz2))) (enqueue_frame av f rz1)))"

definition resizer_clear :: "('q, 's) av_fifo \<Rightarrow> 'q resizer \<Rightarrow> 'q resizer" where
  "resizer_clear av rz =
     rz\<lparr>queue := fifo_reset av (queue rz), nextOutputPts := 0, hasVoice := False\<rparr>"

section \<open>What FFmpeg documents of its audio FIFO\<close>

text \<open>
  \<^verbatim>\<open>cont\<close> gives the samples a queue holds, oldest first. A successful write appends all samples;
  reading no more samples than are available removes them from the front.
\<close>

definition fifo_laws :: "('q, 's) av_fifo \<Rightarrow> ('q \<Rightarrow> 's list) \<Rightarrow> bool" where
  "fifo_laws av cont \<longleftrightarrow>
     (\<forall>fmt n. cont (fifo_alloc av fmt n) = []) \<and>
     (\<forall>q. fifo_size av q = int (length (cont q))) \<and>
     (\<forall>q xs ret q'. fifo_write av q xs = (ret, q') \<longrightarrow> 0 \<le> ret \<longrightarrow> cont q' = cont q @ xs) \<and>
     (\<forall>q n ret xs q'. fifo_read av q n = (ret, xs, q') \<longrightarrow> 0 \<le> n \<longrightarrow> n \<le> fifo_size av q \<longrightarrow>
        ret = n \<and> xs = take (nat n) (cont q) \<and> cont q' = drop (nat n) (cont q)) \<and>
     (\<forall>q. cont (fifo_reset av q) = [])"

text \<open>A queue that is a plain list satisfies them.\<close>

definition list_fifo :: "('s list, 's) av_fifo" where
  "list_fifo =
     \<lparr>fifo_alloc = (\<lambda>_ _. []), fifo_size = (\<lambda>q. int (length q)),
      fifo_write = (\<lambda>q xs. (int (length xs), q @ xs)),
      fifo_read = (\<lambda>q n. (n, take (nat n) q, drop (nat n) q)),
      fifo_reset = (\<lambda>_. [])\<rparr>"

lemma list_fifo_laws: "fifo_laws list_fifo (\<lambda>q. q)"
  by (simp add: fifo_laws_def list_fifo_def)

lemma fifo_laws_size:
  "fifo_laws av cont \<Longrightarrow> resizer_samples av rz = int (length (cont (queue rz)))"
  by (simp add: fifo_laws_def resizer_samples_def)

lemma fifo_laws_write:
  "fifo_laws av cont \<Longrightarrow> fifo_write av q xs = (ret, q') \<Longrightarrow> 0 \<le> ret \<Longrightarrow> cont q' = cont q @ xs"
  by (simp add: fifo_laws_def)

lemma fifo_laws_read:
  assumes "fifo_laws av cont" and "fifo_read av q n = (ret, xs, q')"
    and "0 \<le> n" and "n \<le> int (length (cont q))"
  shows "ret = n" and "xs = take (nat n) (cont q)" and "cont q' = drop (nat n) (cont q)"
  using assms unfolding fifo_laws_def by metis+

section \<open>The drain loop\<close>

lemma dequeue_cases:
  assumes "fifo_laws av cont" and "0 < frameSize rz"
  shows "(length (cont (queue rz)) < nat (frameSize rz) \<and> dequeue av rz = (None, rz)) \<or>
    (\<exists>q. nat (frameSize rz) \<le> length (cont (queue rz)) \<and>
       cont q = drop (nat (frameSize rz)) (cont (queue rz)) \<and>
       dequeue av rz =
         (Some \<lparr>af_format = rz_format rz, af_samples = take (nat (frameSize rz)) (cont (queue rz)),
                af_pts = nextOutputPts rz, has_voice = hasVoice rz\<rparr>,
          rz\<lparr>queue := q, nextOutputPts := nextOutputPts rz + frameSize rz\<rparr>))"
proof (cases "length (cont (queue rz)) < nat (frameSize rz)")
  case True
  with assms(2) have "int (length (cont (queue rz))) < frameSize rz" by linarith
  with assms(1) True show ?thesis by (simp add: dequeue_def fifo_laws_size)
next
  case False
  obtain ret data q where r: "fifo_read av (queue rz) (frameSize rz) = (ret, data, q)"
    by (cases "fifo_read av (queue rz) (frameSize rz)") auto
  from False assms(2) have "frameSize rz \<le> int (length (cont (queue rz)))" by simp
  from fifo_laws_read [OF assms(1) r _ this] assms(2)
  have *: "ret = frameSize rz" "data = take (nat (frameSize rz)) (cont (queue rz))"
    "cont q = drop (nat (frameSize rz)) (cont (queue rz))" by simp_all
  have "\<not> resizer_samples av rz < frameSize rz"
    using False assms by (simp add: fifo_laws_size)
  with * r assms(2) False show ?thesis by (auto simp: dequeue_def)
qed

text \<open>
  The loop returns whenever the frame size is positive; the frames hold the queued samples in
  order, each frame is full, less than a frame stays behind and the presentation times of the
  frames follow each other at distance \<^term>\<open>frameSize\<close>.
\<close>

definition frames_at :: "int \<Rightarrow> int \<Rightarrow> 's audio_frame list \<Rightarrow> bool" where
  "frames_at t n fs \<longleftrightarrow>
     (\<forall>i < length fs. af_pts (fs ! i) = t + int i * n \<and> int (length (af_samples (fs ! i))) = n)"

lemma frames_at_Nil [simp]: "frames_at t n []"
  by (simp add: frames_at_def)

lemma frames_at_Cons [simp]:
  "frames_at t n (f # fs) \<longleftrightarrow>
     af_pts f = t \<and> int (length (af_samples f)) = n \<and> frames_at (t + n) n fs"
  by (simp add: frames_at_def All_less_Suc2 algebra_simps)

lemma drain_returns:
  assumes "fifo_laws av cont" and "0 < frameSize rz"
  shows "\<exists>fs rz'. drain av rz = Some (fs, rz') \<and>
    concat (map af_samples fs) @ cont (queue rz') = cont (queue rz) \<and>
    int (length (cont (queue rz'))) < frameSize rz \<and>
    frames_at (nextOutputPts rz) (frameSize rz) fs \<and>
    frameSize rz' = frameSize rz \<and> rz_format rz' = rz_format rz \<and> has_cb rz' = has_cb rz \<and>
    nextOutputPts rz' = nextOutputPts rz + int (length fs) * frameSize rz"
  using assms(2)
proof (induction "length (cont (queue rz))" arbitrary: rz rule: less_induct)
  case less
  let ?n = "nat (frameSize rz)"
  from dequeue_cases [OF assms(1) less.prems] show ?case
  proof (elim disjE exE conjE)
    assume "length (cont (queue rz)) < ?n" and "dequeue av rz = (None, rz)"
    with less.prems show ?thesis by (subst drain.simps) auto
  next
    fix q
    let ?rz = "rz\<lparr>queue := q, nextOutputPts := nextOutputPts rz + frameSize rz\<rparr>"
    assume le: "?n \<le> length (cont (queue rz))"
      and q: "cont q = drop ?n (cont (queue rz))"
      and d: "dequeue av rz = (Some \<lparr>af_format = rz_format rz,
                af_samples = take ?n (cont (queue rz)), af_pts = nextOutputPts rz,
                has_voice = hasVoice rz\<rparr>, ?rz)"
    have lt: "length (cont (queue ?rz)) < length (cont (queue rz))"
      using q le less.prems by simp
    have pos: "0 < frameSize ?rz" using less.prems by simp
    from less.hyps [OF lt pos] obtain fs rz' where ih: "drain av ?rz = Some (fs, rz')"
      "concat (map af_samples fs) @ cont (queue rz') = drop ?n (cont (queue rz))"
      "int (length (cont (queue rz'))) < frameSize rz"
      "frames_at (nextOutputPts rz + frameSize rz) (frameSize rz) fs"
      "frameSize rz' = frameSize rz" "rz_format rz' = rz_format rz" "has_cb rz' = has_cb rz"
      "nextOutputPts rz' = nextOutputPts rz + frameSize rz + int (length fs) * frameSize rz"
      by (auto simp: q)
    have "drain av rz = Some (\<lparr>af_format = rz_format rz, af_samples = take ?n (cont (queue rz)),
                af_pts = nextOutputPts rz, has_voice = hasVoice rz\<rparr> # fs, rz')"
      by (subst drain.simps) (simp add: d ih(1))
    with ih le less.prems show ?thesis by (auto simp: algebra_simps)
  qed
qed

text \<open>With a frame size of zero the loop never returns.\<close>

definition zero_reads_succeed :: "('q, 's) av_fifo \<Rightarrow> bool" where
  "zero_reads_succeed av \<longleftrightarrow> (\<forall>q. fst (fifo_read av q 0) = 0 \<and> 0 \<le> fifo_size av q)"

lemma dequeue_zero:
  assumes "zero_reads_succeed av" and "frameSize rz = 0"
  shows "\<exists>f rz'. dequeue av rz = (Some f, rz') \<and> frameSize rz' = 0"
proof -
  obtain ret data q where r: "fifo_read av (queue rz) 0 = (ret, data, q)"
    by (cases "fifo_read av (queue rz) 0") auto
  with assms have "ret = 0" unfolding zero_reads_succeed_def by (metis fst_conv)
  with r assms show ?thesis
    by (simp add: dequeue_def resizer_samples_def zero_reads_succeed_def not_less)
qed

lemma drain_zero_diverges:
  assumes laws: "zero_reads_succeed av" and "frameSize rz = 0"
  shows "drain av rz = None"
proof (rule ccontr)
  assume "drain av rz \<noteq> None"
  then obtain res where ret: "drain av rz = Some res" by auto
  have "av = av \<longrightarrow> frameSize rz = 0 \<longrightarrow> zero_reads_succeed av \<longrightarrow> False"
  proof (rule drain.raw_induct [where P = "\<lambda>av rz res. av = av \<longrightarrow> frameSize rz = 0 \<longrightarrow>
      zero_reads_succeed av \<longrightarrow> False", OF _ ret])
    fix f :: "('q, 's) av_fifo \<Rightarrow> 'q resizer \<Rightarrow> ('s audio_frame list \<times> 'q resizer) option"
      and av' :: "('q, 's) av_fifo" and rz1 res'
    assume IH: "\<And>av rz res. f av rz = Some res \<Longrightarrow>
        av = av \<longrightarrow> frameSize rz = 0 \<longrightarrow> zero_reads_succeed av \<longrightarrow> False"
      and eq: "(case dequeue av' rz1 of (None, rz') \<Rightarrow> Some ([], rz')
        | (Some fr, rz') \<Rightarrow> Option.bind (f av' rz') (\<lambda>(fs, rz''). Some (fr # fs, rz''))) = Some res'"
    show "av' = av' \<longrightarrow> frameSize rz1 = 0 \<longrightarrow> zero_reads_succeed av' \<longrightarrow> False"
    proof (intro impI)
      assume z: "frameSize rz1 = 0" "zero_reads_succeed av'"
      from dequeue_zero [OF z(2,1)] obtain fr rz' where
        d: "dequeue av' rz1 = (Some fr, rz')" "frameSize rz' = 0" by auto
      with eq obtain r where "f av' rz' = Some r" by (auto simp: bind_eq_Some_conv)
      from IH [OF this] d z show False by simp
    qed
  qed
  with assms show False by simp
qed

section \<open>No sample is lost\<close>

text \<open>
  C33: the resizer neither loses, duplicates nor reorders samples. With a callback installed and a
  positive frame size, every accepted frame in the resizer's own format makes \<^verbatim>\<open>enqueue\<close>
  return (it cannot loop forever); the samples handed to the callback, followed by those still
  queued, are the samples queued before followed by those of the new frame; every frame handed
  out is full, and less than one frame stays queued.
\<close>

theorem enqueue_preserves_samples:
  assumes laws: "fifo_laws av cont"
    and cb: "has_cb rz" and pos: "0 < frameSize rz" and fmt: "af_format f = rz_format rz"
    and part: "int (length (cont (queue rz))) < frameSize rz"
    and wr: "\<And>q xs. 0 \<le> fst (fifo_write av q xs)"
  shows "\<exists>fs rz'. enqueue av (Some f) rz = Some (Inr (fs, rz')) \<and>
    concat (map af_samples fs) @ cont (queue rz') = cont (queue rz) @ af_samples f \<and>
    (\<forall>g \<in> set fs. int (length (af_samples g)) = frameSize rz) \<and>
    int (length (cont (queue rz'))) < frameSize rz"
proof (cases "cont (queue rz) = [] \<and> int (length (af_samples f)) = frameSize rz")
  case True
  with assms show ?thesis
    by (simp add: enqueue_def enqueue_frame_def fifo_laws_size)
next
  case False
  obtain ret q where w: "fifo_write av (queue rz) (af_samples f) = (ret, q)"
    by (cases "fifo_write av (queue rz) (af_samples f)") auto
  with wr have ret: "0 \<le> ret" by (metis fst_conv)
  define r where "r = (let r = rz\<lparr>hasVoice := has_voice f, queue := q\<rparr> in
    if nextOutputPts rz = 0 then r\<lparr>nextOutputPts := af_pts f - resizer_samples av rz\<rparr> else r)"
  have r: "frameSize r = frameSize rz" "queue r = q" by (simp_all add: r_def Let_def)
  have e: "enqueue av (Some f) rz = map_option Inr (drain av r)"
    using False w ret fmt cb fifo_laws_size [OF laws, of rz]
    by (auto simp: enqueue_def enqueue_frame_def r_def Let_def map_option.compositionality
         comp_def sum.map_comp map_sum_def case_prod_beta')
  from drain_returns [OF laws, of r] pos obtain fs rz' where
    d: "drain av r = Some (fs, rz')"
      "concat (map af_samples fs) @ cont (queue rz') = cont q"
      "int (length (cont (queue rz'))) < frameSize rz"
      "frames_at (nextOutputPts r) (frameSize rz) fs"
    by (auto simp: r)
  moreover have "\<forall>g \<in> set fs. int (length (af_samples g)) = frameSize rz"
    using d(4) by (auto simp: frames_at_def in_set_conv_nth)
  ultimately show ?thesis
    using e fifo_laws_write [OF laws w ret] by simp
qed

definition demo_resizer :: "int list resizer" where
  "demo_resizer = AudioFrameResizer_new list_fifo AudioFormat_DEFAULT 2 True"

definition demo_frame :: "int audio_frame" where
  "demo_frame = \<lparr>af_format = AudioFormat_DEFAULT, af_samples = [7, 8, 9, 10, 11], af_pts = 100,
                 has_voice = True\<rparr>"

theorem enqueue_preserves_samples_witness:
  "\<exists>fs rz'. enqueue list_fifo (Some demo_frame) demo_resizer = Some (Inr (fs, rz')) \<and>
    concat (map af_samples fs) @ queue rz' = [7, 8, 9, 10, 11] \<and>
    (\<forall>g \<in> set fs. int (length (af_samples g)) = 2) \<and> length (queue rz') < 2"
  using enqueue_preserves_samples [OF list_fifo_laws, of demo_resizer demo_frame]
  by (simp add: demo_resizer_def demo_frame_def AudioFrameResizer_new_def list_fifo_def)

text \<open>
  A frame size of zero makes the resizer hang. Once \<^verbatim>\<open>frameSize_\<close> is zero, a frame with at
  least one sample makes \<^verbatim>\<open>enqueue\<close> loop forever: every read of zero samples succeeds and
  yields another empty frame. \<^verbatim>\<open>setFrameSize(0)\<close> itself already loops.
\<close>

theorem zero_frame_size_hangs:
  assumes "zero_reads_succeed av" and "has_cb rz" and "af_format f = rz_format rz"
    and "af_samples f \<noteq> []" and wr: "\<And>q xs. 0 \<le> fst (fifo_write av q xs)"
  shows "if frameSize rz = 0 then enqueue av (Some f) rz = None
         else setFrameSize av 0 rz = None"
proof (cases "frameSize rz = 0")
  case False
  with assms show ?thesis by (simp add: setFrameSize_def drain_zero_diverges)
next
  case z: True
  obtain ret q where w: "fifo_write av (queue rz) (af_samples f) = (ret, q)"
    by (cases "fifo_write av (queue rz) (af_samples f)") auto
  with wr have "0 \<le> ret" by (metis fst_conv)
  with w z assms show ?thesis
    by (simp add: enqueue_def enqueue_frame_def drain_zero_diverges Let_def)
qed

theorem zero_frame_size_hangs_witness:
  "enqueue list_fifo (Some demo_frame) (demo_resizer\<lparr>frameSize := 0\<rparr>) = None \<and>
   setFrameSize list_fifo 0 demo_resizer = None"
proof -
  have laws: "zero_reads_succeed (list_fifo :: (int list, int) av_fifo)"
    and wr: "\<And>q xs. 0 \<le> fst (fifo_write (list_fifo :: (int list, int) av_fifo) q xs)"
    by (simp_all add: zero_reads_succeed_def list_fifo_def)
  show ?thesis
    using zero_frame_size_hangs [OF laws _ _ _ wr, of "demo_resizer\<lparr>frameSize := 0\<rparr>" demo_frame]
      zero_frame_size_hangs [OF laws _ _ _ wr, of demo_resizer demo_frame]
    by (simp add: demo_resizer_def demo_frame_def AudioFrameResizer_new_def)
qed

end
