(* ===== verification/Ring_Buffer.thy ===== *)
theory Ring_Buffer
  imports Audio_Frame_Resizer
begin

text \<open>
  The audio ring buffer of \<^verbatim>\<open>src/media/audio/ringbuffer.cpp\<close>: one writer position, one read
  offset per reader, frames in a fixed vector of slots. The record has one field per member of
  the class; an operation takes the object and returns it updated, with its result and the
  effects that leave the object (the level-meter signal, the frame callbacks and the wake-up of
  waiting readers) where it has any. The last part gives every reader an abstract queue of
  pending frames and shows what each operation does to it.
\<close>

record read_offset =
  offset :: nat
  callback :: bool \<comment> \<open>whether a frame callback is installed\<close>

text \<open>
  \<^typ>\<open>'s\<close> is the type of samples, \<^typ>\<open>'q\<close> that of the FFmpeg queue inside the resizer and
  \<^typ>\<open>'r\<close> that of RMS levels. A slot is a shared pointer,
  null until the first frame is stored. The accumulated level \<^verbatim>\<open>rmsLevel_\<close>, a sum of doubles,
  is kept as the list of its summands in the order they are added.
\<close>

record ('s, 'q, 'r) ring_buffer =
  rb_id :: string
  endPos :: nat
  rb_format :: audio_format
  buffer :: "'s audio_frame option list"
  readoffsets :: "(string, read_offset) smap"
  rmsSignal :: bool
  rmsLevel :: "'r list"
  rmsFrameCount :: nat
  rb_resizer :: "'q resizer"

datatype ('s, 'r) rb_event =
    AudioMeter string "'r list" \<comment> \<open>the level, divided by the number of summands\<close>
  | FrameCallback string "'s audio_frame"
  | NotifyNotEmpty

definition RMS_SIGNAL_INTERVAL :: nat where
  "RMS_SIGNAL_INTERVAL = 5"

definition RingBuffer_new :: "('q, 's) av_fifo \<Rightarrow> string \<Rightarrow> audio_format \<Rightarrow> ('s, 'q, 'r) ring_buffer" where
  "RingBuffer_new av i fmt =
     \<lparr>rb_id = i, endPos = 0, rb_format = fmt, buffer = replicate 16 None, readoffsets = [],
      rmsSignal = False, rmsLevel = [], rmsFrameCount = 0,
      rb_resizer = AudioFrameResizer_new av fmt (int (sample_rate fmt div 50)) True\<rparr>"

section \<open>Read offsets\<close>

definition hasThisReadOffset :: "('s, 'q, 'r) ring_buffer \<Rightarrow> string \<Rightarrow> bool" where
  "hasThisReadOffset rb call_id \<longleftrightarrow> smap_find (readoffsets rb) call_id \<noteq> None"

definition hasNoReadOffsets :: "('s, 'q, 'r) ring_buffer \<Rightarrow> bool" where
  "hasNoReadOffsets rb \<longleftrightarrow> readoffsets rb = []"

definition getReadOffset :: "('s, 'q, 'r) ring_buffer \<Rightarrow> string \<Rightarrow> nat" where
  "getReadOffset rb call_id =
     (case smap_find (readoffsets rb) call_id of Some r \<Rightarrow> offset r | None \<Rightarrow> 0)"

definition getSmallestReadOffset :: "('s, 'q, 'r) ring_buffer \<Rightarrow> nat" where
  "getSmallestReadOffset rb =
     (if hasNoReadOffsets rb then 0
      else foldl (\<lambda>smallest (_, r). min smallest (offset r)) (length (buffer rb)) (readoffsets rb))"

definition storeReadOffset :: "nat \<Rightarrow> string \<Rightarrow> ('s, 'q, 'r) ring_buffer \<Rightarrow> ('s, 'q, 'r) ring_buffer" where
  "storeReadOffset ofs call_id rb =
     (case smap_find (readoffsets rb) call_id of
        Some r \<Rightarrow> rb\<lparr>readoffsets := smap_set call_id (r\<lparr>offset := ofs\<rparr>) (readoffsets rb)\<rparr>
      | None \<Rightarrow> rb)"

definition createReadOffset :: "string \<Rightarrow> ('s, 'q, 'r) ring_buffer \<Rightarrow> ('s, 'q, 'r) ring_buffer" where
  "createReadOffset call_id rb =
     (if \<not> hasThisReadOffset rb call_id
      then rb\<lparr>readoffsets := smap_emplace call_id \<lparr>offset = endPos rb, callback = False\<rparr>
                              (readoffsets rb)\<rparr>
      else rb)"

definition removeReadOffset :: "string \<Rightarrow> ('s, 'q, 'r) ring_buffer \<Rightarrow> ('s, 'q, 'r) ring_buffer" where
  "removeReadOffset call_id rb =
     (case smap_find (readoffsets rb) call_id of
        Some _ \<Rightarrow> rb\<lparr>readoffsets := smap_erase call_id (readoffsets rb)\<rparr>
      | None \<Rightarrow> rb)"

definition RingBuffer_flush :: "string \<Rightarrow> ('s, 'q, 'r) ring_buffer \<Rightarrow> ('s, 'q, 'r) ring_buffer" where
  "RingBuffer_flush call_id rb = storeReadOffset (endPos rb) call_id rb"

definition flushAll :: "('s, 'q, 'r) ring_buffer \<Rightarrow> ('s, 'q, 'r) ring_buffer" where
  "flushAll rb = rb\<lparr>readoffsets := smap_map (\<lambda>_ r. r\<lparr>offset := endPos rb\<rparr>) (readoffsets rb)\<rparr>"

section \<open>Lengths\<close>

definition putLength :: "('s, 'q, 'r) ring_buffer \<Rightarrow> nat" where
  "putLength rb =
     (let buffer_size = length (buffer rb) in
      if buffer_size = 0 then 0
      else let startPos = getSmallestReadOffset rb
           in (endPos rb + buffer_size - startPos) mod buffer_size)"

definition getLength :: "('s, 'q, 'r) ring_buffer \<Rightarrow> string \<Rightarrow> nat" where
  "getLength rb call_id =
     (let buffer_size = length (buffer rb) in
      if buffer_size = 0 then 0
      else (endPos rb + buffer_size - getReadOffset rb call_id) mod buffer_size)"

definition isFull :: "('s, 'q, 'r) ring_buffer \<Rightarrow> bool" where
  "isFull rb \<longleftrightarrow> putLength rb = length (buffer rb)"

definition isEmpty :: "('s, 'q, 'r) ring_buffer \<Rightarrow> bool" where
  "isEmpty rb \<longleftrightarrow> putLength rb = 0"

definition RingBuffer_availableForGet :: "('s, 'q, 'r) ring_buffer \<Rightarrow> string \<Rightarrow> nat" where
  "RingBuffer_availableForGet rb call_id = getLength rb call_id"

section \<open>The writer\<close>

text \<open>\<^verbatim>\<open>discard(size_t)\<close>: push every reader that is about to be overrun.\<close>

definition discard_all :: "nat \<Rightarrow> ('s, 'q, 'r) ring_buffer \<Rightarrow> nat \<times> ('s, 'q, 'r) ring_buffer" where
  "discard_all toDiscard rb =
     (let buffer_size = length (buffer rb) in
      if buffer_size = 0 then (0, rb)
      else (toDiscard,
        rb\<lparr>readoffsets := smap_map (\<lambda>_ r.
             let dst = (offset r + buffer_size - endPos rb) mod buffer_size
             in if dst < toDiscard
                then r\<lparr>offset := (offset r + toDiscard - dst) mod buffer_size\<rparr> else r)
           (readoffsets rb)\<rparr>))"

text \<open>\<^term>\<open>calcRMS\<close> is the level of one frame.\<close>

definition putToBuffer ::
  "('s audio_frame \<Rightarrow> 'r) \<Rightarrow> 's audio_frame \<Rightarrow> ('s, 'q, 'r) ring_buffer \<Rightarrow> ('s, 'q, 'r) ring_buffer \<times> ('s, 'r) rb_event list" where
  "putToBuffer calcRMS data rb =
     (let buffer_size = length (buffer rb) in
      if buffer_size = 0 then (rb, [])
      else
        let len = buffer_size - putLength rb;
            rb1 = (if len = 0 then snd (discard_all 1 rb) else rb);
            pos = endPos rb1;
            rb2 = rb1\<lparr>buffer := (buffer rb1)[pos := Some data],
                      endPos := (pos + 1) mod buffer_size\<rparr>;
            (rb3, meter) =
              (if rmsSignal rb2 then
                 let cnt = rmsFrameCount rb2 + 1; lvl = rmsLevel rb2 @ [calcRMS data] in
                 if cnt = RMS_SIGNAL_INTERVAL
                 then (rb2\<lparr>rmsLevel := [], rmsFrameCount := 0\<rparr>, [AudioMeter (rb_id rb2) lvl])
                 else (rb2\<lparr>rmsLevel := lvl, rmsFrameCount := cnt\<rparr>, [])
               else (rb2, []));
            cbs = map (\<lambda>(k, _). FrameCallback k data)
                    (filter (\<lambda>(_, r). callback r) (readoffsets rb3))
        in (rb3, meter @ cbs @ [NotifyNotEmpty]))"

definition putNoResize ::
  "('s audio_frame \<Rightarrow> 'r) \<Rightarrow> 's audio_frame \<Rightarrow> ('s, 'q, 'r) ring_buffer \<Rightarrow>
     ('s, 'q, 'r) ring_buffer \<times> ('s, 'r) rb_event list" where
  "putNoResize calcRMS data rb = putToBuffer calcRMS data rb"

text \<open>The resizer's callback: \<^verbatim>\<open>putToBuffer\<close> for each frame it hands out.\<close>

fun put_frames ::
  "('s audio_frame \<Rightarrow> 'r) \<Rightarrow> 's audio_frame list \<Rightarrow> ('s, 'q, 'r) ring_buffer \<Rightarrow>
     ('s, 'q, 'r) ring_buffer \<times> ('s, 'r) rb_event list" where
  "put_frames calcRMS [] rb = (rb, [])"
| "put_frames calcRMS (f # fs) rb =
     (let (rb1, ev1) = putToBuffer calcRMS f rb; (rb2, ev2) = put_frames calcRMS fs rb1
      in (rb2, ev1 @ ev2))"

text \<open>
  \<^term>\<open>resample\<close> converts a frame to the buffer's format (libswresample). The result is
  \<^term>\<open>None\<close> when the resizer's loop does not return, and an error when it throws.
\<close>

definition RingBuffer_put ::
  "('q, 's) av_fifo \<Rightarrow> ('s audio_frame \<Rightarrow> 'r) \<Rightarrow>
     ('s audio_frame \<Rightarrow> audio_format \<Rightarrow> 's audio_frame option) \<Rightarrow> 's audio_frame \<Rightarrow>
     ('s, 'q, 'r) ring_buffer \<Rightarrow>
     (resizer_error \<times> ('s, 'q, 'r) ring_buffer +
        ('s, 'q, 'r) ring_buffer \<times> ('s, 'r) rb_event list) option" where
  "RingBuffer_put av calcRMS resample data rb =
     map_option (\<lambda>res. case res of
         Inl (e, rz) \<Rightarrow> Inl (e, rb\<lparr>rb_resizer := rz\<rparr>)
       | Inr (fs, rz) \<Rightarrow> Inr (put_frames calcRMS fs (rb\<lparr>rb_resizer := rz\<rparr>)))
       (enqueue av (resample data (rb_format rb)) (rb_resizer rb))"

definition RingBuffer_setFormat ::
  "('q, 's) av_fifo \<Rightarrow> ('s audio_frame \<Rightarrow> 'r) \<Rightarrow> audio_format \<Rightarrow> ('s, 'q, 'r) ring_buffer \<Rightarrow>
     (('s, 'q, 'r) ring_buffer \<times> ('s, 'r) rb_event list) option" where
  "RingBuffer_setFormat av calcRMS fmt rb =
     map_option (\<lambda>(fs, rz). put_frames calcRMS fs (rb\<lparr>rb_format := fmt, rb_resizer := rz\<rparr>))
       (resizer_setFormat av fmt (int (sample_rate fmt div 50)) (rb_resizer rb))"

definition RingBuffer_setFrameSize ::
  "('q, 's) av_fifo \<Rightarrow> ('s audio_frame \<Rightarrow> 'r) \<Rightarrow> int \<Rightarrow> ('s, 'q, 'r) ring_buffer \<Rightarrow>
     (('s, 'q, 'r) ring_buffer \<times> ('s, 'r) rb_event list) option" where
  "RingBuffer_setFrameSize av calcRMS nb_samples rb =
     map_option (\<lambda>(fs, rz). put_frames calcRMS fs (rb\<lparr>rb_resizer := rz\<rparr>))
       (setFrameSize av nb_samples (rb_resizer rb))"

section \<open>The readers\<close>

definition RingBuffer_get ::
  "string \<Rightarrow> ('s, 'q, 'r) ring_buffer \<Rightarrow> 's audio_frame option \<times> ('s, 'q, 'r) ring_buffer" where
  "RingBuffer_get call_id rb =
     (case smap_find (readoffsets rb) call_id of
        None \<Rightarrow> (None, rb)
      | Some r \<Rightarrow>
          let buffer_size = length (buffer rb) in
          if buffer_size = 0 then (None, rb)
          else
            let startPos = offset r;
                len = (endPos rb + buffer_size - startPos) mod buffer_size
            in if len = 0 then (None, rb)
               else (buffer rb ! startPos,
                     rb\<lparr>readoffsets := smap_set call_id
                          (r\<lparr>offset := (startPos + 1) mod buffer_size\<rparr>) (readoffsets rb)\<rparr>))"

definition RingBuffer_discard ::
  "nat \<Rightarrow> string \<Rightarrow> ('s, 'q, 'r) ring_buffer \<Rightarrow> nat \<times> ('s, 'q, 'r) ring_buffer" where
  "RingBuffer_discard toDiscard call_id rb =
     (let buffer_size = length (buffer rb) in
      if buffer_size = 0 then (0, rb)
      else case smap_find (readoffsets rb) call_id of
             None \<Rightarrow> (0, rb)
           | Some r \<Rightarrow>
               let len = (endPos rb + buffer_size - offset r) mod buffer_size;
                   n = min toDiscard len
               in (n, rb\<lparr>readoffsets := smap_set call_id
                           (r\<lparr>offset := (offset r + n) mod buffer_size\<rparr>) (readoffsets rb)\<rparr>))"

text \<open>
  \<^verbatim>\<open>waitForDataAvailable\<close> evaluates the wait predicate at the start and at every wake-up, the
  last one at the deadline; between two evaluations other threads run. The list holds the
  object as it is found at each evaluation.
\<close>

definition wait_check :: "string \<Rightarrow> nat \<Rightarrow> ('s, 'q, 'r) ring_buffer \<Rightarrow> bool \<times> nat" where
  "wait_check call_id getl rb =
     (let buffer_size = length (buffer rb) in
      case smap_find (readoffsets rb) call_id of
        None \<Rightarrow> (True, getl)
      | Some r \<Rightarrow>
          if buffer_size = 0 then (True, getl)
          else let g = (endPos rb + buffer_size - offset r) mod buffer_size in (g \<noteq> 0, g))"

fun wait_loop :: "string \<Rightarrow> nat \<Rightarrow> ('s, 'q, 'r) ring_buffer list \<Rightarrow> nat" where
  "wait_loop call_id getl [] = getl"
| "wait_loop call_id getl (rb # rbs) =
     (let (stop, g) = wait_check call_id getl rb in
      if stop then g else wait_loop call_id g rbs)"

definition RingBuffer_waitForDataAvailable ::
  "string \<Rightarrow> ('s, 'q, 'r) ring_buffer \<Rightarrow> ('s, 'q, 'r) ring_buffer list \<Rightarrow> nat" where
  "RingBuffer_waitForDataAvailable call_id rb wakeups =
     (if buffer rb = [] then 0
      else if smap_find (readoffsets rb) call_id = None then 0
      else wait_loop call_id 0 (rb # wakeups))"

section \<open>Well-formedness\<close>

definition rb_wf :: "('s, 'q, 'r) ring_buffer \<Rightarrow> bool" where
  "rb_wf rb \<longleftrightarrow>
     0 < length (buffer rb) \<and> endPos rb < length (buffer rb) \<and> smap_wf (readoffsets rb) \<and>
     (\<forall>(k, r) \<in> set (readoffsets rb). offset r < length (buffer rb)) \<and>
     rmsFrameCount rb < RMS_SIGNAL_INTERVAL \<and> length (rmsLevel rb) = rmsFrameCount rb"

text \<open>The operations as one alphabet, for runs.\<close>

datatype 's rb_op =
    Put "'s audio_frame" | Get string | Discard nat string | Flush string | FlushAll
  | CreateReader string | RemoveReader string | SetMeter bool

definition RingBuffer_setAudioMeterState ::
  "bool \<Rightarrow> ('s, 'q, 'r) ring_buffer \<Rightarrow> ('s, 'q, 'r) ring_buffer" where
  "RingBuffer_setAudioMeterState b rb = rb\<lparr>rmsSignal := b\<rparr>"

fun rb_step ::
  "('s audio_frame \<Rightarrow> 'r) \<Rightarrow> ('s, 'q, 'r) ring_buffer \<Rightarrow> 's rb_op \<Rightarrow> ('s, 'q, 'r) ring_buffer" where
  "rb_step rms rb (Put f) = fst (putToBuffer rms f rb)"
| "rb_step rms rb (Get k) = snd (RingBuffer_get k rb)"
| "rb_step rms rb (Discard n k) = snd (RingBuffer_discard n k rb)"
| "rb_step rms rb (Flush k) = RingBuffer_flush k rb"
| "rb_step rms rb FlushAll = flushAll rb"
| "rb_step rms rb (CreateReader k) = createReadOffset k rb"
| "rb_step rms rb (RemoveReader k) = removeReadOffset k rb"
| "rb_step rms rb (SetMeter b) = RingBuffer_setAudioMeterState b rb"

lemmas rb_defs = putToBuffer_def RingBuffer_get_def RingBuffer_discard_def RingBuffer_flush_def
  storeReadOffset_def flushAll_def createReadOffset_def removeReadOffset_def discard_all_def
  RingBuffer_setAudioMeterState_def hasThisReadOffset_def

lemma rb_wf_find:
  "rb_wf rb \<Longrightarrow> smap_find (readoffsets rb) k = Some r \<Longrightarrow> offset r < length (buffer rb)"
  unfolding rb_wf_def by (meson case_prodD map_of_SomeD)

lemma getSmallestReadOffset_le: "getSmallestReadOffset rb \<le> length (buffer rb)"
proof -
  have "foldl (\<lambda>m (_, r). min m (offset r)) z xs \<le> z" for z and xs :: "(string, read_offset) smap"
    by (induction xs arbitrary: z) (auto intro: order_trans [OF _ min.cobounded1])
  then show ?thesis by (simp add: getSmallestReadOffset_def)
qed

text \<open>
  The space computed by \<^verbatim>\<open>putLength\<close> is a remainder modulo the buffer size, so it never equals
  the size: the branch of \<^verbatim>\<open>putToBuffer\<close> that makes room is dead.
\<close>

lemma putLength_less: "buffer rb \<noteq> [] \<Longrightarrow> putLength rb < length (buffer rb)"
  by (auto simp: putLength_def Let_def intro!: mod_less_divisor)

lemma putToBuffer_state:
  assumes "buffer rb \<noteq> []"
  shows "buffer (fst (putToBuffer rms f rb)) = (buffer rb)[endPos rb := Some f]"
    and "endPos (fst (putToBuffer rms f rb)) = (endPos rb + 1) mod length (buffer rb)"
    and "readoffsets (fst (putToBuffer rms f rb)) = readoffsets rb"
    and "rb_id (fst (putToBuffer rms f rb)) = rb_id rb"
    and "rb_format (fst (putToBuffer rms f rb)) = rb_format rb"
    and "rb_resizer (fst (putToBuffer rms f rb)) = rb_resizer rb"
    and "rmsSignal (fst (putToBuffer rms f rb)) = rmsSignal rb"
  using putLength_less [OF assms] assms by (auto simp: putToBuffer_def Let_def)

lemma rb_wf_readoffsets:
  assumes "rb_wf rb" and "smap_wf m" and "\<And>k r. (k, r) \<in> set m \<Longrightarrow> offset r < length (buffer rb)"
  shows "rb_wf (rb\<lparr>readoffsets := m\<rparr>)"
  using assms by (auto simp: rb_wf_def)

lemma rb_wf_set_offset:
  assumes "rb_wf rb" and "offset r < length (buffer rb)"
  shows "rb_wf (rb\<lparr>readoffsets := smap_set k r (readoffsets rb)\<rparr>)"
  using assms by (intro rb_wf_readoffsets) (auto simp: rb_wf_def dest!: in_smap_setD)

lemma rb_wf_new [wf_intros]: "rb_wf (RingBuffer_new av i fmt)"
  by (simp add: rb_wf_def RingBuffer_new_def RMS_SIGNAL_INTERVAL_def)

lemma rb_wf_put [wf_intros]: "rb_wf rb \<Longrightarrow> rb_wf (fst (putToBuffer rms f rb))"
  using putLength_less [of rb]
  by (auto simp: rb_wf_def putToBuffer_def Let_def RMS_SIGNAL_INTERVAL_def)

lemma rb_wf_get [wf_intros]: "rb_wf rb \<Longrightarrow> rb_wf (snd (RingBuffer_get k rb))"
  by (auto simp: RingBuffer_get_def Let_def intro!: rb_wf_set_offset split: option.split)

lemma rb_wf_discard [wf_intros]: "rb_wf rb \<Longrightarrow> rb_wf (snd (RingBuffer_discard n k rb))"
  by (auto simp: RingBuffer_discard_def Let_def intro!: rb_wf_set_offset split: option.split)

lemma rb_wf_flush [wf_intros]: "rb_wf rb \<Longrightarrow> rb_wf (RingBuffer_flush k rb)"
  by (auto simp: RingBuffer_flush_def storeReadOffset_def rb_wf_def
      intro!: rb_wf_set_offset [unfolded rb_wf_def] dest!: in_smap_setD split: option.split)

lemma rb_wf_flushAll [wf_intros]: "rb_wf rb \<Longrightarrow> rb_wf (flushAll rb)"
  unfolding flushAll_def by (intro rb_wf_readoffsets) (auto simp: rb_wf_def)

lemma rb_wf_create [wf_intros]: "rb_wf rb \<Longrightarrow> rb_wf (createReadOffset k rb)"
  unfolding createReadOffset_def
  by (auto intro!: rb_wf_readoffsets simp: rb_wf_def dest!: in_smap_emplaceD)

lemma rb_wf_remove [wf_intros]: "rb_wf rb \<Longrightarrow> rb_wf (removeReadOffset k rb)"
  by (auto simp: removeReadOffset_def rb_wf_def split: option.split)

lemma rb_wf_meter [wf_intros]: "rb_wf rb \<Longrightarrow> rb_wf (RingBuffer_setAudioMeterState b rb)"
  by (simp add: RingBuffer_setAudioMeterState_def rb_wf_def)

lemma rb_wf_step: "rb_wf rb \<Longrightarrow> rb_wf (rb_step rms rb oper)"
  by (cases oper) (auto intro: wf_intros)

text \<open>Who reads, and the name of a buffer, under each operation.\<close>

named_theorems rb_frame \<open>readers and name of a ring buffer under its operations\<close>

lemma readers_create [rb_frame]:
  "hasThisReadOffset (createReadOffset k rb) x \<longleftrightarrow> x = k \<or> hasThisReadOffset rb x"
  by (auto simp: createReadOffset_def hasThisReadOffset_def)

lemma readers_remove [rb_frame]:
  "hasThisReadOffset (removeReadOffset k rb) x \<longleftrightarrow> x \<noteq> k \<and> hasThisReadOffset rb x"
  by (auto simp: removeReadOffset_def hasThisReadOffset_def split: option.splits)

lemma readers_get [rb_frame]:
  "hasThisReadOffset (snd (RingBuffer_get k rb)) x \<longleftrightarrow> hasThisReadOffset rb x"
  by (auto simp: RingBuffer_get_def Let_def hasThisReadOffset_def split: option.splits)

lemma readers_discard [rb_frame]:
  "hasThisReadOffset (snd (RingBuffer_discard n k rb)) x \<longleftrightarrow> hasThisReadOffset rb x"
  by (auto simp: RingBuffer_discard_def Let_def hasThisReadOffset_def split: option.splits)

lemma readers_flush [rb_frame]:
  "hasThisReadOffset (RingBuffer_flush k rb) x \<longleftrightarrow> hasThisReadOffset rb x"
  "hasThisReadOffset (flushAll rb) x \<longleftrightarrow> hasThisReadOffset rb x"
  by (auto simp: RingBuffer_flush_def storeReadOffset_def flushAll_def hasThisReadOffset_def
      split: option.splits)

lemma readers_meter [rb_frame]:
  "hasThisReadOffset (RingBuffer_setAudioMeterState b rb) x \<longleftrightarrow> hasThisReadOffset rb x"
  by (simp add: RingBuffer_setAudioMeterState_def hasThisReadOffset_def)

lemma rb_id_ops [rb_frame]:
  "rb_id (createReadOffset k rb) = rb_id rb" "rb_id (removeReadOffset k rb) = rb_id rb"
  "rb_id (snd (RingBuffer_get k rb)) = rb_id rb" "rb_id (snd (RingBuffer_discard n k rb)) = rb_id rb"
  "rb_id (RingBuffer_flush k rb) = rb_id rb" "rb_id (flushAll rb) = rb_id rb"
  "rb_id (RingBuffer_setAudioMeterState b rb) = rb_id rb"
  by (auto simp: rb_defs Let_def split: option.splits)

lemma readers_new [rb_frame]: "\<not> hasThisReadOffset (RingBuffer_new av i fmt) x"
  by (simp add: RingBuffer_new_def hasThisReadOffset_def)

lemma rb_id_new [rb_frame]: "rb_id (RingBuffer_new av i fmt) = i"
  by (simp add: RingBuffer_new_def)

section \<open>The queue each reader sees\<close>

definition pending :: "('s, 'q, 'r) ring_buffer \<Rightarrow> string \<Rightarrow> 's audio_frame option list" where
  "pending rb k = window (buffer rb) (getReadOffset rb k) (endPos rb)"

type_synonym 's reader_queues = "nat \<times> (string \<rightharpoonup> 's audio_frame option list)"

text \<open>The abstract state: the number of slots and, for every reader, its pending frames.\<close>

definition reader_queues :: "('s, 'q, 'r) ring_buffer \<Rightarrow> 's reader_queues" where
  "reader_queues rb =
     (length (buffer rb), \<lambda>k. if hasThisReadOffset rb k then Some (pending rb k) else None)"

text \<open>
  What the buffer promises. A new frame goes to the end of every queue, but a reader that
  already has one frame less than the number of slots pending loses all of them.
\<close>

fun queues_step :: "'s reader_queues \<Rightarrow> 's rb_op \<Rightarrow> 's reader_queues" where
  "queues_step (n, Q) (Put f) =
     (n, \<lambda>k. map_option (\<lambda>q. if Suc (length q) = n then [] else q @ [Some f]) (Q k))"
| "queues_step (n, Q) (Get k) = (n, Q(k := map_option tl (Q k)))"
| "queues_step (n, Q) (Discard m k) = (n, Q(k := map_option (drop m) (Q k)))"
| "queues_step (n, Q) (Flush k) = (n, Q(k := map_option (\<lambda>_. []) (Q k)))"
| "queues_step (n, Q) FlushAll = (n, \<lambda>k. map_option (\<lambda>_. []) (Q k))"
| "queues_step (n, Q) (CreateReader k) =
     (n, Q(k := Some (case Q k of None \<Rightarrow> [] | Some q \<Rightarrow> q)))"
| "queues_step (n, Q) (RemoveReader k) = (n, Q(k := None))"
| "queues_step (n, Q) (SetMeter b) = (n, Q)"

lemma reader_queues_alt:
  "reader_queues rb = (length (buffer rb),
     \<lambda>k. map_option (\<lambda>r. window (buffer rb) (offset r) (endPos rb)) (smap_find (readoffsets rb) k))"
  by (auto simp: reader_queues_def hasThisReadOffset_def pending_def getReadOffset_def fun_eq_iff)

lemma queues_put:
  assumes "rb_wf rb"
  shows "reader_queues (fst (putToBuffer rms f rb)) = queues_step (reader_queues rb) (Put f)"
proof -
  have "buffer rb \<noteq> []" and "endPos rb < length (buffer rb)"
    using assms by (auto simp: rb_wf_def)
  moreover have "map_option (\<lambda>r. window ((buffer rb)[endPos rb := Some f]) (offset r)
        ((endPos rb + 1) mod length (buffer rb))) (smap_find (readoffsets rb) k) =
      map_option (\<lambda>q. if Suc (length q) = length (buffer rb) then [] else q @ [Some f])
        (map_option (\<lambda>r. window (buffer rb) (offset r) (endPos rb)) (smap_find (readoffsets rb) k))"
    for k
    using assms window_put [OF \<open>endPos rb < length (buffer rb)\<close>]
    by (cases "smap_find (readoffsets rb) k") (auto dest: rb_wf_find)
  ultimately show ?thesis
    by (simp add: reader_queues_alt putToBuffer_state fun_eq_iff)
qed

lemma queues_move:
  assumes "rb_wf rb" and "smap_find (readoffsets rb) k = Some r"
    and "m \<le> length (window (buffer rb) (offset r) (endPos rb))"
  shows "reader_queues (rb\<lparr>readoffsets :=
           smap_set k (r\<lparr>offset := (offset r + m) mod length (buffer rb)\<rparr>) (readoffsets rb)\<rparr>) =
         queues_step (reader_queues rb) (Discard m k)"
  using assms rb_wf_find [OF assms(1,2)]
  by (auto simp: reader_queues_alt fun_eq_iff window_drop rb_wf_def)

lemma queues_get:
  assumes "rb_wf rb"
  shows "reader_queues (snd (RingBuffer_get k rb)) = queues_step (reader_queues rb) (Get k)"
    and "fst (RingBuffer_get k rb) =
      (case snd (reader_queues rb) k of Some (x # _) \<Rightarrow> x | _ \<Rightarrow> None)"
proof -
  show "reader_queues (snd (RingBuffer_get k rb)) = queues_step (reader_queues rb) (Get k)"
  proof (cases "smap_find (readoffsets rb) k")
    case None
    then show ?thesis
      by (auto simp: RingBuffer_get_def reader_queues_alt fun_eq_iff)
  next
    case (Some r)
    let ?w = "window (buffer rb) (offset r) (endPos rb)"
    show ?thesis
    proof (cases "?w = []")
      case True
      then have "(endPos rb + length (buffer rb) - offset r) mod length (buffer rb) = 0"
        by (metis length_window list.size(3))
      then show ?thesis using Some True
        by (auto simp: RingBuffer_get_def Let_def reader_queues_alt fun_eq_iff)
    next
      case False
      then have "1 \<le> length ?w" by (cases ?w) auto
      then show ?thesis
        using queues_move [OF assms Some, of 1] Some assms
        by (auto simp: RingBuffer_get_def Let_def rb_wf_def reader_queues_alt drop_Suc fun_eq_iff)
    qed
  qed
next
  show "fst (RingBuffer_get k rb) =
      (case snd (reader_queues rb) k of Some (x # _) \<Rightarrow> x | _ \<Rightarrow> None)"
  proof (cases "smap_find (readoffsets rb) k")
    case None
    then show ?thesis by (simp add: RingBuffer_get_def reader_queues_alt)
  next
    case (Some r)
    then have "offset r < length (buffer rb)" using assms by (rule rb_wf_find [rotated])
    with Some show ?thesis
      by (auto simp: RingBuffer_get_def Let_def reader_queues_alt window_def upt_conv_Cons
          split: list.split)
  qed
qed

lemma queues_discard:
  assumes "rb_wf rb"
  shows "reader_queues (snd (RingBuffer_discard m k rb)) = queues_step (reader_queues rb) (Discard m k)"
proof (cases "smap_find (readoffsets rb) k")
  case None
  then show ?thesis by (auto simp: RingBuffer_discard_def Let_def reader_queues_alt fun_eq_iff)
next
  case (Some r)
  let ?w = "window (buffer rb) (offset r) (endPos rb)"
  have "queues_step (reader_queues rb) (Discard (min m (length ?w)) k) =
    queues_step (reader_queues rb) (Discard m k)"
    using Some by (auto simp: reader_queues_alt fun_eq_iff min_def)
  then show ?thesis
    using queues_move [OF assms Some, of "min m (length ?w)"] Some assms
    by (auto simp: RingBuffer_discard_def Let_def rb_wf_def)
qed

lemma queues_step_refines:
  assumes "rb_wf rb"
  shows "reader_queues (rb_step rms rb oper) = queues_step (reader_queues rb) oper"
proof (cases oper)
  case (Put f)
  with assms show ?thesis by (simp add: queues_put)
next
  case (Get k)
  with assms show ?thesis by (simp add: queues_get)
next
  case (Discard n k)
  with assms show ?thesis by (simp add: queues_discard)
next
  case FlushAll
  with assms show ?thesis
    by (simp add: reader_queues_alt flushAll_def rb_wf_def option.map_comp comp_def)
qed (use assms in \<open>auto simp: reader_queues_alt rb_defs rb_wf_def fun_eq_iff split: option.splits\<close>)

interpretation rbq: refinement_machine "rb_step rms" rb_wf reader_queues queues_step
  by unfold_locales (simp_all add: rb_wf_step queues_step_refines)


text \<open>A buffer with one reader, for the witnesses.\<close>

definition demo_rb :: "(int, int list, int) ring_buffer" where
  "demo_rb = createReadOffset ''r'' (RingBuffer_new list_fifo ''mic'' AudioFormat_DEFAULT)"

lemma demo_rb_wf: "rb_wf demo_rb"
  unfolding demo_rb_def by (intro wf_intros)


lemma rb_step_size: "length (buffer (rb_step rms rb oper)) = length (buffer rb)"
  by (cases oper) (auto simp: rb_defs rb_frame RingBuffer_get_def RingBuffer_discard_def putToBuffer_def flushAll_def Let_def split: option.splits)

lemma rb_run_size: "length (buffer (foldl (rb_step rms) rb ops)) = length (buffer rb)"
  by (induction ops arbitrary: rb) (simp_all add: rb_step_size)

text \<open>
  C38: every index of a ring buffer stays inside its storage: from construction on, through any
  operations, there are 16 slots, the write position and every reader's offset are among them, and
  the level meter has collected fewer levels than it reports at once.
\<close>

theorem ring_buffer_stays_in_bounds:
  "let rb = foldl (rb_step rms) (RingBuffer_new av i fmt) ops in
   length (buffer rb) = 16 \<and> endPos rb < 16 \<and> list_all (\<lambda>(k, r). offset r < 16) (readoffsets rb) \<and>
   length (rmsLevel rb) = rmsFrameCount rb \<and> rmsFrameCount rb < RMS_SIGNAL_INTERVAL"
proof -
  let ?rb = "foldl (rb_step rms) (RingBuffer_new av i fmt) ops"
  have "rb_wf ?rb" by (rule rbq.run_inv) (rule rb_wf_new)
  moreover have "length (buffer ?rb) = 16" by (simp add: rb_run_size RingBuffer_new_def)
  ultimately show ?thesis by (auto simp: rb_wf_def list_all_iff Let_def)
qed

text \<open>
  The buffer never counts as full and never makes room. \<^verbatim>\<open>isFull()\<close> is false in every state
  with at least one slot, so \<^verbatim>\<open>putToBuffer\<close> never calls \<^verbatim>\<open>discard(1)\<close> and moves no read offset;
  when a reader has all but one slot pending, the next put makes its length zero: all its frames
  are lost, not the oldest one.
\<close>

theorem overrun_loses_all_frames:
  assumes wf: "rb_wf rb" and reader: "hasThisReadOffset rb k"
    and lag: "getLength rb k = length (buffer rb) - 1"
  shows "\<not> isFull rb \<and> readoffsets (fst (putToBuffer rms f rb)) = readoffsets rb \<and>
    getLength (fst (putToBuffer rms f rb)) k = 0 \<and>
    fst (RingBuffer_get k (fst (putToBuffer rms f rb))) = None"
proof -
  from wf have ne: "buffer rb \<noteq> []" by (auto simp: rb_wf_def)
  from reader obtain r where r: "smap_find (readoffsets rb) k = Some r"
    by (auto simp: hasThisReadOffset_def)
  from ne lag r have "Suc (length (window (buffer rb) (offset r) (endPos rb))) = length (buffer rb)"
    by (auto simp: reader_queues_alt getLength_def getReadOffset_def Let_def)
  then have "snd (queues_step (reader_queues rb) (Put f)) k = Some []"
    by (simp add: reader_queues_alt r)
  then have q: "snd (reader_queues (fst (putToBuffer rms f rb))) k = Some []"
    by (simp add: queues_put [OF wf])
  then have "pending (fst (putToBuffer rms f rb)) k = []"
    by (auto simp: reader_queues_def split: if_splits)
  then have "length (pending (fst (putToBuffer rms f rb)) k) = 0" by (simp only: list.size)
  then have "getLength (fst (putToBuffer rms f rb)) k = 0"
    by (simp only: pending_def length_window getLength_def Let_def if_cancel)
  moreover have "fst (RingBuffer_get k (fst (putToBuffer rms f rb))) = None"
    using queues_get(2) [OF rb_wf_put [OF wf]] q by simp
  ultimately show ?thesis
    using putLength_less [OF ne] putToBuffer_state(3) [OF ne] by (simp add: isFull_def)
qed

definition demo_full :: "(int, int list, int) ring_buffer" where
  "demo_full = demo_rb\<lparr>buffer := replicate 16 (Some demo_frame), endPos := 15\<rparr>"

lemmas demo_rb_defs = demo_full_def demo_rb_def createReadOffset_def hasThisReadOffset_def
  RingBuffer_new_def smap_emplace_def rb_wf_def RMS_SIGNAL_INTERVAL_def getLength_def
  getReadOffset_def

lemma demo_full_state:
  "rb_wf demo_full" "hasThisReadOffset demo_full ''r''" "getLength demo_full ''r'' = 15"
  "length (buffer demo_full) = 16"
  by (simp_all add: demo_rb_defs smap_wf_def)

theorem overrun_loses_all_frames_witness:
  "getLength demo_full ''r'' = 15 \<and>
   getLength (fst (putToBuffer (\<lambda>f. hd (af_samples f)) demo_frame demo_full)) ''r'' = 0"
  using overrun_loses_all_frames [of demo_full "''r''"] demo_full_state by simp

lemma wait_loop_sound:
  "wait_loop k 0 rbs = n \<Longrightarrow> 0 < n \<Longrightarrow>
     \<exists>rb \<in> set rbs. hasThisReadOffset rb k \<and> getLength rb k = n"
proof (induction rbs)
  case Nil
  then show ?case by simp
next
  case (Cons rb rbs)
  then show ?case
    by (auto simp: wait_check_def Let_def hasThisReadOffset_def getLength_def getReadOffset_def
        split: option.splits if_splits)
qed

text \<open>
  When \<^verbatim>\<open>waitForDataAvailable\<close> returns a positive count, one of the states it looked at had
  exactly that many frames pending for the reader.
\<close>

theorem wait_returns_available:
  assumes "RingBuffer_waitForDataAvailable k rb wakeups = n" and "0 < n"
  shows "\<exists>rb' \<in> set (rb # wakeups). hasThisReadOffset rb' k \<and> getLength rb' k = n"
  using assms wait_loop_sound [of k "rb # wakeups" n]
  by (auto simp: RingBuffer_waitForDataAvailable_def split: if_splits)

theorem wait_returns_available_witness:
  "\<exists>rb' \<in> set [demo_rb, demo_full]. hasThisReadOffset rb' ''r'' \<and> getLength rb' ''r'' = 15"
proof -
  have "RingBuffer_waitForDataAvailable ''r'' demo_rb [demo_full] = 15"
    by (simp add: RingBuffer_waitForDataAvailable_def wait_check_def demo_rb_defs)
  then show ?thesis by (rule wait_returns_available) simp
qed

end
