(* ===== verification/Audio_Mix.thy ===== *)
theory Audio_Mix
  imports Audio_Frame_Resizer "HOL-Library.Word"
begin

text \<open>
  Mixing of audio frames, \<^verbatim>\<open>AudioFrame::mix\<close> of \<^verbatim>\<open>src/client/videomanager.cpp\<close>. The addition
  of two sample points depends on the sample format: 16-bit integers saturate, floats use the
  machine's addition, which is the argument \<^verbatim>\<open>fadd\<close>. A sample point is the list of the
  samples of its channels.
\<close>

datatype mix_error = FormatMismatch | LengthMismatch | UnsupportedFormat

datatype 'f sample = S16 "16 word" | FLT 'f

text \<open>\<^verbatim>\<open>std::clamp\<close> to the range of \<^verbatim>\<open>int16_t\<close>, computed on 32-bit integers.\<close>

definition s16_add :: "16 word \<Rightarrow> 16 word \<Rightarrow> 16 word" where
  "s16_add a b =
     (let s = sint a + sint b
      in word_of_int (if s < -32768 then -32768 else if 32767 < s then 32767 else s))"

fun sample_add :: "('f \<Rightarrow> 'f \<Rightarrow> 'f) \<Rightarrow> 'f sample \<Rightarrow> 'f sample \<Rightarrow> 'f sample" where
  "sample_add fadd (S16 a) (S16 b) = S16 (s16_add a b)"
| "sample_add fadd (FLT a) (FLT b) = FLT (fadd a b)"
| "sample_add fadd a b = a"

definition AV_SAMPLE_FMT_S16 :: int where "AV_SAMPLE_FMT_S16 = 1"
definition AV_SAMPLE_FMT_FLT :: int where "AV_SAMPLE_FMT_FLT = 3"
definition AV_SAMPLE_FMT_S16P :: int where "AV_SAMPLE_FMT_S16P = 6"
definition AV_SAMPLE_FMT_FLTP :: int where "AV_SAMPLE_FMT_FLTP = 8"

definition silence :: "'f \<Rightarrow> audio_format \<Rightarrow> 'f sample list" where
  "silence fzero fmt =
     replicate (nb_channels fmt)
       (if sampleFormat fmt = AV_SAMPLE_FMT_S16 \<or> sampleFormat fmt = AV_SAMPLE_FMT_S16P
        then S16 0 else FLT fzero)"

definition AudioFrame_mix ::
  "('f \<Rightarrow> 'f \<Rightarrow> 'f) \<Rightarrow> 'f \<Rightarrow> 'f sample list audio_frame \<Rightarrow> 'f sample list audio_frame \<Rightarrow>
     mix_error + 'f sample list audio_frame" where
  "AudioFrame_mix fadd fzero f fIn =
     (if af_format f \<noteq> af_format fIn then Inl FormatMismatch
      else if af_samples f \<noteq> [] \<and> length (af_samples f) \<noteq> length (af_samples fIn)
      then Inl LengthMismatch
      else
        let own = (if af_samples f = []
                   then replicate (length (af_samples fIn)) (silence fzero (af_format f))
                   else af_samples f);
            fmt = sampleFormat (af_format f)
        in if fmt = AV_SAMPLE_FMT_S16 \<or> fmt = AV_SAMPLE_FMT_S16P \<or>
              fmt = AV_SAMPLE_FMT_FLT \<or> fmt = AV_SAMPLE_FMT_FLTP
           then Inr (f\<lparr>af_samples := map2 (map2 (sample_add fadd)) own (af_samples fIn)\<rparr>)
           else Inl UnsupportedFormat)"

lemma sint_s16_add: "sint (s16_add a b) = max (-32768) (min 32767 (sint a + sint b))"
proof -
  define s where "s = max (-32768) (min 32767 (sint a + sint b))"
  have "s16_add a b = word_of_int s"
    by (auto simp: s16_add_def s_def Let_def min_def max_def)
  moreover have "-32768 \<le> s" and "s < 32768" by (auto simp: s_def)
  ultimately show ?thesis
    by (simp add: s_def [symmetric] sint_sbintrunc' signed_take_bit_int_eq_self)
qed

text \<open>
  Mixing two 16-bit frames of the same format and length never wraps around: the result has
  that format and length, and each of its samples is the exact sum of the two samples, limited
  to the range of a 16-bit integer.
\<close>

theorem mix_s16_saturates:
  assumes "af_format f = af_format g" and "length (af_samples f) = length (af_samples g)"
    and "sampleFormat (af_format f) = AV_SAMPLE_FMT_S16"
    and "i < length (af_samples f)"
    and "af_samples f ! i = map S16 xs" and "af_samples g ! i = map S16 ys"
    and "length xs = length ys" and "c < length xs"
  shows "\<exists>m. AudioFrame_mix fadd fzero f g = Inr m \<and> af_format m = af_format f \<and>
    length (af_samples m) = length (af_samples f) \<and> length (af_samples m ! i) = length xs \<and>
    (\<exists>v. af_samples m ! i ! c = S16 v \<and>
       sint v = max (-32768) (min 32767 (sint (xs ! c) + sint (ys ! c))))"
proof -
  have "af_samples f \<noteq> []" using assms(4) by auto
  with assms(1-3) have "AudioFrame_mix fadd fzero f g =
      Inr (f\<lparr>af_samples := map2 (map2 (sample_add fadd)) (af_samples f) (af_samples g)\<rparr>)"
    by (simp add: AudioFrame_mix_def Let_def)
  moreover have "map2 (map2 (sample_add fadd)) (af_samples f) (af_samples g) ! i =
      map2 (sample_add fadd) (map S16 xs) (map S16 ys)"
    using assms by simp
  ultimately show ?thesis
    using assms by (simp add: sint_s16_add)
qed

definition demo_s16 :: "int \<Rightarrow> nat sample list audio_frame" where
  "demo_s16 n = \<lparr>af_format = AudioFormat_DEFAULT, af_samples = [[S16 (word_of_int n)]],
                 af_pts = 0, has_voice = False\<rparr>"

theorem mix_s16_saturates_witness:
  "\<exists>m v. AudioFrame_mix (+) 0 (demo_s16 30000) (demo_s16 10000) = Inr m \<and>
     af_samples m ! 0 ! 0 = S16 v \<and> sint v = 32767"
proof -
  have "sint (word_of_int 30000 :: 16 word) = 30000" "sint (word_of_int 10000 :: 16 word) = 10000"
    by simp_all
  with mix_s16_saturates [of "demo_s16 30000" "demo_s16 10000" 0 "[word_of_int 30000]"
      "[word_of_int 10000]" 0 "(+)" 0] show ?thesis
    by (auto simp: demo_s16_def AudioFormat_DEFAULT_def AV_SAMPLE_FMT_S16_def)
qed

end
