(* ===== verification/Ring_Buffer_Pool.thy ===== *)
theory Ring_Buffer_Pool
  imports Ring_Buffer Audio_Mix
begin

text \<open>
  The pool of ring buffers of \<^verbatim>\<open>src/media/audio/ringbufferpool.cpp\<close>, which connects the audio
  streams of calls, of the capture and playback devices and of recorders. Ring buffers are
  shared objects: they live in a heap at an address, the pool refers to them weakly by name and
  strongly through the read bindings, and clients own some of them. A weak reference can be
  locked while some strong reference is left. The order of a set of shared pointers is that of
  their addresses. The invariant \<^verbatim>\<open>pool_wf\<close> ties the bindings to the read offsets inside the
  buffers; the theorems are about binding, unbinding and what a reader is given.
\<close>

definition DEFAULT_ID :: string where
  "DEFAULT_ID = ''audiolayer_id''"

record ('s, 'q, 'r) pool =
  heap :: "nat \<Rightarrow> ('s, 'q, 'r) ring_buffer option"
  next_addr :: nat
  owners :: "nat list" \<comment> \<open>the buffers some client outside the pool holds\<close>
  ringBufferMap :: "(string, nat) smap"
  readBindingsMap :: "(string, nat list) smap"
  internalAudioFormat :: audio_format
  defaultRingBuffer :: "nat option"
  localPlaybackMutedIds :: "string list"
  micMutedIds :: "string list"

definition bound :: "('s, 'q, 'r) pool \<Rightarrow> string \<Rightarrow> nat list" where
  "bound p call_id = (case smap_find (readBindingsMap p) call_id of Some bs \<Rightarrow> bs | None \<Rightarrow> [])"

text \<open>Whether a weak pointer to the buffer can be locked.\<close>

definition alive :: "('s, 'q, 'r) pool \<Rightarrow> nat \<Rightarrow> bool" where
  "alive p a \<longleftrightarrow> a \<in> set (owners p) \<or> defaultRingBuffer p = Some a \<or>
     list_ex (\<lambda>(_, bs). a \<in> set bs) (readBindingsMap p)"

definition upd_rb ::
  "nat \<Rightarrow> (('s, 'q, 'r) ring_buffer \<Rightarrow> ('s, 'q, 'r) ring_buffer) \<Rightarrow> ('s, 'q, 'r) pool \<Rightarrow>
     ('s, 'q, 'r) pool" where
  "upd_rb a g p = p\<lparr>heap := (heap p)(a := map_option g (heap p a))\<rparr>"

definition rb_name :: "('s, 'q, 'r) pool \<Rightarrow> nat \<Rightarrow> string" where
  "rb_name p a = (case heap p a of Some rb \<Rightarrow> rb_id rb | None \<Rightarrow> [])"

section \<open>Names\<close>

definition getRingBuffer :: "string \<Rightarrow> ('s, 'q, 'r) pool \<Rightarrow> nat option \<times> ('s, 'q, 'r) pool" where
  "getRingBuffer i p =
     (case smap_find (ringBufferMap p) i of
        Some a \<Rightarrow>
          if alive p a then (Some a, p)
          else (None, p\<lparr>ringBufferMap := smap_erase i (ringBufferMap p)\<rparr>)
      | None \<Rightarrow> (None, p))"

definition getRingBuffer_const :: "string \<Rightarrow> ('s, 'q, 'r) pool \<Rightarrow> nat option" where
  "getRingBuffer_const i p =
     (case smap_find (ringBufferMap p) i of
        Some a \<Rightarrow> if alive p a then Some a else None
      | None \<Rightarrow> None)"

text \<open>The caller receives a shared pointer: it becomes an owner.\<close>

definition createRingBuffer ::
  "('q, 's) av_fifo \<Rightarrow> string \<Rightarrow> ('s, 'q, 'r) pool \<Rightarrow> nat \<times> ('s, 'q, 'r) pool" where
  "createRingBuffer av i p =
     (case getRingBuffer i p of
        (Some a, p1) \<Rightarrow> (a, p1\<lparr>owners := sset_insert a (owners p1)\<rparr>)
      | (None, p1) \<Rightarrow>
          let a = next_addr p1 in
          (a, p1\<lparr>heap := (heap p1)(a \<mapsto> RingBuffer_new av i (internalAudioFormat p1)),
                 next_addr := a + 1,
                 owners := sset_insert a (owners p1),
                 ringBufferMap := smap_emplace i a (ringBufferMap p1)\<rparr>))"

definition release :: "nat \<Rightarrow> ('s, 'q, 'r) pool \<Rightarrow> ('s, 'q, 'r) pool" where
  "release a p = p\<lparr>owners := sset_erase a (owners p)\<rparr>"

definition RingBufferPool_new :: "('q, 's) av_fifo \<Rightarrow> ('s, 'q, 'r) pool" where
  "RingBufferPool_new av =
     (let p0 = \<lparr>heap = Map.empty, next_addr = 0, owners = [], ringBufferMap = [],
                readBindingsMap = [], internalAudioFormat = AudioFormat_DEFAULT,
                defaultRingBuffer = None, localPlaybackMutedIds = [], micMutedIds = []\<rparr>;
          (a, p1) = createRingBuffer av DEFAULT_ID p0
      in release a (p1\<lparr>defaultRingBuffer := Some a\<rparr>))"

section \<open>Bindings\<close>

definition removeReadBindings :: "string \<Rightarrow> ('s, 'q, 'r) pool \<Rightarrow> ('s, 'q, 'r) pool" where
  "removeReadBindings call_id p = p\<lparr>readBindingsMap := smap_erase call_id (readBindingsMap p)\<rparr>"

definition addReaderToRingBuffer :: "nat \<Rightarrow> string \<Rightarrow> ('s, 'q, 'r) pool \<Rightarrow> ('s, 'q, 'r) pool" where
  "addReaderToRingBuffer a call_id p =
     (let p1 = upd_rb a (createReadOffset call_id) p
      in p1\<lparr>readBindingsMap :=
              smap_set call_id (sset_insert a (bound p1 call_id)) (readBindingsMap p1)\<rparr>)"

definition removeReaderFromRingBuffer ::
  "nat \<Rightarrow> string \<Rightarrow> ('s, 'q, 'r) pool \<Rightarrow> ('s, 'q, 'r) pool" where
  "removeReaderFromRingBuffer a call_id p =
     (let p1 = (case smap_find (readBindingsMap p) call_id of
                  None \<Rightarrow> p
                | Some bs \<Rightarrow>
                    let p' = p\<lparr>readBindingsMap :=
                               smap_set call_id (sset_erase a bs) (readBindingsMap p)\<rparr>
                    in if sset_erase a bs = [] then removeReadBindings call_id p' else p')
      in upd_rb a (removeReadOffset call_id) p1)"

text \<open>Both buffers are looked up first; the operation does nothing unless both exist.\<close>

definition with_two_buffers ::
  "string \<Rightarrow> string \<Rightarrow> (nat \<Rightarrow> nat \<Rightarrow> ('s, 'q, 'r) pool \<Rightarrow> ('s, 'q, 'r) pool) \<Rightarrow>
     ('s, 'q, 'r) pool \<Rightarrow> ('s, 'q, 'r) pool" where
  "with_two_buffers id1 id2 body p =
     (case getRingBuffer id1 p of
        (None, p1) \<Rightarrow> p1
      | (Some a1, p1) \<Rightarrow>
          (case getRingBuffer id2 p1 of
             (None, p2) \<Rightarrow> p2
           | (Some a2, p2) \<Rightarrow> body a1 a2 p2))"

definition bindCallID :: "string \<Rightarrow> string \<Rightarrow> ('s, 'q, 'r) pool \<Rightarrow> ('s, 'q, 'r) pool" where
  "bindCallID id1 id2 p =
     with_two_buffers id1 id2
       (\<lambda>a1 a2 p. addReaderToRingBuffer a2 id1 (addReaderToRingBuffer a1 id2 p)) p"

definition bindHalfDuplexOut :: "string \<Rightarrow> string \<Rightarrow> ('s, 'q, 'r) pool \<Rightarrow> ('s, 'q, 'r) pool" where
  "bindHalfDuplexOut process_id call_id p =
     (case getRingBuffer call_id p of
        (Some a, p1) \<Rightarrow> addReaderToRingBuffer a process_id p1
      | (None, p1) \<Rightarrow> p1)"

definition unBindCallID :: "string \<Rightarrow> string \<Rightarrow> ('s, 'q, 'r) pool \<Rightarrow> ('s, 'q, 'r) pool" where
  "unBindCallID id1 id2 p =
     with_two_buffers id1 id2
       (\<lambda>a1 a2 p. removeReaderFromRingBuffer a2 id1 (removeReaderFromRingBuffer a1 id2 p)) p"

definition unBindHalfDuplexOut :: "string \<Rightarrow> string \<Rightarrow> ('s, 'q, 'r) pool \<Rightarrow> ('s, 'q, 'r) pool" where
  "unBindHalfDuplexOut process_id call_id p =
     (case getRingBuffer call_id p of
        (Some a, p1) \<Rightarrow> removeReaderFromRingBuffer a process_id p1
      | (None, p1) \<Rightarrow> p1)"

definition unBindAllHalfDuplexOut :: "string \<Rightarrow> ('s, 'q, 'r) pool \<Rightarrow> ('s, 'q, 'r) pool" where
  "unBindAllHalfDuplexOut call_id p =
     (case getRingBuffer call_id p of
        (None, p1) \<Rightarrow> p1
      | (Some rb_call, p1) \<Rightarrow>
          (case smap_find (readBindingsMap p1) call_id of
             None \<Rightarrow> p1
           | Some bindings_copy \<Rightarrow>
               foldl (\<lambda>p a. removeReaderFromRingBuffer rb_call (rb_name p a) p) p1 bindings_copy))"

definition unBindAll :: "string \<Rightarrow> ('s, 'q, 'r) pool \<Rightarrow> ('s, 'q, 'r) pool" where
  "unBindAll call_id p =
     (case getRingBuffer call_id p of
        (None, p1) \<Rightarrow> p1
      | (Some rb_call, p1) \<Rightarrow>
          (case smap_find (readBindingsMap p1) call_id of
             None \<Rightarrow> p1
           | Some bindings_copy \<Rightarrow>
               foldl (\<lambda>p a. removeReaderFromRingBuffer rb_call (rb_name p a)
                              (removeReaderFromRingBuffer a call_id p)) p1 bindings_copy))"

section \<open>Muting\<close>

definition setLocalPlaybackMuted :: "string \<Rightarrow> bool \<Rightarrow> ('s, 'q, 'r) pool \<Rightarrow> ('s, 'q, 'r) pool" where
  "setLocalPlaybackMuted i muted p =
     p\<lparr>localPlaybackMutedIds :=
        (if muted then sset_insert i (localPlaybackMutedIds p)
         else sset_erase i (localPlaybackMutedIds p))\<rparr>"

definition setMicMuted :: "string \<Rightarrow> bool \<Rightarrow> ('s, 'q, 'r) pool \<Rightarrow> ('s, 'q, 'r) pool" where
  "setMicMuted i muted p =
     p\<lparr>micMutedIds :=
        (if muted then sset_insert i (micMutedIds p) else sset_erase i (micMutedIds p))\<rparr>"

text \<open>One read of a buffer of the pool.\<close>

definition pool_get ::
  "nat \<Rightarrow> string \<Rightarrow> ('s, 'q, 'r) pool \<Rightarrow> 's audio_frame option \<times> ('s, 'q, 'r) pool" where
  "pool_get a call_id p =
     (case heap p a of
        None \<Rightarrow> (None, p)
      | Some rb \<Rightarrow>
          let (f, rb') = RingBuffer_get call_id rb in (f, p\<lparr>heap := (heap p)(a \<mapsto> rb')\<rparr>))"

definition skipMutedBuffer ::
  "nat \<Rightarrow> string \<Rightarrow> bool \<Rightarrow> bool \<Rightarrow> ('s, 'q, 'r) pool \<Rightarrow> bool \<times> ('s, 'q, 'r) pool" where
  "skipMutedBuffer a call_id filterPlayback filterMic p =
     (if filterPlayback \<and> rb_name p a \<in> set (localPlaybackMutedIds p) then (True, p)
      else if filterMic \<and> rb_name p a = DEFAULT_ID then (True, snd (pool_get a call_id p))
      else (False, p))"

definition filter_playback :: "string \<Rightarrow> ('s, 'q, 'r) pool \<Rightarrow> bool" where
  "filter_playback call_id p \<longleftrightarrow> call_id = DEFAULT_ID \<and> localPlaybackMutedIds p \<noteq> []"

definition filter_mic :: "string \<Rightarrow> ('s, 'q, 'r) pool \<Rightarrow> bool" where
  "filter_mic call_id p \<longleftrightarrow> call_id \<noteq> DEFAULT_ID \<and> call_id \<in> set (micMutedIds p)"

section \<open>Reading\<close>

text \<open>Read one buffer unless it is muted for this reader.\<close>

definition read_buffer ::
  "nat \<Rightarrow> string \<Rightarrow> bool \<Rightarrow> bool \<Rightarrow> ('s, 'q, 'r) pool \<Rightarrow>
     's audio_frame option \<times> ('s, 'q, 'r) pool" where
  "read_buffer a call_id fp fm p =
     (let (skip, p1) = skipMutedBuffer a call_id fp fm p
      in if skip then (None, p1) else pool_get a call_id p1)"

text \<open>
  The mixing loop over the bindings. \<^verbatim>\<open>mx\<close> is the mixing of two frames, which throws on frames
  of different formats or lengths; the exception leaves the buffers read so far as they are.
\<close>

fun mix_loop ::
  "('s audio_frame \<Rightarrow> 's audio_frame \<Rightarrow> mix_error + 's audio_frame) \<Rightarrow> string \<Rightarrow> bool \<Rightarrow> bool \<Rightarrow>
     nat list \<Rightarrow> 's audio_frame \<Rightarrow> bool \<Rightarrow> ('s, 'q, 'r) pool \<Rightarrow>
     (mix_error + 's audio_frame \<times> bool) \<times> ('s, 'q, 'r) pool" where
  "mix_loop mx call_id fp fm [] mixBuffer mixed p = (Inr (mixBuffer, mixed), p)"
| "mix_loop mx call_id fp fm (a # as) mixBuffer mixed p =
     (let (f, p1) = read_buffer a call_id fp fm p in
      case f of
        None \<Rightarrow> mix_loop mx call_id fp fm as mixBuffer mixed p1
      | Some b \<Rightarrow>
          (case mx mixBuffer b of
             Inl e \<Rightarrow> (Inl e, p1)
           | Inr m \<Rightarrow>
               mix_loop mx call_id fp fm as (m\<lparr>has_voice := has_voice m \<or> has_voice b\<rparr>) True p1))"

definition empty_frame :: "('s, 'q, 'r) pool \<Rightarrow> 's audio_frame" where
  "empty_frame p =
     \<lparr>af_format = internalAudioFormat p, af_samples = [], af_pts = 0, has_voice = False\<rparr>"

definition getData ::
  "('s audio_frame \<Rightarrow> 's audio_frame \<Rightarrow> mix_error + 's audio_frame) \<Rightarrow> string \<Rightarrow>
     ('s, 'q, 'r) pool \<Rightarrow> (mix_error + 's audio_frame option) \<times> ('s, 'q, 'r) pool" where
  "getData mx call_id p =
     (case smap_find (readBindingsMap p) call_id of
        None \<Rightarrow> (Inr None, p)
      | Some bindings \<Rightarrow>
          let fp = filter_playback call_id p; fm = filter_mic call_id p in
          if length bindings = 1
          then let (f, p1) = read_buffer (hd bindings) call_id fp fm p in (Inr f, p1)
          else
            let (r, p1) = mix_loop mx call_id fp fm bindings (empty_frame p) False p
            in (map_sum id (\<lambda>(m, mixed). if mixed then Some m else None) r, p1))"

text \<open>
  \<^verbatim>\<open>std::numeric_limits<size_t>::max()\<close>, the value of \<^verbatim>\<open>availableFrames\<close> before any buffer
  with data was seen.
\<close>

definition SIZE_MAX :: nat where
  "SIZE_MAX = 18446744073709551615"

definition available_in :: "nat \<Rightarrow> string \<Rightarrow> ('s, 'q, 'r) pool \<Rightarrow> nat" where
  "available_in a call_id p =
     (case heap p a of Some rb \<Rightarrow> RingBuffer_availableForGet rb call_id | None \<Rightarrow> 0)"

fun available_loop ::
  "string \<Rightarrow> bool \<Rightarrow> bool \<Rightarrow> nat list \<Rightarrow> nat \<Rightarrow> ('s, 'q, 'r) pool \<Rightarrow> nat \<times> ('s, 'q, 'r) pool" where
  "available_loop call_id fp fm [] n p = (n, p)"
| "available_loop call_id fp fm (a # as) n p =
     (let (skip, p1) = skipMutedBuffer a call_id fp fm p;
          nb = available_in a call_id p1
      in available_loop call_id fp fm as (if \<not> skip \<and> nb \<noteq> 0 then min n nb else n) p1)"

definition getAvailableData ::
  "('s audio_frame \<Rightarrow> 's audio_frame \<Rightarrow> mix_error + 's audio_frame) \<Rightarrow> string \<Rightarrow>
     ('s, 'q, 'r) pool \<Rightarrow> (mix_error + 's audio_frame option) \<times> ('s, 'q, 'r) pool" where
  "getAvailableData mx call_id p =
     (case smap_find (readBindingsMap p) call_id of
        None \<Rightarrow> (Inr None, p)
      | Some bindings \<Rightarrow>
          let fp = filter_playback call_id p; fm = filter_mic call_id p in
          if length bindings = 1
          then let (f, p1) = read_buffer (hd bindings) call_id fp fm p in (Inr f, p1)
          else
            let (n, p1) = available_loop call_id fp fm bindings SIZE_MAX p in
            if n = SIZE_MAX then (Inr None, p1)
            else
              let (r, p2) = mix_loop mx call_id fp fm bindings (empty_frame p1) False p1
              in (map_sum id (\<lambda>(m, _). Some m) r, p2))"

fun available_min :: "string \<Rightarrow> bool \<Rightarrow> nat list \<Rightarrow> nat \<Rightarrow> ('s, 'q, 'r) pool \<Rightarrow> nat" where
  "available_min call_id fp [] n p = n"
| "available_min call_id fp (a # as) n p =
     (if fp \<and> rb_name p a \<in> set (localPlaybackMutedIds p) then available_min call_id fp as n p
      else let nb = available_in a call_id p
           in available_min call_id fp as (if nb \<noteq> 0 then min n nb else n) p)"

definition RingBufferPool_availableForGet :: "string \<Rightarrow> ('s, 'q, 'r) pool \<Rightarrow> nat" where
  "RingBufferPool_availableForGet call_id p =
     (case smap_find (readBindingsMap p) call_id of
        None \<Rightarrow> 0
      | Some bindings \<Rightarrow>
          let fp = filter_playback call_id p in
          if length bindings = 1
          then if fp \<and> rb_name p (hd bindings) \<in> set (localPlaybackMutedIds p) then 0
               else available_in (hd bindings) call_id p
          else let n = available_min call_id fp bindings SIZE_MAX p
               in if n \<noteq> SIZE_MAX then n else 0)"

definition RingBufferPool_discard :: "nat \<Rightarrow> string \<Rightarrow> ('s, 'q, 'r) pool \<Rightarrow> nat \<times> ('s, 'q, 'r) pool" where
  "RingBufferPool_discard toDiscard call_id p =
     (case smap_find (readBindingsMap p) call_id of
        None \<Rightarrow> (0, p)
      | Some bindings \<Rightarrow>
          (toDiscard,
           foldl (\<lambda>p a. upd_rb a (\<lambda>rb. snd (RingBuffer_discard toDiscard call_id rb)) p) p bindings))"

definition RingBufferPool_flush :: "string \<Rightarrow> ('s, 'q, 'r) pool \<Rightarrow> ('s, 'q, 'r) pool" where
  "RingBufferPool_flush call_id p =
     (case smap_find (readBindingsMap p) call_id of
        None \<Rightarrow> p
      | Some bindings \<Rightarrow> foldl (\<lambda>p a. upd_rb a (RingBuffer_flush call_id) p) p bindings)"

definition flushAllBuffers :: "('s, 'q, 'r) pool \<Rightarrow> ('s, 'q, 'r) pool" where
  "flushAllBuffers p =
     foldl (\<lambda>p (i, a). if alive p a then upd_rb a flushAll p
                       else p\<lparr>ringBufferMap := smap_erase i (ringBufferMap p)\<rparr>)
       p (ringBufferMap p)"

definition setInternalSamplingRate :: "nat \<Rightarrow> ('s, 'q, 'r) pool \<Rightarrow> ('s, 'q, 'r) pool" where
  "setInternalSamplingRate sr p =
     (if sr \<noteq> sample_rate (internalAudioFormat p) then
        let p1 = flushAllBuffers p
        in p1\<lparr>internalAudioFormat := (internalAudioFormat p1)\<lparr>sample_rate := sr\<rparr>\<rparr>
      else p)"

fun set_formats ::
  "('q, 's) av_fifo \<Rightarrow> ('s audio_frame \<Rightarrow> 'r) \<Rightarrow> audio_format \<Rightarrow> nat list \<Rightarrow> ('s, 'q, 'r) pool \<Rightarrow>
     ('s, 'q, 'r) pool option" where
  "set_formats av rms fmt [] p = Some p"
| "set_formats av rms fmt (a # as) p =
     (if alive p a then
        (case heap p a of
           None \<Rightarrow> set_formats av rms fmt as p
         | Some rb \<Rightarrow>
             (case RingBuffer_setFormat av rms fmt rb of
                None \<Rightarrow> None
              | Some (rb', _) \<Rightarrow> set_formats av rms fmt as (p\<lparr>heap := (heap p)(a \<mapsto> rb')\<rparr>)))
      else set_formats av rms fmt as p)"

definition setInternalAudioFormat ::
  "('q, 's) av_fifo \<Rightarrow> ('s audio_frame \<Rightarrow> 'r) \<Rightarrow> audio_format \<Rightarrow> ('s, 'q, 'r) pool \<Rightarrow>
     ('s, 'q, 'r) pool option" where
  "setInternalAudioFormat av rms fmt p =
     (if fmt \<noteq> internalAudioFormat p then
        let p1 = (flushAllBuffers p)\<lparr>internalAudioFormat := fmt\<rparr>
        in set_formats av rms fmt (map snd (ringBufferMap p1)) p1
      else Some p)"

definition isAudioMeterActive :: "string \<Rightarrow> ('s, 'q, 'r) pool \<Rightarrow> bool \<times> ('s, 'q, 'r) pool" where
  "isAudioMeterActive i p =
     (if i \<noteq> [] then
        (case getRingBuffer i p of
           (Some a, p1) \<Rightarrow> (case heap p1 a of Some rb \<Rightarrow> rmsSignal rb | None \<Rightarrow> False, p1)
         | (None, p1) \<Rightarrow> (False, p1))
      else (list_ex (\<lambda>(_, a). alive p a \<and>
              (case heap p a of Some rb \<Rightarrow> rmsSignal rb | None \<Rightarrow> False)) (ringBufferMap p), p))"

definition setAudioMeterState :: "string \<Rightarrow> bool \<Rightarrow> ('s, 'q, 'r) pool \<Rightarrow> ('s, 'q, 'r) pool" where
  "setAudioMeterState i st p =
     (if i \<noteq> [] then
        (case getRingBuffer i p of
           (Some a, p1) \<Rightarrow> upd_rb a (RingBuffer_setAudioMeterState st) p1
         | (None, p1) \<Rightarrow> p1)
      else foldl (\<lambda>p (_, a). if alive p a then upd_rb a (RingBuffer_setAudioMeterState st) p else p)
             p (ringBufferMap p))"

text \<open>
  \<^verbatim>\<open>waitForDataAvailable\<close> waits on each bound buffer in turn; \<^verbatim>\<open>obs a\<close> is buffer \<^verbatim>\<open>a\<close> when its
  turn comes and at each wake-up of that wait.
\<close>

definition RingBufferPool_waitForDataAvailable ::
  "string \<Rightarrow> (nat \<Rightarrow> ('s, 'q, 'r) ring_buffer \<times> ('s, 'q, 'r) ring_buffer list) \<Rightarrow>
     ('s, 'q, 'r) pool \<Rightarrow> bool" where
  "RingBufferPool_waitForDataAvailable call_id obs p =
     (case smap_find (readBindingsMap p) call_id of
        None \<Rightarrow> False
      | Some bindings \<Rightarrow>
          list_all (\<lambda>a. RingBuffer_waitForDataAvailable call_id (fst (obs a)) (snd (obs a)) \<noteq> 0)
            bindings)"

section \<open>The invariant of the pool\<close>

definition pool_wf :: "('s, 'q, 'r) pool \<Rightarrow> bool" where
  "pool_wf p \<longleftrightarrow>
     smap_wf (ringBufferMap p) \<and> smap_wf (readBindingsMap p) \<and>
     (\<forall>k bs. smap_find (readBindingsMap p) k = Some bs \<longrightarrow> bs \<noteq> [] \<and> sset_wf bs) \<and>
     (\<forall>a rb. heap p a = Some rb \<longrightarrow>
        a < next_addr p \<and> rb_wf rb \<and> (\<forall>k. hasThisReadOffset rb k \<longleftrightarrow> a \<in> set (bound p k))) \<and>
     (\<forall>a. alive p a \<longrightarrow>
        (\<exists>rb. heap p a = Some rb \<and> smap_find (ringBufferMap p) (rb_id rb) = Some a)) \<and>
     (\<forall>i a. smap_find (ringBufferMap p) i = Some a \<longrightarrow> (\<exists>rb. heap p a = Some rb \<and> rb_id rb = i))"

lemma list_ex_bound:
  assumes "smap_wf (readBindingsMap p)"
  shows "list_ex (\<lambda>(_, bs). a \<in> set bs) (readBindingsMap p) \<longleftrightarrow> (\<exists>k. a \<in> set (bound p k))"
proof -
  have "(\<exists>k. a \<in> set (bound p k)) \<longleftrightarrow> (\<exists>k bs. smap_find (readBindingsMap p) k = Some bs \<and> a \<in> set bs)"
    by (auto simp: bound_def split: option.splits) metis+
  with assms show ?thesis
    by (auto simp: list_ex_iff smap_find_iff)
qed

lemma alive_iff:
  "smap_wf (readBindingsMap p) \<Longrightarrow>
     alive p a \<longleftrightarrow> a \<in> set (owners p) \<or> defaultRingBuffer p = Some a \<or> (\<exists>k. a \<in> set (bound p k))"
  by (simp add: alive_def list_ex_bound)

lemma pool_wf_smaps: "pool_wf p \<Longrightarrow> smap_wf (ringBufferMap p) \<and> smap_wf (readBindingsMap p)"
  by (simp add: pool_wf_def)

lemma pool_wf_heap:
  "pool_wf p \<Longrightarrow> heap p a = Some rb \<Longrightarrow>
     a < next_addr p \<and> rb_wf rb \<and> (\<forall>k. hasThisReadOffset rb k \<longleftrightarrow> a \<in> set (bound p k))"
  by (simp add: pool_wf_def)

lemma pool_wf_alive:
  "pool_wf p \<Longrightarrow> alive p a \<Longrightarrow>
     \<exists>rb. heap p a = Some rb \<and> smap_find (ringBufferMap p) (rb_id rb) = Some a"
  by (simp add: pool_wf_def)

lemma pool_wf_bound:
  "pool_wf p \<Longrightarrow> a \<in> set (bound p k) \<Longrightarrow> \<exists>rb. heap p a = Some rb \<and> hasThisReadOffset rb k"
  by (metis alive_iff pool_wf_alive pool_wf_heap pool_wf_smaps)

subsection \<open>How the primitive operations change the pool\<close>

lemma upd_rb_fields [simp]:
  "heap (upd_rb a g p) = (heap p)(a := map_option g (heap p a))"
  "next_addr (upd_rb a g p) = next_addr p" "owners (upd_rb a g p) = owners p"
  "ringBufferMap (upd_rb a g p) = ringBufferMap p"
  "readBindingsMap (upd_rb a g p) = readBindingsMap p"
  "internalAudioFormat (upd_rb a g p) = internalAudioFormat p"
  "defaultRingBuffer (upd_rb a g p) = defaultRingBuffer p"
  "localPlaybackMutedIds (upd_rb a g p) = localPlaybackMutedIds p"
  "micMutedIds (upd_rb a g p) = micMutedIds p"
  "bound (upd_rb a g p) k = bound p k" "alive (upd_rb a g p) x = alive p x"
  by (simp_all add: upd_rb_def bound_def alive_def)

lemma add_fields [simp]:
  "heap (addReaderToRingBuffer a k p) = (heap p)(a := map_option (createReadOffset k) (heap p a))"
  "next_addr (addReaderToRingBuffer a k p) = next_addr p"
  "owners (addReaderToRingBuffer a k p) = owners p"
  "ringBufferMap (addReaderToRingBuffer a k p) = ringBufferMap p"
  "defaultRingBuffer (addReaderToRingBuffer a k p) = defaultRingBuffer p"
  "bound (addReaderToRingBuffer a k p) = (bound p)(k := sset_insert a (bound p k))"
  by (auto simp: addReaderToRingBuffer_def Let_def bound_def fun_eq_iff split: option.splits)

lemma remove_fields [simp]:
  "heap (removeReaderFromRingBuffer a k p) = (heap p)(a := map_option (removeReadOffset k) (heap p a))"
  "next_addr (removeReaderFromRingBuffer a k p) = next_addr p"
  "owners (removeReaderFromRingBuffer a k p) = owners p"
  "ringBufferMap (removeReaderFromRingBuffer a k p) = ringBufferMap p"
  "defaultRingBuffer (removeReaderFromRingBuffer a k p) = defaultRingBuffer p"
  "bound (removeReaderFromRingBuffer a k p) = (bound p)(k := sset_erase a (bound p k))"
  by (auto simp: removeReaderFromRingBuffer_def removeReadBindings_def Let_def bound_def
      fun_eq_iff sset_erase_def split: option.splits)

lemma smap_wf_add [simp]:
  "smap_wf (readBindingsMap p) \<Longrightarrow> smap_wf (readBindingsMap (addReaderToRingBuffer a k p))"
  "smap_wf (readBindingsMap p) \<Longrightarrow> smap_wf (readBindingsMap (removeReaderFromRingBuffer a k p))"
  by (auto simp: addReaderToRingBuffer_def removeReaderFromRingBuffer_def removeReadBindings_def
      Let_def split: option.splits)

lemma alive_add:
  "smap_wf (readBindingsMap p) \<Longrightarrow> alive (addReaderToRingBuffer a k p) x \<longleftrightarrow> x = a \<or> alive p x"
  by (auto simp: alive_iff)

lemma alive_remove:
  "smap_wf (readBindingsMap p) \<Longrightarrow> alive (removeReaderFromRingBuffer a k p) x \<Longrightarrow> alive p x"
  by (auto simp: alive_iff split: if_splits)

lemma bindings_wf_add:
  assumes "\<forall>k bs. smap_find (readBindingsMap p) k = Some bs \<longrightarrow> bs \<noteq> [] \<and> sset_wf bs"
  shows "\<forall>k bs. smap_find (readBindingsMap (addReaderToRingBuffer a j p)) k = Some bs \<longrightarrow>
    bs \<noteq> [] \<and> sset_wf bs"
  using assms
  by (auto simp: addReaderToRingBuffer_def Let_def bound_def upd_rb_def split: option.splits)

lemma bindings_wf_remove:
  assumes "\<forall>k bs. smap_find (readBindingsMap p) k = Some bs \<longrightarrow> bs \<noteq> [] \<and> sset_wf bs"
  shows "\<forall>k bs. smap_find (readBindingsMap (removeReaderFromRingBuffer a j p)) k = Some bs \<longrightarrow>
    bs \<noteq> [] \<and> sset_wf bs"
  using assms
  by (auto simp: removeReaderFromRingBuffer_def removeReadBindings_def Let_def upd_rb_def
      split: option.splits if_splits)

lemma pool_wfI:
  assumes "smap_wf (ringBufferMap p)" and "smap_wf (readBindingsMap p)"
    and "\<forall>k bs. smap_find (readBindingsMap p) k = Some bs \<longrightarrow> bs \<noteq> [] \<and> sset_wf bs"
    and "\<And>a rb. heap p a = Some rb \<Longrightarrow> a < next_addr p"
    and "\<And>a rb. heap p a = Some rb \<Longrightarrow> rb_wf rb"
    and "\<And>a rb k. heap p a = Some rb \<Longrightarrow> hasThisReadOffset rb k \<longleftrightarrow> a \<in> set (bound p k)"
    and "\<And>a. alive p a \<Longrightarrow> \<exists>rb. heap p a = Some rb \<and> smap_find (ringBufferMap p) (rb_id rb) = Some a"
    and "\<And>i a. smap_find (ringBufferMap p) i = Some a \<Longrightarrow> \<exists>rb. heap p a = Some rb \<and> rb_id rb = i"
  shows "pool_wf p"
  using assms unfolding pool_wf_def by blast

lemma pool_wfD:
  assumes "pool_wf p"
  shows "smap_wf (ringBufferMap p)" and "smap_wf (readBindingsMap p)"
    and "\<forall>k bs. smap_find (readBindingsMap p) k = Some bs \<longrightarrow> bs \<noteq> [] \<and> sset_wf bs"
    and "\<And>a rb. heap p a = Some rb \<Longrightarrow> a < next_addr p"
    and "\<And>a rb. heap p a = Some rb \<Longrightarrow> rb_wf rb"
    and "\<And>a rb k. heap p a = Some rb \<Longrightarrow> hasThisReadOffset rb k \<longleftrightarrow> a \<in> set (bound p k)"
    and "\<And>a. alive p a \<Longrightarrow> \<exists>rb. heap p a = Some rb \<and> smap_find (ringBufferMap p) (rb_id rb) = Some a"
    and "\<And>i a. smap_find (ringBufferMap p) i = Some a \<Longrightarrow> \<exists>rb. heap p a = Some rb \<and> rb_id rb = i"
  using assms unfolding pool_wf_def by blast+

lemma pool_wf_add [wf_intros]:
  assumes "pool_wf p" and "alive p a"
  shows "pool_wf (addReaderToRingBuffer a k p)"
proof (rule pool_wfI)
  note wf = pool_wfD [OF assms(1)]
  fix x i rb j
  show "smap_wf (ringBufferMap (addReaderToRingBuffer a k p))"
    and "smap_wf (readBindingsMap (addReaderToRingBuffer a k p))" using wf by simp_all
  show "\<forall>j bs. smap_find (readBindingsMap (addReaderToRingBuffer a k p)) j = Some bs \<longrightarrow>
    bs \<noteq> [] \<and> sset_wf bs" by (rule bindings_wf_add [OF wf(3)])
  show "\<exists>rb. heap (addReaderToRingBuffer a k p) x = Some rb \<and>
      smap_find (ringBufferMap (addReaderToRingBuffer a k p)) (rb_id rb) = Some x"
    if "alive (addReaderToRingBuffer a k p) x"
    using that wf(2) wf(7) [of x] wf(7) [OF assms(2)] by (auto simp: alive_add rb_frame)
  show "\<exists>rb. heap (addReaderToRingBuffer a k p) x = Some rb \<and> rb_id rb = i"
    if "smap_find (ringBufferMap (addReaderToRingBuffer a k p)) i = Some x"
    using that wf(8) [of i x] by (auto simp: rb_frame)
  assume "heap (addReaderToRingBuffer a k p) x = Some rb"
  then obtain rb0 where h: "heap p x = Some rb0"
    and rb: "rb = (if x = a then createReadOffset k rb0 else rb0)" by (auto split: if_splits)
  show "x < next_addr (addReaderToRingBuffer a k p)" using wf(4) [OF h] by simp
  show "rb_wf rb" using wf(5) [OF h] rb by (simp add: rb_wf_create)
  show "hasThisReadOffset rb j \<longleftrightarrow> x \<in> set (bound (addReaderToRingBuffer a k p) j)"
    using wf(6) [OF h] rb by (auto simp: rb_frame)
qed

lemma pool_wf_remove [wf_intros]:
  assumes "pool_wf p"
  shows "pool_wf (removeReaderFromRingBuffer a k p)"
proof (rule pool_wfI)
  note wf = pool_wfD [OF assms(1)]
  fix x i rb j
  show "smap_wf (ringBufferMap (removeReaderFromRingBuffer a k p))"
    and "smap_wf (readBindingsMap (removeReaderFromRingBuffer a k p))" using wf by simp_all
  show "\<forall>j bs. smap_find (readBindingsMap (removeReaderFromRingBuffer a k p)) j = Some bs \<longrightarrow>
    bs \<noteq> [] \<and> sset_wf bs" by (rule bindings_wf_remove [OF wf(3)])
  show "\<exists>rb. heap (removeReaderFromRingBuffer a k p) x = Some rb \<and>
      smap_find (ringBufferMap (removeReaderFromRingBuffer a k p)) (rb_id rb) = Some x"
    if "alive (removeReaderFromRingBuffer a k p) x"
    using alive_remove [OF wf(2) that] wf(7) [of x] by (auto simp: rb_frame)
  show "\<exists>rb. heap (removeReaderFromRingBuffer a k p) x = Some rb \<and> rb_id rb = i"
    if "smap_find (ringBufferMap (removeReaderFromRingBuffer a k p)) i = Some x"
    using that wf(8) [of i x] by (auto simp: rb_frame)
  assume "heap (removeReaderFromRingBuffer a k p) x = Some rb"
  then obtain rb0 where h: "heap p x = Some rb0"
    and rb: "rb = (if x = a then removeReadOffset k rb0 else rb0)" by (auto split: if_splits)
  show "x < next_addr (removeReaderFromRingBuffer a k p)" using wf(4) [OF h] by simp
  show "rb_wf rb" using wf(5) [OF h] rb by (simp add: rb_wf_remove)
  show "hasThisReadOffset rb j \<longleftrightarrow> x \<in> set (bound (removeReaderFromRingBuffer a k p) j)"
    using wf(6) [OF h] rb by (auto simp: rb_frame)
qed

text \<open>An update of a buffer in place that keeps its name, its readers and its well-formedness.\<close>

definition keeps_readers :: "(('s, 'q, 'r) ring_buffer \<Rightarrow> ('s, 'q, 'r) ring_buffer) \<Rightarrow> bool" where
  "keeps_readers g \<longleftrightarrow>
     (\<forall>rb. rb_id (g rb) = rb_id rb \<and> (\<forall>k. hasThisReadOffset (g rb) k = hasThisReadOffset rb k) \<and>
        (rb_wf rb \<longrightarrow> rb_wf (g rb)))"

lemma pool_wf_upd [wf_intros]:
  assumes "pool_wf p" and g: "keeps_readers g"
  shows "pool_wf (upd_rb a g p)"
proof (rule pool_wfI)
  note wf = pool_wfD [OF assms(1)]
  fix x i rb j
  show "\<exists>rb. heap (upd_rb a g p) x = Some rb \<and>
      smap_find (ringBufferMap (upd_rb a g p)) (rb_id rb) = Some x" if "alive (upd_rb a g p) x"
    using that wf(7) [of x] g by (auto simp: keeps_readers_def)
  show "\<exists>rb. heap (upd_rb a g p) x = Some rb \<and> rb_id rb = i"
    if "smap_find (ringBufferMap (upd_rb a g p)) i = Some x"
    using that wf(8) [of i x] g by (auto simp: keeps_readers_def)
  assume "heap (upd_rb a g p) x = Some rb"
  then obtain rb0 where h: "heap p x = Some rb0" and rb: "rb = (if x = a then g rb0 else rb0)"
    by (auto split: if_splits)
  show "x < next_addr (upd_rb a g p)" using wf(4) [OF h] by simp
  show "rb_wf rb" using wf(5) [OF h] rb g by (simp add: keeps_readers_def)
  show "hasThisReadOffset rb j \<longleftrightarrow> x \<in> set (bound (upd_rb a g p) j)"
    using wf(6) [OF h] rb g by (simp add: keeps_readers_def)
qed (use pool_wfD [OF assms(1)] in auto)

lemma keeps_readers_ops [wf_intros]:
  "keeps_readers (\<lambda>rb. snd (RingBuffer_get k rb))" "keeps_readers (\<lambda>rb. snd (RingBuffer_discard n k rb))"
  "keeps_readers (RingBuffer_flush k)" "keeps_readers flushAll"
  "keeps_readers (RingBuffer_setAudioMeterState b)"
  by (auto simp: keeps_readers_def rb_frame intro: wf_intros)

subsection \<open>Every operation keeps the invariant\<close>

lemma getRingBuffer_Some: "getRingBuffer i p = (Some a, p1) \<Longrightarrow>
    p1 = p \<and> alive p a \<and> smap_find (ringBufferMap p) i = Some a"
  by (auto simp: getRingBuffer_def split: option.splits if_splits)

lemma pool_wf_erase_dead:
  assumes wf: "pool_wf p" and i: "smap_find (ringBufferMap p) i = Some a" and dead: "\<not> alive p a"
  shows "pool_wf (p\<lparr>ringBufferMap := smap_erase i (ringBufferMap p)\<rparr>)"
proof -
  let ?p = "p\<lparr>ringBufferMap := smap_erase i (ringBufferMap p)\<rparr>"
  have frame: "alive ?p x = alive p x" "bound ?p k = bound p k" for x k
    by (simp_all add: alive_def bound_def)
  note d = pool_wfD [OF wf]
  show ?thesis
  proof (rule pool_wfI)
    fix x assume "alive ?p x"
    then have x: "alive p x" by (simp only: frame)
    then obtain rb where rb: "heap p x = Some rb" "smap_find (ringBufferMap p) (rb_id rb) = Some x"
      using d(7) by blast
    have "rb_id rb \<noteq> i" using i dead x rb by auto
    with rb show "\<exists>rb. heap ?p x = Some rb \<and> smap_find (ringBufferMap ?p) (rb_id rb) = Some x"
      by auto
  qed (use d in \<open>auto simp: frame split: if_splits\<close>)
qed

lemma pool_wf_get [wf_intros]: "pool_wf p \<Longrightarrow> pool_wf (snd (getRingBuffer i p))"
  by (auto simp: getRingBuffer_def intro: pool_wf_erase_dead split: option.split)

lemma pool_wf_getD: "pool_wf p \<Longrightarrow> getRingBuffer i p = (r, p1) \<Longrightarrow> pool_wf p1"
  using pool_wf_get [of p i] by simp

lemma pool_wf_release [wf_intros]: "pool_wf p \<Longrightarrow> pool_wf (release a p)"
proof -
  assume "pool_wf p"
  note d = pool_wfD [OF this]
  have b: "bound (release a p) = bound p" by (simp add: bound_def release_def fun_eq_iff)
  have al: "alive (release a p) x \<Longrightarrow> alive p x" for x
    by (auto simp: alive_def release_def)
  show ?thesis
    by (rule pool_wfI) (use d al b in \<open>auto simp: release_def\<close>)
qed

lemma pool_wf_own: "pool_wf p \<Longrightarrow> alive p a \<Longrightarrow> pool_wf (p\<lparr>owners := sset_insert a (owners p)\<rparr>)"
proof -
  assume wf: "pool_wf p" and a: "alive p a"
  note d = pool_wfD [OF wf]
  let ?p = "p\<lparr>owners := sset_insert a (owners p)\<rparr>"
  have b: "bound ?p k = bound p k" for k by (simp add: bound_def)
  have al: "alive ?p x \<longleftrightarrow> alive p x" for x
    using a by (auto simp: alive_def)
  show ?thesis
    by (rule pool_wfI) (use d al b in auto)
qed

lemma pool_wf_create [wf_intros]:
  assumes "pool_wf p"
  shows "pool_wf (snd (createRingBuffer av i p))"
proof (cases "getRingBuffer i p")
  case (Pair r p1)
  show ?thesis
  proof (cases r)
    case (Some a)
    with Pair getRingBuffer_Some [of i p a p1] assms pool_wf_own [of p a] show ?thesis
      by (simp add: createRingBuffer_def)
  next
    case None
    note wf = pool_wf_getD [OF assms Pair]
    note d = pool_wfD [OF wf]
    let ?a = "next_addr p1"
    let ?p = "snd (createRingBuffer av i p)"
    have fresh: "heap p1 ?a = None" using d(4) [of ?a] by (cases "heap p1 ?a") auto
    then have dead: "\<not> alive p1 ?a" using d(7) [of ?a] by auto
    have unmapped: "smap_find (ringBufferMap p1) i = None"
      using Pair None by (auto simp: getRingBuffer_def split: option.splits if_splits)
    have p: "?p = p1\<lparr>heap := (heap p1)(?a \<mapsto> RingBuffer_new av i (internalAudioFormat p1)),
        next_addr := ?a + 1, owners := sset_insert ?a (owners p1),
        ringBufferMap := smap_emplace i ?a (ringBufferMap p1)\<rparr>"
      using Pair None by (simp add: createRingBuffer_def Let_def)
    have b: "bound ?p = bound p1" by (simp add: p bound_def fun_eq_iff)
    have al: "alive ?p x \<longleftrightarrow> x = ?a \<or> alive p1 x" for x
      by (auto simp: p alive_def)
    have nobody: "?a \<notin> set (bound p1 k)" for k
      using dead alive_iff [OF d(2)] by auto
    show ?thesis
    proof (rule pool_wfI)
      fix x assume "alive ?p x"
      then consider "x = ?a" | "x \<noteq> ?a" and "alive p1 x" by (auto simp only: al)
      then show "\<exists>rb. heap ?p x = Some rb \<and> smap_find (ringBufferMap ?p) (rb_id rb) = Some x"
      proof cases
        case 1
        then show ?thesis using unmapped by (simp add: p rb_frame)
      next
        case 2
        then obtain rb where rb: "heap p1 x = Some rb" "smap_find (ringBufferMap p1) (rb_id rb) = Some x"
          using d(7) by blast
        have "rb_id rb \<noteq> i" using unmapped rb by auto
        with rb 2 show ?thesis by (simp add: p)
      qed
    next
      fix j x assume "smap_find (ringBufferMap ?p) j = Some x"
      with d(8) [of j x] unmapped fresh show "\<exists>rb. heap ?p x = Some rb \<and> rb_id rb = j"
        by (auto simp: p rb_frame split: if_splits)
    next
      fix x rb k assume "heap ?p x = Some rb"
      with d(6) [of x rb k] nobody [of k] fresh
      show "hasThisReadOffset rb k \<longleftrightarrow> x \<in> set (bound ?p k)"
        by (auto simp: b p rb_frame bound_def split: if_splits)
    qed (use d in \<open>auto simp: p less_Suc_eq intro: rb_wf_new split: if_splits\<close>)
  qed
qed

lemma pool_get_upd: "snd (pool_get a k p) = upd_rb a (\<lambda>rb. snd (RingBuffer_get k rb)) p"
  by (cases "heap p a") (simp_all add: pool_get_def upd_rb_def Let_def case_prod_beta fun_upd_idem)

lemma skip_upd:
  "snd (skipMutedBuffer a k fp fm p) = p \<or> snd (skipMutedBuffer a k fp fm p) = snd (pool_get a k p)"
  by (simp add: skipMutedBuffer_def)

text \<open>Reading changes at most the reader's offset in that one buffer.\<close>

lemma read_upd:
  "snd (read_buffer a k fp fm p) = p \<or>
   snd (read_buffer a k fp fm p) = upd_rb a (\<lambda>rb. snd (RingBuffer_get k rb)) p"
  by (auto simp: read_buffer_def skipMutedBuffer_def pool_get_upd Let_def case_prod_beta)

lemma pool_wf_skip [wf_intros]: "pool_wf p \<Longrightarrow> pool_wf (snd (skipMutedBuffer a k fp fm p))"
  using skip_upd [of a k fp fm p] pool_wf_upd [OF _ keeps_readers_ops(1)]
  by (metis pool_get_upd)

lemma pool_wf_read [wf_intros]: "pool_wf p \<Longrightarrow> pool_wf (snd (read_buffer a k fp fm p))"
  using read_upd [of a k fp fm p] pool_wf_upd [OF _ keeps_readers_ops(1)] by metis

lemma pool_wf_mix_loop [wf_intros]:
  "pool_wf p \<Longrightarrow> pool_wf (snd (mix_loop mx k fp fm as m b p))"
proof (induction mx k fp fm as m b p rule: mix_loop.induct)
  case (2 mx call_id fp fm a as mixBuffer mixed p)
  obtain f p1 where r: "read_buffer a call_id fp fm p = (f, p1)" by fastforce
  moreover from pool_wf_read [OF "2.prems"] r have "pool_wf p1" by (metis snd_conv)
  ultimately show ?case using 2 by (auto split: option.split sum.split)
qed simp

lemma pool_wf_available_loop [wf_intros]:
  "pool_wf p \<Longrightarrow> pool_wf (snd (available_loop k fp fm as n p))"
proof (induction k fp fm as n p rule: available_loop.induct)
  case (2 call_id fp fm a as n p)
  obtain b p1 where r: "skipMutedBuffer a call_id fp fm p = (b, p1)" by fastforce
  moreover from pool_wf_skip [OF "2.prems"] r have "pool_wf p1" by (metis snd_conv)
  ultimately show ?case using 2 by (simp add: Let_def)
qed simp

lemma pool_wf_getData [wf_intros]: "pool_wf p \<Longrightarrow> pool_wf (snd (getData mx k p))"
  by (auto simp: getData_def Let_def case_prod_beta intro: pool_wf_read pool_wf_mix_loop
      simp del: mix_loop.simps split: option.split)

lemma pool_wf_getAvailableData [wf_intros]:
  "pool_wf p \<Longrightarrow> pool_wf (snd (getAvailableData mx k p))"
  by (auto simp: getAvailableData_def Let_def case_prod_beta
      intro: pool_wf_read pool_wf_mix_loop pool_wf_available_loop
      simp del: mix_loop.simps available_loop.simps split: option.split)

lemma pool_wf_foldl_upd:
  "pool_wf p \<Longrightarrow> (\<And>a. keeps_readers (g a)) \<Longrightarrow> pool_wf (foldl (\<lambda>p a. upd_rb a (g a) p) p as)"
  by (induction as arbitrary: p) (auto intro: pool_wf_upd)

lemma pool_wf_discard [wf_intros]: "pool_wf p \<Longrightarrow> pool_wf (snd (RingBufferPool_discard n k p))"
  by (auto simp: RingBufferPool_discard_def intro!: pool_wf_foldl_upd keeps_readers_ops(2)
      split: option.split)

lemma pool_wf_flush [wf_intros]: "pool_wf p \<Longrightarrow> pool_wf (RingBufferPool_flush k p)"
  by (auto simp: RingBufferPool_flush_def intro!: pool_wf_foldl_upd keeps_readers_ops(3)
      split: option.split)

lemma flush_loop_wf:
  assumes "pool_wf p" and "distinct (map fst xs)"
    and "\<And>i a. (i, a) \<in> set xs \<Longrightarrow> smap_find (ringBufferMap p) i = Some a"
  shows "pool_wf (foldl (\<lambda>p (i, a). if alive p a then upd_rb a flushAll p
     else p\<lparr>ringBufferMap := smap_erase i (ringBufferMap p)\<rparr>) p xs)"
  using assms
proof (induction xs arbitrary: p)
  case (Cons x xs)
  obtain i a where x: "x = (i, a)" by (cases x)
  let ?p = "if alive p a then upd_rb a flushAll p
     else p\<lparr>ringBufferMap := smap_erase i (ringBufferMap p)\<rparr>"
  have "pool_wf ?p"
    using Cons.prems x by (auto intro: pool_wf_upd keeps_readers_ops pool_wf_erase_dead)
  moreover have "smap_find (ringBufferMap ?p) j = Some b" if "(j, b) \<in> set xs" for j b
    using Cons.prems x that by (auto simp: image_iff)
  ultimately have "pool_wf (foldl (\<lambda>p (i, a). if alive p a then upd_rb a flushAll p
     else p\<lparr>ringBufferMap := smap_erase i (ringBufferMap p)\<rparr>) ?p xs)"
    using Cons.prems x by (intro Cons.IH) auto
  then show ?case by (simp add: x)
qed simp

lemma pool_wf_flushAll [wf_intros]: "pool_wf p \<Longrightarrow> pool_wf (flushAllBuffers p)"
  unfolding flushAllBuffers_def
  by (rule flush_loop_wf) (auto simp: smap_find_iff dest: pool_wf_smaps smap_wf_distinct)

lemma pool_wf_frame:
  assumes "pool_wf p" and "heap q = heap p" and "next_addr q = next_addr p" and "owners q = owners p"
    and "ringBufferMap q = ringBufferMap p" and "readBindingsMap q = readBindingsMap p"
    and "defaultRingBuffer q = defaultRingBuffer p"
  shows "pool_wf q"
proof -
  have "alive q = alive p" and "bound q = bound p"
    using assms by (auto simp: alive_def bound_def fun_eq_iff)
  with assms show ?thesis by (simp add: pool_wf_def)
qed

lemma pool_wf_setters [wf_intros]:
  "pool_wf p \<Longrightarrow> pool_wf (setLocalPlaybackMuted i b p)" "pool_wf p \<Longrightarrow> pool_wf (setMicMuted i b p)"
  by (auto simp: setLocalPlaybackMuted_def setMicMuted_def elim: pool_wf_frame)

lemma pool_wf_rate [wf_intros]: "pool_wf p \<Longrightarrow> pool_wf (setInternalSamplingRate sr p)"
  using pool_wf_flushAll [of p] by (auto simp: setInternalSamplingRate_def Let_def elim: pool_wf_frame)

lemma pool_wf_meter [wf_intros]: "pool_wf p \<Longrightarrow> pool_wf (setAudioMeterState i b p)"
proof -
  assume wf: "pool_wf p"
  have "pool_wf (foldl (\<lambda>p (_, a). if alive p a then upd_rb a (RingBuffer_setAudioMeterState b) p else p) q xs)"
    if "pool_wf q" for q :: "('a, 'b, 'c) pool" and xs :: "(string, nat) smap"
    using that by (induction xs arbitrary: q) (auto simp: pool_wf_upd keeps_readers_ops)
  with wf show ?thesis
    by (auto simp: setAudioMeterState_def intro: pool_wf_upd keeps_readers_ops
        dest: getRingBuffer_Some pool_wf_getD split: prod.split option.split)
qed

lemma with_two_wf:
  assumes "pool_wf p" and "\<And>a1 a2. alive p a1 \<Longrightarrow> alive p a2 \<Longrightarrow> pool_wf (body a1 a2 p)"
  shows "pool_wf (with_two_buffers i j body p)"
  using assms
  by (auto simp: with_two_buffers_def dest!: getRingBuffer_Some dest: pool_wf_getD
      split: prod.split option.split)

lemma pool_wf_bind [wf_intros]: "pool_wf p \<Longrightarrow> pool_wf (bindCallID i j p)"
  unfolding bindCallID_def
  by (rule with_two_wf) (auto intro!: pool_wf_add simp: alive_add pool_wf_smaps)

lemma pool_wf_unbind [wf_intros]: "pool_wf p \<Longrightarrow> pool_wf (unBindCallID i j p)"
  unfolding unBindCallID_def by (rule with_two_wf) (auto intro: pool_wf_remove)

lemma pool_wf_half [wf_intros]:
  "pool_wf p \<Longrightarrow> pool_wf (bindHalfDuplexOut i j p)" "pool_wf p \<Longrightarrow> pool_wf (unBindHalfDuplexOut i j p)"
  by (auto simp: bindHalfDuplexOut_def unBindHalfDuplexOut_def
      dest: getRingBuffer_Some pool_wf_getD intro: pool_wf_add pool_wf_remove
      split: prod.split option.split)

lemma pool_wf_foldl:
  "pool_wf p \<Longrightarrow> (\<And>a p. pool_wf p \<Longrightarrow> pool_wf (g p a)) \<Longrightarrow> pool_wf (foldl g p as)"
  by (induction as arbitrary: p) auto

lemma pool_wf_unbind_all [wf_intros]:
  "pool_wf p \<Longrightarrow> pool_wf (unBindAll i p)" "pool_wf p \<Longrightarrow> pool_wf (unBindAllHalfDuplexOut i p)"
  by (auto simp: unBindAll_def unBindAllHalfDuplexOut_def dest: pool_wf_getD
      intro!: pool_wf_foldl intro: pool_wf_remove split: prod.split option.split)

text \<open>The operations of the pool, and a put into one of its buffers by the stream that owns it.\<close>

datatype 's pool_op =
    CreateRB string | ReleaseRB nat | BindCall string string | UnbindCall string string
  | BindHalf string string | UnbindHalf string string | UnbindAllHalf string | UnbindAll string
  | MutePlayback string bool | MuteMic string bool | GetData string | GetAvailable string
  | DiscardData nat string | FlushReader string | FlushBuffers | SetRate nat
  | SetMeters string bool | WriteFrame nat "'s audio_frame"

fun pool_step ::
  "('q, 's) av_fifo \<Rightarrow> ('s audio_frame \<Rightarrow> 'r) \<Rightarrow>
     ('s audio_frame \<Rightarrow> 's audio_frame \<Rightarrow> mix_error + 's audio_frame) \<Rightarrow>
     ('s, 'q, 'r) pool \<Rightarrow> 's pool_op \<Rightarrow> ('s, 'q, 'r) pool" where
  "pool_step av rms mx p (CreateRB i) = snd (createRingBuffer av i p)"
| "pool_step av rms mx p (ReleaseRB a) = release a p"
| "pool_step av rms mx p (BindCall i j) = bindCallID i j p"
| "pool_step av rms mx p (UnbindCall i j) = unBindCallID i j p"
| "pool_step av rms mx p (BindHalf i j) = bindHalfDuplexOut i j p"
| "pool_step av rms mx p (UnbindHalf i j) = unBindHalfDuplexOut i j p"
| "pool_step av rms mx p (UnbindAllHalf i) = unBindAllHalfDuplexOut i p"
| "pool_step av rms mx p (UnbindAll i) = unBindAll i p"
| "pool_step av rms mx p (MutePlayback i b) = setLocalPlaybackMuted i b p"
| "pool_step av rms mx p (MuteMic i b) = setMicMuted i b p"
| "pool_step av rms mx p (GetData i) = snd (getData mx i p)"
| "pool_step av rms mx p (GetAvailable i) = snd (getAvailableData mx i p)"
| "pool_step av rms mx p (DiscardData n i) = snd (RingBufferPool_discard n i p)"
| "pool_step av rms mx p (FlushReader i) = RingBufferPool_flush i p"
| "pool_step av rms mx p FlushBuffers = flushAllBuffers p"
| "pool_step av rms mx p (SetRate sr) = setInternalSamplingRate sr p"
| "pool_step av rms mx p (SetMeters i b) = setAudioMeterState i b p"
| "pool_step av rms mx p (WriteFrame a f) = upd_rb a (\<lambda>rb. fst (putToBuffer rms f rb)) p"

lemma keeps_readers_put: "keeps_readers (\<lambda>rb. fst (putToBuffer rms f rb))"
  unfolding keeps_readers_def
proof (intro allI conjI impI)
  fix rb :: "('a, 'b, 'c) ring_buffer" and k
  show "rb_wf rb \<Longrightarrow> rb_wf (fst (putToBuffer rms f rb))" by (rule rb_wf_put)
  have "buffer rb = [] \<Longrightarrow> fst (putToBuffer rms f rb) = rb" by (simp add: putToBuffer_def)
  then show "rb_id (fst (putToBuffer rms f rb)) = rb_id rb"
    and "hasThisReadOffset (fst (putToBuffer rms f rb)) k = hasThisReadOffset rb k"
    using putToBuffer_state(3,4) [of rb rms f] unfolding hasThisReadOffset_def by metis+
qed

lemma pool_wf_step: "pool_wf p \<Longrightarrow> pool_wf (pool_step av rms mx p oper)"
  by (cases oper) (auto intro: wf_intros pool_wf_upd [OF _ keeps_readers_put])

lemma pool_wf_new: "pool_wf (RingBufferPool_new av)"
proof -
  let ?p0 = "\<lparr>heap = Map.empty, next_addr = 0, owners = [], ringBufferMap = [],
     readBindingsMap = [], internalAudioFormat = AudioFormat_DEFAULT,
     defaultRingBuffer = None, localPlaybackMutedIds = [], micMutedIds = []\<rparr> :: ('a, 'b, 'c) pool"
  have "pool_wf ?p0" by (simp add: pool_wf_def alive_def)
  then have wf: "pool_wf (snd (createRingBuffer av DEFAULT_ID ?p0))" by (rule wf_intros)
  obtain a p1 where c: "createRingBuffer av DEFAULT_ID ?p0 = (a, p1)" by fastforce
  have own: "a \<in> set (owners p1)"
    using c by (auto simp: createRingBuffer_def getRingBuffer_def Let_def split: if_splits)
  have "pool_wf (p1\<lparr>defaultRingBuffer := Some a\<rparr>)"
  proof -
    let ?q = "p1\<lparr>defaultRingBuffer := Some a\<rparr>"
    have wf1: "pool_wf p1" using wf c by simp
    have dflt: "defaultRingBuffer p1 = None"
      using c by (auto simp: createRingBuffer_def getRingBuffer_def Let_def split: if_splits)
    have "alive ?q x \<longleftrightarrow> alive p1 x" for x using own dflt by (auto simp: alive_def)
    moreover have "bound ?q k = bound p1 k" for k by (simp add: bound_def)
    ultimately show ?thesis using wf1 by (simp add: pool_wf_def)
  qed
  then have "pool_wf (release a (p1\<lparr>defaultRingBuffer := Some a\<rparr>))" by (rule wf_intros)
  then show ?thesis by (simp add: RingBufferPool_new_def c)
qed

interpretation rbp: invariant_machine "pool_step av rms mx" pool_wf
  by unfold_locales (rule pool_wf_step)

section \<open>What the pool guarantees\<close>


definition demo_pool_ops :: "int pool_op list" where
  "demo_pool_ops = [CreateRB ''call'', BindCall ''call'' DEFAULT_ID]"

definition demo_pool :: "(int, int list, int) pool" where
  "demo_pool = foldl (pool_step list_fifo (\<lambda>_. 0) (\<lambda>m f. Inr f)) (RingBufferPool_new list_fifo) demo_pool_ops"

lemmas pool_eval = demo_pool_def demo_pool_ops_def RingBufferPool_new_def createRingBuffer_def
  getRingBuffer_def alive_def release_def bindCallID_def with_two_buffers_def DEFAULT_ID_def
  addReaderToRingBuffer_def upd_rb_def bound_def sset_erase_def smap_emplace_def RingBuffer_new_def
  createReadOffset_def hasThisReadOffset_def Let_def rb_name_def


lemma rb_name_remove [simp]: "rb_name (removeReaderFromRingBuffer a k p) x = rb_name p x"
  by (simp add: rb_name_def rb_id_ops split: option.split)

lemma unbind_all_loop:
  "x \<in> set (bound (foldl (\<lambda>p a. removeReaderFromRingBuffer rc (rb_name p a)
       (removeReaderFromRingBuffer a c p)) p as) k) \<longleftrightarrow>
   x \<in> set (bound p k) \<and> \<not> (k = c \<and> x \<in> set as) \<and> \<not> (x = rc \<and> k \<in> rb_name p ` set as)"
  by (induction as arbitrary: p) auto

text \<open>
  \<^verbatim>\<open>unBindAll\<close> disconnects a live call from everything it hears and silences it for those
  peers: afterwards the call reads no buffer, no buffer has an offset for it, and none of the
  streams it was bound to reads the call's buffer; every other binding is left as it was.
\<close>

theorem unBindAll_disconnects:
  assumes wf: "pool_wf p" and live: "getRingBuffer call_id p = (Some rb_call, p)"
  shows "bound (unBindAll call_id p) call_id = [] \<and>
    (\<forall>a rb. heap (unBindAll call_id p) a = Some rb \<longrightarrow> \<not> hasThisReadOffset rb call_id) \<and>
    (\<forall>a \<in> set (bound p call_id). rb_call \<notin> set (bound (unBindAll call_id p) (rb_name p a))) \<and>
    (\<forall>k x. k \<noteq> call_id \<longrightarrow> \<not> (x = rb_call \<and> k \<in> rb_name p ` set (bound p call_id)) \<longrightarrow>
       (x \<in> set (bound (unBindAll call_id p) k) \<longleftrightarrow> x \<in> set (bound p k)))"
proof -
  let ?q = "unBindAll call_id p"
  have q: "x \<in> set (bound ?q k) \<longleftrightarrow> x \<in> set (bound p k) \<and>
      \<not> (k = call_id \<and> x \<in> set (bound p call_id)) \<and>
      \<not> (x = rb_call \<and> k \<in> rb_name p ` set (bound p call_id))" for x k
  proof (cases "smap_find (readBindingsMap p) call_id")
    case None
    then have "?q = p" and "bound p call_id = []"
      by (simp_all add: unBindAll_def live bound_def)
    then show ?thesis by auto
  next
    case (Some bs)
    then have "bound p call_id = bs" by (simp add: bound_def)
    with Some show ?thesis by (simp add: unBindAll_def live unbind_all_loop)
  qed
  have "x \<notin> set (bound ?q call_id)" for x using q [of x call_id] by simp
  then have none: "bound ?q call_id = []" by (meson last_in_set)
  moreover have "\<not> hasThisReadOffset rb call_id" if "heap ?q a = Some rb" for a rb
    using pool_wfD(6) [OF pool_wf_unbind_all(1) [OF wf] that, of call_id] none by simp
  ultimately show ?thesis using q by auto
qed

theorem unBindAll_disconnects_witness:
  "bound demo_pool ''call'' = [0] \<and> bound (unBindAll ''call'' demo_pool) ''call'' = []"
proof -
  have "pool_wf demo_pool" unfolding demo_pool_def by (rule rbp.run_inv [OF pool_wf_new])
  moreover have "getRingBuffer ''call'' demo_pool = (Some 1, demo_pool)"
    and "bound demo_pool ''call'' = [0]"
    by (simp_all add: pool_eval)
  ultimately show ?thesis using unBindAll_disconnects [of demo_pool "''call''" 1] by simp
qed

text \<open>
  \<^verbatim>\<open>unBindCallID\<close> undoes \<^verbatim>\<open>bindCallID\<close>: for two live streams that do not yet hear each other,
  binding makes each of them a reader of the other, and unbinding gives back exactly the
  bindings there were.
\<close>

theorem bind_unbind_roundtrip:
  assumes wf: "pool_wf p" and i: "getRingBuffer i p = (Some a, p)" and j: "getRingBuffer j p = (Some b, p)"
    and ne: "a \<notin> set (bound p j)" "b \<notin> set (bound p i)"
  shows "a \<in> set (bound (bindCallID i j p) j) \<and> b \<in> set (bound (bindCallID i j p) i) \<and>
    (\<forall>k. set (bound (unBindCallID i j (bindCallID i j p)) k) = set (bound p k))"
proof -
  let ?q = "addReaderToRingBuffer b i (addReaderToRingBuffer a j p)"
  have bind: "bindCallID i j p = ?q"
    by (simp add: bindCallID_def with_two_buffers_def i j)
  have "alive ?q a" and "alive ?q b"
    using pool_wf_smaps [OF wf] by (simp_all add: alive_add)
  moreover have "ringBufferMap ?q = ringBufferMap p" by simp
  ultimately have "getRingBuffer i ?q = (Some a, ?q)" and "getRingBuffer j ?q = (Some b, ?q)"
    using getRingBuffer_Some [OF i] getRingBuffer_Some [OF j] by (simp_all add: getRingBuffer_def)
  then have "unBindCallID i j ?q =
      removeReaderFromRingBuffer b i (removeReaderFromRingBuffer a j ?q)"
    by (simp add: unBindCallID_def with_two_buffers_def)
  with bind ne show ?thesis by auto
qed

definition demo_pool2 :: "(int, int list, int) pool" where
  "demo_pool2 = foldl (pool_step list_fifo (\<lambda>_. 0) (\<lambda>m f. Inr f)) (RingBufferPool_new list_fifo)
     [CreateRB ''call'', CreateRB ''peer'']"

theorem bind_unbind_roundtrip_witness:
  "1 \<in> set (bound (bindCallID ''call'' ''peer'' demo_pool2) ''peer'') \<and>
   set (bound (unBindCallID ''call'' ''peer'' (bindCallID ''call'' ''peer'' demo_pool2)) ''peer'') = {}"
proof -
  have "pool_wf demo_pool2" unfolding demo_pool2_def by (rule rbp.run_inv [OF pool_wf_new])
  moreover have "getRingBuffer ''call'' demo_pool2 = (Some 1, demo_pool2)"
    and "getRingBuffer ''peer'' demo_pool2 = (Some 2, demo_pool2)"
    and "bound demo_pool2 ''peer'' = []" and "bound demo_pool2 ''call'' = []"
    by (simp_all add: pool_eval demo_pool2_def)
  ultimately show ?thesis
    using bind_unbind_roundtrip [of demo_pool2 "''call''" 1 "''peer''" 2] by simp
qed

subsection \<open>What a reader hears\<close>

definition muted_for :: "string \<Rightarrow> ('s, 'q, 'r) pool \<Rightarrow> nat \<Rightarrow> bool" where
  "muted_for k p a \<longleftrightarrow>
     (k = DEFAULT_ID \<and> rb_name p a \<in> set (localPlaybackMutedIds p)) \<or>
     (k \<noteq> DEFAULT_ID \<and> k \<in> set (micMutedIds p) \<and> rb_name p a = DEFAULT_ID)"

definition head_frame :: "string \<Rightarrow> ('s, 'q, 'r) pool \<Rightarrow> nat \<Rightarrow> 's audio_frame option" where
  "head_frame k p a = (case heap p a of Some rb \<Rightarrow> fst (RingBuffer_get k rb) | None \<Rightarrow> None)"

definition heard_frame :: "string \<Rightarrow> ('s, 'q, 'r) pool \<Rightarrow> nat \<Rightarrow> 's audio_frame option" where
  "heard_frame k p a = (if muted_for k p a then None else head_frame k p a)"

fun mix_frames ::
  "('s audio_frame \<Rightarrow> 's audio_frame \<Rightarrow> mix_error + 's audio_frame) \<Rightarrow> 's audio_frame \<Rightarrow>
     's audio_frame list \<Rightarrow> mix_error + 's audio_frame" where
  "mix_frames mx m [] = Inr m"
| "mix_frames mx m (b # bs) =
     (case mx m b of
        Inl e \<Rightarrow> Inl e
      | Inr m' \<Rightarrow> mix_frames mx (m'\<lparr>has_voice := has_voice m' \<or> has_voice b\<rparr>) bs)"

lemma fst_pool_get: "fst (pool_get a k p) = head_frame k p a"
  by (simp add: pool_get_def head_frame_def case_prod_beta Let_def split: option.split)

lemma fst_read_buffer:
  "fst (read_buffer a k (filter_playback k p) (filter_mic k p) p) = heard_frame k p a"
  by (auto simp: read_buffer_def skipMutedBuffer_def filter_playback_def filter_mic_def
      heard_frame_def muted_for_def fst_pool_get)

lemma read_frame:
  assumes "x \<noteq> a"
  shows "heard_frame k (snd (read_buffer a j fp fm p)) x = heard_frame k p x"
    and "filter_playback k (snd (read_buffer a j fp fm p)) = filter_playback k p"
    and "filter_mic k (snd (read_buffer a j fp fm p)) = filter_mic k p"
  using read_upd [of a j fp fm p] assms
  by (auto simp: heard_frame_def muted_for_def head_frame_def filter_playback_def filter_mic_def
      rb_name_def)

lemma mix_loop_frames:
  assumes "distinct as" and "fp = filter_playback k p" and "fm = filter_mic k p"
  shows "fst (mix_loop mx k fp fm as m b p) =
    (let fs = List.map_filter (heard_frame k p) as
     in map_sum id (\<lambda>m'. (m', b \<or> fs \<noteq> [])) (mix_frames mx m fs))"
  using assms
proof (induction as arbitrary: m b p)
  case Nil
  then show ?case by (simp add: map_filter_simps)
next
  case (Cons a as)
  define p1 where "p1 = snd (read_buffer a k fp fm p)"
  have r: "read_buffer a k fp fm p = (heard_frame k p a, p1)"
    using Cons.prems fst_read_buffer [of a k p] by (simp add: p1_def prod_eq_iff)
  have heard: "heard_frame k p1 x = heard_frame k p x" if "x \<in> set as" for x
    using that Cons.prems(1) unfolding p1_def by (intro read_frame(1)) auto
  have "filter_playback k p1 = fp" and "filter_mic k p1 = fm"
  proof -
    obtain x where "x \<noteq> a" by (metis n_not_Suc_n)
    then show "filter_playback k p1 = fp" and "filter_mic k p1 = fm"
      using Cons.prems read_frame(2,3) [of x a k k fp fm p] by (simp_all add: p1_def)
  qed
  moreover have "List.map_filter (heard_frame k p1) as = List.map_filter (heard_frame k p) as"
    using heard by (auto simp: map_filter_def intro!: arg_cong [where f = "map _"] filter_cong map_cong)
  ultimately show ?case
    using Cons.IH [of p1] Cons.prems(1)
    by (auto simp: r Let_def map_filter_simps sum.map_comp comp_def split: option.split sum.split)
qed

text \<open>
  C31: what \<^verbatim>\<open>getData\<close> returns to a bound reader. It takes the next frame of each bound buffer
  that is not muted for the reader, in the order of the bindings; with one binding the result is
  that frame, otherwise it is the frames mixed one after the other into an empty frame of the
  pool's format, or nothing when no buffer had a frame. A buffer is muted for the playback
  device when its name is in the local-playback set, and the capture buffer is muted for the
  readers in the microphone set: a muted microphone is never part of a mix.
\<close>

theorem getData_mixes_heard_frames:
  assumes wf: "pool_wf p" and bs: "smap_find (readBindingsMap p) k = Some bs"
  shows "fst (getData mx k p) =
    (if length bs = 1 then Inr (heard_frame k p (hd bs))
     else let fs = List.map_filter (heard_frame k p) bs
          in map_sum id (\<lambda>m. if fs = [] then None else Some m) (mix_frames mx (empty_frame p) fs))"
proof (cases "length bs = 1")
  case True
  with bs show ?thesis by (simp add: getData_def case_prod_beta Let_def fst_read_buffer)
next
  case False
  have "sset_wf bs" using pool_wfD(3) [OF wf] bs by blast
  then have "distinct bs" by (simp add: strict_sorted_iff)
  from mix_loop_frames [OF this refl refl, of mx k p "empty_frame p" False] bs False show ?thesis
    by (cases "mix_frames mx (empty_frame p) (List.map_filter (heard_frame k p) bs)")
      (simp_all add: getData_def case_prod_beta Let_def)
qed

definition demo_pool3 :: "(int, int list, int) pool" where
  "demo_pool3 = foldl (pool_step list_fifo (\<lambda>_. 0) (\<lambda>m f. Inr f)) (RingBufferPool_new list_fifo)
     [CreateRB ''call'', BindCall ''call'' DEFAULT_ID, WriteFrame 0 demo_frame, MuteMic ''call'' True]"

theorem getData_mixes_heard_frames_witness:
  "head_frame ''call'' demo_pool3 0 = Some demo_frame \<and>
   fst (getData (\<lambda>m f. Inr f) ''call'' demo_pool3) = Inr None"
proof -
  have "pool_wf demo_pool3" unfolding demo_pool3_def by (rule rbp.run_inv [OF pool_wf_new])
  moreover have "smap_find (readBindingsMap demo_pool3) ''call'' = Some [0]"
    and "muted_for ''call'' demo_pool3 0" and "head_frame ''call'' demo_pool3 0 = Some demo_frame"
    by (simp_all add: pool_eval demo_pool3_def muted_for_def setMicMuted_def putToBuffer_def
        head_frame_def RingBuffer_get_def putLength_def getSmallestReadOffset_def hasNoReadOffsets_def)
  ultimately show ?thesis
    using getData_mixes_heard_frames [of demo_pool3 "''call''" "[0]" "\<lambda>m f. Inr f"]
    by (simp add: heard_frame_def)
qed

end
