(* ===== verification/Conference.thy ===== *)
theory Conference
  imports Conference_Info Conference_Protocol Media_Attribute Ring_Buffer_Pool
begin

text \<open>
  The conference a host runs, \<^verbatim>\<open>src/conference.cpp\<close>: its members, moderators, mute and hand flags, the state
  of the host's own sources, and the routing of audio through the ring buffer pool. Calls are seen
  through a snapshot of what the conference asks them, commands to calls, to the video mixer and
  to the client are a log. The video mixer is present only through the stream it shows as active;
  the sources are built with video support and with conference metadata switched on, the defaults.
\<close>

section \<open>State\<close>

datatype conf_state = ACTIVE_ATTACHED | ACTIVE_DETACHED | CONF_HOLD

record conference =
  conf_id :: string
  confState :: conf_state
  participants :: "string list"
  confInfo :: conf_info
  moderators :: "string list"
  participantsMuted :: "string list"
  handsRaised :: "string list"
  localPlaybackMuted :: bool
  streamsVoiceActive :: "string list"
  lastVoiceActivitySent :: int
  voiceActivitySendPending :: bool
  hostSources :: "media_attribute list"
  localModAdded :: bool
  remoteHosts :: remote_hosts
  activeStream :: string \<comment> \<open>of the video mixer\<close>
  conf_recording :: bool
  ghostRingBuffer :: "nat option"

text \<open>What the conference asks of an account and of a call.\<close>

record conf_account =
  ca_id :: string
  ca_username :: string
  ca_defaultModerators :: "string list"
  ca_localModeratorsEnabled :: bool
  ca_allModerators :: bool
  ca_videoEnabled :: bool
  ca_rendezVous :: bool

record conf_peer =
  cp_peerNumber :: string
  cp_deviceId :: string \<comment> \<open>empty without a transport\<close>
  cp_peerMuted :: bool
  cp_peerRecording :: bool
  cp_hasPeerVoice :: bool
  cp_recording :: bool
  cp_media :: "media_attribute list"
  cp_account :: "conf_account option"

text \<open>
  The surroundings at the time of an operation: the calls of the call factory, the account of the
  conference if it still exists, the user names of all accounts, the default camera, the clock,
  the manager's current call, whether the recorder manages to start, and the library that new ring buffers use.
\<close>

record ('q, 's) conf_env =
  env_calls :: "(string, conf_peer) smap"
  env_account :: "conf_account option"
  env_usernames :: "string list"
  env_defaultVideo :: string
  env_now :: int
  env_currentCall :: string
  env_recorderStarts :: bool
  env_fifo :: "('q, 's) av_fifo"

datatype conf_event =
    SendConfInfo string conf_info
  | SendVoiceActivity string conf_info
  | CreateSinks conf_info
  | InfosUpdated "(string, string) smap list"
  | ScheduleFlush int
  | MediaNegotiated string "media_map list"
  | AudioMuted bool
  | VideoMuted bool
  | RequestMediaChange string "media_map list"
  | AnswerMediaChange string "media_map list"
  | AudioManaged string bool
  | EnterConference string
  | ExitConference string
  | ToggleCallRecording string
  | UpdateRecState string bool
  | PeerRecording string bool
  | SendConfOrder string string bool
  | ForwardHangup string string string
  | HangupCall string
  | ConferenceChanged conf_state
  | SwitchInputs "string list"
  | StopInputs
  | MuteInputs bool
  | AddAudioOnlySource string string string
  | RemoveAudioOnlySource string string
  | SetVideoLayout int
  | MixerVoiceActivity "(string, bool) smap"
  | UpdateLayout
  | RecorderStreams bool
  | OffHoldCall string
  | OnHoldCall string
  | SwitchCall string
  | RemoveConference
  | AnswerCall string

record ('s, 'q, 'r) conf_world =
  conf :: conference
  rb_pool :: "('s, 'q, 'r) pool"
  conf_log :: "conf_event list"

definition Conference_new :: "string \<Rightarrow> conference" where
  "Conference_new i =
     \<lparr>conf_id = i, confState = ACTIVE_DETACHED, participants = [], confInfo = ConfInfo_new, moderators = [],
      participantsMuted = [], handsRaised = [], localPlaybackMuted = False, streamsVoiceActive = [],
      lastVoiceActivitySent = 0, voiceActivitySendPending = False, hostSources = [], localModAdded = False,
      remoteHosts = [], activeStream = [], conf_recording = False, ghostRingBuffer = None\<rparr>"

definition upd_conf :: "(conference \<Rightarrow> conference) \<Rightarrow> ('s, 'q, 'r) conf_world \<Rightarrow> ('s, 'q, 'r) conf_world" where
  "upd_conf f w = w\<lparr>conf := f (conf w)\<rparr>"

definition with_pool ::
  "(('s, 'q, 'r) pool \<Rightarrow> ('s, 'q, 'r) pool) \<Rightarrow> ('s, 'q, 'r) conf_world \<Rightarrow> ('s, 'q, 'r) conf_world" where
  "with_pool f w = w\<lparr>rb_pool := f (rb_pool w)\<rparr>"

definition emit :: "conf_event \<Rightarrow> ('s, 'q, 'r) conf_world \<Rightarrow> ('s, 'q, 'r) conf_world" where
  "emit e w = w\<lparr>conf_log := conf_log w @ [e]\<rparr>"

text \<open>\<^verbatim>\<open>for (const auto& p : getParticipantList())\<close>, over a copy of the set.\<close>

definition for_participants ::
  "(string \<Rightarrow> ('s, 'q, 'r) conf_world \<Rightarrow> ('s, 'q, 'r) conf_world) \<Rightarrow> ('s, 'q, 'r) conf_world \<Rightarrow>
     ('s, 'q, 'r) conf_world" where
  "for_participants f w = foldl (\<lambda>w p. f p w) w (participants (conf w))"

section \<open>Names of peers and streams\<close>


definition streamId :: "string \<Rightarrow> string \<Rightarrow> string" where
  "streamId callId label = (if callId = [] then ''host_'' @ label else callId @ ''_'' @ label)"

definition find_char :: "char \<Rightarrow> string \<Rightarrow> nat option" where
  "find_char c s = find_sub [c] s 0"

definition stripSipUriPrefix :: "string \<Rightarrow> string" where
  "stripSipUriPrefix s0 =
     (let s1 = (case find_sub ''sip:'' s0 0 of Some i \<Rightarrow> drop (i + 4) s0 | None \<Rightarrow> s0);
          s2 = (case find_char CHR ''<'' s1 of Some i \<Rightarrow> drop (i + 1) s1 | None \<Rightarrow> s1);
          s3 = (case find_char CHR ''@'' s2 of Some i \<Rightarrow> take i s2 | None \<Rightarrow> s2)
      in case find_char CHR ''>'' s3 of Some i \<Rightarrow> take i s3 | None \<Rightarrow> s3)"

definition conf_getCall :: "('q, 's) conf_env \<Rightarrow> string \<Rightarrow> conf_peer option" where
  "conf_getCall E callId = smap_find (env_calls E) callId"

definition foreachCall ::
  "('q, 's) conf_env \<Rightarrow> (string \<Rightarrow> conf_peer \<Rightarrow> ('s, 'q, 'r) conf_world \<Rightarrow> ('s, 'q, 'r) conf_world) \<Rightarrow>
     ('s, 'q, 'r) conf_world \<Rightarrow> ('s, 'q, 'r) conf_world" where
  "foreachCall E cb w =
     for_participants (\<lambda>p w. case conf_getCall E p of Some c \<Rightarrow> cb p c w | None \<Rightarrow> w) w"

definition getRemoteId :: "conf_peer \<Rightarrow> string" where
  "getRemoteId c = stripSipUriPrefix (cp_peerNumber c)"

text \<open>The call is answered by its identifier and its snapshot.\<close>

definition find_call ::
  "('q, 's) conf_env \<Rightarrow> (conf_peer \<Rightarrow> bool) \<Rightarrow> conference \<Rightarrow> (string \<times> conf_peer) option" where
  "find_call E P cf =
     find (\<lambda>(_, c). P c) (List.map_filter (\<lambda>p. map_option (\<lambda>c. (p, c)) (conf_getCall E p)) (participants cf))"

definition getCallFromPeerID :: "('q, 's) conf_env \<Rightarrow> string \<Rightarrow> conference \<Rightarrow> (string \<times> conf_peer) option" where
  "getCallFromPeerID E peerID cf = find_call E (\<lambda>c. getRemoteId c = stripSipUriPrefix peerID) cf"

definition getCallWith :: "('q, 's) conf_env \<Rightarrow> string \<Rightarrow> string \<Rightarrow> conference \<Rightarrow> (string \<times> conf_peer) option" where
  "getCallWith E accountUri deviceId cf =
     find_call E (\<lambda>c. stripSipUriPrefix accountUri = stripSipUriPrefix (cp_peerNumber c) \<and> deviceId = cp_deviceId c) cf"

definition isHost :: "('q, 's) conf_env \<Rightarrow> string \<Rightarrow> conference \<Rightarrow> bool" where
  "isHost E uri cf \<longleftrightarrow>
     uri = [] \<or>
     list_ex (\<lambda>p. case conf_getCall E p of
          Some c \<Rightarrow> (case cp_account c of Some a \<Rightarrow> ca_username a = uri | None \<Rightarrow> False)
        | None \<Rightarrow> False) (participants cf)"

definition isModerator :: "('q, 's) conf_env \<Rightarrow> string \<Rightarrow> conference \<Rightarrow> bool" where
  "isModerator E uri cf \<longleftrightarrow> uri \<in> set (moderators cf) \<or> isHost E uri cf"

definition isHandRaised :: "string \<Rightarrow> conference \<Rightarrow> bool" where
  "isHandRaised i cf \<longleftrightarrow> i \<in> set (handsRaised cf)"

definition isVoiceActive :: "string \<Rightarrow> conference \<Rightarrow> bool" where
  "isVoiceActive s cf \<longleftrightarrow> s \<in> set (streamsVoiceActive cf)"

definition isMuted :: "string \<Rightarrow> conference \<Rightarrow> bool" where
  "isMuted callId cf \<longleftrightarrow> callId \<in> set (participantsMuted cf)"

abbreviation HOST :: string where "HOST \<equiv> ''host''"

definition isVideoEnabled :: "('q, 's) conf_env \<Rightarrow> bool" where
  "isVideoEnabled E = (case env_account E of Some a \<Rightarrow> ca_videoEnabled a | None \<Rightarrow> False)"

section \<open>Telling everybody\<close>

text \<open>The description for one call and for the local client.\<close>

definition info_for_call :: "conf_account \<Rightarrow> conf_peer \<Rightarrow> conference \<Rightarrow> conf_info" where
  "info_for_call a c cf =
     getConfInfoHostUri (confInfo cf) (remoteHosts cf) (ca_username a @ ''@server'') (cp_peerNumber c)"

definition info_for_client :: "conference \<Rightarrow> conf_info" where
  "info_for_client cf = getConfInfoHostUri (confInfo cf) (remoteHosts cf) [] []"

definition sendConferenceInfos :: "('q, 's) conf_env \<Rightarrow> ('s, 'q, 'r) conf_world \<Rightarrow> ('s, 'q, 'r) conf_world" where
  "sendConferenceInfos E w0 =
     (let w = foreachCall E (\<lambda>p c w. case cp_account c of
                  Some a \<Rightarrow> emit (SendConfInfo p (info_for_call a c (conf w))) w | None \<Rightarrow> w) w0;
          ci = info_for_client (conf w)
      in emit (InfosUpdated (toVectorMapStringString ci)) (emit (CreateSinks ci) w))"

definition VOICE_ACTIVITY_MIN_INTERVAL :: int where
  "VOICE_ACTIVITY_MIN_INTERVAL = 250"

definition doSendVoiceActivity :: "('q, 's) conf_env \<Rightarrow> ('s, 'q, 'r) conf_world \<Rightarrow> ('s, 'q, 'r) conf_world" where
  "doSendVoiceActivity E w0 =
     (let w = foreachCall E (\<lambda>p c w. case cp_account c of
                  Some a \<Rightarrow> emit (SendVoiceActivity p (info_for_call a c (conf w))) w | None \<Rightarrow> w) w0
      in emit (InfosUpdated (toVectorMapStringString (info_for_client (conf w)))) w)"

definition sendVoiceActivity :: "('q, 's) conf_env \<Rightarrow> ('s, 'q, 'r) conf_world \<Rightarrow> ('s, 'q, 'r) conf_world" where
  "sendVoiceActivity E w =
     (let cf = conf w; elapsed = env_now E - lastVoiceActivitySent cf in
      if voiceActivitySendPending cf then w
      else if elapsed < VOICE_ACTIVITY_MIN_INTERVAL
      then emit (ScheduleFlush (VOICE_ACTIVITY_MIN_INTERVAL - elapsed))
             (upd_conf (\<lambda>c. c\<lparr>voiceActivitySendPending := True\<rparr>) w)
      else doSendVoiceActivity E (upd_conf (\<lambda>c. c\<lparr>lastVoiceActivitySent := env_now E\<rparr>) w))"

definition flushVoiceActivity :: "('q, 's) conf_env \<Rightarrow> ('s, 'q, 'r) conf_world \<Rightarrow> ('s, 'q, 'r) conf_world" where
  "flushVoiceActivity E w =
     doSendVoiceActivity E
       (upd_conf (\<lambda>c. c\<lparr>voiceActivitySendPending := False, lastVoiceActivitySent := env_now E\<rparr>) w)"

definition upd_rows :: "(participant_info \<Rightarrow> participant_info) \<Rightarrow> conference \<Rightarrow> conference" where
  "upd_rows f cf = cf\<lparr>confInfo := (confInfo cf)\<lparr>rows := map f (rows (confInfo cf))\<rparr>\<rparr>"

definition updateModerators :: "('q, 's) conf_env \<Rightarrow> ('s, 'q, 'r) conf_world \<Rightarrow> ('s, 'q, 'r) conf_world" where
  "updateModerators E w =
     sendConferenceInfos E
       (upd_conf (\<lambda>cf. upd_rows (\<lambda>i. i\<lparr>pi_isModerator := isModerator E (stripSipUriPrefix (pi_uri i)) cf\<rparr>) cf) w)"

definition updateHandsRaised :: "('q, 's) conf_env \<Rightarrow> ('s, 'q, 'r) conf_world \<Rightarrow> ('s, 'q, 'r) conf_world" where
  "updateHandsRaised E w =
     sendConferenceInfos E
       (upd_conf (\<lambda>cf. upd_rows (\<lambda>i. i\<lparr>pi_handRaised :=
            (if pi_uri i = [] then isHandRaised HOST cf else isHandRaised (pi_callId i) cf)\<rparr>) cf) w)"

definition voice_row :: "('q, 's) conf_env \<Rightarrow> conference \<Rightarrow> participant_info \<Rightarrow> participant_info" where
  "voice_row E cf i =
     i\<lparr>pi_voiceActivity :=
         (case getCallWith E (string_remove_suffix (pi_uri i) CHR ''@'') (pi_device i) cf of
            Some (_, c) \<Rightarrow> cp_hasPeerVoice c | None \<Rightarrow> isVoiceActive (pi_sinkId i) cf)\<rparr>"

definition voice_states :: "participant_info list \<Rightarrow> (string, bool) smap \<Rightarrow> (string, bool) smap" where
  "voice_states is m = foldl (\<lambda>m i. smap_set (pi_sinkId i) (pi_voiceActivity i) m) m is"

definition updateVoiceActivity :: "('q, 's) conf_env \<Rightarrow> ('s, 'q, 'r) conf_world \<Rightarrow> ('s, 'q, 'r) conf_world" where
  "updateVoiceActivity E w =
     (let cf = conf w;
          cf1 = upd_rows (voice_row E cf) cf;
          remotes = smap_map (\<lambda>_ ci. ci\<lparr>rows := map (\<lambda>i. i\<lparr>pi_voiceActivity := isVoiceActive (pi_sinkId i) cf\<rparr>) (rows ci)\<rparr>)
                      (remoteHosts cf);
          states = foldl (\<lambda>m (_, ci). voice_states (rows ci) m) (voice_states (rows (confInfo cf1)) []) remotes
      in sendVoiceActivity E
           (emit (MixerVoiceActivity states) (upd_conf (\<lambda>_. cf1\<lparr>remoteHosts := remotes\<rparr>) w)))"

section \<open>The host's own sources\<close>

definition conf_setState :: "conf_state \<Rightarrow> ('s, 'q, 'r) conf_world \<Rightarrow> ('s, 'q, 'r) conf_world" where
  "conf_setState st w = upd_conf (\<lambda>c. c\<lparr>confState := st\<rparr>) w"

definition NEGOTIATION_SUCCESS :: string where "NEGOTIATION_SUCCESS = ''NEGOTIATION_SUCCESS''"

definition reportMediaNegotiationStatus :: "string \<Rightarrow> ('s, 'q, 'r) conf_world \<Rightarrow> ('s, 'q, 'r) conf_world" where
  "reportMediaNegotiationStatus event w =
     emit (MediaNegotiated event (mediaAttributesToMediaMaps (hostSources (conf w)))) w"

definition host_source :: "media_type \<Rightarrow> string \<Rightarrow> string \<Rightarrow> media_attribute" where
  "host_source t source label =
     \<lparr>ma_type = t, ma_muted = False, ma_secure = False, ma_enabled = True, ma_sourceUri = source, ma_label = label, ma_onHold = False\<rparr>"

definition setLocalHostDefaultMediaSource ::
  "('q, 's) conf_env \<Rightarrow> bool \<Rightarrow> string \<Rightarrow> ('s, 'q, 'r) conf_world \<Rightarrow> ('s, 'q, 'r) conf_world" where
  "setLocalHostDefaultMediaSource E addVideo source w =
     (let audio = host_source MEDIA_AUDIO [] DEFAULT_AUDIO_STREAMID;
          video = host_source MEDIA_VIDEO (if source = [] then env_defaultVideo E else source) DEFAULT_VIDEO_STREAMID
      in reportMediaNegotiationStatus NEGOTIATION_SUCCESS
           (upd_conf (\<lambda>c. c\<lparr>hostSources := audio # (if isVideoEnabled E \<and> addVideo then [video] else [])\<rparr>) w))"

definition setLocalHostMuteState :: "media_type \<Rightarrow> bool \<Rightarrow> ('s, 'q, 'r) conf_world \<Rightarrow> ('s, 'q, 'r) conf_world" where
  "setLocalHostMuteState t m w =
     upd_conf (\<lambda>c. c\<lparr>hostSources := map (\<lambda>s. if ma_type s = t then s\<lparr>ma_muted := m\<rparr> else s) (hostSources c)\<rparr>) w"

definition isMediaSourceMuted :: "media_type \<Rightarrow> conference \<Rightarrow> bool" where
  "isMediaSourceMuted t cf \<longleftrightarrow>
     confState cf \<noteq> ACTIVE_ATTACHED \<or> (t \<noteq> MEDIA_AUDIO \<and> t \<noteq> MEDIA_VIDEO) \<or>
     list_ex (\<lambda>s. ma_muted s \<and> ma_type s = t \<or> ma_type s = MEDIA_NONE) (hostSources cf)"

definition host_muted :: "conference \<Rightarrow> bool" where
  "host_muted cf \<longleftrightarrow> isMediaSourceMuted MEDIA_AUDIO cf \<or> isMuted HOST cf"

section \<open>Routing\<close>

definition bind_to ::
  "('q, 's) conf_env \<Rightarrow> string \<Rightarrow> string \<Rightarrow> ('s, 'q, 'r) conf_world \<Rightarrow> ('s, 'q, 'r) conf_world" where
  "bind_to E participant_id item w =
     (let w1 = (if participant_id \<noteq> item then
                  (case conf_getCall E item of
                     Some _ \<Rightarrow> with_pool (if isMuted item (conf w) then bindHalfDuplexOut item participant_id
                                         else bindCallID participant_id item) w
                   | None \<Rightarrow> w)
                else w)
      in with_pool (RingBufferPool_flush item) w1)"

definition bindParticipant ::
  "('q, 's) conf_env \<Rightarrow> string \<Rightarrow> ('s, 'q, 'r) conf_world \<Rightarrow> ('s, 'q, 'r) conf_world" where
  "bindParticipant E participant_id w =
     (let w1 = for_participants (bind_to E participant_id) w; cf = conf w1 in
      if confState cf = ACTIVE_ATTACHED then
        with_pool (\<lambda>p.
          let p1 = setMicMuted participant_id (host_muted cf) p;
              p2 = (if localPlaybackMuted cf then bindHalfDuplexOut participant_id DEFAULT_ID p1
                    else if host_muted cf then bindHalfDuplexOut DEFAULT_ID participant_id p1
                    else bindCallID participant_id DEFAULT_ID p1)
          in RingBufferPool_flush DEFAULT_ID p2) w1
      else w1)"

definition unbindParticipant :: "string \<Rightarrow> ('s, 'q, 'r) conf_world \<Rightarrow> ('s, 'q, 'r) conf_world" where
  "unbindParticipant participant_id w = with_pool (unBindAllHalfDuplexOut participant_id) w"

definition bindHost :: "('q, 's) conf_env \<Rightarrow> ('s, 'q, 'r) conf_world \<Rightarrow> ('s, 'q, 'r) conf_world" where
  "bindHost E w =
     foreachCall E (\<lambda>item _ w.
       let w1 = with_pool (setMicMuted item False) w in
       if isMuted item (conf w1) then w1
       else with_pool (RingBufferPool_flush DEFAULT_ID)
              (with_pool (if localPlaybackMuted (conf w1) then bindHalfDuplexOut item DEFAULT_ID
                          else bindCallID item DEFAULT_ID) w1)) w"

definition unbindHost :: "('s, 'q, 'r) conf_world \<Rightarrow> ('s, 'q, 'r) conf_world" where
  "unbindHost w =
     for_participants (\<lambda>item w. with_pool (setMicMuted item True)
       (with_pool (unBindHalfDuplexOut item DEFAULT_ID) w)) w"

definition attach_audio ::
  "('q, 's) conf_env \<Rightarrow> bool \<Rightarrow> string \<Rightarrow> ('s, 'q, 'r) conf_world \<Rightarrow> ('s, 'q, 'r) conf_world" where
  "attach_audio E hostMuted p w =
     (let w1 = (case conf_getCall E p of
            None \<Rightarrow> w
          | Some _ \<Rightarrow>
              let silenced = (localPlaybackMuted (conf w) \<or> isMuted p (conf w)) in
              with_pool (\<lambda>q. RingBufferPool_flush p
                (let q1 = setMicMuted p hostMuted q in
                 if hostMuted \<and> silenced then q1
                 else if hostMuted then bindHalfDuplexOut DEFAULT_ID p q1
                 else if silenced then bindHalfDuplexOut p DEFAULT_ID q1
                 else bindCallID p DEFAULT_ID q1)) w)
      in with_pool (RingBufferPool_flush p) w1)"

definition attachLocalParticipant ::
  "('q, 's) conf_env \<Rightarrow> ('s, 'q, 'r) conf_world \<Rightarrow> ('s, 'q, 'r) conf_world" where
  "attachLocalParticipant E w =
     (if confState (conf w) = ACTIVE_DETACHED then
        let w1 = conf_setState ACTIVE_ATTACHED w;
            w2 = for_participants (attach_audio E (host_muted (conf w1))) w1;
            w3 = with_pool (RingBufferPool_flush DEFAULT_ID) w2;
            videoInputs = map ma_sourceUri (filter (\<lambda>s. ma_type s = MEDIA_VIDEO) (hostSources (conf w3)));
            w4 = emit (SwitchInputs videoInputs) w3;
            hostStreamId = streamId [] DEFAULT_VIDEO_STREAMID
        in if videoInputs = [] then emit (AddAudioOnlySource [] hostStreamId []) w4
           else emit (RemoveAudioOnlySource [] hostStreamId) w4
      else w)"

definition detachLocalParticipant ::
  "('q, 's) conf_env \<Rightarrow> ('s, 'q, 'r) conf_world \<Rightarrow> ('s, 'q, 'r) conf_world" where
  "detachLocalParticipant E w =
     (if confState (conf w) = ACTIVE_ATTACHED then
        let w1 = foreachCall E (\<lambda>p _. with_pool (unBindCallID p DEFAULT_ID)) w;
            w2 = emit (RemoveAudioOnlySource [] (streamId [] DEFAULT_VIDEO_STREAMID)) (emit StopInputs w1)
        in conf_setState ACTIVE_DETACHED (setLocalHostDefaultMediaSource E False [] w2)
      else w)"

section \<open>Muting\<close>

text \<open>
  The source first collects the state of the calls for all rows, outside the lock, and then looks
  each row up in what it collected; the lookups are the same.
\<close>

definition updateMuted :: "('q, 's) conf_env \<Rightarrow> ('s, 'q, 'r) conf_world \<Rightarrow> ('s, 'q, 'r) conf_world" where
  "updateMuted E w =
     sendConferenceInfos E
       (upd_conf (\<lambda>cf. upd_rows (\<lambda>i.
          if pi_uri i = []
          then i\<lparr>pi_audioModeratorMuted := isMuted HOST cf, pi_audioLocalMuted := isMediaSourceMuted MEDIA_AUDIO cf\<rparr>
          else case getCallWith E (string_remove_suffix (pi_uri i) CHR ''@'') (pi_device i) cf of
                 Some (callId, c) \<Rightarrow>
                   if callId \<noteq> [] then i\<lparr>pi_audioModeratorMuted := isMuted callId cf, pi_audioLocalMuted := cp_peerMuted c\<rparr>
                   else i
               | None \<Rightarrow> i) cf) w)"

definition muteHost :: "('q, 's) conf_env \<Rightarrow> bool \<Rightarrow> ('s, 'q, 'r) conf_world \<Rightarrow> ('s, 'q, 'r) conf_world" where
  "muteHost E state w =
     (let isHostMuted = isMuted HOST (conf w) in
      updateMuted E
        (if state \<and> \<not> isHostMuted then
           let w1 = upd_conf (\<lambda>c. c\<lparr>participantsMuted := sset_insert HOST (participantsMuted c)\<rparr>) w in
           if \<not> isMediaSourceMuted MEDIA_AUDIO (conf w1) then unbindHost w1
           else for_participants (\<lambda>item. with_pool (setMicMuted item True)) w1
         else if \<not> state \<and> isHostMuted then
           let w1 = upd_conf (\<lambda>c. c\<lparr>participantsMuted := sset_erase HOST (participantsMuted c)\<rparr>) w in
           if \<not> isMediaSourceMuted MEDIA_AUDIO (conf w1) then bindHost E w1 else w1
         else w))"

definition muteCall :: "('q, 's) conf_env \<Rightarrow> string \<Rightarrow> bool \<Rightarrow> ('s, 'q, 'r) conf_world \<Rightarrow> ('s, 'q, 'r) conf_world" where
  "muteCall E callId state w =
     (let isPartMuted = isMuted callId (conf w) in
      if state \<and> \<not> isPartMuted then
        updateMuted E (unbindParticipant callId
          (upd_conf (\<lambda>c. c\<lparr>participantsMuted := sset_insert callId (participantsMuted c)\<rparr>) w))
      else if \<not> state \<and> isPartMuted then
        updateMuted E (bindParticipant E callId
          (upd_conf (\<lambda>c. c\<lparr>participantsMuted := sset_erase callId (participantsMuted c)\<rparr>) w))
      else w)"

text \<open>The rebinding half of \<^verbatim>\<open>muteLocalPlayback\<close> for one participant.\<close>

definition rebind_playback :: "bool \<Rightarrow> bool \<Rightarrow> string \<Rightarrow> ('s, 'q, 'r) conf_world \<Rightarrow> ('s, 'q, 'r) conf_world" where
  "rebind_playback mut hostAudioMuted p w =
     with_pool (\<lambda>q.
       let q1 = unBindHalfDuplexOut DEFAULT_ID p (setMicMuted p hostAudioMuted q);
           q2 = (if \<not> mut \<and> \<not> isMuted p (conf w) then
                   if hostAudioMuted then bindHalfDuplexOut DEFAULT_ID p q1 else bindCallID p DEFAULT_ID q1
                 else q1)
       in RingBufferPool_flush p q2) w"

definition muteLocalPlayback :: "bool \<Rightarrow> ('s, 'q, 'r) conf_world \<Rightarrow> ('s, 'q, 'r) conf_world" where
  "muteLocalPlayback mut w =
     (let w1 = upd_conf (\<lambda>c. c\<lparr>localPlaybackMuted := mut\<rparr>) w;
          w2 = for_participants (\<lambda>p. with_pool (Ring_Buffer_Pool.setLocalPlaybackMuted p mut)) w1
      in if confState (conf w2) \<noteq> ACTIVE_ATTACHED then w2
         else with_pool (RingBufferPool_flush DEFAULT_ID)
                (for_participants (rebind_playback mut (host_muted (conf w2))) w2))"

definition muteLocalHost :: "('q, 's) conf_env \<Rightarrow> bool \<Rightarrow> string \<Rightarrow> ('s, 'q, 'r) conf_world \<Rightarrow> ('s, 'q, 'r) conf_world" where
  "muteLocalHost E is_muted mediaType w =
     (if mediaType = ''MEDIA_TYPE_AUDIO'' then
        let attached = (confState (conf w) = ACTIVE_ATTACHED) in
        if attached \<and> is_muted = isMediaSourceMuted MEDIA_AUDIO (conf w) then w
        else
          let w1 = (if attached \<and> \<not> isMuted HOST (conf w) then
                      (if is_muted then unbindHost w else bindHost E w)
                    else if \<not> attached then for_participants (\<lambda>item. with_pool (setMicMuted item is_muted)) w
                    else w)
          in emit (AudioMuted is_muted) (updateMuted E (setLocalHostMuteState MEDIA_AUDIO is_muted w1))
      else if mediaType = ''MEDIA_TYPE_VIDEO'' then
        if \<not> isVideoEnabled E \<or> is_muted = isMediaSourceMuted MEDIA_VIDEO (conf w) then w
        else
          let w1 = emit (MuteInputs is_muted) (setLocalHostMuteState MEDIA_VIDEO is_muted w);
              w2 = (if is_muted then w1
                    else emit (RemoveAudioOnlySource [] (streamId [] DEFAULT_VIDEO_STREAMID)) w1)
          in emit (VideoMuted is_muted) w2
      else w)"

definition muteStream ::
  "('q, 's) conf_env \<Rightarrow> string \<Rightarrow> string \<Rightarrow> string \<Rightarrow> bool \<Rightarrow> ('s, 'q, 'r) conf_world \<Rightarrow> ('s, 'q, 'r) conf_world" where
  "muteStream E accountUri deviceId stream state w =
     (case env_account E of
        None \<Rightarrow> w
      | Some acc \<Rightarrow>
          let uri = stripSipUriPrefix accountUri in
          if uri = ca_username acc \<or> (uri = [] \<and> take 5 stream = ''host_'') then muteHost E state w
          else
            case find (\<lambda>p. stream \<noteq> [] \<and> take (length p + 1) stream = p @ ''_'') (participants (conf w)) of
              Some p \<Rightarrow> muteCall E p state w
            | None \<Rightarrow>
                (case getCallWith E uri deviceId (conf w) of
                   Some (p, _) \<Rightarrow> muteCall E p state w
                 | None \<Rightarrow>
                     (case getCallFromPeerID E uri (conf w) of
                        Some (p, _) \<Rightarrow> muteCall E p state w
                      | None \<Rightarrow> w)))"

definition muteParticipant ::
  "('q, 's) conf_env \<Rightarrow> string \<Rightarrow> bool \<Rightarrow> ('s, 'q, 'r) conf_world \<Rightarrow> ('s, 'q, 'r) conf_world" where
  "muteParticipant E participant_id state w =
     (let cf = conf w;
          remoteHost = findHostforRemoteParticipant (remoteHosts cf) participant_id [];
          forward = (if remoteHost \<noteq> [] then getCallFromPeerID E (string_remove_suffix remoteHost CHR ''@'') cf else None)
      in case forward of
           Some (p, c) \<Rightarrow> (case cp_account c of None \<Rightarrow> w | Some _ \<Rightarrow> emit (SendConfOrder p participant_id state) w)
         | None \<Rightarrow>
             if isHost E participant_id cf then muteHost E state w
             else case getCallFromPeerID E participant_id cf of
                    Some (p, _) \<Rightarrow> muteCall E p state w
                  | None \<Rightarrow> w)"

section \<open>Hands, voices, moderators, layout\<close>

definition hand_key :: "('q, 's) conf_env \<Rightarrow> string \<Rightarrow> string \<Rightarrow> conference \<Rightarrow> string option" where
  "hand_key E accountUri deviceId cf =
     (let uri = stripSipUriPrefix accountUri in
      if isHost E uri cf then Some HOST
      else case getCallWith E uri deviceId cf of
             Some (p, _) \<Rightarrow> Some p
           | None \<Rightarrow> map_option fst (getCallFromPeerID E uri cf))"

definition setHandRaised ::
  "('q, 's) conf_env \<Rightarrow> string \<Rightarrow> string \<Rightarrow> bool \<Rightarrow> ('s, 'q, 'r) conf_world \<Rightarrow> ('s, 'q, 'r) conf_world" where
  "setHandRaised E accountUri deviceId state w =
     (case hand_key E accountUri deviceId (conf w) of
        None \<Rightarrow> w
      | Some key \<Rightarrow>
          if state \<and> \<not> isHandRaised key (conf w)
          then updateHandsRaised E (upd_conf (\<lambda>c. c\<lparr>handsRaised := sset_insert key (handsRaised c)\<rparr>) w)
          else if \<not> state \<and> isHandRaised key (conf w)
          then updateHandsRaised E (upd_conf (\<lambda>c. c\<lparr>handsRaised := sset_erase key (handsRaised c)\<rparr>) w)
          else w)"

definition stream_exists :: "string \<Rightarrow> conference \<Rightarrow> bool" where
  "stream_exists s cf \<longleftrightarrow>
     list_ex (\<lambda>i. pi_sinkId i = s) (rows (confInfo cf)) \<or>
     list_ex (\<lambda>(_, ci). list_ex (\<lambda>i. pi_sinkId i = s) (rows ci)) (remoteHosts cf)"

definition mark_voice :: "string \<Rightarrow> bool \<Rightarrow> conference \<Rightarrow> conference" where
  "mark_voice s state cf =
     cf\<lparr>streamsVoiceActive := (if state then sset_insert s (streamsVoiceActive cf) else sset_erase s (streamsVoiceActive cf))\<rparr>"

definition setVoiceActivity ::
  "('q, 's) conf_env \<Rightarrow> string \<Rightarrow> bool \<Rightarrow> ('s, 'q, 'r) conf_world \<Rightarrow> ('s, 'q, 'r) conf_world" where
  "setVoiceActivity E s newState w =
     (if \<not> stream_exists s (conf w) \<or> isVoiceActive s (conf w) = newState then w
      else updateVoiceActivity E (upd_conf (mark_voice s newState) w))"

definition sinks_of_call :: "('q, 's) conf_env \<Rightarrow> string \<Rightarrow> conference \<Rightarrow> string list" where
  "sinks_of_call E callId cf =
     foldl (\<lambda>ids i. if pi_sinkId i = [] then ids
                     else if pi_callId i \<noteq> [] \<and> pi_callId i = callId then sset_insert (pi_sinkId i) ids
                     else case conf_getCall E callId of
                            Some c \<Rightarrow> if pi_uri i = cp_peerNumber c then sset_insert (pi_sinkId i) ids else ids
                          | None \<Rightarrow> ids) [] (rows (confInfo cf))"

definition setVoiceActivityForCall ::
  "('q, 's) conf_env \<Rightarrow> string \<Rightarrow> bool \<Rightarrow> ('s, 'q, 'r) conf_world \<Rightarrow> ('s, 'q, 'r) conf_world" where
  "setVoiceActivityForCall E callId newState w =
     (let changed = filter (\<lambda>s. isVoiceActive s (conf w) \<noteq> newState) (sinks_of_call E callId (conf w)) in
      if changed = [] then w
      else updateVoiceActivity E (upd_conf (\<lambda>cf. foldl (\<lambda>cf s. mark_voice s newState cf) cf changed) w))"

text \<open>The loop over the participants stops at the first one that is the peer.\<close>

definition setModerator :: "('q, 's) conf_env \<Rightarrow> string \<Rightarrow> bool \<Rightarrow> ('s, 'q, 'r) conf_world \<Rightarrow> ('s, 'q, 'r) conf_world" where
  "setModerator E participant_uri state w =
     (let i = stripSipUriPrefix participant_uri; isPeerModerator = isModerator E i (conf w) in
      case find_call E (\<lambda>c. i = getRemoteId c) (conf w) of
        None \<Rightarrow> w
      | Some _ \<Rightarrow>
          if state \<and> \<not> isPeerModerator
          then updateModerators E (upd_conf (\<lambda>c. c\<lparr>moderators := sset_insert i (moderators c)\<rparr>) w)
          else if \<not> state \<and> isPeerModerator
          then updateModerators E (upd_conf (\<lambda>c. c\<lparr>moderators := sset_erase i (moderators c)\<rparr>) w)
          else w)"

definition setActiveStream :: "string \<Rightarrow> bool \<Rightarrow> ('s, 'q, 'r) conf_world \<Rightarrow> ('s, 'q, 'r) conf_world" where
  "setActiveStream s state w = upd_conf (\<lambda>c. c\<lparr>activeStream := (if state then s else [])\<rparr>) w"

definition setActiveParticipant ::
  "('q, 's) conf_env \<Rightarrow> string \<Rightarrow> ('s, 'q, 'r) conf_world \<Rightarrow> ('s, 'q, 'r) conf_world" where
  "setActiveParticipant E participant_id w =
     (if isHost E participant_id (conf w) then setActiveStream (streamId [] DEFAULT_VIDEO_STREAMID) True w
      else case getCallFromPeerID E participant_id (conf w) of
             Some (p, _) \<Rightarrow> setActiveStream (streamId p DEFAULT_VIDEO_STREAMID) True w
           | None \<Rightarrow>
               if findHostforRemoteParticipant (remoteHosts (conf w)) participant_id [] \<noteq> [] then w
               else setActiveStream [] False w)"

definition setLayout :: "('q, 's) conf_env \<Rightarrow> int \<Rightarrow> ('s, 'q, 'r) conf_world \<Rightarrow> ('s, 'q, 'r) conf_world" where
  "setLayout E layout w =
     (if layout < 0 \<or> layout > 2 then w
      else sendConferenceInfos E (emit (SetVideoLayout layout)
             (upd_conf (\<lambda>c. c\<lparr>confInfo := (confInfo c)\<lparr>ci_layout := layout\<rparr>\<rparr>) w)))"

definition updateConferenceInfo ::
  "('q, 's) conf_env \<Rightarrow> conf_info \<Rightarrow> ('s, 'q, 'r) conf_world \<Rightarrow> ('s, 'q, 'r) conf_world" where
  "updateConferenceInfo E ci w = sendConferenceInfos E (upd_conf (\<lambda>c. c\<lparr>confInfo := ci\<rparr>) w)"

text \<open>
  \<^verbatim>\<open>resize\<close> stands for the floating point scaling of the rows to the peer's place in the local
  picture, \<^verbatim>\<open>resizeRemoteParticipants\<close>; it keeps the number of rows.
\<close>

definition mergeConfInfo ::
  "('q, 's) conf_env \<Rightarrow> (conference \<Rightarrow> conf_info \<Rightarrow> conf_info) \<Rightarrow> conf_info \<Rightarrow> string \<Rightarrow> ('s, 'q, 'r) conf_world \<Rightarrow>
     ('s, 'q, 'r) conf_world" where
  "mergeConfInfo E resize newInfo peerURI w =
     (if rows newInfo = []
      then sendConferenceInfos E (upd_conf (\<lambda>c. c\<lparr>remoteHosts := fst (merge_remote newInfo peerURI (remoteHosts c))\<rparr>) w)
      else
        let (remotes, updateNeeded) = merge_remote (resize (conf w) newInfo) peerURI (remoteHosts (conf w));
            w1 = upd_conf (\<lambda>c. c\<lparr>remoteHosts := remotes\<rparr>) w
        in if updateNeeded then emit UpdateLayout w1 else w1)"

section \<open>Recording\<close>

definition updateRecording :: "('q, 's) conf_env \<Rightarrow> ('s, 'q, 'r) conf_world \<Rightarrow> ('s, 'q, 'r) conf_world" where
  "updateRecording E w =
     sendConferenceInfos E
       (upd_conf (\<lambda>cf. upd_rows (\<lambda>i.
          if pi_uri i = [] then i\<lparr>pi_recording := conf_recording cf\<rparr>
          else case getCallWith E (string_remove_suffix (pi_uri i) CHR ''@'') (pi_device i) cf of
                 Some (_, c) \<Rightarrow> i\<lparr>pi_recording := cp_peerRecording c\<rparr>
               | None \<Rightarrow> i) cf) w)"

definition drop_ghost :: "('s, 'q, 'r) conf_world \<Rightarrow> ('s, 'q, 'r) conf_world" where
  "drop_ghost w =
     (case ghostRingBuffer (conf w) of
        Some a \<Rightarrow> upd_conf (\<lambda>c. c\<lparr>ghostRingBuffer := None\<rparr>) (with_pool (release a) w)
      | None \<Rightarrow> w)"

text \<open>A ghost participant named like the conference receives the mix for the recorder.\<close>

definition initRecorder :: "('q, 's) conf_env \<Rightarrow> ('s, 'q, 'r) conf_world \<Rightarrow> ('s, 'q, 'r) conf_world" where
  "initRecorder E w =
     (let (a, q) = createRingBuffer (env_fifo E) (conf_id (conf w)) (rb_pool w);
          w1 = upd_conf (\<lambda>c. c\<lparr>ghostRingBuffer := Some a\<rparr>) (w\<lparr>rb_pool := q\<rparr>)
      in emit (RecorderStreams True) (bindParticipant E (conf_id (conf w1)) w1))"

definition deinitRecorder :: "('s, 'q, 'r) conf_world \<Rightarrow> ('s, 'q, 'r) conf_world" where
  "deinitRecorder w = drop_ghost (with_pool (unBindAll (conf_id (conf w))) (emit (RecorderStreams False) w))"

definition conf_startRecording :: "('q, 's) conf_env \<Rightarrow> ('s, 'q, 'r) conf_world \<Rightarrow> ('s, 'q, 'r) conf_world" where
  "conf_startRecording E w =
     updateRecording E (upd_conf (\<lambda>c. if conf_recording c then c else c\<lparr>conf_recording := env_recorderStarts E\<rparr>) w)"

definition conf_stopRecording :: "('q, 's) conf_env \<Rightarrow> ('s, 'q, 'r) conf_world \<Rightarrow> ('s, 'q, 'r) conf_world" where
  "conf_stopRecording E w = updateRecording E (upd_conf (\<lambda>c. c\<lparr>conf_recording := False\<rparr>) w)"

definition toggleRecording :: "('q, 's) conf_env \<Rightarrow> ('s, 'q, 'r) conf_world \<Rightarrow> ('s, 'q, 'r) conf_world" where
  "toggleRecording E w =
     (let newState = (\<not> conf_recording (conf w));
          w1 = (if newState then initRecorder E w else deinitRecorder w);
          w2 = foreachCall E (\<lambda>p _. emit (UpdateRecState p newState)) w1;
          w3 = (if \<not> conf_recording (conf w2) then conf_startRecording E w2 else conf_stopRecording E w2)
      in updateRecording E w3)"

section \<open>Members\<close>

definition takeover_media :: "('q, 's) conf_env \<Rightarrow> media_attribute list \<Rightarrow> media_attribute list" where
  "takeover_media E ms =
     (if list_ex hasValidVideo ms \<or> \<not> isVideoEnabled E then ms
      else if list_ex (\<lambda>m. ma_type m = MEDIA_VIDEO) ms then
        (let i = length (takeWhile (\<lambda>m. ma_type m \<noteq> MEDIA_VIDEO) ms); m = ms ! i in
         ms[i := m\<lparr>ma_enabled := True,
                   ma_label := (if ma_label m = [] then DEFAULT_VIDEO_STREAMID else ma_label m),
                   ma_sourceUri := (if ma_sourceUri m = [] then env_defaultVideo E else ma_sourceUri m)\<rparr>])
      else ms @ [host_source MEDIA_VIDEO (env_defaultVideo E) DEFAULT_VIDEO_STREAMID])"

text \<open>One turn of the loop over the media types: the first medium of the type is taken over.\<close>

definition take_over_type ::
  "media_type \<Rightarrow> media_attribute list \<times> ('s, 'q, 'r) conf_world \<Rightarrow> media_attribute list \<times> ('s, 'q, 'r) conf_world" where
  "take_over_type t s =
     (case s of (ms, w) \<Rightarrow>
      let i = length (takeWhile (\<lambda>m. ma_type m \<noteq> t) ms) in
      if i = length ms then (ms, w)
      else
        (ms[i := (ms ! i)\<lparr>ma_onHold := False, ma_muted := False\<rparr>],
         if confState (conf w) = ACTIVE_ATTACHED \<and> length (participants (conf w)) = 1
         then setLocalHostMuteState t (ma_muted (ms ! i)) w else w))"

definition takeOverMediaSourceControl ::
  "('q, 's) conf_env \<Rightarrow> string \<Rightarrow> ('s, 'q, 'r) conf_world \<Rightarrow> ('s, 'q, 'r) conf_world" where
  "takeOverMediaSourceControl E callId w =
     (case conf_getCall E callId of
        None \<Rightarrow> w
      | Some c \<Rightarrow>
          (case cp_account c of
             None \<Rightarrow> w
           | Some _ \<Rightarrow>
               let (ms, w1) = take_over_type MEDIA_VIDEO (take_over_type MEDIA_AUDIO (takeover_media E (cp_media c), w));
                   w2 = emit (RequestMediaChange callId (mediaAttributesToMediaMaps ms)) w1
               in emit (VideoMuted (isMediaSourceMuted MEDIA_VIDEO (conf w2)))
                    (emit (AudioMuted (isMediaSourceMuted MEDIA_AUDIO (conf w2))) w2)))"

definition add_moderators :: "('q, 's) conf_env \<Rightarrow> conf_peer \<Rightarrow> conf_account \<Rightarrow> conference \<Rightarrow> conference" where
  "add_moderators E c a cf =
     (let add = foldl (\<lambda>ms m. sset_insert m ms);
          c1 = cf\<lparr>moderators := add (moderators cf) (ca_defaultModerators a)\<rparr>;
          c2 = (if ca_localModeratorsEnabled a \<and> \<not> localModAdded c1
                then c1\<lparr>moderators := add (moderators c1) (env_usernames E), localModAdded := True\<rparr> else c1)
      in if ca_allModerators a then c2\<lparr>moderators := sset_insert (getRemoteId c) (moderators c2)\<rparr> else c2)"

definition addParticipant ::
  "('q, 's) conf_env \<Rightarrow> string \<Rightarrow> ('s, 'q, 'r) conf_world \<Rightarrow> ('s, 'q, 'r) conf_world" where
  "addParticipant E participant_id w =
     (if participant_id \<in> set (participants (conf w)) then w
      else
        let w1 = upd_conf (\<lambda>c. c\<lparr>participants := sset_insert participant_id (participants c)\<rparr>) w in
        case conf_getCall E participant_id of
          None \<Rightarrow> w1
        | Some c \<Rightarrow>
            let wasAudioOnly = (\<not> list_ex hasValidVideo (cp_media c));
                w2 = (if cp_peerMuted c
                      then upd_conf (\<lambda>cf. cf\<lparr>participantsMuted := sset_insert participant_id (participantsMuted cf)\<rparr>) w1
                      else w1);
                w3 = takeOverMediaSourceControl E participant_id (emit (AudioManaged participant_id True) w2);
                w4 = (if localPlaybackMuted (conf w3)
                      then with_pool (Ring_Buffer_Pool.setLocalPlaybackMuted participant_id True) w3 else w3);
                w5 = (case cp_account c of Some a \<Rightarrow> upd_conf (add_moderators E c a) w4 | None \<Rightarrow> w4);
                w6 = (if wasAudioOnly
                      then emit (AddAudioOnlySource participant_id (streamId participant_id DEFAULT_AUDIO_STREAMID) (cp_peerNumber c)) w5
                      else w5);
                w7 = emit (EnterConference participant_id) w6
            in if cp_recording c
               then let w8 = emit (ToggleCallRecording participant_id) w7
                    in if conf_recording (conf w8) then w8 else toggleRecording E w8
               else w7)"

definition removeParticipant ::
  "('q, 's) conf_env \<Rightarrow> string \<Rightarrow> ('s, 'q, 'r) conf_world \<Rightarrow> ('s, 'q, 'r) conf_world" where
  "removeParticipant E p w =
     (let w1 = with_pool (\<lambda>q. setMicMuted p False (Ring_Buffer_Pool.setLocalPlaybackMuted p False q)) w in
      if p \<notin> set (participants (conf w1)) then w1
      else
        let w2 = upd_conf (\<lambda>c. c\<lparr>participants := sset_erase p (participants c)\<rparr>) w1 in
        case conf_getCall E p of
          None \<Rightarrow> w2
        | Some c \<Rightarrow>
            let w3 = upd_conf (\<lambda>cf. cf\<lparr>participantsMuted := sset_erase p (participantsMuted cf),
                                      handsRaised := sset_erase p (handsRaised cf),
                                      activeStream := (if activeStream cf = streamId p DEFAULT_VIDEO_STREAMID then []
                                                       else activeStream cf)\<rparr>) w2;
                w4 = emit (ExitConference p) w3
            in if cp_peerRecording c then emit (PeerRecording p False) w4 else w4)"

text \<open>The part of the destructor that concerns the pool and the calls.\<close>

definition Conference_destroy :: "('q, 's) conf_env \<Rightarrow> ('s, 'q, 'r) conf_world \<Rightarrow> ('s, 'q, 'r) conf_world" where
  "Conference_destroy E w =
     foreachCall E (\<lambda>p _. emit (ExitConference p))
       (for_participants (\<lambda>p. with_pool (\<lambda>q. setMicMuted p False (Ring_Buffer_Pool.setLocalPlaybackMuted p False q))) w)"

section \<open>Requests of the client and of peers\<close>

text \<open>One turn of the loop of \<^verbatim>\<open>requestMediaChange\<close>, with the attributes handled so far.\<close>

definition change_source ::
  "('q, 's) conf_env \<Rightarrow> media_attribute list \<times> ('s, 'q, 'r) conf_world \<Rightarrow> media_attribute \<Rightarrow>
     media_attribute list \<times> ('s, 'q, 'r) conf_world" where
  "change_source E s m =
     (case s of (ms, w) \<Rightarrow>
      let old = find (\<lambda>o'. ma_sourceUri o' = ma_sourceUri m \<and> ma_type o' = ma_type m) (hostSources (conf w));
          new_video = (old = None \<and> ma_type m = MEDIA_VIDEO);
          m1 = (if new_video \<and> ma_sourceUri m = [] then m\<lparr>ma_sourceUri := env_defaultVideo E\<rparr> else m);
          w1 = (if new_video
                then emit (RemoveAudioOnlySource [] (streamId [] DEFAULT_VIDEO_STREAMID)) (emit (SwitchInputs [ma_sourceUri m1]) w)
                else w);
          w2 = (if old = None \<or> ma_muted m1 \<noteq> ma_muted (the old)
                then muteLocalHost E (ma_muted m1)
                       (if ma_type m1 = MEDIA_AUDIO then ''MEDIA_TYPE_AUDIO'' else ''MEDIA_TYPE_VIDEO'') w1
                else w1)
      in (ms @ [m1], w2))"

definition requestMediaChange ::
  "('q, 's) conf_env \<Rightarrow> media_map list \<Rightarrow> ('s, 'q, 'r) conf_world \<Rightarrow> bool \<times> ('s, 'q, 'r) conf_world" where
  "requestMediaChange E mediaList w =
     (if confState (conf w) \<noteq> ACTIVE_ATTACHED then (False, w)
      else
        let (ms, w1) = foldl (change_source E) ([], w) (buildMediaAttributesList mediaList False)
        in (True, reportMediaNegotiationStatus NEGOTIATION_SUCCESS (upd_conf (\<lambda>c. c\<lparr>hostSources := ms\<rparr>) w1)))"

text \<open>
  A participant asks for other media. The first loop reads every map and throws if an entry it
  needs is missing; the list it filters is not used afterwards. \<^verbatim>\<open>inConf\<close> says whether the call has
  already entered this conference. Answers whether it ran to its end.
\<close>

definition media_map_complete :: "media_map \<Rightarrow> bool" where
  "media_map_complete m \<longleftrightarrow>
     (case smap_find m KEY_MUTED of
        None \<Rightarrow> False
      | Some v \<Rightarrow> v = ''true'' \<or> smap_find m KEY_ENABLED \<noteq> None)"

definition handleMediaChangeRequest ::
  "bool \<Rightarrow> string \<Rightarrow> media_map list \<Rightarrow> ('s, 'q, 'r) conf_world \<Rightarrow> bool \<times> ('s, 'q, 'r) conf_world" where
  "handleMediaChangeRequest inConf callId remoteMediaList w =
     (let current = hostSources (conf w);
          w1 = (if hasMediaType (buildMediaAttributesList remoteMediaList False) MEDIA_VIDEO
                then emit (RemoveAudioOnlySource callId (streamId callId DEFAULT_AUDIO_STREAMID)) w else w)
      in if \<not> list_all media_map_complete remoteMediaList then (False, w1)
         else
           let ours = map toMediaMap (filter (\<lambda>m. ma_enabled m \<and> \<not> ma_muted m) current);
               w2 = emit (AnswerMediaChange callId (ours @ drop (length ours) remoteMediaList)) w1
           in (True, if inConf then w2 else emit (EnterConference callId) w2))"

text \<open>
  \<^verbatim>\<open>Manager::processRemainingParticipants\<close>: with one participant or none the conference is over, and the last
  call becomes the current one or is put on hold, unless its account is a rendez-vous point.
\<close>

definition processRemainingParticipants :: "('q, 's) conf_env \<Rightarrow> ('s, 'q, 'r) conf_world \<Rightarrow> ('s, 'q, 'r) conf_world" where
  "processRemainingParticipants E w =
     (let over = (if env_account E = None then id else emit RemoveConference) in
      case participants (conf w) of
        [] \<Rightarrow> emit (SwitchCall []) (over w)
      | [p] \<Rightarrow>
          (case conf_getCall E p of
             None \<Rightarrow> over w
           | Some c \<Rightarrow>
               (case cp_account c of
                  None \<Rightarrow> w
                | Some a \<Rightarrow>
                    if ca_rendezVous a then w
                    else over (emit (if env_currentCall E \<noteq> conf_id (conf w) then OnHoldCall p else SwitchCall p) w)))
      | _ \<Rightarrow> with_pool (RingBufferPool_flush DEFAULT_ID) (for_participants (\<lambda>p. with_pool (RingBufferPool_flush p)) w))"

text \<open>
  \<^verbatim>\<open>Manager::hangupCall\<close> for a call of this conference, with \<^verbatim>\<open>removeAudio\<close> and \<^verbatim>\<open>removeParticipant\<close>. A call that does
  not belong to the account is left alone.
\<close>

definition Manager_removeParticipant ::
  "('q, 's) conf_env \<Rightarrow> string \<Rightarrow> ('s, 'q, 'r) conf_world \<Rightarrow> ('s, 'q, 'r) conf_world" where
  "Manager_removeParticipant E p w =
     (let w1 = with_pool (unBindAll p) (removeParticipant E p w)
      in processRemainingParticipants E (emit (ConferenceChanged (confState (conf w1))) w1))"

definition hangupCall :: "('q, 's) conf_env \<Rightarrow> string \<Rightarrow> string \<Rightarrow> ('s, 'q, 'r) conf_world \<Rightarrow> ('s, 'q, 'r) conf_world" where
  "hangupCall E accountId callId w =
     (case conf_getCall E callId of
        Some c \<Rightarrow>
          if map_option ca_id (cp_account c) = Some accountId
          then emit (HangupCall callId) (Manager_removeParticipant E callId (with_pool (unBindAll callId) w))
          else w
      | None \<Rightarrow> w)"

text \<open>
  How the manager brings a call into the conference, with the state the call reports. Leaving
  another conference first concerns that conference only.
\<close>

definition bindCallToConference ::
  "('q, 's) conf_env \<Rightarrow> string \<Rightarrow> string \<Rightarrow> ('s, 'q, 'r) conf_world \<Rightarrow> ('s, 'q, 'r) conf_world" where
  "bindCallToConference E callId state w =
     (let w0 = (if callId \<in> set (participants (conf w)) then Manager_removeParticipant E callId w else w);
          w1 = with_pool (unBindHalfDuplexOut DEFAULT_ID callId) (with_pool (unBindAll callId) w0);
          w2 = addParticipant E callId w1
      in if state = ''HOLD'' then emit (OffHoldCall callId) (bindParticipant E callId w2)
         else if state = ''INCOMING'' then emit (AnswerCall callId) (bindParticipant E callId w2)
         else if state = ''CURRENT'' then bindParticipant E callId w2
         else if state = ''INACTIVE'' then emit (AnswerCall callId) (bindParticipant E callId w2)
         else w2)"

text \<open>\<^verbatim>\<open>while (auto call = getCallFromPeerID(uri)) hangupCall(...)\<close>; \<^verbatim>\<open>None\<close> if it never ends.\<close>

partial_function (option) hangup_all ::
  "('q, 's) conf_env \<Rightarrow> string \<Rightarrow> string \<Rightarrow> ('s, 'q, 'r) conf_world \<Rightarrow> ('s, 'q, 'r) conf_world option" where
  "hangup_all E accountId uri w =
     (case getCallFromPeerID E uri (conf w) of
        None \<Rightarrow> Some w
      | Some (p, _) \<Rightarrow> hangup_all E accountId uri (hangupCall E accountId p w))"

definition hangupParticipant ::
  "('q, 's) conf_env \<Rightarrow> string \<Rightarrow> string \<Rightarrow> ('s, 'q, 'r) conf_world \<Rightarrow> ('s, 'q, 'r) conf_world option" where
  "hangupParticipant E participantUri deviceId w =
     (case env_account E of
        None \<Rightarrow> Some w
      | Some acc \<Rightarrow>
          let uri = stripSipUriPrefix participantUri in
          if deviceId = [] then hangup_all E (ca_id acc) uri w
          else if uri = ca_username acc
          then (let w1 = detachLocalParticipant E w in Some (emit (ConferenceChanged (confState (conf w1))) w1))
          else case getCallWith E uri deviceId (conf w) of
                 Some (p, _) \<Rightarrow> Some (hangupCall E (ca_id acc) p w)
               | None \<Rightarrow>
                   let remoteHost = findHostforRemoteParticipant (remoteHosts (conf w)) uri deviceId in
                   if remoteHost = [] then Some w
                   else case getCallFromPeerID E (string_remove_suffix remoteHost CHR ''@'') (conf w) of
                          Some (p, _) \<Rightarrow> Some (emit (ForwardHangup p uri deviceId) w)
                        | None \<Rightarrow> Some w)"

text \<open>The handlers the constructor registers.\<close>

fun apply_order ::
  "('q, 's) conf_env \<Rightarrow> conf_call \<Rightarrow> ('s, 'q, 'r) conf_world \<Rightarrow> ('s, 'q, 'r) conf_world option" where
  "apply_order E (Version _) w = Some w"
| "apply_order E (HangupParticipant uri dev) w = hangupParticipant E uri dev w"
| "apply_order E (RaiseHand uri dev state) w = Some (setHandRaised E uri dev state w)"
| "apply_order E (SetActiveStream s state) w = Some (setActiveStream s state w)"
| "apply_order E (MuteStreamAudio uri dev s state) w = Some (muteStream E uri dev s state w)"
| "apply_order E (MuteStreamVideo _ _ _ _) w = Some w"
| "apply_order E (SetLayout l) w = Some (setLayout E l w)"
| "apply_order E (KickParticipant i) w = hangupParticipant E i [] w"
| "apply_order E (SetActiveParticipant i) w = Some (setActiveParticipant E i w)"
| "apply_order E (MuteParticipant i state) w = Some (muteParticipant E i state w)"
| "apply_order E (RaiseHandUri uri state) w = Some (setHandRaised E uri [] state w)"
| "apply_order E (VoiceActivity s state) w = Some (setVoiceActivity E s state w)"

definition order_handlers :: "('q, 's) conf_env \<Rightarrow> conference \<Rightarrow> conf_handlers" where
  "order_handlers E cf =
     \<lparr>on_version = True, on_checkAuthorization = Some (\<lambda>peer. isModerator E peer cf), on_hangupParticipant = True,
      on_raiseHand = True, on_setActiveStream = True, on_muteStreamAudio = True, on_muteStreamVideo = False,
      on_setLayout = True, on_raiseHandUri = True, on_kickParticipant = True, on_setActiveParticipant = True,
      on_muteParticipant = True, on_voiceActivity = True\<rparr>"

fun apply_orders ::
  "('q, 's) conf_env \<Rightarrow> conf_call list \<Rightarrow> ('s, 'q, 'r) conf_world \<Rightarrow> ('s, 'q, 'r) conf_world option" where
  "apply_orders E [] w = Some w"
| "apply_orders E (c # cs) w = Option.bind (apply_order E c w) (apply_orders E cs)"

text \<open>
  The authorisation is checked once, before the first handler runs, and the parser does not look at
  the conference again, so the handlers can be run after it.
\<close>

definition onConfOrder ::
  "('j, 'text) json_lib \<Rightarrow> ('q, 's) conf_env \<Rightarrow> string \<Rightarrow> 'text \<Rightarrow> ('s, 'q, 'r) conf_world \<Rightarrow>
     ('s, 'q, 'r) conf_world option" where
  "onConfOrder J E callId order w =
     (case conf_getCall E callId of
        None \<Rightarrow> Some w
      | Some c \<Rightarrow>
          (case j_read J order of
             None \<Rightarrow> Some w
           | Some root \<Rightarrow> apply_orders E (fst (parse_order J (order_handlers E (conf w)) (getRemoteId c) root)) w))"

end
