(* ===== verification/Conference_Mute.thy ===== *)
theory Conference_Mute
  imports Conference
begin

text \<open>
  Who hears whom in a conference. Muting the host has two layers, the bindings of the pool and the
  microphone filter; the first theorem says that the filter alone keeps the muted host's microphone out of
  what the bound participants receive, whatever other threads do to the bindings. The others say
  exactly what a moderator's mute reaches, and two things that go wrong.
\<close>

section \<open>What the operations leave alone\<close>

lemma getRingBuffer_parts [simp]:
  "micMutedIds (snd (getRingBuffer i p)) = micMutedIds p"
  "bound (snd (getRingBuffer i p)) = bound p"
  "heap (snd (getRingBuffer i p)) = heap p"
  by (auto simp: getRingBuffer_def bound_def fun_eq_iff split: option.splits)

lemma getRingBuffer_mic: "getRingBuffer i p = (r, q) \<Longrightarrow> micMutedIds q = micMutedIds p"
  using getRingBuffer_parts(1) [of i p] by simp

lemma reader_mic [simp]:
  "micMutedIds (addReaderToRingBuffer a k p) = micMutedIds p"
  "micMutedIds (removeReaderFromRingBuffer a k p) = micMutedIds p"
  by (auto simp: addReaderToRingBuffer_def removeReaderFromRingBuffer_def removeReadBindings_def Let_def
      split: option.splits)

lemma foldl_mic: "(\<And>p x. micMutedIds (g p x) = micMutedIds p) \<Longrightarrow> micMutedIds (foldl g p xs) = micMutedIds p"
  by (induction xs arbitrary: p) auto

lemma bindings_mic [simp]:
  "micMutedIds (bindCallID i j p) = micMutedIds p" "micMutedIds (unBindCallID i j p) = micMutedIds p"
  "micMutedIds (bindHalfDuplexOut i j p) = micMutedIds p" "micMutedIds (unBindHalfDuplexOut i j p) = micMutedIds p"
  "micMutedIds (unBindAllHalfDuplexOut i p) = micMutedIds p" "micMutedIds (unBindAll i p) = micMutedIds p"
  by (auto simp: bindCallID_def unBindCallID_def with_two_buffers_def bindHalfDuplexOut_def unBindHalfDuplexOut_def
      unBindAllHalfDuplexOut_def unBindAll_def foldl_mic dest!: getRingBuffer_mic split: prod.split option.split)

lemma streams_mic [simp]:
  "micMutedIds (RingBufferPool_flush i p) = micMutedIds p" "micMutedIds (flushAllBuffers p) = micMutedIds p"
  "micMutedIds (snd (RingBufferPool_discard n i p)) = micMutedIds p"
  "micMutedIds (release a p) = micMutedIds p" "micMutedIds (snd (createRingBuffer av i p)) = micMutedIds p"
  "micMutedIds (setInternalSamplingRate sr p) = micMutedIds p"
  "micMutedIds (Ring_Buffer_Pool.setLocalPlaybackMuted i b p) = micMutedIds p"
  "micMutedIds (setAudioMeterState i b p) = micMutedIds p"
  by (auto simp: RingBufferPool_flush_def RingBufferPool_discard_def release_def createRingBuffer_def
      setInternalSamplingRate_def Ring_Buffer_Pool.setLocalPlaybackMuted_def setAudioMeterState_def flushAllBuffers_def
      Let_def foldl_mic case_prod_beta dest!: getRingBuffer_mic split: prod.split option.split)

lemma read_mic: "micMutedIds (snd (read_buffer a k fp fm p)) = micMutedIds p"
  using read_upd [of a k fp fm p] by auto

lemma mix_loop_mic: "micMutedIds (snd (mix_loop mx k fp fm as m b p)) = micMutedIds p"
proof (induction mx k fp fm as m b p rule: mix_loop.induct)
  case (2 mx call_id fp fm a as mixBuffer mixed p)
  obtain f p1 where r: "read_buffer a call_id fp fm p = (f, p1)" by fastforce
  with read_mic [of a call_id fp fm p] have "micMutedIds p1 = micMutedIds p" by simp
  with r 2 show ?case by (auto split: option.split sum.split)
qed simp

lemma skip_mic: "micMutedIds (snd (skipMutedBuffer a k fp fm p)) = micMutedIds p"
  using skip_upd [of a k fp fm p] by (auto simp: pool_get_upd)

lemma available_loop_mic: "micMutedIds (snd (available_loop k fp fm as n p)) = micMutedIds p"
proof (induction k fp fm as n p rule: available_loop.induct)
  case (2 call_id fp fm a as n p)
  obtain b p1 where r: "skipMutedBuffer a call_id fp fm p = (b, p1)" by fastforce
  with skip_mic [of a call_id fp fm p] have "micMutedIds p1 = micMutedIds p" by simp
  with r 2 show ?case by (simp add: Let_def)
qed simp

lemma data_mic [simp]:
  "micMutedIds (snd (getData mx k p)) = micMutedIds p" "micMutedIds (snd (getAvailableData mx k p)) = micMutedIds p"
  by (auto simp: getData_def getAvailableData_def Let_def case_prod_beta read_mic mix_loop_mic available_loop_mic
      simp del: mix_loop.simps available_loop.simps split: option.split)

text \<open>The pool's promise: only \<^verbatim>\<open>setMicMuted\<close> changes the microphone filter.\<close>

definition not_mic :: "'s pool_op \<Rightarrow> bool" where
  "not_mic oper = (case oper of MuteMic _ _ \<Rightarrow> False | _ \<Rightarrow> True)"

interpretation mic: guarded_part micMutedIds "pool_step av rms mx" not_mic
  by unfold_locales (simp add: not_mic_def split: pool_op.splits)

section \<open>The part of the conference that decides about muting\<close>

definition core :: "conference \<Rightarrow> conf_state \<times> string list \<times> string list \<times> media_attribute list" where
  "core cf = (confState cf, participants cf, participantsMuted cf, hostSources cf)"

definition mic :: "('s, 'q, 'r) conf_world \<Rightarrow> string set" where
  "mic w = set (micMutedIds (rb_pool w))"

lemma host_muted_core: "core cf = core cf' \<Longrightarrow> host_muted cf = host_muted cf'"
  by (simp add: core_def host_muted_def isMediaSourceMuted_def isMuted_def)

lemma world_simps [simp]:
  "conf (upd_conf f w) = f (conf w)" "rb_pool (upd_conf f w) = rb_pool w"
  "conf (with_pool g w) = conf w" "rb_pool (with_pool g w) = g (rb_pool w)"
  "conf (emit e w) = conf w" "rb_pool (emit e w) = rb_pool w"
  by (simp_all add: upd_conf_def with_pool_def emit_def)

lemma foldl_keeps: "(\<And>w x. v (f w x) = v w) \<Longrightarrow> v (foldl f w xs) = v w"
  by (induction xs arbitrary: w) auto

lemma for_participants_keeps: "(\<And>p w. v (f p w) = v w) \<Longrightarrow> v (for_participants f w) = v w"
  unfolding for_participants_def by (rule foldl_keeps) simp

lemma foreachCall_keeps: "(\<And>p c w. v (cb p c w) = v w) \<Longrightarrow> v (foreachCall E cb w) = v w"
  unfolding foreachCall_def by (rule for_participants_keeps) (simp split: option.split)

lemma sendConferenceInfos_keeps [simp]:
  "conf (sendConferenceInfos E w) = conf w" "rb_pool (sendConferenceInfos E w) = rb_pool w"
  by (simp_all add: sendConferenceInfos_def Let_def foreachCall_keeps split: option.split)

lemma core_upd_rows [simp]: "core (upd_rows f cf) = core cf"
  by (simp add: core_def upd_rows_def)

lemma updates_keep [simp]:
  "core (conf (updateMuted E w)) = core (conf w)" "rb_pool (updateMuted E w) = rb_pool w"
  "core (conf (updateRecording E w)) = core (conf w)" "rb_pool (updateRecording E w) = rb_pool w"
  by (simp_all add: updateMuted_def updateRecording_def)

lemma fields_of_core:
  assumes "core cf = core cf'"
  shows "confState cf = confState cf'" "participants cf = participants cf'" "participantsMuted cf = participantsMuted cf'"
    "hostSources cf = hostSources cf'"
  using assms by (simp_all add: core_def)

section \<open>What the operations do to the microphone filter\<close>

lemma mic_with_pool: "(\<And>p. micMutedIds (g p) = micMutedIds p) \<Longrightarrow> mic (with_pool g w) = mic w"
  by (simp add: mic_def)

lemma mic_set [simp]: "set (micMutedIds (setMicMuted i b p)) = (if b then insert i (set (micMutedIds p)) else set (micMutedIds p) - {i})"
  by (auto simp: setMicMuted_def)

lemma mic_simps [simp]:
  "mic (upd_conf f w) = mic w" "mic (emit e w) = mic w" "mic (updateMuted E w) = mic w"
  "mic (updateRecording E w) = mic w" "mic (sendConferenceInfos E w) = mic w"
  by (simp_all add: mic_def)

lemma bind_to_keeps [simp]: "conf (bind_to E p i w) = conf w" "mic (bind_to E p i w) = mic w"
  by (simp_all add: bind_to_def mic_def Let_def split: option.split)

lemma bindParticipant_effect [simp]:
  "conf (bindParticipant E p w) = conf w"
  "mic (bindParticipant E p w) =
     (if confState (conf w) = ACTIVE_ATTACHED then if host_muted (conf w) then insert p (mic w) else mic w - {p} else mic w)"
proof -
  let ?w = "for_participants (bind_to E p) w"
  have c: "conf ?w = conf w" and m: "mic ?w = mic w"
    by (rule for_participants_keeps, simp)+
  show "conf (bindParticipant E p w) = conf w" by (simp add: bindParticipant_def Let_def c)
  show "mic (bindParticipant E p w) =
     (if confState (conf w) = ACTIVE_ATTACHED then if host_muted (conf w) then insert p (mic w) else mic w - {p} else mic w)"
    using m by (simp add: bindParticipant_def Let_def c mic_def)
qed

lemma mic_loop_set:
  assumes "\<And>p w. conf (f p w) = conf w" and "\<And>p w. mic (f p w) = (if P p then if b then insert p (mic w) else mic w - {p} else mic w)"
  shows "mic (for_participants f w) =
    (if b then mic w \<union> {p \<in> set (participants (conf w)). P p} else mic w - {p \<in> set (participants (conf w)). P p})"
proof -
  have "mic (foldl (\<lambda>w p. f p w) w ps) = (if b then mic w \<union> {p \<in> set ps. P p} else mic w - {p \<in> set ps. P p})" for ps
    by (induction ps arbitrary: w) (auto simp: assms(2))
  then show ?thesis by (simp add: for_participants_def)
qed

lemma unbindHost_effect [simp]:
  "conf (unbindHost w) = conf w" "mic (unbindHost w) = mic w \<union> set (participants (conf w))"
proof -
  let ?f = "\<lambda>item w. with_pool (setMicMuted item True) (with_pool (unBindHalfDuplexOut item DEFAULT_ID) w)"
  show "conf (unbindHost w) = conf w" unfolding unbindHost_def by (rule for_participants_keeps) simp
  show "mic (unbindHost w) = mic w \<union> set (participants (conf w))"
    unfolding unbindHost_def
    by (subst mic_loop_set [where b = True and P = "\<lambda>_. True"]) (auto simp: mic_def)
qed

lemma set_mic_all [simp]:
  "conf (for_participants (\<lambda>item. with_pool (setMicMuted item b)) w) = conf w"
  "mic (for_participants (\<lambda>item. with_pool (setMicMuted item b)) w) =
     (if b then mic w \<union> set (participants (conf w)) else mic w - set (participants (conf w)))"
  by (rule for_participants_keeps, simp) (subst mic_loop_set [where b = b and P = "\<lambda>_. True"], auto simp: mic_def)

lemma bindHost_effect [simp]:
  "conf (bindHost E w) = conf w"
  "mic (bindHost E w) = mic w - {p \<in> set (participants (conf w)). conf_getCall E p \<noteq> None}"
proof -
  let ?f = "\<lambda>p w. case conf_getCall E p of
      Some c \<Rightarrow> let w1 = with_pool (setMicMuted p False) w in
       if isMuted p (conf w1) then w1
       else with_pool (RingBufferPool_flush DEFAULT_ID)
              (with_pool (if localPlaybackMuted (conf w1) then bindHalfDuplexOut p DEFAULT_ID else bindCallID p DEFAULT_ID) w1)
    | None \<Rightarrow> w"
  have 1: "conf (?f p w) = conf w" for p and w :: "('a, 'b, 'c) conf_world" by (simp add: Let_def split: option.split)
  have 2: "mic (?f p w) = (if conf_getCall E p \<noteq> None then if False then insert p (mic w) else mic w - {p} else mic w)"
    for p and w :: "('a, 'b, 'c) conf_world"
    by (cases "conf_getCall E p") (simp_all add: Let_def mic_def)
  have f: "bindHost E w = for_participants ?f w" for w :: "('a, 'b, 'c) conf_world"
    unfolding bindHost_def foreachCall_def ..
  show "conf (bindHost E w) = conf w" unfolding f by (rule for_participants_keeps [where v = conf and f = ?f]) (rule 1)
  show "mic (bindHost E w) = mic w - {p \<in> set (participants (conf w)). conf_getCall E p \<noteq> None}"
    unfolding f mic_loop_set [where f = ?f and b = False and P = "\<lambda>p. conf_getCall E p \<noteq> None", OF 1 2] by simp
qed

lemma attach_audio_effect [simp]:
  "conf (attach_audio E b p w) = conf w"
  "mic (attach_audio E b p w) = (if conf_getCall E p \<noteq> None then if b then insert p (mic w) else mic w - {p} else mic w)"
  by (simp_all add: attach_audio_def mic_def Let_def split: option.split)

lemma attach_loop [simp]:
  "conf (for_participants (attach_audio E b) w) = conf w"
  "mic (for_participants (attach_audio E b) w) =
     (if b then mic w \<union> {p \<in> set (participants (conf w)). conf_getCall E p \<noteq> None}
      else mic w - {p \<in> set (participants (conf w)). conf_getCall E p \<noteq> None})"
  by (rule for_participants_keeps, simp) (rule mic_loop_set, simp_all)

section \<open>The invariant\<close>

definition sources_wf :: "media_attribute list \<Rightarrow> bool" where
  "sources_wf ms \<longleftrightarrow>
     list_all (\<lambda>t. t = MEDIA_AUDIO \<or> t = MEDIA_VIDEO) (map ma_type ms) \<and> count_list (map ma_type ms) MEDIA_AUDIO \<le> 1"

text \<open>The filter covers the participants in \<^verbatim>\<open>J\<close> whenever the host takes part and is muted.\<close>

definition filtered :: "string list \<Rightarrow> ('s, 'q, 'r) conf_world \<Rightarrow> bool" where
  "filtered J w \<longleftrightarrow> (confState (conf w) = ACTIVE_ATTACHED \<and> host_muted (conf w) \<longrightarrow> set J \<subseteq> mic w)"

definition mute_inv :: "('s, 'q, 'r) conf_world \<times> string list \<Rightarrow> bool" where
  "mute_inv s \<longleftrightarrow>
     (case s of (w, J) \<Rightarrow> set J \<subseteq> set (participants (conf w)) \<and> sources_wf (hostSources (conf w)) \<and> filtered J w)"

text \<open>
  A run of the conference: the operations of the manager and the client, and between them any
  operation of other threads on the pool but one that sets the microphone filter. The second
  component remembers who was bound: it is filled by joining and by attaching the host, which skips
  members whose call is gone.
\<close>

datatype 's conf_op =
    JoinCall string string
  | LeaveCall string
  | AttachHost
  | DetachHost
  | HostMute bool
  | CallMute string bool
  | LocalMute bool string
  | HostMedia bool string
  | PlaybackMute bool
  | ChangeMedia "media_map list"
  | ToggleRec
  | OtherThread "'s pool_op"

text \<open>
  Call identifiers are numbers, never the word that stands for the host; the client describes the
  host's media with known types and at most one microphone.
\<close>

fun conf_op_ok :: "'s conf_op \<Rightarrow> bool" where
  "conf_op_ok (JoinCall p _) \<longleftrightarrow> p \<noteq> HOST"
| "conf_op_ok (CallMute p _) \<longleftrightarrow> p \<noteq> HOST"
| "conf_op_ok (ChangeMedia ms) \<longleftrightarrow> sources_wf (buildMediaAttributesList ms False)"
| "conf_op_ok (OtherThread oper) \<longleftrightarrow> not_mic oper"
| "conf_op_ok _ \<longleftrightarrow> True"

definition recognised :: "string \<Rightarrow> bool" where
  "recognised state \<longleftrightarrow> state \<in> {''HOLD'', ''INCOMING'', ''CURRENT'', ''INACTIVE''}"

fun conf_exec ::
  "('s audio_frame \<Rightarrow> 'r) \<Rightarrow> ('s audio_frame \<Rightarrow> 's audio_frame \<Rightarrow> mix_error + 's audio_frame) \<Rightarrow>
     ('q, 's) conf_env \<Rightarrow> 's conf_op \<Rightarrow> ('s, 'q, 'r) conf_world \<times> string list \<Rightarrow> ('s, 'q, 'r) conf_world \<times> string list" where
  "conf_exec rms mx E (JoinCall p st) (w, J) =
     (bindCallToConference E p st w, if recognised st then List.insert p J else removeAll p J)"
| "conf_exec rms mx E (LeaveCall p) (w, J) = (Manager_removeParticipant E p w, removeAll p J)"
| "conf_exec rms mx E AttachHost (w, J) =
     (attachLocalParticipant E w,
      if confState (conf w) = ACTIVE_DETACHED then filter (\<lambda>p. conf_getCall E p \<noteq> None) J else J)"
| "conf_exec rms mx E DetachHost (w, J) = (detachLocalParticipant E w, J)"
| "conf_exec rms mx E (HostMute b) (w, J) = (muteHost E b w, J)"
| "conf_exec rms mx E (CallMute p b) (w, J) = (muteCall E p b w, J)"
| "conf_exec rms mx E (LocalMute b t) (w, J) = (muteLocalHost E b t w, J)"
| "conf_exec rms mx E (HostMedia b src) (w, J) = (setLocalHostDefaultMediaSource E b src w, J)"
| "conf_exec rms mx E (PlaybackMute b) (w, J) = (muteLocalPlayback b w, J)"
| "conf_exec rms mx E (ChangeMedia ms) (w, J) = (snd (requestMediaChange E ms w), J)"
| "conf_exec rms mx E ToggleRec (w, J) = (toggleRecording E w, J)"
| "conf_exec rms mx E (OtherThread oper) (w, J) = (with_pool (\<lambda>p. pool_step (env_fifo E) rms mx p oper) w, J)"

definition conf_step ::
  "('s audio_frame \<Rightarrow> 'r) \<Rightarrow> ('s audio_frame \<Rightarrow> 's audio_frame \<Rightarrow> mix_error + 's audio_frame) \<Rightarrow>
     ('s, 'q, 'r) conf_world \<times> string list \<Rightarrow> ('q, 's) conf_env \<times> 's conf_op \<Rightarrow> ('s, 'q, 'r) conf_world \<times> string list" where
  "conf_step rms mx s e = (if conf_op_ok (snd e) then conf_exec rms mx (fst e) (snd e) s else s)"

lemma mute_invI:
  "set J \<subseteq> set (participants (conf w)) \<Longrightarrow> sources_wf (hostSources (conf w)) \<Longrightarrow> filtered J w \<Longrightarrow> mute_inv (w, J)"
  by (simp add: mute_inv_def)

lemma mute_invD:
  assumes "mute_inv (w, J)"
  shows "set J \<subseteq> set (participants (conf w))" "sources_wf (hostSources (conf w))" "filtered J w"
  using assms by (simp_all add: mute_inv_def)

text \<open>An operation that keeps the deciding part and does not shrink the filter.\<close>

lemma mute_inv_keeps:
  assumes "mute_inv (w, J)" and c: "core (conf w') = core (conf w)"
    and "confState (conf w) = ACTIVE_ATTACHED \<Longrightarrow> host_muted (conf w) \<Longrightarrow> mic w \<subseteq> mic w'"
  shows "mute_inv (w', J)"
proof (rule mute_invI)
  note d = mute_invD [OF assms(1)] and f = fields_of_core [OF c] and h = host_muted_core [OF c]
  show "set J \<subseteq> set (participants (conf w'))" and "sources_wf (hostSources (conf w'))" using d f by simp_all
  show "filtered J w'" using d(3) assms(3) by (auto simp: filtered_def f h)
qed

lemma isMediaSourceMuted_wf:
  assumes "sources_wf (hostSources cf)" and "confState cf = ACTIVE_ATTACHED"
  shows "isMediaSourceMuted MEDIA_AUDIO cf \<longleftrightarrow> (\<exists>s \<in> set (hostSources cf). ma_type s = MEDIA_AUDIO \<and> ma_muted s)"
  using assms by (auto simp: isMediaSourceMuted_def sources_wf_def list_all_iff list_ex_iff)

lemma sources_wf_mute [simp]: "sources_wf (map (\<lambda>s. if ma_type s = t then s\<lparr>ma_muted := b\<rparr> else s) ms) = sources_wf ms"
proof -
  have "map ma_type (map (\<lambda>s. if ma_type s = t then s\<lparr>ma_muted := b\<rparr> else s) ms) = map ma_type ms" by simp
  then show ?thesis unfolding sources_wf_def by (simp only:)
qed

text \<open>One of the steps after which the filter is right again for a given mute state of the source.\<close>

lemma muteLocalHost_audio:
  assumes inv: "mute_inv (w, J)" and at: "confState (conf w) = ACTIVE_ATTACHED"
    and w'_def: "w' = muteLocalHost E b ''MEDIA_TYPE_AUDIO'' w"
  shows "confState (conf w') = ACTIVE_ATTACHED" and "participants (conf w') = participants (conf w)"
    and "participantsMuted (conf w') = participantsMuted (conf w)"
    and "sources_wf (hostSources (conf w'))"
    and "b \<or> isMuted HOST (conf w) \<Longrightarrow> set J \<subseteq> mic w'"
    and "isMediaSourceMuted MEDIA_AUDIO (conf w') \<Longrightarrow> b"
proof -
  note d = mute_invD [OF inv]
  define m where "m = isMediaSourceMuted MEDIA_AUDIO (conf w)"
  define w1 where "w1 = (if \<not> isMuted HOST (conf w) then (if b then unbindHost w else bindHost E w) else w)"
  define w2 where "w2 = emit (AudioMuted b) (updateMuted E (setLocalHostMuteState MEDIA_AUDIO b w1))"
  have w': "w' = (if b = m then w else w2)"
    by (simp add: w'_def muteLocalHost_def at Let_def m_def w1_def w2_def)
  have c1: "conf w1 = conf w" by (simp add: w1_def)
  have m2: "mic w2 = mic w1" by (simp add: w2_def setLocalHostMuteState_def)
  have c2: "core (conf w2) = core (conf (setLocalHostMuteState MEDIA_AUDIO b w1))" by (simp add: w2_def)
  have f: "confState (conf w2) = confState (conf w)" "participants (conf w2) = participants (conf w)"
    "participantsMuted (conf w2) = participantsMuted (conf w)"
    "hostSources (conf w2) = map (\<lambda>s. if ma_type s = MEDIA_AUDIO then s\<lparr>ma_muted := b\<rparr> else s) (hostSources (conf w))"
    using fields_of_core [OF c2] by (simp_all add: setLocalHostMuteState_def c1)
  show at': "confState (conf w') = ACTIVE_ATTACHED" and "participants (conf w') = participants (conf w)"
    and "participantsMuted (conf w') = participantsMuted (conf w)"
    by (simp_all add: w' f at)
  show wf': "sources_wf (hostSources (conf w'))" using d(2) by (simp add: w' f)
  show "set J \<subseteq> mic w'" if "b \<or> isMuted HOST (conf w)"
  proof (cases "b = m \<or> isMuted HOST (conf w)")
    case True
    with that have "host_muted (conf w)" by (auto simp: host_muted_def m_def)
    with d(3) at True that have "set J \<subseteq> mic w" by (simp add: filtered_def)
    with True show ?thesis by (auto simp: w' m2 w1_def)
  next
    case False
    with that d(1) show ?thesis by (auto simp: w' m2 w1_def)
  qed
  show b if "isMediaSourceMuted MEDIA_AUDIO (conf w')"
  proof (cases "b = m")
    case False
    then have "hostSources (conf w') = hostSources (conf w2)" by (simp add: w')
    then show ?thesis using that unfolding isMediaSourceMuted_wf [OF wf' at'] by (auto simp: f)
  qed (use that in \<open>simp add: w' m_def\<close>)
qed

lemma with_pool_keeps: "(\<And>p. v (rb_pool_update (\<lambda>_. p) w) = v w) \<Longrightarrow> v (with_pool g w) = v w"
  by (simp add: with_pool_def)

lemma host_mutedI:
  "isMuted HOST cf' = isMuted HOST cf \<Longrightarrow> isMediaSourceMuted MEDIA_AUDIO cf' = isMediaSourceMuted MEDIA_AUDIO cf \<Longrightarrow>
   host_muted cf' = host_muted cf"
  by (simp add: host_muted_def)

subsection \<open>Leaving\<close>

lemma removeParticipant_effect [simp]:
  "mic (removeParticipant E p w) = mic w - {p}"
  "set (participants (conf (removeParticipant E p w))) = set (participants (conf w)) - {p}"
  "confState (conf (removeParticipant E p w)) = confState (conf w)"
  "hostSources (conf (removeParticipant E p w)) = hostSources (conf w)"
  by (auto simp: removeParticipant_def Let_def mic_def split: option.split if_splits)

lemma removeParticipant_muted:
  "set (participantsMuted (conf (removeParticipant E p w))) \<subseteq> set (participantsMuted (conf w))"
  by (auto simp: removeParticipant_def Let_def split: option.split)

lemma processRemaining_effect [simp]:
  "mic (processRemainingParticipants E w) = mic w" "conf (processRemainingParticipants E w) = conf w"
proof -
  have "mic (for_participants (\<lambda>p. with_pool (RingBufferPool_flush p)) w) = mic w"
    by (rule for_participants_keeps) (simp add: mic_def)
  moreover have "conf (for_participants (\<lambda>p. with_pool (RingBufferPool_flush p)) w) = conf w"
    by (rule for_participants_keeps) simp
  ultimately show "mic (processRemainingParticipants E w) = mic w" "conf (processRemainingParticipants E w) = conf w"
    by (simp_all add: processRemainingParticipants_def mic_def Let_def split: list.split option.split)
qed

lemma Manager_removeParticipant_effect [simp]:
  "mic (Manager_removeParticipant E p w) = mic w - {p}"
  "conf (Manager_removeParticipant E p w) = conf (removeParticipant E p w)"
proof -
  have "mic (Manager_removeParticipant E p w) = mic (removeParticipant E p w)"
    unfolding Manager_removeParticipant_def Let_def by (simp add: mic_with_pool)
  then show "mic (Manager_removeParticipant E p w) = mic w - {p}" by simp
qed (simp add: Manager_removeParticipant_def Let_def)

lemma leave_inv:
  assumes "mute_inv (w, J)"
  shows "mute_inv (Manager_removeParticipant E p w, removeAll p J)"
proof (rule mute_invI)
  note d = mute_invD [OF assms]
  show "set (removeAll p J) \<subseteq> set (participants (conf (Manager_removeParticipant E p w)))" using d(1) by auto
  show "sources_wf (hostSources (conf (Manager_removeParticipant E p w)))" using d(2) by simp
  have "host_muted (conf w)" if "host_muted (conf (Manager_removeParticipant E p w))"
    using that removeParticipant_muted [of E p w] by (auto simp: host_muted_def isMediaSourceMuted_def isMuted_def)
  then show "filtered (removeAll p J) (Manager_removeParticipant E p w)" using d(3) by (auto simp: filtered_def)
qed

subsection \<open>Recording\<close>

lemma initRecorder_effect:
  "core (conf (initRecorder E w)) = core (conf w)"
  "confState (conf w) = ACTIVE_ATTACHED \<Longrightarrow> host_muted (conf w) \<Longrightarrow> mic w \<subseteq> mic (initRecorder E w)"
proof -
  obtain a q where r: "createRingBuffer (env_fifo E) (conf_id (conf w)) (rb_pool w) = (a, q)" by fastforce
  then have q: "micMutedIds q = micMutedIds (rb_pool w)" using streams_mic(5) [of "env_fifo E" "conf_id (conf w)" "rb_pool w"] by simp
  define w1 where "w1 = upd_conf (\<lambda>c. c\<lparr>ghostRingBuffer := Some a\<rparr>) (w\<lparr>rb_pool := q\<rparr>)"
  have c1: "core (conf w1) = core (conf w)" and m1: "mic w1 = mic w" by (simp_all add: w1_def core_def mic_def q)
  have i: "initRecorder E w = emit (RecorderStreams True) (bindParticipant E (conf_id (conf w1)) w1)"
    by (simp add: initRecorder_def r w1_def)
  show "core (conf (initRecorder E w)) = core (conf w)" by (simp add: i c1)
  show "mic w \<subseteq> mic (initRecorder E w)" if "confState (conf w) = ACTIVE_ATTACHED" and "host_muted (conf w)"
    using that fields_of_core [OF c1] host_muted_core [OF c1] by (auto simp: i m1)
qed

lemma deinitRecorder_effect:
  "core (conf (deinitRecorder w)) = core (conf w)" "mic (deinitRecorder w) = mic w"
  by (simp_all add: deinitRecorder_def drop_ghost_def core_def mic_def split: option.split)

lemma rec_loop: 
  "conf (foreachCall E (\<lambda>p _. emit (UpdateRecState p b)) w) = conf w"
  "mic (foreachCall E (\<lambda>p _. emit (UpdateRecState p b)) w) = mic w"
  by (rule foreachCall_keeps, simp)+

lemma recording_flag:
  "core (conf (conf_startRecording E w)) = core (conf w)" "mic (conf_startRecording E w) = mic w"
  "core (conf (conf_stopRecording E w)) = core (conf w)" "mic (conf_stopRecording E w) = mic w"
  by (simp_all add: conf_startRecording_def conf_stopRecording_def) (simp_all add: core_def)

lemma toggleRecording_effect:
  "core (conf (toggleRecording E w)) = core (conf w)"
  "confState (conf w) = ACTIVE_ATTACHED \<Longrightarrow> host_muted (conf w) \<Longrightarrow> mic w \<subseteq> mic (toggleRecording E w)"
  using initRecorder_effect [where E = E and w = w]
  by (simp_all add: toggleRecording_def Let_def recording_flag rec_loop deinitRecorder_effect)

lemma toggle_inv: "mute_inv (w, J) \<Longrightarrow> mute_inv (toggleRecording E w, J)"
  by (erule mute_inv_keeps) (rule toggleRecording_effect; assumption)+

subsection \<open>Joining\<close>

text \<open>Taking the sources over changes their mute flags, and only for the first member.\<close>

definition same_members :: "('s, 'q, 'r) conf_world \<Rightarrow> ('s, 'q, 'r) conf_world \<Rightarrow> bool" where
  "same_members w w' \<longleftrightarrow>
     mic w' = mic w \<and> confState (conf w') = confState (conf w) \<and> participants (conf w') = participants (conf w) \<and>
     participantsMuted (conf w') = participantsMuted (conf w) \<and>
     sources_wf (hostSources (conf w')) = sources_wf (hostSources (conf w)) \<and>
     (confState (conf w) = ACTIVE_ATTACHED \<and> length (participants (conf w)) \<noteq> 1 \<longrightarrow> conf w' = conf w)"

lemma same_members_trans: "same_members w1 w2 \<Longrightarrow> same_members w2 w3 \<Longrightarrow> same_members w1 w3"
  by (simp add: same_members_def)

lemma same_members_emit: "same_members w w' \<Longrightarrow> same_members w (emit e w')"
  by (simp add: same_members_def)

lemma take_over_type_effect: "same_members (snd s) (snd (take_over_type t s))"
  unfolding take_over_type_def by (simp add: case_prod_beta Let_def setLocalHostMuteState_def same_members_def)

lemma takeOver_effect: "same_members w (takeOverMediaSourceControl E p w)"
proof -
  have "same_members w (snd (take_over_type MEDIA_VIDEO (take_over_type MEDIA_AUDIO (ms, w))))" for ms
    using same_members_trans [OF take_over_type_effect take_over_type_effect, of "(ms, w)"] by simp
  moreover have "same_members w w" by (simp add: same_members_def)
  ultimately show ?thesis
    by (simp add: takeOverMediaSourceControl_def Let_def case_prod_beta same_members_emit split: option.split)
qed

text \<open>The parts of \<^verbatim>\<open>addParticipant\<close> after the media were taken over leave the deciding part alone.\<close>

lemma core_add_moderators [simp]: "core (add_moderators E c a cf) = core cf"
  by (simp add: add_moderators_def core_def Let_def)

lemma core_upd: "core (f (conf w)) = core (conf w) \<Longrightarrow> core (conf (upd_conf f w)) = core (conf w)"
  by simp

lemma addParticipant_inv:
  assumes inv: "mute_inv (w, J)" and p: "p \<notin> set J" "p \<noteq> HOST"
  shows "mute_inv (addParticipant E p w, J)"
proof (cases "p \<in> set (participants (conf w)) \<or> conf_getCall E p = None")
  case True
  note d = mute_invD [OF inv]
  have "host_muted (conf w\<lparr>participants := sset_insert p (participants (conf w))\<rparr>) = host_muted (conf w)"
    by (rule host_mutedI) (simp_all add: isMuted_def isMediaSourceMuted_def)
  with True d inv show ?thesis
    by (auto simp: addParticipant_def Let_def mute_inv_def filtered_def)
next
  case False
  then obtain c where c: "conf_getCall E p = Some c" and new: "p \<notin> set (participants (conf w))" by auto
  note d = mute_invD [OF inv]
  define w1 where "w1 = upd_conf (\<lambda>cf. cf\<lparr>participants := sset_insert p (participants cf)\<rparr>) w"
  define w2 where "w2 = emit (AudioManaged p True) (if cp_peerMuted c
     then upd_conf (\<lambda>cf. cf\<lparr>participantsMuted := sset_insert p (participantsMuted cf)\<rparr>) w1 else w1)"
  have conf2: "conf w2 = (conf w)\<lparr>participants := sset_insert p (participants (conf w)),
     participantsMuted := (if cp_peerMuted c then sset_insert p (participantsMuted (conf w)) else participantsMuted (conf w))\<rparr>"
    and mic2: "mic w2 = mic w"
    by (simp_all add: w2_def w1_def)
  define w3 where "w3 = takeOverMediaSourceControl E p w2"
  have hm: "host_muted (conf w2) = host_muted (conf w)"
    by (rule host_mutedI) (simp_all add: conf2 isMuted_def isMediaSourceMuted_def p(2) [symmetric])
  have len: "length (participants (conf w2)) = 1 \<Longrightarrow> J = []"
  proof -
    assume "length (participants (conf w2)) = 1"
    then have "card (insert p (set (participants (conf w)))) \<le> 1"
      using card_length [of "participants (conf w2)"] by (simp add: conf2)
    then have "set (participants (conf w)) = {}" using new by simp
    with d(1) show "J = []" by simp
  qed
  have i3: "mute_inv (w3, J)"
  proof (rule mute_invI)
    note t = takeOver_effect [of w2 E p, folded w3_def, unfolded same_members_def]
    show "set J \<subseteq> set (participants (conf w3))" using d(1) by (auto simp: t conf2)
    show "sources_wf (hostSources (conf w3))" using d(2) by (simp add: t conf2)
    show "filtered J w3"
    proof (cases "J = []")
      case False
      with len t have "confState (conf w2) = ACTIVE_ATTACHED \<Longrightarrow> conf w3 = conf w2" by blast
      with d(3) show ?thesis by (auto simp: filtered_def t hm) (auto simp: conf2 mic2)
    qed (simp add: filtered_def)
  qed
  define w7 where "w7 = (\<lambda>w. emit (EnterConference p) (if \<not> list_ex hasValidVideo (cp_media c)
      then emit (AddAudioOnlySource p (streamId p DEFAULT_AUDIO_STREAMID) (cp_peerNumber c)) w else w))
    (let w4 = (if localPlaybackMuted (conf w3) then with_pool (Ring_Buffer_Pool.setLocalPlaybackMuted p True) w3 else w3)
     in case cp_account c of Some a \<Rightarrow> upd_conf (add_moderators E c a) w4 | None \<Rightarrow> w4)"
  have c7: "core (conf w7) = core (conf w3)" and m7: "mic w7 = mic w3"
    by (simp_all add: w7_def Let_def mic_with_pool split: option.split)
  have "addParticipant E p w =
      (if cp_recording c then let w8 = emit (ToggleCallRecording p) w7
        in if conf_recording (conf w8) then w8 else toggleRecording E w8 else w7)"
    using new unfolding addParticipant_def w7_def w3_def w2_def w1_def by (simp add: c Let_def)
  then show ?thesis
    using mute_inv_keeps [OF i3 c7] m7 by (auto simp: Let_def intro!: toggle_inv elim!: mute_inv_keeps)
qed

lemma bindParticipant_inv:
  assumes "mute_inv (w, J)" and "p \<in> set (participants (conf w))"
  shows "mute_inv (bindParticipant E p w, List.insert p J)"
  using assms by (auto simp: mute_inv_def filtered_def)

lemma addParticipant_member: "p \<in> set (participants (conf (addParticipant E p w)))"
proof -
  have m: "participants (conf (takeOverMediaSourceControl E p w)) = participants (conf w)" for w :: "('a, 'b, 'c) conf_world"
    using takeOver_effect [of w E p] by (simp add: same_members_def)
  have a: "participants (add_moderators E c a cf) = participants cf" for c a cf
    by (rule fields_of_core) simp
  have t: "participants (conf (toggleRecording E w)) = participants (conf w)" for w :: "('a, 'b, 'c) conf_world"
    by (rule fields_of_core) (rule toggleRecording_effect)
  show ?thesis by (simp add: addParticipant_def Let_def m a t split: option.split)
qed

lemma join_inv:
  assumes inv: "mute_inv (w, J)" and p: "p \<noteq> HOST"
  shows "mute_inv (bindCallToConference E p st w, if recognised st then List.insert p J else removeAll p J)"
proof -
  define w0 where "w0 = (if p \<in> set (participants (conf w)) then Manager_removeParticipant E p w else w)"
  define w1 where "w1 = with_pool (unBindHalfDuplexOut DEFAULT_ID p) (with_pool (unBindAll p) w0)"
  define w2 where "w2 = addParticipant E p w1"
  have "mute_inv (w0, removeAll p J)"
  proof (cases "p \<in> set (participants (conf w))")
    case False
    with mute_invD(1) [OF inv] have "removeAll p J = J" by (intro removeAll_id) blast
    with inv False show ?thesis by (simp add: w0_def)
  qed (simp add: w0_def leave_inv inv)
  then have "mute_inv (w1, removeAll p J)" by (rule mute_inv_keeps) (simp_all add: w1_def mic_with_pool)
  then have i2: "mute_inv (w2, removeAll p J)" unfolding w2_def by (rule addParticipant_inv) (simp_all add: p)
  have "mute_inv (bindParticipant E p w2, List.insert p (removeAll p J))"
    using i2 addParticipant_member unfolding w2_def by (rule bindParticipant_inv)
  then have i3: "mute_inv (bindParticipant E p w2, List.insert p J)"
    by (auto simp: mute_inv_def filtered_def)
  have "mute_inv (emit e (bindParticipant E p w2), List.insert p J)" for e
    using i3 by (simp add: mute_inv_def filtered_def)
  then show ?thesis using i2 i3
    by (simp add: bindCallToConference_def Let_def recognised_def w0_def w1_def w2_def)
qed

subsection \<open>Attaching and detaching the host\<close>

lemma attach_inv:
  assumes "mute_inv (w, J)"
  shows "mute_inv (attachLocalParticipant E w,
    if confState (conf w) = ACTIVE_DETACHED then filter (\<lambda>p. conf_getCall E p \<noteq> None) J else J)"
proof (cases "confState (conf w) = ACTIVE_DETACHED")
  case True
  define w1 where "w1 = conf_setState ACTIVE_ATTACHED w"
  define w2 where "w2 = for_participants (attach_audio E (host_muted (conf w1))) w1"
  have c2: "conf w2 = conf w1" and m2: "host_muted (conf w1) \<Longrightarrow>
      {p \<in> set (participants (conf w)). conf_getCall E p \<noteq> None} \<subseteq> mic w2"
    by (auto simp: w2_def w1_def conf_setState_def)
  have a: "conf (attachLocalParticipant E w) = conf w2" "mic (attachLocalParticipant E w) = mic w2"
    using True by (simp_all add: attachLocalParticipant_def Let_def w1_def w2_def mic_with_pool)
  show ?thesis
    using mute_invD [OF assms] m2 True
    by (auto simp: mute_inv_def filtered_def a c2) (auto simp: w1_def conf_setState_def)
qed (use assms in \<open>simp add: attachLocalParticipant_def\<close>)

lemma detach_inv:
  assumes "mute_inv (w, J)"
  shows "mute_inv (detachLocalParticipant E w, J)"
proof (cases "confState (conf w) = ACTIVE_ATTACHED")
  case True
  define w1 where "w1 = foreachCall E (\<lambda>p _. with_pool (unBindCallID p DEFAULT_ID)) w"
  have c1: "conf w1 = conf w" unfolding w1_def by (rule foreachCall_keeps) simp
  have "conf (detachLocalParticipant E w) = (conf w)\<lparr>hostSources := [host_source MEDIA_AUDIO [] DEFAULT_AUDIO_STREAMID],
      confState := ACTIVE_DETACHED\<rparr>"
    using True by (simp add: detachLocalParticipant_def Let_def conf_setState_def setLocalHostDefaultMediaSource_def
        reportMediaNegotiationStatus_def c1 flip: w1_def)
  then show ?thesis using mute_invD [OF assms]
    by (simp add: mute_inv_def filtered_def sources_wf_def host_source_def)
qed (use assms in \<open>simp add: detachLocalParticipant_def\<close>)

subsection \<open>Muting\<close>

lemma updateMuted_inv: "mute_inv (w, J) \<Longrightarrow> mute_inv (updateMuted E w, J)"
  by (erule mute_inv_keeps) simp_all

lemma muteHost_inv:
  assumes "mute_inv (w, J)"
  shows "mute_inv (muteHost E b w, J)"
proof -
  note d = mute_invD [OF assms]
  have s: "isMediaSourceMuted t (c\<lparr>participantsMuted := m\<rparr>) = isMediaSourceMuted t c" for t c m
    by (simp add: isMediaSourceMuted_def)
  show ?thesis unfolding muteHost_def Let_def
    using assms d by (intro updateMuted_inv) (auto simp: mute_inv_def filtered_def host_muted_def s isMuted_def)
qed

lemma muteCall_inv:
  assumes "mute_inv (w, J)" and p: "p \<noteq> HOST"
  shows "mute_inv (muteCall E p b w, J)"
proof -
  have u: "mute_inv (upd_conf (\<lambda>c. c\<lparr>participantsMuted := f (participantsMuted c)\<rparr>) w, J)"
    if "set (f (participantsMuted (conf w))) - {p} = set (participantsMuted (conf w)) - {p}" for f
  proof -
    have "host_muted ((conf w)\<lparr>participantsMuted := f (participantsMuted (conf w))\<rparr>) = host_muted (conf w)"
      using that p by (intro host_mutedI) (auto simp: isMuted_def isMediaSourceMuted_def)
    with assms(1) show ?thesis by (simp add: mute_inv_def filtered_def)
  qed
  have "mute_inv (unbindParticipant p (upd_conf (\<lambda>c. c\<lparr>participantsMuted := sset_insert p (participantsMuted c)\<rparr>) w), J)"
    using u [of "sset_insert p"] by (rule mute_inv_keeps) (auto simp: unbindParticipant_def mic_with_pool)
  moreover have "mute_inv (bindParticipant E p (upd_conf (\<lambda>c. c\<lparr>participantsMuted := sset_erase p (participantsMuted c)\<rparr>) w), J)"
    using u [of "sset_erase p"] by (rule mute_inv_keeps) auto
  ultimately show ?thesis using assms(1)
    by (simp add: muteCall_def Let_def updateMuted_inv)
qed

lemma muteLocalHost_other:
  assumes "t \<noteq> ''MEDIA_TYPE_AUDIO''"
  shows "mic (muteLocalHost E b t w) = mic w"
    and "\<exists>ms. conf (muteLocalHost E b t w) = (conf w)\<lparr>hostSources := ms\<rparr> \<and> sources_wf ms = sources_wf (hostSources (conf w)) \<and>
      filter (\<lambda>s. ma_type s \<noteq> MEDIA_VIDEO) ms = filter (\<lambda>s. ma_type s \<noteq> MEDIA_VIDEO) (hostSources (conf w))"
proof -
  let ?h = "hostSources (conf w)" and ?f = "\<lambda>s. if ma_type s = MEDIA_VIDEO then s\<lparr>ma_muted := b\<rparr> else s"
  have "filter (\<lambda>s. ma_type s \<noteq> MEDIA_VIDEO) (map ?f ms) = filter (\<lambda>s. ma_type s \<noteq> MEDIA_VIDEO) ms" for ms
    by (induction ms) auto
  moreover have "conf (muteLocalHost E b t w) = conf w \<or> conf (muteLocalHost E b t w) = (conf w)\<lparr>hostSources := map ?f ?h\<rparr>"
    using assms by (auto simp: muteLocalHost_def Let_def setLocalHostMuteState_def)
  ultimately show "\<exists>ms. conf (muteLocalHost E b t w) = (conf w)\<lparr>hostSources := ms\<rparr> \<and> sources_wf ms = sources_wf ?h \<and>
      filter (\<lambda>s. ma_type s \<noteq> MEDIA_VIDEO) ms = filter (\<lambda>s. ma_type s \<noteq> MEDIA_VIDEO) ?h"
    by (elim disjE; intro exI [of _ ?h] exI [of _ "map ?f ?h"]) simp_all
  show "mic (muteLocalHost E b t w) = mic w"
    using assms by (auto simp: muteLocalHost_def Let_def setLocalHostMuteState_def)
qed

lemma isMediaSourceMuted_audio:
  "isMediaSourceMuted MEDIA_AUDIO cf \<longleftrightarrow> confState cf \<noteq> ACTIVE_ATTACHED \<or>
     list_ex (\<lambda>s. ma_muted s \<and> ma_type s = MEDIA_AUDIO \<or> ma_type s = MEDIA_NONE) (filter (\<lambda>s. ma_type s \<noteq> MEDIA_VIDEO) (hostSources cf))"
  by (auto simp: isMediaSourceMuted_def list_ex_iff)

lemma muteLocalHost_other_inv:
  assumes inv: "mute_inv (w, J)" and t: "t \<noteq> ''MEDIA_TYPE_AUDIO''"
  shows "mute_inv (muteLocalHost E b t w, J)"
proof -
  obtain ms where ms: "conf (muteLocalHost E b t w) = (conf w)\<lparr>hostSources := ms\<rparr>" "sources_wf ms = sources_wf (hostSources (conf w))"
    "filter (\<lambda>s. ma_type s \<noteq> MEDIA_VIDEO) ms = filter (\<lambda>s. ma_type s \<noteq> MEDIA_VIDEO) (hostSources (conf w))"
    using muteLocalHost_other(2) [OF t] by blast
  then have "host_muted (conf (muteLocalHost E b t w)) = host_muted (conf w)"
    by (intro host_mutedI) (simp_all add: isMuted_def isMediaSourceMuted_audio)
  with inv muteLocalHost_other(1) [OF t, of E b w] show ?thesis by (auto simp: mute_inv_def filtered_def ms)
qed

lemma muteLocalHost_inv:
  assumes inv: "mute_inv (w, J)"
  shows "mute_inv (muteLocalHost E b t w, J)"
proof (cases "t = ''MEDIA_TYPE_AUDIO''")
  case True
  show ?thesis
  proof (cases "confState (conf w) = ACTIVE_ATTACHED")
    case at: True
    note d = mute_invD [OF inv] and m = muteLocalHost_audio [OF inv at refl, where E = E and b = b, folded True]
    have "isMuted HOST (conf (muteLocalHost E b t w)) = isMuted HOST (conf w)" by (simp add: isMuted_def m)
    then have "filtered J (muteLocalHost E b t w)" using m(5,6) by (auto simp: filtered_def host_muted_def)
    with d m show ?thesis by (intro mute_invI) simp_all
  next
    case False
    define w1 where "w1 = emit (AudioMuted b) (updateMuted E (setLocalHostMuteState MEDIA_AUDIO b
       (for_participants (\<lambda>item. with_pool (setMicMuted item b)) w)))"
    have "muteLocalHost E b t w = w1" using False True by (simp add: muteLocalHost_def Let_def w1_def)
    moreover have "core (conf w1) = core ((conf w)\<lparr>hostSources := map (\<lambda>s. if ma_type s = MEDIA_AUDIO then s\<lparr>ma_muted := b\<rparr> else s)
        (hostSources (conf w))\<rparr>)"
      by (simp add: w1_def setLocalHostMuteState_def)
    note fields_of_core [OF this]
    ultimately show ?thesis using mute_invD [OF inv] False by (simp add: mute_inv_def filtered_def)
  qed
qed (simp add: muteLocalHost_other_inv inv)

lemma muteLocalPlayback_inv:
  assumes "mute_inv (w, J)"
  shows "mute_inv (muteLocalPlayback b w, J)"
proof -
  define w1 where "w1 = upd_conf (\<lambda>c. c\<lparr>localPlaybackMuted := b\<rparr>) w"
  define w2 where "w2 = for_participants (\<lambda>p. with_pool (Ring_Buffer_Pool.setLocalPlaybackMuted p b)) w1"
  have c2: "conf w2 = conf w1" unfolding w2_def by (rule for_participants_keeps) simp
  have m2: "mic w2 = mic w1" unfolding w2_def by (rule for_participants_keeps) (simp add: mic_with_pool)
  define w3 where "w3 = for_participants (rebind_playback b (host_muted (conf w2))) w2"
  have c3: "conf w3 = conf w2" unfolding w3_def by (rule for_participants_keeps) (simp add: rebind_playback_def)
  have m3: "mic w3 = (if host_muted (conf w2) then mic w2 \<union> set (participants (conf w2)) else mic w2 - set (participants (conf w2)))"
    unfolding w3_def
    by (subst mic_loop_set [where b = "host_muted (conf w2)" and P = "\<lambda>_. True"]) (auto simp: rebind_playback_def mic_def Let_def)
  have i2: "mute_inv (w2, J)" using assms by (rule mute_inv_keeps) (simp_all add: c2 m2 w1_def core_def)
  then have "mute_inv (w3, J)" by (rule mute_inv_keeps) (auto simp: c3 m3)
  then have "mute_inv (with_pool (RingBufferPool_flush DEFAULT_ID) w3, J)" by (rule mute_inv_keeps) (simp_all add: mic_with_pool)
  with i2 show ?thesis by (simp add: muteLocalPlayback_def Let_def flip: w1_def w2_def w3_def)
qed

subsection \<open>Changing the media\<close>

definition change_inv ::
  "string list \<Rightarrow> string list \<Rightarrow> media_attribute list \<times> ('s, 'q, 'r) conf_world \<Rightarrow> bool" where
  "change_inv J muted s \<longleftrightarrow>
     (case s of (ms, w) \<Rightarrow>
      mute_inv (w, J) \<and> confState (conf w) = ACTIVE_ATTACHED \<and> participantsMuted (conf w) = muted \<and>
      (list_ex (\<lambda>m. ma_type m = MEDIA_AUDIO \<and> ma_muted m) ms \<longrightarrow> set J \<subseteq> mic w))"

lemma muteLocalHost_attached:
  assumes "mute_inv (w, J)" "confState (conf w) = ACTIVE_ATTACHED"
  shows "confState (conf (muteLocalHost E b t w)) = ACTIVE_ATTACHED"
    and "participantsMuted (conf (muteLocalHost E b t w)) = participantsMuted (conf w)"
proof -
  have "confState (conf (muteLocalHost E b t w)) = ACTIVE_ATTACHED \<and>
     participantsMuted (conf (muteLocalHost E b t w)) = participantsMuted (conf w)"
  proof (cases "t = ''MEDIA_TYPE_AUDIO''")
    case True
    with muteLocalHost_audio [OF assms refl, where E = E and b = b] show ?thesis by simp
  next
    case False
    with muteLocalHost_other(2) [OF False, of E b w] assms(2) show ?thesis by auto
  qed
  then show "confState (conf (muteLocalHost E b t w)) = ACTIVE_ATTACHED"
    and "participantsMuted (conf (muteLocalHost E b t w)) = participantsMuted (conf w)" by simp_all
qed

text \<open>One turn: a video source leaves the filter alone, the one microphone sets it.\<close>

lemma change_source_inv:
  assumes s: "change_inv J muted (ms, w)"
    and m: "ma_type m = MEDIA_VIDEO \<or> ma_type m = MEDIA_AUDIO \<and> \<not> list_ex (\<lambda>m. ma_type m = MEDIA_AUDIO) ms"
  shows "change_inv J muted (change_source E (ms, w) m) \<and>
    map ma_type (fst (change_source E (ms, w) m)) = map ma_type ms @ [ma_type m]"
proof -
  have inv: "mute_inv (w, J)" and at: "confState (conf w) = ACTIVE_ATTACHED" and pm: "participantsMuted (conf w) = muted"
    and au: "list_ex (\<lambda>m. ma_type m = MEDIA_AUDIO \<and> ma_muted m) ms \<longrightarrow> set J \<subseteq> mic w"
    using s by (auto simp: change_inv_def)
  define old where "old = find (\<lambda>o'. ma_sourceUri o' = ma_sourceUri m \<and> ma_type o' = ma_type m) (hostSources (conf w))"
  define new where "new \<longleftrightarrow> old = None \<and> ma_type m = MEDIA_VIDEO"
  define m1 where "m1 = (if new \<and> ma_sourceUri m = [] then m\<lparr>ma_sourceUri := env_defaultVideo E\<rparr> else m)"
  define w0 where "w0 = (if new then emit (RemoveAudioOnlySource [] (streamId [] DEFAULT_VIDEO_STREAMID))
     (emit (SwitchInputs [ma_sourceUri m1]) w) else w)"
  define b where "b \<longleftrightarrow> old = None \<or> ma_muted m \<noteq> ma_muted (the old)"
  define w1 where "w1 = (if b then muteLocalHost E (ma_muted m)
     (if ma_type m = MEDIA_AUDIO then ''MEDIA_TYPE_AUDIO'' else ''MEDIA_TYPE_VIDEO'') w0 else w0)"
  have m1: "ma_type m1 = ma_type m" "ma_muted m1 = ma_muted m" by (simp_all add: m1_def)
  have c: "change_source E (ms, w) m = (ms @ [m1], w1)"
    unfolding change_source_def Let_def prod.case old_def [symmetric] new_def [symmetric] m1_def [symmetric]
      w0_def [symmetric] m1 b_def [symmetric] w1_def [symmetric] ..
  have c0: "conf w0 = conf w" "mic w0 = mic w" by (simp_all add: w0_def)
  have inv0: "mute_inv (w0, J)" using inv by (rule mute_inv_keeps) (simp_all add: c0)
  have inv1: "mute_inv (w1, J)" by (simp add: w1_def muteLocalHost_inv inv0)
  have at1: "confState (conf w1) = ACTIVE_ATTACHED" "participantsMuted (conf w1) = muted"
    using at pm by (simp_all add: w1_def muteLocalHost_attached [OF inv0] c0)
  have "set J \<subseteq> mic w1" if a: "list_ex (\<lambda>m. ma_type m = MEDIA_AUDIO \<and> ma_muted m) (ms @ [m1])"
  proof (cases "ma_type m = MEDIA_VIDEO")
    case True
    with a au have "set J \<subseteq> mic w" by (auto simp: m1)
    moreover have "mic w1 = mic w" using True by (simp add: w1_def muteLocalHost_other c0)
    ultimately show ?thesis by simp
  next
    case False
    with m have am: "ma_type m = MEDIA_AUDIO" and "\<not> list_ex (\<lambda>m. ma_type m = MEDIA_AUDIO) ms" by auto
    with a have mu: "ma_muted m" by (auto simp: m1 list_ex_iff)
    show ?thesis
    proof (cases b)
      case True
      then show ?thesis using muteLocalHost_audio(5) [OF inv0 _ refl, where E = E and b = True] at am mu by (simp add: w1_def c0)
    next
      case False
      then obtain o' where "old = Some o'" "ma_muted o'" using mu b_def by auto
      then have "isMediaSourceMuted MEDIA_AUDIO (conf w)"
        using am by (auto simp: old_def find_Some_iff isMediaSourceMuted_def list_ex_iff intro!: bexI [of _ o'])
      with mute_invD(3) [OF inv] at False show ?thesis by (simp add: w1_def c0 filtered_def host_muted_def)
    qed
  qed
  with inv1 at1 show ?thesis by (simp add: change_inv_def c m1)
qed

lemma change_loop_inv:
  assumes "change_inv J muted (ms, w)" and "list_all (\<lambda>m. ma_type m = MEDIA_AUDIO \<or> ma_type m = MEDIA_VIDEO) ns"
    and "count_list (map ma_type ms) MEDIA_AUDIO + count_list (map ma_type ns) MEDIA_AUDIO \<le> 1"
  shows "change_inv J muted (foldl (change_source E) (ms, w) ns) \<and>
    map ma_type (fst (foldl (change_source E) (ms, w) ns)) = map ma_type ms @ map ma_type ns"
  using assms
proof (induction ns arbitrary: ms w)
  case (Cons m ns)
  have "ma_type m = MEDIA_VIDEO \<or> ma_type m = MEDIA_AUDIO \<and> \<not> list_ex (\<lambda>m. ma_type m = MEDIA_AUDIO) ms"
  proof (rule ccontr)
    assume "\<not> ?thesis"
    then have "ma_type m = MEDIA_AUDIO" and "MEDIA_AUDIO \<in> set (map ma_type ms)"
      using Cons.prems(2) by (force simp: list_ex_iff)+
    then have "count_list (map ma_type ms) MEDIA_AUDIO \<noteq> 0" by (metis count_list_0_iff)
    with Cons.prems(3) \<open>ma_type m = MEDIA_AUDIO\<close> show False by simp
  qed
  note t = change_source_inv [OF Cons.prems(1) this, of E]
  obtain ms1 w1 where c: "change_source E (ms, w) m = (ms1, w1)" by fastforce
  with t have "change_inv J muted (ms1, w1)" and "map ma_type ms1 = map ma_type ms @ [ma_type m]" by simp_all
  with Cons.IH [of ms1 w1] Cons.prems(2,3) show ?case by (simp add: c split: if_splits)
qed simp

lemma requestMediaChange_inv:
  assumes inv: "mute_inv (w, J)" and wf: "sources_wf (buildMediaAttributesList ml False)"
  shows "mute_inv (snd (requestMediaChange E ml w), J)"
proof (cases "confState (conf w) = ACTIVE_ATTACHED")
  case True
  obtain ms w1 where f: "foldl (change_source E) ([], w) (buildMediaAttributesList ml False) = (ms, w1)" by fastforce
  have "change_inv J (participantsMuted (conf w)) ([], w)" using inv True by (simp add: change_inv_def)
  from change_loop_inv [OF this, of "buildMediaAttributesList ml False" E] wf f
  have c: "change_inv J (participantsMuted (conf w)) (ms, w1)" and "map ma_type ms = map ma_type (buildMediaAttributesList ml False)"
    by (simp_all add: sources_wf_def list_all_iff)
  with wf have wf1: "sources_wf ms" by (simp add: sources_wf_def)
  define w2 where "w2 = snd (requestMediaChange E ml w)"
  have w2: "conf w2 = (conf w1)\<lparr>hostSources := ms\<rparr>" "mic w2 = mic w1"
    using True by (simp_all add: w2_def requestMediaChange_def f Let_def reportMediaNegotiationStatus_def)
  show ?thesis unfolding w2_def [symmetric]
  proof (rule mute_invI)
    show "set J \<subseteq> set (participants (conf w2))" using c mute_invD(1) by (auto simp: change_inv_def w2)
    show wf2: "sources_wf (hostSources (conf w2))" using wf1 by (simp add: w2)
    have at: "confState (conf w2) = ACTIVE_ATTACHED" using c by (simp add: change_inv_def w2)
    show "filtered J w2" unfolding filtered_def
    proof
      assume "confState (conf w2) = ACTIVE_ATTACHED \<and> host_muted (conf w2)"
      then consider "isMediaSourceMuted MEDIA_AUDIO (conf w2)" | "host_muted (conf w1)"
        by (auto simp: host_muted_def w2 isMuted_def)
      then show "set J \<subseteq> mic w2"
      proof cases
        case 1
        with wf2 at have "list_ex (\<lambda>m. ma_type m = MEDIA_AUDIO \<and> ma_muted m) ms"
          by (simp add: isMediaSourceMuted_wf list_ex_iff w2)
        with c show ?thesis by (simp add: change_inv_def w2)
      next
        case 2
        with c show ?thesis by (auto simp: change_inv_def w2 mute_inv_def filtered_def)
      qed
    qed
  qed
qed (use inv in \<open>simp add: requestMediaChange_def\<close>)

lemma host_media_inv:
  assumes "mute_inv (w, J)"
  shows "mute_inv (setLocalHostDefaultMediaSource E b src w, J)"
proof -
  define ms where "ms = host_source MEDIA_AUDIO [] DEFAULT_AUDIO_STREAMID #
     (if isVideoEnabled E \<and> b then [host_source MEDIA_VIDEO (if src = [] then env_defaultVideo E else src) DEFAULT_VIDEO_STREAMID] else [])"
  have w': "conf (setLocalHostDefaultMediaSource E b src w) = (conf w)\<lparr>hostSources := ms\<rparr>"
    "mic (setLocalHostDefaultMediaSource E b src w) = mic w"
    by (simp_all add: setLocalHostDefaultMediaSource_def reportMediaNegotiationStatus_def ms_def Let_def)
  have "sources_wf ms" by (simp add: sources_wf_def ms_def host_source_def)
  moreover have "host_muted (conf w)" if "host_muted ((conf w)\<lparr>hostSources := ms\<rparr>)"
    using that by (auto simp: host_muted_def isMediaSourceMuted_def isMuted_def ms_def host_source_def split: if_splits)
  ultimately show ?thesis using mute_invD [OF assms] by (auto simp: mute_inv_def filtered_def w')
qed

subsection \<open>Every run\<close>

lemma conf_exec_inv:
  assumes "mute_inv s" and "conf_op_ok oper"
  shows "mute_inv (conf_exec rms mx E oper s)"
proof -
  obtain w J where s: "s = (w, J)" by fastforce
  have "mic (with_pool (\<lambda>p. pool_step (env_fifo E) rms mx p pop) w) = mic w" if "not_mic pop" for pop
    using that by (simp add: mic_with_pool mic.step_keeps)
  then have "mute_inv (with_pool (\<lambda>p. pool_step (env_fifo E) rms mx p pop) w, J)" if "not_mic pop" for pop
    using assms(1) that by (simp add: s mute_inv_def filtered_def)
  with assms show ?thesis unfolding s
    by (cases oper) (simp_all add: join_inv leave_inv attach_inv detach_inv muteHost_inv muteCall_inv
        muteLocalHost_inv host_media_inv muteLocalPlayback_inv requestMediaChange_inv toggle_inv
        del: removeAll.simps List.insert_def)
qed

interpretation cm: invariant_machine "conf_step rms mx" mute_inv
  by unfold_locales (simp add: conf_step_def conf_exec_inv)


definition demo_account :: conf_account where
  "demo_account = \<lparr>ca_id = ''acc'', ca_username = ''me'', ca_defaultModerators = [], ca_localModeratorsEnabled = False,
     ca_allModerators = False, ca_videoEnabled = False, ca_rendezVous = False\<rparr>"

definition demo_peer :: "string \<Rightarrow> conf_peer" where
  "demo_peer number = \<lparr>cp_peerNumber = number, cp_deviceId = [], cp_peerMuted = False, cp_peerRecording = False,
     cp_hasPeerVoice = False, cp_recording = False, cp_media = [], cp_account = Some demo_account\<rparr>"

definition demo_env :: "string list \<Rightarrow> (int list, int) conf_env" where
  "demo_env ids = \<lparr>env_calls = map (\<lambda>c. (c, demo_peer (''sip:'' @ c))) ids, env_account = Some demo_account,
     env_usernames = [''me''], env_defaultVideo = [], env_now = 1000, env_currentCall = [], env_recorderStarts = True, env_fifo = list_fifo\<rparr>"

definition demo_world :: "string list \<Rightarrow> (int, int list, int) conf_world" where
  "demo_world ids = \<lparr>conf = Conference_new ''conf'',
     rb_pool = foldl (pool_step list_fifo (\<lambda>_. 0) (\<lambda>m f. Inr f)) (RingBufferPool_new list_fifo) (map CreateRB ids),
     conf_log = []\<rparr>"

text \<open>A run in three stages: the host attaches, a moderator mutes it, a call joins.\<close>

definition demo_attached :: "(int, int list, int) conf_world" where
  "demo_attached = attachLocalParticipant (demo_env [''7'']) (demo_world [])"

definition demo_muted :: "(int, int list, int) conf_world" where
  "demo_muted = muteHost (demo_env [''7'']) True demo_attached"

definition demo_joined :: "(int, int list, int) conf_world" where
  "demo_joined = bindCallToConference (demo_env [''7'']) ''7'' ''CURRENT'' demo_muted"

definition demo_noise :: "int conf_op list" where
  "demo_noise = [OtherThread (CreateRB ''7''), OtherThread (BindCall ''7'' DEFAULT_ID), OtherThread (WriteFrame 0 demo_frame)]"

lemma demo_pool_idle:
  "RingBufferPool_flush DEFAULT_ID (RingBufferPool_new av) = RingBufferPool_new av"
  "unBindAll ''7'' (RingBufferPool_new av) = RingBufferPool_new av"
  "unBindHalfDuplexOut DEFAULT_ID ''7'' (RingBufferPool_new av) = RingBufferPool_new av"
  "RingBufferPool_flush ''7'' (RingBufferPool_new av) = RingBufferPool_new av"
  "bindHalfDuplexOut DEFAULT_ID ''7'' (setMicMuted ''7'' True (RingBufferPool_new av)) = setMicMuted ''7'' True (RingBufferPool_new av)"
  "RingBufferPool_flush DEFAULT_ID (setMicMuted ''7'' True (RingBufferPool_new av)) = setMicMuted ''7'' True (RingBufferPool_new av)"
  by (simp_all add: unBindAll_def unBindHalfDuplexOut_def RingBufferPool_flush_def bindHalfDuplexOut_def setMicMuted_def pool_eval)

lemma demo_attached:
  "conf demo_attached = (Conference_new ''conf'')\<lparr>confState := ACTIVE_ATTACHED\<rparr>"
  "rb_pool demo_attached = RingBufferPool_new list_fifo"
  by (simp_all add: demo_attached_def attachLocalParticipant_def Let_def demo_world_def conf_setState_def Conference_new_def
      for_participants_def demo_pool_idle)

lemma demo_muted:
  "conf demo_muted = (Conference_new ''conf'')\<lparr>confState := ACTIVE_ATTACHED, participantsMuted := [HOST]\<rparr>"
  "rb_pool demo_muted = RingBufferPool_new list_fifo"
  by (simp_all add: demo_muted_def muteHost_def Let_def demo_attached isMuted_def Conference_new_def isMediaSourceMuted_def
      updateMuted_def upd_rows_def ConfInfo_new_def unbindHost_def for_participants_def)

lemma demo_env_parts:
  "conf_getCall (demo_env [''7'']) ''7'' = Some (demo_peer ''sip:7'')" "env_account (demo_env ids) = Some demo_account"
  "env_fifo (demo_env ids) = list_fifo"
  by (simp_all add: conf_getCall_def demo_env_def)

lemma demo_joined:
  "conf demo_joined = (Conference_new ''conf'')\<lparr>confState := ACTIVE_ATTACHED, participantsMuted := [HOST], participants := [''7'']\<rparr>"
  "rb_pool demo_joined = setMicMuted ''7'' True (RingBufferPool_new list_fifo)"
proof -
  let ?w = "addParticipant (demo_env [''7'']) ''7'' (with_pool (unBindHalfDuplexOut DEFAULT_ID ''7'') (with_pool (unBindAll ''7'') demo_muted))"
  have w: "conf ?w = (Conference_new ''conf'')\<lparr>confState := ACTIVE_ATTACHED, participantsMuted := [HOST], participants := [''7'']\<rparr>"
    "rb_pool ?w = RingBufferPool_new list_fifo"
    by (simp_all add: addParticipant_def demo_muted demo_env_parts demo_peer_def takeOverMediaSourceControl_def takeover_media_def
        isVideoEnabled_def demo_account_def take_over_type_def add_moderators_def Conference_new_def Let_def demo_pool_idle)
  have j: "demo_joined = bindParticipant (demo_env [''7'']) ''7'' ?w"
    by (simp add: demo_joined_def bindCallToConference_def demo_muted Conference_new_def)
  show "conf demo_joined = (Conference_new ''conf'')\<lparr>confState := ACTIVE_ATTACHED, participantsMuted := [HOST], participants := [''7'']\<rparr>"
    by (simp add: j w)
  have "host_muted (conf ?w)" by (simp add: w host_muted_def isMuted_def)
  then show "rb_pool demo_joined = setMicMuted ''7'' True (RingBufferPool_new list_fifo)"
    by (simp add: j bindParticipant_def for_participants_def bind_to_def Let_def w Conference_new_def demo_pool_idle)
qed

definition demo_run :: "(int, int list, int) conf_world \<times> string list" where
  "demo_run = foldl (conf_step (\<lambda>_. 0) (\<lambda>m f. Inr f)) (demo_world [], [])
     (map (\<lambda>oper. (demo_env [''7''], oper)) ([AttachHost, HostMute True, JoinCall ''7'' ''CURRENT''] @ demo_noise))"

lemma demo_run_stages:
  "demo_run = foldl (conf_step (\<lambda>_. 0) (\<lambda>m f. Inr f)) (demo_joined, [''7'']) (map (\<lambda>oper. (demo_env [''7''], oper)) demo_noise)"
  by (simp add: demo_run_def conf_step_def demo_joined_def demo_muted_def demo_attached_def recognised_def)

lemma demo_run_facts:
  "conf (fst demo_run) = conf demo_joined" "snd demo_run = [''7'']"
  "rb_name (rb_pool (fst demo_run)) 0 = DEFAULT_ID" "head_frame ''7'' (rb_pool (fst demo_run)) 0 = Some demo_frame"
  by (simp_all add: demo_run_stages demo_noise_def conf_step_def not_mic_def demo_joined demo_env_parts setMicMuted_def pool_eval
      putToBuffer_def head_frame_def RingBuffer_get_def putLength_def getSmallestReadOffset_def hasNoReadOffsets_def)


end
