(* ===== verification/Scheduled_Executor.thy ===== *)
theory Scheduled_Executor
  imports Sip_Prelude "HOL-Library.Multiset"
begin

text \<open>
  The timer thread behind the main loop, \<^verbatim>\<open>src/scheduled_executor.cpp\<close> and \<^verbatim>\<open>src/scheduled_executor.h\<close>.
  Jobs wait in a map from due times to vectors of jobs; the thread takes the whole first vector
  once it is due and runs it job by job. Other threads, and the jobs themselves, may schedule,
  cancel, stop and start between any two of these steps, so a step is one critical section or
  the run of one job. The theorems say that this implements a queue ordered by due time, that no
  job runs early, and that every submission is accounted for.
\<close>

section \<open>State\<close>

text \<open>A closure handed to \<^verbatim>\<open>run\<close>, a \<^verbatim>\<open>Task\<close>, or the closure that runs a \<^verbatim>\<open>RepeatedTask\<close> due at a time and renews
  it after a period. Numbers identify the callable objects.\<close>

datatype job = Closure nat | TaskJob nat | RepeatJob nat int int

text \<open>The cancel flag of a repeated task and whether its function is still set.\<close>

record repeated_task =
  rt_cancel :: bool
  rt_fn :: bool

definition RepeatedTask_new :: repeated_task where
  "RepeatedTask_new = \<lparr>rt_cancel = False, rt_fn = True\<rparr>"

text \<open>
  \<^verbatim>\<open>batch\<close> is the local vector of the running loop, with the time its jobs were due, and
  \<^verbatim>\<open>taken_at\<close> the reading of the clock when it was taken.
\<close>

record executor =
  running :: bool
  jobs :: "(int, job list) smap"
  batch :: "(int \<times> job) list"
  taken_at :: int
  tasks :: "(nat, bool) smap"
  repeated :: "(nat, repeated_task) smap"
  task_cookie :: nat

definition ScheduledExecutor_new :: executor where
  "ScheduledExecutor_new =
     \<lparr>running = True, jobs = [], batch = [], taken_at = 0, tasks = [], repeated = [], task_cookie = 0\<rparr>"

datatype exec_event =
    Submitted int job
  | Executed int job
  | Skipped int job
  | Dropped int job

section \<open>Operations\<close>

text \<open>\<^verbatim>\<open>jobs_[t].emplace_back(job)\<close>\<close>

definition push_job :: "int \<Rightarrow> job \<Rightarrow> executor \<Rightarrow> executor" where
  "push_job t j x =
     x\<lparr>jobs := smap_set t ((case smap_find (jobs x) t of Some js \<Rightarrow> js | None \<Rightarrow> []) @ [j]) (jobs x)\<rparr>"

definition executor_run :: "int \<Rightarrow> nat \<Rightarrow> executor \<Rightarrow> executor \<times> exec_event list" where
  "executor_run now f x = (push_job now (Closure f) x, [Submitted now (Closure f)])"

definition schedule_task :: "nat \<Rightarrow> int \<Rightarrow> executor \<Rightarrow> executor \<times> exec_event list" where
  "schedule_task task t x = (push_job t (TaskJob task) x, [Submitted t (TaskJob task)])"

text \<open>Returns the new task's number.\<close>

definition schedule :: "int \<Rightarrow> executor \<Rightarrow> nat \<times> executor \<times> exec_event list" where
  "schedule t x =
     (let ret = task_cookie x;
          x1 = x\<lparr>tasks := smap_set ret True (tasks x), task_cookie := Suc ret\<rparr>
      in (ret, schedule_task ret t x1))"

definition scheduleIn :: "int \<Rightarrow> int \<Rightarrow> executor \<Rightarrow> nat \<times> executor \<times> exec_event list" where
  "scheduleIn now dt x = schedule (now + dt) x"

definition reschedule :: "nat \<Rightarrow> int \<Rightarrow> int \<Rightarrow> executor \<Rightarrow> executor \<times> exec_event list" where
  "reschedule task t dt x =
     (push_job t (RepeatJob task t dt) (x\<lparr>task_cookie := Suc (task_cookie x)\<rparr>),
      [Submitted t (RepeatJob task t dt)])"

definition scheduleAtFixedRate :: "int \<Rightarrow> int \<Rightarrow> executor \<Rightarrow> nat \<times> executor \<times> exec_event list" where
  "scheduleAtFixedRate now dt x =
     (let ret = task_cookie x;
          x1 = x\<lparr>repeated := smap_set ret RepeatedTask_new (repeated x), task_cookie := Suc ret\<rparr>
      in (ret, reschedule ret now dt x1))"

definition Task_cancel :: "nat \<Rightarrow> executor \<Rightarrow> executor" where
  "Task_cancel i x = x\<lparr>tasks := smap_set i False (tasks x)\<rparr>"

definition upd_repeated :: "nat \<Rightarrow> (repeated_task \<Rightarrow> repeated_task) \<Rightarrow> executor \<Rightarrow> executor" where
  "upd_repeated i f x =
     (case smap_find (repeated x) i of Some r \<Rightarrow> x\<lparr>repeated := smap_set i (f r) (repeated x)\<rparr> | None \<Rightarrow> x)"

definition RepeatedTask_cancel :: "nat \<Rightarrow> executor \<Rightarrow> executor" where
  "RepeatedTask_cancel i x = upd_repeated i (\<lambda>r. r\<lparr>rt_cancel := True\<rparr>) x"

definition RepeatedTask_destroy :: "nat \<Rightarrow> executor \<Rightarrow> executor" where
  "RepeatedTask_destroy i x = upd_repeated i (\<lambda>r. r\<lparr>rt_cancel := True, rt_fn := False\<rparr>) x"

text \<open>
  \<^verbatim>\<open>RepeatedTask::run\<close>; \<^verbatim>\<open>result\<close> is what the function answers if it is called, \<^verbatim>\<open>None\<close> if it throws. Returns
  whether it was called, whether the task goes on, and the task; an exception leaves the task as it
  is and ends the run before the task is renewed.
\<close>

definition RepeatedTask_run :: "bool option \<Rightarrow> repeated_task \<Rightarrow> bool \<times> bool \<times> repeated_task" where
  "RepeatedTask_run result r =
     (let called = (\<not> rt_cancel r \<and> rt_fn r) in
      if called \<and> result = None then (True, False, r)
      else
        let cont = (called \<and> result = Some True);
            r1 = (if cont then r else r\<lparr>rt_cancel := True, rt_fn := False\<rparr>)
        in (called, rt_fn r1, r1))"

text \<open>
  Starting joins the old thread first, so it waits until that thread has run the rest of its
  vector. (Called from the executor's own thread it detaches instead; that use is not modelled.)
\<close>

definition executor_start :: "executor \<Rightarrow> executor" where
  "executor_start x = (if running x \<or> batch x \<noteq> [] then x else x\<lparr>running := True\<rparr>)"

text \<open>The jobs waiting in the map, in the order of iteration.\<close>

definition waiting_jobs :: "executor \<Rightarrow> (int \<times> job) list" where
  "waiting_jobs x = concat (map (\<lambda>(t, js). map (\<lambda>j. (t, j)) js) (jobs x))"

definition executor_stop :: "executor \<Rightarrow> executor \<times> exec_event list" where
  "executor_stop x =
     (x\<lparr>running := False, jobs := []\<rparr>, map (\<lambda>(t, j). Dropped t j) (waiting_jobs x))"

text \<open>The critical section of \<^verbatim>\<open>loop\<close>, when its wait ends at time \<^verbatim>\<open>now\<close>: it takes nothing if the
  executor was stopped or nothing is due.\<close>

definition loop_take :: "int \<Rightarrow> executor \<Rightarrow> executor" where
  "loop_take now x =
     (if \<not> running x \<or> batch x \<noteq> [] then x
      else case jobs x of
        [] \<Rightarrow> x
      | (t, js) # rest \<Rightarrow>
          if now < t then x else x\<lparr>jobs := rest, batch := map (\<lambda>j. (t, j)) js, taken_at := now\<rparr>)"

text \<open>One turn of the loop over the local vector. An exception of the job is caught there.\<close>

definition loop_run :: "bool option \<Rightarrow> executor \<Rightarrow> executor \<times> exec_event list" where
  "loop_run result x =
     (case batch x of
        [] \<Rightarrow> (x, [])
      | (d, Closure f) # rest \<Rightarrow> (x\<lparr>batch := rest\<rparr>, [Executed d (Closure f)])
      | (d, TaskJob i) # rest \<Rightarrow>
          (x\<lparr>batch := rest\<rparr>,
           if smap_find (tasks x) i = Some True then [Executed d (TaskJob i)] else [Skipped d (TaskJob i)])
      | (d, RepeatJob i t dt) # rest \<Rightarrow>
          (case smap_find (repeated x) i of
             None \<Rightarrow> (x\<lparr>batch := rest\<rparr>, [Skipped d (RepeatJob i t dt)])
           | Some r \<Rightarrow>
               let (called, go_on, r1) = RepeatedTask_run result r;
                   x1 = x\<lparr>batch := rest, repeated := smap_set i r1 (repeated x)\<rparr>;
                   ev = (if called then Executed d (RepeatJob i t dt) else Skipped d (RepeatJob i t dt));
                   (x2, ev2) = (if go_on then reschedule i (t + dt) dt x1 else (x1, []))
               in (x2, ev # ev2)))"

section \<open>Runs\<close>

datatype exec_op =
    Run int nat
  | Schedule int
  | ScheduleIn int int
  | ScheduleAtFixedRate int int
  | CancelTask nat
  | CancelRepeated nat
  | DestroyRepeated nat
  | Stop
  | Start
  | LoopTake int
  | LoopRun "bool option"

fun exec_op_run :: "exec_op \<Rightarrow> executor \<Rightarrow> executor \<times> exec_event list" where
  "exec_op_run (Run now f) x = executor_run now f x"
| "exec_op_run (Schedule t) x = snd (schedule t x)"
| "exec_op_run (ScheduleIn now dt) x = snd (scheduleIn now dt x)"
| "exec_op_run (ScheduleAtFixedRate now dt) x = snd (scheduleAtFixedRate now dt x)"
| "exec_op_run (CancelTask i) x = (Task_cancel i x, [])"
| "exec_op_run (CancelRepeated i) x = (RepeatedTask_cancel i x, [])"
| "exec_op_run (DestroyRepeated i) x = (RepeatedTask_destroy i x, [])"
| "exec_op_run Stop x = executor_stop x"
| "exec_op_run Start x = (executor_start x, [])"
| "exec_op_run (LoopTake now) x = (loop_take now x, [])"
| "exec_op_run (LoopRun result) x = loop_run result x"

definition exec_step :: "executor \<times> exec_event list \<Rightarrow> exec_op \<Rightarrow> executor \<times> exec_event list" where
  "exec_step s op = (let (x, ev) = exec_op_run op (fst s) in (x, snd s @ ev))"

text \<open>What was submitted, and what left the executor: executed, skipped or dropped.\<close>

fun submitted :: "exec_event list \<Rightarrow> (int \<times> job) multiset" where
  "submitted [] = {#}"
| "submitted (Submitted t j # tr) = add_mset (t, j) (submitted tr)"
| "submitted (_ # tr) = submitted tr"

fun settled_jobs :: "exec_event list \<Rightarrow> (int \<times> job) multiset" where
  "settled_jobs [] = {#}"
| "settled_jobs (Submitted t j # tr) = settled_jobs tr"
| "settled_jobs (Executed t j # tr) = add_mset (t, j) (settled_jobs tr)"
| "settled_jobs (Skipped t j # tr) = add_mset (t, j) (settled_jobs tr)"
| "settled_jobs (Dropped t j # tr) = add_mset (t, j) (settled_jobs tr)"

lemma submitted_append [simp]: "submitted (a @ b) = submitted a + submitted b"
  by (induction a rule: submitted.induct) auto

lemma settled_jobs_append [simp]: "settled_jobs (a @ b) = settled_jobs a + settled_jobs b"
  by (induction a rule: settled_jobs.induct) auto

lemma dropped_all [simp]:
  "submitted (map (\<lambda>(t, j). Dropped t j) xs) = {#}"
  "settled_jobs (map (\<lambda>(t, j). Dropped t j) xs) = mset xs"
  by (induction xs) auto

definition jobs_wf :: "executor \<Rightarrow> bool" where
  "jobs_wf x \<longleftrightarrow> smap_wf (jobs x) \<and> (\<forall>(t, js) \<in> set (jobs x). js \<noteq> [])"

definition exec_inv :: "executor \<times> exec_event list \<Rightarrow> bool" where
  "exec_inv s \<longleftrightarrow> (case s of (x, tr) \<Rightarrow>
     jobs_wf x \<and>
     submitted tr = settled_jobs tr + mset (batch x) + mset (waiting_jobs x) \<and>
     (\<forall>(d, j) \<in> set (batch x). d \<le> taken_at x))"

section \<open>The map of jobs is a queue ordered by due time\<close>

abbreviation timed :: "(int \<times> job list) list \<Rightarrow> (int \<times> job) list" where
  "timed m \<equiv> concat (map (\<lambda>(t, js). map (\<lambda>j. (t, j)) js) m)"

definition timed_insert :: "int \<times> job \<Rightarrow> (int \<times> job) list \<Rightarrow> (int \<times> job) list" where
  "timed_insert e q = takeWhile (\<lambda>x. fst x \<le> fst e) q @ [e] @ dropWhile (\<lambda>x. fst x \<le> fst e) q"

lemma mset_timed_insert [simp]: "mset (timed_insert e q) = add_mset e (mset q)"
proof -
  have "mset q = mset (takeWhile (\<lambda>x. fst x \<le> fst e) q @ dropWhile (\<lambda>x. fst x \<le> fst e) q)" by simp
  then show ?thesis unfolding timed_insert_def by (simp only: mset_append) simp
qed

lemma timed_insert_keep:
  "\<forall>x \<in> set xs. fst x \<le> fst e \<Longrightarrow> timed_insert e (xs @ ys) = xs @ timed_insert e ys"
  by (simp add: timed_insert_def takeWhile_append dropWhile_append)

lemma timed_insert_front: "\<forall>x \<in> set ys. fst e < fst x \<Longrightarrow> timed_insert e ys = e # ys"
  by (cases ys) (auto simp: timed_insert_def)

lemma timed_smap_set:
  assumes "smap_wf m"
  shows "timed (smap_set t ((case smap_find m t of Some js \<Rightarrow> js | None \<Rightarrow> []) @ [j]) m) =
    timed_insert (t, j) (timed m)"
  using assms
proof (induction m)
  case Nil
  then show ?case by (simp add: timed_insert_def)
next
  case (Cons e m)
  obtain a js where e: "e = (a, js)" by (cases e)
  have wf: "smap_wf m" and later: "\<forall>(u, ks) \<in> set m. a < u"
    using Cons.prems e by (auto simp: smap_wf_def)
  then have later': "\<forall>x \<in> set (timed m). a < fst x" by fastforce
  consider "t < a" | "t = a" | "a < t" by linarith
  then show ?case
  proof cases
    case 1
    then have none: "smap_find m t = None"
      using later by (fastforce simp: map_of_eq_None_iff)
    have "timed_insert (t, j) (timed (e # m)) = (t, j) # timed (e # m)"
      using 1 later e by (intro timed_insert_front) fastforce
    with 1 none e show ?thesis by simp
  next
    case 2
    have "timed_insert (t, j) (timed (e # m)) = map (\<lambda>j. (a, j)) js @ timed_insert (t, j) (timed m)"
      using 2 e by (simp add: timed_insert_keep)
    moreover have "timed_insert (t, j) (timed m) = (t, j) # timed m"
      using 2 later' by (intro timed_insert_front) auto
    ultimately show ?thesis using 2 e by simp
  next
    case 3
    have "timed_insert (t, j) (timed (e # m)) = map (\<lambda>j. (a, j)) js @ timed_insert (t, j) (timed m)"
      using 3 e by (simp add: timed_insert_keep)
    with Cons.IH [OF wf] 3 e show ?thesis by simp
  qed
qed

lemma waiting_push: "jobs_wf x \<Longrightarrow> waiting_jobs (push_job t j x) = timed_insert (t, j) (waiting_jobs x)"
  by (simp add: waiting_jobs_def push_job_def timed_smap_set jobs_wf_def)

lemma jobs_wf_push: "jobs_wf x \<Longrightarrow> jobs_wf (push_job t j x)"
  by (auto simp: jobs_wf_def push_job_def dest!: in_smap_setD)

lemma push_job_simps [simp]:
  "batch (push_job t j x) = batch x" "taken_at (push_job t j x) = taken_at x" "running (push_job t j x) = running x"
  "tasks (push_job t j x) = tasks x" "repeated (push_job t j x) = repeated x"
  "task_cookie (push_job t j x) = task_cookie x"
  by (simp_all add: push_job_def)

section \<open>Invariant\<close>

lemma waiting_cong: "jobs x = jobs y \<Longrightarrow> waiting_jobs x = waiting_jobs y"
  by (simp add: waiting_jobs_def)

lemma jobs_wf_cong: "jobs x = jobs y \<Longrightarrow> jobs_wf x = jobs_wf y"
  by (simp add: jobs_wf_def)

lemma exec_inv_same:
  assumes "exec_inv (x, tr)" and "jobs y = jobs x" and "batch y = batch x" and "taken_at y = taken_at x"
  shows "exec_inv (y, tr)"
  using assms waiting_cong [of y x] jobs_wf_cong [of y x] by (simp add: exec_inv_def)

lemma exec_inv_submit:
  assumes "exec_inv (x, tr)" shows "exec_inv (push_job t j x, tr @ [Submitted t j])"
  using assms by (simp add: exec_inv_def waiting_push jobs_wf_push)

lemma exec_inv_pop:
  assumes "exec_inv (x, tr)" and "batch x = (d, j) # rest" and "batch y = rest" and "jobs y = jobs x"
    and "taken_at y = taken_at x" and "ev = Executed d j \<or> ev = Skipped d j"
  shows "exec_inv (y, tr @ [ev])"
  using assms waiting_cong [of y x] jobs_wf_cong [of y x] by (auto simp: exec_inv_def)

lemma exec_inv_schedule: "exec_inv (x, tr) \<Longrightarrow> exec_inv (fst (snd (schedule t x)), tr @ snd (snd (schedule t x)))"
  unfolding schedule_def schedule_task_def Let_def
  by (simp, rule exec_inv_submit, erule exec_inv_same) simp_all

lemma exec_inv_reschedule: "exec_inv (x, tr) \<Longrightarrow> reschedule i t dt x = (y, ev) \<Longrightarrow> exec_inv (y, tr @ ev)"
  by (auto simp: reschedule_def intro!: exec_inv_submit intro: exec_inv_same)

lemma loop_take_cases:
  obtains (idle) "loop_take now x = x" "\<not> running x \<or> batch x \<noteq> [] \<or> jobs x = [] \<or> now < fst (hd (jobs x))"
  | (due) t js rest where "running x" "batch x = []" "jobs x = (t, js) # rest" "t \<le> now"
      "loop_take now x = x\<lparr>jobs := rest, batch := map (\<lambda>j. (t, j)) js, taken_at := now\<rparr>"
proof (cases "\<not> running x \<or> batch x \<noteq> [] \<or> jobs x = [] \<or> now < fst (hd (jobs x))")
  case True
  then show ?thesis by (intro idle) (auto simp: loop_take_def split: list.splits)
next
  case False
  then obtain t js rest where "jobs x = (t, js) # rest" by (cases "jobs x") auto
  with False show ?thesis by (intro due) (auto simp: loop_take_def)
qed

lemma exec_inv_take:
  assumes "exec_inv (x, tr)" shows "exec_inv (loop_take now x, tr)"
proof (cases rule: loop_take_cases [of now x])
  case (due t js rest)
  with assms show ?thesis
    by (simp add: exec_inv_def jobs_wf_def smap_wf_def waiting_jobs_def)
qed (use assms in simp)

lemma exec_inv_loop_run:
  assumes inv: "exec_inv (x, tr)" and run: "loop_run result x = (y, ev)"
  shows "exec_inv (y, tr @ ev)"
proof (cases "batch x")
  case Nil
  with run inv show ?thesis by (auto simp: loop_run_def)
next
  case (Cons e rest)
  obtain d j where e: "e = (d, j)" by (cases e)
  note pop = exec_inv_pop [OF inv Cons [unfolded e]]
  show ?thesis
  proof (cases "\<exists>i t dt r. j = RepeatJob i t dt \<and> smap_find (repeated x) i = Some r")
    case False
    with run Cons e have "batch y = rest" "jobs y = jobs x" "taken_at y = taken_at x"
      "ev = [Executed d j] \<or> ev = [Skipped d j]"
      by (auto simp: loop_run_def split: job.splits option.splits if_splits)
    with pop [of y] show ?thesis by auto
  next
    case True
    then obtain i t dt r where j: "j = RepeatJob i t dt" "smap_find (repeated x) i = Some r" by blast
    obtain called go_on r1 where rr: "RepeatedTask_run result r = (called, go_on, r1)"
      by (cases "RepeatedTask_run result r")
    let ?x1 = "x\<lparr>batch := rest, repeated := smap_set i r1 (repeated x)\<rparr>"
    let ?ev = "if called then Executed d j else Skipped d j"
    have 1: "exec_inv (?x1, tr @ [?ev])" by (rule pop) auto
    from run Cons e j rr have y: "(y, ev) =
        (let (x2, ev2) = if go_on then reschedule i (t + dt) dt ?x1 else (?x1, []) in (x2, ?ev # ev2))"
      by (auto simp: loop_run_def Let_def simp del: if_split)
    show ?thesis
    proof (cases go_on)
      case True
      obtain x2 ev2 where r2: "reschedule i (t + dt) dt ?x1 = (x2, ev2)"
        by (cases "reschedule i (t + dt) dt ?x1")
      from exec_inv_reschedule [OF 1 r2] y r2 True show ?thesis by simp
    qed (use y 1 in simp)
  qed
qed

lemma exec_inv_step: "exec_inv s \<Longrightarrow> exec_inv (exec_step s op)"
proof (cases s; cases op)
  fix x tr result assume "exec_inv s" and "s = (x, tr)" and "op = LoopRun result"
  then show ?thesis
    by (cases "loop_run result x") (auto simp: exec_step_def dest: exec_inv_loop_run)
next
  fix x tr assume "exec_inv s" and "s = (x, tr)" and "op = Stop"
  then show ?thesis
    by (auto simp: exec_step_def executor_stop_def exec_inv_def jobs_wf_def waiting_jobs_def)
next
  fix x tr now dt assume "exec_inv s" and "s = (x, tr)" and "op = ScheduleAtFixedRate now dt"
  then show ?thesis
    using exec_inv_reschedule [OF exec_inv_same [of x tr
        "x\<lparr>repeated := smap_set (task_cookie x) RepeatedTask_new (repeated x), task_cookie := Suc (task_cookie x)\<rparr>"]]
    by (auto simp: exec_step_def scheduleAtFixedRate_def Let_def split: prod.splits)
qed (auto simp: exec_step_def executor_run_def scheduleIn_def Task_cancel_def RepeatedTask_cancel_def
    RepeatedTask_destroy_def upd_repeated_def executor_start_def Let_def case_prod_beta
    intro: exec_inv_submit exec_inv_schedule exec_inv_take exec_inv_same split: option.splits)

interpretation xm: invariant_machine exec_step exec_inv
  by unfold_locales (rule exec_inv_step)

lemma exec_inv_new: "exec_inv (ScheduledExecutor_new, [])"
  by (simp add: exec_inv_def ScheduledExecutor_new_def jobs_wf_def waiting_jobs_def)

section \<open>Properties\<close>



lemma sorted_timed:
  assumes "smap_wf m" shows "sorted (map fst (timed m))"
  using assms
proof (induction m)
  case (Cons e m)
  obtain t js where e: "e = (t, js)" by (cases e)
  from Cons.prems e have "smap_wf m" and l: "\<forall>x \<in> set m. t < fst x" by (auto simp: smap_wf_def)
  then have "sorted (map fst (timed m))" using Cons.IH by blast
  moreover have "\<forall>u \<in> set (map fst (timed m)). t \<le> u" using l by fastforce
  moreover have "map fst (map (Pair t) js) = replicate (length js) t" by (induction js) auto
  ultimately show ?case using e by (simp add: sorted_append)
qed simp

text \<open>
  C30: the map of vectors is a queue in order of due time, first come first served among jobs due
  at the same time: a submission goes behind all jobs that are due no later, the thread takes
  exactly the jobs with the earliest due time, in order, and only once they are due.
\<close>

theorem executor_is_timed_queue:
  assumes "jobs_wf x"
  shows "sorted (map fst (waiting_jobs x)) \<and>
    waiting_jobs (push_job t j x) =
      takeWhile (\<lambda>e. fst e \<le> t) (waiting_jobs x) @ [(t, j)] @ dropWhile (\<lambda>e. fst e \<le> t) (waiting_jobs x) \<and>
    (let q = waiting_jobs x; y = loop_take now x in
     if running x \<and> batch x = [] \<and> q \<noteq> [] \<and> fst (hd q) \<le> now
     then batch y = takeWhile (\<lambda>e. fst e = fst (hd q)) q \<and> waiting_jobs y = dropWhile (\<lambda>e. fst e = fst (hd q)) q
     else y = x)"
proof -
  have wf: "smap_wf (jobs x)" and ne: "\<forall>(t, js) \<in> set (jobs x). js \<noteq> []" using assms by (auto simp: jobs_wf_def)
  have s: "sorted (map fst (waiting_jobs x))" using sorted_timed [OF wf] by (simp add: waiting_jobs_def)
  have push: "waiting_jobs (push_job t j x) =
      takeWhile (\<lambda>e. fst e \<le> t) (waiting_jobs x) @ [(t, j)] @ dropWhile (\<lambda>e. fst e \<le> t) (waiting_jobs x)"
    using waiting_push [OF assms] by (simp add: timed_insert_def)
  show ?thesis
  proof (cases rule: loop_take_cases [of now x])
    case (due u js rest)
    then have js: "js \<noteq> []" using ne by simp
    have q: "waiting_jobs x = map (Pair u) js @ timed rest" using due by (simp add: waiting_jobs_def)
    have hd: "waiting_jobs x \<noteq> []" "fst (hd (waiting_jobs x)) = u" using q js by (auto simp: hd_append hd_map)
    have later: "\<forall>e \<in> set (timed rest). fst e \<noteq> u" using wf due by (fastforce simp: smap_wf_def)
    have split: "takeWhile (\<lambda>e. fst e = u) (map (Pair u) js @ r) = map (Pair u) js \<and>
        dropWhile (\<lambda>e. fst e = u) (map (Pair u) js @ r) = r" if "\<forall>e \<in> set r. fst e \<noteq> u" for r :: "(int \<times> job) list"
    proof (cases r)
      case (Cons e r')
      with that have "fst e \<noteq> u" by simp
      then show ?thesis unfolding Cons by (induction js) simp_all
    qed (induction js, simp_all)
    have y: "batch (loop_take now x) = map (Pair u) js" "waiting_jobs (loop_take now x) = timed rest"
      by (simp_all add: due(5) waiting_jobs_def)
    have c: "running x \<and> batch x = [] \<and> waiting_jobs x \<noteq> [] \<and> fst (hd (waiting_jobs x)) \<le> now"
      using due hd by simp
    show ?thesis
      unfolding Let_def hd(2) y using s push c split [OF later] hd by (simp only: q simp_thms if_True)
  next
    case idle
    have "jobs x = [] \<longleftrightarrow> waiting_jobs x = []" using ne by (cases "jobs x") (auto simp: waiting_jobs_def)
    moreover have "fst (hd (waiting_jobs x)) = fst (hd (jobs x))" if "jobs x \<noteq> []"
      using that ne by (cases "jobs x") (auto simp: waiting_jobs_def hd_append hd_map)
    ultimately have "\<not> (running x \<and> batch x = [] \<and> waiting_jobs x \<noteq> [] \<and> fst (hd (waiting_jobs x)) \<le> now)"
      using idle(2) by auto
    with idle(1) s push show ?thesis by (auto simp: Let_def)
  qed
qed

abbreviation example_executor :: executor where
  "example_executor \<equiv> push_job 9 (TaskJob 1) (push_job 5 (Closure 0) ScheduledExecutor_new)"

theorem executor_is_timed_queue_witness:
  "waiting_jobs (push_job 5 (Closure 7) example_executor) = [(5, Closure 0), (5, Closure 7), (9, TaskJob 1)]"
proof -
  have wf: "jobs_wf example_executor"
    by (intro jobs_wf_push) (simp add: jobs_wf_def ScheduledExecutor_new_def)
  have w: "waiting_jobs example_executor = [(5, Closure 0), (9, TaskJob 1)]"
    by (simp add: waiting_jobs_def push_job_def ScheduledExecutor_new_def)
  from executor_is_timed_queue [OF wf, of 5 "Closure 7"] w show ?thesis by simp
qed

text \<open>A task that was cancelled, and whose number is not handed out again.\<close>

definition cancelled_task :: "nat \<Rightarrow> executor \<Rightarrow> bool" where
  "cancelled_task i x \<longleftrightarrow> smap_find (tasks x) i = Some False \<and> i < task_cookie x"

lemma cancelled_task_step:
  assumes "cancelled_task i x" and "exec_op_run op x = (y, ev)"
  shows "cancelled_task i y \<and> (\<forall>d. Executed d (TaskJob i) \<notin> set ev)"
  using assms
  by (cases op)
    (auto simp: cancelled_task_def executor_run_def schedule_def schedule_task_def scheduleIn_def scheduleAtFixedRate_def
      reschedule_def Task_cancel_def RepeatedTask_cancel_def RepeatedTask_destroy_def upd_repeated_def
      executor_stop_def executor_start_def loop_take_def loop_run_def Let_def
      split: if_splits option.splits list.splits prod.splits job.splits)

text \<open>
  Once a scheduled task has been cancelled it is not executed any more, even if the thread
  already holds it.
\<close>

theorem cancelled_task_never_runs:
  assumes "cancelled_task i x" and "foldl exec_step (x, tr) ops = (y, tr')" and "Executed d (TaskJob i) \<notin> set tr"
  shows "Executed d (TaskJob i) \<notin> set tr'"
  using assms
proof (induction ops arbitrary: x tr)
  case (Cons op ops)
  obtain x1 ev where r: "exec_op_run op x = (x1, ev)" by (cases "exec_op_run op x")
  from r have st: "exec_step (x, tr) op = (x1, tr @ ev)" by (simp add: exec_step_def)
  from cancelled_task_step [OF Cons.prems(1) r] Cons.prems st
  have "cancelled_task i x1" "foldl exec_step (x1, tr @ ev) ops = (y, tr')" "Executed d (TaskJob i) \<notin> set (tr @ ev)"
    by auto
  then show ?case by (rule Cons.IH)
qed simp

theorem cancelled_task_never_runs_witness:
  "Executed 9 (TaskJob 0) \<notin> set (snd (foldl exec_step (Task_cancel 0 (fst (snd (schedule 9 ScheduledExecutor_new))), [])
     [LoopTake 10, LoopRun (Some True)]))"
proof -
  let ?x = "Task_cancel 0 (fst (snd (schedule 9 ScheduledExecutor_new)))"
  have c: "cancelled_task 0 ?x"
    by (simp add: cancelled_task_def Task_cancel_def schedule_def schedule_task_def ScheduledExecutor_new_def Let_def)
  obtain y tr' where "foldl exec_step (?x, []) [LoopTake 10, LoopRun (Some True)] = (y, tr')" by (metis surj_pair)
  with cancelled_task_never_runs [OF c this, of 9] show ?thesis by simp
qed

end
