(* ===== verification/Audio_Devices.thy ===== *)
theory Audio_Devices
  imports Scheduled_Executor "HOL-Library.Word"
begin

text \<open>
  How the manager shares the sound device, \<^verbatim>\<open>AudioDeviceGuard\<close> and \<^verbatim>\<open>initAudioDriver\<close> of \<^verbatim>\<open>src/manager.cpp\<close>. Whoever
  needs a stream of the device holds a guard. The first guard starts the stream, the last one to
  go leaves a task with the timer thread that stops it 750 ms later, and a guard taken in between
  calls the task off and keeps the stream. Guards come and go on many threads, so their life is a
  relation between states, and the theorems speak of every state it reaches. The driver itself
  differs from platform to platform; the model keeps which streams it was last told to run.
\<close>

section \<open>State\<close>

datatype audio_device_type = ALL_DEVICES | PLAYBACK | CAPTURE | RINGTONE

text \<open>What a task of the timer thread does when it runs; the numbers are those of the executor.\<close>

datatype task_body =
    StopStreamTask audio_device_type
  | AlertInfoTimeout string string

datatype device_event =
    StartStream audio_device_type
  | StopStream audio_device_type
  | FlushUrgent

text \<open>The slots of the arrays that belong to \<^verbatim>\<open>ALL\<close> are never used.\<close>

record audio_devices =
  audiodriver :: "(audio_device_type \<Rightarrow> bool) option"
  audioStreamUsers :: "audio_device_type \<Rightarrow> 32 word"
  audioStreamStopTask :: "audio_device_type \<Rightarrow> nat option"
  scheduler :: executor
  task_bodies :: "(nat, task_body) smap"
  device_log :: "device_event list"

definition audio_devices_new :: audio_devices where
  "audio_devices_new =
     \<lparr>audiodriver = None, audioStreamUsers = (\<lambda>_. 0), audioStreamStopTask = (\<lambda>_. None),
      scheduler = ScheduledExecutor_new, task_bodies = [], device_log = []\<rparr>"

datatype device_error = InvalidAudioDeviceType

section \<open>Operations\<close>

definition driver_startStream :: "audio_device_type \<Rightarrow> audio_devices \<Rightarrow> audio_devices" where
  "driver_startStream ty m =
     (case audiodriver m of
        None \<Rightarrow> m
      | Some streams \<Rightarrow> m\<lparr>audiodriver := Some (streams(ty := True)), device_log := device_log m @ [StartStream ty]\<rparr>)"

definition driver_stopStream :: "audio_device_type \<Rightarrow> audio_devices \<Rightarrow> audio_devices" where
  "driver_stopStream ty m =
     (case audiodriver m of
        None \<Rightarrow> m
      | Some streams \<Rightarrow> m\<lparr>audiodriver := Some (streams(ty := False)), device_log := device_log m @ [StopStream ty]\<rparr>)"

definition driver_flushUrgent :: "audio_devices \<Rightarrow> audio_devices" where
  "driver_flushUrgent m = m\<lparr>device_log := device_log m @ [FlushUrgent]\<rparr>"

text \<open>\<^verbatim>\<open>scheduleTaskIn\<close> with what the task will do.\<close>

definition scheduleTaskIn :: "int \<Rightarrow> int \<Rightarrow> task_body \<Rightarrow> audio_devices \<Rightarrow> nat \<times> audio_devices" where
  "scheduleTaskIn now dt body m =
     (let (i, x, _) = scheduleIn now dt (scheduler m)
      in (i, m\<lparr>scheduler := x, task_bodies := smap_set i body (task_bodies m)\<rparr>))"

definition cancel_task :: "nat \<Rightarrow> audio_devices \<Rightarrow> audio_devices" where
  "cancel_task i m = m\<lparr>scheduler := Task_cancel i (scheduler m)\<rparr>"

text \<open>The constructor for a type that is known to be one of the three streams.\<close>

definition startAudioStream :: "audio_device_type \<Rightarrow> audio_devices \<Rightarrow> audio_devices" where
  "startAudioStream ty m =
     (let users = audioStreamUsers m ty;
          m1 = m\<lparr>audioStreamUsers := (audioStreamUsers m)(ty := users + 1)\<rparr>
      in if users = 0
         then case audioStreamStopTask m1 ty of
                Some pending \<Rightarrow> (cancel_task pending m1)\<lparr>audioStreamStopTask := (audioStreamStopTask m1)(ty := None)\<rparr>
              | None \<Rightarrow> driver_startStream ty m1
         else m1)"

text \<open>The constructor: \<^verbatim>\<open>ALL\<close> becomes an index out of range.\<close>

definition AudioDeviceGuard_new :: "audio_device_type \<Rightarrow> audio_devices \<Rightarrow> device_error + audio_devices" where
  "AudioDeviceGuard_new ty m = (if ty = ALL_DEVICES then Inl InvalidAudioDeviceType else Inr (startAudioStream ty m))"

definition LINGER :: int where "LINGER = 750"

definition AudioDeviceGuard_delete :: "int \<Rightarrow> audio_device_type \<Rightarrow> audio_devices \<Rightarrow> audio_devices" where
  "AudioDeviceGuard_delete now ty m =
     (let users = audioStreamUsers m ty - 1;
          m1 = m\<lparr>audioStreamUsers := (audioStreamUsers m)(ty := users)\<rparr>
      in if users \<noteq> 0 then m1
         else let (i, m2) = scheduleTaskIn now LINGER (StopStreamTask ty) m1
              in m2\<lparr>audioStreamStopTask := (audioStreamStopTask m2)(ty := Some i)\<rparr>)"

text \<open>The body of the task the destructor schedules.\<close>

definition stop_stream_task :: "audio_device_type \<Rightarrow> audio_devices \<Rightarrow> audio_devices" where
  "stop_stream_task ty m =
     (let m1 = m\<lparr>audioStreamStopTask := (audioStreamStopTask m)(ty := None)\<rparr>
      in if audioStreamUsers m1 ty \<noteq> 0 then m1 else driver_stopStream ty m1)"

text \<open>\<^verbatim>\<open>initAudioDriver\<close>; \<^verbatim>\<open>created\<close> says whether \<^verbatim>\<open>createAudioLayer\<close> gives a driver.\<close>

definition initAudioDriver :: "bool \<Rightarrow> audio_devices \<Rightarrow> audio_devices" where
  "initAudioDriver created m =
     (let m1 = m\<lparr>audiodriver := (if created then Some (\<lambda>_. False) else None)\<rparr>
      in if \<not> created then m1
         else foldl (\<lambda>m ty. if audioStreamUsers m ty \<noteq> 0 then driver_startStream ty m else m) m1
                [CAPTURE, PLAYBACK, RINGTONE])"

lemmas device_defs = driver_startStream_def driver_stopStream_def cancel_task_def startAudioStream_def
  stop_stream_task_def scheduleTaskIn_def scheduleIn_def schedule_def schedule_task_def Task_cancel_def

section \<open>Guards on many threads\<close>

text \<open>The bodies of the tasks that the timer thread has just run and that concern the device.\<close>

fun run_task :: "exec_event \<Rightarrow> audio_devices \<Rightarrow> audio_devices" where
  "run_task (Executed d (TaskJob i)) m =
     (case smap_find (task_bodies m) i of Some (StopStreamTask ty) \<Rightarrow> stop_stream_task ty m | _ \<Rightarrow> m)"
| "run_task _ m = m"

definition timer_run :: "bool option \<Rightarrow> audio_devices \<Rightarrow> audio_devices" where
  "timer_run result m =
     (let (x, ev) = loop_run result (scheduler m) in foldl (\<lambda>m e. run_task e m) (m\<lparr>scheduler := x\<rparr>) ev)"

text \<open>
  What the rest of the program may do with the executor: anything but stopping it or calling off
  a task that stops a stream, to which nobody else has a handle.
\<close>

fun foreign_op :: "audio_devices \<Rightarrow> exec_op \<Rightarrow> bool" where
  "foreign_op m (CancelTask i) \<longleftrightarrow> (\<forall>ty. audioStreamStopTask m ty \<noteq> Some i)"
| "foreign_op m Stop \<longleftrightarrow> False"
| "foreign_op m Start \<longleftrightarrow> False"
| "foreign_op m (LoopTake now) \<longleftrightarrow> False"
| "foreign_op m (LoopRun result) \<longleftrightarrow> False"
| "foreign_op m _ \<longleftrightarrow> True"

text \<open>A state with the number of guards that exist.\<close>

type_synonym device_world = "audio_devices \<times> (audio_device_type \<Rightarrow> nat)"

text \<open>
  The counter has 32 bits, so fewer guards than that exist at a time. A driver is replaced while no
  stop is pending: the theorems below say what happens otherwise.
\<close>

inductive device_step :: "device_world \<Rightarrow> device_world \<Rightarrow> bool" where
  acquire: "AudioDeviceGuard_new ty m = Inr m' \<Longrightarrow> Suc (h ty) < 2 ^ 32 \<Longrightarrow> device_step (m, h) (m', h(ty := Suc (h ty)))"
| release: "h ty = Suc n \<Longrightarrow> device_step (m, h) (AudioDeviceGuard_delete now ty m, h(ty := n))"
| take: "device_step (m, h) (m\<lparr>scheduler := loop_take now (scheduler m)\<rparr>, h)"
| run: "device_step (m, h) (timer_run result m, h)"
| alert: "device_step (m, h) (snd (scheduleTaskIn now dt (AlertInfoTimeout accountId callId) m), h)"
| foreign: "foreign_op m op \<Longrightarrow> device_step (m, h) (m\<lparr>scheduler := fst (exec_op_run op (scheduler m))\<rparr>, h)"
| flush: "device_step (m, h) (driver_flushUrgent m, h)"
| swap: "\<forall>ty. audioStreamStopTask m ty = None \<Longrightarrow> device_step (m, h) (initAudioDriver created m, h)"

inductive_cases device_stepE: "device_step s t"

section \<open>Jobs in the executor\<close>

definition queued :: "executor \<Rightarrow> (int \<times> job) set" where
  "queued x = set (batch x) \<union> set (waiting_jobs x)"

lemma set_timed_insert [simp]: "set (timed_insert e q) = insert e (set q)"
  by (metis mset_timed_insert set_mset_add_mset_insert set_mset_mset)

lemma queued_push: "jobs_wf x \<Longrightarrow> queued (push_job t j x) = insert (t, j) (queued x)"
  by (simp add: queued_def waiting_push)

lemma queued_cong: "jobs y = jobs x \<Longrightarrow> batch y = batch x \<Longrightarrow> queued y = queued x"
  by (simp add: queued_def waiting_jobs_def)

lemma queued_take: "queued (loop_take now x) = queued x"
  by (cases rule: loop_take_cases [of now x]) (auto simp: queued_def waiting_jobs_def)

lemma loop_run_tasks [simp]:
  "tasks (fst (loop_run result x)) = tasks x"
  by (auto simp: loop_run_def reschedule_def Let_def split: list.splits prod.splits job.splits option.splits if_splits)

text \<open>Nothing is lost between two states of the executor, apart from the job that has just run.\<close>

definition keeps_jobs :: "(int \<times> job) set \<Rightarrow> nat set \<Rightarrow> executor \<Rightarrow> executor \<Rightarrow> bool" where
  "keeps_jobs done cancelled x y \<longleftrightarrow>
     queued x \<subseteq> done \<union> queued y \<and> task_cookie x \<le> task_cookie y \<and>
     (\<forall>i < task_cookie x. i \<notin> cancelled \<longrightarrow> smap_find (tasks y) i = smap_find (tasks x) i)"

lemma keeps_jobs_push: "jobs_wf x \<Longrightarrow> keeps_jobs {} {} x (push_job t j x)"
  by (auto simp: keeps_jobs_def queued_push)

lemma jobs_kept_schedule:
  assumes "jobs_wf x" and "schedule t x = (i, y, ev)"
  shows "i = task_cookie x \<and> jobs_wf y \<and> keeps_jobs {} {} x y \<and> task_cookie y = Suc i \<and>
    smap_find (tasks y) i = Some True \<and> (t, TaskJob i) \<in> queued y"
proof -
  let ?x = "x\<lparr>tasks := smap_set (task_cookie x) True (tasks x), task_cookie := Suc (task_cookie x)\<rparr>"
  have ok: "jobs_wf ?x" using assms(1) jobs_wf_cong [of ?x x] by simp
  have "queued ?x = queued x" by (rule queued_cong) simp_all
  moreover note ok
  ultimately have "queued (push_job t (TaskJob (task_cookie x)) ?x) = insert (t, TaskJob (task_cookie x)) (queued x)"
    by (simp add: queued_push)
  with assms ok show ?thesis
    by (auto simp: schedule_def schedule_task_def Let_def keeps_jobs_def intro: jobs_wf_push)
qed

lemma jobs_kept_take: "jobs_wf x \<Longrightarrow> jobs_wf (loop_take now x) \<and> keeps_jobs {} {} x (loop_take now x)"
  by (cases rule: loop_take_cases [of now x])
    (auto simp: keeps_jobs_def jobs_wf_def smap_wf_def queued_def waiting_jobs_def)

lemma jobs_kept_foreign:
  assumes "jobs_wf x" and "foreign_op m op" and "exec_op_run op x = (y, ev)"
  shows "jobs_wf y \<and> (\<exists>c. keeps_jobs {} c x y \<and> (\<forall>i \<in> c. \<forall>ty. audioStreamStopTask m ty \<noteq> Some i))"
proof (cases op)
  case (ScheduleAtFixedRate now dt)
  let ?x = "x\<lparr>repeated := smap_set (task_cookie x) RepeatedTask_new (repeated x), task_cookie := Suc (Suc (task_cookie x))\<rparr>"
  have "jobs_wf ?x" using assms(1) jobs_wf_cong [of ?x x] by simp
  moreover have "queued ?x = queued x" by (rule queued_cong) simp_all
  ultimately show ?thesis
    using assms ScheduleAtFixedRate keeps_jobs_push [of ?x now]
    by (auto simp: scheduleAtFixedRate_def reschedule_def Let_def keeps_jobs_def intro!: jobs_wf_push exI [of _ "{}"])
next
  case (Schedule t)
  with assms show ?thesis using jobs_kept_schedule [of x t] by (cases "schedule t x") (auto intro!: exI [of _ "{}"])
next
  case (ScheduleIn now dt)
  with assms show ?thesis
    using jobs_kept_schedule [of x "now + dt"]
    by (cases "schedule (now + dt) x") (auto simp: scheduleIn_def intro!: exI [of _ "{}"])
next
  case (CancelTask i)
  with assms jobs_wf_cong [of y x] queued_cong [of y x] show ?thesis
    by (auto simp: Task_cancel_def keeps_jobs_def intro!: exI [of _ "{i}"] split: if_splits)
qed (use assms jobs_wf_cong [of y x] queued_cong [of y x] in
    \<open>auto simp: executor_run_def RepeatedTask_cancel_def RepeatedTask_destroy_def upd_repeated_def keeps_jobs_def
       jobs_wf_push queued_push intro!: exI [of _ "{}"] split: option.splits\<close>)

lemma keeps_jobs_refl [simp]: "keeps_jobs {} {} x x"
  by (simp add: keeps_jobs_def)

lemma jobs_kept_run:
  assumes "jobs_wf x" and "loop_run result x = (y, ev)"
  shows "jobs_wf y \<and> keeps_jobs (set (take 1 (batch x))) {} x y \<and>
    (\<forall>d i. (d, TaskJob i) \<in> set (take 1 (batch x)) \<longrightarrow> smap_find (tasks x) i = Some True \<longrightarrow> ev = [Executed d (TaskJob i)]) \<and>
    (\<forall>d i. Executed d (TaskJob i) \<in> set ev \<longrightarrow> ev = [Executed d (TaskJob i)] \<and> take 1 (batch x) = [(d, TaskJob i)])"
proof (cases "batch x")
  case Nil
  with assms show ?thesis by (auto simp: loop_run_def keeps_jobs_def)
next
  case (Cons e rest)
  obtain d j where e: "e = (d, j)" by (cases e)
  let ?x = "x\<lparr>batch := rest\<rparr>"
  have q: "queued x = insert (d, j) (queued ?x)" using Cons e by (auto simp: queued_def waiting_jobs_def)
  have wf: "jobs_wf ?x" using assms(1) jobs_wf_cong [of ?x x] by simp
  show ?thesis
  proof (cases j)
    case (RepeatJob i t dt)
    show ?thesis
    proof (cases "smap_find (repeated x) i")
      case None
      with assms Cons e RepeatJob q wf show ?thesis by (auto simp: loop_run_def keeps_jobs_def)
    next
      case (Some r)
      obtain called go_on r1 where rr: "RepeatedTask_run result r = (called, go_on, r1)"
        by (cases "RepeatedTask_run result r")
      let ?x1 = "?x\<lparr>repeated := smap_set i r1 (repeated x)\<rparr>"
      let ?x2 = "?x1\<lparr>task_cookie := Suc (task_cookie x)\<rparr>"
      have 1: "jobs_wf ?x1" "jobs_wf ?x2" "queued ?x1 = queued ?x" "queued ?x2 = queued ?x"
        using wf jobs_wf_cong [of ?x1 ?x] jobs_wf_cong [of ?x2 ?x] queued_cong [of ?x1 ?x] queued_cong [of ?x2 ?x] by auto
      have "y = (if go_on then push_job (t + dt) (RepeatJob i (t + dt) dt) ?x2 else ?x1)"
        "\<forall>d i. Executed d (TaskJob i) \<notin> set ev"
        using assms Cons e RepeatJob Some rr by (auto simp: loop_run_def reschedule_def Let_def split: if_splits)
      with 1 q Cons e RepeatJob show ?thesis
        by (auto simp: keeps_jobs_def jobs_wf_push queued_push)
    qed
  qed (use assms Cons e q wf in \<open>auto simp: loop_run_def keeps_jobs_def split: if_splits\<close>)
qed

section \<open>Invariant\<close>

text \<open>The task that will stop a stream is known to the executor, not called off, and waits there.\<close>

definition stop_pending :: "audio_devices \<Rightarrow> audio_device_type \<Rightarrow> nat \<Rightarrow> bool" where
  "stop_pending m ty i \<longleftrightarrow>
     smap_find (task_bodies m) i = Some (StopStreamTask ty) \<and> i < task_cookie (scheduler m) \<and>
     smap_find (tasks (scheduler m)) i = Some True \<and> (\<exists>d. (d, TaskJob i) \<in> queued (scheduler m))"

definition stream_inv :: "audio_devices \<Rightarrow> nat \<Rightarrow> audio_device_type \<Rightarrow> bool" where
  "stream_inv m n ty \<longleftrightarrow>
     n < 2 ^ 32 \<and> audioStreamUsers m ty = of_nat n \<and>
     (\<forall>i. audioStreamStopTask m ty = Some i \<longrightarrow> n = 0 \<and> stop_pending m ty i) \<and>
     (\<forall>streams. audiodriver m = Some streams \<longrightarrow> (streams ty \<longleftrightarrow> 0 < n \<or> audioStreamStopTask m ty \<noteq> None))"

definition device_inv :: "device_world \<Rightarrow> bool" where
  "device_inv s \<longleftrightarrow> (case s of (m, h) \<Rightarrow> h ALL_DEVICES = 0 \<and> jobs_wf (scheduler m) \<and> (\<forall>ty. stream_inv m (h ty) ty))"

lemma device_inv_new: "device_inv (audio_devices_new, \<lambda>_. 0)"
  by (simp add: device_inv_def audio_devices_new_def stream_inv_def exec_inv_new [unfolded exec_inv_def, simplified])

text \<open>A stream is unaffected by what leaves its slots and its stop task alone.\<close>

lemma stop_pending_kept:
  assumes "stop_pending m ty i" and "keeps_jobs dn c (scheduler m) (scheduler m')" and "i \<notin> c"
    and "\<And>d. (d, TaskJob i) \<notin> dn" and "smap_find (task_bodies m') i = smap_find (task_bodies m) i"
  shows "stop_pending m' ty i"
  using assms unfolding stop_pending_def keeps_jobs_def by fastforce

lemma stream_inv_kept:
  assumes "stream_inv m n ty" and "audioStreamUsers m' ty = audioStreamUsers m ty"
    and "audioStreamStopTask m' ty = audioStreamStopTask m ty"
    and "map_option (\<lambda>streams. streams ty) (audiodriver m') = map_option (\<lambda>streams. streams ty) (audiodriver m)"
    and "\<And>i. audioStreamStopTask m ty = Some i \<Longrightarrow> stop_pending m ty i \<Longrightarrow> stop_pending m' ty i"
  shows "stream_inv m' n ty"
  using assms by (auto simp: stream_inv_def map_option_case split: option.splits)

lemma of_nat_32_zero: "n < 2 ^ 32 \<Longrightarrow> (of_nat n :: 32 word) = 0 \<longleftrightarrow> n = 0"
  by (auto simp: word_of_nat_eq_0_iff dest: dvd_imp_le)

lemma stream_inv_users: "stream_inv m n ty \<Longrightarrow> audioStreamUsers m ty = 0 \<longleftrightarrow> n = 0"
  by (simp add: stream_inv_def of_nat_32_zero)

lemma acquire_inv:
  assumes inv: "device_inv (m, h)" and ty: "ty \<noteq> ALL_DEVICES" and n: "Suc (h ty) < 2 ^ 32"
  shows "device_inv (startAudioStream ty m, h(ty := Suc (h ty)))"
proof -
  let ?m = "startAudioStream ty m"
  have st: "stream_inv m (h u) u" for u using inv by (simp add: device_inv_def)
  have jw: "jobs_wf (scheduler ?m)"
    using inv jobs_wf_cong [of "scheduler ?m" "scheduler m"]
    by (auto simp: device_inv_def device_defs Let_def split: option.splits)
  have own: "stream_inv ?m (Suc (h ty)) ty"
    using st [of ty] n of_nat_32_zero [of "h ty"]
    by (auto simp: stream_inv_def device_defs Let_def split: option.splits)
  have others: "stream_inv ?m (h u) u" if "u \<noteq> ty" for u
  proof (rule stream_inv_kept [OF st [of u]])
    fix i assume "stop_pending m u i"
    then show "stop_pending ?m u i"
      using st [of ty] that queued_cong [of "scheduler ?m" "scheduler m"]
      by (auto simp: stop_pending_def stream_inv_def device_defs Let_def split: option.splits if_splits)
  qed (use that in \<open>auto simp: device_defs Let_def split: option.splits\<close>)
  from inv jw own others ty show ?thesis by (auto simp: device_inv_def)
qed

lemma schedule_inv:
  assumes "jobs_wf (scheduler m)" and "scheduleTaskIn now dt body m = (i, m')"
  shows "jobs_wf (scheduler m') \<and> keeps_jobs {} {} (scheduler m) (scheduler m') \<and> i = task_cookie (scheduler m) \<and>
    audioStreamUsers m' = audioStreamUsers m \<and> audioStreamStopTask m' = audioStreamStopTask m \<and>
    audiodriver m' = audiodriver m \<and> task_bodies m' = smap_set i body (task_bodies m) \<and>
    task_cookie (scheduler m') = Suc i \<and> smap_find (tasks (scheduler m')) i = Some True \<and>
    (now + dt, TaskJob i) \<in> queued (scheduler m')"
proof -
  obtain x ev where s: "schedule (now + dt) (scheduler m) = (i, x, ev)"
    using assms(2) by (auto simp: scheduleTaskIn_def scheduleIn_def split: prod.splits)
  then have "m' = m\<lparr>scheduler := x, task_bodies := smap_set i body (task_bodies m)\<rparr>"
    using assms(2) by (simp add: scheduleTaskIn_def scheduleIn_def)
  with jobs_kept_schedule [OF assms(1) s] show ?thesis by auto
qed

lemma stop_pending_schedule:
  assumes "jobs_wf (scheduler m)" and "scheduleTaskIn now dt body m = (j, m')" and "stop_pending m ty i"
  shows "stop_pending m' ty i"
proof -
  note k = schedule_inv [OF assms(1,2)]
  from k assms(3) have "i \<noteq> j" by (simp add: stop_pending_def)
  with k show ?thesis
    by (intro stop_pending_kept [OF assms(3), of "{}" "{}" m']) simp_all
qed

lemma alert_inv:
  assumes "device_inv (m, h)" and "scheduleTaskIn now dt body m = (j, m')"
  shows "device_inv (m', h)"
proof -
  from assms(1) have wf: "jobs_wf (scheduler m)" and st: "stream_inv m (h u) u" for u by (simp_all add: device_inv_def)
  note k = schedule_inv [OF wf assms(2)]
  with stop_pending_schedule [OF wf assms(2)] have "stream_inv m' (h u) u" for u
    by (intro stream_inv_kept [OF st]) simp_all
  with k assms(1) show ?thesis by (simp add: device_inv_def)
qed

lemma release_inv:
  assumes inv: "device_inv (m, h)" and n: "h ty = Suc n"
  shows "device_inv (AudioDeviceGuard_delete now ty m, h(ty := n))"
proof -
  let ?m = "m\<lparr>audioStreamUsers := (audioStreamUsers m)(ty := audioStreamUsers m ty - 1)\<rparr>"
  from inv have wf: "jobs_wf (scheduler m)" and st: "stream_inv m (h u) u" for u by (simp_all add: device_inv_def)
  from st [of ty] n have bound: "n < 2 ^ 32" and users: "audioStreamUsers m ty - 1 = of_nat n"
    and slot: "audioStreamStopTask m ty = None" and up: "\<forall>s. audiodriver m = Some s \<longrightarrow> s ty"
    by (auto simp: stream_inv_def)
  have pend: "stop_pending m u i \<Longrightarrow> stop_pending ?m u i" for u i by (simp add: stop_pending_def)
  have others: "stream_inv ?m (h u) u" if "u \<noteq> ty" for u
    using that by (intro stream_inv_kept [OF st] pend) simp_all
  show ?thesis
  proof (cases "n = 0")
    case False
    with users bound have "AudioDeviceGuard_delete now ty m = ?m"
      by (simp add: AudioDeviceGuard_delete_def Let_def of_nat_32_zero)
    moreover have "stream_inv ?m n ty"
      using False bound users slot up by (simp add: stream_inv_def)
    ultimately show ?thesis using inv n wf others by (auto simp: device_inv_def)
  next
    case True
    obtain i m2 where s: "scheduleTaskIn now LINGER (StopStreamTask ty) ?m = (i, m2)"
      by (cases "scheduleTaskIn now LINGER (StopStreamTask ty) ?m")
    let ?m2 = "m2\<lparr>audioStreamStopTask := (audioStreamStopTask m2)(ty := Some i)\<rparr>"
    have del: "AudioDeviceGuard_delete now ty m = ?m2"
      using True users s by (simp add: AudioDeviceGuard_delete_def Let_def)
    have wf': "jobs_wf (scheduler ?m)" using wf by simp
    note k = schedule_inv [OF wf' s]
    have p2: "stop_pending ?m u j \<Longrightarrow> stop_pending ?m2 u j" for u j
      using stop_pending_schedule [OF wf' s, of u j] by (simp add: stop_pending_def)
    have "stop_pending ?m2 ty i" using k by (auto simp: stop_pending_def)
    then have "stream_inv ?m2 n ty" using True k users up by (auto simp: stream_inv_def)
    moreover have "stream_inv ?m2 (h u) u" if "u \<noteq> ty" for u
      using that k by (intro stream_inv_kept [OF others [OF that]] p2) simp_all
    ultimately show ?thesis using inv n k by (auto simp: del device_inv_def)
  qed
qed

lemma scheduler_inv:
  assumes inv: "device_inv (m, h)" and wf: "jobs_wf x" and keep: "keeps_jobs {} c (scheduler m) x"
    and "\<forall>i \<in> c. \<forall>ty. audioStreamStopTask m ty \<noteq> Some i"
  shows "device_inv (m\<lparr>scheduler := x\<rparr>, h)"
proof -
  from inv have st: "stream_inv m (h u) u" for u by (simp add: device_inv_def)
  have "stream_inv (m\<lparr>scheduler := x\<rparr>) (h u) u" for u
  proof (rule stream_inv_kept [OF st])
    fix i assume "audioStreamStopTask m u = Some i" and p: "stop_pending m u i"
    with assms(4) keep show "stop_pending (m\<lparr>scheduler := x\<rparr>) u i"
      by (intro stop_pending_kept [OF p, of "{}" c]) auto
  qed simp_all
  with inv wf show ?thesis by (simp add: device_inv_def)
qed

lemma stop_pending_run:
  assumes "jobs_wf (scheduler m)" and "loop_run result (scheduler m) = (x, ev)" and p: "stop_pending m ty i"
    and other: "\<And>d. Executed d (TaskJob i) \<notin> set ev"
  shows "stop_pending (m\<lparr>scheduler := x\<rparr>) ty i"
proof (rule stop_pending_kept [OF p])
  note k = jobs_kept_run [OF assms(1,2)]
  then show "keeps_jobs (set (take 1 (batch (scheduler m)))) {} (scheduler m) (scheduler (m\<lparr>scheduler := x\<rparr>))" by simp
  show "(d, TaskJob i) \<notin> set (take 1 (batch (scheduler m)))" for d
  proof
    assume "(d, TaskJob i) \<in> set (take 1 (batch (scheduler m)))"
    with k p have "ev = [Executed d (TaskJob i)]" unfolding stop_pending_def by blast
    with other [of d] show False by simp
  qed
qed simp_all

lemma stop_task_inv:
  assumes wf: "jobs_wf (scheduler m)" and all: "h ALL_DEVICES = 0" and st: "stream_inv m0 (h ty) ty"
    and others: "\<And>u. u \<noteq> ty \<Longrightarrow> stream_inv m (h u) u"
    and same: "audioStreamUsers m = audioStreamUsers m0" "audioStreamStopTask m = audioStreamStopTask m0" "audiodriver m = audiodriver m0"
  shows "device_inv (stop_stream_task ty m, h)"
proof -
  let ?m = "stop_stream_task ty m"
  have own: "stream_inv ?m (h ty) ty"
    using st same stream_inv_users [OF st]
    by (auto simp: stream_inv_def stop_stream_task_def driver_stopStream_def Let_def split: option.splits)
  have rest: "stream_inv ?m (h u) u" if "u \<noteq> ty" for u
    using that by (intro stream_inv_kept [OF others])
      (auto simp: stop_stream_task_def driver_stopStream_def stop_pending_def Let_def split: option.splits)
  from own rest have "stream_inv ?m (h u) u" for u by (cases "u = ty") simp_all
  moreover have "scheduler ?m = scheduler m"
    by (simp add: stop_stream_task_def driver_stopStream_def Let_def split: option.splits)
  ultimately show ?thesis using wf all by (simp add: device_inv_def)
qed

lemma timer_run_inv:
  assumes inv: "device_inv (m, h)" shows "device_inv (timer_run result m, h)"
proof -
  from inv have wf: "jobs_wf (scheduler m)" and all: "h ALL_DEVICES = 0" and st: "stream_inv m (h u) u" for u
    by (simp_all add: device_inv_def)
  obtain x ev where r: "loop_run result (scheduler m) = (x, ev)" by (cases "loop_run result (scheduler m)")
  let ?m = "m\<lparr>scheduler := x\<rparr>"
  from jobs_kept_run [OF wf r] have wf': "jobs_wf (scheduler ?m)"
    and single: "\<And>d i. Executed d (TaskJob i) \<in> set ev \<Longrightarrow> ev = [Executed d (TaskJob i)]"
    by (simp, metis)
  have pend: "stop_pending ?m u i"
    if "audioStreamStopTask m u = Some i" "stop_pending m u i"
      and "\<And>d ty. Executed d (TaskJob i) \<in> set ev \<Longrightarrow> smap_find (task_bodies m) i = Some (StopStreamTask ty) \<Longrightarrow> ty \<noteq> u" for u i
    using that by (intro stop_pending_run [OF wf r]) (auto simp: stop_pending_def)
  show ?thesis
  proof (cases "\<exists>d i ty. Executed d (TaskJob i) \<in> set ev \<and> smap_find (task_bodies m) i = Some (StopStreamTask ty)")
    case True
    then obtain d i ty where e: "Executed d (TaskJob i) \<in> set ev" and b: "smap_find (task_bodies m) i = Some (StopStreamTask ty)"
      by blast
    have ev: "ev = [Executed d (TaskJob i)]" by (rule single [OF e])
    with r b have "timer_run result m = stop_stream_task ty ?m" by (simp add: timer_run_def)
    moreover have "stream_inv ?m (h u) u" if "u \<noteq> ty" for u
      using that ev b by (intro stream_inv_kept [OF st] pend) auto
    ultimately show ?thesis by (simp only:, intro stop_task_inv [OF wf' all st [of ty]]) simp_all
  next
    case False
    have "foldl (\<lambda>m e. run_task e m) n es = n"
      if "task_bodies n = task_bodies m" "set es \<subseteq> set ev" for n es
      using that False
    proof (induction es)
      case (Cons e es)
      then have "run_task e n = n"
        by (cases "(e, n)" rule: run_task.cases) (auto split: option.splits task_body.splits)
      with Cons show ?case by simp
    qed simp
    from this [of ?m ev] r have "timer_run result m = ?m" by (simp add: timer_run_def)
    moreover have "stream_inv ?m (h u) u" for u
      using False by (intro stream_inv_kept [OF st] pend) auto
    ultimately show ?thesis using wf' all by (simp add: device_inv_def)
  qed
qed

lemma driver_startStream_simps [simp]:
  "audioStreamUsers (driver_startStream ty m) = audioStreamUsers m"
  "audioStreamStopTask (driver_startStream ty m) = audioStreamStopTask m"
  "scheduler (driver_startStream ty m) = scheduler m" "task_bodies (driver_startStream ty m) = task_bodies m"
  "audiodriver (driver_startStream ty m) = map_option (\<lambda>streams. streams(ty := True)) (audiodriver m)"
  by (simp_all add: driver_startStream_def split: option.splits)

lemma initAudioDriver_simps [simp]:
  "audioStreamUsers (initAudioDriver created m) = audioStreamUsers m"
  "audioStreamStopTask (initAudioDriver created m) = audioStreamStopTask m"
  "scheduler (initAudioDriver created m) = scheduler m" "task_bodies (initAudioDriver created m) = task_bodies m"
  by (simp_all add: initAudioDriver_def Let_def)

lemma initAudioDriver_streams:
  assumes "audiodriver (initAudioDriver created m) = Some streams"
  shows "streams ty \<longleftrightarrow> ty \<noteq> ALL_DEVICES \<and> audioStreamUsers m ty \<noteq> 0"
  using assms by (cases ty; cases created) (auto simp: initAudioDriver_def Let_def split: if_splits)

lemma swap_inv:
  assumes inv: "device_inv (m, h)" and quiet: "\<forall>ty. audioStreamStopTask m ty = None"
  shows "device_inv (initAudioDriver created m, h)"
proof -
  from inv have all: "h ALL_DEVICES = 0" and st: "stream_inv m (h u) u" for u by (simp_all add: device_inv_def)
  have "stream_inv (initAudioDriver created m) (h u) u" for u
    using st [of u] quiet stream_inv_users [OF st, of u] all
    by (cases "u = ALL_DEVICES") (auto simp: stream_inv_def initAudioDriver_streams)
  with inv show ?thesis by (simp add: device_inv_def)
qed

lemma device_inv_step: "device_step s t \<Longrightarrow> device_inv s \<Longrightarrow> device_inv t"
proof (induction rule: device_step.induct)
  case (acquire ty m m' h)
  then show ?case by (auto simp: AudioDeviceGuard_new_def split: if_splits intro: acquire_inv)
next
  case (take m h now)
  then have "jobs_wf (scheduler m)" by (simp add: device_inv_def)
  from jobs_kept_take [OF this] show ?case by (intro scheduler_inv [OF take, of _ "{}"]) auto
next
  case (alert m h now dt a c)
  then show ?case by (cases "scheduleTaskIn now dt (AlertInfoTimeout a c) m") (auto intro: alert_inv)
next
  case (foreign m op h)
  then have "jobs_wf (scheduler m)" by (simp add: device_inv_def)
  then obtain c where "jobs_wf (fst (exec_op_run op (scheduler m)))" "keeps_jobs {} c (scheduler m) (fst (exec_op_run op (scheduler m)))"
    "\<forall>i \<in> c. \<forall>ty. audioStreamStopTask m ty \<noteq> Some i"
    using jobs_kept_foreign [OF _ foreign.hyps] by (metis prod.collapse)
  then show ?case by (intro scheduler_inv [OF foreign.prems]) auto
next
  case (flush m h)
  then show ?case by (auto simp: device_inv_def driver_flushUrgent_def stream_inv_def stop_pending_def)
qed (auto intro: release_inv timer_run_inv swap_inv)

text \<open>Tasks with a purpose of their own keep it.\<close>

definition alert_task :: "audio_devices \<Rightarrow> nat \<Rightarrow> bool" where
  "alert_task m i \<longleftrightarrow> i < task_cookie (scheduler m) \<and> (\<exists>a c. smap_find (task_bodies m) i = Some (AlertInfoTimeout a c))"

lemma alert_task_scheduleTaskIn: "alert_task m i \<Longrightarrow> alert_task (snd (scheduleTaskIn now dt body m)) i"
  by (auto simp: alert_task_def device_defs Let_def)

lemma alert_task_step:
  assumes "device_step s t" and "device_inv s" and "alert_task (fst s) i"
  shows "alert_task (fst t) i"
  using assms
proof (induction rule: device_step.induct)
  case (acquire ty m m' h)
  then show ?case
    by (auto simp: AudioDeviceGuard_new_def alert_task_def device_defs Let_def split: if_splits option.splits)
next
  case (release h ty n m now)
  then show ?case
    by (auto simp: AudioDeviceGuard_delete_def alert_task_def device_defs Let_def split: if_splits)
next
  case (take m h now)
  then have "jobs_wf (scheduler m)" by (simp add: device_inv_def)
  from jobs_kept_take [OF this, of now] take show ?case by (auto simp: alert_task_def keeps_jobs_def)
next
  case (run m h result)
  then have wf: "jobs_wf (scheduler m)" by (simp add: device_inv_def)
  obtain x ev where r: "loop_run result (scheduler m) = (x, ev)" by (cases "loop_run result (scheduler m)")
  have "task_cookie (scheduler m) \<le> task_cookie x" using jobs_kept_run [OF wf r] unfolding keeps_jobs_def by blast
  then have "alert_task (m\<lparr>scheduler := x\<rparr>) i" using run.prems(2) by (auto simp: alert_task_def)
  moreover have "alert_task n i \<Longrightarrow> alert_task (foldl (\<lambda>m e. run_task e m) n es) i" for n es
  proof (induction es arbitrary: n)
    case (Cons e es)
    have "alert_task (run_task e n) i"
      using Cons.prems
      by (cases "(e, n)" rule: run_task.cases)
        (auto simp: stop_stream_task_def driver_stopStream_def alert_task_def Let_def split: option.splits task_body.splits)
    with Cons.IH show ?case by simp
  qed simp
  ultimately show ?case using r by (simp add: timer_run_def)
next
  case (foreign m op h)
  then have "jobs_wf (scheduler m)" by (simp add: device_inv_def)
  with jobs_kept_foreign [OF _ foreign.hyps] have "task_cookie (scheduler m) \<le> task_cookie (fst (exec_op_run op (scheduler m)))"
    unfolding keeps_jobs_def by (metis prod.collapse)
  with foreign.prems(2) show ?case by (auto simp: alert_task_def)
qed (auto simp: alert_task_def alert_task_scheduleTaskIn [unfolded alert_task_def] driver_flushUrgent_def)

lemma stop_task_is_no_alert: "device_inv (m, h) \<Longrightarrow> alert_task m i \<Longrightarrow> audioStreamStopTask m ty \<noteq> Some i"
  by (auto simp: device_inv_def stream_inv_def stop_pending_def alert_task_def)

abbreviation device_start :: device_world where
  "device_start \<equiv> (audio_devices_new, \<lambda>_. 0)"

interpretation dev: relational_machine "\<lambda>s. s = device_start" device_step device_inv
  by unfold_locales (auto simp: device_inv_new intro: device_inv_step)

lemma device_reachableD:
  assumes "device_step\<^sup>*\<^sup>* device_start (m, h)"
  shows "jobs_wf (scheduler m)" and "stream_inv m (h ty) ty"
  using dev.reachable_inv [OF refl assms] by (simp_all add: device_inv_def)

section \<open>A first call\<close>

text \<open>A driver is created, a guard for the microphone is taken and given back at time 0.\<close>

definition demo_held :: audio_devices where
  "demo_held = startAudioStream CAPTURE (initAudioDriver True audio_devices_new)"

definition demo_lingering :: audio_devices where
  "demo_lingering = AudioDeviceGuard_delete 0 CAPTURE demo_held"

lemma demo_held_reachable: "device_step\<^sup>*\<^sup>* device_start (demo_held, (\<lambda>_. 0)(CAPTURE := 1))"
proof -
  have "device_step device_start (initAudioDriver True audio_devices_new, \<lambda>_. 0)"
    by (rule device_step.swap) (simp add: audio_devices_new_def)
  moreover have "device_step (initAudioDriver True audio_devices_new, \<lambda>_. 0) (demo_held, (\<lambda>_. 0)(CAPTURE := Suc 0))"
    by (rule device_step.acquire) (simp_all add: AudioDeviceGuard_new_def demo_held_def)
  ultimately show ?thesis by simp
qed

lemma demo_lingering_reachable: "device_step\<^sup>*\<^sup>* device_start (demo_lingering, (\<lambda>_. 0)(CAPTURE := 0))"
proof -
  have "device_step (demo_held, (\<lambda>_. 0)(CAPTURE := 1)) (demo_lingering, ((\<lambda>_. 0)(CAPTURE := 1))(CAPTURE := 0))"
    unfolding demo_lingering_def by (rule device_step.release) simp
  with demo_held_reachable show ?thesis by (simp add: rtranclp.rtrancl_into_rtrancl)
qed

lemma demo_held_streams: "audiodriver demo_held = Some ((\<lambda>_. False)(CAPTURE := True))"
  and demo_held_users: "audioStreamUsers demo_held = (\<lambda>_. 0)(CAPTURE := 1)"
  and demo_held_stop: "audioStreamStopTask demo_held = (\<lambda>_. None)"
  by (simp_all add: demo_held_def startAudioStream_def initAudioDriver_def audio_devices_new_def driver_startStream_def Let_def)

lemma demo_lingering_streams: "audiodriver demo_lingering = Some ((\<lambda>_. False)(CAPTURE := True))"
  and demo_lingering_stop: "audioStreamStopTask demo_lingering = (\<lambda>_. None)(CAPTURE := Some 0)"
  by (simp_all add: demo_lingering_def AudioDeviceGuard_delete_def demo_held_def startAudioStream_def initAudioDriver_def audio_devices_new_def
      device_defs ScheduledExecutor_new_def Let_def fun_eq_iff)

section \<open>Properties\<close>



text \<open>
  A guard taken while the stop of the stream is pending keeps the stream: the driver hears
  nothing, and the task that would stop it is called off and never runs.
\<close>

theorem reacquired_stream_is_kept:
  assumes "device_step\<^sup>*\<^sup>* device_start (m, h)" and "h ty = 1" and "AudioDeviceGuard_delete now ty m = m1"
    and "AudioDeviceGuard_new ty m1 = Inr m2"
  shows "audiodriver m2 = audiodriver m \<and> device_log m2 = device_log m \<and>
    (\<exists>i. audioStreamStopTask m1 ty = Some i \<and> audioStreamStopTask m2 ty = None \<and> cancelled_task i (scheduler m2))"
proof -
  from device_reachableD(2) [OF assms(1), of ty] assms(2) have "audioStreamUsers m ty = 1" by (simp add: stream_inv_def)
  with assms(3,4) show ?thesis
    by (auto simp: AudioDeviceGuard_delete_def AudioDeviceGuard_new_def device_defs cancelled_task_def Let_def split: if_splits)
qed

theorem reacquired_stream_is_kept_witness:
  "audiodriver (startAudioStream CAPTURE demo_lingering) = Some ((\<lambda>_. False)(CAPTURE := True)) \<and>
     audioStreamStopTask demo_lingering CAPTURE = Some 0"
  using reacquired_stream_is_kept [OF demo_held_reachable, of CAPTURE 0 demo_lingering "startAudioStream CAPTURE demo_lingering"]
  by (simp add: demo_lingering_def AudioDeviceGuard_new_def demo_held_streams demo_lingering_stop [unfolded demo_lingering_def])

text \<open>
  Replacing the driver while the stop of a stream is pending loses the stream. The new driver is
  not told to run it, because nobody holds a guard, and the next guard calls the stop off and
  takes the stream for running. It stays silent for as long as guards are held.
\<close>

theorem driver_swap_loses_lingering_stream:
  assumes "device_step\<^sup>*\<^sup>* device_start (m, h)" and "audioStreamStopTask m ty = Some i" and "n < 2 ^ 32 - 1"
  shows "\<exists>streams. audiodriver ((startAudioStream ty ^^ Suc n) (initAudioDriver True m)) = Some streams \<and> \<not> streams ty"
proof -
  let ?m = "initAudioDriver True m"
  from device_reachableD(2) [OF assms(1), of ty] assms(2) have users: "audioStreamUsers m ty = 0" by (simp add: stream_inv_def)
  obtain streams where s: "audiodriver ?m = Some streams" "\<not> streams ty"
    using initAudioDriver_streams [of True m _ ty] users
    by (cases "audiodriver ?m") (auto simp: initAudioDriver_def Let_def split: if_splits)
  have "audiodriver ((startAudioStream ty ^^ Suc n) ?m) = audiodriver ?m \<and>
      audioStreamUsers ((startAudioStream ty ^^ Suc n) ?m) ty = of_nat (Suc n)"
    using assms(3)
  proof (induction n)
    case 0
    show ?case using assms(2) users by (simp add: startAudioStream_def cancel_task_def Let_def)
  next
    case (Suc n)
    then have "(of_nat (Suc n) :: 32 word) \<noteq> 0" using of_nat_32_zero [of "Suc n"] by simp
    with Suc show ?case by (simp add: startAudioStream_def Let_def)
  qed
  with s show ?thesis by simp
qed

theorem driver_swap_loses_lingering_stream_witness:
  "\<exists>streams. audiodriver ((startAudioStream CAPTURE ^^ Suc 1) (initAudioDriver True demo_lingering)) = Some streams \<and> \<not> streams CAPTURE"
  using driver_swap_loses_lingering_stream [OF demo_lingering_reachable, of CAPTURE 0 1] by (simp add: demo_lingering_stop)

end
