(* ===== verification/Ringing.thy ===== *)
theory Ringing
  imports Audio_Devices
begin

text \<open>
  Tones and ringtones: \<^verbatim>\<open>src/media/audio/tonecontrol.cpp\<close>, the tone that \<^verbatim>\<open>TelephoneTone\<close> plays, and the part of
  \<^verbatim>\<open>src/manager.cpp\<close> that decides what rings. There is one tone at a time for the whole program, with one
  guard of the sound device behind it. An incoming call with an \<^verbatim>\<open>Alert-Info\<close> header waits a while
  for the client to name a ringtone; a task of the timer thread falls back to the default one.
  Opening a sound file is the media library's business, a parameter of the model.
\<close>

section \<open>State\<close>

datatype tone_id = TONE_DIALTONE | TONE_BUSY | TONE_RINGTONE | TONE_CONGESTION | TONE_NULL

record tone_control =
  sampleRate :: nat
  telephoneTone :: "tone_id option" \<comment> \<open>its current tone\<close>
  audioFile :: "string option" \<comment> \<open>its path\<close>

record pending_alert =
  pa_accountId :: string
  pa_fallbackTask :: nat
  pa_delivered :: bool

datatype ring_event = RecordPlaybackStopped string

record ringing =
  devices :: audio_devices
  toneCtrl :: tone_control
  toneDeviceGuard :: "audio_device_type option"
  pendingAlertInfoCalls :: "(string, pending_alert) smap"
  ring_log :: "ring_event list"

record ring_account =
  ra_autoAnswerEnabled :: bool
  ra_ringtoneEnabled :: bool
  ra_ringtonePath :: string
  ra_pauseAfterAlertInfo :: int

text \<open>The preferences, the accounts, the sound files that can be opened, the driver's rate and the clock.\<close>

record ring_env =
  re_playTones :: bool
  re_account :: "string \<Rightarrow> ring_account option"
  re_opens :: "string \<Rightarrow> bool"
  re_sampleRate :: nat
  re_now :: int

definition DEFAULT_SAMPLE_RATE :: nat where "DEFAULT_SAMPLE_RATE = 8000"

definition ToneControl_new :: tone_control where
  "ToneControl_new = \<lparr>sampleRate = DEFAULT_SAMPLE_RATE, telephoneTone = None, audioFile = None\<rparr>"

definition ringing_new :: "audio_devices \<Rightarrow> ringing" where
  "ringing_new d =
     \<lparr>devices = d, toneCtrl = ToneControl_new, toneDeviceGuard = None, pendingAlertInfoCalls = [], ring_log = []\<rparr>"

section \<open>Tone control\<close>

text \<open>A file that cannot be opened again at the new rate is kept as it is.\<close>

definition tc_setSampleRate :: "nat \<Rightarrow> tone_control \<Rightarrow> tone_control" where
  "tc_setSampleRate rate tc =
     tc\<lparr>sampleRate := rate,
        telephoneTone := (case telephoneTone tc of None \<Rightarrow> Some TONE_NULL | Some t \<Rightarrow> Some t)\<rparr>"

definition getTelephoneTone :: "tone_control \<Rightarrow> tone_id option" where
  "getTelephoneTone tc = (case telephoneTone tc of Some t \<Rightarrow> if t = TONE_NULL then None else Some t | None \<Rightarrow> None)"

definition getTelephoneFile :: "tone_control \<Rightarrow> string option" where
  "getTelephoneFile tc = audioFile tc"

definition upd_tone :: "(tone_control \<Rightarrow> tone_control) \<Rightarrow> ringing \<Rightarrow> ringing" where
  "upd_tone f r = r\<lparr>toneCtrl := f (toneCtrl r)\<rparr>"

definition stopAudioFile :: "ringing \<Rightarrow> ringing" where
  "stopAudioFile r =
     (case audioFile (toneCtrl r) of
        Some path \<Rightarrow> upd_tone (\<lambda>tc. tc\<lparr>audioFile := None\<rparr>) (r\<lparr>ring_log := ring_log r @ [RecordPlaybackStopped path]\<rparr>)
      | None \<Rightarrow> r)"

definition setAudioFile :: "ring_env \<Rightarrow> string \<Rightarrow> ringing \<Rightarrow> bool \<times> ringing" where
  "setAudioFile E file r =
     (let r1 = stopAudioFile r
      in if re_opens E file then (True, upd_tone (\<lambda>tc. tc\<lparr>audioFile := Some file\<rparr>) r1) else (False, r1))"

definition tc_play :: "tone_id \<Rightarrow> tone_control \<Rightarrow> tone_control" where
  "tc_play t tc = tc\<lparr>telephoneTone := map_option (\<lambda>_. t) (telephoneTone tc)\<rparr>"

definition tc_stop :: "ringing \<Rightarrow> ringing" where
  "tc_stop r = stopAudioFile (upd_tone (tc_play TONE_NULL) r)"

section \<open>What the manager plays\<close>

definition upd_devices :: "(audio_devices \<Rightarrow> audio_devices) \<Rightarrow> ringing \<Rightarrow> ringing" where
  "upd_devices f r = r\<lparr>devices := f (devices r)\<rparr>"

definition drop_guard :: "int \<Rightarrow> audio_device_type option \<Rightarrow> audio_devices \<Rightarrow> audio_devices" where
  "drop_guard now g d = (case g of Some ty \<Rightarrow> AudioDeviceGuard_delete now ty d | None \<Rightarrow> d)"

text \<open>The new guard is taken before the old one goes at the end of the block.\<close>

definition take_tone_guard :: "ring_env \<Rightarrow> audio_device_type \<Rightarrow> (ringing \<Rightarrow> ringing) \<Rightarrow> ringing \<Rightarrow> ringing" where
  "take_tone_guard E ty block r =
     (let oldGuard = toneDeviceGuard r;
          r1 = (upd_devices (startAudioStream ty) r)\<lparr>toneDeviceGuard := Some ty\<rparr>
      in upd_devices (drop_guard (re_now E) oldGuard) (block r1))"

definition reset_tone_guard :: "ring_env \<Rightarrow> ringing \<Rightarrow> ringing" where
  "reset_tone_guard E r = (upd_devices (drop_guard (re_now E) (toneDeviceGuard r)) r)\<lparr>toneDeviceGuard := None\<rparr>"

definition playATone :: "ring_env \<Rightarrow> tone_id \<Rightarrow> ringing \<Rightarrow> ringing" where
  "playATone E toneId r =
     (if \<not> re_playTones E \<or> audiodriver (devices r) = None then r
      else take_tone_guard E PLAYBACK (\<lambda>r. upd_tone (tc_play toneId) (upd_devices driver_flushUrgent r)) r)"

definition stopTone :: "ring_env \<Rightarrow> ringing \<Rightarrow> ringing" where
  "stopTone E r = (if \<not> re_playTones E then r else reset_tone_guard E (tc_stop r))"

definition playTone :: "ring_env \<Rightarrow> ringing \<Rightarrow> ringing" where
  "playTone E = playATone E TONE_DIALTONE"

definition playToneWithMessage :: "ring_env \<Rightarrow> ringing \<Rightarrow> ringing" where
  "playToneWithMessage E = playATone E TONE_CONGESTION"

definition congestion :: "ring_env \<Rightarrow> ringing \<Rightarrow> ringing" where
  "congestion E = playATone E TONE_CONGESTION"

definition ringback :: "ring_env \<Rightarrow> ringing \<Rightarrow> ringing" where
  "ringback E = playATone E TONE_RINGTONE"

definition start_ringtone :: "ring_env \<Rightarrow> ringing \<Rightarrow> ringing" where
  "start_ringtone E = take_tone_guard E RINGTONE (upd_tone (tc_setSampleRate (re_sampleRate E)))"

definition playRingtone :: "ring_env \<Rightarrow> string \<Rightarrow> ringing \<Rightarrow> ringing" where
  "playRingtone E accountID r =
     (case re_account E accountID of
        None \<Rightarrow> r
      | Some account \<Rightarrow>
          if ra_autoAnswerEnabled account then r
          else if \<not> ra_ringtoneEnabled account then ringback E r
          else if audiodriver (devices r) = None then r
          else let (ok, r1) = setAudioFile E (ra_ringtonePath account) (start_ringtone E r)
               in if ok then r1 else ringback E r1)"

definition stopRecordedFilePlayback :: "ring_env \<Rightarrow> ringing \<Rightarrow> ringing" where
  "stopRecordedFilePlayback E r = reset_tone_guard E (stopAudioFile r)"

section \<open>Calls that bring their own ringtone\<close>

definition ascii_tolower :: "char \<Rightarrow> char" where
  "ascii_tolower c = (if of_char c \<in> {65 .. 90 :: nat} then char_of (of_char c + 32 :: nat) else c)"

text \<open>In the order of the map, as \<^verbatim>\<open>std::map\<close> visits it.\<close>

definition findHeaderCaseInsensitive :: "(string, string) smap \<Rightarrow> string \<Rightarrow> string" where
  "findHeaderCaseInsensitive headers name =
     (case find (\<lambda>(k, _). map ascii_tolower k = map ascii_tolower name) headers of Some (_, v) \<Rightarrow> v | None \<Rightarrow> [])"

definition ALERT_INFO :: string where "ALERT_INFO = ''Alert-Info''"

text \<open>The part of \<^verbatim>\<open>processIncomingCall\<close> that registers the call. An entry that is still there is erased
  without calling its task off.\<close>

definition await_ringtone :: "ring_env \<Rightarrow> ring_account \<Rightarrow> string \<Rightarrow> string \<Rightarrow> ringing \<Rightarrow> ringing" where
  "await_ringtone E account accountId callId r =
     (let (i, d) = scheduleTaskIn (re_now E) (max 0 (ra_pauseAfterAlertInfo account) * 1000) (AlertInfoTimeout accountId callId) (devices r)
      in r\<lparr>devices := d,
           pendingAlertInfoCalls :=
             smap_set callId \<lparr>pa_accountId = accountId, pa_fallbackTask = i, pa_delivered = False\<rparr>
               (smap_erase callId (pendingAlertInfoCalls r))\<rparr>)"

definition onAlertInfoTimeout :: "ring_env \<Rightarrow> string \<Rightarrow> string \<Rightarrow> ringing \<Rightarrow> ringing" where
  "onAlertInfoTimeout E accountId callId r =
     (case smap_find (pendingAlertInfoCalls r) callId of
        None \<Rightarrow> r
      | Some p \<Rightarrow>
          let r1 = r\<lparr>pendingAlertInfoCalls := smap_erase callId (pendingAlertInfoCalls r)\<rparr>
          in if \<not> pa_delivered p then playRingtone E accountId r1 else r1)"

definition forget_pending :: "string \<Rightarrow> pending_alert \<Rightarrow> ringing \<Rightarrow> ringing" where
  "forget_pending callId p r =
     upd_devices (cancel_task (pa_fallbackTask p)) (r\<lparr>pendingAlertInfoCalls := smap_erase callId (pendingAlertInfoCalls r)\<rparr>)"

definition clearPendingAlertInfoCall :: "string \<Rightarrow> ringing \<Rightarrow> ringing" where
  "clearPendingAlertInfoCall callId r =
     (case smap_find (pendingAlertInfoCalls r) callId of None \<Rightarrow> r | Some p \<Rightarrow> forget_pending callId p r)"

definition setRingtoneForIncomingCall :: "ring_env \<Rightarrow> string \<Rightarrow> string \<Rightarrow> string \<Rightarrow> ringing \<Rightarrow> bool \<times> ringing" where
  "setRingtoneForIncomingCall E accountId callId ringtonePath r =
     (case smap_find (pendingAlertInfoCalls r) callId of
        None \<Rightarrow> (False, r)
      | Some p \<Rightarrow>
          if pa_delivered p then (False, r)
          else
            let r1 = forget_pending callId p r in
            case re_account E accountId of
              None \<Rightarrow> (False, r1)
            | Some account \<Rightarrow>
                if ra_autoAnswerEnabled account then (True, r1)
                else if \<not> ra_ringtoneEnabled account then (True, ringback E r1)
                else if audiodriver (devices r1) = None then (False, r1)
                else let (ok, r2) = setAudioFile E ringtonePath (start_ringtone E r1)
                     in if ok then (True, r2) else (False, playRingtone E accountId r2))"

text \<open>One job of the timer thread, with what it does to the sound device and to the calls that wait.\<close>

definition alert_of :: "audio_devices \<Rightarrow> exec_event \<Rightarrow> (string \<times> string) option" where
  "alert_of d e =
     (case e of
        Executed _ (TaskJob i) \<Rightarrow>
          (case smap_find (task_bodies d) i of Some (AlertInfoTimeout a c) \<Rightarrow> Some (a, c) | _ \<Rightarrow> None)
      | _ \<Rightarrow> None)"

definition ring_timer_run :: "ring_env \<Rightarrow> bool option \<Rightarrow> ringing \<Rightarrow> ringing" where
  "ring_timer_run E result r =
     (let ev = snd (loop_run result (scheduler (devices r)))
      in foldl (\<lambda>r (a, c). onAlertInfoTimeout E a c r) (upd_devices (timer_run result) r)
           (List.map_filter (alert_of (devices r)) ev))"

section \<open>Runs\<close>

datatype ring_op =
    PlayATone tone_id
  | StopTone
  | PlayRingtone string
  | StopRecordedFilePlayback
  | AwaitRingtone ring_account string string
  | SetRingtone string string string
  | ClearPending string
  | RingTimer "bool option"

fun ring_exec :: "ring_env \<Rightarrow> ring_op \<Rightarrow> ringing \<Rightarrow> ringing" where
  "ring_exec E (PlayATone t) r = playATone E t r"
| "ring_exec E StopTone r = stopTone E r"
| "ring_exec E (PlayRingtone a) r = playRingtone E a r"
| "ring_exec E StopRecordedFilePlayback r = stopRecordedFilePlayback E r"
| "ring_exec E (AwaitRingtone account a c) r = await_ringtone E account a c r"
| "ring_exec E (SetRingtone a c path) r = snd (setRingtoneForIncomingCall E a c path r)"
| "ring_exec E (ClearPending c) r = clearPendingAlertInfoCall c r"
| "ring_exec E (RingTimer result) r = ring_timer_run E result r"

definition ring_step :: "ringing \<Rightarrow> ring_env \<times> ring_op \<Rightarrow> ringing" where
  "ring_step r eo = ring_exec (fst eo) (snd eo) r"

section \<open>Calls that wait for a ringtone\<close>

lemma pending_simps [simp]:
  "pendingAlertInfoCalls (upd_tone f r) = pendingAlertInfoCalls r"
  "pendingAlertInfoCalls (upd_devices g r) = pendingAlertInfoCalls r"
  "pendingAlertInfoCalls (stopAudioFile r) = pendingAlertInfoCalls r"
  "pendingAlertInfoCalls (tc_stop r) = pendingAlertInfoCalls r"
  "pendingAlertInfoCalls (snd (setAudioFile E file r)) = pendingAlertInfoCalls r"
  "pendingAlertInfoCalls (reset_tone_guard E r) = pendingAlertInfoCalls r"
  by (auto simp: upd_tone_def upd_devices_def stopAudioFile_def tc_stop_def setAudioFile_def reset_tone_guard_def Let_def
      split: option.splits)

lemma pending_tones [simp]:
  "pendingAlertInfoCalls (start_ringtone E r) = pendingAlertInfoCalls r"
  "pendingAlertInfoCalls (playATone E t r) = pendingAlertInfoCalls r"
  "pendingAlertInfoCalls (ringback E r) = pendingAlertInfoCalls r"
  "pendingAlertInfoCalls (stopTone E r) = pendingAlertInfoCalls r"
  "pendingAlertInfoCalls (stopRecordedFilePlayback E r) = pendingAlertInfoCalls r"
  by (simp_all add: start_ringtone_def playATone_def ringback_def stopTone_def stopRecordedFilePlayback_def take_tone_guard_def Let_def)

lemma pending_playRingtone [simp]: "pendingAlertInfoCalls (playRingtone E a r) = pendingAlertInfoCalls r"
proof -
  have "pendingAlertInfoCalls r2 = pendingAlertInfoCalls r" if "setAudioFile E path (start_ringtone E r) = (ok, r2)" for path ok r2
    using pending_simps(5) [of E path "start_ringtone E r"] that by simp
  then show ?thesis by (auto simp: playRingtone_def split: option.splits prod.splits)
qed

lemma pending_timeout [simp]:
  "smap_find (pendingAlertInfoCalls (onAlertInfoTimeout E a c r)) = (smap_find (pendingAlertInfoCalls r))(c := None)"
  by (auto simp: onAlertInfoTimeout_def Let_def fun_upd_idem split: option.splits)

lemma pending_clear [simp]:
  "smap_find (pendingAlertInfoCalls (clearPendingAlertInfoCall c r)) = (smap_find (pendingAlertInfoCalls r))(c := None)"
  by (auto simp: clearPendingAlertInfoCall_def forget_pending_def fun_upd_idem split: option.splits)

lemma pending_set_ringtone:
  "smap_find (pendingAlertInfoCalls (snd (setRingtoneForIncomingCall E a c path r))) =
     (if \<exists>p. smap_find (pendingAlertInfoCalls r) c = Some p \<and> pa_delivered p
      then smap_find (pendingAlertInfoCalls r) else (smap_find (pendingAlertInfoCalls r))(c := None))"
proof -
  have "pendingAlertInfoCalls r2 = pendingAlertInfoCalls r1" if "setAudioFile E path (start_ringtone E r1) = (ok, r2)" for ok r1 r2
    using pending_simps(5) [of E path "start_ringtone E r1"] that by simp
  then show ?thesis
    by (auto simp: setRingtoneForIncomingCall_def forget_pending_def Let_def fun_upd_idem split: option.splits prod.splits)
qed

text \<open>Whether a call no longer waits for a ringtone.\<close>

definition ringtone_settled :: "string \<Rightarrow> ringing \<Rightarrow> bool" where
  "ringtone_settled c r \<longleftrightarrow> smap_find (pendingAlertInfoCalls r) c = None"

fun awaits :: "string \<Rightarrow> ring_op \<Rightarrow> bool" where
  "awaits c (AwaitRingtone _ _ c') \<longleftrightarrow> c' = c"
| "awaits c _ \<longleftrightarrow> False"

lemma settled_timeouts: "ringtone_settled c r \<Longrightarrow> ringtone_settled c (foldl (\<lambda>r (a, c). onAlertInfoTimeout E a c r) r xs)"
  by (induction xs arbitrary: r) (auto simp: ringtone_settled_def)

lemma ringtone_settled_step:
  assumes "ringtone_settled c r" and "\<not> awaits c (snd eo)"
  shows "ringtone_settled c (ring_step r eo)"
  using assms
  by (cases "snd eo")
    (auto simp: ring_step_def ringtone_settled_def pending_set_ringtone await_ringtone_def ring_timer_run_def Let_def
      split: prod.splits intro!: settled_timeouts [unfolded ringtone_settled_def])

lemma ringtone_settled_run:
  "ringtone_settled c r \<Longrightarrow> list_all (\<lambda>eo. \<not> awaits c (snd eo)) ops \<Longrightarrow> ringtone_settled c (foldl ring_step r ops)"
  by (induction ops arbitrary: r) (auto simp: ringtone_settled_step)

lemma settled_is_final:
  assumes "ringtone_settled c r"
  shows "onAlertInfoTimeout E a c r = r" and "setRingtoneForIncomingCall E a c path r = (False, r)" and "clearPendingAlertInfoCall c r = r"
  using assms by (simp_all add: ringtone_settled_def onAlertInfoTimeout_def setRingtoneForIncomingCall_def clearPendingAlertInfoCall_def)

text \<open>An entry disappears in the critical section that marks it.\<close>

definition none_delivered :: "ringing \<Rightarrow> bool" where
  "none_delivered r \<longleftrightarrow> (\<forall>c p. smap_find (pendingAlertInfoCalls r) c = Some p \<longrightarrow> \<not> pa_delivered p)"

lemma none_delivered_timeout: "none_delivered r \<Longrightarrow> none_delivered (onAlertInfoTimeout E a c r)"
  by (simp add: none_delivered_def)

lemma none_delivered_timer: "none_delivered r \<Longrightarrow> none_delivered (ring_timer_run E result r)"
proof -
  have fold: "none_delivered r \<Longrightarrow> none_delivered (foldl (\<lambda>r (a, c). onAlertInfoTimeout E a c r) r xs)" for r xs
    by (induction xs arbitrary: r) (auto intro: none_delivered_timeout)
  assume "none_delivered r"
  then have "none_delivered (upd_devices (timer_run result) r)" by (simp add: none_delivered_def)
  then show ?thesis unfolding ring_timer_run_def Let_def by (rule fold)
qed

lemma none_delivered_step: "none_delivered r \<Longrightarrow> none_delivered (ring_step r eo)"
proof (cases "snd eo")
  case (RingTimer result)
  assume "none_delivered r"
  with RingTimer show ?thesis by (simp add: ring_step_def none_delivered_timer)
qed (auto simp: ring_step_def none_delivered_def pending_set_ringtone await_ringtone_def Let_def split: prod.splits if_splits)

interpretation ring: invariant_machine ring_step none_delivered
  by unfold_locales (rule none_delivered_step)

lemma none_delivered_new: "none_delivered (ringing_new d)"
  by (simp add: none_delivered_def ringing_new_def)

section \<open>The guard behind the tone\<close>

text \<open>The guards that exist: those of the rest of the program, and the one of the tone.\<close>

definition guards :: "(audio_device_type \<Rightarrow> nat) \<Rightarrow> audio_device_type option \<Rightarrow> audio_device_type \<Rightarrow> nat" where
  "guards o' g = (case g of Some ty \<Rightarrow> o'(ty := Suc (o' ty)) | None \<Rightarrow> o')"

definition few_guards :: "(audio_device_type \<Rightarrow> nat) \<Rightarrow> bool" where
  "few_guards o' \<longleftrightarrow> (\<forall>ty. o' ty + 2 < 2 ^ 32)"

text \<open>The invariant of the device, tasks of waiting calls are not those of streams, and a sound has a guard.\<close>

definition tone_inv :: "(audio_device_type \<Rightarrow> nat) \<Rightarrow> ringing \<Rightarrow> bool" where
  "tone_inv o' r \<longleftrightarrow>
     device_inv (devices r, guards o' (toneDeviceGuard r)) \<and>
     (\<forall>c p. smap_find (pendingAlertInfoCalls r) c = Some p \<longrightarrow> alert_task (devices r) (pa_fallbackTask p)) \<and>
     (getTelephoneTone (toneCtrl r) \<noteq> None \<or> audioFile (toneCtrl r) \<noteq> None \<longrightarrow> toneDeviceGuard r \<noteq> None)"

text \<open>How a sequence of steps of the device carries the first two parts over.\<close>

lemma tone_inv_steps:
  assumes "device_step\<^sup>*\<^sup>* s t" and "device_inv s"
  shows "device_inv t \<and> (\<forall>i. alert_task (fst s) i \<longrightarrow> alert_task (fst t) i)"
  using assms(1)
proof (induction rule: rtranclp_induct)
  case base
  from assms(2) show ?case by simp
next
  case (step t u)
  then show ?case by (auto intro: device_inv_step alert_task_step)
qed

lemma tone_inv_by_steps:
  assumes "tone_inv o' r"
    and "device_step\<^sup>*\<^sup>* (devices r, guards o' (toneDeviceGuard r)) (devices r', guards o' (toneDeviceGuard r'))"
    and "\<And>c p. smap_find (pendingAlertInfoCalls r') c = Some p \<Longrightarrow> smap_find (pendingAlertInfoCalls r) c = Some p"
    and "getTelephoneTone (toneCtrl r') \<noteq> None \<or> audioFile (toneCtrl r') \<noteq> None \<Longrightarrow> toneDeviceGuard r' \<noteq> None"
  shows "tone_inv o' r'"
proof -
  from assms(1) have inv: "device_inv (devices r, guards o' (toneDeviceGuard r))" by (simp add: tone_inv_def)
  from tone_inv_steps [OF assms(2) inv]
  have "device_inv (devices r', guards o' (toneDeviceGuard r'))" "\<And>i. alert_task (devices r) i \<Longrightarrow> alert_task (devices r') i"
    by simp_all
  moreover have "alert_task (devices r) (pa_fallbackTask p)" if "smap_find (pendingAlertInfoCalls r') c = Some p" for c p
    using assms(1) assms(3) [OF that] by (simp add: tone_inv_def)
  ultimately show ?thesis unfolding tone_inv_def using assms(4) by blast
qed

lemma drop_guard_steps:
  "device_step\<^sup>*\<^sup>* (d, guards o' g) (drop_guard now g d, o')"
proof (cases g)
  case (Some ty)
  have "device_step (d, guards o' g) (AudioDeviceGuard_delete now ty d, (guards o' g)(ty := o' ty))"
    by (rule device_step.release) (simp add: guards_def Some)
  with Some show ?thesis by (simp add: drop_guard_def guards_def r_into_rtranclp)
qed (simp add: drop_guard_def guards_def)

text \<open>Taking the new guard, the block, dropping the old guard.\<close>

lemma take_guard_steps:
  assumes "few_guards o'" and "ty \<noteq> ALL_DEVICES" and "d2 = startAudioStream ty d \<or> d2 = driver_flushUrgent (startAudioStream ty d)"
  shows "device_step\<^sup>*\<^sup>* (d, guards o' g) (drop_guard now g d2, guards o' (Some ty))"
proof -
  let ?h = "guards o' g"
  have "Suc (?h ty) < 2 ^ 32"
    using spec [OF assms(1) [unfolded few_guards_def], of ty] by (auto simp: guards_def split: option.splits)
  then have 1: "device_step (d, ?h) (startAudioStream ty d, ?h(ty := Suc (?h ty)))"
    using assms(2) by (intro device_step.acquire) (simp add: AudioDeviceGuard_new_def)
  have 2: "device_step\<^sup>*\<^sup>* (startAudioStream ty d, ?h(ty := Suc (?h ty))) (d2, ?h(ty := Suc (?h ty)))"
    using assms(3) by (auto intro: device_step.flush)
  have eq: "?h(ty := Suc (?h ty)) = guards (guards o' (Some ty)) g" by (auto simp: guards_def fun_eq_iff split: option.splits)
  have 3: "device_step\<^sup>*\<^sup>* (d2, ?h(ty := Suc (?h ty))) (drop_guard now g d2, guards o' (Some ty))"
    unfolding eq by (rule drop_guard_steps)
  from 1 2 3 show ?thesis by (meson converse_rtranclp_into_rtranclp rtranclp_trans)
qed

lemma sound_simps [simp]:
  "devices (upd_tone f r) = devices r" "toneDeviceGuard (upd_tone f r) = toneDeviceGuard r"
  "toneCtrl (upd_tone f r) = f (toneCtrl r)"
  "devices (upd_devices g r) = g (devices r)" "toneDeviceGuard (upd_devices g r) = toneDeviceGuard r"
  "toneCtrl (upd_devices g r) = toneCtrl r"
  "devices (stopAudioFile r) = devices r" "toneDeviceGuard (stopAudioFile r) = toneDeviceGuard r"
  "toneCtrl (stopAudioFile r) = (toneCtrl r)\<lparr>audioFile := None\<rparr>"
  by (simp_all add: upd_tone_def upd_devices_def stopAudioFile_def split: option.splits)

lemma setAudioFile_simps:
  assumes "setAudioFile E path r = (ok, r')"
  shows "devices r' = devices r" "toneDeviceGuard r' = toneDeviceGuard r" "pendingAlertInfoCalls r' = pendingAlertInfoCalls r"
    "ok = re_opens E path" "toneCtrl r' = (toneCtrl r)\<lparr>audioFile := (if ok then Some path else None)\<rparr>"
  using assms by (auto simp: setAudioFile_def Let_def split: if_splits)

lemma playATone_inv:
  assumes "tone_inv o' r" and "few_guards o'" shows "tone_inv o' (playATone E t r)"
proof (cases "\<not> re_playTones E \<or> audiodriver (devices r) = None")
  case True
  with assms(1) show ?thesis by (simp add: playATone_def)
next
  case False
  then have "playATone E t r = take_tone_guard E PLAYBACK (\<lambda>r. upd_tone (tc_play t) (upd_devices driver_flushUrgent r)) r"
    by (auto simp: playATone_def)
  with take_guard_steps [OF assms(2), of PLAYBACK "driver_flushUrgent (startAudioStream PLAYBACK (devices r))" "devices r"]
  show ?thesis by (intro tone_inv_by_steps [OF assms(1)]) (simp_all add: take_tone_guard_def Let_def)
qed

lemma start_ringtone_inv:
  assumes "tone_inv o' r" and "few_guards o'" shows "tone_inv o' (start_ringtone E r)"
  using take_guard_steps [OF assms(2), of RINGTONE "startAudioStream RINGTONE (devices r)" "devices r"]
  by (intro tone_inv_by_steps [OF assms(1)]) (simp_all add: start_ringtone_def take_tone_guard_def Let_def)

lemma start_ringtone_guard [simp]: "toneDeviceGuard (start_ringtone E r) = Some RINGTONE"
  by (simp add: start_ringtone_def take_tone_guard_def Let_def)

lemma setAudioFile_inv:
  assumes "setAudioFile E path r = (ok, r')" and "tone_inv o' r" and "toneDeviceGuard r \<noteq> None"
  shows "tone_inv o' r'"
  by (rule tone_inv_by_steps [OF assms(2)]) (use assms setAudioFile_simps [OF assms(1)] in simp_all)

lemma playRingtone_inv:
  assumes "tone_inv o' r" and "few_guards o'" shows "tone_inv o' (playRingtone E a r)"
  using assms
  by (auto simp: playRingtone_def ringback_def split: option.splits prod.splits
      intro!: playATone_inv intro: setAudioFile_inv start_ringtone_inv)

lemma reset_guard_inv:
  assumes "tone_inv o' r" and "getTelephoneTone (toneCtrl r) = None" and "audioFile (toneCtrl r) = None"
  shows "tone_inv o' (reset_tone_guard E r)"
  using drop_guard_steps [of "devices r" o' "toneDeviceGuard r" "re_now E"] assms(2,3)
  by (intro tone_inv_by_steps [OF assms(1)]) (simp_all add: reset_tone_guard_def guards_def)

lemma stopTone_inv:
  assumes "tone_inv o' r" shows "tone_inv o' (stopTone E r)"
proof -
  have "tone_inv o' (tc_stop r)"
    by (rule tone_inv_by_steps [OF assms]) (auto simp: tc_stop_def tc_play_def getTelephoneTone_def split: option.splits)
  moreover have "getTelephoneTone (toneCtrl (tc_stop r)) = None" "audioFile (toneCtrl (tc_stop r)) = None"
    by (auto simp: tc_stop_def tc_play_def getTelephoneTone_def split: option.splits)
  ultimately show ?thesis using assms by (simp add: stopTone_def reset_guard_inv)
qed

lemma forget_pending_inv:
  assumes inv: "tone_inv o' r" and p: "smap_find (pendingAlertInfoCalls r) c = Some p"
  shows "tone_inv o' (forget_pending c p r)"
proof (rule tone_inv_by_steps [OF inv])
  from inv p have "foreign_op (devices r) (CancelTask (pa_fallbackTask p))"
    using stop_task_is_no_alert by (fastforce simp: tone_inv_def)
  from device_step.foreign [OF this]
  show "device_step\<^sup>*\<^sup>* (devices r, guards o' (toneDeviceGuard r))
      (devices (forget_pending c p r), guards o' (toneDeviceGuard (forget_pending c p r)))"
    by (simp add: forget_pending_def cancel_task_def r_into_rtranclp)
qed (use inv in \<open>auto simp: forget_pending_def tone_inv_def split: if_splits\<close>)

lemma clearPending_inv: "tone_inv o' r \<Longrightarrow> tone_inv o' (clearPendingAlertInfoCall c r)"
  by (auto simp: clearPendingAlertInfoCall_def forget_pending_inv split: option.splits)

lemma setRingtone_inv:
  assumes "tone_inv o' r" and "few_guards o'"
  shows "tone_inv o' (snd (setRingtoneForIncomingCall E a c path r))"
proof -
  have set: "tone_inv o' r2" if "tone_inv o' r1" "setAudioFile E path (start_ringtone E r1) = (ok, r2)" for r1 ok r2
    by (rule setAudioFile_inv [OF that(2)]) (use that assms(2) start_ringtone_inv in simp_all)
  show ?thesis
    using assms
    by (auto simp: setRingtoneForIncomingCall_def ringback_def Let_def split: option.splits prod.splits
        intro!: playATone_inv playRingtone_inv intro: forget_pending_inv set)
qed

lemma erase_pending_inv: "tone_inv o' r \<Longrightarrow> tone_inv o' (r\<lparr>pendingAlertInfoCalls := smap_erase c (pendingAlertInfoCalls r)\<rparr>)"
  by (auto simp: tone_inv_def split: if_splits)

lemma timeout_inv: "tone_inv o' r \<Longrightarrow> few_guards o' \<Longrightarrow> tone_inv o' (onAlertInfoTimeout E a c r)"
  by (auto simp: onAlertInfoTimeout_def Let_def erase_pending_inv playRingtone_inv split: option.splits)

lemma await_inv:
  assumes inv: "tone_inv o' r" shows "tone_inv o' (await_ringtone E account a c r)"
proof -
  let ?dt = "max 0 (ra_pauseAfterAlertInfo account) * 1000"
  obtain i d where s: "scheduleTaskIn (re_now E) ?dt (AlertInfoTimeout a c) (devices r) = (i, d)"
    by (cases "scheduleTaskIn (re_now E) ?dt (AlertInfoTimeout a c) (devices r)")
  have "tone_inv o' (r\<lparr>devices := d\<rparr>)"
  proof (rule tone_inv_by_steps [OF inv])
    show "device_step\<^sup>*\<^sup>* (devices r, guards o' (toneDeviceGuard r))
        (devices (r\<lparr>devices := d\<rparr>), guards o' (toneDeviceGuard (r\<lparr>devices := d\<rparr>)))"
      using device_step.alert [of "devices r" "guards o' (toneDeviceGuard r)" "re_now E" ?dt a c] s by (simp add: r_into_rtranclp)
  qed (use inv in \<open>auto simp: tone_inv_def\<close>)
  moreover have "alert_task d i" using s by (auto simp: alert_task_def device_defs Let_def)
  ultimately show ?thesis using s by (auto simp: await_ringtone_def tone_inv_def split: if_splits)
qed

lemma timer_inv:
  assumes "tone_inv o' r" and "few_guards o'" shows "tone_inv o' (ring_timer_run E result r)"
proof -
  have "tone_inv o' (upd_devices (timer_run result) r)"
    by (rule tone_inv_by_steps [OF assms(1)])
      (use assms(1) in \<open>auto simp: tone_inv_def intro: r_into_rtranclp device_step.run\<close>)
  moreover have "tone_inv o' r \<Longrightarrow> tone_inv o' (foldl (\<lambda>r (a, c). onAlertInfoTimeout E a c r) r xs)" for r xs
    by (induction xs arbitrary: r) (auto intro: timeout_inv assms(2))
  ultimately show ?thesis by (simp add: ring_timer_run_def Let_def)
qed

section \<open>The whole of it\<close>

text \<open>
  Tones and ringtones, with the rest of the program taking and dropping guards of its own, the
  timer thread, and new drivers. Stopping the playback of a recorded file is left out: the last theorem
  says what it does.
\<close>

inductive ring_world_step :: "ringing \<times> (audio_device_type \<Rightarrow> nat) \<Rightarrow> ringing \<times> (audio_device_type \<Rightarrow> nat) \<Rightarrow> bool" where
  tone: "few_guards o' \<Longrightarrow> op \<noteq> StopRecordedFilePlayback \<Longrightarrow> ring_world_step (r, o') (ring_exec E op r, o')"
| other_acquire: "AudioDeviceGuard_new ty (devices r) = Inr d \<Longrightarrow> few_guards (o'(ty := Suc (o' ty))) \<Longrightarrow>
    ring_world_step (r, o') (r\<lparr>devices := d\<rparr>, o'(ty := Suc (o' ty)))"
| other_release: "o' ty = Suc n \<Longrightarrow> ring_world_step (r, o') (upd_devices (AudioDeviceGuard_delete now ty) r, o'(ty := n))"
| timer_take: "ring_world_step (r, o') (upd_devices (\<lambda>d. d\<lparr>scheduler := loop_take now (scheduler d)\<rparr>) r, o')"
| other_job: "foreign_op (devices r) op \<Longrightarrow>
    ring_world_step (r, o') (upd_devices (\<lambda>d. d\<lparr>scheduler := fst (exec_op_run op (scheduler d))\<rparr>) r, o')"
| new_driver: "\<forall>ty. audioStreamStopTask (devices r) ty = None \<Longrightarrow>
    ring_world_step (r, o') (upd_devices (initAudioDriver created) r, o')"

lemma tone_inv_exec:
  assumes "tone_inv o' r" and "few_guards o'" and "op \<noteq> StopRecordedFilePlayback"
  shows "tone_inv o' (ring_exec E op r)"
  using assms by (cases op) (simp_all add: playATone_inv stopTone_inv playRingtone_inv await_inv setRingtone_inv clearPending_inv timer_inv)

lemma tone_inv_device:
  assumes inv: "tone_inv o' r" and st: "device_step (devices r, guards o' (toneDeviceGuard r)) (d, guards o2 (toneDeviceGuard r))"
  shows "tone_inv o2 (r\<lparr>devices := d\<rparr>)"
proof -
  from inv have "device_inv (devices r, guards o' (toneDeviceGuard r))" by (simp add: tone_inv_def)
  with device_inv_step [OF st] alert_task_step [OF st] inv show ?thesis by (simp add: tone_inv_def)
qed

lemma tone_inv_step: "ring_world_step s t \<Longrightarrow> tone_inv (snd s) (fst s) \<Longrightarrow> tone_inv (snd t) (fst t)"
proof (induction rule: ring_world_step.induct)
  case (other_acquire ty r d o')
  let ?g = "toneDeviceGuard r"
  have eq: "guards (o'(ty := Suc (o' ty))) ?g = (guards o' ?g)(ty := Suc (guards o' ?g ty))"
    by (auto simp: guards_def fun_eq_iff split: option.splits)
  have few: "Suc (guards o' ?g ty) < 2 ^ 32"
    using spec [OF other_acquire(2) [unfolded few_guards_def], of ty] by (auto simp: guards_def split: option.splits)
  from other_acquire(3) device_step.acquire [where h = "guards o' ?g", OF other_acquire(1) few, folded eq] have "tone_inv (o'(ty := Suc (o' ty))) (r\<lparr>devices := d\<rparr>)"
    unfolding fst_conv snd_conv by (rule tone_inv_device)
  then show ?case by (simp only: fst_conv snd_conv)
next
  case (other_release o' ty n r now)
  let ?g = "toneDeviceGuard r"
  have suc: "guards o' ?g ty = Suc (guards (o'(ty := n)) ?g ty)"
    and eq: "guards (o'(ty := n)) ?g = (guards o' ?g)(ty := guards (o'(ty := n)) ?g ty)"
    using other_release(1) by (auto simp: guards_def fun_eq_iff split: option.splits)
  from device_step.release [where h = "guards o' ?g", OF suc, of "devices r" now]
  have "device_step (devices r, guards o' ?g) (AudioDeviceGuard_delete now ty (devices r), guards (o'(ty := n)) ?g)"
    by (subst eq)
  with other_release(2) have "tone_inv (o'(ty := n)) (r\<lparr>devices := AudioDeviceGuard_delete now ty (devices r)\<rparr>)"
    unfolding fst_conv snd_conv by (rule tone_inv_device)
  then show ?case by (simp only: fst_conv snd_conv upd_devices_def)
next
  case (timer_take r o' now)
  then show ?case by (simp add: upd_devices_def) (rule tone_inv_device [OF _ device_step.take])
next
  case (other_job r op o')
  then show ?case by (simp add: upd_devices_def) (rule tone_inv_device [OF _ device_step.foreign])
next
  case (new_driver r o' created)
  then show ?case by (simp add: upd_devices_def) (rule tone_inv_device [OF _ device_step.swap])
qed (simp add: tone_inv_exec)

abbreviation ring_start :: "ringing \<times> (audio_device_type \<Rightarrow> nat)" where
  "ring_start \<equiv> (ringing_new audio_devices_new, \<lambda>_. 0)"

interpretation rw: relational_machine "\<lambda>s. s = ring_start" ring_world_step "\<lambda>s. tone_inv (snd s) (fst s)"
proof unfold_locales
  fix s :: "ringing \<times> (audio_device_type \<Rightarrow> nat)"
  assume "s = ring_start"
  with device_inv_new show "tone_inv (snd s) (fst s)"
    by (simp add: tone_inv_def ringing_new_def ToneControl_new_def guards_def getTelephoneTone_def)
qed (rule tone_inv_step)

lemma ring_reachableD:
  assumes "ring_world_step\<^sup>*\<^sup>* ring_start (r, o')" shows "tone_inv o' r"
  using rw.reachable_inv [OF refl assms] by simp

lemma tone_guard_streams:
  assumes "tone_inv o' r" and "toneDeviceGuard r = Some ty" and "audiodriver (devices r) = Some streams"
  shows "streams ty"
proof -
  from assms(1) have "stream_inv (devices r) (guards o' (toneDeviceGuard r) ty) ty" by (simp add: tone_inv_def device_inv_def)
  with assms(2,3) show ?thesis by (simp add: stream_inv_def guards_def)
qed

section \<open>A first ringtone\<close>

definition demo_ring_account :: ring_account where
  "demo_ring_account =
     \<lparr>ra_autoAnswerEnabled = False, ra_ringtoneEnabled = True, ra_ringtonePath = ''r.wav'', ra_pauseAfterAlertInfo = 5\<rparr>"

definition demo_ring_env :: "bool \<Rightarrow> ring_env" where
  "demo_ring_env tones =
     \<lparr>re_playTones = tones, re_account = (\<lambda>_. Some demo_ring_account), re_opens = (\<lambda>_. True), re_sampleRate = 48000, re_now = 0\<rparr>"

definition demo_idle :: ringing where
  "demo_idle = ringing_new (initAudioDriver True audio_devices_new)"

definition demo_ringing :: ringing where
  "demo_ringing = playRingtone (demo_ring_env True) ''a'' demo_idle"

lemma demo_ringing_reachable: "ring_world_step\<^sup>*\<^sup>* ring_start (demo_ringing, \<lambda>_. 0)"
proof -
  have "ring_world_step ring_start (demo_idle, \<lambda>_. 0)"
    using ring_world_step.new_driver [of "ringing_new audio_devices_new" "\<lambda>_. 0" True]
    by (simp add: demo_idle_def ringing_new_def audio_devices_new_def upd_devices_def)
  moreover have "ring_world_step (demo_idle, \<lambda>_. 0) (demo_ringing, \<lambda>_. 0)"
    using ring_world_step.tone [of "\<lambda>_. 0" "PlayRingtone ''a''" demo_idle "demo_ring_env True"]
    by (simp add: few_guards_def demo_ringing_def)
  ultimately show ?thesis by simp
qed

lemma demo_idle_driver: "audiodriver (devices demo_idle) = Some (\<lambda>_. False)"
  by (simp add: demo_idle_def ringing_new_def initAudioDriver_def audio_devices_new_def Let_def)

lemma demo_ringing_sound:
  "toneCtrl demo_ringing = \<lparr>sampleRate = 48000, telephoneTone = Some TONE_NULL, audioFile = Some ''r.wav''\<rparr>"
  "toneDeviceGuard demo_ringing = Some RINGTONE"
  "audiodriver (devices demo_ringing) = Some ((\<lambda>_. False)(RINGTONE := True))"
  "audioStreamUsers (devices demo_ringing) RINGTONE = 1"
  by (simp_all add: demo_ringing_def playRingtone_def demo_ring_env_def demo_ring_account_def demo_idle_def ringing_new_def
      initAudioDriver_def audio_devices_new_def ToneControl_new_def setAudioFile_def start_ringtone_def take_tone_guard_def
      drop_guard_def tc_setSampleRate_def device_defs Let_def)

section \<open>Properties\<close>



text \<open>
  Whenever a tone or a sound file is being played, whatever the rest of the program does with
  the sound device, the tone holds a guard and the driver runs the stream of that guard.
\<close>

theorem sound_has_a_stream:
  assumes "ring_world_step\<^sup>*\<^sup>* ring_start (r, o')" and "audiodriver (devices r) = Some streams"
    and "getTelephoneTone (toneCtrl r) \<noteq> None \<or> getTelephoneFile (toneCtrl r) \<noteq> None"
  shows "\<exists>ty. toneDeviceGuard r = Some ty \<and> streams ty"
  using ring_reachableD [OF assms(1)] tone_guard_streams [OF ring_reachableD [OF assms(1)] _ assms(2)] assms(3)
  by (auto simp: tone_inv_def getTelephoneFile_def)

theorem sound_has_a_stream_witness:
  "\<exists>ty. toneDeviceGuard demo_ringing = Some ty \<and> ((\<lambda>_. False)(RINGTONE := True)) ty"
  using sound_has_a_stream [OF demo_ringing_reachable demo_ringing_sound(3)]
  by (simp add: demo_ringing_sound getTelephoneFile_def)

text \<open>
  With tones switched on, stopping the tone leaves nothing to play and no guard; with tones
  switched off in the preferences it does nothing, and a ringtone that was started goes on.
\<close>

theorem stopTone_needs_tones:
  "(re_playTones E \<longrightarrow> getTelephoneTone (toneCtrl (stopTone E r)) = None \<and> getTelephoneFile (toneCtrl (stopTone E r)) = None \<and>
      toneDeviceGuard (stopTone E r) = None) \<and>
   (\<not> re_playTones E \<longrightarrow> re_account E a = Some account \<longrightarrow> \<not> ra_autoAnswerEnabled account \<longrightarrow> ra_ringtoneEnabled account \<longrightarrow>
      audiodriver (devices r) \<noteq> None \<longrightarrow> re_opens E (ra_ringtonePath account) \<longrightarrow>
      getTelephoneFile (toneCtrl (stopTone E (playRingtone E a r))) = Some (ra_ringtonePath account))"
proof (intro conjI impI)
  assume "re_playTones E"
  then show "getTelephoneTone (toneCtrl (stopTone E r)) = None" "getTelephoneFile (toneCtrl (stopTone E r)) = None"
    "toneDeviceGuard (stopTone E r) = None"
    by (auto simp: stopTone_def tc_stop_def tc_play_def reset_tone_guard_def getTelephoneTone_def getTelephoneFile_def split: option.splits)
next
  assume "\<not> re_playTones E" "re_account E a = Some account" "\<not> ra_autoAnswerEnabled account" "ra_ringtoneEnabled account"
    "audiodriver (devices r) \<noteq> None" "re_opens E (ra_ringtonePath account)"
  then show "getTelephoneFile (toneCtrl (stopTone E (playRingtone E a r))) = Some (ra_ringtonePath account)"
    by (auto simp: stopTone_def playRingtone_def setAudioFile_def getTelephoneFile_def Let_def)
qed

theorem stopTone_needs_tones_witness:
  "getTelephoneFile (toneCtrl (stopTone (demo_ring_env False) (playRingtone (demo_ring_env False) ''a'' demo_idle))) = Some ''r.wav''"
  using stopTone_needs_tones [of "demo_ring_env False" demo_idle "''a''" demo_ring_account]
  by (simp add: demo_ring_env_def demo_ring_account_def demo_idle_driver)

text \<open>
  A tone takes the guard away from a ringtone. When the other side of an outgoing call starts to
  ring while a ringtone plays, the ringtone's file stays current, but its stream is no longer
  held; the file is only ever played on that stream.
\<close>

theorem ringback_takes_the_ringtones_guard:
  assumes "re_playTones E" and "audiodriver (devices r) \<noteq> None" and "toneDeviceGuard r = Some RINGTONE"
    and "getTelephoneFile (toneCtrl r) = Some path" and "audioStreamUsers (devices r) RINGTONE = 1"
  shows "getTelephoneFile (toneCtrl (ringback E r)) = Some path \<and> toneDeviceGuard (ringback E r) = Some PLAYBACK \<and>
    audioStreamUsers (devices (ringback E r)) RINGTONE = 0 \<and> audioStreamStopTask (devices (ringback E r)) RINGTONE \<noteq> None"
  using assms
  by (auto simp: ringback_def playATone_def take_tone_guard_def getTelephoneFile_def tc_play_def drop_guard_def AudioDeviceGuard_delete_def
      device_defs driver_flushUrgent_def Let_def split: option.splits)

theorem ringback_takes_the_ringtones_guard_witness:
  "getTelephoneFile (toneCtrl (ringback (demo_ring_env True) demo_ringing)) = Some ''r.wav'' \<and>
   toneDeviceGuard (ringback (demo_ring_env True) demo_ringing) = Some PLAYBACK"
  using ringback_takes_the_ringtones_guard [of "demo_ring_env True" demo_ringing "''r.wav''"]
  by (simp add: demo_ringing_sound demo_ring_env_def getTelephoneFile_def)

end
