(* ===== verification/Manager_Calls.thy ===== *)
theory Manager_Calls
  imports Call Conference_Mute Ringing
begin

text \<open>
  The manager's control over calls and conferences, \<^verbatim>\<open>src/manager.cpp\<close>, with the commands of \<^verbatim>\<open>src/sip/sipcall.cpp\<close> that
  it gives: the current call, calls that wait, hold, conferences made of calls, and the sound of
  each call. The manager works on the state machine of each call, on every conference object that
  is alive, on the ring buffer pool, and on the tone and the sound device; all of them are parts
  of its state. Whether the SIP stack accepts a command is part of the environment of an operation.
\<close>

section \<open>State\<close>

text \<open>
  A call: its state machine, what conferences ask of it, its guards of the sound device, whether it
  has an audio stream that is not muted, and what the SIP layer keeps for it.
\<close>

record mgr_call =
  mc_call :: call
  mc_peer :: conf_peer
  mc_audioGuard :: bool
  mc_captureGuard :: bool
  mc_hasAudio :: bool
  mc_audioOnly :: bool
  mc_remoteConference :: bool
  mc_onHold :: bool
  mc_localHangup :: bool
  mc_inviteSession :: bool

datatype mgr_event =
    CallEvents "call_event list"
  | ConfEvent string conf_event
  | AnswerSent string "media_map list"
  | SessionEnded string
  | ReinviteSent string
  | TransferSent string string
  | RecordingToggled string
  | TextSent string payloads string
  | MessageShown string string string payloads
  | CallShown string string
  | ConferenceCreated string string
  | ConferenceRemoved string
  | ConferenceChangedTo string conf_state
  | AnswerAndReplace string string string

text \<open>
  Conference objects that are alive, each with its account; which of them the accounts list; the
  rest as in \<^verbatim>\<open>ManagerPimpl\<close>. The flag of the beep belongs to the driver.
\<close>

record ('s, 'q, 'r) mgr =
  m_calls :: "(string, mgr_call) smap"
  m_confs :: "(string, string \<times> conference) smap"
  m_attached :: "string list"
  m_pool :: "('s, 'q, 'r) pool"
  currentCall :: string
  waitingCalls :: "string list"
  incomingBeep :: bool
  m_ring :: ringing
  m_log :: "mgr_event list"

text \<open>
  How answering a call ends once it has a session: the final answer is sent, or it is given up
  with no more than a line in the log, or the SIP stack fails and an exception is thrown.
\<close>

datatype answer_outcome = ANSWERED | GIVEN_UP | THROWN

record ('q, 's) mgr_env =
  me_ring :: ring_env
  me_accounts :: "string \<Rightarrow> conf_account option"
  me_usernames :: "string list"
  me_defaultVideo :: string
  me_now :: int
  me_clock :: nat
  me_recorderStarts :: bool
  me_fifo :: "('q, 's) av_fifo"
  me_alwaysRecording :: bool
  me_answer :: "string \<Rightarrow> answer_outcome"
  me_reinviteSucceeds :: "string \<Rightarrow> bool"

section \<open>Access\<close>

definition mgr_emit :: "mgr_event \<Rightarrow> ('s, 'q, 'r) mgr \<Rightarrow> ('s, 'q, 'r) mgr" where
  "mgr_emit e M = M\<lparr>m_log := m_log M @ [e]\<rparr>"

definition upd_call :: "string \<Rightarrow> (mgr_call \<Rightarrow> mgr_call) \<Rightarrow> ('s, 'q, 'r) mgr \<Rightarrow> ('s, 'q, 'r) mgr" where
  "upd_call i f M =
     (case smap_find (m_calls M) i of Some c \<Rightarrow> M\<lparr>m_calls := smap_set i (f c) (m_calls M)\<rparr> | None \<Rightarrow> M)"

definition on_pool :: "(('s, 'q, 'r) pool \<Rightarrow> ('s, 'q, 'r) pool) \<Rightarrow> ('s, 'q, 'r) mgr \<Rightarrow> ('s, 'q, 'r) mgr" where
  "on_pool f M = M\<lparr>m_pool := f (m_pool M)\<rparr>"

definition on_ring :: "(ringing \<Rightarrow> ringing) \<Rightarrow> ('s, 'q, 'r) mgr \<Rightarrow> ('s, 'q, 'r) mgr" where
  "on_ring f M = M\<lparr>m_ring := f (m_ring M)\<rparr>"

definition getCallFromCallID :: "string \<Rightarrow> ('s, 'q, 'r) mgr \<Rightarrow> mgr_call option" where
  "getCallFromCallID i M = smap_find (m_calls M) i"

text \<open>\<^verbatim>\<open>getAccount(accountId)->getCall(callId)\<close>; \<^verbatim>\<open>None\<close> also if there is no such account.\<close>

definition account_getCall :: "('q, 's) mgr_env \<Rightarrow> string \<Rightarrow> string \<Rightarrow> ('s, 'q, 'r) mgr \<Rightarrow> mgr_call option" where
  "account_getCall E accountId callId M =
     (if me_accounts E accountId = None then None
      else case smap_find (m_calls M) callId of
             Some c \<Rightarrow> if call_account (mc_call c) = Some accountId then Some c else None
           | None \<Rightarrow> None)"

definition account_getConference :: "('q, 's) mgr_env \<Rightarrow> string \<Rightarrow> string \<Rightarrow> ('s, 'q, 'r) mgr \<Rightarrow> conference option" where
  "account_getConference E accountId confId M =
     (if me_accounts E accountId = None then None
      else case smap_find (m_confs M) confId of
             Some (a, cf) \<Rightarrow> if a = accountId \<and> confId \<in> set (m_attached M) then Some cf else None
           | None \<Rightarrow> None)"

text \<open>\<^verbatim>\<open>isConferenceParticipant\<close> looks at the weak pointer, \<^verbatim>\<open>getConference\<close> at the object behind it.\<close>

definition isConferenceParticipant :: "mgr_call \<Rightarrow> bool" where
  "isConferenceParticipant c \<longleftrightarrow> call_conf (mc_call c) \<noteq> None"

definition call_getConference :: "mgr_call \<Rightarrow> ('s, 'q, 'r) mgr \<Rightarrow> string option" where
  "call_getConference c M =
     (case call_conf (mc_call c) of Some cid \<Rightarrow> if smap_find (m_confs M) cid \<noteq> None then Some cid else None | None \<Rightarrow> None)"

section \<open>The current call and the calls that wait\<close>

definition unsetCurrentCall :: "('s, 'q, 'r) mgr \<Rightarrow> ('s, 'q, 'r) mgr" where
  "unsetCurrentCall M = M\<lparr>currentCall := []\<rparr>"

definition switchCall :: "string \<Rightarrow> ('s, 'q, 'r) mgr \<Rightarrow> ('s, 'q, 'r) mgr" where
  "switchCall i M = M\<lparr>currentCall := i\<rparr>"

definition has_driver :: "('s, 'q, 'r) mgr \<Rightarrow> bool" where
  "has_driver M \<longleftrightarrow> audiodriver (devices (m_ring M)) \<noteq> None"

definition addWaitingCall :: "string \<Rightarrow> ('s, 'q, 'r) mgr \<Rightarrow> ('s, 'q, 'r) mgr" where
  "addWaitingCall i M =
     (let M1 = (if has_driver M \<and> waitingCalls M = [] \<and> currentCall M \<noteq> [] then M\<lparr>incomingBeep := True\<rparr> else M)
      in M1\<lparr>waitingCalls := sset_insert i (waitingCalls M1)\<rparr>)"

definition removeWaitingCall :: "string \<Rightarrow> ('s, 'q, 'r) mgr \<Rightarrow> ('s, 'q, 'r) mgr" where
  "removeWaitingCall i M =
     (let M1 = M\<lparr>waitingCalls := sset_erase i (waitingCalls M)\<rparr>
      in if has_driver M1 \<and> waitingCalls M1 = [] then M1\<lparr>incomingBeep := False\<rparr> else M1)"

definition incomingCallsWaiting :: "('s, 'q, 'r) mgr \<Rightarrow> bool" where
  "incomingCallsWaiting M \<longleftrightarrow> waitingCalls M \<noteq> []"

definition isCurrentCall :: "string \<Rightarrow> ('s, 'q, 'r) mgr \<Rightarrow> bool" where
  "isCurrentCall i M \<longleftrightarrow> currentCall M = i"

definition hasCurrentCall :: "('s, 'q, 'r) mgr \<Rightarrow> bool" where
  "hasCurrentCall M \<longleftrightarrow>
     list_ex (\<lambda>(_, c). call_parent (mc_call c) = None \<and> getStateStr (mc_call c) = ''CURRENT'') (m_calls M)"

definition getCurrentCall :: "('s, 'q, 'r) mgr \<Rightarrow> mgr_call option" where
  "getCurrentCall M = getCallFromCallID (currentCall M) M"

section \<open>Sound\<close>

definition tone_stop :: "('q, 's) mgr_env \<Rightarrow> ('s, 'q, 'r) mgr \<Rightarrow> ('s, 'q, 'r) mgr" where
  "tone_stop E = on_ring (stopTone (me_ring E))"

definition take_stream :: "audio_device_type \<Rightarrow> ('s, 'q, 'r) mgr \<Rightarrow> ('s, 'q, 'r) mgr" where
  "take_stream ty = on_ring (upd_devices (startAudioStream ty))"

definition drop_stream :: "('q, 's) mgr_env \<Rightarrow> audio_device_type \<Rightarrow> bool \<Rightarrow> ('s, 'q, 'r) mgr \<Rightarrow> ('s, 'q, 'r) mgr" where
  "drop_stream E ty held = (if held then on_ring (upd_devices (AudioDeviceGuard_delete (re_now (me_ring E)) ty)) else id)"

definition addAudio :: "('q, 's) mgr_env \<Rightarrow> string \<Rightarrow> ('s, 'q, 'r) mgr \<Rightarrow> ('s, 'q, 'r) mgr" where
  "addAudio E callId M =
     (case smap_find (m_calls M) callId of
        None \<Rightarrow> M
      | Some c \<Rightarrow>
          if isConferenceParticipant c then M
          else
            let M1 = on_pool (bindCallID callId DEFAULT_ID) M;
                M2 = upd_call callId (\<lambda>c. c\<lparr>mc_audioGuard := True\<rparr>) (take_stream PLAYBACK M1);
                M3 = upd_call callId (\<lambda>c. c\<lparr>mc_captureGuard := True\<rparr>) (take_stream CAPTURE M2);
                M4 = (if has_driver M3 then on_pool flushAllBuffers (on_ring (upd_devices driver_flushUrgent) M3) else M3)
            in drop_stream E PLAYBACK (mc_audioGuard c) (drop_stream E CAPTURE (mc_captureGuard c) M4))"

definition removeAudio :: "('q, 's) mgr_env \<Rightarrow> string \<Rightarrow> ('s, 'q, 'r) mgr \<Rightarrow> ('s, 'q, 'r) mgr" where
  "removeAudio E callId M =
     (case smap_find (m_calls M) callId of
        None \<Rightarrow> M
      | Some c \<Rightarrow>
          let M1 = on_pool (unBindAll callId) M;
              M2 = drop_stream E PLAYBACK (mc_audioGuard c) (upd_call callId (\<lambda>c. c\<lparr>mc_audioGuard := False\<rparr>) M1)
          in drop_stream E CAPTURE (mc_captureGuard c) (upd_call callId (\<lambda>c. c\<lparr>mc_captureGuard := False\<rparr>) M2))"

text \<open>A call object goes away: its guards go with it.\<close>

definition drop_call :: "('q, 's) mgr_env \<Rightarrow> string \<Rightarrow> ('s, 'q, 'r) mgr \<Rightarrow> ('s, 'q, 'r) mgr" where
  "drop_call E callId M =
     (case smap_find (m_calls M) callId of
        None \<Rightarrow> M
      | Some c \<Rightarrow>
          drop_stream E CAPTURE (mc_captureGuard c) (drop_stream E PLAYBACK (mc_audioGuard c)
            (M\<lparr>m_calls := smap_erase callId (m_calls M)\<rparr>)))"

section \<open>Commands to a SIP call\<close>

text \<open>Applies a change of the call's state machine and keeps the events.\<close>

definition on_call :: "string \<Rightarrow> (call \<Rightarrow> call \<times> call_event list) \<Rightarrow> ('s, 'q, 'r) mgr \<Rightarrow> ('s, 'q, 'r) mgr" where
  "on_call i f M =
     (case smap_find (m_calls M) i of
        None \<Rightarrow> M
      | Some c \<Rightarrow> let (k, ev) = f (mc_call c)
                 in mgr_emit (CallEvents ev) (M\<lparr>m_calls := smap_set i (c\<lparr>mc_call := k\<rparr>) (m_calls M)\<rparr>))"

definition set_callState :: "('q, 's) mgr_env \<Rightarrow> string \<Rightarrow> call_state \<Rightarrow> ('s, 'q, 'r) mgr \<Rightarrow> bool \<times> ('s, 'q, 'r) mgr" where
  "set_callState E i cs M =
     (case smap_find (m_calls M) i of
        None \<Rightarrow> (False, M)
      | Some c \<Rightarrow> (fst (setState_call (me_clock E) cs 0 (mc_call c)), on_call i (\<lambda>k. snd (setState_call (me_clock E) cs 0 k)) M))"

definition sip_hold :: "('q, 's) mgr_env \<Rightarrow> string \<Rightarrow> ('s, 'q, 'r) mgr \<Rightarrow> bool \<times> ('s, 'q, 'r) mgr" where
  "sip_hold E i M =
     (case smap_find (m_calls M) i of
        None \<Rightarrow> (False, M)
      | Some c \<Rightarrow>
          if connectionState (mc_call c) \<noteq> CONNECTED then (False, M)
          else
            let (ok, M1) = set_callState E i HOLD M in
            if \<not> ok then (False, M1)
            else
              let M2 = mgr_emit (ReinviteSent i) (upd_call i (\<lambda>c. c\<lparr>mc_onHold := True\<rparr>) M1) in
              if \<not> me_reinviteSucceeds E i
              then (False, snd (set_callState E i ACTIVE (upd_call i (\<lambda>c. c\<lparr>mc_onHold := False\<rparr>) M2)))
              else (True, M2))"

text \<open>Resuming goes back to hold if the peer cannot be told.\<close>

definition sip_offhold :: "('q, 's) mgr_env \<Rightarrow> string \<Rightarrow> ('s, 'q, 'r) mgr \<Rightarrow> bool \<times> ('s, 'q, 'r) mgr" where
  "sip_offhold E i M =
     (let (ok, M1) = set_callState E i ACTIVE M in
      if \<not> ok then (False, M1)
      else
        let M2 = mgr_emit (ReinviteSent i) (upd_call i (\<lambda>c. c\<lparr>mc_onHold := False\<rparr>) M1) in
        if \<not> me_reinviteSucceeds E i then (False, snd (sip_hold E i M2)) else (True, M2))"

text \<open>\<^verbatim>\<open>False\<close> if it throws; a call that cannot be answered is left as it is.\<close>

definition sip_answer :: "('q, 's) mgr_env \<Rightarrow> string \<Rightarrow> media_map list \<Rightarrow> ('s, 'q, 'r) mgr \<Rightarrow> bool \<times> ('s, 'q, 'r) mgr" where
  "sip_answer E i mediaList M =
     (case smap_find (m_calls M) i of
        None \<Rightarrow> (True, M)
      | Some c \<Rightarrow>
          if \<not> isIncoming (mc_call c) \<or> call_account (mc_call c) = None \<or> \<not> mc_inviteSession c then (True, M)
          else
            case me_answer E i of
              THROWN \<Rightarrow> (False, M)
            | GIVEN_UP \<Rightarrow> (True, M)
            | ANSWERED \<Rightarrow>
                (True, on_call i (\<lambda>k. snd (setState (me_clock E) ACTIVE CONNECTED 0 k)) (mgr_emit (AnswerSent i mediaList) M)))"

text \<open>Hanging up ends the session, and the call leaves the registry.\<close>

definition sip_hangup :: "('q, 's) mgr_env \<Rightarrow> string \<Rightarrow> ('s, 'q, 'r) mgr \<Rightarrow> ('s, 'q, 'r) mgr" where
  "sip_hangup E i M =
     (case smap_find (m_calls M) i of
        None \<Rightarrow> M
      | Some c \<Rightarrow>
          if mc_localHangup c then M
          else
            let M1 = upd_call i (\<lambda>c. c\<lparr>mc_localHangup := True\<rparr>) M;
                M2 = (if mc_inviteSession c then mgr_emit (SessionEnded i) M1 else M1);
                M3 = on_call i (\<lambda>k. snd (setState_cnx (me_clock E) DISCONNECTED 0 k)) M2
            in drop_call E i (on_call i (removeCall (me_clock E)) M3))"

text \<open>Answers whether the call was refused; it has then left the registry, and lives on in its caller's hands.\<close>

definition sip_refuse :: "('q, 's) mgr_env \<Rightarrow> string \<Rightarrow> ('s, 'q, 'r) mgr \<Rightarrow> bool \<times> ('s, 'q, 'r) mgr" where
  "sip_refuse E i M =
     (case smap_find (m_calls M) i of
        None \<Rightarrow> (False, M)
      | Some c \<Rightarrow>
          if \<not> isIncoming (mc_call c) \<or> connectionState (mc_call c) = CONNECTED \<or> \<not> mc_inviteSession c then (False, M)
          else
            let M1 = on_call i (\<lambda>k. snd (setState_cnx (me_clock E) DISCONNECTED ECONNABORTED k)) (mgr_emit (SessionEnded i) M)
            in (True, on_call i (removeCall (me_clock E)) M1))"

definition sip_peerHungup :: "('q, 's) mgr_env \<Rightarrow> string \<Rightarrow> ('s, 'q, 'r) mgr \<Rightarrow> ('s, 'q, 'r) mgr" where
  "sip_peerHungup E i M =
     (case smap_find (m_calls M) i of
        None \<Rightarrow> M
      | Some c \<Rightarrow> on_call i (peerHungup (me_clock E)) (if mc_inviteSession c then mgr_emit (SessionEnded i) M else M))"

definition sip_enterConference :: "string \<Rightarrow> string \<Rightarrow> ('s, 'q, 'r) mgr \<Rightarrow> ('s, 'q, 'r) mgr" where
  "sip_enterConference cid = (\<lambda>i. upd_call i (\<lambda>c. c\<lparr>mc_call := (mc_call c)\<lparr>call_conf := Some cid\<rparr>\<rparr>))"

definition sip_exitConference :: "string \<Rightarrow> ('s, 'q, 'r) mgr \<Rightarrow> ('s, 'q, 'r) mgr" where
  "sip_exitConference i M =
     (case smap_find (m_calls M) i of
        None \<Rightarrow> M
      | Some c \<Rightarrow>
          upd_call i (\<lambda>c. c\<lparr>mc_call := (mc_call c)\<lparr>call_conf := None\<rparr>\<rparr>)
            (if mc_hasAudio c then on_pool (\<lambda>p. RingBufferPool_flush DEFAULT_ID (bindCallID i DEFAULT_ID p)) M else M))"

section \<open>Calls\<close>

text \<open>\<^verbatim>\<open>newOutgoingCall\<close> of the account gives the new call, or nothing.\<close>

definition outgoingCall :: "('q, 's) mgr_env \<Rightarrow> (string \<times> mgr_call) option \<Rightarrow> ('s, 'q, 'r) mgr \<Rightarrow> string \<times> ('s, 'q, 'r) mgr" where
  "outgoingCall E new M =
     (case new of
        None \<Rightarrow> ([], M)
      | Some (i, c) \<Rightarrow> (i, switchCall i (tone_stop E (M\<lparr>m_calls := smap_set i c (m_calls M)\<rparr>))))"

definition switch_to_call :: "string \<Rightarrow> ('s, 'q, 'r) mgr \<Rightarrow> ('s, 'q, 'r) mgr" where
  "switch_to_call callId M =
     (case smap_find (m_calls M) callId of
        None \<Rightarrow> M
      | Some c \<Rightarrow> switchCall (case call_getConference c M of Some cid \<Rightarrow> cid | None \<Rightarrow> callId) M)"

definition always_record :: "('q, 's) mgr_env \<Rightarrow> string \<Rightarrow> ('s, 'q, 'r) mgr \<Rightarrow> ('s, 'q, 'r) mgr" where
  "always_record E callId M = (if me_alwaysRecording E then mgr_emit (RecordingToggled callId) M else M)"

definition clear_pending :: "string \<Rightarrow> ('s, 'q, 'r) mgr \<Rightarrow> ('s, 'q, 'r) mgr" where
  "clear_pending callId = on_ring (clearPendingAlertInfoCall callId)"

definition answerCall :: "('q, 's) mgr_env \<Rightarrow> string \<Rightarrow> media_map list \<Rightarrow> ('s, 'q, 'r) mgr \<Rightarrow> bool \<times> ('s, 'q, 'r) mgr" where
  "answerCall E callId mediaList M =
     (case smap_find (m_calls M) callId of
        None \<Rightarrow> (False, M)
      | Some c \<Rightarrow>
          if type_of_call (mc_call c) \<noteq> INCOMING then (False, M)
          else if connectionState (mc_call c) \<noteq> RINGING then (True, M)
          else
            let (ok, M1) = sip_answer E callId mediaList (removeWaitingCall callId (clear_pending callId (tone_stop E M))) in
            if \<not> ok then (False, M1)
            else (True, always_record E callId (addAudio E callId (switch_to_call callId M1))))"

definition Manager_answerCall ::
  "('q, 's) mgr_env \<Rightarrow> string \<Rightarrow> string \<Rightarrow> media_map list \<Rightarrow> ('s, 'q, 'r) mgr \<Rightarrow> bool \<times> ('s, 'q, 'r) mgr" where
  "Manager_answerCall E accountId callId mediaList M =
     (case account_getCall E accountId callId M of None \<Rightarrow> (False, M) | Some _ \<Rightarrow> answerCall E callId mediaList M)"

text \<open>The callbacks of \<^verbatim>\<open>onhold\<close> and \<^verbatim>\<open>offhold\<close> run before those return.\<close>

definition onHoldCall :: "('q, 's) mgr_env \<Rightarrow> string \<Rightarrow> ('s, 'q, 'r) mgr \<Rightarrow> bool \<times> ('s, 'q, 'r) mgr" where
  "onHoldCall E callId M =
     (let M1 = tone_stop E M; current = currentCall M1 in
      case smap_find (m_calls M1) callId of
        None \<Rightarrow> (False, M1)
      | Some _ \<Rightarrow>
          let (ok, M2) = sip_hold E callId M1 in
          if \<not> ok then (False, M2)
          else let M3 = removeWaitingCall callId (removeAudio E callId M2)
               in (True, if current = callId then unsetCurrentCall M3 else M3))"

definition offHoldCall :: "('q, 's) mgr_env \<Rightarrow> string \<Rightarrow> ('s, 'q, 'r) mgr \<Rightarrow> bool \<times> ('s, 'q, 'r) mgr" where
  "offHoldCall E callId M =
     (let M1 = tone_stop E M in
      case smap_find (m_calls M1) callId of
        None \<Rightarrow> (False, M1)
      | Some _ \<Rightarrow>
          let (ok, M2) = sip_offhold E callId M1 in
          if \<not> ok then (False, M2) else (True, addAudio E callId (switch_to_call callId M2)))"

section \<open>Conferences\<close>

definition conf_env_of :: "('q, 's) mgr_env \<Rightarrow> string \<Rightarrow> ('s, 'q, 'r) mgr \<Rightarrow> ('q, 's) conf_env" where
  "conf_env_of E accountId M =
     \<lparr>env_calls = smap_map (\<lambda>_ c. mc_peer c) (m_calls M), env_account = me_accounts E accountId,
      env_usernames = me_usernames E, env_defaultVideo = me_defaultVideo E, env_now = me_now E,
      env_currentCall = currentCall M, env_recorderStarts = me_recorderStarts E, env_fifo = me_fifo E\<rparr>"

text \<open>What a conference asks of calls, of its account and of the manager is carried out in its order.\<close>

fun perform :: "('q, 's) mgr_env \<Rightarrow> string \<Rightarrow> conf_event \<Rightarrow> ('s, 'q, 'r) mgr \<Rightarrow> ('s, 'q, 'r) mgr" where
  "perform E cid (EnterConference i) M = sip_enterConference cid i M"
| "perform E cid (ExitConference i) M = sip_exitConference i M"
| "perform E cid (SwitchCall i) M = switchCall i M"
| "perform E cid RemoveConference M =
     (if cid \<in> set (m_attached M) then mgr_emit (ConferenceRemoved cid) (M\<lparr>m_attached := removeAll cid (m_attached M)\<rparr>) else M)"
| "perform E cid (OnHoldCall i) M = snd (onHoldCall E i M)"
| "perform E cid (OffHoldCall i) M = snd (offHoldCall E i M)"
| "perform E cid (AnswerCall i) M = snd (answerCall E i [] M)"
| "perform E cid e M = mgr_emit (ConfEvent cid e) M"

definition run_conf ::
  "('q, 's) mgr_env \<Rightarrow> string \<Rightarrow> (('q, 's) conf_env \<Rightarrow> ('s, 'q, 'r) conf_world \<Rightarrow> ('s, 'q, 'r) conf_world) \<Rightarrow>
     ('s, 'q, 'r) mgr \<Rightarrow> ('s, 'q, 'r) mgr" where
  "run_conf E cid f M =
     (case smap_find (m_confs M) cid of
        None \<Rightarrow> M
      | Some (a, cf) \<Rightarrow>
          let w = f (conf_env_of E a M) \<lparr>conf = cf, rb_pool = m_pool M, conf_log = []\<rparr>
          in foldl (\<lambda>M e. perform E cid e M) (M\<lparr>m_confs := smap_set cid (a, conf w) (m_confs M), m_pool := rb_pool w\<rparr>) (conf_log w))"

text \<open>The last pointer to a conference goes away: its destructor runs unless an account or a caller holds it.\<close>

definition release_conf :: "('q, 's) mgr_env \<Rightarrow> string list \<Rightarrow> string \<Rightarrow> ('s, 'q, 'r) mgr \<Rightarrow> ('s, 'q, 'r) mgr" where
  "release_conf E held cid M =
     (if cid \<in> set (m_attached M) \<or> cid \<in> set held then M
      else let M1 = run_conf E cid Conference_destroy M in M1\<lparr>m_confs := smap_erase cid (m_confs M1)\<rparr>)"

definition conf_changed :: "string \<Rightarrow> ('s, 'q, 'r) mgr \<Rightarrow> ('s, 'q, 'r) mgr" where
  "conf_changed cid M =
     (case smap_find (m_confs M) cid of Some (_, cf) \<Rightarrow> mgr_emit (ConferenceChangedTo cid (confState cf)) M | None \<Rightarrow> M)"

text \<open>\<^verbatim>\<open>Manager::removeParticipant\<close>; \<^verbatim>\<open>held\<close> are the conferences that callers hold.\<close>

definition mgr_removeParticipant :: "('q, 's) mgr_env \<Rightarrow> string list \<Rightarrow> string \<Rightarrow> ('s, 'q, 'r) mgr \<Rightarrow> ('s, 'q, 'r) mgr" where
  "mgr_removeParticipant E held callId M =
     (case smap_find (m_calls M) callId of
        None \<Rightarrow> M
      | Some c \<Rightarrow>
          (case call_getConference c M of
             None \<Rightarrow> M
           | Some cid \<Rightarrow>
               let M1 = removeAudio E callId (run_conf E cid (\<lambda>E. removeParticipant E callId) M);
                   M2 = run_conf E cid processRemainingParticipants (conf_changed cid M1)
               in release_conf E held cid M2))"

definition detachParticipant :: "('q, 's) mgr_env \<Rightarrow> string list \<Rightarrow> string \<Rightarrow> ('s, 'q, 'r) mgr \<Rightarrow> bool \<times> ('s, 'q, 'r) mgr" where
  "detachParticipant E held callId M =
     (case smap_find (m_calls M) callId of None \<Rightarrow> (False, M) | Some _ \<Rightarrow> (True, mgr_removeParticipant E held callId M))"

definition mgr_bindCallToConference ::
  "('q, 's) mgr_env \<Rightarrow> string list \<Rightarrow> string \<Rightarrow> string \<Rightarrow> ('s, 'q, 'r) mgr \<Rightarrow> ('s, 'q, 'r) mgr" where
  "mgr_bindCallToConference E held callId cid M =
     (case smap_find (m_calls M) callId of
        None \<Rightarrow> M
      | Some c \<Rightarrow>
          let state = getStateStr (mc_call c);
              M1 = (if isConferenceParticipant c then snd (detachParticipant E held callId M) else M)
          in run_conf E cid (\<lambda>E. bindCallToConference E callId state) M1)"

definition addMainParticipant :: "('q, 's) mgr_env \<Rightarrow> string \<Rightarrow> ('s, 'q, 'r) mgr \<Rightarrow> ('s, 'q, 'r) mgr" where
  "addMainParticipant E cid M =
     switchCall cid (conf_changed cid (run_conf E cid attachLocalParticipant M))"

definition Manager_addMainParticipant :: "('q, 's) mgr_env \<Rightarrow> string \<Rightarrow> string \<Rightarrow> ('s, 'q, 'r) mgr \<Rightarrow> bool \<times> ('s, 'q, 'r) mgr" where
  "Manager_addMainParticipant E accountId cid M =
     (case account_getConference E accountId cid M of None \<Rightarrow> (False, M) | Some _ \<Rightarrow> (True, addMainParticipant E cid M))"

text \<open>Adding a call to a conference that a caller holds.\<close>

definition add_participant :: "('q, 's) mgr_env \<Rightarrow> string list \<Rightarrow> string \<Rightarrow> string \<Rightarrow> ('s, 'q, 'r) mgr \<Rightarrow> ('s, 'q, 'r) mgr" where
  "add_participant E held callId cid M =
     (let M1 = mgr_bindCallToConference E held callId cid M in
      case smap_find (m_confs M1) cid of
        None \<Rightarrow> M1
      | Some (_, cf) \<Rightarrow>
          if confState cf = ACTIVE_DETACHED then M1
          else addAudio E callId (switchCall cid (addMainParticipant E cid (unsetCurrentCall M1))))"

definition Manager_addParticipant ::
  "('q, 's) mgr_env \<Rightarrow> string \<Rightarrow> string \<Rightarrow> string \<Rightarrow> string \<Rightarrow> ('s, 'q, 'r) mgr \<Rightarrow> bool \<times> ('s, 'q, 'r) mgr" where
  "Manager_addParticipant E accountId callId account2Id cid M =
     (case (account_getCall E accountId callId M, account_getConference E account2Id cid M) of
        (Some c, Some _) \<Rightarrow>
          if call_getConference c M \<noteq> Some cid then (True, release_conf E [] cid (add_participant E [cid] callId cid M)) else (False, M)
      | _ \<Rightarrow> (False, M))"

definition Manager_hangupCall ::
  "('q, 's) mgr_env \<Rightarrow> string list \<Rightarrow> string \<Rightarrow> string \<Rightarrow> ('s, 'q, 'r) mgr \<Rightarrow> bool \<times> ('s, 'q, 'r) mgr" where
  "Manager_hangupCall E held accountId callId M =
     (if me_accounts E accountId = None then (False, M)
      else
        let M1 = removeWaitingCall callId (clear_pending callId (tone_stop E M)) in
        case account_getCall E accountId callId M1 of
          None \<Rightarrow> (False, M1)
        | Some c \<Rightarrow>
            let M2 = removeAudio E callId M1;
                M3 = (if isConferenceParticipant c then mgr_removeParticipant E held callId M2
                      else if isCurrentCall callId M2 then unsetCurrentCall M2 else M2)
            in (True, sip_hangup E callId M3))"

definition hangupConference :: "('q, 's) mgr_env \<Rightarrow> string \<Rightarrow> ('s, 'q, 'r) mgr \<Rightarrow> ('s, 'q, 'r) mgr" where
  "hangupConference E cid M =
     (case smap_find (m_confs M) cid of
        None \<Rightarrow> M
      | Some (_, cf) \<Rightarrow>
          unsetCurrentCall
            (foldl (\<lambda>M i. case smap_find (m_calls M) i of
                            Some c \<Rightarrow> snd (Manager_hangupCall E [cid] (getAccountId (mc_call c)) i M)
                          | None \<Rightarrow> M) M (participants cf)))"

definition Manager_hangupConference :: "('q, 's) mgr_env \<Rightarrow> string \<Rightarrow> string \<Rightarrow> ('s, 'q, 'r) mgr \<Rightarrow> bool \<times> ('s, 'q, 'r) mgr" where
  "Manager_hangupConference E accountId cid M =
     (case account_getConference E accountId cid M of
        None \<Rightarrow> (False, M)
      | Some _ \<Rightarrow> (True, release_conf E [] cid (hangupConference E cid M)))"

definition transferCall :: "('q, 's) mgr_env \<Rightarrow> string \<Rightarrow> string \<Rightarrow> string \<Rightarrow> ('s, 'q, 'r) mgr \<Rightarrow> bool \<times> ('s, 'q, 'r) mgr" where
  "transferCall E accountId callId to M =
     (case account_getCall E accountId callId M of
        None \<Rightarrow> (False, M)
      | Some c \<Rightarrow>
          let M1 = (if isConferenceParticipant c then mgr_removeParticipant E [] callId M else M)
          in (True, removeWaitingCall callId (mgr_emit (TransferSent callId to) M1)))"

definition refuseCall :: "('q, 's) mgr_env \<Rightarrow> string \<Rightarrow> string \<Rightarrow> ('s, 'q, 'r) mgr \<Rightarrow> bool \<times> ('s, 'q, 'r) mgr" where
  "refuseCall E accountId callId M =
     (case account_getCall E accountId callId M of
        None \<Rightarrow> (False, M)
      | Some _ \<Rightarrow>
          let (gone, M1) = sip_refuse E callId (clear_pending callId (tone_stop E M));
              M2 = removeAudio E callId (removeWaitingCall callId M1)
          in (True, if gone then drop_call E callId M2 else M2))"

definition holdConference :: "('q, 's) mgr_env \<Rightarrow> string \<Rightarrow> string \<Rightarrow> ('s, 'q, 'r) mgr \<Rightarrow> bool \<times> ('s, 'q, 'r) mgr" where
  "holdConference E accountId cid M =
     (case account_getConference E accountId cid M of
        None \<Rightarrow> (False, M)
      | Some _ \<Rightarrow> (True, conf_changed cid (run_conf E cid detachLocalParticipant M)))"

definition unHoldConference :: "('q, 's) mgr_env \<Rightarrow> string \<Rightarrow> string \<Rightarrow> ('s, 'q, 'r) mgr \<Rightarrow> bool \<times> ('s, 'q, 'r) mgr" where
  "unHoldConference E accountId cid M =
     (case account_getConference E accountId cid M of
        None \<Rightarrow> (False, M)
      | Some cf \<Rightarrow>
          (case confState cf of
             CONF_HOLD \<Rightarrow>
               let M1 = switchCall cid (foldl (\<lambda>M i. snd (offHoldCall E i M)) M (participants cf))
               in (True, conf_changed cid (run_conf E cid (\<lambda>_. conf_setState ACTIVE_ATTACHED) M1))
           | ACTIVE_DETACHED \<Rightarrow> (False, addMainParticipant E cid M)
           | ACTIVE_ATTACHED \<Rightarrow> (False, M)))"

definition Manager_detachLocalParticipant :: "('q, 's) mgr_env \<Rightarrow> string \<Rightarrow> ('s, 'q, 'r) mgr \<Rightarrow> ('s, 'q, 'r) mgr" where
  "Manager_detachLocalParticipant E cid M = unsetCurrentCall (conf_changed cid (run_conf E cid detachLocalParticipant M))"

text \<open>Whether the host's camera joins, and which: the last video stream of the calls that have one.\<close>

definition has_video :: "media_attribute list \<Rightarrow> bool" where
  "has_video ms \<longleftrightarrow> list_ex hasValidVideo ms"

definition video_source :: "media_attribute list \<Rightarrow> string \<Rightarrow> string" where
  "video_source ms source = foldl (\<lambda>s m. if ma_type m = MEDIA_VIDEO then ma_sourceUri m else s) source ms"

definition conference_video :: "media_attribute list \<Rightarrow> media_attribute list \<Rightarrow> bool \<times> string" where
  "conference_video ms1 ms2 =
     (let source1 = (if has_video ms1 then video_source ms1 [] else []);
          attach = (has_video ms1 \<or> has_video ms2)
      in (attach, if attach then video_source ms2 source1 else source1))"

text \<open>A new conference object with its own new identifier, registered with the account.\<close>

definition joinParticipant ::
  "('q, 's) mgr_env \<Rightarrow> string \<Rightarrow> string \<Rightarrow> string \<Rightarrow> string \<Rightarrow> string \<Rightarrow> bool \<Rightarrow> bool \<Rightarrow> ('s, 'q, 'r) mgr \<Rightarrow>
     bool \<times> ('s, 'q, 'r) mgr" where
  "joinParticipant E cid accountId callId1 account2Id callId2 attached mutePlayback M =
     (if me_accounts E accountId = None \<or> me_accounts E account2Id = None \<or> callId1 = callId2 then (False, M)
      else
        case (account_getCall E accountId callId1 M, account_getCall E account2Id callId2 M) of
          (Some c1, Some c2) \<Rightarrow>
            let (attachLocalVideo, source) = conference_video (cp_media (mc_peer c1)) (cp_media (mc_peer c2));
                M1 = M\<lparr>m_confs := smap_set cid (accountId, Conference_new cid) (m_confs M)\<rparr>;
                M2 = (if mutePlayback then run_conf E cid (\<lambda>_. muteLocalPlayback True) M1 else M1);
                M3 = mgr_emit (ConferenceCreated accountId cid) (M2\<lparr>m_attached := cid # m_attached M2\<rparr>);
                M4 = mgr_bindCallToConference E [cid] callId2 cid (mgr_bindCallToConference E [cid] callId1 cid M3);
                M5 = (if attached
                      then run_conf E cid (\<lambda>_. conf_setState ACTIVE_ATTACHED) (switchCall cid
                             (run_conf E cid (\<lambda>E w. attachLocalParticipant E (setLocalHostDefaultMediaSource E attachLocalVideo source w)) M4))
                      else run_conf E cid detachLocalParticipant M4)
            in (True, release_conf E [] cid (conf_changed cid M5))
        | _ \<Rightarrow> (False, M))"

text \<open>One turn of the loop that calls the participants; it counts the calls that were made.\<close>

definition call_participant ::
  "('q, 's) mgr_env \<Rightarrow> string \<Rightarrow> nat \<times> ('s, 'q, 'r) mgr \<Rightarrow> (string \<times> mgr_call) option \<Rightarrow> nat \<times> ('s, 'q, 'r) mgr" where
  "call_participant E cid nM new =
     (let (n, M) = nM; (i, M') = outgoingCall E new (unsetCurrentCall M)
      in if i = [] then (n, M') else (Suc n, run_conf E cid (\<lambda>E. addParticipant E i) M'))"

text \<open>
  A conference of new calls. It belongs to no account until two calls were created; calls enter it
  without being bound, and with fewer calls it is gone at the end.
\<close>

definition createConfFromParticipantList ::
  "('q, 's) mgr_env \<Rightarrow> string \<Rightarrow> string \<Rightarrow> (string \<times> mgr_call) option list \<Rightarrow> ('s, 'q, 'r) mgr \<Rightarrow> ('s, 'q, 'r) mgr" where
  "createConfFromParticipantList E cid accountId newCalls M =
     (if me_accounts E accountId = None \<or> length newCalls \<le> 1 then M
      else
        let M1 = M\<lparr>m_confs := smap_set cid (accountId, Conference_new cid) (m_confs M)\<rparr>;
            (n, M2) = foldl (call_participant E cid) (0, M1) newCalls;
            M3 = (if 2 \<le> n then mgr_emit (ConferenceCreated accountId cid) (M2\<lparr>m_attached := cid # m_attached M2\<rparr>) else M2)
        in release_conf E [] cid M3)"

text \<open>Participants that belong to another account than the conference stay behind.\<close>

definition joinConference ::
  "('q, 's) mgr_env \<Rightarrow> string \<Rightarrow> string \<Rightarrow> string \<Rightarrow> string \<Rightarrow> ('s, 'q, 'r) mgr \<Rightarrow> bool \<times> ('s, 'q, 'r) mgr" where
  "joinConference E accountId cid1 account2Id cid2 M =
     (case (account_getConference E accountId cid1 M, account_getConference E account2Id cid2 M) of
        (Some cf, Some _) \<Rightarrow>
          let calls = filter (\<lambda>i. account_getCall E accountId i M \<noteq> None) (participants cf);
              M1 = foldl (\<lambda>M i. removeAudio E i (run_conf E cid1 (\<lambda>E. removeParticipant E i) M)) M calls;
              M2 = perform E cid1 RemoveConference M1;
              M3 = foldl (\<lambda>M i. add_participant E [cid1, cid2] i cid2 M) M2 calls
          in (True, release_conf E [] cid2 (release_conf E [cid2] cid1 M3))
      | _ \<Rightarrow> (False, M))"

section \<open>Messages\<close>

definition sendTextMessageToConference :: "conference \<Rightarrow> payloads \<Rightarrow> string \<Rightarrow> ('s, 'q, 'r) mgr \<Rightarrow> ('s, 'q, 'r) mgr" where
  "sendTextMessageToConference cf messages from M =
     foldl (\<lambda>M i. case smap_find (m_calls M) i of Some _ \<Rightarrow> mgr_emit (TextSent i messages from) M | None \<Rightarrow> M) M (participants cf)"

definition VCARD :: string where "VCARD = ''x-ring/ring.profile.vcard''"

definition incomingMessage ::
  "('q, 's) mgr_env \<Rightarrow> string \<Rightarrow> string \<Rightarrow> string \<Rightarrow> payloads \<Rightarrow> ('s, 'q, 'r) mgr \<Rightarrow> ('s, 'q, 'r) mgr" where
  "incomingMessage E accountId callId from messages M =
     (case account_getCall E accountId callId M of
        None \<Rightarrow> M
      | Some c \<Rightarrow>
          if isConferenceParticipant c
          then (case call_getConference c M of
                  None \<Rightarrow> M
                | Some cid \<Rightarrow>
                    (case smap_find (m_confs M) cid of
                       None \<Rightarrow> M
                     | Some (_, cf) \<Rightarrow>
                         let M1 = (if list_ex (\<lambda>(k, _). find_sub VCARD k 0 \<noteq> None) messages then M
                                   else sendTextMessageToConference cf messages from M)
                         in mgr_emit (MessageShown accountId cid from messages) M1))
          else mgr_emit (MessageShown accountId callId from messages) M)"

definition sendCallTextMessage ::
  "('q, 's) mgr_env \<Rightarrow> string \<Rightarrow> string \<Rightarrow> payloads \<Rightarrow> string \<Rightarrow> ('s, 'q, 'r) mgr \<Rightarrow> ('s, 'q, 'r) mgr" where
  "sendCallTextMessage E accountId i messages from M =
     (case account_getConference E accountId i M of
        Some cf \<Rightarrow> sendTextMessageToConference cf messages from M
      | None \<Rightarrow>
          (case account_getCall E accountId i M of
             None \<Rightarrow> M
           | Some c \<Rightarrow>
               if isConferenceParticipant c
               then (case call_getConference c M of
                       None \<Rightarrow> M
                     | Some cid \<Rightarrow>
                         (case smap_find (m_confs M) cid of Some (_, cf) \<Rightarrow> sendTextMessageToConference cf messages from M | None \<Rightarrow> M))
               else mgr_emit (TextSent i messages from) M))"

section \<open>What the SIP layer reports\<close>

definition onCallEarlyMedia :: "('q, 's) mgr_env \<Rightarrow> string \<Rightarrow> ('s, 'q, 'r) mgr \<Rightarrow> ('s, 'q, 'r) mgr" where
  "onCallEarlyMedia E callId M =
     (case smap_find (m_calls M) callId of
        None \<Rightarrow> M
      | Some c \<Rightarrow>
          let M1 = tone_stop E (upd_call callId (\<lambda>c. c\<lparr>mc_audioGuard := True\<rparr>) (take_stream PLAYBACK M));
              M2 = (if has_driver M1 then on_ring (upd_devices driver_flushUrgent) M1 else M1)
          in drop_stream E PLAYBACK (mc_audioGuard c) M2)"

definition peerAnsweredCall :: "('q, 's) mgr_env \<Rightarrow> string \<Rightarrow> ('s, 'q, 'r) mgr \<Rightarrow> ('s, 'q, 'r) mgr" where
  "peerAnsweredCall E callId M =
     (let M1 = addAudio E callId (tone_stop E M);
          M2 = (if has_driver M1 then on_ring (upd_devices driver_flushUrgent) (on_pool flushAllBuffers M1) else M1)
      in always_record E callId M2)"

definition peerRingingCall :: "('q, 's) mgr_env \<Rightarrow> ('s, 'q, 'r) mgr \<Rightarrow> ('s, 'q, 'r) mgr" where
  "peerRingingCall E = on_ring (ringback (me_ring E))"

definition stop_tone_if_idle :: "('q, 's) mgr_env \<Rightarrow> ('s, 'q, 'r) mgr \<Rightarrow> ('s, 'q, 'r) mgr" where
  "stop_tone_if_idle E M = (if \<not> incomingCallsWaiting M then tone_stop E M else M)"

definition peerHungupCall :: "('q, 's) mgr_env \<Rightarrow> string \<Rightarrow> ('s, 'q, 'r) mgr \<Rightarrow> ('s, 'q, 'r) mgr" where
  "peerHungupCall E callId M =
     (case smap_find (m_calls M) callId of
        None \<Rightarrow> M
      | Some c \<Rightarrow>
          let M1 = clear_pending callId M;
              M2 = (if isConferenceParticipant c then mgr_removeParticipant E [] callId M1
                    else if isCurrentCall callId M1 then unsetCurrentCall (tone_stop E M1) else M1);
              M3 = removeWaitingCall callId (sip_peerHungup E callId M2)
          in removeAudio E callId (stop_tone_if_idle E M3))"

definition callBusy :: "('q, 's) mgr_env \<Rightarrow> string \<Rightarrow> ('s, 'q, 'r) mgr \<Rightarrow> ('s, 'q, 'r) mgr" where
  "callBusy E callId M =
     (let M1 = clear_pending callId M;
          M2 = (if isCurrentCall callId M1 then unsetCurrentCall M1 else M1)
      in stop_tone_if_idle E (removeWaitingCall callId M2))"

definition callFailure :: "('q, 's) mgr_env \<Rightarrow> string \<Rightarrow> ('s, 'q, 'r) mgr \<Rightarrow> ('s, 'q, 'r) mgr" where
  "callFailure E callId M =
     (case smap_find (m_calls M) callId of
        None \<Rightarrow> M
      | Some c \<Rightarrow>
          let M1 = clear_pending callId M;
              M2 = (if isCurrentCall callId M1 then unsetCurrentCall M1 else M1);
              M3 = (if isConferenceParticipant c then mgr_removeParticipant E [] callId M2 else M2)
          in removeAudio E callId (stop_tone_if_idle E (removeWaitingCall callId M3)))"

section \<open>Incoming calls\<close>

definition stripSipPrefix :: "string \<Rightarrow> string" where
  "stripSipPrefix n = (case find_sub ''sip:'' n 0 of Some i \<Rightarrow> drop (i + 4) n | None \<Rightarrow> n)"

text \<open>Whether a second call from the same peer replaces the current one: the audio-only call, else by name.\<close>

definition answers_instead :: "conf_account \<Rightarrow> mgr_call \<Rightarrow> mgr_call \<Rightarrow> bool" where
  "answers_instead account current incoming =
     (let name = ca_username account;
          uid = (if take 5 name = ''ring:'' then drop 5 name else name)
      in if mc_audioOnly current \<noteq> mc_audioOnly incoming then mc_audioOnly incoming
         else uid < peerNumber (mc_call incoming))"

definition rings_by_itself :: "conf_account \<Rightarrow> mgr_call \<Rightarrow> bool" where
  "rings_by_itself account c \<longleftrightarrow>
     \<not> ca_rendezVous account \<and> find_sub ''__callback'' (peerNumber (mc_call c)) 0 = None \<and>
     find_sub ''_supervise'' (peerNumber (mc_call c)) 0 = None"

text \<open>A call with the header waits for its ringtone before the client hears of it.\<close>

definition register_alert :: "('q, 's) mgr_env \<Rightarrow> bool \<Rightarrow> string \<Rightarrow> string \<Rightarrow> string \<Rightarrow> ('s, 'q, 'r) mgr \<Rightarrow> ('s, 'q, 'r) mgr" where
  "register_alert E hasAlertInfo a accountId callId M =
     (case re_account (me_ring E) a of
        Some ra \<Rightarrow> if hasAlertInfo then on_ring (await_ringtone (me_ring E) ra accountId callId) M else M
      | None \<Rightarrow> M)"

definition ring_incoming ::
  "('q, 's) mgr_env \<Rightarrow> conf_account \<Rightarrow> bool \<Rightarrow> mgr_call \<Rightarrow> string \<Rightarrow> string \<Rightarrow> ('s, 'q, 'r) mgr \<Rightarrow> ('s, 'q, 'r) mgr" where
  "ring_incoming E account hasAlertInfo c accountId callId M =
     (if hasCurrentCall M then M
      else
        let M1 = on_call callId (\<lambda>k. snd (setState_cnx (me_clock E) RINGING 0 k)) M
        in if rings_by_itself account c \<and> \<not> hasAlertInfo then on_ring (playRingtone (me_ring E) accountId) M1 else M1)"

text \<open>The same peer calls again while its call is the current one.\<close>

definition replace_current ::
  "conf_account \<Rightarrow> string \<Rightarrow> mgr_call \<Rightarrow> string \<Rightarrow> string \<Rightarrow> mgr_call \<Rightarrow> ('s, 'q, 'r) mgr \<Rightarrow> ('s, 'q, 'r) mgr" where
  "replace_current account a k currentId callId c M =
     (if currentId \<noteq> callId \<and> call_account (mc_call k) = Some a \<and>
         peerNumber (mc_call k) = peerNumber (mc_call c) \<and> answers_instead account k c
      then mgr_emit (AnswerAndReplace (getAccountId (mc_call k)) currentId callId) M
      else M)"

definition in_conference :: "mgr_call option \<Rightarrow> bool" where
  "in_conference k \<longleftrightarrow> (case k of Some k \<Rightarrow> isConferenceParticipant k \<or> mc_remoteConference k | None \<Rightarrow> False)"

definition processIncomingCall ::
  "('q, 's) mgr_env \<Rightarrow> string \<Rightarrow> string \<Rightarrow> (string, string) smap \<Rightarrow> ('s, 'q, 'r) mgr \<Rightarrow> ('s, 'q, 'r) mgr" where
  "processIncomingCall E accountId callId headers M =
     (let M1 = tone_stop E M; current = getCurrentCall M1 in
      case smap_find (m_calls M1) callId of
        None \<Rightarrow> M1
      | Some c \<Rightarrow>
          if in_conference current
          then let (gone, M2) = sip_refuse E callId M1 in if gone then drop_call E callId M2 else M2
          else
            case Option.bind (call_account (mc_call c)) (\<lambda>a. map_option (Pair a) (me_accounts E a)) of
              None \<Rightarrow> M1
            | Some (a, account) \<Rightarrow>
                let hasAlertInfo = (findHeaderCaseInsensitive headers ALERT_INFO \<noteq> []);
                    M2 = mgr_emit (CallShown accountId callId) (register_alert E hasAlertInfo a accountId callId M1);
                    M3 = addWaitingCall callId (ring_incoming E account hasAlertInfo c accountId callId M2)
                in case current of
                     Some k \<Rightarrow> replace_current account a k (currentCall M1) callId c M3
                   | None \<Rightarrow> M3)"

definition incomingCall ::
  "('q, 's) mgr_env \<Rightarrow> string \<Rightarrow> string \<Rightarrow> (string, string) smap \<Rightarrow> ('s, 'q, 'r) mgr \<Rightarrow> ('s, 'q, 'r) mgr" where
  "incomingCall E accountId callId headers M =
     (let M1 = (if accountId \<noteq> []
                then upd_call callId (\<lambda>c. c\<lparr>mc_call := (mc_call c)\<lparr>peerNumber := stripSipPrefix (peerNumber (mc_call c))\<rparr>\<rparr>) M
                else M)
      in if me_accounts E accountId = None then M1 else processIncomingCall E accountId callId headers M1)"

section \<open>Runs\<close>

datatype mgr_op =
    NewCall string mgr_call
  | OutgoingCall "(string \<times> mgr_call) option"
  | IncomingCall string string "(string, string) smap"
  | AnswerCallOp string string "media_map list"
  | HangupCallOp string string
  | HangupConference string string
  | OnHold string
  | OffHold string
  | Transfer string string string
  | Refuse string string
  | HoldConference string string
  | UnHoldConference string string
  | AddParticipant string string string string
  | AddMainParticipant string string
  | JoinParticipant string string string string string bool bool
  | CreateConf string string "(string \<times> mgr_call) option list"
  | DetachLocalParticipant string
  | DetachParticipant string
  | JoinConference string string string string
  | IncomingMessageOp string string string payloads
  | SendCallTextMessage string string payloads string
  | EarlyMedia string
  | PeerAnsweredCall string
  | PeerRingingCall
  | PeerHungup string
  | CallBusyOp string
  | CallFailure string
  | CallGone string
  | Tone ring_op
  | TimerTake int
  | NewDriver bool

definition mgr_newDriver :: "bool \<Rightarrow> ('s, 'q, 'r) mgr \<Rightarrow> ('s, 'q, 'r) mgr" where
  "mgr_newDriver created M = (on_ring (upd_devices (initAudioDriver created)) M)\<lparr>incomingBeep := False\<rparr>"

fun mgr_exec :: "('q, 's) mgr_env \<Rightarrow> mgr_op \<Rightarrow> ('s, 'q, 'r) mgr \<Rightarrow> ('s, 'q, 'r) mgr" where
  "mgr_exec E (NewCall i c) M = M\<lparr>m_calls := smap_set i c (m_calls M)\<rparr>"
| "mgr_exec E (OutgoingCall new) M = snd (outgoingCall E new M)"
| "mgr_exec E (IncomingCall a i headers) M = incomingCall E a i headers M"
| "mgr_exec E (AnswerCallOp a i ms) M = snd (Manager_answerCall E a i ms M)"
| "mgr_exec E (HangupCallOp a i) M = snd (Manager_hangupCall E [] a i M)"
| "mgr_exec E (HangupConference a cid) M = snd (Manager_hangupConference E a cid M)"
| "mgr_exec E (OnHold i) M = snd (onHoldCall E i M)"
| "mgr_exec E (OffHold i) M = snd (offHoldCall E i M)"
| "mgr_exec E (Transfer a i to) M = snd (transferCall E a i to M)"
| "mgr_exec E (Refuse a i) M = snd (refuseCall E a i M)"
| "mgr_exec E (HoldConference a cid) M = snd (holdConference E a cid M)"
| "mgr_exec E (UnHoldConference a cid) M = snd (unHoldConference E a cid M)"
| "mgr_exec E (AddParticipant a i a2 cid) M = snd (Manager_addParticipant E a i a2 cid M)"
| "mgr_exec E (AddMainParticipant a cid) M = snd (Manager_addMainParticipant E a cid M)"
| "mgr_exec E (JoinParticipant cid a1 i1 a2 i2 attached mute) M = snd (joinParticipant E cid a1 i1 a2 i2 attached mute M)"
| "mgr_exec E (CreateConf cid a news) M = createConfFromParticipantList E cid a news M"
| "mgr_exec E (DetachLocalParticipant cid) M = Manager_detachLocalParticipant E cid M"
| "mgr_exec E (DetachParticipant i) M = snd (detachParticipant E [] i M)"
| "mgr_exec E (JoinConference a1 c1 a2 c2) M = snd (joinConference E a1 c1 a2 c2 M)"
| "mgr_exec E (IncomingMessageOp a i from ms) M = incomingMessage E a i from ms M"
| "mgr_exec E (SendCallTextMessage a i ms from) M = sendCallTextMessage E a i ms from M"
| "mgr_exec E (EarlyMedia i) M = onCallEarlyMedia E i M"
| "mgr_exec E (PeerAnsweredCall i) M = peerAnsweredCall E i M"
| "mgr_exec E PeerRingingCall M = peerRingingCall E M"
| "mgr_exec E (PeerHungup i) M = peerHungupCall E i M"
| "mgr_exec E (CallBusyOp i) M = callBusy E i M"
| "mgr_exec E (CallFailure i) M = callFailure E i M"
| "mgr_exec E (CallGone i) M = drop_call E i M"
| "mgr_exec E (Tone op) M = on_ring (ring_exec (me_ring E) op) M"
| "mgr_exec E (TimerTake now) M = on_ring (upd_devices (\<lambda>d. d\<lparr>scheduler := loop_take now (scheduler d)\<rparr>)) M"
| "mgr_exec E (NewDriver created) M = mgr_newDriver created M"

text \<open>New calls and conferences have new identifiers, no guards and no conference.\<close>

definition new_call_ok :: "('s, 'q, 'r) mgr \<Rightarrow> string \<times> mgr_call \<Rightarrow> bool" where
  "new_call_ok M = (\<lambda>(i, c).
     i \<noteq> [] \<and> smap_find (m_calls M) i = None \<and> list_all (\<lambda>(_, _, cf). i \<notin> set (participants cf)) (m_confs M) \<and>
     call_conf (mc_call c) = None \<and> \<not> mc_audioGuard c \<and> \<not> mc_captureGuard c)"

fun mgr_op_ok :: "('s, 'q, 'r) mgr \<Rightarrow> mgr_op \<Rightarrow> bool" where
  "mgr_op_ok M (NewCall i c) \<longleftrightarrow> new_call_ok M (i, c)"
| "mgr_op_ok M (OutgoingCall new) \<longleftrightarrow> pred_option (new_call_ok M) new"
| "mgr_op_ok M (JoinParticipant cid _ _ _ _ _ _) \<longleftrightarrow> smap_find (m_confs M) cid = None"
| "mgr_op_ok M (CreateConf cid _ news) \<longleftrightarrow>
     smap_find (m_confs M) cid = None \<and> list_all (pred_option (new_call_ok M)) news \<and>
     distinct (List.map_filter (map_option fst) news)"
| "mgr_op_ok M (Tone op) \<longleftrightarrow> op \<noteq> StopRecordedFilePlayback"
| "mgr_op_ok M (NewDriver _) \<longleftrightarrow> (\<forall>ty. audioStreamStopTask (devices (m_ring M)) ty = None)"
| "mgr_op_ok M _ \<longleftrightarrow> True"

fun mgr_op_size :: "mgr_op \<Rightarrow> nat" where
  "mgr_op_size (CreateConf _ _ news) = length news"
| "mgr_op_size _ = 1"

inductive mgr_step :: "('s, 'q, 'r) mgr \<Rightarrow> ('s, 'q, 'r) mgr \<Rightarrow> bool" where
  "mgr_op_ok M op \<Longrightarrow> length (m_calls M) + mgr_op_size op + 4 < 2 ^ 32 \<Longrightarrow> mgr_step M (mgr_exec E op M)"

definition mgr_new :: "('s, 'q, 'r) pool \<Rightarrow> ('s, 'q, 'r) mgr" where
  "mgr_new p =
     \<lparr>m_calls = [], m_confs = [], m_attached = [], m_pool = p, currentCall = [], waitingCalls = [], incomingBeep = False,
      m_ring = ringing_new audio_devices_new, m_log = []\<rparr>"

section \<open>The calls that exist\<close>

text \<open>The state machine of a call touches neither its conference nor its account.\<close>

lemma setState_same [simp]:
  "call_conf (fst (snd (setState now cs cnx code c))) = call_conf c" "call_account (fst (snd (setState now cs cnx code c))) = call_account c"
proof -
  obtain ok d ev where s: "setState now cs cnx code c = (ok, d, ev)" by (cases "setState now cs cnx code c")
  then have "call_conf d = call_conf c \<and> call_account d = call_account c"
    by (cases rule: setState_cases) (auto dest: run_listeners_same simp: same_call_def)
  with s show "call_conf (fst (snd (setState now cs cnx code c))) = call_conf c"
    "call_account (fst (snd (setState now cs cnx code c))) = call_account c" by simp_all
qed

lemma call_ops_same [simp]:
  "call_conf (fst (snd (setState_call now cs code c))) = call_conf c" "call_conf (fst (snd (setState_cnx now cnx code c))) = call_conf c"
  "call_conf (fst (peerHungup now c)) = call_conf c" "call_conf (fst (removeCall now c)) = call_conf c"
  "call_account (fst (snd (setState_call now cs code c))) = call_account c"
  by (simp_all add: setState_call_def setState_cnx_def peerHungup_def removeCall_def case_prod_beta Let_def)

definition call_ids :: "('s, 'q, 'r) mgr \<Rightarrow> string set" where
  "call_ids M = dom (smap_find (m_calls M))"

lemma call_ids_basic [simp]:
  "call_ids (mgr_emit e M) = call_ids M" "call_ids (on_pool f M) = call_ids M" "call_ids (on_ring g M) = call_ids M"
  "call_ids (switchCall i M) = call_ids M" "call_ids (unsetCurrentCall M) = call_ids M"
  "call_ids (addWaitingCall i M) = call_ids M" "call_ids (removeWaitingCall i M) = call_ids M"
  "call_ids (take_stream ty M) = call_ids M" "call_ids (drop_stream E ty b M) = call_ids M"
  "call_ids (tone_stop E M) = call_ids M" "call_ids (clear_pending i M) = call_ids M"
  "call_ids (always_record E i M) = call_ids M" "call_ids (switch_to_call i M) = call_ids M"
  "call_ids (M\<lparr>m_confs := cfs\<rparr>) = call_ids M" "call_ids (M\<lparr>m_confs := cfs, m_pool := p\<rparr>) = call_ids M"
  "call_ids (M\<lparr>m_attached := ids\<rparr>) = call_ids M"
  by (simp_all add: call_ids_def mgr_emit_def on_pool_def on_ring_def switchCall_def unsetCurrentCall_def addWaitingCall_def
      removeWaitingCall_def take_stream_def drop_stream_def tone_stop_def clear_pending_def always_record_def switch_to_call_def Let_def
      split: option.split)

lemma call_ids_calls [simp]:
  "call_ids (upd_call i f M) = call_ids M" "call_ids (on_call i g M) = call_ids M"
  by (auto simp: call_ids_def upd_call_def on_call_def mgr_emit_def split: option.split prod.split if_splits)

lemma call_ids_audio [simp]: "call_ids (addAudio E i M) = call_ids M" "call_ids (removeAudio E i M) = call_ids M"
  by (simp_all add: addAudio_def removeAudio_def Let_def split: option.split)

lemma call_ids_hold [simp]:
  "call_ids (snd (set_callState E i cs M)) = call_ids M" "call_ids (snd (sip_hold E i M)) = call_ids M"
  "call_ids (snd (sip_offhold E i M)) = call_ids M" "call_ids (snd (sip_answer E i ms M)) = call_ids M"
proof -
  show s: "call_ids (snd (set_callState E i cs M)) = call_ids M" for cs and M :: "('a, 'b, 'c) mgr"
    by (simp add: set_callState_def split: option.split)
  show h: "call_ids (snd (sip_hold E i M)) = call_ids M" for M :: "('a, 'b, 'c) mgr"
    by (simp add: sip_hold_def Let_def case_prod_beta s split: option.split)
  show "call_ids (snd (sip_offhold E i M)) = call_ids M" "call_ids (snd (sip_answer E i ms M)) = call_ids M"
    by (simp_all add: sip_offhold_def sip_answer_def Let_def case_prod_beta s h split: option.split answer_outcome.split)
qed

lemma call_ids_commands [simp]:
  "call_ids (sip_enterConference cid i M) = call_ids M" "call_ids (sip_exitConference i M) = call_ids M"
  "call_ids (snd (answerCall E i ms M)) = call_ids M" "call_ids (snd (onHoldCall E i M)) = call_ids M"
  "call_ids (snd (offHoldCall E i M)) = call_ids M"
  by (simp_all add: sip_enterConference_def sip_exitConference_def answerCall_def onHoldCall_def offHoldCall_def Let_def case_prod_beta
      split: option.split)

lemma call_ids_perform [simp]: "call_ids (perform E cid e M) = call_ids M"
  by (cases "(E, cid, e, M)" rule: perform.cases) simp_all

lemma call_ids_run_conf [simp]: "call_ids (run_conf E cid f M) = call_ids M"
  by (simp add: run_conf_def Let_def foldl_keeps split: option.split prod.split)

lemma length_calls: "smap_wf (m_calls M) \<Longrightarrow> length (m_calls M) = card (call_ids M)"
  using distinct_card [of "map fst (m_calls M)"] by (simp add: call_ids_def dom_map_of_conv_image_fst smap_wf_def strict_sorted_iff)

end
