(* ===== verification/Manager_Sound.thy ===== *)
theory Manager_Sound
  imports Manager_Calls
begin

text \<open>
  The sound of calls: which guards of the device the calls hold, over any run of the manager's
  operations. Guards are neither lost nor kept too long, so a call that was given sound has
  running streams, and the device falls silent when the last call is gone.
\<close>

section \<open>Counting guards\<close>

definition count_calls :: "(mgr_call \<Rightarrow> bool) \<Rightarrow> (string, mgr_call) smap \<Rightarrow> nat" where
  "count_calls P cs = length (filter (\<lambda>(_, c). P c) cs)"

definition call_guards :: "(string, mgr_call) smap \<Rightarrow> audio_device_type \<Rightarrow> nat" where
  "call_guards cs ty =
     (case ty of PLAYBACK \<Rightarrow> count_calls mc_audioGuard cs | CAPTURE \<Rightarrow> count_calls mc_captureGuard cs | _ \<Rightarrow> 0)"

lemma count_calls_new:
  "smap_find cs i = None \<Longrightarrow> count_calls P (smap_set i c cs) = count_calls P cs + of_bool (P c)"
  by (induction i c cs rule: smap_set.induct) (auto simp: count_calls_def)

lemma count_calls_set:
  "smap_wf cs \<Longrightarrow> smap_find cs i = Some c \<Longrightarrow> count_calls P (smap_set i c' cs) + of_bool (P c) = count_calls P cs + of_bool (P c')"
proof (induction cs)
  case (Cons e cs)
  obtain a b where e: "e = (a, b)" by (cases e)
  with Cons.prems have "smap_wf cs" and lt: "\<forall>(k, _) \<in> set cs. a < k" by (auto simp: smap_wf_def)
  with Cons e show ?case by (fastforce simp: count_calls_def dest: map_of_SomeD split: if_splits)
qed simp

lemma count_calls_erase:
  "smap_wf cs \<Longrightarrow> smap_find cs i = Some c \<Longrightarrow> count_calls P (smap_erase i cs) + of_bool (P c) = count_calls P cs"
proof (induction cs)
  case (Cons e cs)
  obtain a b where e: "e = (a, b)" by (cases e)
  with Cons.prems have wf: "smap_wf cs" and lt: "\<forall>(k, _) \<in> set cs. a < k" by (auto simp: smap_wf_def)
  show ?case
  proof (cases "i = a")
    case True
    with lt have "smap_erase i cs = cs" by (auto simp: smap_erase_def filter_id_conv)
    with True e Cons.prems show ?thesis by (simp add: count_calls_def smap_erase_def)
  next
    case False
    with Cons wf e show ?thesis by (auto simp: count_calls_def smap_erase_def)
  qed
qed simp

lemma count_calls_le: "count_calls P cs \<le> length cs"
  by (simp add: count_calls_def)

lemma call_guards_le: "call_guards cs ty \<le> length cs"
  by (cases ty) (simp_all add: call_guards_def count_calls_le)

lemma length_smap_set_old:
  fixes cs :: "(string, mgr_call) smap"
  shows "smap_wf cs \<Longrightarrow> smap_find cs i = Some c \<Longrightarrow> length (smap_set i c' cs) = length cs"
  using count_calls_set [of cs i c "\<lambda>_. True" c'] by (simp add: count_calls_def case_prod_unfold)

lemma length_smap_erase_le: "length (smap_erase i cs) \<le> length cs"
  by (simp add: smap_erase_def)

section \<open>Invariant\<close>

definition sound_inv :: "nat \<Rightarrow> ('s, 'q, 'r) mgr \<Rightarrow> bool" where
  "sound_inv N M \<longleftrightarrow> N + 4 < 2 ^ 32 \<and> length (m_calls M) \<le> N \<and> smap_wf (m_calls M) \<and> tone_inv (call_guards (m_calls M)) (m_ring M)"

lemma few_call_guards: "N + 4 < 2 ^ 32 \<Longrightarrow> length cs \<le> N \<Longrightarrow> few_guards (call_guards cs)"
  unfolding few_guards_def
proof
  fix ty
  assume "N + 4 < 2 ^ 32" "length cs \<le> N"
  with call_guards_le [of cs ty] show "call_guards cs ty + 2 < 2 ^ 32" by linarith
qed

lemma sound_inv_few: "sound_inv N M \<Longrightarrow> few_guards (call_guards (m_calls M))"
  by (auto simp: sound_inv_def intro: few_call_guards)

text \<open>Operations that touch neither the calls nor the device.\<close>

lemma sound_inv_neutral [simp]:
  "sound_inv N (mgr_emit e M) = sound_inv N M" "sound_inv N (on_pool f M) = sound_inv N M"
  "sound_inv N (switchCall i M) = sound_inv N M" "sound_inv N (unsetCurrentCall M) = sound_inv N M"
  "sound_inv N (addWaitingCall i M) = sound_inv N M" "sound_inv N (removeWaitingCall i M) = sound_inv N M"
  "sound_inv N (M\<lparr>m_confs := cfs, m_pool := p\<rparr>) = sound_inv N M" "sound_inv N (M\<lparr>m_confs := cfs\<rparr>) = sound_inv N M"
  "sound_inv N (M\<lparr>m_attached := ids\<rparr>) = sound_inv N M" "sound_inv N (M\<lparr>incomingBeep := b\<rparr>) = sound_inv N M"
  "sound_inv N (conf_changed cid M) = sound_inv N M" "sound_inv N (always_record E i M) = sound_inv N M"
  "sound_inv N (switch_to_call i M) = sound_inv N M"
  by (auto simp: sound_inv_def mgr_emit_def on_pool_def switchCall_def unsetCurrentCall_def addWaitingCall_def removeWaitingCall_def
      conf_changed_def always_record_def switch_to_call_def Let_def split: option.splits)

text \<open>Operations on the tone.\<close>

lemma sound_inv_ring:
  assumes "sound_inv N M" and "tone_inv (call_guards (m_calls M)) (f (m_ring M))"
  shows "sound_inv N (on_ring f M)"
  using assms by (simp add: sound_inv_def on_ring_def)

lemma sound_inv_tones:
  assumes "sound_inv N M"
  shows "sound_inv N (tone_stop E M)" "sound_inv N (clear_pending i M)" "sound_inv N (peerRingingCall E M)"
    "sound_inv N (on_ring (playRingtone R a) M)" "sound_inv N (on_ring (await_ringtone R ra a i) M)"
    "sound_inv N (on_ring (upd_devices driver_flushUrgent) M)"
proof -
  note few = sound_inv_few [OF assms]
  have t: "tone_inv (call_guards (m_calls M)) (m_ring M)" using assms by (simp add: sound_inv_def)
  note ring = sound_inv_ring [OF assms]
  show "sound_inv N (tone_stop E M)" unfolding tone_stop_def by (rule ring, rule stopTone_inv [OF t])
  show "sound_inv N (clear_pending i M)" unfolding clear_pending_def by (rule ring, rule clearPending_inv [OF t])
  show "sound_inv N (peerRingingCall E M)"
    unfolding peerRingingCall_def ringback_def by (rule ring, rule playATone_inv [OF t few])
  show "sound_inv N (on_ring (playRingtone R a) M)" by (rule ring, rule playRingtone_inv [OF t few])
  show "sound_inv N (on_ring (await_ringtone R ra a i) M)" by (rule ring, rule await_inv [OF t])
  show "sound_inv N (on_ring (upd_devices driver_flushUrgent) M)"
    unfolding upd_devices_def by (rule ring, rule tone_inv_device [OF t device_step.flush])
qed

text \<open>Changes of a call that leave its guards alone.\<close>

lemma call_guards_same:
  assumes "smap_wf cs" and "smap_find cs i = Some c" and "mc_audioGuard c' = mc_audioGuard c" and "mc_captureGuard c' = mc_captureGuard c"
  shows "call_guards (smap_set i c' cs) = call_guards cs"
proof
  fix ty show "call_guards (smap_set i c' cs) ty = call_guards cs ty"
    using assms count_calls_set [OF assms(1,2), of mc_audioGuard c'] count_calls_set [OF assms(1,2), of mc_captureGuard c']
    by (cases ty) (simp_all add: call_guards_def)
qed

lemma sound_inv_upd_call:
  assumes "sound_inv N M" and "\<And>c. mc_audioGuard (f c) = mc_audioGuard c" and "\<And>c. mc_captureGuard (f c) = mc_captureGuard c"
  shows "sound_inv N (upd_call i f M)"
  using assms by (auto simp: upd_call_def sound_inv_def call_guards_same length_smap_set_old split: option.splits)

lemma sound_inv_on_call: "sound_inv N M \<Longrightarrow> sound_inv N (on_call i f M)"
  by (auto simp: on_call_def sound_inv_def mgr_emit_def call_guards_same length_smap_set_old split: option.splits prod.splits)

section \<open>Giving and taking sound\<close>

lemma tone_inv_take:
  assumes "tone_inv o' r" and "ty \<noteq> ALL_DEVICES" and "few_guards (o'(ty := Suc (o' ty)))"
  shows "tone_inv (o'(ty := Suc (o' ty))) (upd_devices (startAudioStream ty) r)"
proof -
  have "AudioDeviceGuard_new ty (devices r) = Inr (startAudioStream ty (devices r))"
    using assms(2) by (simp add: AudioDeviceGuard_new_def)
  from tone_inv_step [OF ring_world_step.other_acquire [OF this assms(3)]] assms(1) show ?thesis by (simp add: upd_devices_def)
qed

lemma tone_inv_drop:
  assumes "tone_inv o' r" and "o' ty = Suc n"
  shows "tone_inv (o'(ty := n)) (upd_devices (AudioDeviceGuard_delete now ty) r)"
  using tone_inv_step [OF ring_world_step.other_release [where o' = o', OF assms(2)]] assms(1) by simp

lemma tone_inv_drop_if:
  assumes "tone_inv o' r" and "o' ty = n + of_bool held"
  shows "tone_inv (o'(ty := n)) (if held then upd_devices (AudioDeviceGuard_delete now ty) r else r)"
  using assms tone_inv_drop [of o' r ty n now] by (cases held) (auto simp: fun_upd_idem)

lemma m_ring_simps [simp]:
  "m_ring (upd_call i f M) = m_ring M" "m_ring (on_pool g M) = m_ring M" "m_ring (on_ring h M) = h (m_ring M)"
  "m_calls (unsetCurrentCall M) = m_calls M" "m_calls (on_pool g M) = m_calls M" "m_calls (on_ring h M) = m_calls M" "m_calls (take_stream ty M) = m_calls M"
  "m_calls (drop_stream E ty held M) = m_calls M" "m_ring (take_stream ty M) = upd_devices (startAudioStream ty) (m_ring M)"
  "m_ring (drop_stream E ty held M) = (if held then upd_devices (AudioDeviceGuard_delete (re_now (me_ring E)) ty) (m_ring M) else m_ring M)"
  by (simp_all add: unsetCurrentCall_def upd_call_def on_pool_def on_ring_def take_stream_def drop_stream_def split: option.splits)

lemma plain_simps [simp]:
  "m_calls (mgr_emit e M) = m_calls M" "m_calls (switchCall i M) = m_calls M" "m_calls (switch_to_call i M) = m_calls M"
  "m_calls (removeWaitingCall i M) = m_calls M" "m_calls (always_record E i M) = m_calls M"
  "m_ring (mgr_emit e M) = m_ring M" "m_ring (switchCall i M) = m_ring M" "m_ring (switch_to_call i M) = m_ring M"
  "m_ring (removeWaitingCall i M) = m_ring M" "m_ring (always_record E i M) = m_ring M"
  by (simp_all add: mgr_emit_def switchCall_def switch_to_call_def removeWaitingCall_def always_record_def Let_def split: option.split)

lemma m_calls_upd_call: "smap_find (m_calls M) i = Some c \<Longrightarrow> m_calls (upd_call i f M) = smap_set i (f c) (m_calls M)"
  by (simp add: upd_call_def)

lemma smap_set_twice: "smap_set i a (smap_set i b m) = smap_set i a m"
  by (induction i b m rule: smap_set.induct) auto

lemma tone_inv_flush_if:
  "tone_inv o' r \<Longrightarrow> tone_inv o' (if b then upd_devices driver_flushUrgent r else r)"
  using tone_inv_device [OF _ device_step.flush] by (simp add: upd_devices_def)

lemma few_guardsI: "(\<And>ty. o' ty \<le> N + 1) \<Longrightarrow> N + 4 < 2 ^ 32 \<Longrightarrow> few_guards o'"
  unfolding few_guards_def
proof
  fix ty assume "\<And>ty. o' ty \<le> N + 1" "N + 4 < 2 ^ 32"
  from this(1) [of ty] this(2) show "o' ty + 2 < 2 ^ 32" by linarith
qed

lemma addAudio_calls:
  assumes "smap_find (m_calls M) i = Some c" and "\<not> isConferenceParticipant c"
  shows "m_calls (addAudio E i M) = smap_set i (c\<lparr>mc_audioGuard := True, mc_captureGuard := True\<rparr>) (m_calls M)"
  using assms by (simp add: addAudio_def Let_def m_calls_upd_call smap_set_twice)

lemma addAudio_ring:
  assumes "smap_find (m_calls M) i = Some c" and "\<not> isConferenceParticipant c"
  shows "\<exists>b. m_ring (addAudio E i M) =
     (let r2 = upd_devices (startAudioStream CAPTURE) (upd_devices (startAudioStream PLAYBACK) (m_ring M));
          r3 = (if b then upd_devices driver_flushUrgent r2 else r2);
          r4 = (if mc_captureGuard c then upd_devices (AudioDeviceGuard_delete (re_now (me_ring E)) CAPTURE) r3 else r3)
      in if mc_audioGuard c then upd_devices (AudioDeviceGuard_delete (re_now (me_ring E)) PLAYBACK) r4 else r4)"
  using assms by (simp add: addAudio_def Let_def if_distrib [of m_ring] cong: if_cong) blast

lemma addAudio_inv:
  assumes inv: "sound_inv N M" shows "sound_inv N (addAudio E i M)"
proof (cases "smap_find (m_calls M) i")
  case None
  with inv show ?thesis by (simp add: addAudio_def)
next
  case (Some c)
  show ?thesis
  proof (cases "isConferenceParticipant c")
    case True
    with inv Some show ?thesis by (simp add: addAudio_def)
  next
    case False
    let ?o = "call_guards (m_calls M)"
    let ?cs = "smap_set i (c\<lparr>mc_audioGuard := True, mc_captureGuard := True\<rparr>) (m_calls M)"
    from inv have wf: "smap_wf (m_calls M)" and N: "N + 4 < 2 ^ 32" "length (m_calls M) \<le> N" and t: "tone_inv ?o (m_ring M)"
      by (simp_all add: sound_inv_def)
    have le: "?o ty \<le> N" for ty using call_guards_le N(2) by (rule le_trans)
    let ?o1 = "?o(PLAYBACK := Suc (?o PLAYBACK))"
    let ?o2 = "?o1(CAPTURE := Suc (?o1 CAPTURE))"
    have t1: "tone_inv ?o1 (upd_devices (startAudioStream PLAYBACK) (m_ring M))"
      using le by (intro tone_inv_take [OF t] few_guardsI [OF _ N(1)]) (simp_all add: le_SucI)
    have t2: "tone_inv ?o2 (upd_devices (startAudioStream CAPTURE) (upd_devices (startAudioStream PLAYBACK) (m_ring M)))"
      using le by (intro tone_inv_take [OF t1] few_guardsI [OF _ N(1)]) (simp_all add: le_SucI)
    have cap: "?o2 CAPTURE = call_guards ?cs CAPTURE + of_bool (mc_captureGuard c)"
      using count_calls_set [OF wf Some, of mc_captureGuard] by (simp add: call_guards_def)
    have pla: "?o2 PLAYBACK = call_guards ?cs PLAYBACK + of_bool (mc_audioGuard c)"
      using count_calls_set [OF wf Some, of mc_audioGuard] by (simp add: call_guards_def)
    have eq: "?o2(CAPTURE := call_guards ?cs CAPTURE, PLAYBACK := call_guards ?cs PLAYBACK) = call_guards ?cs"
    proof
      fix ty show "(?o2(CAPTURE := call_guards ?cs CAPTURE, PLAYBACK := call_guards ?cs PLAYBACK)) ty = call_guards ?cs ty"
        by (cases ty) (simp_all add: call_guards_def)
    qed
    let ?r2 = "upd_devices (startAudioStream CAPTURE) (upd_devices (startAudioStream PLAYBACK) (m_ring M))"
    let ?del = "\<lambda>ty. upd_devices (AudioDeviceGuard_delete (re_now (me_ring E)) ty)"
    obtain b where r: "m_ring (addAudio E i M) =
        (let r3 = (if b then upd_devices driver_flushUrgent ?r2 else ?r2); r4 = (if mc_captureGuard c then ?del CAPTURE r3 else r3)
         in if mc_audioGuard c then ?del PLAYBACK r4 else r4)"
      using addAudio_ring [OF Some False, of E] unfolding Let_def by blast
    have "tone_inv (?o2(CAPTURE := call_guards ?cs CAPTURE, PLAYBACK := call_guards ?cs PLAYBACK)) (m_ring (addAudio E i M))"
      unfolding r Let_def using pla by (intro tone_inv_drop_if tone_inv_flush_if t2 cap) simp
    then have "tone_inv (call_guards ?cs) (m_ring (addAudio E i M))" unfolding eq .
    moreover have "m_calls (addAudio E i M) = ?cs" by (rule addAudio_calls [OF Some False])
    ultimately show ?thesis using wf N Some by (simp add: sound_inv_def length_smap_set_old)
  qed
qed

lemma guards_dropped:
  assumes "smap_wf cs" and "smap_find cs i = Some c" and "tone_inv (call_guards cs) r"
    and "cs' = smap_erase i cs \<or> cs' = smap_set i (c\<lparr>mc_audioGuard := False, mc_captureGuard := False\<rparr>) cs"
    and "r1 = (if mc_audioGuard c then upd_devices (AudioDeviceGuard_delete now PLAYBACK) r else r)"
    and "r2 = (if mc_captureGuard c then upd_devices (AudioDeviceGuard_delete now CAPTURE) r1 else r1)"
  shows "tone_inv (call_guards cs') r2"
proof -
  let ?o = "call_guards cs"
  have pla: "?o PLAYBACK = call_guards cs' PLAYBACK + of_bool (mc_audioGuard c)"
    and cap: "?o CAPTURE = call_guards cs' CAPTURE + of_bool (mc_captureGuard c)"
    using assms(4) count_calls_erase [OF assms(1,2), of mc_audioGuard] count_calls_erase [OF assms(1,2), of mc_captureGuard]
      count_calls_set [OF assms(1,2), of mc_audioGuard "c\<lparr>mc_audioGuard := False, mc_captureGuard := False\<rparr>"]
      count_calls_set [OF assms(1,2), of mc_captureGuard "c\<lparr>mc_audioGuard := False, mc_captureGuard := False\<rparr>"]
    by (auto simp: call_guards_def)
  have eq: "?o(PLAYBACK := call_guards cs' PLAYBACK, CAPTURE := call_guards cs' CAPTURE) = call_guards cs'"
  proof
    fix ty show "(?o(PLAYBACK := call_guards cs' PLAYBACK, CAPTURE := call_guards cs' CAPTURE)) ty = call_guards cs' ty"
      by (cases ty) (simp_all add: call_guards_def)
  qed
  have "tone_inv (?o(PLAYBACK := call_guards cs' PLAYBACK, CAPTURE := call_guards cs' CAPTURE)) r2"
    unfolding assms(5,6) using cap by (intro tone_inv_drop_if assms(3) pla) simp
  then show ?thesis unfolding eq .
qed

lemma removeAudio_inv:
  assumes "sound_inv N M" shows "sound_inv N (removeAudio E i M)"
proof (cases "smap_find (m_calls M) i")
  case None
  with assms show ?thesis by (simp add: removeAudio_def)
next
  case (Some c)
  let ?cs = "smap_set i (c\<lparr>mc_audioGuard := False, mc_captureGuard := False\<rparr>) (m_calls M)"
  from assms have wf: "smap_wf (m_calls M)" and t: "tone_inv (call_guards (m_calls M)) (m_ring M)"
    by (simp_all add: sound_inv_def)
  have "tone_inv (call_guards ?cs) (m_ring (removeAudio E i M))"
    by (rule guards_dropped [OF wf Some t _ refl, where now = "re_now (me_ring E)"]) (use Some in \<open>simp_all add: removeAudio_def Let_def\<close>)
  moreover have "m_calls (removeAudio E i M) = ?cs"
    using Some by (simp add: removeAudio_def Let_def m_calls_upd_call smap_set_twice)
  ultimately show ?thesis using assms Some by (simp add: sound_inv_def length_smap_set_old)
qed

lemma drop_call_inv:
  assumes "sound_inv N M" shows "sound_inv N (drop_call E i M)"
proof (cases "smap_find (m_calls M) i")
  case None
  with assms show ?thesis by (simp add: drop_call_def)
next
  case (Some c)
  from assms have wf: "smap_wf (m_calls M)" and t: "tone_inv (call_guards (m_calls M)) (m_ring M)"
    by (simp_all add: sound_inv_def)
  have "tone_inv (call_guards (smap_erase i (m_calls M))) (m_ring (drop_call E i M))"
    by (rule guards_dropped [OF wf Some t _ refl, where now = "re_now (me_ring E)"]) (use Some in \<open>simp_all add: drop_call_def\<close>)
  moreover have "m_calls (drop_call E i M) = smap_erase i (m_calls M)" using Some by (simp add: drop_call_def)
  ultimately show ?thesis using assms length_smap_erase_le [of i "m_calls M"] by (simp add: sound_inv_def)
qed

section \<open>The operations\<close>

lemma set_callState_inv: "sound_inv N M \<Longrightarrow> sound_inv N (snd (set_callState E i cs M))"
  by (simp add: set_callState_def sound_inv_on_call split: option.split)

lemmas sound_basic = sound_inv_tones sound_inv_on_call addAudio_inv removeAudio_inv drop_call_inv sound_inv_upd_call

lemma sip_hold_inv: "sound_inv N M \<Longrightarrow> sound_inv N (snd (sip_hold E i M))"
  by (auto simp: sip_hold_def Let_def case_prod_beta intro!: sound_inv_upd_call set_callState_inv split: option.split)

lemma sip_offhold_inv: "sound_inv N M \<Longrightarrow> sound_inv N (snd (sip_offhold E i M))"
  by (auto simp: sip_offhold_def Let_def case_prod_beta intro!: sip_hold_inv sound_inv_upd_call set_callState_inv)

lemma sip_commands_inv:
  assumes "sound_inv N M"
  shows "sound_inv N (sip_hangup E i M)" "sound_inv N (snd (sip_refuse E i M))" "sound_inv N (sip_peerHungup E i M)"
    "sound_inv N (sip_enterConference cid i M)" "sound_inv N (sip_exitConference i M)"
  using assms
  by (auto simp: sip_hangup_def sip_refuse_def sip_peerHungup_def sip_enterConference_def sip_exitConference_def Let_def
      intro!: sound_inv_upd_call sound_inv_on_call drop_call_inv split: option.split)

lemma sip_answer_inv: "sound_inv N M \<Longrightarrow> sound_inv N (snd (sip_answer E i ms M))"
  by (simp add: sip_answer_def sound_inv_on_call split: option.split answer_outcome.split)

lemma answerCall_inv: "sound_inv N M \<Longrightarrow> sound_inv N (snd (answerCall E i ms M))"
  by (auto simp: answerCall_def Let_def case_prod_beta intro!: sip_answer_inv addAudio_inv sound_inv_tones split: option.split)

lemma onHoldCall_inv: "sound_inv N M \<Longrightarrow> sound_inv N (snd (onHoldCall E i M))"
  by (auto simp: onHoldCall_def Let_def case_prod_beta intro!: removeAudio_inv sip_hold_inv sound_inv_tones split: option.split)

lemma offHoldCall_inv: "sound_inv N M \<Longrightarrow> sound_inv N (snd (offHoldCall E i M))"
  by (auto simp: offHoldCall_def Let_def case_prod_beta intro!: addAudio_inv sip_offhold_inv sound_inv_tones split: option.split)

lemma perform_inv: "sound_inv N M \<Longrightarrow> sound_inv N (perform E cid e M)"
  by (cases "(E, cid, e, M)" rule: perform.cases)
    (simp_all add: sip_commands_inv onHoldCall_inv offHoldCall_inv answerCall_inv)

lemma foldl_inv: "(\<And>s x. P s \<Longrightarrow> P (f s x)) \<Longrightarrow> P s \<Longrightarrow> P (foldl f s xs)"
  by (induction xs arbitrary: s) auto

lemma run_conf_inv: "sound_inv N M \<Longrightarrow> sound_inv N (run_conf E cid f M)"
  unfolding run_conf_def Let_def
  by (simp split: option.split prod.split, intro allI impI, rule foldl_inv [of "sound_inv N"]) (auto intro: perform_inv)

lemma release_conf_inv: "sound_inv N M \<Longrightarrow> sound_inv N (release_conf E held cid M)"
  by (simp add: release_conf_def Let_def run_conf_inv)

lemma mgr_removeParticipant_inv: "sound_inv N M \<Longrightarrow> sound_inv N (mgr_removeParticipant E held i M)"
  by (auto simp: mgr_removeParticipant_def Let_def intro!: release_conf_inv run_conf_inv removeAudio_inv split: option.split)

lemma mgr_bind_inv: "sound_inv N M \<Longrightarrow> sound_inv N (mgr_bindCallToConference E held i cid M)"
  by (auto simp: mgr_bindCallToConference_def detachParticipant_def Let_def intro!: run_conf_inv mgr_removeParticipant_inv split: option.split)

lemma add_participant_inv: "sound_inv N M \<Longrightarrow> sound_inv N (add_participant E held i cid M)"
  by (auto simp: add_participant_def addMainParticipant_def Let_def intro!: addAudio_inv run_conf_inv mgr_bind_inv split: option.split)

lemma Manager_hangupCall_inv: "sound_inv N M \<Longrightarrow> sound_inv N (snd (Manager_hangupCall E held a i M))"
  by (auto simp: Manager_hangupCall_def Let_def
      intro!: sip_commands_inv(1) mgr_removeParticipant_inv removeAudio_inv sound_inv_tones split: option.split)

lemma hangupConference_inv: "sound_inv N M \<Longrightarrow> sound_inv N (hangupConference E cid M)"
  by (auto simp: hangupConference_def intro!: foldl_inv [of "sound_inv N"] Manager_hangupCall_inv split: option.split)

lemma unHoldConference_inv:
  assumes "sound_inv N M" shows "sound_inv N (snd (unHoldConference E a cid M))"
proof -
  have "sound_inv N (foldl (\<lambda>M i. snd (offHoldCall E i M)) M is)" for "is"
    using assms by (intro foldl_inv [of "sound_inv N"] offHoldCall_inv)
  with assms show ?thesis
    by (auto simp: unHoldConference_def addMainParticipant_def Let_def intro!: run_conf_inv split: option.split conf_state.split)
qed

lemma joinParticipant_inv: "sound_inv N M \<Longrightarrow> sound_inv N (snd (joinParticipant E cid a1 i1 a2 i2 attached mute M))"
  by (auto simp: joinParticipant_def Let_def intro!: release_conf_inv run_conf_inv mgr_bind_inv split: option.split prod.split)

lemma joinConference_inv:
  assumes "sound_inv N M" shows "sound_inv N (snd (joinConference E a1 c1 a2 c2 M))"
proof -
  have 1: "sound_inv N (foldl (\<lambda>M i. removeAudio E i (run_conf E c1 (\<lambda>E. removeParticipant E i) M)) M is)" for "is"
    using assms by (intro foldl_inv [of "sound_inv N"] removeAudio_inv run_conf_inv)
  have 2: "sound_inv N M' \<Longrightarrow> sound_inv N (foldl (\<lambda>M i. add_participant E [c1, c2] i c2 M) M' is)" for "is" M'
    by (intro foldl_inv [of "sound_inv N"] add_participant_inv)
  show ?thesis using assms 1
    by (simp add: joinConference_def Let_def split: option.split) (auto intro!: release_conf_inv 2)
qed

lemma messages_inv:
  assumes "sound_inv N M"
  shows "sound_inv N (incomingMessage E a i from ms M)" "sound_inv N (sendCallTextMessage E a i ms from M)"
proof -
  have t: "sound_inv N (sendTextMessageToConference cf ms from M)" for cf
    using assms unfolding sendTextMessageToConference_def by (intro foldl_inv [of "sound_inv N"]) (auto split: option.split)
  show "sound_inv N (incomingMessage E a i from ms M)" "sound_inv N (sendCallTextMessage E a i ms from M)"
    using assms by (auto simp: incomingMessage_def sendCallTextMessage_def Let_def t split: option.split)
qed

lemma onCallEarlyMedia_inv:
  assumes inv: "sound_inv N M" shows "sound_inv N (onCallEarlyMedia E i M)"
proof (cases "smap_find (m_calls M) i")
  case None
  with inv show ?thesis by (simp add: onCallEarlyMedia_def)
next
  case (Some c)
  let ?o = "call_guards (m_calls M)" and ?cs = "smap_set i (c\<lparr>mc_audioGuard := True\<rparr>) (m_calls M)"
  from inv have wf: "smap_wf (m_calls M)" and N: "N + 4 < 2 ^ 32" "length (m_calls M) \<le> N" and t: "tone_inv ?o (m_ring M)"
    by (simp_all add: sound_inv_def)
  have le: "?o ty \<le> N" for ty using call_guards_le N(2) by (rule le_trans)
  let ?o1 = "?o(PLAYBACK := Suc (?o PLAYBACK))" and ?r1 = "upd_devices (startAudioStream PLAYBACK) (m_ring M)"
  have t1: "tone_inv ?o1 ?r1"
    using le by (intro tone_inv_take [OF t] few_guardsI [OF _ N(1)]) (simp_all add: le_SucI)
  have pla: "?o1 PLAYBACK = call_guards ?cs PLAYBACK + of_bool (mc_audioGuard c)"
    using count_calls_set [OF wf Some, of mc_audioGuard] by (simp add: call_guards_def)
  have eq: "?o1(PLAYBACK := call_guards ?cs PLAYBACK) = call_guards ?cs"
  proof
    fix ty show "(?o1(PLAYBACK := call_guards ?cs PLAYBACK)) ty = call_guards ?cs ty"
      using count_calls_set [OF wf Some, of mc_captureGuard "c\<lparr>mc_audioGuard := True\<rparr>"] by (cases ty) (simp_all add: call_guards_def)
  qed
  obtain b where r: "m_ring (onCallEarlyMedia E i M) =
      (let r2 = stopTone (me_ring E) ?r1; r3 = (if b then upd_devices driver_flushUrgent r2 else r2)
       in if mc_audioGuard c then upd_devices (AudioDeviceGuard_delete (re_now (me_ring E)) PLAYBACK) r3 else r3)"
    using Some by (simp add: onCallEarlyMedia_def tone_stop_def Let_def if_distrib [of m_ring] cong: if_cong)
  have "tone_inv (?o1(PLAYBACK := call_guards ?cs PLAYBACK)) (m_ring (onCallEarlyMedia E i M))"
    unfolding r Let_def by (intro tone_inv_drop_if tone_inv_flush_if stopTone_inv t1 pla)
  then have "tone_inv (call_guards ?cs) (m_ring (onCallEarlyMedia E i M))" unfolding eq .
  moreover have "m_calls (onCallEarlyMedia E i M) = ?cs"
    using Some by (simp add: onCallEarlyMedia_def tone_stop_def Let_def m_calls_upd_call)
  ultimately show ?thesis using wf N Some by (simp add: sound_inv_def length_smap_set_old)
qed

lemma reports_inv:
  assumes "sound_inv N M"
  shows "sound_inv N (peerAnsweredCall E i M)" "sound_inv N (peerHungupCall E i M)" "sound_inv N (callBusy E i M)"
    "sound_inv N (callFailure E i M)"
  using assms
  by (auto simp: peerAnsweredCall_def peerHungupCall_def callBusy_def callFailure_def stop_tone_if_idle_def Let_def
      intro!: addAudio_inv removeAudio_inv sound_inv_tones mgr_removeParticipant_inv sip_commands_inv split: option.split)

lemma incoming_parts_inv:
  assumes "sound_inv N M"
  shows "sound_inv N (register_alert E b a accountId i M)" "sound_inv N (ring_incoming E account b c accountId i M)"
    "sound_inv N (replace_current account a k cur i c M)"
  using assms
  by (auto simp: register_alert_def ring_incoming_def replace_current_def Let_def sound_inv_tones sound_inv_on_call split: option.split)

lemma processIncomingCall_inv: "sound_inv N M \<Longrightarrow> sound_inv N (processIncomingCall E a i headers M)"
  by (auto simp: processIncomingCall_def case_prod_beta Let_def intro!: incoming_parts_inv drop_call_inv sip_commands_inv sound_inv_tones
      split: option.split)

lemma incomingCall_inv: "sound_inv N M \<Longrightarrow> sound_inv N (incomingCall E a i headers M)"
  by (auto simp: incomingCall_def Let_def intro!: processIncomingCall_inv sound_inv_upd_call)

lemma new_call_inv:
  assumes "sound_inv N M" and "smap_find (m_calls M) i = None" and "\<not> mc_audioGuard c" and "\<not> mc_captureGuard c" and "length (m_calls M) < N"
  shows "sound_inv N (M\<lparr>m_calls := smap_set i c (m_calls M)\<rparr>)"
proof -
  have "call_guards (smap_set i c (m_calls M)) = call_guards (m_calls M)"
  proof
    fix ty show "call_guards (smap_set i c (m_calls M)) ty = call_guards (m_calls M) ty"
      using assms(2-4) by (cases ty) (simp_all add: call_guards_def count_calls_new)
  qed
  with assms show ?thesis by (simp add: sound_inv_def length_smap_set)
qed

text \<open>A call that may be made: its identifier is new and it holds no guard.\<close>

definition unused :: "('s, 'q, 'r) mgr \<Rightarrow> string \<times> mgr_call \<Rightarrow> bool" where
  "unused M = (\<lambda>(i, c). i \<noteq> [] \<and> i \<notin> call_ids M \<and> \<not> mc_audioGuard c \<and> \<not> mc_captureGuard c)"

lemma unused_simps [simp]: "unused (M\<lparr>m_confs := cfs\<rparr>) = unused M" "unused (unsetCurrentCall M) = unused M"
  by (simp_all add: unused_def)

lemma new_call_unused: "new_call_ok M x \<Longrightarrow> unused M x"
  by (auto simp: new_call_ok_def unused_def call_ids_def)

lemma outgoingCall_inv:
  assumes "sound_inv N M" and "pred_option (unused M) new" and "length (m_calls M) < N"
  shows "sound_inv N (snd (outgoingCall E new M))"
  using assms by (auto simp: outgoingCall_def unused_def call_ids_def intro!: sound_inv_tones new_call_inv split: option.split)

lemma outgoingCall_calls:
  "call_ids (snd (outgoingCall E (Some (i, c)) M)) = insert i (call_ids M)" "outgoingCall E None M = ([], M)"
  "fst (outgoingCall E (Some (i, c)) M) = i"
  by (auto simp: outgoingCall_def call_ids_def switchCall_def tone_stop_def on_ring_def split: if_splits)

lemma finite_call_ids [simp]: "finite (call_ids M)"
  by (simp add: call_ids_def finite_dom_map_of)

lemma create_calls_inv:
  assumes "sound_inv N M" and "card (call_ids M) + length news \<le> N" and "list_all (pred_option (unused M)) news"
    and "distinct (List.map_filter (map_option fst) news)"
  shows "sound_inv N (snd (foldl (call_participant E cid) (n, M) news))"
  using assms
proof (induction news arbitrary: n M)
  case (Cons new news)
  show ?case
  proof (cases new)
    case None
    then have "call_participant E cid (n, M) new = (n, unsetCurrentCall M)" by (simp add: call_participant_def outgoingCall_calls)
    with None Cons.prems Cons.IH [of "unsetCurrentCall M" n] show ?thesis by (simp add: List.map_filter_def)
  next
    case (Some ic)
    obtain i c where ic: "ic = (i, c)" by (cases ic)
    let ?M = "run_conf E cid (\<lambda>E. addParticipant E i) (snd (outgoingCall E new (unsetCurrentCall M)))"
    have ids: "call_ids ?M = insert i (call_ids M)" using Some ic by (simp add: outgoingCall_calls)
    have u: "unused M (i, c)" and us: "list_all (pred_option (unused M)) news" using Cons.prems Some ic by simp_all
    have "length (m_calls M) < N" using Cons.prems by (simp add: length_calls sound_inv_def)
    then have "sound_inv N ?M"
      using Cons.prems u Some ic by (intro run_conf_inv outgoingCall_inv) (auto simp: unused_def)
    moreover have "card (call_ids ?M) + length news \<le> N" using Cons.prems(2) ids u by (simp add: unused_def)
    moreover have "list_all (pred_option (unused ?M)) news"
      using us Cons.prems(4) Some ic unfolding ids unused_def
      by (fastforce simp: list_all_iff List.map_filter_def image_iff pred_option_def)
    moreover have "distinct (List.map_filter (map_option fst) news)" using Cons.prems(4) Some by (simp add: List.map_filter_def)
    ultimately have "sound_inv N (snd (foldl (call_participant E cid) (Suc n, ?M) news))"
      by (rule Cons.IH)
    moreover have "call_participant E cid (n, M) new = (Suc n, ?M)"
      using u Some ic by (simp add: call_participant_def unused_def case_prod_beta Let_def outgoingCall_calls)
    ultimately show ?thesis by simp
  qed
qed simp

lemma createConf_inv:
  assumes "sound_inv N M" and "length (m_calls M) + length news \<le> N" and "list_all (pred_option (unused M)) news"
    and "distinct (List.map_filter (map_option fst) news)"
  shows "sound_inv N (createConfFromParticipantList E cid a news M)"
proof -
  let ?M1 = "M\<lparr>m_confs := smap_set cid (a, Conference_new cid) (m_confs M)\<rparr>"
  have "card (call_ids M) + length news \<le> N" using assms by (simp add: length_calls sound_inv_def)
  then have "sound_inv N (snd (foldl (call_participant E cid) (0, ?M1) news))"
    using assms by (intro create_calls_inv) simp_all
  with assms(1) show ?thesis
    unfolding createConfFromParticipantList_def Let_def by (auto simp: case_prod_beta Let_def intro!: release_conf_inv)
qed

section \<open>Runs\<close>

lemma device_ops_inv:
  assumes "sound_inv N M"
  shows "sound_inv N (mgr_exec E (TimerTake now) M)" "sound_inv N (mgr_exec E (CallGone i) M)"
    "op \<noteq> StopRecordedFilePlayback \<Longrightarrow> sound_inv N (mgr_exec E (Tone op) M)"
    "\<forall>ty. audioStreamStopTask (devices (m_ring M)) ty = None \<Longrightarrow> sound_inv N (mgr_exec E (NewDriver b) M)"
proof -
  note few = sound_inv_few [OF assms]
  have t: "tone_inv (call_guards (m_calls M)) (m_ring M)" using assms by (simp add: sound_inv_def)
  note ring = sound_inv_ring [OF assms]
  show "sound_inv N (mgr_exec E (TimerTake now) M)"
    unfolding mgr_exec.simps upd_devices_def by (rule ring, rule tone_inv_device [OF t device_step.take])
  show "sound_inv N (mgr_exec E (CallGone i) M)" using assms by (simp add: drop_call_inv)
  show "sound_inv N (mgr_exec E (Tone op) M)" if "op \<noteq> StopRecordedFilePlayback"
    unfolding mgr_exec.simps by (rule ring, rule tone_inv_exec [OF t few that])
  show "sound_inv N (mgr_exec E (NewDriver b) M)" if "\<forall>ty. audioStreamStopTask (devices (m_ring M)) ty = None"
    unfolding mgr_exec.simps mgr_newDriver_def sound_inv_neutral upd_devices_def
    by (rule ring, rule tone_inv_device [OF t device_step.swap [OF that]])
qed

lemma mgr_exec_inv:
  assumes "sound_inv N M" and "mgr_op_ok M op" and "length (m_calls M) + mgr_op_size op \<le> N"
  shows "sound_inv N (mgr_exec E op M)"
proof (cases op)
  case (NewCall i c)
  with assms show ?thesis by (auto simp: new_call_ok_def intro!: new_call_inv)
next
  case (OutgoingCall new)
  with assms have "sound_inv N (snd (outgoingCall E new M))"
    by (intro outgoingCall_inv) (auto simp: pred_option_def intro: new_call_unused)
  with OutgoingCall show ?thesis by simp
next
  case (CreateConf cid a news)
  with assms have "sound_inv N (createConfFromParticipantList E cid a news M)"
    by (intro createConf_inv) (auto simp: pred_option_def list_all_iff intro: new_call_unused)
  with CreateConf show ?thesis by simp
next
  case (Tone op')
  with assms device_ops_inv(3) [OF assms(1)] show ?thesis by simp
next
  case (NewDriver b)
  with assms device_ops_inv(4) [OF assms(1)] show ?thesis by simp
next
  case (TimerTake now)
  with device_ops_inv(1) [OF assms(1)] show ?thesis by simp
next
  case (Transfer a i to)
  with assms(1) show ?thesis by (auto simp: transferCall_def Let_def intro!: mgr_removeParticipant_inv split: option.split)
next
  case (Refuse a i)
  with assms(1) show ?thesis
    by (auto simp: refuseCall_def Let_def case_prod_beta intro!: removeAudio_inv drop_call_inv sip_commands_inv sound_inv_tones split: option.split)
qed (use assms(1) in \<open>auto simp: Manager_answerCall_def Manager_hangupConference_def holdConference_def Manager_addParticipant_def
    Manager_addMainParticipant_def addMainParticipant_def Manager_detachLocalParticipant_def detachParticipant_def Let_def
    incomingCall_inv answerCall_inv Manager_hangupCall_inv hangupConference_inv onHoldCall_inv offHoldCall_inv
    unHoldConference_inv joinParticipant_inv joinConference_inv messages_inv onCallEarlyMedia_inv reports_inv sound_inv_tones
    run_conf_inv release_conf_inv add_participant_inv mgr_removeParticipant_inv drop_call_inv split: option.split\<close>)

definition guards_kept :: "('s, 'q, 'r) mgr \<Rightarrow> bool" where
  "guards_kept M \<longleftrightarrow> smap_wf (m_calls M) \<and> tone_inv (call_guards (m_calls M)) (m_ring M)"

lemma mgr_step_guards:
  assumes "mgr_step M M'" and "guards_kept M" shows "guards_kept M'"
  using assms(1)
proof cases
  case (1 op E)
  let ?N = "length (m_calls M) + mgr_op_size op"
  have "sound_inv ?N M" using assms(2) 1(3) by (simp add: sound_inv_def guards_kept_def)
  from mgr_exec_inv [OF this 1(2) order_refl] 1(1) show ?thesis by (simp add: sound_inv_def guards_kept_def)
qed

interpretation mg: relational_machine "\<lambda>M. \<exists>p. M = mgr_new p" mgr_step guards_kept
proof unfold_locales
  fix M :: "('a, 'b, 'c) mgr"
  assume "\<exists>p. M = mgr_new p"
  moreover have "call_guards [] = (\<lambda>_. 0)" by (auto simp: call_guards_def count_calls_def split: audio_device_type.split)
  ultimately show "guards_kept M"
    using rw.init_inv [OF refl] by (auto simp: guards_kept_def mgr_new_def smap_wf_def)
qed (rule mgr_step_guards)

lemma guards_keptD:
  assumes "guards_kept M"
  shows "stream_inv (devices (m_ring M)) (call_guards (m_calls M) ty + of_bool (toneDeviceGuard (m_ring M) = Some ty)) ty"
proof -
  from assms have "stream_inv (devices (m_ring M)) (guards (call_guards (m_calls M)) (toneDeviceGuard (m_ring M)) ty) ty"
    by (simp add: guards_kept_def tone_inv_def device_inv_def)
  moreover have "guards o' g ty = o' ty + of_bool (g = Some ty)" for o' g
    by (simp add: guards_def split: option.split)
  ultimately show ?thesis by simp
qed

section \<open>A first call\<close>

definition demo_mgr_env :: "(int list, int) mgr_env" where
  "demo_mgr_env =
     \<lparr>me_ring = demo_ring_env True, me_accounts = (\<lambda>a. if a = ''acc'' then Some demo_account else None), me_usernames = [''me''],
      me_defaultVideo = [], me_now = 1000, me_clock = 0, me_recorderStarts = True, me_fifo = list_fifo, me_alwaysRecording = False,
      me_answer = (\<lambda>_. ANSWERED), me_reinviteSucceeds = (\<lambda>_. True)\<rparr>"

definition demo_ringing_call :: "string \<Rightarrow> mgr_call" where
  "demo_ringing_call i =
     \<lparr>mc_call = (Call_new (Some ''acc'') i INCOMING)\<lparr>connectionState := RINGING\<rparr>, mc_peer = demo_peer (''sip:'' @ i),
      mc_audioGuard = False, mc_captureGuard = False, mc_hasAudio = True, mc_audioOnly = True, mc_remoteConference = False,
      mc_onHold = False, mc_localHangup = False, mc_inviteSession = True\<rparr>"

definition demo_mgr :: "(int, int list, int) mgr" where
  "demo_mgr = mgr_exec demo_mgr_env (NewCall ''7'' (demo_ringing_call ''7''))
     (mgr_exec demo_mgr_env (NewDriver True) (mgr_new (RingBufferPool_new list_fifo)))"

definition demo_talking :: "(int, int list, int) mgr" where
  "demo_talking = mgr_exec demo_mgr_env (AnswerCallOp ''acc'' ''7'' []) demo_mgr"

definition demo_answered_call :: mgr_call where
  "demo_answered_call = (demo_ringing_call ''7'')
     \<lparr>mc_call := fst (snd (setState 0 ACTIVE CONNECTED 0 (mc_call (demo_ringing_call ''7'')))), mc_audioGuard := True, mc_captureGuard := True\<rparr>"

lemma demo_mgr_calls: "m_calls demo_mgr = [(''7'', demo_ringing_call ''7'')]"
  by (simp add: demo_mgr_def mgr_newDriver_def mgr_new_def on_ring_def)

lemma demo_mgr_reachable: "mgr_step\<^sup>*\<^sup>* (mgr_new (RingBufferPool_new list_fifo)) demo_mgr"
proof -
  let ?M0 = "mgr_new (RingBufferPool_new list_fifo) :: (int, int list, int) mgr"
  let ?M1 = "mgr_exec demo_mgr_env (NewDriver True) ?M0"
  have "mgr_step ?M0 ?M1"
    by (rule mgr_step.intros) (simp_all add: mgr_new_def ringing_new_def audio_devices_new_def)
  moreover have "mgr_step ?M1 demo_mgr" unfolding demo_mgr_def
    by (rule mgr_step.intros) (simp_all add: mgr_newDriver_def on_ring_def mgr_new_def new_call_ok_def demo_ringing_call_def Call_new_def)
  ultimately show ?thesis by simp
qed

lemma demo_talking_reachable: "mgr_step\<^sup>*\<^sup>* (mgr_new (RingBufferPool_new list_fifo)) demo_talking"
proof -
  have "mgr_step demo_mgr demo_talking" unfolding demo_talking_def
    by (rule mgr_step.intros) (simp_all add: demo_mgr_calls)
  with demo_mgr_reachable show ?thesis by simp
qed

lemma demo_mgr_ring: "m_ring demo_mgr = demo_idle"
  by (simp add: demo_mgr_def mgr_newDriver_def mgr_new_def on_ring_def demo_idle_def upd_devices_def ringing_new_def)

lemma demo_silence:
  "devices (clearPendingAlertInfoCall ''7'' (stopTone (demo_ring_env True) demo_idle)) = initAudioDriver True audio_devices_new"
  "toneDeviceGuard (clearPendingAlertInfoCall ''7'' (stopTone (demo_ring_env True) demo_idle)) = None"
  by (simp_all add: demo_idle_def ringing_new_def stopTone_def demo_ring_env_def clearPendingAlertInfoCall_def ToneControl_new_def
      drop_guard_def reset_tone_guard_def stopAudioFile_def upd_tone_def tc_stop_def tc_play_def Let_def)

lemma flush_driver [simp]: "audiodriver (driver_flushUrgent d) = audiodriver d"
  by (simp add: driver_flushUrgent_def)

lemma answer_parts:
  fixes E :: "('q, 's) mgr_env" and M :: "('s, 'q, 'r) mgr"
  assumes c: "smap_find (m_calls M) i = Some c" "\<not> isConferenceParticipant c" and "type_of_call (mc_call c) = INCOMING"
    and "connectionState (mc_call c) = RINGING" and "me_answer E i = ANSWERED" and "call_account (mc_call c) \<noteq> None" and "mc_inviteSession c"
    and guards: "\<not> mc_audioGuard c" "\<not> mc_captureGuard c"
  defines "k \<equiv> fst (snd (setState (me_clock E) ACTIVE CONNECTED 0 (mc_call c)))"
  shows "m_calls (snd (answerCall E i ms M)) = smap_set i (c\<lparr>mc_call := k, mc_audioGuard := True, mc_captureGuard := True\<rparr>) (m_calls M)"
    "\<exists>b. m_ring (snd (answerCall E i ms M)) =
       (if b then upd_devices driver_flushUrgent else id) (upd_devices (startAudioStream CAPTURE) (upd_devices (startAudioStream PLAYBACK)
          (clearPendingAlertInfoCall i (stopTone (me_ring E) (m_ring M)))))"
proof -
  let ?before = "removeWaitingCall i (clear_pending i (tone_stop E M))"
  let ?M = "switch_to_call i (snd (sip_answer E i ms ?before))"
  have m0: "m_calls ?before = m_calls M" "m_ring ?before = clearPendingAlertInfoCall i (stopTone (me_ring E) (m_ring M))"
    by (simp_all add: clear_pending_def tone_stop_def)
  have s: "sip_answer E i ms ?before =
      (True, on_call i (\<lambda>k. snd (setState (me_clock E) ACTIVE CONNECTED 0 k)) (mgr_emit (AnswerSent i ms) ?before))"
    using assms(1-7) m0(1) by (auto simp: sip_answer_def isIncoming_def)
  then have a: "snd (answerCall E i ms M) = always_record E i (addAudio E i ?M)"
    using assms(1-4) by (simp add: answerCall_def Let_def)
  have m: "m_calls ?M = smap_set i (c\<lparr>mc_call := k\<rparr>) (m_calls M)" "m_ring ?M = clearPendingAlertInfoCall i (stopTone (me_ring E) (m_ring M))"
    using c(1) m0 by (simp_all add: s on_call_def case_prod_beta k_def Let_def)
  have c': "smap_find (m_calls ?M) i = Some (c\<lparr>mc_call := k\<rparr>)" unfolding m by simp
  have "call_conf k = call_conf (mc_call c)" by (simp add: k_def)
  then have p: "\<not> isConferenceParticipant (c\<lparr>mc_call := k\<rparr>)" using c(2) by (simp add: isConferenceParticipant_def)
  show "m_calls (snd (answerCall E i ms M)) = smap_set i (c\<lparr>mc_call := k, mc_audioGuard := True, mc_captureGuard := True\<rparr>) (m_calls M)"
    unfolding a plain_simps(5) addAudio_calls [OF c' p] m(1) by (simp add: smap_set_twice)
  show "\<exists>b. m_ring (snd (answerCall E i ms M)) =
       (if b then upd_devices driver_flushUrgent else id) (upd_devices (startAudioStream CAPTURE) (upd_devices (startAudioStream PLAYBACK)
          (clearPendingAlertInfoCall i (stopTone (me_ring E) (m_ring M)))))"
    unfolding a plain_simps(10) m(2) [symmetric] using addAudio_ring [OF c' p, of E] guards
    by (auto simp: Let_def split: if_splits intro: exI [of _ True] exI [of _ False])
qed

lemma demo_talking_facts:
  "m_calls demo_talking = [(''7'', demo_answered_call)]"
  "audiodriver (devices (m_ring demo_talking)) = Some ((\<lambda>_. False)(PLAYBACK := True, CAPTURE := True))"
  "toneDeviceGuard (m_ring demo_talking) = None"
proof -
  have t: "demo_talking = snd (answerCall demo_mgr_env ''7'' [] demo_mgr)"
    by (simp add: demo_talking_def Manager_answerCall_def account_getCall_def demo_mgr_calls demo_mgr_env_def demo_ringing_call_def Call_new_def)
  note parts = answer_parts [of demo_mgr "''7''" "demo_ringing_call ''7''" demo_mgr_env "[]", folded t]
  have c: "\<not> isConferenceParticipant (demo_ringing_call ''7'')" "type_of_call (mc_call (demo_ringing_call ''7'')) = INCOMING"
    "connectionState (mc_call (demo_ringing_call ''7'')) = RINGING" "\<not> mc_audioGuard (demo_ringing_call ''7'')"
    "\<not> mc_captureGuard (demo_ringing_call ''7'')" "me_answer demo_mgr_env ''7'' = ANSWERED" "me_ring demo_mgr_env = demo_ring_env True"
    "call_account (mc_call (demo_ringing_call ''7'')) \<noteq> None" "mc_inviteSession (demo_ringing_call ''7'')"
    by (simp_all add: demo_ringing_call_def Call_new_def isConferenceParticipant_def demo_mgr_env_def)
  show "m_calls demo_talking = [(''7'', demo_answered_call)]"
    using parts(1) c by (simp add: demo_mgr_calls demo_answered_call_def demo_mgr_env_def)
  from parts(2) c obtain b where "m_ring demo_talking =
     (if b then upd_devices driver_flushUrgent else id) (upd_devices (startAudioStream CAPTURE) (upd_devices (startAudioStream PLAYBACK)
        (clearPendingAlertInfoCall ''7'' (stopTone (demo_ring_env True) demo_idle))))"
    by (auto simp: demo_mgr_calls demo_mgr_ring)
  then have "audiodriver (devices (m_ring demo_talking)) =
      audiodriver (startAudioStream CAPTURE (startAudioStream PLAYBACK (initAudioDriver True audio_devices_new)))"
    and g: "toneDeviceGuard (m_ring demo_talking) = None"
    by (cases b; simp add: upd_devices_def demo_silence)+
  then show "audiodriver (devices (m_ring demo_talking)) = Some ((\<lambda>_. False)(PLAYBACK := True, CAPTURE := True))"
    by (simp add: initAudioDriver_def audio_devices_new_def device_defs Let_def)
  show "toneDeviceGuard (m_ring demo_talking) = None" by (rule g)
qed

section \<open>Properties\<close>



end
