(* ===== verification/Manager_Members.thy ===== *)
theory Manager_Members
  imports Manager_Sound
begin

text \<open>
  Calls and conferences keep each other's names: a conference lists its calls, a call points to
  its conference. The two are written by different objects and at different times, under every
  operation of the manager that joins, moves or removes calls; here they are shown to agree.
\<close>

section \<open>What a conference does to its calls\<close>

fun is_move :: "conf_event \<Rightarrow> bool" where
  "is_move (EnterConference _) = True"
| "is_move (ExitConference _) = True"
| "is_move RemoveConference = True"
| "is_move _ = False"

definition moves :: "('s, 'q, 'r) conf_world \<Rightarrow> string list \<times> conf_event list" where
  "moves w = (participants (conf w), filter is_move (conf_log w))"

lemma moves_basic [simp]:
  "moves (with_pool f w) = moves w" "\<not> is_move e \<Longrightarrow> moves (emit e w) = moves w" "moves (w\<lparr>rb_pool := q\<rparr>) = moves w"
  by (simp_all add: moves_def with_pool_def emit_def)

lemma moves_upd_conf: "participants (f (conf w)) = participants (conf w) \<Longrightarrow> moves (upd_conf f w) = moves w"
  by (simp add: moves_def upd_conf_def)

lemma moves_for [intro]:
  "(\<And>p w. moves (f p w) = moves w) \<Longrightarrow> moves (for_participants f w) = moves w"
  "(\<And>p c w. moves (cb p c w) = moves w) \<Longrightarrow> moves (foreachCall E cb w) = moves w"
  by (rule for_participants_keeps, simp) (rule foreachCall_keeps, simp)

lemma moves_routing [simp]:
  "moves (conf_setState st w) = moves w" "moves (bindParticipant E p w) = moves w"
  "moves (reportMediaNegotiationStatus e w) = moves w" "moves (setLocalHostDefaultMediaSource E b src w) = moves w"
  "moves (setLocalHostMuteState t m w) = moves w" "moves (muteLocalPlayback b w) = moves w"
  "moves (sendConferenceInfos E w) = moves w" "moves (attach_audio E b p w) = moves w"
proof -
  show r: "moves (reportMediaNegotiationStatus e w) = moves w" for e and w :: "('a, 'b, 'c) conf_world"
    by (simp add: reportMediaNegotiationStatus_def)
  have "moves (bind_to E p i w) = moves w" for p i and w :: "('a, 'b, 'c) conf_world"
    by (simp add: bind_to_def Let_def split: option.split)
  then show "moves (bindParticipant E p w) = moves w"
    by (simp add: bindParticipant_def Let_def moves_for)
  show "moves (sendConferenceInfos E w) = moves w"
    unfolding sendConferenceInfos_def Let_def by (simp, rule moves_for) (simp split: option.split)
  show "moves (muteLocalPlayback b w) = moves w"
    by (simp add: muteLocalPlayback_def rebind_playback_def Let_def moves_for moves_upd_conf)
qed (simp_all add: conf_setState_def setLocalHostDefaultMediaSource_def setLocalHostMuteState_def attach_audio_def
    reportMediaNegotiationStatus_def Let_def moves_upd_conf split: option.split)

lemma moves_local [simp]: "moves (attachLocalParticipant E w) = moves w" "moves (detachLocalParticipant E w) = moves w"
  by (simp_all add: attachLocalParticipant_def detachLocalParticipant_def Let_def moves_for)

lemma moves_recording [simp]: "moves (updateRecording E w) = moves w" "moves (toggleRecording E w) = moves w"
proof -
  show u: "moves (updateRecording E w) = moves w" for w :: "('a, 'b, 'c) conf_world"
    by (simp add: updateRecording_def moves_upd_conf upd_rows_def)
  have s: "moves (conf_startRecording E w) = moves w" "moves (conf_stopRecording E w) = moves w"
    "moves (initRecorder E w) = moves w" "moves (deinitRecorder w) = moves w" for w :: "('a, 'b, 'c) conf_world"
    by (simp_all add: conf_startRecording_def conf_stopRecording_def u initRecorder_def deinitRecorder_def drop_ghost_def Let_def
        case_prod_beta moves_upd_conf split: option.split)
  show "moves (toggleRecording E w) = moves w"
    by (simp add: toggleRecording_def Let_def u s moves_for)
qed

lemma moves_takeover [simp]: "moves (takeOverMediaSourceControl E p w) = moves w"
  by (simp add: takeOverMediaSourceControl_def take_over_type_def Let_def case_prod_beta split: option.split)

lemma moves_add:
  assumes "moves w = (ps, ms)" and "p \<notin> set ps"
  shows "moves (addParticipant E p w) = (sset_insert p ps, if conf_getCall E p = None then ms else ms @ [EnterConference p])"
proof -
  let ?w1 = "upd_conf (\<lambda>c. c\<lparr>participants := sset_insert p (participants c)\<rparr>) w"
  have 1: "moves ?w1 = (sset_insert p ps, ms)" using assms(1) by (auto simp: moves_def upd_conf_def)
  have enter: "moves (emit (EnterConference p) w') = (fst (moves w'), snd (moves w') @ [EnterConference p])" for w' :: "('a, 'b, 'c) conf_world"
    by (simp add: moves_def emit_def)
  have mods: "moves (upd_conf (add_moderators E c a) w') = moves w'" for c a and w' :: "('a, 'b, 'c) conf_world"
    by (simp add: moves_upd_conf add_moderators_def Let_def)
  have "p \<notin> set (participants (conf w))" using assms by (auto simp: moves_def)
  then show ?thesis
    by (simp add: addParticipant_def Let_def 1 enter mods moves_upd_conf split: option.split)
qed

lemma moves_remove:
  assumes "moves w = (ps, ms)"
  shows "moves (removeParticipant E p w) =
    (sset_erase p ps, if conf_getCall E p = None \<or> p \<notin> set ps then ms else ms @ [ExitConference p])"
proof -
  have "p \<notin> set ps \<Longrightarrow> sset_erase p ps = ps" by (auto simp: sset_erase_def filter_id_conv)
  with assms show ?thesis
    by (auto simp: removeParticipant_def Let_def moves_def emit_def upd_conf_def with_pool_def split: option.split)
qed

lemma moves_remaining:
  assumes "moves w = (ps, ms)"
  shows "moves (processRemainingParticipants E w) = (ps, ms) \<or> moves (processRemainingParticipants E w) = (ps, ms @ [RemoveConference])"
proof -
  have "moves (for_participants (\<lambda>p. with_pool (RingBufferPool_flush p)) w) = moves w" by (rule moves_for) simp
  moreover have "moves (emit RemoveConference w') = (fst (moves w'), snd (moves w') @ [RemoveConference])" for w' :: "('a, 'b, 'c) conf_world"
    by (simp add: moves_def emit_def)
  ultimately show ?thesis using assms by (simp add: processRemainingParticipants_def Let_def split: list.split option.split)
qed

lemma moves_bind:
  assumes "moves w = (ps, ms)" and "p \<notin> set ps"
  shows "moves (bindCallToConference E p state w) = (sset_insert p ps, if conf_getCall E p = None then ms else ms @ [EnterConference p])"
proof -
  have "p \<notin> set (participants (conf w))" using assms by (auto simp: moves_def)
  then show ?thesis using assms by (simp add: bindCallToConference_def Let_def moves_add)
qed

lemma moves_destroy:
  assumes "moves w = (ps, ms)"
  shows "moves (Conference_destroy E w) = (ps, ms @ map ExitConference (filter (\<lambda>p. conf_getCall E p \<noteq> None) ps))"
proof -
  let ?f = "\<lambda>w p. case conf_getCall E p of Some _ \<Rightarrow> emit (ExitConference p) w | None \<Rightarrow> w"
  let ?w = "for_participants (\<lambda>p. with_pool (\<lambda>q. setMicMuted p False (Ring_Buffer_Pool.setLocalPlaybackMuted p False q))) w"
  have "moves ?w = (ps, ms)" using assms by (simp add: moves_for)
  moreover have "moves (foldl ?f w' qs) = (fst (moves w'), snd (moves w') @ map ExitConference (filter (\<lambda>p. conf_getCall E p \<noteq> None) qs))"
    for w' :: "('a, 'b, 'c) conf_world" and qs
    by (induction qs arbitrary: w') (auto simp: moves_def emit_def split: option.split)
  ultimately show ?thesis by (auto simp: Conference_destroy_def foreachCall_def for_participants_def moves_def)
qed

section \<open>Membership in the manager's state\<close>

definition conf_of :: "('s, 'q, 'r) mgr \<Rightarrow> string \<Rightarrow> string option" where
  "conf_of M i = (case smap_find (m_calls M) i of Some c \<Rightarrow> call_conf (mc_call c) | None \<Rightarrow> None)"

definition members :: "('s, 'q, 'r) mgr \<Rightarrow> string \<Rightarrow> string set" where
  "members M cid = (case smap_find (m_confs M) cid of Some (_, cf) \<Rightarrow> set (participants cf) | None \<Rightarrow> {})"

definition live :: "('s, 'q, 'r) mgr \<Rightarrow> string set" where
  "live M = dom (smap_find (m_confs M))"

definition mview ::
  "('s, 'q, 'r) mgr \<Rightarrow> string set \<times> (string \<Rightarrow> string option) \<times> (string \<Rightarrow> string set) \<times> string set" where
  "mview M = (call_ids M, conf_of M, members M, live M)"

lemmas mview_defs = mview_def call_ids_def conf_of_def members_def live_def fun_eq_iff

lemma mview_cong: "m_calls M' = m_calls M \<Longrightarrow> m_confs M' = m_confs M \<Longrightarrow> mview M' = mview M"
  by (simp add: mview_defs)

lemma mview_basic [simp]:
  "mview (mgr_emit e M) = mview M" "mview (on_pool f M) = mview M" "mview (on_ring g M) = mview M"
  "mview (switchCall i M) = mview M" "mview (unsetCurrentCall M) = mview M" "mview (addWaitingCall i M) = mview M"
  "mview (removeWaitingCall i M) = mview M" "mview (take_stream ty M) = mview M" "mview (drop_stream E ty b M) = mview M"
  "mview (tone_stop E M) = mview M" "mview (clear_pending i M) = mview M" "mview (always_record E i M) = mview M"
  "mview (switch_to_call i M) = mview M" "mview (M\<lparr>m_attached := ids\<rparr>) = mview M" "mview (conf_changed cid M) = mview M"
  "mview (M\<lparr>incomingBeep := b\<rparr>) = mview M"
  by (auto simp: mgr_emit_def on_pool_def on_ring_def switchCall_def unsetCurrentCall_def addWaitingCall_def removeWaitingCall_def
      take_stream_def drop_stream_def tone_stop_def clear_pending_def always_record_def switch_to_call_def conf_changed_def Let_def
      intro!: mview_cong split: option.split)

lemma mview_upd_call [simp]:
  "(\<And>c. call_conf (mc_call (f c)) = call_conf (mc_call c)) \<Longrightarrow> mview (upd_call i f M) = mview M"
  by (auto simp: mview_defs upd_call_def split: option.split if_splits)

lemma mview_on_call [simp]: "(\<And>k. call_conf (fst (f k)) = call_conf k) \<Longrightarrow> mview (on_call i f M) = mview M"
  by (auto simp: mview_defs on_call_def mgr_emit_def case_prod_beta Let_def split: option.split if_splits)

lemma mview_sound [simp]: "mview (addAudio E i M) = mview M" "mview (removeAudio E i M) = mview M"
  by (simp_all add: addAudio_def removeAudio_def Let_def split: option.split)

lemma mview_hold [simp]:
  "mview (snd (set_callState E i cs M)) = mview M" "mview (snd (sip_hold E i M)) = mview M" "mview (snd (sip_offhold E i M)) = mview M"
  "mview (snd (sip_answer E i ms M)) = mview M"
proof -
  show s: "mview (snd (set_callState E i cs M)) = mview M" for cs and M :: "('a, 'b, 'c) mgr"
    by (simp add: set_callState_def split: option.split)
  show h: "mview (snd (sip_hold E i M)) = mview M" for M :: "('a, 'b, 'c) mgr"
    by (simp add: sip_hold_def Let_def case_prod_beta s split: option.split)
  show "mview (snd (sip_offhold E i M)) = mview M" "mview (snd (sip_answer E i ms M)) = mview M"
    by (simp_all add: sip_offhold_def sip_answer_def Let_def case_prod_beta s h split: option.split answer_outcome.split)
qed

lemma mview_commands [simp]:
  "mview (snd (answerCall E i ms M)) = mview M" "mview (snd (onHoldCall E i M)) = mview M" "mview (snd (offHoldCall E i M)) = mview M"
  by (simp_all add: answerCall_def onHoldCall_def offHoldCall_def Let_def case_prod_beta split: option.split)

text \<open>A call that is gone has no conference.\<close>

lemma mview_drop_call: "mview (drop_call E i M) = (call_ids M - {i}, (conf_of M)(i := None), members M, live M)"
  by (auto simp: drop_call_def mview_defs drop_stream_def on_ring_def split: option.split)

section \<open>Running an operation of a conference\<close>

fun apply_move :: "string \<Rightarrow> string set \<Rightarrow> (string \<Rightarrow> string option) \<Rightarrow> conf_event \<Rightarrow> (string \<Rightarrow> string option)" where
  "apply_move cid ids co (EnterConference i) = (if i \<in> ids then co(i := Some cid) else co)"
| "apply_move cid ids co (ExitConference i) = (if i \<in> ids then co(i := None) else co)"
| "apply_move cid ids co _ = co"

lemma perform_view: "mview (perform E cid e M) = (call_ids M, apply_move cid (call_ids M) (conf_of M) e, members M, live M)"
proof -
  have *: "mview M = (call_ids M, conf_of M, members M, live M)" by (simp add: mview_def)
  show ?thesis
    by (cases "(E, cid, e, M)" rule: perform.cases)
      (auto simp: * sip_enterConference_def sip_exitConference_def, auto simp: mview_defs upd_call_def on_pool_def
        split: option.split if_splits)
qed

lemma not_move: "\<not> is_move e \<Longrightarrow> apply_move cid ids co e = co"
  by (cases "(cid, ids, co, e)" rule: apply_move.cases) auto

lemma performs_view:
  "mview (foldl (\<lambda>M e. perform E cid e M) M es) =
     (call_ids M, foldl (apply_move cid (call_ids M)) (conf_of M) (filter is_move es), members M, live M)"
proof (induction es arbitrary: M)
  case (Cons e es)
  have "call_ids (perform E cid e M) = call_ids M" "members (perform E cid e M) = members M" "live (perform E cid e M) = live M"
    "conf_of (perform E cid e M) = apply_move cid (call_ids M) (conf_of M) e"
    using perform_view [of E cid e M] by (simp_all add: mview_def)
  with Cons show ?case by (simp add: not_move)
qed (simp add: mview_def)

lemma run_conf_view:
  assumes "smap_find (m_confs M) cid = Some (a, cf)"
    and "moves (f (conf_env_of E a M) \<lparr>conf = cf, rb_pool = m_pool M, conf_log = []\<rparr>) = (ps, ms)"
  shows "mview (run_conf E cid f M) =
    (call_ids M, foldl (apply_move cid (call_ids M)) (conf_of M) ms, (members M)(cid := set ps), live M)"
proof -
  let ?w = "f (conf_env_of E a M) \<lparr>conf = cf, rb_pool = m_pool M, conf_log = []\<rparr>"
  let ?M = "M\<lparr>m_confs := smap_set cid (a, conf ?w) (m_confs M), m_pool := rb_pool ?w\<rparr>"
  have "members ?M = (members M)(cid := set ps)" "live ?M = live M" "conf_of ?M = conf_of M"
    using assms by (auto simp: mview_defs moves_def split: if_splits)
  moreover have "filter is_move (conf_log ?w) = ms" using assms(2) by (simp add: moves_def)
  moreover have "run_conf E cid f M = foldl (\<lambda>M e. perform E cid e M) ?M (conf_log ?w)" using assms(1) by (simp add: run_conf_def Let_def)
  ultimately show ?thesis by (simp only: performs_view call_ids_basic)
qed

lemma mview_eqD:
  assumes "mview M' = (ids, co, mem, lv)" shows "call_ids M' = ids" "conf_of M' = co" "members M' = mem" "live M' = lv"
  using assms by (simp_all add: mview_def)

text \<open>Most operations of a conference leave its members alone.\<close>

lemma run_conf_quiet:
  assumes "\<And>E w. moves (f E w) = moves w" shows "mview (run_conf E cid f M) = mview M"
proof (cases "smap_find (m_confs M) cid")
  case (Some acf)
  obtain a cf where "acf = (a, cf)" by (cases acf)
  with Some have c: "smap_find (m_confs M) cid = Some (a, cf)" by simp
  have "moves (f (conf_env_of E a M) \<lparr>conf = cf, rb_pool = m_pool M, conf_log = []\<rparr>) = (participants cf, [])"
    unfolding assms by (simp add: moves_def)
  from run_conf_view [where f = f and E = E, OF c this] c show ?thesis by (simp add: mview_def members_def fun_upd_idem)
qed (simp add: run_conf_def)

lemma run_remaining_view [simp]: "mview (run_conf E cid processRemainingParticipants M) = mview M"
proof (cases "smap_find (m_confs M) cid")
  case (Some acf)
  obtain a cf where "acf = (a, cf)" by (cases acf)
  with Some have c: "smap_find (m_confs M) cid = Some (a, cf)" by simp
  let ?w = "processRemainingParticipants (conf_env_of E a M) \<lparr>conf = cf, rb_pool = m_pool M, conf_log = []\<rparr>"
  have "moves ?w = (participants cf, []) \<or> moves ?w = (participants cf, [RemoveConference])"
    using moves_remaining [of "\<lparr>conf = cf, rb_pool = m_pool M, conf_log = []\<rparr>" "participants cf" "[]"] by (simp add: moves_def)
  with run_conf_view [where f = processRemainingParticipants, OF c] c show ?thesis
    by (auto simp: mview_def members_def fun_upd_idem)
qed (simp add: run_conf_def)

lemma env_call_iff: "conf_getCall (conf_env_of E a M) p = None \<longleftrightarrow> p \<notin> call_ids M"
  by (auto simp: conf_getCall_def conf_env_of_def call_ids_def)

section \<open>Agreement\<close>

definition agree :: "('s, 'q, 'r) mgr \<Rightarrow> bool" where
  "agree M \<longleftrightarrow> (\<forall>p cid. p \<in> call_ids M \<longrightarrow> (p \<in> members M cid \<longleftrightarrow> conf_of M p = Some cid))"

lemma agree_cong: "mview M' = mview M \<Longrightarrow> agree M' = agree M"
  by (simp add: agree_def mview_def)

lemma agreeD: "agree M \<Longrightarrow> p \<in> call_ids M \<Longrightarrow> p \<in> members M cid \<longleftrightarrow> conf_of M p = Some cid"
  by (simp add: agree_def)

text \<open>A call that no conference lists.\<close>

definition unlisted :: "string \<Rightarrow> ('s, 'q, 'r) mgr \<Rightarrow> bool" where
  "unlisted p M \<longleftrightarrow> (\<forall>cid. p \<notin> members M cid)"

lemma members_live: "p \<in> members M cid \<Longrightarrow> cid \<in> live M"
  by (auto simp: members_def live_def split: option.splits)

lemma moves_start: "moves \<lparr>conf = cf, rb_pool = q, conf_log = []\<rparr> = (participants cf, [])"
  by (simp add: moves_def)

lemma run_remove_view:
  assumes "agree M"
  shows "mview (run_conf E cid (\<lambda>E. removeParticipant E p) M) =
    (call_ids M, if p \<in> members M cid then (conf_of M)(p := None) else conf_of M, (members M)(cid := members M cid - {p}), live M)"
proof (cases "smap_find (m_confs M) cid")
  case (Some acf)
  obtain a cf where "acf = (a, cf)" by (cases acf)
  with Some have c: "smap_find (m_confs M) cid = Some (a, cf)" by simp
  then have m: "members M cid = set (participants cf)" by (simp add: members_def)
  have "conf_of M p = None" if "p \<notin> call_ids M" using that by (simp add: conf_of_def call_ids_def domIff)
  with c m show ?thesis
    by (subst run_conf_view [where f = "\<lambda>E. removeParticipant E p", OF c moves_remove [OF moves_start]]) (auto simp: env_call_iff fun_upd_idem)
qed (simp add: run_conf_def mview_def members_def fun_upd_idem)

lemma run_enter_view:
  assumes "cid \<in> live M" and "p \<in> call_ids M" and "unlisted p M"
    and "\<And>E w ps ms. moves w = (ps, ms) \<Longrightarrow> p \<notin> set ps \<Longrightarrow>
           moves (f E w) = (sset_insert p ps, if conf_getCall E p = None then ms else ms @ [EnterConference p])"
  shows "mview (run_conf E cid f M) = (call_ids M, (conf_of M)(p := Some cid), (members M)(cid := insert p (members M cid)), live M)"
proof -
  obtain a cf where c: "smap_find (m_confs M) cid = Some (a, cf)" using assms(1) by (auto simp: live_def)
  then have m: "members M cid = set (participants cf)" by (simp add: members_def)
  with assms(3) have "p \<notin> set (participants cf)" by (auto simp: unlisted_def)
  with assms(2) show ?thesis by (subst run_conf_view [where f = f, OF c assms(4) [OF moves_start]]) (auto simp: env_call_iff m)
qed

lemma run_destroy_view:
  "mview (run_conf E cid Conference_destroy M) =
     (call_ids M, \<lambda>p. if p \<in> members M cid then None else conf_of M p, members M, live M)"
proof (cases "smap_find (m_confs M) cid")
  case (Some acf)
  obtain a cf where "acf = (a, cf)" by (cases acf)
  with Some have c: "smap_find (m_confs M) cid = Some (a, cf)" by simp
  then have m: "members M cid = set (participants cf)" by (simp add: members_def)
  have fold: "foldl (apply_move cid ids) co (map ExitConference ps) = (\<lambda>p. if p \<in> set ps \<and> p \<in> ids then None else co p)" for ids co ps
    by (induction ps arbitrary: co) (auto simp: fun_eq_iff)
  have "conf_of M p = None" if "p \<notin> call_ids M" for p using that by (simp add: conf_of_def call_ids_def domIff)
  with m show ?thesis
    by (subst run_conf_view [where f = Conference_destroy, OF c moves_destroy [OF moves_start]]) (auto simp: fold env_call_iff fun_eq_iff fun_upd_idem)
qed (simp add: run_conf_def mview_def members_def)

text \<open>A conference that nobody holds any more lets its calls go.\<close>

lemma release_view:
  "mview (release_conf E held cid M) =
     (if cid \<in> set (m_attached M) \<or> cid \<in> set held then mview M
      else (call_ids M, \<lambda>p. if p \<in> members M cid then None else conf_of M p, (members M)(cid := {}), live M - {cid}))"
proof -
  let ?M1 = "run_conf E cid Conference_destroy M"
  have "mview (?M1\<lparr>m_confs := smap_erase cid (m_confs ?M1)\<rparr>) = (call_ids ?M1, conf_of ?M1, (members ?M1)(cid := {}), live ?M1 - {cid})"
    by (auto simp: mview_defs split: if_splits)
  then show ?thesis by (simp add: release_conf_def Let_def mview_eqD [OF run_destroy_view])
qed

lemma release_agree: assumes "agree M" shows "agree (release_conf E held cid M)"
proof (cases "cid \<in> set (m_attached M) \<or> cid \<in> set held")
  case True
  with assms agree_cong release_view [of E held cid M] show ?thesis by metis
next
  case False
  then have v: "mview (release_conf E held cid M) =
      (call_ids M, \<lambda>p. if p \<in> members M cid then None else conf_of M p, (members M)(cid := {}), live M - {cid})"
    by (simp add: release_view)
  show ?thesis unfolding agree_def mview_eqD [OF v]
  proof (intro allI impI)
    fix p x
    assume "p \<in> call_ids M"
    with assms have "p \<in> members M y \<longleftrightarrow> conf_of M p = Some y" for y by (rule agreeD)
    then show "p \<in> ((members M)(cid := {})) x \<longleftrightarrow> (if p \<in> members M cid then None else conf_of M p) = Some x" by auto
  qed
qed

lemma release_members:
  "members (release_conf E held cid M) x \<subseteq> members M x" "call_ids (release_conf E held cid M) = call_ids M"
  "x \<in> set held \<Longrightarrow> members (release_conf E held cid M) x = members M x" "x \<in> set held \<Longrightarrow> x \<in> live (release_conf E held cid M) \<longleftrightarrow> x \<in> live M"
  using release_view [of E held cid M] by (auto simp: mview_def split: if_splits)

definition conf_left :: "('q, 's) mgr_env \<Rightarrow> string \<Rightarrow> string \<Rightarrow> ('s, 'q, 'r) mgr \<Rightarrow> ('s, 'q, 'r) mgr" where
  "conf_left E cid i M =
     run_conf E cid processRemainingParticipants (conf_changed cid (removeAudio E i (run_conf E cid (\<lambda>E. removeParticipant E i) M)))"

lemma conf_left_view:
  assumes "agree M"
  shows "mview (conf_left E cid i M) =
    (call_ids M, if i \<in> members M cid then (conf_of M)(i := None) else conf_of M, (members M)(cid := members M cid - {i}), live M)"
  unfolding conf_left_def by (simp add: run_remove_view [OF assms])

lemma removed_agree:
  assumes "agree M"
    and "mview M' = (call_ids M, if i \<in> members M cid then (conf_of M)(i := None) else conf_of M, (members M)(cid := members M cid - {i}), live M)"
  shows "agree M'"
  unfolding agree_def mview_eqD [OF assms(2)]
proof (intro allI impI)
  fix p x
  assume "p \<in> call_ids M"
  with assms(1) have "p \<in> members M y \<longleftrightarrow> conf_of M p = Some y" for y by (rule agreeD)
  then show "p \<in> ((members M)(cid := members M cid - {i})) x \<longleftrightarrow> (if i \<in> members M cid then (conf_of M)(i := None) else conf_of M) p = Some x"
    by auto
qed

lemma mgr_remove_cases:
  assumes "agree M"
  obtains "mgr_removeParticipant E held i M = M" "i \<in> call_ids M \<Longrightarrow> unlisted i M"
  | cid where "conf_of M i = Some cid" "mgr_removeParticipant E held i M = release_conf E held cid (conf_left E cid i M)"
proof (cases "smap_find (m_calls M) i")
  case None
  with that(1) show ?thesis by (simp add: mgr_removeParticipant_def call_ids_def domIff)
next
  case (Some c)
  show ?thesis
  proof (cases "call_getConference c M")
    case None
    have "i \<notin> members M cid" if "i \<in> call_ids M" for cid
    proof
      assume m: "i \<in> members M cid"
      with assms that have "conf_of M i = Some cid" by (simp add: agreeD)
      with Some members_live [OF m] None show False by (auto simp: call_getConference_def conf_of_def live_def)
    qed
    with Some None that(1) show ?thesis by (simp add: mgr_removeParticipant_def unlisted_def)
  next
    case (Some cid)
    with \<open>smap_find (m_calls M) i = Some c\<close> that(2) show ?thesis
      by (auto simp: mgr_removeParticipant_def conf_left_def Let_def conf_of_def call_getConference_def split: option.splits if_splits)
  qed
qed

lemma mgr_remove_agree:
  assumes "agree M"
  shows "agree (mgr_removeParticipant E held i M)" "call_ids (mgr_removeParticipant E held i M) = call_ids M"
    "i \<in> call_ids M \<Longrightarrow> unlisted i (mgr_removeParticipant E held i M)"
    "unlisted p M \<Longrightarrow> unlisted p (mgr_removeParticipant E held i M)"
    "x \<in> set held \<Longrightarrow> i \<in> call_ids M \<Longrightarrow> members (mgr_removeParticipant E held i M) x = members M x - {i}"
    "x \<in> set held \<Longrightarrow> x \<in> live (mgr_removeParticipant E held i M) \<longleftrightarrow> x \<in> live M"
proof -
  have "agree (mgr_removeParticipant E held i M) \<and> call_ids (mgr_removeParticipant E held i M) = call_ids M \<and>
    (i \<in> call_ids M \<longrightarrow> unlisted i (mgr_removeParticipant E held i M)) \<and> (unlisted p M \<longrightarrow> unlisted p (mgr_removeParticipant E held i M)) \<and>
    (x \<in> set held \<longrightarrow> i \<in> call_ids M \<longrightarrow> members (mgr_removeParticipant E held i M) x = members M x - {i}) \<and>
    (x \<in> set held \<longrightarrow> (x \<in> live (mgr_removeParticipant E held i M) \<longleftrightarrow> x \<in> live M))"
    using assms
  proof (cases rule: mgr_remove_cases [where E = E and held = held and i = i])
    case 1
    with assms show ?thesis by (auto simp: unlisted_def)
  next
    case (2 cid)
    let ?M1 = "conf_left E cid i M"
    note v = conf_left_view [OF assms, of E cid i]
    have a: "agree ?M1" by (rule removed_agree [OF assms v])
    have m: "members ?M1 y = members M y - (if y = cid then {i} else {})" for y using mview_eqD(3) [OF v] by simp
    have "i \<in> call_ids M \<Longrightarrow> i \<notin> members M y" if "y \<noteq> cid" for y using assms 2(1) that by (simp add: agreeD)
    then have u: "i \<in> call_ids M \<Longrightarrow> members ?M1 y = members M y - {i}" for y using m by auto
    have "unlisted q (release_conf E held cid ?M1)" if "unlisted q ?M1" for q
      using that release_members(1) unfolding unlisted_def by blast
    moreover have "i \<in> call_ids M \<Longrightarrow> unlisted i ?M1" "unlisted p M \<Longrightarrow> unlisted p ?M1" using u m by (simp_all add: unlisted_def)
    ultimately show ?thesis
      unfolding 2(2) using u by (auto simp: release_agree [OF a] release_members mview_eqD [OF v])
  qed
  then show "agree (mgr_removeParticipant E held i M)" "call_ids (mgr_removeParticipant E held i M) = call_ids M"
    "i \<in> call_ids M \<Longrightarrow> unlisted i (mgr_removeParticipant E held i M)"
    "unlisted p M \<Longrightarrow> unlisted p (mgr_removeParticipant E held i M)"
    "x \<in> set held \<Longrightarrow> i \<in> call_ids M \<Longrightarrow> members (mgr_removeParticipant E held i M) x = members M x - {i}"
    "x \<in> set held \<Longrightarrow> x \<in> live (mgr_removeParticipant E held i M) \<longleftrightarrow> x \<in> live M"
    by blast+
qed

section \<open>Joining\<close>

lemma entered_agree:
  assumes "agree M" and "unlisted i M"
    and "mview M' = (call_ids M, (conf_of M)(i := Some cid), (members M)(cid := insert i (members M cid)), live M)"
  shows "agree M'"
  unfolding agree_def mview_eqD [OF assms(3)]
proof (intro allI impI)
  fix p x
  assume "p \<in> call_ids M"
  with assms(1) have "p \<in> members M y \<longleftrightarrow> conf_of M p = Some y" for y by (rule agreeD)
  with assms(2) show "p \<in> ((members M)(cid := insert i (members M cid))) x \<longleftrightarrow> ((conf_of M)(i := Some cid)) p = Some x"
    by (auto simp: unlisted_def)
qed

lemma agree_unlisted: "agree M \<Longrightarrow> i \<in> call_ids M \<Longrightarrow> conf_of M i = None \<Longrightarrow> unlisted i M"
  by (simp add: unlisted_def agreeD)

lemma find_call_ids: "i \<in> call_ids M \<Longrightarrow> \<exists>c. smap_find (m_calls M) i = Some c" "smap_find (m_calls M) i = Some c \<Longrightarrow> i \<in> call_ids M"
  by (auto simp: call_ids_def)

lemma bind_result:
  fixes E :: "('q, 's) mgr_env" and M :: "('s, 'q, 'r) mgr"
  assumes "agree M" and "i \<in> call_ids M" and "cid \<in> live M" and "cid \<in> set held"
  defines "M' \<equiv> mgr_bindCallToConference E held i cid M"
  shows "agree M' \<and> call_ids M' = call_ids M \<and> members M' cid = insert i (members M cid) \<and> conf_of M' i = Some cid \<and>
    (\<forall>x \<in> set held. x \<in> live M' \<longleftrightarrow> x \<in> live M) \<and> (\<forall>p. p \<noteq> i \<longrightarrow> unlisted p M \<longrightarrow> unlisted p M')"
proof -
  obtain c where c: "smap_find (m_calls M) i = Some c" using assms(2) find_call_ids by blast
  define M1 where "M1 = (if isConferenceParticipant c then mgr_removeParticipant E held i M else M)"
  have M': "M' = run_conf E cid (\<lambda>E. bindCallToConference E i (getStateStr (mc_call c))) M1"
    using c by (simp add: M'_def M1_def mgr_bindCallToConference_def detachParticipant_def)
  have 1: "agree M1 \<and> call_ids M1 = call_ids M \<and> unlisted i M1 \<and> members M1 cid = members M cid - {i} \<and>
    (\<forall>x \<in> set held. x \<in> live M1 \<longleftrightarrow> x \<in> live M) \<and> (\<forall>p. unlisted p M \<longrightarrow> unlisted p M1)"
  proof (cases "isConferenceParticipant c")
    case True
    with assms show ?thesis by (simp add: M1_def mgr_remove_agree)
  next
    case False
    with c have "conf_of M i = None" by (simp add: conf_of_def isConferenceParticipant_def)
    with assms agree_unlisted have "unlisted i M" by blast
    then have "i \<notin> members M cid" by (simp add: unlisted_def)
    with False assms \<open>unlisted i M\<close> show ?thesis by (simp add: M1_def)
  qed
  have "mview M' = (call_ids M1, (conf_of M1)(i := Some cid), (members M1)(cid := insert i (members M1 cid)), live M1)"
    unfolding M' using 1 assms by (intro run_enter_view moves_bind) auto
  from mview_eqD [OF this] entered_agree [OF _ _ this] 1 show ?thesis by (auto simp: unlisted_def)
qed

lemma bind_agree:
  assumes "agree M" and "cid \<in> set held" shows "agree (mgr_bindCallToConference E held i cid M)"
proof (cases "i \<in> call_ids M \<and> cid \<in> live M")
  case True
  with bind_result assms show ?thesis by blast
next
  case False
  show ?thesis
  proof (cases "i \<in> call_ids M")
    case True
    with False have dead: "cid \<notin> live M" by simp
    obtain c where c: "smap_find (m_calls M) i = Some c" using True find_call_ids by blast
    define M1 where "M1 = (if isConferenceParticipant c then mgr_removeParticipant E held i M else M)"
    have "agree M1" "cid \<notin> live M1" using assms dead by (simp_all add: M1_def mgr_remove_agree)
    moreover have "run_conf E cid f M1 = M1" for f using \<open>cid \<notin> live M1\<close> by (auto simp: run_conf_def live_def split: option.split)
    moreover have "mgr_bindCallToConference E held i cid M = run_conf E cid (\<lambda>E. bindCallToConference E i (getStateStr (mc_call c))) M1"
      using c by (simp add: mgr_bindCallToConference_def detachParticipant_def M1_def)
    ultimately show ?thesis by simp
  next
    case False
    then have "smap_find (m_calls M) i = None" by (auto simp: call_ids_def)
    with assms show ?thesis by (simp add: mgr_bindCallToConference_def)
  qed
qed

lemma quiet_conf_op [simp]:
  "mview (run_conf E cid attachLocalParticipant M) = mview M" "mview (run_conf E cid detachLocalParticipant M) = mview M"
  "mview (run_conf E cid (\<lambda>_. conf_setState st) M) = mview M" "mview (run_conf E cid (\<lambda>_. muteLocalPlayback b) M) = mview M"
  "mview (run_conf E cid (\<lambda>E w. attachLocalParticipant E (setLocalHostDefaultMediaSource E v src w)) M) = mview M"
  "mview (addMainParticipant E cid M) = mview M"
  by (simp_all add: run_conf_quiet addMainParticipant_def)

lemma add_participant_view: "mview (add_participant E held i cid M) = mview (mgr_bindCallToConference E held i cid M)"
  by (simp add: add_participant_def Let_def split: option.split)

lemma add_participant_agree: "agree M \<Longrightarrow> cid \<in> set held \<Longrightarrow> agree (add_participant E held i cid M)"
  using agree_cong [OF add_participant_view] bind_agree by blast

section \<open>The operations\<close>

text \<open>Rewriting with equal views.\<close>

lemma agree_simps [simp]:
  "agree (mgr_emit e M) = agree M" "agree (on_pool f M) = agree M" "agree (on_ring g M) = agree M" "agree (switchCall i M) = agree M"
  "agree (unsetCurrentCall M) = agree M" "agree (addWaitingCall i M) = agree M" "agree (removeWaitingCall i M) = agree M"
  "agree (tone_stop E M) = agree M" "agree (clear_pending i M) = agree M" "agree (always_record E i M) = agree M"
  "agree (M\<lparr>m_attached := ids\<rparr>) = agree M" "agree (conf_changed cid M) = agree M" "agree (M\<lparr>incomingBeep := b\<rparr>) = agree M"
  "agree (addAudio E i M) = agree M" "agree (removeAudio E i M) = agree M" "agree (snd (answerCall E i ms M)) = agree M"
  "agree (snd (onHoldCall E i M)) = agree M" "agree (snd (offHoldCall E i M)) = agree M" "agree (addMainParticipant E cid M) = agree M"
  "agree (run_conf E cid detachLocalParticipant M) = agree M" "agree (run_conf E cid (\<lambda>_. conf_setState st) M) = agree M"
  "agree (run_conf E cid (\<lambda>_. muteLocalPlayback b) M) = agree M"
  "agree (run_conf E cid (\<lambda>E w. attachLocalParticipant E (setLocalHostDefaultMediaSource E v src w)) M) = agree M"
  by (rule agree_cong; simp)+

lemma drop_agree: "agree M \<Longrightarrow> agree (drop_call E i M)"
  unfolding agree_def mview_eqD [OF mview_drop_call] by auto

lemma sip_agree:
  "agree M \<Longrightarrow> agree (sip_hangup E i M)" "agree (snd (sip_refuse E i M)) = agree M" "agree (sip_peerHungup E i M) = agree M"
proof -
  have c: "(\<And>k. call_conf (fst (f k)) = call_conf k) \<Longrightarrow> agree (on_call i f M) = agree M" for f and M :: "('a, 'b, 'c) mgr"
    by (rule agree_cong) simp
  have u: "agree (upd_call i (\<lambda>c. c\<lparr>mc_localHangup := True\<rparr>) M) = agree M" for M :: "('a, 'b, 'c) mgr" by (rule agree_cong) simp
  show "agree M \<Longrightarrow> agree (sip_hangup E i M)" by (simp add: sip_hangup_def Let_def c u drop_agree split: option.split)
  show "agree (snd (sip_refuse E i M)) = agree M" "agree (sip_peerHungup E i M) = agree M"
    by (simp_all add: sip_refuse_def sip_peerHungup_def Let_def c split: option.split)
qed

lemma hangup_agree: "agree M \<Longrightarrow> agree (snd (Manager_hangupCall E held a i M))"
  by (simp add: Manager_hangupCall_def Let_def sip_agree mgr_remove_agree(1) split: option.split)

lemma fold_agree: "(\<And>s x. agree s \<Longrightarrow> agree (f s x)) \<Longrightarrow> agree s \<Longrightarrow> agree (foldl f s xs)"
  by (induction xs arbitrary: s) auto

lemma hangupConference_agree: "agree M \<Longrightarrow> agree (hangupConference E cid M)"
  by (simp add: hangupConference_def fold_agree hangup_agree split: option.split)

lemma unHold_agree: "agree M \<Longrightarrow> agree (snd (unHoldConference E a cid M))"
  by (simp add: unHoldConference_def Let_def fold_agree split: option.split conf_state.split)

lemma incoming_agree:
  fixes E :: "('q, 's) mgr_env" and M :: "('s, 'q, 'r) mgr"
  assumes "agree M" shows "agree (incomingCall E a i headers M)"
proof -
  have u: "agree (upd_call i (\<lambda>c. c\<lparr>mc_call := (mc_call c)\<lparr>peerNumber := f c\<rparr>\<rparr>) M) = agree M" for f by (rule agree_cong) simp
  have p: "agree (register_alert E b a' acc i M) = agree M" "agree (ring_incoming E account b c acc i M) = agree M"
    "agree (replace_current account a' k cur i c M) = agree M" for b a' acc account c k cur and M :: "('s, 'q, 'r) mgr"
    by (auto simp: register_alert_def ring_incoming_def replace_current_def Let_def intro!: agree_cong split: option.split)
  have "agree M \<Longrightarrow> agree (processIncomingCall E a i headers M)" for M :: "('s, 'q, 'r) mgr"
    by (auto simp: processIncomingCall_def Let_def case_prod_beta sip_agree drop_agree p split: option.split)
  with u assms show ?thesis by (simp add: incomingCall_def Let_def)
qed

lemma reports_agree:
  fixes E :: "('q, 's) mgr_env" and M :: "('s, 'q, 'r) mgr"
  assumes "agree M"
  shows "agree (onCallEarlyMedia E i M)" "agree (peerAnsweredCall E i M)" "agree (peerRingingCall E M)" "agree (peerHungupCall E i M)"
    "agree (callBusy E i M)" "agree (callFailure E i M)"
proof -
  have "mview (onCallEarlyMedia E i M) = mview M" by (simp add: onCallEarlyMedia_def Let_def split: option.split)
  with assms agree_cong show "agree (onCallEarlyMedia E i M)" by blast
  have idle: "agree (stop_tone_if_idle E M) = agree M" for M :: "('s, 'q, 'r) mgr" by (simp add: stop_tone_if_idle_def)
  show "agree (peerAnsweredCall E i M)" "agree (peerRingingCall E M)" "agree (peerHungupCall E i M)"
    "agree (callBusy E i M)" "agree (callFailure E i M)"
    using assms by (simp_all add: peerAnsweredCall_def peerRingingCall_def peerHungupCall_def callBusy_def callFailure_def Let_def
        idle sip_agree mgr_remove_agree(1) split: option.split)
qed

lemma messages_agree:
  fixes E :: "('q, 's) mgr_env" and M :: "('s, 'q, 'r) mgr"
  assumes "agree M" shows "agree (incomingMessage E a i from ms M)" "agree (sendCallTextMessage E a i ms from M)"
proof -
  have t: "agree (sendTextMessageToConference cf ms from M)" for cf
    unfolding sendTextMessageToConference_def using assms by (intro fold_agree) (simp_all split: option.split)
  with assms show "agree (incomingMessage E a i from ms M)" "agree (sendCallTextMessage E a i ms from M)"
    by (simp_all add: incomingMessage_def sendCallTextMessage_def Let_def split: option.split)
qed

lemma joinConference_agree:
  assumes "agree M" shows "agree (snd (joinConference E a1 c1 a2 c2 M))"
proof -
  have 1: "agree (foldl (\<lambda>M i. removeAudio E i (run_conf E c1 (\<lambda>E. removeParticipant E i) M)) M is)" for "is"
    using assms by (intro fold_agree) (simp add: removed_agree [OF _ run_remove_view])
  have 2: "agree M' \<Longrightarrow> agree (foldl (\<lambda>M i. add_participant E [c1, c2] i c2 M) M' is)" for "is" M'
    by (intro fold_agree add_participant_agree) simp_all
  show ?thesis using assms 1 by (simp add: joinConference_def Let_def 2 release_agree split: option.split)
qed

text \<open>New calls and new conferences.\<close>

lemma new_call_view:
  "call_conf (mc_call c) = None \<Longrightarrow>
   mview (M\<lparr>m_calls := smap_set i c (m_calls M)\<rparr>) = (insert i (call_ids M), (conf_of M)(i := None), members M, live M)"
  by (auto simp: mview_defs split: if_splits)

lemma new_call_agree:
  assumes "agree M" and "unlisted i M" and "call_conf (mc_call c) = None"
  shows "agree (M\<lparr>m_calls := smap_set i c (m_calls M)\<rparr>)"
  using assms(1,2) unfolding agree_def mview_eqD [OF new_call_view [OF assms(3)]] by (auto simp: unlisted_def)

lemma new_call_unlisted: "new_call_ok M (i, c) \<Longrightarrow> unlisted i M"
  by (auto simp: new_call_ok_def unlisted_def members_def list_all_iff dest!: map_of_SomeD split: option.splits)

lemma new_call_okD: "new_call_ok M (i, c) \<Longrightarrow> unlisted i M \<and> call_conf (mc_call c) = None"
  using new_call_unlisted by (auto simp: new_call_ok_def)

lemma outgoing_agree:
  assumes "agree M" and "pred_option (\<lambda>(i, c). unlisted i M \<and> call_conf (mc_call c) = None) new"
  shows "agree (snd (outgoingCall E new M))"
  using assms by (auto simp: outgoingCall_def new_call_agree split: option.split)

lemma new_conf_view:
  assumes "cid \<notin> live M"
  shows "mview (M\<lparr>m_confs := smap_set cid (a, Conference_new cid) (m_confs M)\<rparr>) = (call_ids M, conf_of M, members M, insert cid (live M))"
proof -
  from assms have "smap_find (m_confs M) cid = None" by (auto simp: live_def)
  then show ?thesis by (auto simp: mview_defs Conference_new_def split: if_splits)
qed

lemma new_conf_agree:
  assumes "agree M" and "cid \<notin> live M" shows "agree (M\<lparr>m_confs := smap_set cid (a, Conference_new cid) (m_confs M)\<rparr>)"
  using assms(1) unfolding agree_def mview_eqD [OF new_conf_view [OF assms(2)]] by simp

section \<open>Conferences that an account lists\<close>

lemma attached_simps [simp]:
  "m_attached (mgr_emit e M) = m_attached M" "m_attached (on_pool f M) = m_attached M" "m_attached (on_ring g M) = m_attached M"
  "m_attached (switchCall i M) = m_attached M" "m_attached (unsetCurrentCall M) = m_attached M"
  "m_attached (removeWaitingCall i M) = m_attached M" "m_attached (take_stream ty M) = m_attached M"
  "m_attached (drop_stream E ty b M) = m_attached M" "m_attached (tone_stop E M) = m_attached M" "m_attached (clear_pending i M) = m_attached M"
  "m_attached (always_record E i M) = m_attached M" "m_attached (switch_to_call i M) = m_attached M"
  "m_attached (conf_changed cid M) = m_attached M" "m_attached (upd_call i h M) = m_attached M" "m_attached (on_call i k M) = m_attached M"
  by (simp_all add: mgr_emit_def on_pool_def on_ring_def switchCall_def unsetCurrentCall_def removeWaitingCall_def
      take_stream_def drop_stream_def tone_stop_def clear_pending_def always_record_def switch_to_call_def conf_changed_def upd_call_def
      on_call_def Let_def split: option.split prod.split)

lemma attached_sound [simp]: "m_attached (addAudio E i M) = m_attached M" "m_attached (removeAudio E i M) = m_attached M"
  by (simp_all add: addAudio_def removeAudio_def Let_def split: option.split)

lemma attached_hold [simp]:
  "m_attached (snd (set_callState E i cs M)) = m_attached M" "m_attached (snd (sip_hold E i M)) = m_attached M"
  "m_attached (snd (sip_offhold E i M)) = m_attached M" "m_attached (snd (sip_answer E i ms M)) = m_attached M"
proof -
  show s: "m_attached (snd (set_callState E i cs M)) = m_attached M" for cs and M :: "('a, 'b, 'c) mgr"
    by (simp add: set_callState_def split: option.split)
  show h: "m_attached (snd (sip_hold E i M)) = m_attached M" for M :: "('a, 'b, 'c) mgr"
    by (simp add: sip_hold_def Let_def case_prod_beta s split: option.split)
  show "m_attached (snd (sip_offhold E i M)) = m_attached M" "m_attached (snd (sip_answer E i ms M)) = m_attached M"
    by (simp_all add: sip_offhold_def sip_answer_def Let_def case_prod_beta s h split: option.split answer_outcome.split)
qed

lemma attached_commands [simp]:
  "m_attached (snd (answerCall E i ms M)) = m_attached M" "m_attached (snd (onHoldCall E i M)) = m_attached M"
  "m_attached (snd (offHoldCall E i M)) = m_attached M"
  by (simp_all add: answerCall_def onHoldCall_def offHoldCall_def Let_def case_prod_beta split: option.split)

lemma perform_attached:
  "m_attached (perform E cid e M) = (if e = RemoveConference then removeAll cid (m_attached M) else m_attached M)"
  by (cases "(E, cid, e, M)" rule: perform.cases)
    (simp_all add: sip_enterConference_def sip_exitConference_def removeAll_id split: option.split)

lemma performs_attached:
  "set (m_attached (foldl (\<lambda>M e. perform E cid e M) M es)) =
     (if RemoveConference \<in> set es then set (m_attached M) - {cid} else set (m_attached M))"
  by (induction es arbitrary: M) (auto simp: perform_attached)

text \<open>An operation on one conference does not take another one off its account's list.\<close>

lemma run_conf_attached:
  "x \<noteq> cid \<Longrightarrow> x \<in> set (m_attached (run_conf E cid f M)) \<longleftrightarrow> x \<in> set (m_attached M)"
  by (simp add: run_conf_def Let_def performs_attached split: option.split prod.split)

lemma run_conf_attached_self:
  assumes "\<And>E w ps ms. moves w = (ps, ms) \<Longrightarrow> participants cf = ps \<Longrightarrow> RemoveConference \<notin> set ms \<Longrightarrow>
      RemoveConference \<notin> set (snd (moves (f E w)))"
    and "smap_find (m_confs M) cid = Some (a, cf)"
  shows "set (m_attached (run_conf E cid f M)) = set (m_attached M)"
proof -
  let ?w = "f (conf_env_of E a M) \<lparr>conf = cf, rb_pool = m_pool M, conf_log = []\<rparr>"
  have "RemoveConference \<notin> set (snd (moves ?w))" by (rule assms(1) [OF moves_start]) simp_all
  then have "RemoveConference \<notin> set (conf_log ?w)" by (simp add: moves_def)
  then show ?thesis by (simp add: run_conf_def Let_def assms(2) performs_attached)
qed

lemma run_conf_attached_quiet:
  assumes "\<And>E w. moves (f E w) = moves w" shows "set (m_attached (run_conf E cid f M)) = set (m_attached M)"
proof (cases "smap_find (m_confs M) cid")
  case (Some acf)
  obtain a cf where "acf = (a, cf)" by (cases acf)
  with Some have "smap_find (m_confs M) cid = Some (a, cf)" by simp
  from run_conf_attached_self [OF _ this] assms show ?thesis by simp
qed (simp add: run_conf_def)

lemma release_attached: "x \<noteq> cid \<Longrightarrow> x \<in> set (m_attached (release_conf E held cid M)) \<longleftrightarrow> x \<in> set (m_attached M)"
  by (simp add: release_conf_def Let_def run_conf_attached)

lemma mgr_remove_attached:
  "conf_of M i \<noteq> Some x \<Longrightarrow> x \<in> set (m_attached (mgr_removeParticipant E held i M)) \<longleftrightarrow> x \<in> set (m_attached M)"
  by (auto simp: mgr_removeParticipant_def Let_def conf_of_def call_getConference_def release_attached run_conf_attached
      split: option.splits if_splits)

lemma bind_attached:
  assumes "agree M" and "i \<in> call_ids M" and "i \<notin> members M cid" and "cid \<in> live M" and "cid \<in> set held"
  shows "cid \<in> set (m_attached (mgr_bindCallToConference E held i cid M)) \<longleftrightarrow> cid \<in> set (m_attached M)"
proof -
  obtain c where c: "smap_find (m_calls M) i = Some c" using assms(2) find_call_ids by blast
  define M1 where "M1 = (if isConferenceParticipant c then mgr_removeParticipant E held i M else M)"
  have b: "mgr_bindCallToConference E held i cid M = run_conf E cid (\<lambda>E. bindCallToConference E i (getStateStr (mc_call c))) M1"
    using c by (simp add: M1_def mgr_bindCallToConference_def detachParticipant_def)
  have "conf_of M i \<noteq> Some cid" using assms by (simp add: agreeD [symmetric])
  then have a: "cid \<in> set (m_attached M1) \<longleftrightarrow> cid \<in> set (m_attached M)" by (simp add: M1_def mgr_remove_attached)
  have "cid \<in> live M1" "members M1 cid = members M cid - {i}" using assms by (simp_all add: M1_def mgr_remove_agree)
  then obtain ac cf where cf: "smap_find (m_confs M1) cid = Some (ac, cf)" and "i \<notin> set (participants cf)"
    by (auto simp: live_def members_def)
  then have "set (m_attached (run_conf E cid (\<lambda>E. bindCallToConference E i (getStateStr (mc_call c))) M1)) = set (m_attached M1)"
    by (intro run_conf_attached_self [OF _ cf]) (auto simp: moves_bind)
  with a b show ?thesis by simp
qed

section \<open>A conference of two calls\<close>

lemma joinParticipant_result:
  fixes E :: "('q, 's) mgr_env" and M :: "('s, 'q, 'r) mgr" and attached mute :: bool
  assumes "agree M" and "cid \<notin> live M" and "i1 \<noteq> i2" and "account_getCall E a1 i1 M = Some c1" and "account_getCall E a2 i2 M = Some c2"
  defines "R \<equiv> joinParticipant E cid a1 i1 a2 i2 attached mute M"
  shows "fst R \<and> agree (snd R) \<and> members (snd R) cid = {i1, i2} \<and> conf_of (snd R) i1 = Some cid \<and> conf_of (snd R) i2 = Some cid \<and>
    cid \<in> set (m_attached (snd R)) \<and> call_ids (snd R) = call_ids M"
proof -
  have acc: "me_accounts E a1 \<noteq> None" "me_accounts E a2 \<noteq> None" and i: "i1 \<in> call_ids M" "i2 \<in> call_ids M"
    using assms(4,5) by (auto simp: account_getCall_def call_ids_def split: if_splits option.splits)
  define M1 where "M1 = M\<lparr>m_confs := smap_set cid (a1, Conference_new cid) (m_confs M)\<rparr>"
  define M2 where "M2 = (if mute then run_conf E cid (\<lambda>_. muteLocalPlayback True) M1 else M1)"
  define M3 where "M3 = mgr_emit (ConferenceCreated a1 cid) (M2\<lparr>m_attached := cid # m_attached M2\<rparr>)"
  define Ma where "Ma = mgr_bindCallToConference E [cid] i1 cid M3"
  define Mb where "Mb = mgr_bindCallToConference E [cid] i2 cid Ma"
  have v3: "mview M3 = (call_ids M, conf_of M, members M, insert cid (live M))"
    using new_conf_view [OF assms(2), of a1] by (simp add: M3_def M2_def M1_def)
  have none: "members M cid = {}" using assms(2) members_live by blast
  have a3: "agree M3" using assms(1) unfolding agree_def mview_eqD [OF v3] .
  have ra: "agree Ma \<and> call_ids Ma = call_ids M \<and> members Ma cid = {i1} \<and> cid \<in> live Ma"
    unfolding Ma_def using bind_result [OF a3, of i1 cid "[cid]" E] i none by (simp add: mview_eqD [OF v3])
  have rb: "agree Mb \<and> call_ids Mb = call_ids M \<and> members Mb cid = {i1, i2} \<and> cid \<in> live Mb"
    unfolding Mb_def using bind_result [of Ma i2 cid "[cid]" E] i ra by auto
  have "cid \<in> set (m_attached M3)" by (simp add: M3_def)
  then have "cid \<in> set (m_attached Ma)"
    unfolding Ma_def using bind_attached [OF a3, of i1 cid "[cid]" E] i none by (simp add: mview_eqD [OF v3])
  then have att: "cid \<in> set (m_attached Mb)"
    unfolding Mb_def using bind_attached [of Ma i2 cid "[cid]" E] i ra assms(3) by simp
  obtain v src where vs: "conference_video (cp_media (mc_peer c1)) (cp_media (mc_peer c2)) = (v, src)"
    by (cases "conference_video (cp_media (mc_peer c1)) (cp_media (mc_peer c2))")
  define Mc where "Mc = (if attached
      then run_conf E cid (\<lambda>_. conf_setState ACTIVE_ATTACHED) (switchCall cid
             (run_conf E cid (\<lambda>E w. attachLocalParticipant E (setLocalHostDefaultMediaSource E v src w)) Mb))
      else run_conf E cid detachLocalParticipant Mb)"
  have R: "R = (True, release_conf E [] cid (conf_changed cid Mc))"
    using assms(3-5) acc vs by (simp add: R_def joinParticipant_def Let_def M1_def M2_def M3_def Ma_def Mb_def Mc_def)
  have vc: "mview (conf_changed cid Mc) = mview Mb" by (simp add: Mc_def)
  have c: "cid \<in> set (m_attached (conf_changed cid Mc))" using att by (simp add: Mc_def run_conf_attached_quiet)
  then have s: "snd R = conf_changed cid Mc" by (simp add: R release_conf_def)
  have v: "mview (snd R) = mview Mb" using vc by (simp add: s)
  then have "agree (snd R)" using rb agree_cong by blast
  moreover have "cid \<in> set (m_attached (snd R))" using c by (simp add: s)
  ultimately show ?thesis using v rb i agreeD [of Mb i1 cid] agreeD [of Mb i2 cid] by (auto simp: R mview_def)
qed

lemma joinParticipant_agree:
  assumes "agree M" and "cid \<notin> live M" shows "agree (snd (joinParticipant E cid a1 i1 a2 i2 attached mute M))"
proof (cases "i1 = i2 \<or> account_getCall E a1 i1 M = None \<or> account_getCall E a2 i2 M = None")
  case True
  with assms(1) show ?thesis by (auto simp: joinParticipant_def split: option.split)
next
  case False
  with joinParticipant_result [OF assms, of i1 i2 E a1 _ a2 _ attached mute] show ?thesis by auto
qed

section \<open>A conference of new calls\<close>

definition fresh_call :: "('s, 'q, 'r) mgr \<Rightarrow> string \<times> mgr_call \<Rightarrow> bool" where
  "fresh_call M = (\<lambda>(i, c). i \<noteq> [] \<and> i \<notin> call_ids M \<and> unlisted i M \<and> call_conf (mc_call c) = None)"

lemma new_call_fresh: "new_call_ok M x \<Longrightarrow> fresh_call M x"
  by (cases x) (auto simp: fresh_call_def call_ids_def new_call_ok_def intro!: new_call_unlisted [of M _ "snd x"])

lemma call_participant_agree:
  fixes E :: "('q, 's) mgr_env" and M :: "('s, 'q, 'r) mgr" and n :: nat
  assumes "agree M" and "fresh_call M (i, c)" and "cid \<in> live M"
  defines "M' \<equiv> snd (call_participant E cid (n, M) (Some (i, c)))"
  shows "agree M' \<and> cid \<in> live M' \<and> (\<forall>x. fst x \<noteq> i \<longrightarrow> fresh_call M x \<longrightarrow> fresh_call M' x)"
proof -
  let ?M1 = "snd (outgoingCall E (Some (i, c)) (unsetCurrentCall M))"
  have u: "unlisted i M" "call_conf (mc_call c) = None" "i \<noteq> []" using assms(2) by (simp_all add: fresh_call_def)
  have v0: "mview (unsetCurrentCall M) = (call_ids M, conf_of M, members M, live M)"
    unfolding mview_basic by (simp add: mview_def)
  have "mview ?M1 = mview ((unsetCurrentCall M)\<lparr>m_calls := smap_set i c (m_calls (unsetCurrentCall M))\<rparr>)" by (simp add: outgoingCall_def)
  also have "\<dots> = (insert i (call_ids M), (conf_of M)(i := None), members M, live M)"
    by (simp only: new_call_view [OF u(2)] mview_eqD [OF v0])
  finally have v1: "mview ?M1 = (insert i (call_ids M), (conf_of M)(i := None), members M, live M)" .
  have u1: "unlisted i ?M1" using u(1) by (simp add: unlisted_def mview_eqD [OF v1])
  have a1: "agree ?M1" using assms(1) u by (intro outgoing_agree) (simp_all add: unlisted_def mview_eqD [OF v0])
  have M': "M' = run_conf E cid (\<lambda>E. addParticipant E i) ?M1"
    using u(3) by (simp add: M'_def call_participant_def case_prod_beta outgoingCall_def Let_def)
  have "mview M' = (call_ids ?M1, (conf_of ?M1)(i := Some cid), (members ?M1)(cid := insert i (members ?M1 cid)), live ?M1)"
    unfolding M' using u1 assms(3) by (intro run_enter_view moves_add) (simp_all add: mview_eqD [OF v1])
  from mview_eqD [OF this] entered_agree [OF a1 u1 this] assms(3) show ?thesis
    by (auto simp: mview_eqD [OF v1] fresh_call_def unlisted_def)
qed

lemma call_participants_agree:
  assumes "agree M" and "cid \<in> live M" and "list_all (pred_option (fresh_call M)) news" and "distinct (List.map_filter (map_option fst) news)"
  shows "agree (snd (foldl (call_participant E cid) (n, M) news))"
  using assms
proof (induction news arbitrary: n M)
  case (Cons new news)
  show ?case
  proof (cases new)
    case None
    have v: "mview (unsetCurrentCall M) = mview M" by simp
    then have "fresh_call (unsetCurrentCall M) = fresh_call M" "live (unsetCurrentCall M) = live M"
      by (simp_all add: mview_def fresh_call_def unlisted_def)
    moreover have "call_participant E cid (n, M) new = (n, unsetCurrentCall M)" using None by (simp add: call_participant_def outgoingCall_def)
    ultimately show ?thesis using None Cons.prems Cons.IH [of "unsetCurrentCall M" n] by (simp add: List.map_filter_def)
  next
    case (Some ic)
    obtain i c where ic: "ic = (i, c)" by (cases ic)
    obtain n' M' where p: "call_participant E cid (n, M) new = (n', M')" by (cases "call_participant E cid (n, M) new")
    have r: "agree M' \<and> cid \<in> live M' \<and> (\<forall>x. fst x \<noteq> i \<longrightarrow> fresh_call M x \<longrightarrow> fresh_call M' x)"
      using call_participant_agree [of M i c cid E n] Cons.prems Some ic p by simp
    have new: "x \<noteq> Some (i, d)" if "x \<in> set news" for x d
      using that Cons.prems(4) Some ic by (force simp: List.map_filter_def image_iff)
    have "list_all (pred_option (fresh_call M')) news"
      unfolding list_all_iff
    proof
      fix x assume x: "x \<in> set news"
      with Cons.prems(3) have "pred_option (fresh_call M) x" by (simp add: list_all_iff)
      with r new [OF x] show "pred_option (fresh_call M') x" by (cases x) auto
    qed
    moreover have "distinct (List.map_filter (map_option fst) news)" using Cons.prems(4) Some by (simp add: List.map_filter_def)
    ultimately show ?thesis using p r Cons.IH [of M' n'] by simp
  qed
qed simp

lemma createConf_agree:
  assumes "agree M" and "cid \<notin> live M" and "list_all (pred_option (fresh_call M)) news" and "distinct (List.map_filter (map_option fst) news)"
  shows "agree (createConfFromParticipantList E cid a news M)"
proof -
  let ?M1 = "M\<lparr>m_confs := smap_set cid (a, Conference_new cid) (m_confs M)\<rparr>"
  note v = new_conf_view [OF assms(2), of a]
  have "fresh_call ?M1 = fresh_call M" by (simp add: fresh_call_def unlisted_def mview_eqD [OF v])
  then have "agree (snd (foldl (call_participant E cid) (0, ?M1) news))"
    using assms by (intro call_participants_agree new_conf_agree) (simp_all add: mview_eqD [OF v])
  with assms(1) show ?thesis
    unfolding createConfFromParticipantList_def Let_def by (auto simp: case_prod_beta intro!: release_agree)
qed

section \<open>Runs\<close>

lemma mgr_exec_agree:
  assumes "agree M" and "mgr_op_ok M op" shows "agree (mgr_exec E op M)"
proof (cases op)
  case (NewCall i c)
  with assms have "new_call_ok M (i, c)" by simp
  then have "unlisted i M" "call_conf (mc_call c) = None" by (simp_all add: new_call_okD)
  with assms(1) NewCall show ?thesis by (simp add: new_call_agree)
next
  case (OutgoingCall new)
  with assms have "pred_option (\<lambda>(i, c). unlisted i M \<and> call_conf (mc_call c) = None) new"
    by (cases new) (auto dest: new_call_okD)
  with assms(1) OutgoingCall show ?thesis by (simp add: outgoing_agree)
next
  case (CreateConf cid a news)
  with assms have "cid \<notin> live M" "list_all (pred_option (fresh_call M)) news" "distinct (List.map_filter (map_option fst) news)"
    by (auto simp: live_def list_all_iff pred_option_def new_call_fresh)
  with assms(1) CreateConf show ?thesis by (simp add: createConf_agree)
next
  case (JoinParticipant cid a1 i1 a2 i2 att mute)
  with assms have "cid \<notin> live M" by (auto simp: live_def)
  with assms(1) JoinParticipant show ?thesis by (simp add: joinParticipant_agree)
next
  case (Transfer a i to)
  with assms(1) show ?thesis by (auto simp: transferCall_def Let_def mgr_remove_agree(1) split: option.split)
next
  case (Refuse a i)
  with assms(1) show ?thesis by (auto simp: refuseCall_def Let_def case_prod_beta sip_agree drop_agree split: option.split)
qed (use assms(1) in \<open>auto simp: Manager_answerCall_def Manager_hangupConference_def holdConference_def Manager_addParticipant_def
    Manager_addMainParticipant_def Manager_detachLocalParticipant_def detachParticipant_def mgr_newDriver_def Let_def
    incoming_agree hangup_agree hangupConference_agree unHold_agree joinConference_agree messages_agree reports_agree
    release_agree add_participant_agree mgr_remove_agree(1) drop_agree split: option.split\<close>)

lemma mgr_step_agree: "mgr_step M M' \<Longrightarrow> agree M \<Longrightarrow> agree M'"
  by (cases rule: mgr_step.cases) (auto intro: mgr_exec_agree)

lemma mgr_new_agree: "agree (mgr_new p)"
  by (simp add: mgr_new_def agree_def call_ids_def)

interpretation mm: relational_machine "\<lambda>M. \<exists>p. M = mgr_new p" mgr_step agree
  by unfold_locales (auto simp: mgr_new_agree intro: mgr_step_agree)

lemma mgr_reachable_agree: "mgr_step\<^sup>*\<^sup>* (mgr_new p) M \<Longrightarrow> agree M"
  by (rule mm.reachable_inv) auto

section \<open>Two calls\<close>

definition demo_two_calls :: "(int, int list, int) mgr" where
  "demo_two_calls = mgr_exec demo_mgr_env (NewCall ''8'' (demo_ringing_call ''8'')) demo_mgr"

definition demo_conference :: "(int, int list, int) mgr" where
  "demo_conference = mgr_exec demo_mgr_env (JoinParticipant ''conf'' ''acc'' ''7'' ''acc'' ''8'' True False) demo_two_calls"

lemma demo_two_calls_facts:
  "m_calls demo_two_calls = [(''7'', demo_ringing_call ''7''), (''8'', demo_ringing_call ''8'')]" "m_confs demo_two_calls = []"
  by (simp_all add: demo_two_calls_def demo_mgr_calls) (simp add: demo_mgr_def mgr_newDriver_def on_ring_def mgr_new_def)

lemma demo_account_calls:
  "account_getCall demo_mgr_env ''acc'' ''7'' demo_two_calls = Some (demo_ringing_call ''7'')"
  "account_getCall demo_mgr_env ''acc'' ''8'' demo_two_calls = Some (demo_ringing_call ''8'')"
  by (simp_all add: account_getCall_def demo_two_calls_facts demo_mgr_env_def demo_ringing_call_def Call_new_def)

lemma demo_two_calls_reachable: "mgr_step\<^sup>*\<^sup>* (mgr_new (RingBufferPool_new list_fifo)) demo_two_calls"
proof -
  have "mgr_step demo_mgr demo_two_calls" unfolding demo_two_calls_def
    by (rule mgr_step.intros)
      (simp_all add: new_call_ok_def demo_mgr_calls demo_ringing_call_def Call_new_def, simp add: demo_mgr_def mgr_newDriver_def on_ring_def mgr_new_def)
  with demo_mgr_reachable show ?thesis by simp
qed

lemma demo_conference_reachable: "mgr_step\<^sup>*\<^sup>* (mgr_new (RingBufferPool_new list_fifo)) demo_conference"
proof -
  have "mgr_step demo_two_calls demo_conference" unfolding demo_conference_def
    by (rule mgr_step.intros) (simp_all add: demo_two_calls_facts)
  with demo_two_calls_reachable show ?thesis by simp
qed

section \<open>Properties\<close>

text \<open>
  C2: Whatever the manager was asked to do, a call points to a conference exactly if that conference
  exists and lists the call. In particular no call is in two conferences, none points to a
  conference that is gone, and none is listed by a conference it has left.
\<close>

theorem call_knows_its_conference:
  assumes "mgr_step\<^sup>*\<^sup>* (mgr_new p) M" and "smap_find (m_calls M) i = Some c"
  shows "call_conf (mc_call c) = Some cid \<longleftrightarrow> (\<exists>a cf. smap_find (m_confs M) cid = Some (a, cf) \<and> i \<in> set (participants cf))"
proof -
  have "i \<in> members M cid \<longleftrightarrow> conf_of M i = Some cid"
    using mgr_reachable_agree [OF assms(1)] assms(2) find_call_ids(2) by (rule_tac agreeD) auto
  with assms(2) show ?thesis by (auto simp: members_def conf_of_def split: option.splits)
qed

text \<open>
  C36: Joining two calls makes a conference of exactly these two. Each of them leaves the conference it
  was in before, be it the same one for both.
\<close>

theorem joinParticipant_joins:
  assumes "mgr_step\<^sup>*\<^sup>* (mgr_new p) M" and "smap_find (m_confs M) cid = None" and "i1 \<noteq> i2"
    and "account_getCall E a1 i1 M = Some c1" and "account_getCall E a2 i2 M = Some c2"
  shows "\<exists>M' a cf. joinParticipant E cid a1 i1 a2 i2 attached mute M = (True, M') \<and>
    smap_find (m_confs M') cid = Some (a, cf) \<and> set (participants cf) = {i1, i2} \<and>
    (\<forall>x a' cf'. x \<noteq> cid \<longrightarrow> smap_find (m_confs M') x = Some (a', cf') \<longrightarrow> i1 \<notin> set (participants cf') \<and> i2 \<notin> set (participants cf'))"
proof -
  let ?R = "joinParticipant E cid a1 i1 a2 i2 attached mute M"
  have "cid \<notin> live M" using assms(2) by (auto simp: live_def)
  from joinParticipant_result [OF mgr_reachable_agree [OF assms(1)] this assms(3-5), of attached mute]
  have R: "fst ?R" "agree (snd ?R)" "members (snd ?R) cid = {i1, i2}" "conf_of (snd ?R) i1 = Some cid" "conf_of (snd ?R) i2 = Some cid"
    by auto
  then obtain a cf where cf: "smap_find (m_confs (snd ?R)) cid = Some (a, cf)" "set (participants cf) = {i1, i2}"
    by (auto simp: members_def split: option.splits)
  have "i \<in> call_ids (snd ?R)" if "conf_of (snd ?R) i = Some cid" for i
    using that by (auto simp: conf_of_def call_ids_def split: option.splits)
  with R agreeD [OF R(2)] have out: "x \<noteq> cid \<Longrightarrow> i1 \<notin> members (snd ?R) x \<and> i2 \<notin> members (snd ?R) x" for x by auto
  have "x \<noteq> cid \<longrightarrow> smap_find (m_confs (snd ?R)) x = Some (a', cf') \<longrightarrow> i1 \<notin> set (participants cf') \<and> i2 \<notin> set (participants cf')" for x a' cf'
    using out [of x] by (auto simp: members_def)
  moreover have "?R = (True, snd ?R)" using R(1) by (simp add: prod_eq_iff)
  ultimately show ?thesis using cf by blast
qed

theorem joinParticipant_joins_witness:
  "\<exists>M' a cf. joinParticipant demo_mgr_env ''conf'' ''acc'' ''7'' ''acc'' ''8'' True False demo_two_calls = (True, M') \<and>
     smap_find (m_confs M') ''conf'' = Some (a, cf) \<and> set (participants cf) = {''7'', ''8''}"
  using joinParticipant_joins [OF demo_two_calls_reachable _ _ demo_account_calls, of "''conf''" True False]
  by (auto simp: demo_two_calls_facts)

lemma demo_conference_call:
  "call_ids demo_conference = {''7'', ''8''}" "conf_of demo_conference ''7'' = Some ''conf''" "''conf'' \<in> set (m_attached demo_conference)"
proof -
  have "''conf'' \<notin> live demo_two_calls" by (simp add: live_def demo_two_calls_facts)
  from joinParticipant_result [OF mgr_reachable_agree [OF demo_two_calls_reachable] this _ demo_account_calls, of True False]
  have j: "conf_of demo_conference ''7'' = Some ''conf'' \<and> ''conf'' \<in> set (m_attached demo_conference) \<and>
      call_ids demo_conference = call_ids demo_two_calls"
    by (simp add: demo_conference_def)
  then show "conf_of demo_conference ''7'' = Some ''conf''" "''conf'' \<in> set (m_attached demo_conference)" by simp_all
  show "call_ids demo_conference = {''7'', ''8''}" using j by (auto simp: call_ids_def demo_two_calls_facts split: if_splits)
qed

theorem call_knows_its_conference_witness:
  "\<exists>a cf. smap_find (m_confs demo_conference) ''conf'' = Some (a, cf) \<and> ''7'' \<in> set (participants cf)"
proof -
  have "''7'' \<in> call_ids demo_conference" by (simp add: demo_conference_call)
  then obtain c where c: "smap_find (m_calls demo_conference) ''7'' = Some c" using find_call_ids(1) by blast
  with demo_conference_call(2) have "call_conf (mc_call c) = Some ''conf''" by (simp add: conf_of_def)
  with call_knows_its_conference [OF demo_conference_reachable c, of "''conf''"] show ?thesis by blast
qed

end
