(* ===== verification/Manager_Conferences.thy ===== *)
theory Manager_Conferences
  imports Manager_Members
begin

text \<open>
  What holds of every conference that is alive, whatever the manager was asked to do, and what
  clients are told. A property of one conference that its own operations keep is kept by
  every operation of the manager; the states that conferences take are one such property.
\<close>

section \<open>Conferences that exist\<close>

definition all_confs :: "(conference \<Rightarrow> bool) \<Rightarrow> ('s, 'q, 'r) mgr \<Rightarrow> bool" where
  "all_confs P M \<longleftrightarrow> (\<forall>cid a cf. smap_find (m_confs M) cid = Some (a, cf) \<longrightarrow> P cf)"

lemma confs_simps [simp]:
  "m_confs (mgr_emit e M) = m_confs M" "m_confs (on_pool f M) = m_confs M" "m_confs (on_ring g M) = m_confs M"
  "m_confs (switchCall i M) = m_confs M" "m_confs (unsetCurrentCall M) = m_confs M" "m_confs (addWaitingCall i M) = m_confs M"
  "m_confs (removeWaitingCall i M) = m_confs M" "m_confs (take_stream ty M) = m_confs M"
  "m_confs (drop_stream E ty b M) = m_confs M" "m_confs (tone_stop E M) = m_confs M" "m_confs (clear_pending i M) = m_confs M"
  "m_confs (always_record E i M) = m_confs M" "m_confs (switch_to_call i M) = m_confs M"
  "m_confs (conf_changed cid M) = m_confs M" "m_confs (upd_call i h M) = m_confs M" "m_confs (on_call i k M) = m_confs M"
  "m_confs (drop_call E i M) = m_confs M"
  by (simp_all add: mgr_emit_def on_pool_def on_ring_def switchCall_def unsetCurrentCall_def addWaitingCall_def removeWaitingCall_def
      take_stream_def drop_stream_def tone_stop_def clear_pending_def always_record_def switch_to_call_def conf_changed_def upd_call_def
      on_call_def drop_call_def Let_def split: option.split prod.split)

lemma confs_sound [simp]: "m_confs (addAudio E i M) = m_confs M" "m_confs (removeAudio E i M) = m_confs M"
  by (simp_all add: addAudio_def removeAudio_def Let_def split: option.split)

lemma confs_hold [simp]:
  "m_confs (snd (set_callState E i cs M)) = m_confs M" "m_confs (snd (sip_hold E i M)) = m_confs M" "m_confs (snd (sip_offhold E i M)) = m_confs M"
  "m_confs (snd (sip_answer E i ms M)) = m_confs M"
proof -
  show s: "m_confs (snd (set_callState E i cs M)) = m_confs M" for cs and M :: "('a, 'b, 'c) mgr"
    by (simp add: set_callState_def split: option.split)
  show h: "m_confs (snd (sip_hold E i M)) = m_confs M" for M :: "('a, 'b, 'c) mgr"
    by (simp add: sip_hold_def Let_def case_prod_beta s split: option.split)
  show "m_confs (snd (sip_offhold E i M)) = m_confs M" "m_confs (snd (sip_answer E i ms M)) = m_confs M"
    by (simp_all add: sip_offhold_def sip_answer_def Let_def case_prod_beta s h split: option.split answer_outcome.split)
qed

lemma confs_commands [simp]:
  "m_confs (snd (answerCall E i ms M)) = m_confs M" "m_confs (snd (onHoldCall E i M)) = m_confs M" "m_confs (snd (offHoldCall E i M)) = m_confs M"
  "m_confs (sip_hangup E i M) = m_confs M" "m_confs (snd (sip_refuse E i M)) = m_confs M" "m_confs (sip_peerHungup E i M) = m_confs M"
  by (simp_all add: answerCall_def onHoldCall_def offHoldCall_def sip_hangup_def sip_refuse_def sip_peerHungup_def Let_def case_prod_beta
      split: option.split)

lemma perform_confs [simp]: "m_confs (perform E cid e M) = m_confs M"
  by (cases "(E, cid, e, M)" rule: perform.cases)
    (simp_all add: sip_enterConference_def sip_exitConference_def split: option.split)

lemma run_conf_confs:
  "m_confs (run_conf E cid f M) =
     (case smap_find (m_confs M) cid of
        None \<Rightarrow> m_confs M
      | Some (a, cf) \<Rightarrow> smap_set cid (a, conf (f (conf_env_of E a M) \<lparr>conf = cf, rb_pool = m_pool M, conf_log = []\<rparr>)) (m_confs M))"
  by (simp add: run_conf_def Let_def foldl_keeps split: option.split prod.split)

lemma all_confs_simps [simp]:
  "all_confs P (mgr_emit e M) = all_confs P M" "all_confs P (on_ring g M) = all_confs P M" "all_confs P (switchCall i M) = all_confs P M"
  "all_confs P (unsetCurrentCall M) = all_confs P M" "all_confs P (addWaitingCall i M) = all_confs P M"
  "all_confs P (removeWaitingCall i M) = all_confs P M" "all_confs P (tone_stop E M) = all_confs P M"
  "all_confs P (clear_pending i M) = all_confs P M" "all_confs P (always_record E i M) = all_confs P M"
  "all_confs P (conf_changed cid M) = all_confs P M" "all_confs P (upd_call i h M) = all_confs P M" "all_confs P (on_call i k M) = all_confs P M"
  "all_confs P (drop_call E i M) = all_confs P M" "all_confs P (addAudio E i M) = all_confs P M" "all_confs P (removeAudio E i M) = all_confs P M"
  "all_confs P (snd (answerCall E i ms M)) = all_confs P M" "all_confs P (snd (onHoldCall E i M)) = all_confs P M"
  "all_confs P (snd (offHoldCall E i M)) = all_confs P M" "all_confs P (sip_hangup E i M) = all_confs P M"
  "all_confs P (snd (sip_refuse E i M)) = all_confs P M" "all_confs P (sip_peerHungup E i M) = all_confs P M"
  "all_confs P (perform E cid ev M) = all_confs P M" "all_confs P (on_pool f M) = all_confs P M"
  "all_confs P (M\<lparr>m_attached := ids\<rparr>) = all_confs P M" "all_confs P (M\<lparr>m_calls := cs\<rparr>) = all_confs P M"
  "all_confs P (M\<lparr>incomingBeep := b\<rparr>) = all_confs P M"
  by (simp_all add: all_confs_def)

lemma all_confs_incoming [simp]:
  "all_confs P (register_alert E b a accountId i M) = all_confs P M" "all_confs P (ring_incoming E account b c accountId i M) = all_confs P M"
  "all_confs P (replace_current account a k cur i c M) = all_confs P M"
  by (simp_all add: register_alert_def ring_incoming_def replace_current_def Let_def split: option.split)

lemma mgr_new_confs: "all_confs P (mgr_new p)"
  by (simp add: all_confs_def mgr_new_def)

section \<open>Properties that a conference keeps\<close>

locale conf_property =
  fixes P :: "conference \<Rightarrow> bool"
    and world :: "('s, 'q, 'r) conf_world itself"
  assumes new: "P (Conference_new i)"
    and add: "P (conf w) \<Longrightarrow> P (conf (addParticipant (Ec :: ('q, 's) conf_env) p (w :: ('s, 'q, 'r) conf_world)))"
    and remove: "P (conf w) \<Longrightarrow> P (conf (removeParticipant Ec p w))"
    and remaining: "P (conf w) \<Longrightarrow> P (conf (processRemainingParticipants Ec w))"
    and route: "P (conf w) \<Longrightarrow> P (conf (bindParticipant Ec p w))"
    and pool: "P (conf w) \<Longrightarrow> P (conf (with_pool q w))"
    and event: "P (conf w) \<Longrightarrow> P (conf (emit e w))"
    and attach: "P (conf w) \<Longrightarrow> P (conf (attachLocalParticipant Ec w))"
    and detach: "P (conf w) \<Longrightarrow> P (conf (detachLocalParticipant Ec w))"
    and playback: "P (conf w) \<Longrightarrow> P (conf (muteLocalPlayback b w))"
    and attached: "P (conf w) \<Longrightarrow> P (conf (conf_setState ACTIVE_ATTACHED w))"
    and sources: "P (conf w) \<Longrightarrow> P (conf (setLocalHostDefaultMediaSource Ec v src w))"
    and destroy: "P (conf w) \<Longrightarrow> P (conf (Conference_destroy Ec w))"
begin

lemma bind: "P (conf w) \<Longrightarrow> P (conf (bindCallToConference (Ec :: ('q, 's) conf_env) p st (w :: ('s, 'q, 'r) conf_world)))"
  by (simp add: bindCallToConference_def Manager_removeParticipant_def Let_def add remove remaining route pool event)

lemma run_conf:
  assumes "all_confs P M" and "\<And>Ec w. P (conf w) \<Longrightarrow> P (conf (f Ec w))"
  shows "all_confs P (run_conf (E :: ('q, 's) mgr_env) cid f (M :: ('s, 'q, 'r) mgr))"
  using assms by (auto simp: all_confs_def run_conf_confs split: option.split)

lemma release: "all_confs P M \<Longrightarrow> all_confs P (release_conf (E :: ('q, 's) mgr_env) held cid (M :: ('s, 'q, 'r) mgr))"
  using run_conf [of M Conference_destroy E cid] destroy by (auto simp: release_conf_def Let_def all_confs_def split: if_splits)

lemma fold_confs:
  "(\<And>M x. all_confs P M \<Longrightarrow> all_confs P (f M x)) \<Longrightarrow> all_confs P M \<Longrightarrow> all_confs P (foldl f (M :: ('s, 'q, 'r) mgr) xs)"
  by (induction xs arbitrary: M) auto

lemma remove_participant: "all_confs P M \<Longrightarrow> all_confs P (mgr_removeParticipant (E :: ('q, 's) mgr_env) held i (M :: ('s, 'q, 'r) mgr))"
  by (auto simp: mgr_removeParticipant_def Let_def intro!: release run_conf remaining remove split: option.split)

lemma bind_call: "all_confs P M \<Longrightarrow> all_confs P (mgr_bindCallToConference (E :: ('q, 's) mgr_env) held i cid (M :: ('s, 'q, 'r) mgr))"
  by (auto simp: mgr_bindCallToConference_def detachParticipant_def Let_def intro!: run_conf bind remove_participant split: option.split)

lemma main_participant: "all_confs P M \<Longrightarrow> all_confs P (addMainParticipant (E :: ('q, 's) mgr_env) cid (M :: ('s, 'q, 'r) mgr))"
  by (auto simp: addMainParticipant_def intro!: run_conf attach)

lemma add_call: "all_confs P M \<Longrightarrow> all_confs P (add_participant (E :: ('q, 's) mgr_env) held i cid (M :: ('s, 'q, 'r) mgr))"
  by (auto simp: add_participant_def Let_def intro!: main_participant bind_call split: option.split)

lemma hangup: "all_confs P M \<Longrightarrow> all_confs P (snd (Manager_hangupCall (E :: ('q, 's) mgr_env) held a i (M :: ('s, 'q, 'r) mgr)))"
  by (auto simp: Manager_hangupCall_def Let_def intro!: remove_participant split: option.split)

lemma hangup_conference: "all_confs P M \<Longrightarrow> all_confs P (hangupConference (E :: ('q, 's) mgr_env) cid (M :: ('s, 'q, 'r) mgr))"
  by (auto simp: hangupConference_def intro!: fold_confs hangup split: option.split)

lemma unhold: "all_confs P M \<Longrightarrow> all_confs P (snd (unHoldConference (E :: ('q, 's) mgr_env) a cid (M :: ('s, 'q, 'r) mgr)))"
  by (auto simp: unHoldConference_def Let_def intro!: run_conf attached main_participant fold_confs split: option.split conf_state.split)

lemma new_conf: "all_confs P M \<Longrightarrow> all_confs P ((M :: ('s, 'q, 'r) mgr)\<lparr>m_confs := smap_set cid (a, Conference_new cid) (m_confs M)\<rparr>)"
  by (auto simp: all_confs_def new)

lemma join: "all_confs P M \<Longrightarrow> all_confs P (snd (joinParticipant (E :: ('q, 's) mgr_env) cid a1 i1 a2 i2 att mute (M :: ('s, 'q, 'r) mgr)))"
  by (auto simp: joinParticipant_def Let_def intro!: release run_conf attached attach sources playback detach bind_call new_conf
      split: option.split prod.split)

lemma join_conferences: "all_confs P M \<Longrightarrow> all_confs P (snd (joinConference (E :: ('q, 's) mgr_env) a1 c1 a2 c2 (M :: ('s, 'q, 'r) mgr)))"
  by (auto simp: joinConference_def Let_def intro!: release fold_confs add_call run_conf remove split: option.split)

lemma create: "all_confs P M \<Longrightarrow> all_confs P (createConfFromParticipantList (E :: ('q, 's) mgr_env) cid a news (M :: ('s, 'q, 'r) mgr))"
proof -
  assume "all_confs P M"
  have out: "all_confs P M \<Longrightarrow> all_confs P (snd (outgoingCall E new M))" for new and M :: "('s, 'q, 'r) mgr"
    by (auto simp: outgoingCall_def all_confs_def split: option.split)
  have "all_confs P (snd s) \<Longrightarrow> all_confs P (snd (call_participant E cid s new))" for new and s :: "nat \<times> ('s, 'q, 'r) mgr"
    by (auto simp: call_participant_def case_prod_beta Let_def intro!: run_conf add out)
  then have "all_confs P (snd s) \<Longrightarrow> all_confs P (snd (foldl (call_participant E cid) s news))" for s :: "nat \<times> ('s, 'q, 'r) mgr"
    by (induction news arbitrary: s) auto
  from this [of "(0, M\<lparr>m_confs := smap_set cid (a, Conference_new cid) (m_confs M)\<rparr>)"] \<open>all_confs P M\<close> show ?thesis
    by (auto simp: createConfFromParticipantList_def Let_def case_prod_beta new_conf intro!: release)
qed

lemma incoming: "all_confs P M \<Longrightarrow> all_confs P (incomingCall (E :: ('q, 's) mgr_env) a i headers (M :: ('s, 'q, 'r) mgr))"
  by (auto simp: incomingCall_def processIncomingCall_def case_prod_beta Let_def split: option.split)

lemma reports:
  assumes "all_confs P (M :: ('s, 'q, 'r) mgr)"
  shows "all_confs P (onCallEarlyMedia (E :: ('q, 's) mgr_env) i M)" "all_confs P (peerAnsweredCall E i M)" "all_confs P (peerRingingCall E M)"
    "all_confs P (peerHungupCall E i M)" "all_confs P (callBusy E i M)" "all_confs P (callFailure E i M)"
  using assms
  by (auto simp: onCallEarlyMedia_def peerAnsweredCall_def peerRingingCall_def peerHungupCall_def callBusy_def callFailure_def
      stop_tone_if_idle_def take_stream_def drop_stream_def Let_def intro!: remove_participant split: option.split)

lemma messages:
  assumes "all_confs P (M :: ('s, 'q, 'r) mgr)"
  shows "all_confs P (incomingMessage (E :: ('q, 's) mgr_env) a i from ms M)" "all_confs P (sendCallTextMessage E a i ms from M)"
proof -
  have "all_confs P (sendTextMessageToConference cf ms from M)" for cf
    unfolding sendTextMessageToConference_def using assms by (intro fold_confs) (auto split: option.split)
  with assms show "all_confs P (incomingMessage E a i from ms M)" "all_confs P (sendCallTextMessage E a i ms from M)"
    by (auto simp: incomingMessage_def sendCallTextMessage_def Let_def split: option.split)
qed

lemma exec: "all_confs P M \<Longrightarrow> all_confs P (mgr_exec (E :: ('q, 's) mgr_env) op (M :: ('s, 'q, 'r) mgr))"
proof (cases op)
  case (OutgoingCall new)
  assume "all_confs P M"
  with OutgoingCall show ?thesis by (auto simp: outgoingCall_def split: option.split)
next
  case (Refuse a i)
  assume "all_confs P M"
  with Refuse show ?thesis by (auto simp: refuseCall_def Let_def case_prod_beta split: option.split)
next
  case (Transfer a i to)
  assume "all_confs P M"
  with Transfer show ?thesis by (auto simp: transferCall_def Let_def remove_participant split: option.split)
qed (auto simp: Manager_answerCall_def Manager_hangupConference_def holdConference_def Manager_addParticipant_def
    Manager_addMainParticipant_def Manager_detachLocalParticipant_def detachParticipant_def mgr_newDriver_def Let_def
    incoming hangup unhold join create join_conferences messages reports
    intro!: release hangup_conference add_call main_participant remove_participant run_conf detach split: option.split)

lemma steps: "mgr_step M M' \<Longrightarrow> all_confs P M \<Longrightarrow> all_confs P (M' :: ('s, 'q, 'r) mgr)"
  by (cases rule: mgr_step.cases) (auto intro: exec)

end

sublocale conf_property \<subseteq> relational_machine "\<lambda>M :: ('s, 'q, 'r) mgr. \<exists>p. M = mgr_new p" mgr_step "all_confs P"
  by unfold_locales (auto simp: mgr_new_confs intro: steps)

section \<open>No conference is on hold\<close>

definition cstate :: "('s, 'q, 'r) conf_world \<Rightarrow> conf_state" where
  "cstate w = confState (conf w)"

lemma cstate_basic [simp]:
  "cstate (with_pool f w) = cstate w" "cstate (emit e w) = cstate w" "cstate (w\<lparr>rb_pool := q\<rparr>) = cstate w"
  "cstate (conf_setState st w) = st"
  by (simp_all add: cstate_def with_pool_def emit_def conf_setState_def upd_conf_def)

lemma cstate_upd: "confState (f (conf w)) = confState (conf w) \<Longrightarrow> cstate (upd_conf f w) = cstate w"
  by (simp add: cstate_def upd_conf_def)

lemma cstate_for:
  "(\<And>p w. cstate (f p w) = cstate w) \<Longrightarrow> cstate (for_participants f w) = cstate w"
  "(\<And>p c w. cstate (cb p c w) = cstate w) \<Longrightarrow> cstate (foreachCall E cb w) = cstate w"
  by (rule for_participants_keeps, simp) (rule foreachCall_keeps, simp)

lemma cstate_routing [simp]:
  "cstate (bindParticipant E p w) = cstate w" "cstate (reportMediaNegotiationStatus e w) = cstate w"
  "cstate (setLocalHostDefaultMediaSource E b src w) = cstate w" "cstate (setLocalHostMuteState t m w) = cstate w"
  "cstate (muteLocalPlayback b w) = cstate w" "cstate (sendConferenceInfos E w) = cstate w" "cstate (attach_audio E b p w) = cstate w"
proof -
  have "cstate (bind_to E p i w) = cstate w" for p i and w :: "('a, 'b, 'c) conf_world"
    by (simp add: bind_to_def Let_def split: option.split)
  then show "cstate (bindParticipant E p w) = cstate w" by (simp add: bindParticipant_def Let_def cstate_for)
  show "cstate (sendConferenceInfos E w) = cstate w"
    unfolding sendConferenceInfos_def Let_def by (simp, rule cstate_for) (simp split: option.split)
  show "cstate (muteLocalPlayback b w) = cstate w"
    by (simp add: muteLocalPlayback_def rebind_playback_def Let_def cstate_for cstate_upd)
qed (simp_all add: setLocalHostDefaultMediaSource_def setLocalHostMuteState_def attach_audio_def
    reportMediaNegotiationStatus_def Let_def cstate_upd split: option.split)

lemma cstate_local:
  "cstate (attachLocalParticipant E w) = (if cstate w = ACTIVE_DETACHED then ACTIVE_ATTACHED else cstate w)"
  "cstate (detachLocalParticipant E w) = (if cstate w = ACTIVE_ATTACHED then ACTIVE_DETACHED else cstate w)"
  by (simp_all add: attachLocalParticipant_def detachLocalParticipant_def Let_def cstate_for flip: cstate_def)

lemma cstate_members [simp]:
  "cstate (addParticipant E p w) = cstate w" "cstate (removeParticipant E p w) = cstate w" "cstate (processRemainingParticipants E w) = cstate w"
  "cstate (Conference_destroy E w) = cstate w"
proof -
  have rec: "cstate (toggleRecording E w) = cstate w" "cstate (takeOverMediaSourceControl E p w) = cstate w" for w :: "('a, 'b, 'c) conf_world"
    using fields_of_core(1) [OF toggleRecording_effect(1), of E w] takeOver_effect [of w E p] by (simp_all add: cstate_def same_members_def)
  have mods: "cstate (upd_conf (add_moderators E c a) w) = cstate w" for c a and w :: "('a, 'b, 'c) conf_world"
    by (simp add: cstate_upd add_moderators_def Let_def)
  show "cstate (addParticipant E p w) = cstate w"
    by (simp add: addParticipant_def Let_def rec mods cstate_upd split: option.split)
  show "cstate (removeParticipant E p w) = cstate w"
    by (simp add: removeParticipant_def Let_def cstate_upd split: option.split)
  show "cstate (processRemainingParticipants E w) = cstate w"
    by (simp add: processRemainingParticipants_def Let_def cstate_for split: list.split option.split)
  show "cstate (Conference_destroy E w) = cstate w" by (simp add: Conference_destroy_def cstate_for)
qed

interpretation no_hold: conf_property "\<lambda>cf. confState cf \<noteq> CONF_HOLD" "TYPE(('s, 'q, 'r) conf_world)"
  by unfold_locales (simp_all add: Conference_new_def cstate_local flip: cstate_def)

section \<open>The account of a conference\<close>

definition owner :: "('s, 'q, 'r) mgr \<Rightarrow> string \<Rightarrow> string option" where
  "owner M cid = map_option fst (smap_find (m_confs M) cid)"

lemma owner_run [simp]: "owner (run_conf E x f M) cid = owner M cid"
  by (auto simp: owner_def run_conf_confs split: option.split)

lemma owner_frame [simp]:
  "owner (mgr_emit e M) cid = owner M cid" "owner (removeAudio E i M) cid = owner M cid" "owner (conf_changed x M) cid = owner M cid"
  "owner (switchCall i M) cid = owner M cid" "owner (M\<lparr>m_attached := ids\<rparr>) cid = owner M cid"
  by (simp_all add: owner_def)

lemma owner_held:
  fixes E :: "('q, 's) mgr_env" and M :: "('s, 'q, 'r) mgr"
  assumes "cid \<in> set held"
  shows "owner (release_conf E held x M) cid = owner M cid" "owner (mgr_removeParticipant E held i M) cid = owner M cid"
    "owner (mgr_bindCallToConference E held i x M) cid = owner M cid"
proof -
  show r: "owner (release_conf E held x M) cid = owner M cid" for x and M :: "('s, 'q, 'r) mgr"
    using assms owner_run [of E x Conference_destroy M cid] by (auto simp: release_conf_def Let_def owner_def)
  show m: "owner (mgr_removeParticipant E held i M) cid = owner M cid" for M :: "('s, 'q, 'r) mgr"
    by (simp add: mgr_removeParticipant_def Let_def r split: option.split)
  show "owner (mgr_bindCallToConference E held i x M) cid = owner M cid"
    by (simp add: mgr_bindCallToConference_def detachParticipant_def Let_def m split: option.split)
qed

lemma getConference_Some:
  "account_getConference E a cid M = Some cf \<Longrightarrow> smap_find (m_confs M) cid = Some (a, cf) \<and> cid \<in> set (m_attached M)"
  by (auto simp: account_getConference_def split: if_splits option.splits)

lemma run_conf_result:
  "smap_find (m_confs M) cid = Some (a, cf) \<Longrightarrow>
   smap_find (m_confs (run_conf E cid f M)) cid = Some (a, conf (f (conf_env_of E a M) \<lparr>conf = cf, rb_pool = m_pool M, conf_log = []\<rparr>))"
  by (simp add: run_conf_confs)

section \<open>Conferences that lose their account\<close>

text \<open>Only making a conference puts it on its account's list.\<close>

lemma run_conf_detached: "set (m_attached (run_conf E cid f M)) \<subseteq> set (m_attached M)"
  by (auto simp: run_conf_def Let_def performs_attached split: option.split)

lemma detached_steps:
  fixes E :: "('q, 's) mgr_env" and M :: "('s, 'q, 'r) mgr"
  shows "set (m_attached (release_conf E held cid M)) \<subseteq> set (m_attached M)"
    "set (m_attached (mgr_removeParticipant E held i M)) \<subseteq> set (m_attached M)"
    "set (m_attached (mgr_bindCallToConference E held i cid M)) \<subseteq> set (m_attached M)"
    "set (m_attached (add_participant E held i cid M)) \<subseteq> set (m_attached M)"
proof -
  show r: "set (m_attached (release_conf E held cid M)) \<subseteq> set (m_attached M)" for cid and M :: "('s, 'q, 'r) mgr"
    using run_conf_detached [of E cid Conference_destroy M] by (simp add: release_conf_def Let_def)
  show m: "set (m_attached (mgr_removeParticipant E held i M)) \<subseteq> set (m_attached M)" for M :: "('s, 'q, 'r) mgr"
    unfolding mgr_removeParticipant_def Let_def
    by (auto split: option.split dest!: subsetD [OF r] subsetD [OF run_conf_detached])
  show b: "set (m_attached (mgr_bindCallToConference E held i cid M)) \<subseteq> set (m_attached M)"
    by (auto simp: mgr_bindCallToConference_def detachParticipant_def Let_def dest!: subsetD [OF run_conf_detached] subsetD [OF m] split: option.splits if_splits)
  show "set (m_attached (add_participant E held i cid M)) \<subseteq> set (m_attached M)"
    by (auto simp: add_participant_def addMainParticipant_def Let_def dest!: subsetD [OF run_conf_detached] subsetD [OF b] split: option.splits if_splits)
qed

section \<open>A conference that was held\<close>

definition demo_held_conference :: "(int, int list, int) mgr" where
  "demo_held_conference = mgr_exec demo_mgr_env (HoldConference ''acc'' ''conf'') demo_conference"

lemma owner_released: "cid \<in> live (release_conf E held cid M) \<Longrightarrow> owner (release_conf E held cid M) cid = owner M cid"
  by (auto simp: release_conf_def Let_def live_def split: if_splits)

lemma join_owner:
  assumes "cid \<in> live (snd (joinParticipant E cid a1 i1 a2 i2 attached mute M))" and "i1 \<noteq> i2"
    and "account_getCall E a1 i1 M = Some c1" and "account_getCall E a2 i2 M = Some c2"
  shows "owner (snd (joinParticipant E cid a1 i1 a2 i2 attached mute M)) cid = Some a1"
proof -
  obtain x y where acc: "me_accounts E a1 = Some x" "me_accounts E a2 = Some y"
    using assms(3,4) by (auto simp: account_getCall_def split: if_splits)
  have new: "owner (M\<lparr>m_confs := smap_set cid (a1, Conference_new cid) (m_confs M)\<rparr>) cid = Some a1" by (simp add: owner_def)
  obtain v src where vs: "conference_video (cp_media (mc_peer c1)) (cp_media (mc_peer c2)) = (v, src)"
    by (cases "conference_video (cp_media (mc_peer c1)) (cp_media (mc_peer c2))")
  define M2 where "M2 = (let M1 = M\<lparr>m_confs := smap_set cid (a1, Conference_new cid) (m_confs M)\<rparr>
    in if mute then run_conf E cid (\<lambda>_. muteLocalPlayback True) M1 else M1)"
  define M4 where "M4 = mgr_bindCallToConference E [cid] i2 cid (mgr_bindCallToConference E [cid] i1 cid
    (mgr_emit (ConferenceCreated a1 cid) (M2\<lparr>m_attached := cid # m_attached M2\<rparr>)))"
  define M5 where "M5 = (if attached
      then run_conf E cid (\<lambda>_. conf_setState ACTIVE_ATTACHED) (switchCall cid
             (run_conf E cid (\<lambda>E w. attachLocalParticipant E (setLocalHostDefaultMediaSource E v src w)) M4))
      else run_conf E cid detachLocalParticipant M4)"
  have "owner M5 cid = Some a1" by (simp add: M5_def M4_def M2_def Let_def owner_held new)
  moreover have "snd (joinParticipant E cid a1 i1 a2 i2 attached mute M) = release_conf E [] cid (conf_changed cid M5)"
    using acc assms(2-4) vs by (simp add: joinParticipant_def Let_def M5_def M4_def M2_def)
  ultimately show ?thesis using assms(1) owner_released [of cid E "[]" "conf_changed cid M5"] by simp
qed

lemma demo_conference_live: "''conf'' \<in> live demo_conference" "owner demo_conference ''conf'' = Some ''acc''"
proof -
  show l: "''conf'' \<in> live demo_conference"
    using agreeD [OF mgr_reachable_agree [OF demo_conference_reachable] _, of "''7''" "''conf''"] demo_conference_call(1,2)
    by (auto intro: members_live)
  then show "owner demo_conference ''conf'' = Some ''acc''"
    using join_owner [OF _ _ demo_account_calls, of "''conf''" True False] by (simp add: demo_conference_def)
qed

lemma demo_held_conference_reachable: "mgr_step\<^sup>*\<^sup>* (mgr_new (RingBufferPool_new list_fifo)) demo_held_conference"
proof -
  have "guards_kept demo_conference" using demo_conference_reachable by (intro mg.reachable_inv) auto
  then have "length (m_calls demo_conference) = 2" by (simp add: length_calls guards_kept_def demo_conference_call)
  then have "mgr_step demo_conference demo_held_conference"
    unfolding demo_held_conference_def by (intro mgr_step.intros) simp_all
  with demo_conference_reachable show ?thesis by simp
qed

lemma demo_held_conference_listed: "\<exists>cf. account_getConference demo_mgr_env ''acc'' ''conf'' demo_held_conference = Some cf"
proof -
  have acc: "me_accounts demo_mgr_env ''acc'' = Some demo_account" by (simp add: demo_mgr_env_def)
  obtain cf where cf: "smap_find (m_confs demo_conference) ''conf'' = Some (''acc'', cf)"
    using demo_conference_live by (auto simp: owner_def)
  with acc demo_conference_call(3) have h: "demo_held_conference =
      conf_changed ''conf'' (run_conf demo_mgr_env ''conf'' detachLocalParticipant demo_conference)"
    by (simp add: demo_held_conference_def holdConference_def account_getConference_def)
  have "''conf'' \<in> set (m_attached (run_conf demo_mgr_env ''conf'' detachLocalParticipant demo_conference))"
    using demo_conference_call(3) by (simp add: run_conf_attached_quiet)
  with acc run_conf_result [OF cf, of demo_mgr_env detachLocalParticipant] show ?thesis
    unfolding h by (simp add: account_getConference_def)
qed

section \<open>Properties\<close>

text \<open>
  Resuming a conference that an account lists makes the host a part of it, and yet always answers
  that it failed: success is only answered for a conference in the state \<^verbatim>\<open>HOLD\<close>, which no
  conference ever takes, since holding a conference detaches the host.
\<close>

theorem unHoldConference_says_no:
  assumes "mgr_step\<^sup>*\<^sup>* (mgr_new p) M" and "account_getConference E a cid M = Some cf"
  shows "\<exists>M' cf'. unHoldConference E a cid M = (False, M') \<and> smap_find (m_confs M') cid = Some (a, cf') \<and> confState cf' = ACTIVE_ATTACHED"
proof -
  have cf: "smap_find (m_confs M) cid = Some (a, cf)" using getConference_Some [OF assms(2)] by simp
  have "all_confs (\<lambda>cf. confState cf \<noteq> CONF_HOLD) M" using assms(1) by (intro no_hold.reachable_inv) auto
  with cf have "confState cf \<noteq> CONF_HOLD" by (auto simp: all_confs_def)
  then consider "confState cf = ACTIVE_ATTACHED" | "confState cf = ACTIVE_DETACHED" by (cases "confState cf") auto
  then show ?thesis
  proof cases
    case 1
    with assms(2) cf show ?thesis by (simp add: unHoldConference_def)
  next
    case 2
    let ?w = "\<lparr>conf = cf, rb_pool = m_pool M, conf_log = []\<rparr>"
    have "confState (conf (attachLocalParticipant (conf_env_of E a M) ?w)) = ACTIVE_ATTACHED"
      using cstate_local(1) [of "conf_env_of E a M" ?w] 2 by (simp add: cstate_def)
    with 2 assms(2) run_conf_result [OF cf, of E attachLocalParticipant] show ?thesis
      by (auto simp: unHoldConference_def addMainParticipant_def)
  qed
qed

theorem unHoldConference_says_no_witness:
  "\<exists>M' cf'. unHoldConference demo_mgr_env ''acc'' ''conf'' demo_held_conference = (False, M') \<and>
     smap_find (m_confs M') ''conf'' = Some (''acc'', cf') \<and> confState cf' = ACTIVE_ATTACHED"
proof -
  obtain cf where "account_getConference demo_mgr_env ''acc'' ''conf'' demo_held_conference = Some cf"
    using demo_held_conference_listed by blast
  from unHoldConference_says_no [OF demo_held_conference_reachable this] show ?thesis .
qed

text \<open>
  Joining a conference with itself answers that it worked; the conference is gone
  afterwards, and every call of the account that was in it is in none.
\<close>

theorem joinConference_with_itself:
  fixes E :: "('q, 's) mgr_env" and M :: "('s, 'q, 'r) mgr"
  assumes "mgr_step\<^sup>*\<^sup>* (mgr_new p) M" and "account_getConference E a cid M = Some cf"
  shows "\<exists>M'. joinConference E a cid a cid M = (True, M') \<and> smap_find (m_confs M') cid = None \<and>
    (\<forall>i c. smap_find (m_calls M') i = Some c \<longrightarrow> call_conf (mc_call c) \<noteq> Some cid)"
proof -
  define calls where "calls = filter (\<lambda>i. account_getCall E a i M \<noteq> None) (participants cf)"
  define M1 where "M1 = foldl (\<lambda>M i. removeAudio E i (run_conf E cid (\<lambda>E. removeParticipant E i) M)) M calls"
  define M2 where "M2 = perform E cid RemoveConference M1"
  define M3 where "M3 = foldl (\<lambda>M i. add_participant E [cid, cid] i cid M) M2 calls"
  have J: "joinConference E a cid a cid M = (True, release_conf E [] cid (release_conf E [cid] cid M3))"
    using assms(2) by (simp add: joinConference_def Let_def calls_def M1_def M2_def M3_def)
  let ?M' = "release_conf E [] cid (release_conf E [cid] cid M3)"
  have "cid \<notin> set (m_attached M2)" by (simp add: M2_def)
  moreover have "cid \<notin> set (m_attached N) \<Longrightarrow> cid \<notin> set (m_attached (add_participant E [cid, cid] i cid N))" for i and N :: "('s, 'q, 'r) mgr"
    using detached_steps(4) by blast
  ultimately have "cid \<notin> set (m_attached M3)" unfolding M3_def by (induction calls arbitrary: M2) simp_all
  then have gone: "smap_find (m_confs ?M') cid = None" by (simp add: release_conf_def Let_def)
  have "agree ?M'" using joinConference_agree [OF mgr_reachable_agree [OF assms(1)], of E a cid a cid] J by simp
  moreover have "members ?M' cid = {}" using gone by (simp add: members_def)
  ultimately have out: "conf_of ?M' i \<noteq> Some cid" if "i \<in> call_ids ?M'" for i using agreeD that by blast
  have "call_conf (mc_call c) \<noteq> Some cid" if c: "smap_find (m_calls ?M') i = Some c" for i c
  proof -
    have "conf_of ?M' i = call_conf (mc_call c)" using c by (simp add: conf_of_def)
    with out [OF find_call_ids(2) [OF c]] show ?thesis by simp
  qed
  with J gone show ?thesis by blast
qed

theorem joinConference_with_itself_witness:
  "\<exists>M'. joinConference demo_mgr_env ''acc'' ''conf'' ''acc'' ''conf'' demo_held_conference = (True, M') \<and>
     smap_find (m_confs M') ''conf'' = None"
proof -
  obtain cf where "account_getConference demo_mgr_env ''acc'' ''conf'' demo_held_conference = Some cf"
    using demo_held_conference_listed by blast
  from joinConference_with_itself [OF demo_held_conference_reachable this] show ?thesis by blast
qed

end
