(* ===== verification/Manager_Hangup.thy ===== *)
theory Manager_Hangup
  imports Manager_Conferences
begin

text \<open>
  What the manager leaves behind when a call ends, the beep of calls that wait, and text messages
  inside conferences.
\<close>

section \<open>What stays with a call\<close>

text \<open>Whether it is being lasting up, and its account.\<close>

definition lasting :: "('s, 'q, 'r) mgr \<Rightarrow> string \<Rightarrow> (bool \<times> string option) option" where
  "lasting M i = map_option (\<lambda>c. (mc_localHangup c, call_account (mc_call c))) (smap_find (m_calls M) i)"

lemma lasting_cong: "m_calls M' = m_calls M \<Longrightarrow> lasting M' = lasting M"
  by (simp add: lasting_def fun_eq_iff)

lemma lasting_basic [simp]:
  "lasting (mgr_emit e M) = lasting M" "lasting (on_pool f M) = lasting M" "lasting (on_ring g M) = lasting M" "lasting (switchCall i M) = lasting M"
  "lasting (unsetCurrentCall M) = lasting M" "lasting (removeWaitingCall i M) = lasting M" "lasting (take_stream ty M) = lasting M"
  "lasting (drop_stream E ty b M) = lasting M" "lasting (tone_stop E M) = lasting M" "lasting (clear_pending i M) = lasting M"
  "lasting (always_record E i M) = lasting M" "lasting (switch_to_call i M) = lasting M" "lasting (conf_changed cid M) = lasting M"
  "lasting (M\<lparr>m_attached := ids\<rparr>) = lasting M" "lasting (M\<lparr>m_confs := cfs\<rparr>) = lasting M" "lasting (M\<lparr>m_confs := cfs, m_pool := p\<rparr>) = lasting M"
  by (rule lasting_cong; simp add: tone_stop_def clear_pending_def conf_changed_def split: option.split)+

lemma lasting_upd_call [simp]:
  "(\<And>c. mc_localHangup (f c) = mc_localHangup c \<and> call_account (mc_call (f c)) = call_account (mc_call c)) \<Longrightarrow> lasting (upd_call i f M) = lasting M"
  by (auto simp: lasting_def upd_call_def fun_eq_iff split: option.split)

lemma lasting_on_call [simp]: "(\<And>k. call_account (fst (f k)) = call_account k) \<Longrightarrow> lasting (on_call i f M) = lasting M"
  by (auto simp: lasting_def on_call_def mgr_emit_def fun_eq_iff case_prod_beta Let_def split: option.split)

lemma lasting_sound [simp]: "lasting (addAudio E i M) = lasting M" "lasting (removeAudio E i M) = lasting M"
  by (simp_all add: addAudio_def removeAudio_def Let_def split: option.split)

lemma lasting_hold [simp]:
  "lasting (snd (set_callState E i cs M)) = lasting M" "lasting (snd (sip_hold E i M)) = lasting M" "lasting (snd (sip_offhold E i M)) = lasting M"
  "lasting (snd (sip_answer E i ms M)) = lasting M"
proof -
  show s: "lasting (snd (set_callState E i cs M)) = lasting M" for cs and M :: "('a, 'b, 'c) mgr"
    by (simp add: set_callState_def split: option.split)
  show h: "lasting (snd (sip_hold E i M)) = lasting M" for M :: "('a, 'b, 'c) mgr"
    by (simp add: sip_hold_def Let_def case_prod_beta s split: option.split)
  show "lasting (snd (sip_offhold E i M)) = lasting M" "lasting (snd (sip_answer E i ms M)) = lasting M"
    by (simp_all add: sip_offhold_def sip_answer_def Let_def case_prod_beta s h split: option.split answer_outcome.split)
qed

lemma lasting_commands [simp]:
  "lasting (snd (answerCall E i ms M)) = lasting M" "lasting (snd (onHoldCall E i M)) = lasting M" "lasting (snd (offHoldCall E i M)) = lasting M"
  by (simp_all add: answerCall_def onHoldCall_def offHoldCall_def Let_def case_prod_beta split: option.split)

lemma lasting_perform [simp]: "lasting (perform E cid e M) = lasting M"
  by (cases "(E, cid, e, M)" rule: perform.cases)
    (simp_all add: sip_enterConference_def sip_exitConference_def split: option.split)

lemma lasting_run_conf [simp]: "lasting (run_conf E cid f M) = lasting M"
  by (simp add: run_conf_def Let_def foldl_keeps [of lasting] split: option.split prod.split)

lemma lasting_release [simp]: "lasting (release_conf E held cid M) = lasting M"
  by (simp add: release_conf_def Let_def)

lemma lasting_remove [simp]: "lasting (mgr_removeParticipant E held i M) = lasting M"
  by (simp add: mgr_removeParticipant_def Let_def split: option.split)

lemma lasting_join [simp]:
  fixes E :: "('q, 's) mgr_env" and M :: "('s, 'q, 'r) mgr"
  shows "lasting (snd (joinParticipant E cid a1 i1 a2 i2 attached mute M)) = lasting M"
proof -
  have b: "lasting (mgr_bindCallToConference E held i x M) = lasting M" for held i x and M :: "('s, 'q, 'r) mgr"
    by (simp add: mgr_bindCallToConference_def detachParticipant_def Let_def split: option.split)
  show ?thesis by (simp add: joinParticipant_def Let_def b case_prod_beta split: option.split)
qed

section \<open>Hanging up\<close>

lemma sip_hangup_gone:
  fixes E :: "('q, 's) mgr_env" and M :: "('s, 'q, 'r) mgr"
  assumes "lasting M i = Some (False, a)" shows "smap_find (m_calls (sip_hangup E i M)) i = None"
proof -
  obtain c where "smap_find (m_calls M) i = Some c" "\<not> mc_localHangup c" using assms by (auto simp: lasting_def)
  moreover have "smap_find (m_calls (drop_call E i M')) i = None" for M' :: "('s, 'q, 'r) mgr"
    by (auto simp: drop_call_def split: option.split)
  ultimately show ?thesis by (simp add: sip_hangup_def Let_def)
qed

lemma sip_hangup_members: "members (sip_hangup E i M) = members M"
  by (simp add: members_def fun_eq_iff)

lemma frame_parts [simp]:
  "waitingCalls (drop_call E i M) = waitingCalls M" "currentCall (drop_call E i M) = currentCall M" "m_pool (drop_call E i M) = m_pool M"
  "waitingCalls (on_call i f M) = waitingCalls M" "currentCall (on_call i f M) = currentCall M" "m_pool (on_call i f M) = m_pool M"
  "waitingCalls (upd_call i g M) = waitingCalls M" "currentCall (upd_call i g M) = currentCall M" "m_pool (upd_call i g M) = m_pool M"
  "waitingCalls (mgr_emit e M) = waitingCalls M" "currentCall (mgr_emit e M) = currentCall M" "m_pool (mgr_emit e M) = m_pool M"
  "pendingAlertInfoCalls (m_ring (drop_call E i M)) = pendingAlertInfoCalls (m_ring M)"
  "pendingAlertInfoCalls (m_ring (on_call i f M)) = pendingAlertInfoCalls (m_ring M)"
  by (simp_all add: drop_call_def on_call_def upd_call_def mgr_emit_def drop_stream_def on_ring_def upd_devices_def Let_def
      split: option.split prod.split)

lemma sip_hangup_frame:
  "waitingCalls (sip_hangup E i M) = waitingCalls M" "currentCall (sip_hangup E i M) = currentCall M" "m_pool (sip_hangup E i M) = m_pool M"
  "pendingAlertInfoCalls (m_ring (sip_hangup E i M)) = pendingAlertInfoCalls (m_ring M)"
  by (simp_all add: sip_hangup_def Let_def split: option.split)

lemma removeAudio_frame [simp]:
  "waitingCalls (removeAudio E i M) = waitingCalls M" "currentCall (removeAudio E i M) = currentCall M"
  "pendingAlertInfoCalls (m_ring (removeAudio E i M)) = pendingAlertInfoCalls (m_ring M)"
  "smap_find (m_calls M) i = Some c \<Longrightarrow> m_pool (removeAudio E i M) = unBindAll i (m_pool M)"
  by (simp_all add: removeAudio_def drop_stream_def on_ring_def on_pool_def upd_devices_def Let_def split: option.split)

lemma pending_cleared: "smap_find (pendingAlertInfoCalls (m_ring (clear_pending i M))) i = None"
  by (simp add: clear_pending_def on_ring_def clearPendingAlertInfoCall_def forget_pending_def split: option.split)

lemma removeWaiting_frame [simp]:
  "i \<notin> set (waitingCalls (removeWaitingCall i M))" "m_pool (removeWaitingCall i M) = m_pool M" "currentCall (removeWaitingCall i M) = currentCall M"
  "m_pool (clear_pending i M) = m_pool M" "m_pool (tone_stop E M) = m_pool M"
  "currentCall (clear_pending i M) = currentCall M" "currentCall (tone_stop E M) = currentCall M"
  by (simp_all add: removeWaitingCall_def clear_pending_def tone_stop_def on_ring_def Let_def)

lemma account_getCall_cong: "m_calls M' = m_calls M \<Longrightarrow> account_getCall E a i M' = account_getCall E a i M"
  by (simp add: account_getCall_def)

section \<open>Messages inside a conference\<close>

lemma conference_message_log:
  "m_log (sendTextMessageToConference cf ms from M) =
     m_log M @ map (\<lambda>j. TextSent j ms from) (filter (\<lambda>j. smap_find (m_calls M) j \<noteq> None) (participants cf))"
proof -
  have "m_log (foldl (\<lambda>M j. case smap_find (m_calls M) j of Some _ \<Rightarrow> mgr_emit (TextSent j ms from) M | None \<Rightarrow> M) M js) =
      m_log M @ map (\<lambda>j. TextSent j ms from) (filter (\<lambda>j. smap_find (m_calls M) j \<noteq> None) js)" for js
  proof (induction js arbitrary: M)
    case (Cons j js)
    show ?case
    proof (cases "smap_find (m_calls M) j")
      case None
      with Cons show ?thesis by simp
    next
      case (Some c)
      have "m_log (mgr_emit (TextSent j ms from) M) = m_log M @ [TextSent j ms from]" by (simp add: mgr_emit_def)
      with Some Cons [of "mgr_emit (TextSent j ms from) M"] show ?thesis by simp
    qed
  qed simp
  then show ?thesis by (simp add: sendTextMessageToConference_def)
qed

lemma addAudio_frame [simp]:
  "m_log (addAudio E i M) = m_log M" "currentCall (addAudio E i M) = currentCall M"
  by (simp_all add: addAudio_def take_stream_def drop_stream_def on_pool_def on_ring_def upd_call_def Let_def split: option.split)

section \<open>Properties\<close>

text \<open>
  C35: Hanging up ends a call for good: it leaves the registry, and no conference lists it any more.
  A call outside conferences is also neither current nor waiting, waits for no ringtone and is
  disconnected from everything it heard.
\<close>

theorem hangupCall_leaves_no_trace:
  assumes "mgr_step\<^sup>*\<^sup>* (mgr_new p) M" and "account_getCall E a i M = Some c" and "\<not> mc_localHangup c"
  shows "\<exists>M'. Manager_hangupCall E [] a i M = (True, M') \<and> smap_find (m_calls M') i = None \<and>
    (\<forall>cid b cf. smap_find (m_confs M') cid = Some (b, cf) \<longrightarrow> i \<notin> set (participants cf)) \<and>
    (\<not> isConferenceParticipant c \<longrightarrow> (i \<noteq> [] \<longrightarrow> currentCall M' \<noteq> i) \<and> i \<notin> set (waitingCalls M') \<and>
       smap_find (pendingAlertInfoCalls (m_ring M')) i = None \<and> m_pool M' = unBindAll i (m_pool M))"
proof -
  have c: "smap_find (m_calls M) i = Some c" and acc: "me_accounts E a \<noteq> None"
    using assms(2) by (auto simp: account_getCall_def split: if_splits option.splits)
  define M1 where "M1 = removeWaitingCall i (clear_pending i (tone_stop E M))"
  define M2 where "M2 = removeAudio E i M1"
  define M3 where "M3 = (if isConferenceParticipant c then mgr_removeParticipant E [] i M2
      else if isCurrentCall i M2 then unsetCurrentCall M2 else M2)"
  have m1: "m_calls M1 = m_calls M" by (simp add: M1_def clear_pending_def tone_stop_def)
  have H: "Manager_hangupCall E [] a i M = (True, sip_hangup E i M3)"
    using acc assms(2) account_getCall_cong [OF m1, of E a i] by (auto simp: Manager_hangupCall_def Let_def M1_def M2_def M3_def)
  have "lasting M3 i = lasting M i" by (simp add: M3_def M2_def M1_def)
  then have gone: "smap_find (m_calls (sip_hangup E i M3)) i = None" using c assms(3) by (intro sip_hangup_gone) (simp add: lasting_def)
  have a2: "agree M2" using mgr_reachable_agree [OF assms(1)] by (simp add: M2_def M1_def)
  have v2: "mview M2 = mview M" by (simp add: M2_def M1_def)
  then have i2: "i \<in> call_ids M2" "conf_of M2 i = call_conf (mc_call c)" using c by (auto simp: mview_def call_ids_def conf_of_def)
  have "unlisted i M3"
  proof (cases "isConferenceParticipant c")
    case True
    with mgr_remove_agree(3) [OF a2 i2(1)] show ?thesis by (simp add: M3_def)
  next
    case False
    then have "unlisted i M2" using i2 by (intro agree_unlisted [OF a2]) (simp_all add: isConferenceParticipant_def)
    with False show ?thesis by (simp add: M3_def unlisted_def members_def)
  qed
  then have out: "i \<notin> members (sip_hangup E i M3) cid" for cid by (simp add: sip_hangup_members unlisted_def)
  have "i \<notin> set (participants cf)" if "smap_find (m_confs (sip_hangup E i M3)) cid = Some (b, cf)" for cid b cf
    using out [of cid] that by (simp add: members_def)
  moreover have "(i \<noteq> [] \<longrightarrow> currentCall M3 \<noteq> i) \<and> i \<notin> set (waitingCalls M3) \<and>
      smap_find (pendingAlertInfoCalls (m_ring M3)) i = None \<and> m_pool M3 = unBindAll i (m_pool M)" if "\<not> isConferenceParticipant c"
    using that c m1 pending_cleared [of i "tone_stop E M"]
    by (auto simp: M3_def M2_def M1_def isCurrentCall_def unsetCurrentCall_def)
  ultimately show ?thesis using H gone by (auto simp: sip_hangup_frame)
qed

theorem hangupCall_leaves_no_trace_witness:
  "\<exists>M'. Manager_hangupCall demo_mgr_env [] ''acc'' ''7'' demo_talking = (True, M') \<and> smap_find (m_calls M') ''7'' = None \<and>
     currentCall M' \<noteq> ''7''"
proof -
  let ?c = demo_answered_call
  have "account_getCall demo_mgr_env ''acc'' ''7'' demo_talking = Some ?c"
    by (simp add: account_getCall_def demo_talking_facts demo_mgr_env_def demo_answered_call_def demo_ringing_call_def Call_new_def)
  moreover have "\<not> mc_localHangup ?c" "\<not> isConferenceParticipant ?c"
    by (simp_all add: demo_answered_call_def demo_ringing_call_def isConferenceParticipant_def Call_new_def)
  ultimately show ?thesis using hangupCall_leaves_no_trace [OF demo_talking_reachable, of demo_mgr_env "''acc''" "''7''" ?c] by auto
qed

text \<open>
  A message from a participant, unless it carries a card of contact data, is sent to every call of
  the conference, once each and in the order of their identifiers, and shown to the client as a
  message of the conference. The calls include the one it came from, so every participant gets
  its own messages back.
\<close>

theorem conference_message_returns_to_sender:
  assumes "mgr_step\<^sup>*\<^sup>* (mgr_new p) M" and "account_getCall E a i M = Some c" and "call_conf (mc_call c) = Some cid"
    and "\<not> list_ex (\<lambda>(k, _). find_sub VCARD k 0 \<noteq> None) ms"
  shows "\<exists>b cf sent. smap_find (m_confs M) cid = Some (b, cf) \<and> sent = filter (\<lambda>j. smap_find (m_calls M) j \<noteq> None) (participants cf) \<and>
    m_log (incomingMessage E a i from ms M) = m_log M @ map (\<lambda>j. TextSent j ms from) sent @ [MessageShown a cid from ms] \<and> i \<in> set sent"
proof -
  have c: "smap_find (m_calls M) i = Some c"
    using assms(2) by (auto simp: account_getCall_def split: if_splits option.splits)
  then have i: "i \<in> call_ids M" "conf_of M i = Some cid" using assms(3) by (auto simp: call_ids_def conf_of_def)
  with agreeD [OF mgr_reachable_agree [OF assms(1)] i(1)] have "i \<in> members M cid" by simp
  then obtain b cf where cf: "smap_find (m_confs M) cid = Some (b, cf)" "i \<in> set (participants cf)"
    by (auto simp: members_def split: option.splits)
  have g: "call_getConference c M = Some cid" using assms(3) cf by (simp add: call_getConference_def)
  have p: "isConferenceParticipant c" using assms(3) by (simp add: isConferenceParticipant_def)
  have "incomingMessage E a i from ms M = mgr_emit (MessageShown a cid from ms) (sendTextMessageToConference cf ms from M)"
    unfolding incomingMessage_def Let_def using assms(2,4) cf(1) g p by simp
  then have "m_log (incomingMessage E a i from ms M) = m_log (sendTextMessageToConference cf ms from M) @ [MessageShown a cid from ms]"
    by (simp add: mgr_emit_def)
  with cf c show ?thesis by (auto simp: conference_message_log)
qed

theorem conference_message_returns_to_sender_witness:
  "\<exists>sent. m_log (incomingMessage demo_mgr_env ''acc'' ''7'' ''me'' [(''text/plain'', ''hi'')] demo_conference) =
     m_log demo_conference @ map (\<lambda>j. TextSent j [(''text/plain'', ''hi'')] ''me'') sent @ [MessageShown ''acc'' ''conf'' ''me'' [(''text/plain'', ''hi'')]] \<and>
     ''7'' \<in> set sent"
proof -
  obtain c where c: "smap_find (m_calls demo_conference) ''7'' = Some c" "call_conf (mc_call c) = Some ''conf''"
    using demo_conference_call(2) by (auto simp: conf_of_def split: option.splits)
  have "lasting demo_conference ''7'' = lasting demo_two_calls ''7''" by (simp add: demo_conference_def)
  then have "call_account (mc_call c) = Some ''acc''"
    using c by (simp add: lasting_def demo_two_calls_facts demo_ringing_call_def Call_new_def)
  then have "account_getCall demo_mgr_env ''acc'' ''7'' demo_conference = Some c"
    using c by (simp add: account_getCall_def demo_mgr_env_def)
  moreover have "\<not> list_ex (\<lambda>(k, _). find_sub VCARD k 0 \<noteq> None) [(''text/plain'', ''hi'')]" by code_simp
  ultimately show ?thesis using conference_message_returns_to_sender [OF demo_conference_reachable _ c(2)] by blast
qed

text \<open>
  Answering reports success although nothing was answered. If the SIP call gives up, say because
  the media of the answer do not match the offer, the client is told that the call was answered
  and it becomes the current call; no answer was sent and the call is still ringing, while
  the microphone is opened for it.
\<close>

theorem given_up_answer_opens_microphone:
  assumes "smap_find (m_calls M) i = Some c" and "type_of_call (mc_call c) = INCOMING" and "connectionState (mc_call c) = RINGING"
    and "\<not> isConferenceParticipant c" and "me_answer E i = GIVEN_UP" and "\<not> me_alwaysRecording E"
  shows "\<exists>M' c'. answerCall E i ms M = (True, M') \<and> m_log M' = m_log M \<and> currentCall M' = i \<and>
    smap_find (m_calls M') i = Some c' \<and> connectionState (mc_call c') = RINGING \<and> mc_captureGuard c'"
proof -
  let ?before = "removeWaitingCall i (clear_pending i (tone_stop E M))"
  have m: "m_calls ?before = m_calls M" by (simp add: clear_pending_def tone_stop_def)
  have l: "m_log ?before = m_log M" by (simp add: removeWaitingCall_def clear_pending_def tone_stop_def on_ring_def Let_def)
  have "sip_answer E i ms ?before = (True, ?before)" using assms m by (simp add: sip_answer_def)
  then have a: "answerCall E i ms M = (True, addAudio E i (switch_to_call i ?before))"
    using assms by (simp add: answerCall_def always_record_def)
  have g: "call_getConference c ?before = None" using assms(4) by (auto simp: call_getConference_def isConferenceParticipant_def)
  have s: "switch_to_call i ?before = switchCall i ?before" using assms(1) m g by (simp add: switch_to_call_def)
  have "smap_find (m_calls (switchCall i ?before)) i = Some c" using assms(1) m by simp
  from addAudio_calls [OF this assms(4), of E] a s l assms(3) show ?thesis by (auto simp: switchCall_def)
qed

theorem given_up_answer_opens_microphone_witness:
  "\<exists>M' c'. answerCall (demo_mgr_env\<lparr>me_answer := \<lambda>_. GIVEN_UP\<rparr>) ''7'' [] demo_mgr = (True, M') \<and> currentCall M' = ''7'' \<and>
     smap_find (m_calls M') ''7'' = Some c' \<and> connectionState (mc_call c') = RINGING \<and> mc_captureGuard c'"
  using given_up_answer_opens_microphone [of demo_mgr "''7''" "demo_ringing_call ''7''" "demo_mgr_env\<lparr>me_answer := \<lambda>_. GIVEN_UP\<rparr>" "[]"]
  by (auto simp: demo_mgr_calls demo_ringing_call_def isConferenceParticipant_def Call_new_def demo_mgr_env_def)

end
