(* ===== verification/Conference_Routing.thy ===== *)
theory Conference_Routing
  imports Conference_Mute
begin

text \<open>
  What muting does to the bindings of the ring buffer pool: exactly which readers a moderator's mute
  takes away, and two gaps of muting the host, for members a moderator muted and for the recorder.
\<close>

section \<open>Bindings under the operations of the pool\<close>

lemma bound_get: "getRingBuffer i p = (r, q) \<Longrightarrow> bound q = bound p"
  using getRingBuffer_parts(2) [of i p] by simp

lemma bound_other:
  "k \<noteq> i \<Longrightarrow> bound (bindHalfDuplexOut i j p) k = bound p k"
  "k \<noteq> i \<Longrightarrow> k \<noteq> j \<Longrightarrow> bound (bindCallID i j p) k = bound p k"
  "bound (setMicMuted i b p) k = bound p k"
  by (auto simp: bindHalfDuplexOut_def bindCallID_def with_two_buffers_def setMicMuted_def bound_def [of "micMutedIds_update _ _"]
      bound_def [of p] split: option.split dest!: bound_get split: prod.split)

lemma bound_flush [simp]: "bound (RingBufferPool_flush i p) = bound p"
proof -
  have "bound (foldl (\<lambda>p a. upd_rb a (g a) p) p as) = bound p" for g :: "nat \<Rightarrow> _" and p :: "('a, 'b, 'c) pool" and as
    by (induction as arbitrary: p) (auto simp: fun_eq_iff)
  then show ?thesis by (simp add: RingBufferPool_flush_def split: option.split)
qed

text \<open>The pool's own buffer is registered under its name and held by the pool itself.\<close>

definition default_buffer :: "nat \<Rightarrow> ('s, 'q, 'r) pool \<Rightarrow> bool" where
  "default_buffer d p \<longleftrightarrow> defaultRingBuffer p = Some d \<and> smap_find (ringBufferMap p) DEFAULT_ID = Some d"

lemma default_buffer_get: "default_buffer d p \<Longrightarrow> getRingBuffer DEFAULT_ID p = (Some d, p)"
  by (simp add: default_buffer_def getRingBuffer_def alive_def)

lemma default_buffer_steps:
  "default_buffer d p \<Longrightarrow> default_buffer d (unBindHalfDuplexOut i DEFAULT_ID p)"
  "default_buffer d p \<Longrightarrow> default_buffer d (setMicMuted i b p)"
  by (simp_all add: unBindHalfDuplexOut_def default_buffer_get) (simp_all add: default_buffer_def setMicMuted_def)

lemma unbindHost_bound:
  assumes "default_buffer d (rb_pool w)"
  shows "x \<in> set (bound (rb_pool (unbindHost w)) k) \<longleftrightarrow>
    x \<in> set (bound (rb_pool w) k) \<and> \<not> (x = d \<and> k \<in> set (participants (conf w)))"
proof -
  have "x \<in> set (bound (rb_pool (foldl (\<lambda>w item. with_pool (setMicMuted item True) (with_pool (unBindHalfDuplexOut item DEFAULT_ID) w)) w ps)) k) \<longleftrightarrow>
    x \<in> set (bound (rb_pool w) k) \<and> \<not> (x = d \<and> k \<in> set ps)" if "default_buffer d (rb_pool w)" for ps
    using that
  proof (induction ps arbitrary: w)
    case (Cons i ps)
    define w1 where "w1 = with_pool (setMicMuted i True) (with_pool (unBindHalfDuplexOut i DEFAULT_ID) w)"
    have "default_buffer d (rb_pool w1)" using Cons.prems by (simp add: w1_def default_buffer_steps)
    moreover have "x \<in> set (bound (rb_pool w1) k) \<longleftrightarrow> x \<in> set (bound (rb_pool w) k) \<and> \<not> (x = d \<and> k = i)"
      by (simp add: w1_def bound_other unBindHalfDuplexOut_def default_buffer_get [OF Cons.prems])
    ultimately show ?case using Cons.IH [of w1] by (auto simp flip: w1_def)
  qed simp
  with assms show ?thesis by (simp add: unbindHost_def for_participants_def)
qed

lemma bindHost_bound:
  assumes "isMuted k (conf w)" and "k \<noteq> DEFAULT_ID"
  shows "bound (rb_pool (bindHost E w)) k = bound (rb_pool w) k"
proof -
  define f where "f = (\<lambda>(w :: ('a, 'b, 'c) conf_world) p. case conf_getCall E p of
      Some c \<Rightarrow> let w1 = with_pool (setMicMuted p False) w in
       if isMuted p (conf w1) then w1
       else with_pool (RingBufferPool_flush DEFAULT_ID)
              (with_pool (if localPlaybackMuted (conf w1) then bindHalfDuplexOut p DEFAULT_ID else bindCallID p DEFAULT_ID) w1)
    | None \<Rightarrow> w)"
  have "conf (f w p) = conf w" and "isMuted k (conf w) \<Longrightarrow> bound (rb_pool (f w p)) k = bound (rb_pool w) k"
    for p and w :: "('a, 'b, 'c) conf_world"
    using assms(2) by (cases "k = p"; simp add: f_def Let_def bound_other split: option.split)+
  then have "bound (rb_pool (foldl f w ps)) k = bound (rb_pool w) k" if "isMuted k (conf w)" for ps
    using that by (induction ps arbitrary: w) auto
  moreover have "bindHost E w = foldl f w (participants (conf w))"
    unfolding bindHost_def foreachCall_def for_participants_def f_def ..
  ultimately show ?thesis using assms(1) by simp
qed

section \<open>A moderator mutes a participant\<close>

lemma unbind_out_loop:
  "x \<in> set (bound (foldl (\<lambda>p a. removeReaderFromRingBuffer rc (rb_name p a) p) p as) k) \<longleftrightarrow>
   x \<in> set (bound p k) \<and> \<not> (x = rc \<and> k \<in> rb_name p ` set as)"
  by (induction as arbitrary: p) auto

text \<open>
  What a moderator's mute of a participant reaches. The readers that lose the participant's
  buffer are the streams the participant itself hears, and no others; nothing else changes. A reader
  the participant does not hear keeps hearing it: the host when its microphone is muted, or a participant that
  was muted before.
\<close>

theorem mute_reaches_streams_heard:
  assumes "getRingBuffer callId (rb_pool w) = (Some a, rb_pool w)" and "\<not> isMuted callId (conf w)"
  shows "isMuted callId (conf (muteCall E callId True w)) \<and>
    (x \<in> set (bound (rb_pool (muteCall E callId True w)) k) \<longleftrightarrow>
       x \<in> set (bound (rb_pool w) k) \<and> \<not> (x = a \<and> k \<in> rb_name (rb_pool w) ` set (bound (rb_pool w) callId)))"
proof -
  let ?w = "upd_conf (\<lambda>c. c\<lparr>participantsMuted := sset_insert callId (participantsMuted c)\<rparr>) w"
  have m: "muteCall E callId True w = updateMuted E (unbindParticipant callId ?w)"
    using assms(2) by (simp add: muteCall_def)
  have "core (conf (muteCall E callId True w)) = core (conf ?w)" by (simp add: m unbindParticipant_def)
  from fields_of_core(3) [OF this] have "isMuted callId (conf (muteCall E callId True w))" by (simp add: isMuted_def)
  moreover have "rb_pool (muteCall E callId True w) = unBindAllHalfDuplexOut callId (rb_pool w)"
    by (simp add: m unbindParticipant_def)
  ultimately show ?thesis using assms(1)
    by (simp add: unBindAllHalfDuplexOut_def unbind_out_loop bound_def [of _ callId] split: option.split)
qed

text \<open>The host in a conference with one call, and what the pool holds then.\<close>

definition demo_conf :: "string list \<Rightarrow> conference" where
  "demo_conf muted = (Conference_new ''conf'')\<lparr>confState := ACTIVE_ATTACHED, participants := [''call''], participantsMuted := muted,
     hostSources := [host_source MEDIA_AUDIO [] DEFAULT_AUDIO_STREAMID]\<rparr>"

definition demo_place :: "string list \<Rightarrow> (int, int list, int) pool \<Rightarrow> (int, int list, int) conf_world" where
  "demo_place muted p = \<lparr>conf = demo_conf muted, rb_pool = p, conf_log = []\<rparr>"

lemma demo_place_facts:
  "confState (conf (demo_place m p)) = ACTIVE_ATTACHED" "participants (conf (demo_place m p)) = [''call'']"
  "isMuted k (conf (demo_place m p)) \<longleftrightarrow> k \<in> set m" "host_muted (conf (demo_place m p)) \<longleftrightarrow> HOST \<in> set m"
  "rb_pool (demo_place m p) = p"
  "conf_id (conf (demo_place m p)) = ''conf''" "hostSources (conf (demo_place m p)) = [host_source MEDIA_AUDIO [] DEFAULT_AUDIO_STREAMID]"
  by (simp_all add: demo_place_def demo_conf_def isMuted_def host_muted_def isMediaSourceMuted_def host_source_def Conference_new_def)

text \<open>The host muted its microphone, then a moderator mutes the call: the host still reads the call's buffer.\<close>

definition demo_half :: "(int, int list, int) pool" where
  "demo_half = unBindHalfDuplexOut ''call'' DEFAULT_ID demo_pool"

theorem mute_reaches_streams_heard_witness:
  "isMuted ''call'' (conf (muteCall (demo_env [''call'']) ''call'' True (demo_place [] demo_half))) \<and>
   1 \<in> set (bound (rb_pool (muteCall (demo_env [''call'']) ''call'' True (demo_place [] demo_half))) DEFAULT_ID)"
proof -
  have "getRingBuffer ''call'' demo_half = (Some 1, demo_half)" "bound demo_half ''call'' = []" "bound demo_half DEFAULT_ID = [1]"
    by (simp_all add: demo_half_def unBindHalfDuplexOut_def removeReaderFromRingBuffer_def removeReadBindings_def pool_eval)
  then show ?thesis
    using mute_reaches_streams_heard [of "''call''" "demo_place [] demo_half" 1 "demo_env [''call'']" 1 DEFAULT_ID]
    by (simp add: demo_place_facts)
qed

section \<open>The host mutes itself\<close>

lemma muteLocalHost_on:
  assumes "confState (conf w) = ACTIVE_ATTACHED" and "\<not> host_muted (conf w)"
    and w'_def: "w' = muteLocalHost E True ''MEDIA_TYPE_AUDIO'' w"
  shows "rb_pool w' = rb_pool (unbindHost w)"
    and "hostSources (conf w') = map (\<lambda>s. if ma_type s = MEDIA_AUDIO then s\<lparr>ma_muted := True\<rparr> else s) (hostSources (conf w))"
    and "confState (conf w') = ACTIVE_ATTACHED" and "participantsMuted (conf w') = participantsMuted (conf w)"
    and "participants (conf w') = participants (conf w)"
proof -
  let ?w = "setLocalHostMuteState MEDIA_AUDIO True (unbindHost w)"
  have m: "w' = emit (AudioMuted True) (updateMuted E ?w)"
    using assms(1,2) by (simp add: w'_def muteLocalHost_def host_muted_def Let_def)
  show "rb_pool w' = rb_pool (unbindHost w)" by (simp add: m setLocalHostMuteState_def)
  have "core (conf w') = core (conf ?w)" by (simp add: m)
  note fields_of_core [OF this]
  then show "hostSources (conf w') = map (\<lambda>s. if ma_type s = MEDIA_AUDIO then s\<lparr>ma_muted := True\<rparr> else s) (hostSources (conf w))"
    and "confState (conf w') = ACTIVE_ATTACHED" and "participantsMuted (conf w') = participantsMuted (conf w)"
    and "participants (conf w') = participants (conf w)"
    using assms(1) by (simp_all add: setLocalHostMuteState_def)
qed

lemma muteLocalHost_off:
  assumes "confState (conf w) = ACTIVE_ATTACHED" and "\<not> isMuted HOST (conf w)" and "isMuted k (conf w)" "k \<noteq> DEFAULT_ID"
  shows "bound (rb_pool (muteLocalHost E False ''MEDIA_TYPE_AUDIO'' w)) k = bound (rb_pool w) k"
  using assms by (simp add: muteLocalHost_def Let_def setLocalHostMuteState_def bindHost_bound)

text \<open>
  The host mutes its microphone and unmutes it again. A participant that a moderator
  muted could hear the host before, and does not afterwards: unmuting restores the bindings only of
  the participants that are not muted themselves.
\<close>

theorem mute_cycle_deafens_muted_participant:
  assumes "confState (conf w) = ACTIVE_ATTACHED" and "\<not> host_muted (conf w)" and "default_buffer d (rb_pool w)"
    and "p \<in> set (participants (conf w))" and "isMuted p (conf w)" and "p \<noteq> DEFAULT_ID"
  shows "d \<notin> set (bound (rb_pool (muteLocalHost E False ''MEDIA_TYPE_AUDIO''
      (muteLocalHost E True ''MEDIA_TYPE_AUDIO'' w))) p)"
proof -
  let ?w = "muteLocalHost E True ''MEDIA_TYPE_AUDIO'' w"
  note on = muteLocalHost_on [OF assms(1,2) refl, where E = E]
  have "\<not> isMuted HOST (conf ?w)" and "isMuted p (conf ?w)"
    using on(4) assms(2,5) by (simp_all add: isMuted_def host_muted_def)
  then have "bound (rb_pool (muteLocalHost E False ''MEDIA_TYPE_AUDIO'' ?w)) p = bound (rb_pool ?w) p"
    using on(3) assms(6) by (intro muteLocalHost_off)
  then show ?thesis using on(1) unbindHost_bound [OF assms(3), of d p] assms(4) by simp
qed

lemma demo_default: "default_buffer 0 demo_pool" "bound demo_pool ''call'' = [0]"
  by (simp_all add: default_buffer_def pool_eval)

theorem mute_cycle_deafens_muted_participant_witness:
  "0 \<in> set (bound (rb_pool (demo_place [''call''] demo_pool)) ''call'') \<and>
   0 \<notin> set (bound (rb_pool (muteLocalHost (demo_env [''call'']) False ''MEDIA_TYPE_AUDIO''
      (muteLocalHost (demo_env [''call'']) True ''MEDIA_TYPE_AUDIO'' (demo_place [''call''] demo_pool)))) ''call'')"
  using mute_cycle_deafens_muted_participant [of "demo_place [''call''] demo_pool" 0 "''call''" "demo_env [''call'']"]
  by (simp add: demo_place_facts demo_default DEFAULT_ID_def)

text \<open>
  The recording of the conference goes on with the microphone of a host that mutes itself: the reader
  that stands for the recorder is not a participant, so muting neither unbinds nor filters it.
\<close>

theorem recorder_hears_muted_host:
  assumes "confState (conf w) = ACTIVE_ATTACHED" and "\<not> host_muted (conf w)" and "default_buffer d (rb_pool w)"
    and "s \<in> set (hostSources (conf w))" and "ma_type s = MEDIA_AUDIO"
    and "i = conf_id (conf w)" and "i \<notin> set (participants (conf w))" and "i \<notin> set (micMutedIds (rb_pool w))"
    and "i \<noteq> DEFAULT_ID" and "d \<in> set (bound (rb_pool w) i)"
    and "w' = muteLocalHost E True ''MEDIA_TYPE_AUDIO'' w"
  shows "host_muted (conf w') \<and> d \<in> set (bound (rb_pool w') i) \<and> heard_frame i (rb_pool w') d = head_frame i (rb_pool w') d"
proof -
  note on = muteLocalHost_on [OF assms(1,2,11)]
  have "s\<lparr>ma_muted := True\<rparr> \<in> set (hostSources (conf w'))" using on(2) assms(4,5) by force
  then have "host_muted (conf w')" using assms(5)
    by (auto simp: host_muted_def isMediaSourceMuted_def list_ex_iff intro!: bexI [of _ "s\<lparr>ma_muted := True\<rparr>"])
  moreover have "d \<in> set (bound (rb_pool w') i)"
    using on(1) unbindHost_bound [OF assms(3), of d i] assms(7,10) by simp
  moreover have "i \<notin> set (micMutedIds (rb_pool w'))"
    using on(1) unbindHost_effect(2) [of w] assms(7,8) by (simp add: mic_def)
  ultimately show ?thesis using assms(9) by (simp add: heard_frame_def muted_for_def)
qed

definition demo_recorded :: "(int, int list, int) pool" where
  "demo_recorded = bindHalfDuplexOut ''conf'' DEFAULT_ID demo_pool"

theorem recorder_hears_muted_host_witness:
  "\<exists>w'. w' = muteLocalHost (demo_env [''call'']) True ''MEDIA_TYPE_AUDIO'' (demo_place [] demo_recorded) \<and>
     host_muted (conf w') \<and> 0 \<in> set (bound (rb_pool w') ''conf'') \<and> heard_frame ''conf'' (rb_pool w') 0 = head_frame ''conf'' (rb_pool w') 0"
proof -
  have "default_buffer 0 demo_recorded" "bound demo_recorded ''conf'' = [0]" "micMutedIds demo_recorded = []"
    by (simp_all add: demo_recorded_def bindHalfDuplexOut_def default_buffer_def pool_eval)
  then show ?thesis
    using recorder_hears_muted_host [of "demo_place [] demo_recorded" 0 "host_source MEDIA_AUDIO [] DEFAULT_AUDIO_STREAMID" "''conf''" _ "demo_env [''call'']"]
    by (simp add: demo_place_facts host_source_def DEFAULT_ID_def)
qed

end
