(* ===== verification/Conference_Orders.thy ===== *)
theory Conference_Orders
  imports Conference_Routing
begin

text \<open>
  What an order of a participant can do to the conference, from the received document to the new state:
  an order of somebody who is no moderator reaches only the sender's hand and voice flags, and
  kicking a peer ends exactly when the calls of that peer belong to the account of the conference.
\<close>

section \<open>Orders of members without rights\<close>

text \<open>Everything but hands, voices and the times of voice messages.\<close>

definition quiet :: "participant_info \<Rightarrow> participant_info" where
  "quiet i = i\<lparr>pi_handRaised := False, pi_voiceActivity := False\<rparr>"

definition quiet_info :: "conf_info \<Rightarrow> conf_info" where
  "quiet_info ci = ci\<lparr>rows := map quiet (rows ci)\<rparr>"

definition protected_part :: "conference \<Rightarrow> conference" where
  "protected_part cf = cf\<lparr>confInfo := quiet_info (confInfo cf), remoteHosts := smap_map (\<lambda>_. quiet_info) (remoteHosts cf),
     handsRaised := [], streamsVoiceActive := [], lastVoiceActivitySent := 0, voiceActivitySendPending := False\<rparr>"

lemma protected_part_fields:
  assumes "protected_part cf = protected_part cf'"
  shows "participants cf = participants cf'" and "moderators cf = moderators cf'"
proof -
  from assms have "participants (protected_part cf) = participants (protected_part cf')"
    "moderators (protected_part cf) = moderators (protected_part cf')" by simp_all
  then show "participants cf = participants cf'" and "moderators cf = moderators cf'" by (simp_all add: protected_part_def)
qed

lemma quiet_updates [simp]:
  "quiet (i\<lparr>pi_handRaised := b\<rparr>) = quiet i" "quiet (i\<lparr>pi_voiceActivity := b\<rparr>) = quiet i" "quiet (voice_row E cf i) = quiet i"
  by (simp_all add: quiet_def voice_row_def)

lemma quiet_rows: "(\<And>i. quiet (f i) = quiet i) \<Longrightarrow> quiet_info (ci\<lparr>rows := map f (rows ci)\<rparr>) = quiet_info ci"
  by (simp add: quiet_info_def)

lemma doSendVoiceActivity_keeps [simp]:
  "conf (doSendVoiceActivity E w) = conf w" "rb_pool (doSendVoiceActivity E w) = rb_pool w"
  by (simp_all add: doSendVoiceActivity_def Let_def foreachCall_keeps split: option.split)

lemma updateHandsRaised_keeps:
  "protected_part (conf (updateHandsRaised E w)) = protected_part (conf w)" "rb_pool (updateHandsRaised E w) = rb_pool w"
  "handsRaised (conf (updateHandsRaised E w)) = handsRaised (conf w)"
  by (simp_all add: updateHandsRaised_def upd_rows_def protected_part_def quiet_rows)

lemma sendVoiceActivity_keeps:
  "protected_part (conf (sendVoiceActivity E w)) = protected_part (conf w)" "rb_pool (sendVoiceActivity E w) = rb_pool w"
  "handsRaised (conf (sendVoiceActivity E w)) = handsRaised (conf w)"
  by (simp_all add: sendVoiceActivity_def protected_part_def Let_def)

lemma smap_map_comp: "smap_map f (smap_map g m) = smap_map (\<lambda>k v. f k (g k v)) m"
  by (simp add: smap_map_def case_prod_beta)

lemma updateVoiceActivity_keeps:
  "protected_part (conf (updateVoiceActivity E w)) = protected_part (conf w)" "rb_pool (updateVoiceActivity E w) = rb_pool w"
  "handsRaised (conf (updateVoiceActivity E w)) = handsRaised (conf w)"
  by (simp_all add: updateVoiceActivity_def Let_def sendVoiceActivity_keeps)
    (simp_all add: upd_rows_def protected_part_def quiet_rows smap_map_comp)

text \<open>What the sender's own hand is called, by the device it names.\<close>

definition own_hands :: "('q, 's) conf_env \<Rightarrow> string \<Rightarrow> conference \<Rightarrow> string set" where
  "own_hands E peer cf = {k. \<exists>dev. hand_key E peer dev cf = Some k}"

lemma own_hands_cong:
  assumes "participants cf = participants cf'"
  shows "own_hands E peer cf = own_hands E peer cf'"
  unfolding own_hands_def hand_key_def isHost_def getCallWith_def getCallFromPeerID_def find_call_def assms ..

definition confined :: "('q, 's) conf_env \<Rightarrow> string \<Rightarrow> ('s, 'q, 'r) conf_world \<Rightarrow> ('s, 'q, 'r) conf_world \<Rightarrow> bool" where
  "confined E peer w w' \<longleftrightarrow>
     protected_part (conf w') = protected_part (conf w) \<and> rb_pool w' = rb_pool w \<and>
     set (handsRaised (conf w')) - own_hands E peer (conf w) = set (handsRaised (conf w)) - own_hands E peer (conf w)"

lemma confined_refl: "confined E peer w w"
  by (simp add: confined_def)

lemma confined_trans: "confined E peer w1 w2 \<Longrightarrow> confined E peer w2 w3 \<Longrightarrow> confined E peer w1 w3"
  using own_hands_cong [OF protected_part_fields(1), of "conf w2" "conf w1" E peer] by (simp add: confined_def)

lemma setHandRaised_confined: "confined E peer w (setHandRaised E peer dev b w)"
proof (cases "hand_key E peer dev (conf w)")
  case (Some k)
  then have "k \<in> own_hands E peer (conf w)" by (auto simp: own_hands_def)
  moreover have "protected_part (conf w\<lparr>handsRaised := h\<rparr>) = protected_part (conf w)" for h by (simp add: protected_part_def)
  ultimately show ?thesis using Some
    by (auto simp: setHandRaised_def confined_def updateHandsRaised_keeps)
qed (simp add: setHandRaised_def confined_refl)

lemma setVoiceActivity_confined: "confined E peer w (setVoiceActivity E s b w)"
proof -
  have "protected_part (mark_voice s b cf) = protected_part cf" and "handsRaised (mark_voice s b cf) = handsRaised cf" for cf
    by (simp_all add: mark_voice_def protected_part_def)
  then show ?thesis by (simp add: setVoiceActivity_def confined_refl) (simp add: confined_def updateVoiceActivity_keeps)
qed

lemma apply_order_confined:
  assumes "permitted peer False c"
  shows "\<exists>w'. apply_order E c w = Some w' \<and> confined E peer w w'"
  using assms setHandRaised_confined [where E = E and w = w] setVoiceActivity_confined [where E = E and w = w] confined_refl
  by (cases c) auto

lemma apply_orders_confined:
  assumes "list_all (permitted peer False) cs"
  shows "\<exists>w'. apply_orders E cs w = Some w' \<and> confined E peer w w'"
  using assms
proof (induction cs arbitrary: w)
  case (Cons c cs)
  then obtain w1 where 1: "apply_order E c w = Some w1" "confined E peer w w1" using apply_order_confined by fastforce
  obtain w2 where "apply_orders E cs w1 = Some w2" "confined E peer w1 w2" using Cons by fastforce
  with 1 show ?case by (auto intro: confined_trans)
qed (simp add: confined_refl)


section \<open>Kicking a peer\<close>

text \<open>The participants that are calls with the peer, and those of them the account may hang up.\<close>

definition calls_with :: "('q, 's) conf_env \<Rightarrow> string \<Rightarrow> conference \<Rightarrow> string list" where
  "calls_with E uri cf =
     filter (\<lambda>p. case conf_getCall E p of Some c \<Rightarrow> getRemoteId c = stripSipUriPrefix uri | None \<Rightarrow> False) (participants cf)"

definition may_hang_up :: "('q, 's) conf_env \<Rightarrow> string \<Rightarrow> string \<Rightarrow> bool" where
  "may_hang_up E accountId p \<longleftrightarrow> (\<exists>c. conf_getCall E p = Some c \<and> map_option ca_id (cp_account c) = Some accountId)"

lemma find_map_filter:
  "find P (List.map_filter f xs) = (case filter (\<lambda>x. case f x of Some y \<Rightarrow> P y | None \<Rightarrow> False) xs of [] \<Rightarrow> None | x # _ \<Rightarrow> f x)"
  by (induction xs) (auto simp: map_filter_simps split: option.split)

lemma getCallFromPeerID_first:
  "getCallFromPeerID E uri cf = (case calls_with E uri cf of [] \<Rightarrow> None | p # _ \<Rightarrow> map_option (\<lambda>c. (p, c)) (conf_getCall E p))"
proof -
  have "(\<lambda>p. case map_option (\<lambda>c. (p, c)) (conf_getCall E p) of Some y \<Rightarrow> (case y of (_, c) \<Rightarrow> getRemoteId c = stripSipUriPrefix uri) | None \<Rightarrow> False) =
     (\<lambda>p. case conf_getCall E p of Some c \<Rightarrow> getRemoteId c = stripSipUriPrefix uri | None \<Rightarrow> False)"
    by (auto simp: fun_eq_iff split: option.split)
  then show ?thesis unfolding getCallFromPeerID_def find_call_def find_map_filter calls_with_def by simp
qed

lemma calls_with_getCall: "p \<in> set (calls_with E uri cf) \<Longrightarrow> \<exists>c. conf_getCall E p = Some c"
  by (auto simp: calls_with_def split: option.splits)

lemma participants_hangup:
  "participants (conf (hangupCall E acc p w)) =
     (if may_hang_up E acc p then sset_erase p (participants (conf w)) else participants (conf w))"
proof -
  have "participants (conf (removeParticipant E p w)) = sset_erase p (participants (conf w))" for w :: "('a, 'b, 'c) conf_world"
    by (auto simp: removeParticipant_def Let_def sset_erase_def intro!: filter_True [symmetric] split: option.split)
  then show ?thesis by (auto simp: hangupCall_def may_hang_up_def split: option.split)
qed

lemma calls_with_hangup:
  "may_hang_up E acc p \<Longrightarrow> calls_with E uri (conf (hangupCall E acc p w)) = filter (\<lambda>q. q \<noteq> p) (calls_with E uri (conf w))"
  by (simp add: calls_with_def participants_hangup sset_erase_def conj_commute)

lemma hangup_all_ends:
  assumes "list_all (may_hang_up E acc) (calls_with E uri (conf w))"
  shows "\<exists>w'. hangup_all E acc uri w = Some w' \<and> calls_with E uri (conf w') = []"
  using assms
proof (induction "length (calls_with E uri (conf w))" arbitrary: w rule: less_induct)
  case less
  show ?case
  proof (cases "calls_with E uri (conf w)")
    case Nil
    then show ?thesis by (subst hangup_all.simps) (simp add: getCallFromPeerID_first)
  next
    case (Cons p ps)
    then obtain c where c: "conf_getCall E p = Some c" using calls_with_getCall [of p] by (metis list.set_intros(1))
    let ?w = "hangupCall E acc p w"
    have "may_hang_up E acc p" using less.prems Cons by simp
    then have cw: "calls_with E uri (conf ?w) = filter (\<lambda>q. q \<noteq> p) (calls_with E uri (conf w))" by (rule calls_with_hangup)
    then have "length (calls_with E uri (conf ?w)) < length (calls_with E uri (conf w))"
      by (simp add: Cons less_Suc_eq_le)
    moreover have "list_all (may_hang_up E acc) (calls_with E uri (conf ?w))" using less.prems by (simp add: cw list_all_iff)
    ultimately obtain w' where "hangup_all E acc uri ?w = Some w'" "calls_with E uri (conf w') = []" using less.hyps by blast
    then show ?thesis by (subst hangup_all.simps) (simp add: getCallFromPeerID_first Cons c)
  qed
qed

lemma hangup_all_stuck:
  assumes "hangup_all E acc uri w = Some w'"
  shows "list_all (may_hang_up E acc) (calls_with E uri (conf w))"
  using assms
proof (rule hangup_all.raw_induct [where P = "\<lambda>E acc uri w _. list_all (may_hang_up E acc) (calls_with E uri (conf w))", rotated])
  fix hangup E acc uri and w w' :: "('a, 'b, 'c) conf_world"
  assume IH: "\<And>E acc uri w w'. hangup E acc uri w = Some w' \<Longrightarrow> list_all (may_hang_up E acc) (calls_with E uri (conf w))"
    and body: "(case getCallFromPeerID E uri (conf w) of None \<Rightarrow> Some w | Some (p, _) \<Rightarrow> hangup E acc uri (hangupCall E acc p w)) = Some w'"
  show "list_all (may_hang_up E acc) (calls_with E uri (conf w))"
  proof (cases "calls_with E uri (conf w)")
    case (Cons p ps)
    then obtain c where c: "conf_getCall E p = Some c" using calls_with_getCall [of p] by (metis list.set_intros(1))
    with body Cons have r: "hangup E acc uri (hangupCall E acc p w) = Some w'" by (simp add: getCallFromPeerID_first)
    note IH [OF r]
    moreover have "may_hang_up E acc p"
    proof (rule ccontr)
      assume no: "\<not> may_hang_up E acc p"
      then have "calls_with E uri (conf (hangupCall E acc p w)) = calls_with E uri (conf w)"
        by (simp add: calls_with_def participants_hangup)
      with IH [OF r] Cons no show False by simp
    qed
    ultimately show ?thesis using calls_with_hangup [of E acc p uri w] by (auto simp: list_all_iff)
  qed simp
qed

text \<open>
  C32: Kicking a peer from all its devices returns exactly if every call of the conference with that peer belongs to
  the account of the conference, and then no call with the peer is left. With a call of another account the
  loop asks for the same call for ever, because hanging it up through the wrong account does nothing.
\<close>

theorem kick_ends_iff_own_calls:
  assumes "env_account E = Some acc"
  shows "(case hangupParticipant E uri [] w of
      Some w' \<Rightarrow> list_all (may_hang_up E (ca_id acc)) (calls_with E (stripSipUriPrefix uri) (conf w)) \<and>
                  calls_with E (stripSipUriPrefix uri) (conf w') = []
    | None \<Rightarrow> \<not> list_all (may_hang_up E (ca_id acc)) (calls_with E (stripSipUriPrefix uri) (conf w)))"
proof -
  let ?u = "stripSipUriPrefix uri"
  have h: "hangupParticipant E uri [] w = hangup_all E (ca_id acc) ?u w" using assms by (simp add: hangupParticipant_def Let_def)
  show ?thesis
  proof (cases "hangup_all E (ca_id acc) ?u w")
    case None
    with hangup_all_ends [of E "ca_id acc" ?u w] show ?thesis by (auto simp: h)
  next
    case (Some w')
    from hangup_all_stuck [OF this] hangup_all_ends [of E "ca_id acc" ?u w] Some show ?thesis by (auto simp: h)
  qed
qed

text \<open>A peer called through another account of the user cannot be kicked: the host's thread hangs.\<close>

definition demo_other_env :: "(int list, int) conf_env" where
  "demo_other_env = (demo_env [''call''])\<lparr>env_account := Some (demo_account\<lparr>ca_id := ''other''\<rparr>)\<rparr>"

lemma demo_remote: "getRemoteId (demo_peer ''sip:call'') = ''call''" "stripSipUriPrefix ''call'' = ''call''"
  by code_simp+

theorem kick_ends_iff_own_calls_witness:
  "hangupParticipant demo_other_env ''call'' [] (demo_place [] demo_pool) = None"
proof -
  let ?w = "demo_place [] demo_pool"
  have g: "conf_getCall demo_other_env ''call'' = Some (demo_peer ''sip:call'')"
    by (simp add: demo_other_env_def conf_getCall_def demo_env_def)
  then have "calls_with demo_other_env ''call'' (conf ?w) = [''call'']"
    by (simp add: calls_with_def demo_place_facts demo_remote)
  moreover have "\<not> may_hang_up demo_other_env ''other'' ''call''"
    by (simp add: may_hang_up_def g demo_peer_def demo_account_def)
  moreover have "env_account demo_other_env = Some (demo_account\<lparr>ca_id := ''other''\<rparr>)" by (simp add: demo_other_env_def)
  ultimately show ?thesis
    using kick_ends_iff_own_calls [of demo_other_env "demo_account\<lparr>ca_id := ''other''\<rparr>" "''call''" ?w]
    by (simp add: demo_remote split: option.splits)
qed


end
