(* ===== verification/Conference_Voice.thy ===== *)
theory Conference_Voice
  imports Conference_Orders
begin

text \<open>
  The throttle of voice activity messages. A run is a sequence of reports of voice changes and of the
  delayed flush, each at a time of the clock; the flush happens no earlier than it was scheduled for.
\<close>

section \<open>What one send writes\<close>

definition voice_message :: "('q, 's) conf_env \<Rightarrow> conference \<Rightarrow> string \<Rightarrow> conf_event option" where
  "voice_message E cf p =
     (case conf_getCall E p of
        Some c \<Rightarrow> map_option (\<lambda>a. SendVoiceActivity p (info_for_call a c cf)) (cp_account c)
      | None \<Rightarrow> None)"

definition voice_messages :: "('q, 's) conf_env \<Rightarrow> conference \<Rightarrow> conf_event list" where
  "voice_messages E cf = List.map_filter (voice_message E cf) (participants cf)"

lemma doSend_log:
  "conf_log (doSendVoiceActivity E w) =
     conf_log w @ voice_messages E (conf w) @ [InfosUpdated (toVectorMapStringString (info_for_client (conf w)))]"
proof -
  define f where "f = (\<lambda>(w :: ('a, 'b, 'c) conf_world) p. case conf_getCall E p of
      Some c \<Rightarrow> (case cp_account c of Some a \<Rightarrow> emit (SendVoiceActivity p (info_for_call a c (conf w))) w | None \<Rightarrow> w)
    | None \<Rightarrow> w)"
  have s: "conf (f w p) = conf w" and l: "conf_log (f w p) = conf_log w @ (case voice_message E (conf w) p of Some e \<Rightarrow> [e] | None \<Rightarrow> [])"
    for w p by (auto simp: f_def voice_message_def emit_def split: option.split)
  have "conf (foldl f w ps) = conf w" for ps by (induction ps arbitrary: w) (simp_all add: s)
  moreover have "conf_log (foldl f w ps) = conf_log w @ List.map_filter (voice_message E (conf w)) ps" for ps
    by (induction ps arbitrary: w) (auto simp: s l map_filter_simps split: option.split)
  ultimately show ?thesis
    unfolding doSendVoiceActivity_def foreachCall_def for_participants_def f_def [symmetric] Let_def voice_messages_def
    by (simp add: emit_def)
qed

section \<open>Timed runs\<close>

datatype voice_event = VoiceReport string bool | FlushNow

text \<open>The world, when a flush is due, the times of the sends with the latest first, and the clock.\<close>

record ('s, 'q, 'r) voice_run =
  vr_world :: "('s, 'q, 'r) conf_world"
  vr_due :: "int option"
  vr_sends :: "int list"
  vr_clock :: int

text \<open>Sends and scheduled flushes are read off what the operation adds to the log.\<close>

definition is_send :: "conf_event \<Rightarrow> bool" where
  "is_send e = (case e of InfosUpdated _ \<Rightarrow> True | _ \<Rightarrow> False)"

definition observe :: "int \<Rightarrow> ('s, 'q, 'r) conf_world \<Rightarrow> ('s, 'q, 'r) voice_run \<Rightarrow> ('s, 'q, 'r) voice_run" where
  "observe now w s =
     (let new = drop (length (conf_log (vr_world s))) (conf_log w) in
      \<lparr>vr_world = w,
       vr_due = foldl (\<lambda>due e. case e of ScheduleFlush d \<Rightarrow> Some (now + d) | _ \<Rightarrow> due) (vr_due s) new,
       vr_sends = (if list_ex is_send new then now # vr_sends s else vr_sends s), vr_clock = now\<rparr>)"

definition voice_step ::
  "('s, 'q, 'r) voice_run \<Rightarrow> ('q, 's) conf_env \<times> voice_event \<Rightarrow> ('s, 'q, 'r) voice_run" where
  "voice_step s e =
     (let E = fst e; now = env_now E in
      if now < vr_clock s then s
      else case snd e of
        VoiceReport st b \<Rightarrow> observe now (setVoiceActivity E st b (vr_world s)) s
      | FlushNow \<Rightarrow>
          (case vr_due s of
             Some t \<Rightarrow> if t \<le> now then observe now (flushVoiceActivity E (vr_world s)) (s\<lparr>vr_due := None\<rparr>) else s
           | None \<Rightarrow> s))"

definition voice_inv :: "('s, 'q, 'r) voice_run \<Rightarrow> bool" where
  "voice_inv s \<longleftrightarrow>
     (let cf = conf (vr_world s) in
      vr_due s = (if voiceActivitySendPending cf then Some (lastVoiceActivitySent cf + VOICE_ACTIVITY_MIN_INTERVAL) else None) \<and>
      lastVoiceActivitySent cf \<le> vr_clock s \<and> list_all (\<lambda>t. t \<le> lastVoiceActivitySent cf) (vr_sends s) \<and>
      sorted_wrt (\<lambda>later earlier. earlier + VOICE_ACTIVITY_MIN_INTERVAL \<le> later) (vr_sends s))"

lemma no_event_in_messages:
  "list_ex is_send (voice_messages E cf) = False"
  "foldl (\<lambda>due e. case e of ScheduleFlush d \<Rightarrow> Some (now + d) | _ \<Rightarrow> due) due (voice_messages E cf) = due"
proof -
  have "e \<in> set (voice_messages E cf) \<Longrightarrow> \<exists>p i. e = SendVoiceActivity p i" for e
    by (auto simp: voice_messages_def voice_message_def map_filter_def split: option.splits)
  then have *: "list_all (\<lambda>e. \<exists>p i. e = SendVoiceActivity p i) (voice_messages E cf)" by (simp add: list_all_iff)
  from * show "list_ex is_send (voice_messages E cf) = False"
    by (induction "voice_messages E cf") (auto simp: is_send_def list_ex_iff list_all_iff)
  have "foldl (\<lambda>due e. case e of ScheduleFlush d \<Rightarrow> Some (now + d) | _ \<Rightarrow> due) due es = due"
    if "list_all (\<lambda>e. \<exists>p i. e = SendVoiceActivity p i) es" for es :: "conf_event list"
    using that by (induction es) auto
  with * show "foldl (\<lambda>due e. case e of ScheduleFlush d \<Rightarrow> Some (now + d) | _ \<Rightarrow> due) due (voice_messages E cf) = due" by blast
qed

text \<open>What an observed operation that ends with a send, a scheduled flush, or nothing looks like.\<close>

lemma observe_send:
  "conf_log w = conf_log (vr_world s) @ [] \<Longrightarrow>
   observe now (doSendVoiceActivity E w) s = \<lparr>vr_world = doSendVoiceActivity E w, vr_due = vr_due s, vr_sends = now # vr_sends s, vr_clock = now\<rparr>"
  "conf_log w = conf_log (vr_world s) @ [MixerVoiceActivity m] \<Longrightarrow>
   observe now (doSendVoiceActivity E w) s = \<lparr>vr_world = doSendVoiceActivity E w, vr_due = vr_due s, vr_sends = now # vr_sends s, vr_clock = now\<rparr>"
  by (simp_all add: observe_def doSend_log no_event_in_messages is_send_def)

lemma setVoiceActivity_cases:
  obtains (same) "setVoiceActivity E st b w = w" "\<not> stream_exists st (conf w) \<or> isVoiceActive st (conf w) = b"
  | (changed) w1 m where "setVoiceActivity E st b w = sendVoiceActivity E w1" "conf_log w1 = conf_log w @ [MixerVoiceActivity m]"
      "isVoiceActive st (conf w1) = b"
      "participants (conf w1) = participants (conf w)"
      "voiceActivitySendPending (conf w1) = voiceActivitySendPending (conf w)"
      "lastVoiceActivitySent (conf w1) = lastVoiceActivitySent (conf w)"
proof (cases "\<not> stream_exists st (conf w) \<or> isVoiceActive st (conf w) = b")
  case False
  then have s: "setVoiceActivity E st b w = updateVoiceActivity E (upd_conf (mark_voice st b) w)" by (simp add: setVoiceActivity_def)
  show ?thesis
    by (rule changed) (simp add: s updateVoiceActivity_def Let_def, simp_all add: emit_def upd_conf_def upd_rows_def mark_voice_def isVoiceActive_def)
qed (use same in \<open>simp add: setVoiceActivity_def\<close>)

lemma sendVoiceActivity_cases:
  obtains (pending) "voiceActivitySendPending (conf w)" "sendVoiceActivity E w = w"
  | (schedule) "\<not> voiceActivitySendPending (conf w)"
      "sendVoiceActivity E w = emit (ScheduleFlush (lastVoiceActivitySent (conf w) + VOICE_ACTIVITY_MIN_INTERVAL - env_now E))
         (upd_conf (\<lambda>c. c\<lparr>voiceActivitySendPending := True\<rparr>) w)"
  | (send) "\<not> voiceActivitySendPending (conf w)" "lastVoiceActivitySent (conf w) + VOICE_ACTIVITY_MIN_INTERVAL \<le> env_now E"
      "sendVoiceActivity E w = doSendVoiceActivity E (upd_conf (\<lambda>c. c\<lparr>lastVoiceActivitySent := env_now E\<rparr>) w)"
proof (cases "voiceActivitySendPending (conf w)")
  case True
  then show ?thesis using pending by (simp add: sendVoiceActivity_def)
next
  case False
  then show ?thesis using schedule send
    by (cases "env_now E - lastVoiceActivitySent (conf w) < VOICE_ACTIVITY_MIN_INTERVAL")
      (simp_all add: sendVoiceActivity_def Let_def algebra_simps)
qed

text \<open>What a report does to the observed run.\<close>

lemma report_outcome:
  assumes now: "\<not> env_now E < vr_clock s"
    and w_def: "w = vr_world s" and s1_def: "s1 = voice_step s (E, VoiceReport st b)"
  obtains (same) "\<not> stream_exists st (conf w) \<or> isVoiceActive st (conf w) = b" "s1 = s\<lparr>vr_clock := env_now E\<rparr>"
  | (pending) w1 where "voiceActivitySendPending (conf w)" "conf_log w1 = conf_log w @ drop (length (conf_log w)) (conf_log w1)"
      "s1 = s\<lparr>vr_clock := env_now E, vr_world := w1\<rparr>" "isVoiceActive st (conf w1) = b"
      "participants (conf w1) = participants (conf w)" "voiceActivitySendPending (conf w1)"
      "lastVoiceActivitySent (conf w1) = lastVoiceActivitySent (conf w)"
  | (schedule) w1 where "\<not> voiceActivitySendPending (conf w)"
      "s1 = s\<lparr>vr_clock := env_now E, vr_world := w1, vr_due := Some (lastVoiceActivitySent (conf w) + VOICE_ACTIVITY_MIN_INTERVAL)\<rparr>"
      "isVoiceActive st (conf w1) = b" "participants (conf w1) = participants (conf w)" "voiceActivitySendPending (conf w1)"
      "lastVoiceActivitySent (conf w1) = lastVoiceActivitySent (conf w)"
  | (send) w1 where "\<not> voiceActivitySendPending (conf w)" "lastVoiceActivitySent (conf w) + VOICE_ACTIVITY_MIN_INTERVAL \<le> env_now E"
      "s1 = s\<lparr>vr_clock := env_now E, vr_world := w1, vr_sends := env_now E # vr_sends s\<rparr>"
      "isVoiceActive st (conf w1) = b" "participants (conf w1) = participants (conf w)"
      "\<not> voiceActivitySendPending (conf w1)" "lastVoiceActivitySent (conf w1) = env_now E"
      "set (voice_messages E (conf w1)) \<subseteq> set (drop (length (conf_log w)) (conf_log w1))"
proof -
  have s1: "s1 = observe (env_now E) (setVoiceActivity E st b w) s" using now by (simp add: s1_def voice_step_def w_def Let_def)
  show ?thesis
  proof (rule setVoiceActivity_cases [of E st b w])
    assume "setVoiceActivity E st b w = w" "\<not> stream_exists st (conf w) \<or> isVoiceActive st (conf w) = b"
    then show ?thesis by (intro same) (simp_all add: s1 observe_def w_def)
  next
    fix w1 m
    assume c: "setVoiceActivity E st b w = sendVoiceActivity E w1" "conf_log w1 = conf_log w @ [MixerVoiceActivity m]"
      "isVoiceActive st (conf w1) = b" "participants (conf w1) = participants (conf w)"
      "voiceActivitySendPending (conf w1) = voiceActivitySendPending (conf w)"
      "lastVoiceActivitySent (conf w1) = lastVoiceActivitySent (conf w)"
    show ?thesis
    proof (rule sendVoiceActivity_cases [of w1 E])
      assume "voiceActivitySendPending (conf w1)" "sendVoiceActivity E w1 = w1"
      with c show ?thesis by (intro pending [of w1]) (simp_all add: s1 observe_def w_def is_send_def)
    next
      let ?w = "emit (ScheduleFlush (lastVoiceActivitySent (conf w1) + VOICE_ACTIVITY_MIN_INTERVAL - env_now E))
         (upd_conf (\<lambda>c. c\<lparr>voiceActivitySendPending := True\<rparr>) w1)"
      assume "\<not> voiceActivitySendPending (conf w1)" "sendVoiceActivity E w1 = ?w"
      with c show ?thesis
        by (intro schedule [of ?w]) (simp_all add: s1 observe_def w_def is_send_def isVoiceActive_def, simp_all add: emit_def upd_conf_def is_send_def)
    next
      let ?u = "upd_conf (\<lambda>c. c\<lparr>lastVoiceActivitySent := env_now E\<rparr>) w1"
      assume p: "\<not> voiceActivitySendPending (conf w1)" "lastVoiceActivitySent (conf w1) + VOICE_ACTIVITY_MIN_INTERVAL \<le> env_now E"
        and w2: "sendVoiceActivity E w1 = doSendVoiceActivity E ?u"
      have "conf_log ?u = conf_log w @ [MixerVoiceActivity m]" by (simp add: c(2) upd_conf_def)
      note o = observe_send(2) [OF this [unfolded w_def], of "env_now E" E] and l = this
      show ?thesis
        by (rule send [of "doSendVoiceActivity E ?u"]) (use c p in \<open>auto simp: s1 w2 o doSend_log l isVoiceActive_def\<close>)
    qed
  qed
qed

lemma flush_outcome:
  assumes "\<not> env_now E < vr_clock s" and "vr_due s = Some t" and "t \<le> env_now E"
  shows "voice_step s (E, FlushNow) = s\<lparr>vr_world := flushVoiceActivity E (vr_world s), vr_due := None,
     vr_sends := env_now E # vr_sends s, vr_clock := env_now E\<rparr>"
  using assms observe_send(1) [of "upd_conf (\<lambda>c. c\<lparr>voiceActivitySendPending := False, lastVoiceActivitySent := env_now E\<rparr>) (vr_world s)"
      "s\<lparr>vr_due := None\<rparr>" "env_now E" E]
  by (simp add: voice_step_def Let_def flushVoiceActivity_def) (simp add: upd_conf_def)

lemma voice_inv_step:
  assumes inv: "voice_inv s"
  shows "voice_inv (voice_step s e)"
proof -
  obtain E ev where e: "e = (E, ev)" by fastforce
  show ?thesis
  proof (cases "env_now E < vr_clock s")
    case True
    with inv show ?thesis by (simp add: voice_step_def e Let_def)
  next
    case now: False
    show ?thesis
    proof (cases ev)
      case (VoiceReport st b)
      show ?thesis unfolding e VoiceReport
        by (rule report_outcome [OF now refl refl, of st b])
          (use inv now in \<open>auto simp: voice_inv_def Let_def list_all_iff\<close>)
    next
      case FlushNow
      show ?thesis
      proof (cases "\<exists>t. vr_due s = Some t \<and> t \<le> env_now E")
        case True
        then obtain t where t: "vr_due s = Some t" "t \<le> env_now E" by blast
        have f: "conf (flushVoiceActivity E (vr_world s)) =
            (conf (vr_world s))\<lparr>voiceActivitySendPending := False, lastVoiceActivitySent := env_now E\<rparr>"
          by (simp add: flushVoiceActivity_def)
        show ?thesis using inv t now unfolding e FlushNow flush_outcome [OF now t]
          by (auto simp: voice_inv_def Let_def list_all_iff f split: if_splits)
      next
        case False
        with inv now show ?thesis by (simp add: voice_step_def e FlushNow Let_def split: option.split)
      qed
    qed
  qed
qed

interpretation vr: invariant_machine voice_step voice_inv
  by unfold_locales (rule voice_inv_step)

definition voice_start :: "int \<Rightarrow> ('s, 'q, 'r) conf_world \<Rightarrow> ('s, 'q, 'r) voice_run" where
  "voice_start t w = \<lparr>vr_world = w, vr_due = None, vr_sends = [], vr_clock = t\<rparr>"

lemma voice_inv_start:
  "\<not> voiceActivitySendPending (conf w) \<Longrightarrow> lastVoiceActivitySent (conf w) \<le> t \<Longrightarrow> voice_inv (voice_start t w)"
  by (simp add: voice_inv_def voice_start_def)

text \<open>
  Voice activity messages leave the host at most once in 250 milliseconds, whatever is reported
  and whenever the scheduled flush runs after its time.
\<close>

theorem voice_messages_spaced:
  assumes "\<not> voiceActivitySendPending (conf w)" and "lastVoiceActivitySent (conf w) \<le> t"
  shows "sorted_wrt (\<lambda>later earlier. earlier + 250 \<le> later) (vr_sends (foldl voice_step (voice_start t w) es))"
  using vr.run_inv [OF voice_inv_start [OF assms], of es] by (simp add: voice_inv_def Let_def VOICE_ACTIVITY_MIN_INTERVAL_def)

text \<open>While a flush is waiting, reports neither cancel nor delay it.\<close>

lemma reports_keep_due:
  assumes "voice_inv s" and "vr_due s = Some t" and "list_all (\<lambda>r. snd r \<noteq> FlushNow) rs"
  shows "vr_due (foldl voice_step s rs) = Some t \<and>
    participants (conf (vr_world (foldl voice_step s rs))) = participants (conf (vr_world s))"
  using assms
proof (induction rs arbitrary: s)
  case (Cons r rs)
  then obtain E st b where r: "r = (E, VoiceReport st b)" by (cases r; cases "snd r") auto
  have pend: "voiceActivitySendPending (conf (vr_world s))" using Cons.prems(1,2) by (auto simp: voice_inv_def Let_def split: if_splits)
  have "vr_due (voice_step s r) = Some t \<and> participants (conf (vr_world (voice_step s r))) = participants (conf (vr_world s))"
  proof (cases "env_now E < vr_clock s")
    case True
    then show ?thesis using Cons.prems(2) by (simp add: voice_step_def r Let_def)
  next
    case False
    show ?thesis unfolding r by (rule report_outcome [OF False refl refl, of st b]) (use pend Cons.prems(2) in auto)
  qed
  with Cons.IH [of "voice_step s r"] voice_inv_step [OF Cons.prems(1)] Cons.prems(3) show ?case by simp
qed simp

lemma voice_message_sent:
  assumes "p \<in> set (participants cf)" and "conf_getCall E p = Some c" and "cp_account c = Some a"
  shows "SendVoiceActivity p (info_for_call a c cf) \<in> set (voice_messages E cf)"
  using assms by (force simp: voice_messages_def voice_message_def map_filter_def)

lemma flush_sends:
  assumes "voice_inv s" and "vr_due s = Some t" and "list_all (\<lambda>r. snd r \<noteq> FlushNow) rs" and "p \<in> set (participants (conf (vr_world s)))"
    and "cp_account c = Some a" and "s2 = foldl voice_step s rs" and "t \<le> env_now E2" and "vr_clock s2 \<le> env_now E2"
    and "conf_getCall E2 p = Some c"
  shows "SendVoiceActivity p (info_for_call a c (conf (vr_world s2))) \<in>
    set (drop (length (conf_log (vr_world s2))) (conf_log (vr_world (voice_step s2 (E2, FlushNow)))))"
proof -
  let ?w = "upd_conf (\<lambda>c. c\<lparr>voiceActivitySendPending := False, lastVoiceActivitySent := env_now E2\<rparr>) (vr_world s2)"
  note k = reports_keep_due [OF assms(1-3), folded assms(6)]
  have "voice_step s2 (E2, FlushNow) = s2\<lparr>vr_world := doSendVoiceActivity E2 ?w, vr_due := None,
     vr_sends := env_now E2 # vr_sends s2, vr_clock := env_now E2\<rparr>"
    using flush_outcome [of E2 s2 t] k assms(7,8) by (simp add: flushVoiceActivity_def)
  moreover have "conf_log ?w = conf_log (vr_world s2)" by (simp add: upd_conf_def)
  moreover have "SendVoiceActivity p (info_for_call a c (conf ?w)) \<in> set (voice_messages E2 (conf ?w))"
    using k assms(4,5,9) by (intro voice_message_sent) simp_all
  moreover have "info_for_call a c (conf ?w) = info_for_call a c (conf (vr_world s2))" by (simp add: info_for_call_def)
  ultimately show ?thesis by (simp add: doSend_log)
qed


text \<open>One call with a row in the description; a change at 1000 ms is sent at once, the next waits.\<close>

definition demo_talk :: "(int, int list, int) conf_world" where
  "demo_talk = \<lparr>conf = (demo_conf [])\<lparr>confInfo := ConfInfo_new\<lparr>rows := [ParticipantInfo_new\<lparr>pi_sinkId := ''s''\<rparr>]\<rparr>\<rparr>,
     rb_pool = demo_pool, conf_log = []\<rparr>"

lemma demo_talk_facts:
  "voiceActivitySendPending (conf demo_talk) = False" "lastVoiceActivitySent (conf demo_talk) = 0"
  "stream_exists ''s'' (conf demo_talk)" "isVoiceActive ''s'' (conf demo_talk) = False" "participants (conf demo_talk) = [''call'']"
  by (simp_all add: demo_talk_def demo_conf_def Conference_new_def stream_exists_def isVoiceActive_def)

theorem voice_messages_spaced_witness:
  "sorted_wrt (\<lambda>later earlier. earlier + 250 \<le> later) (vr_sends (foldl voice_step (voice_start 10 demo_talk)
     [(demo_env [''call''], VoiceReport ''s'' True), ((demo_env [''call''])\<lparr>env_now := 1100\<rparr>, VoiceReport ''s'' False),
      ((demo_env [''call''])\<lparr>env_now := 1300\<rparr>, FlushNow)]))"
  by (rule voice_messages_spaced) (simp_all add: demo_talk_facts)


end
