(* ===== verification/Conference_Layout.thy ===== *)
theory Conference_Layout
  imports Conference_Routing
begin

text \<open>
  How the description of a conference is rebuilt when the video mixer reports its sources
  (\<^verbatim>\<open>attachVideoMixerCallbacks\<close> of \<^verbatim>\<open>src/conference.cpp\<close>), and the short messages that carry voice activity from a
  host to its peers (\<^verbatim>\<open>voiceActivivtyToString\<close>, \<^verbatim>\<open>Call::setConferenceVoiceActivity\<close> and \<^verbatim>\<open>setVoiceActivity\<close> on JSON).
\<close>

section \<open>Sources of the mixer\<close>

record source_info =
  si_source :: nat
  si_x :: int
  si_y :: int
  si_w :: int
  si_h :: int
  si_hasVideo :: bool
  si_callId :: string
  si_streamId :: string

record stream_info =
  st_callId :: string
  st_streamId :: string

text \<open>The peer's number and flags; what the row starts with when the call is gone.\<close>

definition call_flags :: "('q, 's) conf_env \<Rightarrow> string \<Rightarrow> string \<times> bool \<times> bool" where
  "call_flags E callId =
     (case conf_getCall E callId of
        Some c \<Rightarrow> (cp_peerNumber c, cp_peerMuted c, cp_peerRecording c)
      | None \<Rightarrow> ([], False, False))"

definition remote_source_row :: "('q, 's) conf_env \<Rightarrow> conference \<Rightarrow> source_info \<Rightarrow> participant_info" where
  "remote_source_row E cf info =
     (let callId = si_callId info; (uri, isLocalMuted, isPeerRecording) = call_flags E callId in
      \<lparr>pi_uri = uri, pi_device = [], pi_sinkId = si_streamId info, pi_active = (activeStream cf = si_streamId info),
       pi_x = si_x info, pi_y = si_y info, pi_w = si_w info, pi_h = si_h info, pi_videoMuted = (\<not> si_hasVideo info),
       pi_audioLocalMuted = isLocalMuted, pi_audioModeratorMuted = isMuted callId cf,
       pi_isModerator = isModerator E (stripSipUriPrefix uri) cf, pi_handRaised = isHandRaised callId cf,
       pi_voiceActivity = isVoiceActive (si_streamId info) cf, pi_recording = isPeerRecording, pi_callId = callId\<rparr>)"

text \<open>A source without a call of its own: a stream the mixer knows, or the host. Answers whether the host now has a row.\<close>

definition local_source_row ::
  "('q, 's) conf_env \<Rightarrow> conference \<Rightarrow> stream_info \<Rightarrow> bool \<Rightarrow> source_info \<Rightarrow> participant_info \<times> bool" where
  "local_source_row E cf stream hostAdded info =
     (let known = (st_streamId stream \<noteq> []);
          sid = (if known then st_streamId stream else streamId [] DEFAULT_VIDEO_STREAMID);
          (uri, isLocalMuted, isPeerRecording) = (if known then call_flags E (st_callId stream) else ([], False, False));
          callId = (if known \<and> conf_getCall E (st_callId stream) \<noteq> None then st_callId stream else []);
          host = (uri = [] \<and> \<not> hostAdded)
      in (\<lparr>pi_uri = uri, pi_device = [], pi_sinkId = sid, pi_active = (activeStream cf = sid),
           pi_x = si_x info, pi_y = si_y info, pi_w = si_w info, pi_h = si_h info, pi_videoMuted = (\<not> si_hasVideo info),
           pi_audioLocalMuted = (if host then isMediaSourceMuted MEDIA_AUDIO cf else isLocalMuted),
           pi_audioModeratorMuted = (known \<and> isMuted (st_callId stream) cf),
           pi_isModerator = isModerator E (stripSipUriPrefix uri) cf,
           pi_handRaised = isHandRaised (if uri = [] then HOST else callId) cf,
           pi_voiceActivity = isVoiceActive sid cf,
           pi_recording = (if host then conf_recording cf else isPeerRecording), pi_callId = callId\<rparr>,
          hostAdded \<or> host))"

fun source_rows ::
  "('q, 's) conf_env \<Rightarrow> conference \<Rightarrow> (nat \<Rightarrow> stream_info) \<Rightarrow> bool \<Rightarrow> source_info list \<Rightarrow> participant_info list \<times> bool" where
  "source_rows E cf streams hostAdded [] = ([], hostAdded)"
| "source_rows E cf streams hostAdded (info # infos) =
     (if si_callId info \<noteq> []
      then let (rs, h) = source_rows E cf streams hostAdded infos in (remote_source_row E cf info # rs, h)
      else let (r, h1) = local_source_row E cf (streams (si_source info)) hostAdded info;
               (rs, h) = source_rows E cf streams h1 infos
           in (r # rs, h))"

text \<open>The size is the mixer's; without a row of the host one is added at the end.\<close>

definition onSourcesUpdated ::
  "('q, 's) conf_env \<Rightarrow> (nat \<Rightarrow> stream_info) \<Rightarrow> int \<Rightarrow> int \<Rightarrow> source_info list \<Rightarrow> ('s, 'q, 'r) conf_world \<Rightarrow> ('s, 'q, 'r) conf_world" where
  "onSourcesUpdated E streams height width infos w =
     (case env_account E of
        None \<Rightarrow> w
      | Some _ \<Rightarrow>
          let cf = conf w;
              (rs, hostAdded) = source_rows E cf streams False infos;
              host = ParticipantInfo_new\<lparr>pi_videoMuted := True, pi_audioLocalMuted := isMediaSourceMuted MEDIA_AUDIO cf,
                                        pi_isModerator := True\<rparr>
          in updateConferenceInfo E
               (ConfInfo_new\<lparr>rows := (if hostAdded then rs else rs @ [host]), ci_h := height, ci_w := width,
                             ci_layout := ci_layout (confInfo cf)\<rparr>) w)"

section \<open>What the rebuilt description says\<close>

definition truthful_row :: "('q, 's) conf_env \<Rightarrow> conference \<Rightarrow> participant_info \<Rightarrow> bool" where
  "truthful_row E cf i \<longleftrightarrow>
     pi_handRaised i = isHandRaised (pi_callId i) cf \<and> pi_isModerator i = isModerator E (stripSipUriPrefix (pi_uri i)) cf \<and>
     pi_audioModeratorMuted i = isMuted (pi_callId i) cf \<and> pi_voiceActivity i = isVoiceActive (pi_sinkId i) cf \<and>
     pi_active i = (activeStream cf = pi_sinkId i) \<and>
     (\<exists>c. conf_getCall E (pi_callId i) = Some c \<and> pi_uri i = cp_peerNumber c \<and> pi_audioLocalMuted i = cp_peerMuted c \<and>
        pi_recording i = cp_peerRecording c)"

lemma call_flags_uri: "call_flags E p = (u, m, r) \<Longrightarrow> u \<noteq> [] \<Longrightarrow>
    \<exists>c. conf_getCall E p = Some c \<and> u = cp_peerNumber c \<and> m = cp_peerMuted c \<and> r = cp_peerRecording c"
  by (auto simp: call_flags_def split: option.splits)

lemma remote_row_truthful: "pi_uri (remote_source_row E cf info) \<noteq> [] \<Longrightarrow> truthful_row E cf (remote_source_row E cf info)"
  by (auto simp: remote_source_row_def truthful_row_def Let_def split: prod.splits dest: call_flags_uri)

lemma local_row_truthful:
  assumes "pi_uri (fst (local_source_row E cf st h info)) \<noteq> []"
  shows "truthful_row E cf (fst (local_source_row E cf st h info))"
  using assms
  by (auto simp: local_source_row_def truthful_row_def Let_def split: prod.splits if_splits dest: call_flags_uri)

lemma source_rows_all:
  assumes "\<And>info. info \<in> set infos \<Longrightarrow> si_callId info \<noteq> [] \<Longrightarrow> P (remote_source_row E cf info)"
    and "\<And>info h. info \<in> set infos \<Longrightarrow> si_callId info = [] \<Longrightarrow> P (fst (local_source_row E cf (streams (si_source info)) h info))"
  shows "i \<in> set (fst (source_rows E cf streams h infos)) \<Longrightarrow> P i"
  using assms by (induction infos arbitrary: h) (auto simp: case_prod_beta Let_def split: if_splits)

lemma onSourcesUpdated_rows:
  assumes "env_account E = Some a"
  shows "rows (confInfo (conf (onSourcesUpdated E streams height width infos w))) =
    fst (source_rows E (conf w) streams False infos) @
    (if snd (source_rows E (conf w) streams False infos) then []
     else [ParticipantInfo_new\<lparr>pi_videoMuted := True, pi_audioLocalMuted := isMediaSourceMuted MEDIA_AUDIO (conf w), pi_isModerator := True\<rparr>])"
  using assms by (simp add: onSourcesUpdated_def updateConferenceInfo_def case_prod_beta Let_def)

text \<open>
  After the mixer reported its sources, every row of a peer states the peer's mute, hand, moderator, voice,
  recording and selection flags as the conference has them, so a later update of one of the flags finds nothing to correct.
\<close>

theorem rebuilt_rows_are_truthful:
  assumes "env_account E = Some a"
    and "i \<in> set (rows (confInfo (conf (onSourcesUpdated E streams height width infos w))))" and "pi_uri i \<noteq> []"
  shows "truthful_row E (conf w) i"
proof -
  have "i \<in> set (fst (source_rows E (conf w) streams False infos))"
    using assms(2,3) by (auto simp: onSourcesUpdated_rows [OF assms(1)] ParticipantInfo_new_def split: if_splits)
  then have "pi_uri i \<noteq> [] \<longrightarrow> truthful_row E (conf w) i"
    by (rule source_rows_all [rotated 2]) (auto intro: remote_row_truthful local_row_truthful)
  with assms(3) show ?thesis by blast
qed

theorem rebuilt_rows_are_truthful_witness:
  "\<exists>i. i \<in> set (rows (confInfo (conf (onSourcesUpdated (demo_env [''call'']) (\<lambda>_. \<lparr>st_callId = [], st_streamId = []\<rparr>) 480 640
        [\<lparr>si_source = 0, si_x = 0, si_y = 0, si_w = 640, si_h = 480, si_hasVideo = True, si_callId = ''call'', si_streamId = ''s''\<rparr>]
        (demo_place [''call''] demo_pool))))) \<and> truthful_row (demo_env [''call'']) (demo_conf [''call'']) i"
proof -
  let ?E = "demo_env [''call'']" and ?w = "demo_place [''call''] demo_pool" and ?st = "\<lambda>_. \<lparr>st_callId = [], st_streamId = []\<rparr>"
  let ?info = "\<lparr>si_source = 0, si_x = 0, si_y = 0, si_w = 640, si_h = 480, si_hasVideo = True, si_callId = ''call'', si_streamId = ''s''\<rparr>"
  have acc: "env_account ?E = Some demo_account" by (simp add: demo_env_def)
  have i: "remote_source_row ?E (conf ?w) ?info \<in> set (rows (confInfo (conf (onSourcesUpdated ?E ?st 480 640 [?info] ?w))))"
    by (simp add: onSourcesUpdated_rows [OF acc])
  have "pi_uri (remote_source_row ?E (conf ?w) ?info) \<noteq> []"
    by (simp add: remote_source_row_def call_flags_def conf_getCall_def demo_env_def demo_peer_def Let_def)
  from rebuilt_rows_are_truthful [OF acc i this] i show ?thesis by (auto simp: demo_place_def)
qed

lemma host_rows:
  assumes "\<And>info. info \<in> set infos \<Longrightarrow> si_callId info \<noteq> [] \<or> st_streamId (streams (si_source info)) = []"
  shows "i \<in> set (fst (source_rows E cf streams h infos)) \<Longrightarrow> pi_callId i = [] \<Longrightarrow> pi_uri i = [] \<and> \<not> pi_audioModeratorMuted i"
    and "snd (source_rows E cf streams h infos) \<Longrightarrow> \<not> h \<Longrightarrow> \<exists>i \<in> set (fst (source_rows E cf streams h infos)). pi_callId i = []"
proof -
  have r: "pi_callId (remote_source_row E cf info) = si_callId info" for info
    by (simp add: remote_source_row_def Let_def split: prod.split)
  have l: "pi_callId (fst (local_source_row E cf st h info)) = []" "pi_uri (fst (local_source_row E cf st h info)) = []"
      "\<not> pi_audioModeratorMuted (fst (local_source_row E cf st h info))" if "st_streamId st = []" for st h info
    using that by (simp_all add: local_source_row_def Let_def)
  have "i \<in> set (fst (source_rows E cf streams h infos)) \<Longrightarrow> pi_callId i = [] \<longrightarrow> pi_uri i = [] \<and> \<not> pi_audioModeratorMuted i"
    by (rule source_rows_all [rotated 2]) (use assms r l in auto)
  then show "i \<in> set (fst (source_rows E cf streams h infos)) \<Longrightarrow> pi_callId i = [] \<Longrightarrow> pi_uri i = [] \<and> \<not> pi_audioModeratorMuted i" by blast
  show "snd (source_rows E cf streams h infos) \<Longrightarrow> \<not> h \<Longrightarrow> \<exists>i \<in> set (fst (source_rows E cf streams h infos)). pi_callId i = []"
    using assms by (induction infos arbitrary: h) (auto simp: case_prod_beta Let_def l split: if_splits)
qed

lemma muteHost_on: "isMuted HOST (conf (muteHost E True w))"
proof -
  have "isMuted HOST (conf (updateMuted E w')) = isMuted HOST (conf w')" for w' :: "('a, 'b, 'c) conf_world"
    by (simp add: isMuted_def fields_of_core(3) [OF updates_keep(1)])
  then show ?thesis by (simp add: muteHost_def Let_def) (simp add: isMuted_def)
qed

lemma onSourcesUpdated_core: "core (conf (onSourcesUpdated E streams height width infos w)) = core (conf w)"
  by (simp add: onSourcesUpdated_def updateConferenceInfo_def core_def Let_def split: option.split prod.split)

text \<open>
  The host is the exception. A moderator mutes the host; at the mixer's next report the conference still has the host
  muted, there is a row of the host, and no such row says that it is muted.
\<close>

theorem host_mute_flag_is_lost:
  assumes "env_account E = Some a"
    and "\<And>info. info \<in> set infos \<Longrightarrow> si_callId info \<noteq> [] \<or> st_streamId (streams (si_source info)) = []"
    and "w' = onSourcesUpdated E streams height width infos (muteHost E True w)"
  shows "isMuted HOST (conf w') \<and> (\<exists>i \<in> set (rows (confInfo (conf w'))). pi_callId i = []) \<and>
    list_all (\<lambda>i. pi_callId i = [] \<longrightarrow> pi_uri i = [] \<and> \<not> pi_audioModeratorMuted i) (rows (confInfo (conf w')))"
proof -
  let ?s = "source_rows E (conf (muteHost E True w)) streams False infos"
  note r = onSourcesUpdated_rows [OF assms(1), of streams height width infos "muteHost E True w", folded assms(3)]
  have "isMuted HOST (conf w')"
    using muteHost_on [of E w] by (simp add: assms(3) isMuted_def fields_of_core(3) [OF onSourcesUpdated_core])
  moreover have "\<exists>i \<in> set (rows (confInfo (conf w'))). pi_callId i = []"
    using host_rows(2) [OF assms(2), where E = E and cf = "conf (muteHost E True w)" and h = False] by (auto simp: r ParticipantInfo_new_def)
  moreover have "list_all (\<lambda>i. pi_callId i = [] \<longrightarrow> pi_uri i = [] \<and> \<not> pi_audioModeratorMuted i) (rows (confInfo (conf w')))"
    using host_rows(1) [OF assms(2), where E = E and cf = "conf (muteHost E True w)" and h = False]
    by (auto simp: r list_all_iff ParticipantInfo_new_def)
  ultimately show ?thesis by blast
qed

theorem host_mute_flag_is_lost_witness:
  "\<exists>w'. w' = onSourcesUpdated (demo_env [''call'']) (\<lambda>_. \<lparr>st_callId = [], st_streamId = []\<rparr>) 480 640
        [\<lparr>si_source = 0, si_x = 0, si_y = 0, si_w = 640, si_h = 480, si_hasVideo = True, si_callId = [], si_streamId = []\<rparr>]
        (muteHost (demo_env [''call'']) True (demo_place [] demo_pool)) \<and>
     isMuted HOST (conf w') \<and> (\<exists>i. i \<in> set (rows (confInfo (conf w'))) \<and> pi_uri i = [] \<and> \<not> pi_audioModeratorMuted i)"
proof -
  let ?st = "\<lambda>_::nat. \<lparr>st_callId = [], st_streamId = []\<rparr>"
  let ?infos = "[\<lparr>si_source = 0, si_x = 0, si_y = 0, si_w = 640, si_h = 480, si_hasVideo = True, si_callId = [], si_streamId = []\<rparr>]"
  have acc: "env_account (demo_env [''call'']) = Some demo_account" by (simp add: demo_env_def)
  have "isMuted HOST (conf w') \<and> (\<exists>i \<in> set (rows (confInfo (conf w'))). pi_callId i = []) \<and>
      list_all (\<lambda>i. pi_callId i = [] \<longrightarrow> pi_uri i = [] \<and> \<not> pi_audioModeratorMuted i) (rows (confInfo (conf w')))"
    if "w' = onSourcesUpdated (demo_env [''call'']) ?st 480 640 ?infos (muteHost (demo_env [''call'']) True (demo_place [] demo_pool))" for w'
    by (rule host_mute_flag_is_lost [OF acc _ that]) simp
  then show ?thesis by (auto simp: list_all_iff)
qed

section \<open>Switching the host's camera\<close>

text \<open>Names of video sources, \<^verbatim>\<open>src/media/video/video_source_utils.cpp\<close>.\<close>

definition kSeparator :: string where "kSeparator = ''://''"
definition kDesktopAlias :: string where "kDesktopAlias = ''desktop''"

definition containsExactDeviceId :: "string list \<Rightarrow> string \<Rightarrow> bool" where
  "containsExactDeviceId deviceIds i \<longleftrightarrow> i \<noteq> [] \<and> i \<in> set deviceIds"

definition chooseDefaultDeviceId :: "string \<Rightarrow> string list \<Rightarrow> string" where
  "chooseDefaultDeviceId currentDefault physicalDeviceIds =
     (if containsExactDeviceId physicalDeviceIds currentDefault then currentDefault
      else case physicalDeviceIds of d # _ \<Rightarrow> d | [] \<Rightarrow> [])"

definition normalizeVideoSwitchSource :: "string \<Rightarrow> string" where
  "normalizeVideoSwitchSource source =
     (if source = [] then []
      else case find_sub kSeparator source 0 of
        None \<Rightarrow> source
      | Some pos \<Rightarrow>
          if take pos source \<noteq> kDesktopAlias then source
          else ''display'' @ kSeparator @ drop (pos + length kSeparator) source)"

definition isValidVideoSwitchSource :: "string \<Rightarrow> string list \<Rightarrow> bool" where
  "isValidVideoSwitchSource source availableCameraIds =
     (let normalized = normalizeVideoSwitchSource source in
      if normalized = [] then True
      else case find_sub kSeparator normalized 0 of
        None \<Rightarrow> False
      | Some pos \<Rightarrow>
          let prefix = take pos normalized; suffix = drop (pos + length kSeparator) normalized in
          if suffix = [] then False
          else if prefix = ''camera'' then containsExactDeviceId availableCameraIds suffix
          else prefix = ''display'' \<or> prefix = ''file'')"

text \<open>
  The first video source gets the new name, in place; the list without the other video sources that the
  loop collects is never stored. The sources are changed even if video turns out to be disabled.
\<close>

fun rename_first_video :: "string \<Rightarrow> media_attribute list \<Rightarrow> media_attribute list" where
  "rename_first_video input [] = []"
| "rename_first_video input (s # ss) =
     (if ma_type s = MEDIA_VIDEO then s\<lparr>ma_sourceUri := input\<rparr> # ss else s # rename_first_video input ss)"

definition NEGOTIATION_FAIL :: string where "NEGOTIATION_FAIL = ''NEGOTIATION_FAIL''"

definition switchInput ::
  "('q, 's) conf_env \<Rightarrow> string list \<Rightarrow> string \<Rightarrow> ('s, 'q, 'r) conf_world \<Rightarrow> bool \<times> ('s, 'q, 'r) conf_world" where
  "switchInput E devices input w =
     (let normalizedInput = normalizeVideoSwitchSource input in
      if \<not> isValidVideoSwitchSource normalizedInput devices then (False, reportMediaNegotiationStatus NEGOTIATION_FAIL w)
      else
        let w1 = upd_conf (\<lambda>c. c\<lparr>hostSources := rename_first_video normalizedInput (hostSources c)\<rparr>) w in
        if \<not> isVideoEnabled E then (False, reportMediaNegotiationStatus NEGOTIATION_FAIL w1)
        else (True, reportMediaNegotiationStatus NEGOTIATION_SUCCESS (emit (SwitchInputs [normalizedInput]) w1)))"

lemma find_sub_display: "find_sub kSeparator (''display'' @ kSeparator @ rest) 0 = Some 7"
  by (simp add: kSeparator_def find_sub_def occurs_at_def upt_conv_Cons del: upt_Suc)

lemma normalize_idempotent: "normalizeVideoSwitchSource (normalizeVideoSwitchSource s) = normalizeVideoSwitchSource s"
proof -
  have "normalizeVideoSwitchSource (''display'' @ kSeparator @ r) = ''display'' @ kSeparator @ r" for r
    by (simp only: normalizeVideoSwitchSource_def find_sub_display) (simp add: kDesktopAlias_def)
  then show ?thesis by (auto simp: normalizeVideoSwitchSource_def [of s] split: option.split) (simp_all add: normalizeVideoSwitchSource_def)
qed

text \<open>Every source keeps its place, its kind and its flags, so every video source stays in the list.\<close>

lemma switchInput_keeps_sources:
  "map ma_type (hostSources (conf (snd (switchInput E devices input w)))) = map ma_type (hostSources (conf w)) \<and>
   map ma_muted (hostSources (conf (snd (switchInput E devices input w)))) = map ma_muted (hostSources (conf w))"
proof -
  have "map ma_type (rename_first_video i ms) = map ma_type ms \<and> map ma_muted (rename_first_video i ms) = map ma_muted ms" for i ms
    by (induction ms) auto
  then show ?thesis by (simp add: switchInput_def Let_def reportMediaNegotiationStatus_def)
qed

section \<open>Voice messages\<close>

text \<open>An array with an object per row; without rows the value stays null.\<close>

definition voice_item :: "('j, 'text) json_lib \<Rightarrow> participant_info \<Rightarrow> 'j" where
  "voice_item J p = object_of J [(''uri'', j_str J (pi_uri p)), (''sinkId'', j_str J (pi_sinkId p)), (''state'', j_bool J (pi_voiceActivity p))]"

definition voiceActivivtyToString :: "('j, 'text) json_lib \<Rightarrow> conf_info \<Rightarrow> 'text" where
  "voiceActivivtyToString J ci =
     j_write J (if rows ci = [] then j_null J else j_array J (map (voice_item J) (rows ci)))"

text \<open>The values of a message: an array, an object with an array under \<^verbatim>\<open>p\<close>, or one object.\<close>

definition voice_items :: "('j, 'text) json_lib \<Rightarrow> 'j \<Rightarrow> 'j list option" where
  "voice_items J json =
     (if j_isArray J json then Some (j_elements J json)
      else if j_isObject J json then
        do { m \<leftarrow> j_isMember J json ''p'';
             p \<leftarrow> (if m then j_get J json ''p'' else Some (j_null J));
             Some (if m \<and> j_isArray J p then j_elements J p else [json]) }
      else Some [])"

record voice_update =
  vu_uri :: string
  vu_sinkId :: string
  vu_state :: bool

text \<open>What a peer reads from one value: nothing, an update, or an exception.\<close>

definition text_member :: "('j, 'text) json_lib \<Rightarrow> 'j \<Rightarrow> string \<Rightarrow> string option" where
  "text_member J v k = do { m \<leftarrow> j_isMember J v k; if m then Option.bind (j_get J v k) (j_asString J) else Some [] }"

definition parse_update :: "('j, 'text) json_lib \<Rightarrow> 'j \<Rightarrow> voice_update option option" where
  "parse_update J v =
     (if \<not> j_isObject J v then Some None
      else do {
        m \<leftarrow> j_isMember J v ''state'';
        if \<not> m then Some None
        else do {
          uri \<leftarrow> text_member J v ''uri'';
          sinkId \<leftarrow> text_member J v ''sinkId'';
          state \<leftarrow> Option.bind (j_get J v ''state'') (j_asBool J);
          Some (if uri = [] \<and> sinkId = [] then None else Some \<lparr>vu_uri = uri, vu_sinkId = sinkId, vu_state = state\<rparr>) } })"

fun parse_updates :: "('j, 'text) json_lib \<Rightarrow> 'j list \<Rightarrow> voice_update list option" where
  "parse_updates J [] = Some []"
| "parse_updates J (v # vs) =
     do { u \<leftarrow> parse_update J v; us \<leftarrow> parse_updates J vs; Some (case u of Some x \<Rightarrow> x # us | None \<Rightarrow> us) }"

text \<open>The first row with the sink, or else the first with the address; answers whether a flag changed.\<close>

fun set_first :: "(participant_info \<Rightarrow> bool) \<Rightarrow> bool \<Rightarrow> participant_info list \<Rightarrow> participant_info list" where
  "set_first P b [] = []"
| "set_first P b (i # is) = (if P i then i\<lparr>pi_voiceActivity := b\<rparr> # is else i # set_first P b is)"

definition apply_update :: "voice_update \<Rightarrow> participant_info list \<Rightarrow> participant_info list" where
  "apply_update u is =
     (if vu_sinkId u \<noteq> [] \<and> list_ex (\<lambda>i. vu_sinkId u = pi_sinkId i) is
      then set_first (\<lambda>i. vu_sinkId u = pi_sinkId i) (vu_state u) is
      else if vu_uri u \<noteq> [] then set_first (\<lambda>i. vu_uri u = pi_uri i) (vu_state u) is
      else is)"

text \<open>
  \<^verbatim>\<open>Call::setConferenceVoiceActivity\<close> of a call that is not in a conference of ours: the new rows and whether the
  client is told. \<^verbatim>\<open>None\<close> is an exception; the rows are then as before.
\<close>

definition setConferenceVoiceActivity ::
  "('j, 'text) json_lib \<Rightarrow> 'text \<Rightarrow> participant_info list \<Rightarrow> (participant_info list \<times> bool) option" where
  "setConferenceVoiceActivity J msg is =
     (case j_read J msg of
        None \<Rightarrow> Some (is, False)
      | Some json \<Rightarrow>
          do { vs \<leftarrow> voice_items J json;
               us \<leftarrow> parse_updates J vs;
               Some (foldl (\<lambda>(is, changed) u. let is' = apply_update u is in (is', changed \<or> is' \<noteq> is)) (is, False) us) })"

text \<open>The other end of a call that is in one of our conferences: marks streams until a value throws.\<close>

definition apply_voice_state :: "('j, 'text) json_lib \<Rightarrow> 'j \<Rightarrow> conference \<times> bool \<Rightarrow> (conference \<times> bool) option" where
  "apply_voice_state J v s =
     (if \<not> j_isObject J v then Some s
      else do {
        a \<leftarrow> j_isMember J v ''sinkId'';
        b \<leftarrow> (if a then j_isMember J v ''state'' else Some False);
        if \<not> b then Some s
        else do {
          sinkId \<leftarrow> Option.bind (j_get J v ''sinkId'') (j_asString J);
          state \<leftarrow> Option.bind (j_get J v ''state'') (j_asBool J);
          Some (if sinkId = [] \<or> \<not> stream_exists sinkId (fst s) \<or> isVoiceActive sinkId (fst s) = state then s
                else (mark_voice sinkId state (fst s), True)) } })"

fun apply_voice_states :: "('j, 'text) json_lib \<Rightarrow> 'j list \<Rightarrow> conference \<times> bool \<Rightarrow> (conference \<times> bool) \<times> bool" where
  "apply_voice_states J [] s = (s, True)"
| "apply_voice_states J (v # vs) s =
     (case apply_voice_state J v s of Some s' \<Rightarrow> apply_voice_states J vs s' | None \<Rightarrow> (s, False))"

definition setVoiceActivity_json ::
  "('j, 'text) json_lib \<Rightarrow> ('q, 's) conf_env \<Rightarrow> 'j \<Rightarrow> ('s, 'q, 'r) conf_world \<Rightarrow> ('s, 'q, 'r) conf_world" where
  "setVoiceActivity_json J E json w =
     (case voice_items J json of
        None \<Rightarrow> w
      | Some vs \<Rightarrow>
          let ((cf, needsUpdate), finished) = apply_voice_states J vs (conf w, False);
              w1 = upd_conf (\<lambda>_. cf) w
          in if finished \<and> needsUpdate then updateVoiceActivity E w1 else w1)"

subsection \<open>From the host to a peer\<close>

lemma object_of_get:
  assumes "json_laws J"
  shows "j_isObject J (voice_item J p)"
    "j_isMember J (voice_item J p) ''state'' = Some True" "j_isMember J (voice_item J p) ''uri'' = Some True"
    "j_isMember J (voice_item J p) ''sinkId'' = Some True" "j_get J (voice_item J p) ''state'' = Some (j_bool J (pi_voiceActivity p))"
    "j_get J (voice_item J p) ''uri'' = Some (j_str J (pi_uri p))" "j_get J (voice_item J p) ''sinkId'' = Some (j_str J (pi_sinkId p))"
  using assms by (simp_all add: voice_item_def object_of_def json_laws_def)

lemma parse_voice_items:
  assumes "json_laws J" and "[] \<notin> set (map pi_sinkId ps)"
  shows "parse_updates J (map (voice_item J) ps) =
    Some (map (\<lambda>p. \<lparr>vu_uri = pi_uri p, vu_sinkId = pi_sinkId p, vu_state = pi_voiceActivity p\<rparr>) ps)"
proof -
  have "j_asString J (j_str J s) = Some s" "j_asBool J (j_bool J b) = Some b" for s b
    using assms(1) by (simp_all add: json_laws_def)
  with assms(2) show ?thesis
    by (induction ps) (auto simp: parse_update_def text_member_def object_of_get [OF assms(1)])
qed

lemma set_first_unique:
  "s \<notin> set (map pi_sinkId xs) \<Longrightarrow> pi_sinkId i = s \<Longrightarrow>
   set_first (\<lambda>i. s = pi_sinkId i) b (xs @ i # ys) = xs @ i\<lparr>pi_voiceActivity := b\<rparr> # ys"
  by (induction xs) auto

lemma apply_updates:
  assumes "map pi_sinkId is = map pi_sinkId ps" and "distinct (map pi_sinkId (done @ is))" and "[] \<notin> set (map pi_sinkId is)"
  shows "foldl (\<lambda>(is, changed) u. let is' = apply_update u is in (is', changed \<or> is' \<noteq> is)) (done @ is, c)
      (map (\<lambda>p. \<lparr>vu_uri = pi_uri p, vu_sinkId = pi_sinkId p, vu_state = pi_voiceActivity p\<rparr>) ps) =
    (done @ map2 (\<lambda>i p. i\<lparr>pi_voiceActivity := pi_voiceActivity p\<rparr>) is ps,
     c \<or> map pi_voiceActivity is \<noteq> map pi_voiceActivity ps)"
  using assms
proof (induction ps arbitrary: "done" "is" c)
  case (Cons p ps)
  then obtain i js where "is": "is = i # js" "pi_sinkId i = pi_sinkId p" "map pi_sinkId js = map pi_sinkId ps" by auto
  let ?i = "i\<lparr>pi_voiceActivity := pi_voiceActivity p\<rparr>"
  have "apply_update \<lparr>vu_uri = pi_uri p, vu_sinkId = pi_sinkId p, vu_state = pi_voiceActivity p\<rparr> (done @ is) = (done @ [?i]) @ js"
    using Cons.prems(2,3) set_first_unique [of "pi_sinkId p" "done" i "pi_voiceActivity p" js] by (auto simp: apply_update_def "is")
  moreover have "(done @ [?i]) @ js \<noteq> done @ is \<longleftrightarrow> pi_voiceActivity i \<noteq> pi_voiceActivity p"
    by (cases i) (auto simp: "is")
  ultimately show ?case
    using Cons.IH [of js "done @ [?i]"] Cons.prems(2,3) by (simp add: "is" disj_assoc)
qed simp

text \<open>
  A voice message brings the peer's view up to date: if the peer holds rows for the same streams, with distinct names,
  then after the message every row has the voice flag of the host's row, nothing else changed,
  and the client is told exactly if a flag changed.
\<close>

theorem voice_message_roundtrip:
  assumes "json_laws J" and "rows ci \<noteq> []" and "map pi_sinkId view = map pi_sinkId (rows ci)"
    and "distinct (map pi_sinkId view)" and "[] \<notin> set (map pi_sinkId view)"
  shows "setConferenceVoiceActivity J (voiceActivivtyToString J ci) view =
    Some (map2 (\<lambda>i p. i\<lparr>pi_voiceActivity := pi_voiceActivity p\<rparr>) view (rows ci),
          map pi_voiceActivity view \<noteq> map pi_voiceActivity (rows ci))"
proof -
  have "j_read J (voiceActivivtyToString J ci) = Some (j_array J (map (voice_item J) (rows ci)))"
    and "voice_items J (j_array J (map (voice_item J) (rows ci))) = Some (map (voice_item J) (rows ci))"
    using assms(1,2) by (simp_all add: json_laws_def voiceActivivtyToString_def voice_items_def)
  moreover have "[] \<notin> set (map pi_sinkId (rows ci))" using assms(3,5) by metis
  ultimately show ?thesis
    using apply_updates [of view "rows ci" "[]" False] parse_voice_items [OF assms(1), of "rows ci"] assms(3-5)
    by (simp add: setConferenceVoiceActivity_def)
qed

theorem voice_message_roundtrip_witness:
  "setConferenceVoiceActivity json_model
     (voiceActivivtyToString json_model (ConfInfo_new\<lparr>rows := [ParticipantInfo_new\<lparr>pi_sinkId := ''s'', pi_voiceActivity := True\<rparr>]\<rparr>))
     [ParticipantInfo_new\<lparr>pi_sinkId := ''s'', pi_uri := ''bob''\<rparr>] =
   Some ([ParticipantInfo_new\<lparr>pi_sinkId := ''s'', pi_uri := ''bob'', pi_voiceActivity := True\<rparr>], True)"
  using voice_message_roundtrip [of json_model "ConfInfo_new\<lparr>rows := [ParticipantInfo_new\<lparr>pi_sinkId := ''s'', pi_voiceActivity := True\<rparr>]\<rparr>"
      "[ParticipantInfo_new\<lparr>pi_sinkId := ''s'', pi_uri := ''bob''\<rparr>]"] json_model_laws
  by (simp add: ParticipantInfo_new_def)

end
