(* ===== verification/Spec2Isabelle.thy ===== *)
theory Spec2Isabelle
  imports Call_Factory Sip_Lost Sip_Hold Message_Engine Congestion_Control Manager_Hangup Conference_Voice Conference_Layout
begin

text \<open>
  \<^bold>\<open>Verification of sip\_core.\<close> The repository is a SIP user agent library in C++. A manager holds
  accounts and calls; a call is a state machine, possibly with one sub-call per device of the peer;
  the audio of calls flows through ring buffers that a pool binds to each other; messages are
  queued and retried per account; conferences are driven by orders that participants send as JSON;
  a timer thread runs the jobs everything else schedules; an account keeps itself registered over one of several routes
  and moves its calls when the network changes.

  \<^bold>\<open>Theories\<close> (sources are under \<^verbatim>\<open>src/src\<close>):
  \<^item> \<open>Sip_Prelude\<close>: ordered maps and sets as \<^verbatim>\<open>std::map\<close> and \<^verbatim>\<open>std::set\<close> have them, circular indices, random
    draws until a test passes, and the locales of finite maps, of machines with an invariant, as functions
    or as relations, and of machines that refine another one.
  \<^item> \<open>Audio_Frame_Resizer\<close> (\<^verbatim>\<open>media/audio/audio_frame_resizer.cpp\<close>): the sample queue that cuts frames to one
    size. Samples come out in order and exactly once; a frame size of zero hangs it.
  \<^item> \<open>Audio_Mix\<close> (\<^verbatim>\<open>AudioFrame::mix\<close> in \<^verbatim>\<open>client/videomanager.cpp\<close>): mixing frames with saturation.
  \<^item> \<open>Ring_Buffer\<close> (\<^verbatim>\<open>media/audio/ringbuffer.cpp\<close>): the circular buffer with one read offset per reader. It
    refines a queue per reader; the case in which a slow reader loses everything is made precise.
  \<^item> \<open>Ring_Buffer_Pool\<close> (\<^verbatim>\<open>media/audio/ringbufferpool.cpp\<close>): buffers, bindings and the mixing reader. Bindings
    and read offsets stay consistent, unbinding undoes binding, a read mixes what the caller hears.
  \<^item> \<open>Call\<close> (\<^verbatim>\<open>call.cpp\<close>): call and connection state, listeners, sub-calls, merging, pending messages. An
    interleaving is a list of tasks; the client's view follows the call's state.
  \<^item> \<open>Call_Factory\<close> (\<^verbatim>\<open>call_factory.cpp\<close>, \<^verbatim>\<open>call_set.h\<close>): the registry of live calls and its queries.
  \<^item> \<open>Message_Engine\<close> (\<^verbatim>\<open>im/message_engine.cpp\<close>): the message queue, its retries, and the file it saves.
  \<^item> \<open>Json_Library\<close>: the interface of jsoncpp, which is not part of the repository, as a parameter.
  \<^item> \<open>Conference_Protocol\<close> (\<^verbatim>\<open>conference_protocol.cpp\<close>): conference orders, their parser and who may do what.
  \<^item> \<open>Conference_Info\<close> (\<^verbatim>\<open>conference.h\<close>, \<^verbatim>\<open>Call::setConferenceInfo\<close>): the description of a conference and its JSON; reading
    what was written gives it back, and bridged hosts do not send each other their own rows.
  \<^item> \<open>Conference\<close> (\<^verbatim>\<open>conference.cpp\<close>, and of \<^verbatim>\<open>manager.cpp\<close> what acts on a conference): the conference as a record beside the
    ring buffer pool, every operation as a function on both. Calls are snapshots in an environment \<^verbatim>\<open>E\<close>
    that an operation gets; what it asks of calls, of the video mixer and of the client goes to a log.
  \<^item> \<open>Conference_Mute\<close>: runs of conference operations interleaved with operations of other threads on the pool;
    a muted host's microphone reaches nobody.
  \<^item> \<open>Conference_Routing\<close>: what muting does to the bindings, exactly, with three defects made precise.
  \<^item> \<open>Conference_Orders\<close>: an order from the received document to the new state; what peers without rights can
    do, and when kicking a peer ends.
  \<^item> \<open>Conference_Voice\<close>: timed runs of voice activity reports; messages are spaced, and every change is delivered.
  \<^item> \<open>Conference_Layout\<close> (with \<^verbatim>\<open>media/video/video_source_utils.cpp\<close>): the description rebuilt from the sources of the mixer,
    switching the camera, and voice messages from the host to a peer's view.
  \<^item> \<open>Scheduled_Executor\<close> (\<^verbatim>\<open>scheduled_executor.cpp\<close>): the timer thread as steps on its job map.
  \<^item> \<open>Audio_Devices\<close> (\<^verbatim>\<open>AudioDeviceGuard\<close> in \<^verbatim>\<open>manager.cpp\<close>): guards of the sound device on top of the timer thread, as a step
    relation on all threads. The driver runs exactly the streams that are held or about to be stopped.
  \<^item> \<open>Ringing\<close> (\<^verbatim>\<open>media/audio/tonecontrol.cpp\<close>, tones and ringtones in \<^verbatim>\<open>manager.cpp\<close>): what sounds holds a stream that
    runs; a call that waits for its own ringtone gets one decision.
  \<^item> \<open>Manager_Calls\<close> (call and conference control of \<^verbatim>\<open>manager.cpp\<close>, and of \<^verbatim>\<open>sip/sipcall.cpp\<close> the commands that it gives to calls):
    one state of calls, conference objects, pool, tone and device, every operation of the manager on it, and
    runs of these operations as a step relation. Operations of a conference are those of \<open>Conference\<close>; what they
    ask of calls is carried out. New identifiers are new, and there are fewer than \<^verbatim>\<open>2^32 - 4\<close> calls.
  \<^item> \<open>Manager_Sound\<close>: in every reachable state the device counts exactly the guards of calls and of the tone.
  \<^item> \<open>Manager_Members\<close>: in every reachable state a call points to a conference exactly if that conference lists it.
  \<^item> \<open>Manager_Conferences\<close>: a locale lifts properties that conferences keep to all runs of the manager; what clients
    are told about conferences.
  \<^item> \<open>Manager_Hangup\<close>: what hanging up leaves behind, messages in conferences, answers that are given up.
  \<^item> \<open>Dialog_Refresh\<close> (\<^verbatim>\<open>sip/sipcall.cpp\<close>, and of \<^verbatim>\<open>sip/sipaccount.cpp\<close> what acts on one call): a call whose network changed. Its
    dialog is refreshed by a re-invitation under a watchdog; retries, follow-ups and deferred answers are tasks that may run in
    any order. A talk never hangs on a dialog that cannot be refreshed, and retries keep within their budget.
  \<^item> \<open>Sip_Account\<close> (\<^verbatim>\<open>sip/sipaccount.cpp\<close>): registration, the choice of the main or a backup route, keep-alive probes, recovery of
    the transport and the calls that depend on it, as handlers on one record. PJSIP, name resolution, the transport broker and the clock
    are an environment whose answers may depend on the state; armed timers, requests in flight, resolutions and posted closures are
    part of the state, and a run is any sequence of handlers that are due. The recursion of \<^verbatim>\<open>doRegister\<close> is unrolled once.
  \<^item> \<open>Sip_Routes\<close>: the unrolled recursion satisfies the equation of the code; a locale for properties that every handler of an account
    keeps; an invariant of all runs.
  \<^item> \<open>Sip_Failover\<close>: a failing main route is left for the next backup route and taken back when it answers; recoveries are rationed;
    re-invitations that wait for a registration are not forgotten.
  \<^item> \<open>Sip_Lost\<close>: sequences of events after which an account is stranded or the client crashes.
  \<^item> \<open>Audio_Rtp\<close> (\<^verbatim>\<open>media/audio/audio_rtp_session.cpp\<close>, \<^verbatim>\<open>media/rtp_session.h\<close>): the audio session of a call with its socket, sender,
    receiver and microphone, its modes of early media and of hold, and the 16-bit sequence numbers of its packets, which go on
    over stops and starts. Sockets, encoders and the microphone are an environment.
  \<^item> \<open>Sip_Media\<close> (\<^verbatim>\<open>sip/sipcall.cpp\<close>, \<^verbatim>\<open>sdp_media_update_cb\<close> in \<^verbatim>\<open>sip/sipvoiplink.cpp\<close>): the media streams of a SIP call, from the
    requests of the client and the offers of the peer over the result of the negotiation to the commands to the sessions; hold, resume,
    answer, hang-up and recording. What SDP yields and whether PJSIP accepts is an environment that may depend on the state.
  \<^item> \<open>Sip_Hold\<close>: a locale for properties of audio sessions that changes of attributes keep; with two interpretations of it, in every
    reachable state a held call has no open microphone. Holding is announced or undone; where resuming and changing media goes wrong.
  \<^item> \<open>Media_Attribute\<close> (\<^verbatim>\<open>media/media_attribute.cpp\<close>): the exchange format of media descriptions.
  \<^item> \<open>Congestion_Control\<close> (\<^verbatim>\<open>media/congestion_control.cpp\<close> with the REMB parts of \<^verbatim>\<open>media/socket_pair.cpp\<close> and
    \<^verbatim>\<open>media/video/video_rtp_session.cpp\<close>): bit rate packets byte by byte and the overuse detector.
  \<^item> \<open>String_Utils\<close> (\<^verbatim>\<open>string_utils.cpp\<close>, \<^verbatim>\<open>uri.cpp\<close>): parsing, splitting and printing.

  \<^bold>\<open>Conventions.\<close> Objects are records, handlers are functions on them, an exception or a failed
  call is \<^verbatim>\<open>None\<close> or a value of an error type. A component whose operations other threads may call has a
  datatype of operations, and its theorems quantify over all lists of them, or a step relation and
  theorems about all reachable states. Mutexes make each
  operation one step. A loop that may run for ever is a partial function into the option type
  (\<open>enqueue\<close>, \<open>string_replace\<close>, \<open>hangup_all\<close>) or takes the sequence of states it observes (\<open>wait_loop\<close>), so a theorem that it
  returns says so; no loop is cut off by a bound of the model's own. Time points and durations are
  integers; floating point numbers appear only as an ordered type with a negation. Random numbers
  are an argument: the list of values drawn.

  \<^bold>\<open>Not modelled.\<close> What PJSIP, ffmpeg, yaml-cpp and the audio drivers do, and the code that only
  drives them: SIP messages with their headers and credentials, SDP, presence, codecs, the sessions and the pipeline of video, device I/O,
  configuration files, logging. The media that a negotiation yields are part of the environment of a call. Whether the SIP stack accepts an answer or a
  re-invitation is part of the environment of an operation of the manager, and its asynchronous failures are operations of their own. Of an account, whether a request can be
  built and sent, the contact that \<^verbatim>\<open>checkNATAddress\<close> computes and the texts of reasons are in the environment or left out;
  handlers are atomic although the code does not take one lock for all of them. Of the conference, the scaling of remote rows is a
  parameter (it computes with floating point numbers), and the mixer appears only with its active stream and the sources it reports.
\<close>

end
